(* ===== verification/Prelude.thy ===== *)
theory Prelude
  imports Main "HOL-Library.Word" "HOL-Library.List_Lexorder"
begin

text \<open>
  Shared vocabulary of the development: the machine integers and fixed-size arrays of
  the Go code as words, byte strings and their big-endian codecs
  (\<open>encoding/binary\<close>, \<open>big.Int.Bytes\<close>/\<open>SetBytes\<close>), decimal text
  (\<open>big.Int.String\<close>/\<open>SetString\<close>, \<open>%d\<close>), and the generic lemmas on lists and
  finite sums that the components share.

  A Go \<open>uint64\<close> is a \<open>64 word\<close>. A \<open>[20]byte\<close> or \<open>[32]byte\<close> array is the
  word whose big-endian bytes it holds, which is a bijection, so that array equality is
  word equality and \<open>bytes.Compare\<close> is the unsigned order. A \<open>big.Int\<close> is an
  \<open>int\<close>.
\<close>

type_synonym u8 = "8 word"
type_synonym u32 = "32 word"
type_synonym u64 = "64 word"
type_synonym bytes = "8 word list"
type_synonym address = "160 word"
type_synonym hash = "256 word"

named_theorems codec \<open>round trips and lengths of the byte and text codecs\<close>
named_theorems ledger \<open>how the account-state operations change balances and nonces\<close>

section \<open>Byte strings\<close>

definition str_bytes :: "string \<Rightarrow> bytes" where
  "str_bytes s = map (\<lambda>c. of_char c) s"

text \<open>\<open>binary.BigEndian.Uint64\<close> and \<open>big.Int.SetBytes\<close>: the value of a big-endian string.\<close>

definition be_value :: "bytes \<Rightarrow> nat" where
  "be_value bs = foldl (\<lambda>a b. 256 * a + unat b) 0 bs"

text \<open>\<open>PutUint64\<close> and the fixed-size arrays: the low \<open>n\<close> bytes, most significant first.\<close>

fun be_bytes :: "nat \<Rightarrow> nat \<Rightarrow> bytes" where
  "be_bytes 0 v = []"
| "be_bytes (Suc n) v = be_bytes n (v div 256) @ [word_of_nat (v mod 256)]"

text \<open>\<open>PutUint64\<close> and \<open>PutUint32\<close> of the little-endian variant.\<close>

definition le_bytes :: "nat \<Rightarrow> nat \<Rightarrow> bytes" where
  "le_bytes n v = rev (be_bytes n v)"

text \<open>\<open>big.Int.Bytes\<close>: the magnitude, without leading zero bytes.\<close>

fun nat_bytes :: "nat \<Rightarrow> bytes" where
  "nat_bytes n = (if n = 0 then [] else nat_bytes (n div 256) @ [word_of_nat (n mod 256)])"

declare nat_bytes.simps [simp del]

definition big_bytes :: "int \<Rightarrow> bytes" where
  "big_bytes z = nat_bytes (nat \<bar>z\<bar>)"

lemma be_value_Nil [simp]: "be_value [] = 0"
  by (simp add: be_value_def)

lemma be_value_snoc [simp]: "be_value (bs @ [b]) = 256 * be_value bs + unat b"
  by (simp add: be_value_def)

lemma length_be_bytes [simp, codec]: "length (be_bytes n v) = n"
  by (induction n v rule: be_bytes.induct) simp_all

lemma unat_byte_mod [simp]: "unat (word_of_nat (v mod 256) :: u8) = v mod 256"
  by (simp add: unat_of_nat)

lemma be_value_be_bytes [codec]: "be_value (be_bytes n v) = v mod 256 ^ n"
proof (induction n v rule: be_bytes.induct)
  case (1 v)
  show ?case by simp
next
  case (2 n v)
  then have "be_value (be_bytes (Suc n) v) = 256 * (v div 256 mod 256 ^ n) + v mod 256"
    by simp
  also have "\<dots> = v mod (256 * 256 ^ n)"
    by (metis mod_mult2_eq)
  finally show ?case by simp
qed

lemma be_bytes_be_value [codec]: "be_bytes (length bs) (be_value bs) = bs"
proof (induction bs rule: rev_induct)
  case (snoc b bs)
  have b: "unat b < 256"
    using unsigned_less [of b] by simp
  then have "(256 * be_value bs + unat b) div 256 = be_value bs"
    and "(256 * be_value bs + unat b) mod 256 = unat b" by simp_all
  with snoc show ?case by simp
qed simp

lemma be_value_less: "be_value bs < 256 ^ length bs"
  by (metis be_bytes_be_value be_value_be_bytes mod_less_divisor zero_less_numeral zero_less_power)

lemma be_bytes_inject: "v < 256 ^ n \<Longrightarrow> w < 256 ^ n \<Longrightarrow> be_bytes n v = be_bytes n w \<longleftrightarrow> v = w"
  by (metis be_value_be_bytes mod_less)

lemma be_value_nat_bytes [simp, codec]: "be_value (nat_bytes n) = n"
proof (induction n rule: nat_bytes.induct)
  case (1 n)
  then show ?case
    by (subst nat_bytes.simps) simp
qed

lemma length_nat_bytes_le: "n < 256 ^ k \<Longrightarrow> length (nat_bytes n) \<le> k"
proof (induction n arbitrary: k rule: nat_bytes.induct)
  case (1 n)
  show ?case
  proof (cases "n = 0")
    case False
    then obtain j where k: "k = Suc j"
      using "1.prems" by (cases k) auto
    have "n div 256 < 256 ^ j"
      using "1.prems" k by (simp add: less_mult_imp_div_less mult.commute)
    with False "1.IH" k show ?thesis by (simp add: nat_bytes.simps [of n])
  qed (simp add: nat_bytes.simps)
qed

lemma be_value_big_bytes [simp, codec]: "0 \<le> z \<Longrightarrow> int (be_value (big_bytes z)) = z"
  by (simp add: big_bytes_def)

text \<open>Words as byte arrays.\<close>

definition word_bytes :: "nat \<Rightarrow> 'a::len word \<Rightarrow> bytes" where
  "word_bytes n w = be_bytes n (unat w)"

definition bytes_word :: "bytes \<Rightarrow> 'a::len word" where
  "bytes_word bs = word_of_nat (be_value bs)"

lemma length_word_bytes [simp, codec]: "length (word_bytes n w) = n"
  by (simp add: word_bytes_def)

lemma bytes_word_word_bytes [codec]:
  fixes w :: "'a::len word"
  assumes "LENGTH('a) \<le> 8 * n"
  shows "bytes_word (word_bytes n w) = w"
proof -
  have "unat w < 2 ^ LENGTH('a)" by (rule unsigned_less)
  also have "(2::nat) ^ LENGTH('a) \<le> 2 ^ (8 * n)" using assms by (simp add: power_increasing)
  also have "(2::nat) ^ (8 * n) = 256 ^ n" by (simp add: power_mult)
  finally have "unat w < 256 ^ n" .
  then show ?thesis by (simp add: bytes_word_def word_bytes_def be_value_be_bytes)
qed

lemma word_bytes_bytes_word [codec]:
  fixes bs :: bytes
  assumes "LENGTH('a::len) = 8 * length bs"
  shows "word_bytes (length bs) (bytes_word bs :: 'a word) = bs"
proof -
  have "be_value bs < 2 ^ LENGTH('a)"
    using be_value_less [of bs] assms by (simp add: power_mult)
  then have "unat (bytes_word bs :: 'a word) = be_value bs"
    by (simp add: bytes_word_def unat_of_nat)
  then show ?thesis by (simp add: word_bytes_def be_bytes_be_value)
qed

lemma word_bytes_inject:
  fixes v w :: "'a::len word"
  shows "LENGTH('a) \<le> 8 * n \<Longrightarrow> word_bytes n v = word_bytes n w \<longleftrightarrow> v = w"
  by (metis bytes_word_word_bytes)

section \<open>Decimal text\<close>

fun dec_nat :: "nat \<Rightarrow> string" where
  "dec_nat n = (if n < 10 then [char_of (48 + n)] else dec_nat (n div 10) @ [char_of (48 + n mod 10)])"

declare dec_nat.simps [simp del]

definition dec_int :: "int \<Rightarrow> string" where
  "dec_int z = (if z < 0 then CHR ''-'' # dec_nat (nat (- z)) else dec_nat (nat z))"

definition digit_val :: "char \<Rightarrow> nat option" where
  "digit_val c = (let n = of_char c in if 48 \<le> n \<and> n \<le> 57 then Some (n - 48) else None)"

fun parse_digits :: "nat \<Rightarrow> string \<Rightarrow> nat option" where
  "parse_digits acc [] = Some acc"
| "parse_digits acc (c # cs) =
     (case digit_val c of None \<Rightarrow> None | Some d \<Rightarrow> parse_digits (10 * acc + d) cs)"

text \<open>\<open>big.Int.SetString(s, 10)\<close>: an optional sign, then one or more digits.\<close>

definition parse_nat :: "string \<Rightarrow> nat option" where
  "parse_nat s = (if s = [] then None else parse_digits 0 s)"

definition parse_int :: "string \<Rightarrow> int option" where
  "parse_int s = (case s of
       [] \<Rightarrow> None
     | c # cs \<Rightarrow>
         if c = CHR ''-'' then map_option (\<lambda>n. - int n) (parse_nat cs)
         else if c = CHR ''+'' then map_option int (parse_nat cs)
         else map_option int (parse_nat s))"

lemma digit_val_digit [simp]: "d < 10 \<Longrightarrow> digit_val (char_of (48 + d)) = Some d"
  by (simp add: digit_val_def Let_def of_char_of)

lemma parse_digits_append:
  "parse_digits a (xs @ ys) =
     (case parse_digits a xs of None \<Rightarrow> None | Some b \<Rightarrow> parse_digits b ys)"
  by (induction xs arbitrary: a) (auto split: option.splits)

lemma parse_digits_dec_nat: "parse_digits 0 (dec_nat n) = Some n"
proof (induction n rule: dec_nat.induct)
  case (1 n)
  show ?case
  proof (cases "n < 10")
    case True
    then show ?thesis by (simp add: dec_nat.simps [of n])
  next
    case False
    with "1.IH" show ?thesis by (simp add: dec_nat.simps [of n] parse_digits_append)
  qed
qed

lemma dec_nat_not_Nil [simp]: "dec_nat n \<noteq> []"
  by (subst dec_nat.simps) simp

lemma parse_nat_dec_nat [codec]: "parse_nat (dec_nat n) = Some n"
  by (simp add: parse_nat_def parse_digits_dec_nat)

lemma dec_nat_head: "\<exists>d::nat. d < 10 \<and> (\<exists>cs. dec_nat n = char_of (48 + d) # cs)"
proof (induction n rule: dec_nat.induct)
  case (1 n)
  show ?case
  proof (cases "n < 10")
    case True
    then show ?thesis by (subst dec_nat.simps) auto
  next
    case False
    with "1.IH" obtain d :: nat and cs where "d < 10" and "dec_nat (n div 10) = char_of (48 + d) # cs"
      by blast
    with False show ?thesis by (subst dec_nat.simps) auto
  qed
qed

lemma digit_not_sign:
  fixes d :: nat
  assumes "d < 10"
  shows "(char_of (48 + d) :: char) \<noteq> CHR ''-''" and "(char_of (48 + d) :: char) \<noteq> CHR ''+''"
proof -
  have v: "of_char (char_of (48 + d) :: char) = (48 + d :: nat)"
    using assms by (simp add: of_char_of)
  have m: "of_char CHR ''-'' = (45::nat)" and p: "of_char CHR ''+'' = (43::nat)" by simp_all
  show "(char_of (48 + d) :: char) \<noteq> CHR ''-''"
  proof
    assume "(char_of (48 + d) :: char) = CHR ''-''"
    then have "of_char (char_of (48 + d) :: char) = (45::nat)" by (simp only: m)
    with v show False by linarith
  qed
  show "(char_of (48 + d) :: char) \<noteq> CHR ''+''"
  proof
    assume "(char_of (48 + d) :: char) = CHR ''+''"
    then have "of_char (char_of (48 + d) :: char) = (43::nat)" by (simp only: p)
    with v show False by linarith
  qed
qed

lemma parse_int_dec_nat: "parse_int (dec_nat n) = Some (int n)"
proof -
  obtain d :: nat and cs where "d < 10" and eq: "dec_nat n = char_of (48 + d) # cs"
    using dec_nat_head by blast
  then have "parse_int (dec_nat n) = map_option int (parse_nat (dec_nat n))"
    by (simp add: parse_int_def digit_not_sign)
  then show ?thesis by (simp add: parse_nat_dec_nat)
qed

text \<open>Writing an integer and reading it back is the identity.\<close>

lemma parse_int_dec_int [codec]: "parse_int (dec_int z) = Some z"
proof (cases "z < 0")
  case True
  then show ?thesis
    by (simp add: dec_int_def parse_int_def parse_nat_dec_nat)
next
  case False
  then show ?thesis by (simp add: dec_int_def parse_int_dec_nat)
qed

section \<open>Sorted lists\<close>

text \<open>Sorting by a key that tells the elements apart depends on their set only.\<close>

lemma sort_key_unique:
  fixes f :: "'a \<Rightarrow> 'b::linorder"
  assumes "distinct (map f xs)" and "distinct (map f ys)" and "set xs = set ys"
  shows "sort_key f xs = sort_key f ys"
proof (rule map_sorted_distinct_set_unique [of f])
  show "inj_on f (set (sort_key f xs) \<union> set (sort_key f ys))"
    using assms by (simp add: distinct_map)
qed (use assms in \<open>simp_all add: distinct_map distinct_sort\<close>)

section \<open>Finite sums\<close>

text \<open>
  The total of a function over a finite type, after one point changed: the account
  ledgers of the code are functions on the finite set of addresses.
\<close>

lemma sum_UNIV_upd:
  fixes f :: "'a::finite \<Rightarrow> int"
  shows "(\<Sum>x\<in>UNIV. (f(a := v)) x) = (\<Sum>x\<in>UNIV. f x) - f a + v"
proof -
  have "(\<Sum>x\<in>UNIV. (f(a := v)) x) = v + (\<Sum>x\<in>UNIV - {a}. (f(a := v)) x)"
    by (subst sum.remove [of _ a]) simp_all
  also have "(\<Sum>x\<in>UNIV - {a}. (f(a := v)) x) = (\<Sum>x\<in>UNIV - {a}. f x)"
    by (rule sum.cong) auto
  also have "\<dots> = (\<Sum>x\<in>UNIV. f x) - f a"
    by (subst (2) sum.remove [of _ a]) simp_all
  finally show ?thesis by simp
qed

lemma sum_list_map_filter_le:
  fixes f :: "'a \<Rightarrow> int"
  assumes "\<And>x. x \<in> set xs \<Longrightarrow> 0 \<le> f x"
  shows "(\<Sum>x\<leftarrow>filter P xs. f x) \<le> (\<Sum>x\<leftarrow>xs. f x)"
  using assms
proof (induction xs)
  case (Cons x xs)
  then have "0 \<le> f x" and "(\<Sum>x\<leftarrow>filter P xs. f x) \<le> (\<Sum>x\<leftarrow>xs. f x)" by simp_all
  then show ?case by simp
qed simp

end
