(* ===== verification/Common_Types.thy ===== *)
theory Common_Types
  imports Prelude
begin

text \<open>
  The packages \<open>common\<close> and \<open>antdc/crypto/quantum\<close>: fixed-size hashes and
  addresses, byte padding, the Base58Check address format and the length checks around
  the ML-DSA-65 primitives.

  SHA3-256, RIPEMD-160, Base58 and ML-DSA-65 are third-party code; they are the fields
  of the record \<open>crypto\<close>, an argument of the definitions that call them.
\<close>

section \<open>Byte padding (common/bytes.go)\<close>

definition LeftPadBytes :: "bytes \<Rightarrow> nat \<Rightarrow> bytes" where
  "LeftPadBytes data n =
     (if length data \<ge> n then drop (length data - n) data
      else replicate (n - length data) 0 @ data)"

definition RightPadBytes :: "bytes \<Rightarrow> nat \<Rightarrow> bytes" where
  "RightPadBytes data n =
     (if length data \<ge> n then take n data
      else data @ replicate (n - length data) 0)"

lemma length_LeftPadBytes [simp, codec]: "length (LeftPadBytes data n) = n"
  by (simp add: LeftPadBytes_def)

lemma length_RightPadBytes [simp, codec]: "length (RightPadBytes data n) = n"
  by (simp add: RightPadBytes_def)

lemma be_value_append: "be_value (xs @ ys) = be_value xs * 256 ^ length ys + be_value ys"
  by (induction ys rule: rev_induct) (simp_all flip: append_assoc add: algebra_simps)

lemma be_value_replicate_0 [simp]: "be_value (replicate n 0) = 0"
proof (induction n)
  case (Suc n)
  have "replicate (Suc n) (0::8 word) = replicate n 0 @ [0]"
    by (metis replicate_Suc replicate_append_same)
  with Suc show ?case by (simp del: replicate_Suc)
qed simp

section \<open>Hashes and addresses (common/hash.go, common/types.go)\<close>

definition BytesToHash :: "bytes \<Rightarrow> hash" where
  "BytesToHash b =
     (let b' = (if length b > 32 then drop (length b - 32) b else b)
      in bytes_word (replicate (32 - length b') 0 @ b'))"

definition Hash_Bytes :: "hash \<Rightarrow> bytes" where
  "Hash_Bytes h = word_bytes 32 h"

definition BytesToQuantumAddress :: "bytes \<Rightarrow> address" where
  "BytesToQuantumAddress b =
     (let b' = (if length b > 20 then drop (length b - 20) b else b)
      in bytes_word (replicate (20 - length b') 0 @ b'))"

definition Address_Bytes :: "address \<Rightarrow> bytes" where
  "Address_Bytes a = word_bytes 20 a"

definition zero_address :: address where
  "zero_address = 0"

definition zero_hash :: hash where
  "zero_hash = 0"

datatype addr_error =
    Invalid_Length | Missing_Prefix | Base58_Error | Invalid_Encoded_Length | Checksum_Mismatch

definition NewQuantumAddressFromBytes :: "bytes \<Rightarrow> addr_error + address" where
  "NewQuantumAddressFromBytes b =
     (if length b \<noteq> 20 then Inl Invalid_Length else Inr (bytes_word b))"

lemma length_Hash_Bytes [simp, codec]: "length (Hash_Bytes h) = 32"
  by (simp add: Hash_Bytes_def)

lemma length_Address_Bytes [simp, codec]: "length (Address_Bytes a) = 20"
  by (simp add: Address_Bytes_def)

lemma Address_Bytes_inject [simp]: "Address_Bytes a = Address_Bytes b \<longleftrightarrow> a = b"
  by (simp add: Address_Bytes_def word_bytes_inject)

lemma Hash_Bytes_inject [simp]: "Hash_Bytes a = Hash_Bytes b \<longleftrightarrow> a = b"
  by (simp add: Hash_Bytes_def word_bytes_inject)

lemma BytesToHash_Bytes [simp, codec]: "BytesToHash (Hash_Bytes h) = h"
  by (simp add: BytesToHash_def Let_def) (simp add: Hash_Bytes_def bytes_word_word_bytes)

lemma BytesToQuantumAddress_Bytes [simp, codec]: "BytesToQuantumAddress (Address_Bytes a) = a"
  by (simp add: BytesToQuantumAddress_def Let_def)
    (simp add: Address_Bytes_def bytes_word_word_bytes)

lemma NewQuantumAddressFromBytes_Bytes [simp, codec]:
  "NewQuantumAddressFromBytes (Address_Bytes a) = Inr a"
  by (simp add: NewQuantumAddressFromBytes_def) (simp add: Address_Bytes_def bytes_word_word_bytes)

lemma NewQuantumAddressFromBytes_Inr:
  "NewQuantumAddressFromBytes b = Inr a \<Longrightarrow> Address_Bytes a = b"
  using word_bytes_bytes_word [where 'a = 160, of b]
  by (auto simp: NewQuantumAddressFromBytes_def Address_Bytes_def split: if_splits)

section \<open>Quantum addresses and keys (crypto/quantum/quantum.go)\<close>

record crypto =
  sha3 :: "bytes \<Rightarrow> hash"
  ripemd160 :: "bytes \<Rightarrow> bytes"
  base58_encode :: "bytes \<Rightarrow> string"
  base58_decode :: "string \<Rightarrow> bytes option"
  mldsa_key_ok :: "bytes \<Rightarrow> bool"
  mldsa_sign :: "bytes \<Rightarrow> bytes \<Rightarrow> bytes"
  mldsa_verify :: "bytes \<Rightarrow> bytes \<Rightarrow> bytes \<Rightarrow> bool"

definition AddressPrefix :: string where
  "AddressPrefix = ''0q''"

definition MLDSA65PrivateKeySize :: nat where
  "MLDSA65PrivateKeySize = 4032"

definition MLDSA65PublicKeySize :: nat where
  "MLDSA65PublicKeySize = 1952"

text \<open>\<open>mldsa65.SignatureSize\<close> of the circl library.\<close>

definition MLDSA65SignatureSize :: nat where
  "MLDSA65SignatureSize = 3309"

definition addressChecksum :: "crypto \<Rightarrow> bytes \<Rightarrow> bytes" where
  "addressChecksum C payload =
     (let input = str_bytes AddressPrefix @ payload;
          first = sha3 C input;
          second = sha3 C (Hash_Bytes first)
      in take 4 (Hash_Bytes second))"

definition EncodeAddress :: "crypto \<Rightarrow> bytes \<Rightarrow> string" where
  "EncodeAddress C payload = AddressPrefix @ base58_encode C (payload @ addressChecksum C payload)"

definition ExtractPayload :: "crypto \<Rightarrow> string \<Rightarrow> addr_error + bytes" where
  "ExtractPayload C addr =
     (if length addr < length AddressPrefix \<or> take (length AddressPrefix) addr \<noteq> AddressPrefix
      then Inl Missing_Prefix
      else case base58_decode C (drop (length AddressPrefix) addr) of
        None \<Rightarrow> Inl Base58_Error
      | Some decoded \<Rightarrow>
          if length decoded \<noteq> 24 then Inl Invalid_Encoded_Length
          else if drop 20 decoded \<noteq> addressChecksum C (take 20 decoded) then Inl Checksum_Mismatch
          else Inr (take 20 decoded))"

definition IsValidAddress :: "crypto \<Rightarrow> string \<Rightarrow> bool" where
  "IsValidAddress C addr = (case ExtractPayload C addr of Inl _ \<Rightarrow> False | Inr _ \<Rightarrow> True)"

definition ParseQuantumAddress :: "crypto \<Rightarrow> string \<Rightarrow> addr_error + address" where
  "ParseQuantumAddress C s =
     (case ExtractPayload C s of
        Inl e \<Rightarrow> Inl e
      | Inr payload \<Rightarrow> NewQuantumAddressFromBytes payload)"

definition Address_String :: "crypto \<Rightarrow> address \<Rightarrow> string" where
  "Address_String C a = EncodeAddress C (Address_Bytes a)"

definition PubKeyToAddress :: "crypto \<Rightarrow> bytes \<Rightarrow> string" where
  "PubKeyToAddress C pubKey =
     (let sha = sha3 C pubKey; payload = ripemd160 C (Hash_Bytes sha)
      in EncodeAddress C payload)"

text \<open>\<open>Sign\<close> is \<open>None\<close> where the code returns an error.\<close>

definition Sign :: "crypto \<Rightarrow> bytes \<Rightarrow> bytes \<Rightarrow> bytes option" where
  "Sign C privKey message =
     (if length privKey \<noteq> MLDSA65PrivateKeySize then None
      else if \<not> mldsa_key_ok C privKey then None
      else Some (mldsa_sign C privKey message))"

definition Verify_Signature :: "crypto \<Rightarrow> bytes \<Rightarrow> bytes \<Rightarrow> bytes \<Rightarrow> bool" where
  "Verify_Signature C pubKey message signature =
     (if length signature \<noteq> MLDSA65SignatureSize then False
      else if \<not> mldsa_key_ok C pubKey then False
      else mldsa_verify C pubKey message signature)"

lemma length_addressChecksum [simp, codec]: "length (addressChecksum C p) = 4"
  by (simp add: addressChecksum_def Let_def)

text \<open>
  What the address format relies on, as premises: decoding Base58 text gives back the
  encoded bytes, and a RIPEMD-160 digest has 20 bytes.
\<close>

lemma ExtractPayload_EncodeAddress [codec]:
  assumes "\<And>b. base58_decode C (base58_encode C b) = Some b" and "length p = 20"
  shows "ExtractPayload C (EncodeAddress C p) = Inr p"
  using assms by (simp add: ExtractPayload_def EncodeAddress_def AddressPrefix_def)

lemma Parse_Address_String [codec]:
  assumes "\<And>b. base58_decode C (base58_encode C b) = Some b"
  shows "ParseQuantumAddress C (Address_String C a) = Inr a"
  by (simp add: ParseQuantumAddress_def Address_String_def ExtractPayload_EncodeAddress [OF assms])

lemma Parse_PubKeyToAddress [codec]:
  assumes "\<And>b. base58_decode C (base58_encode C b) = Some b"
    and "\<And>b. length (ripemd160 C b) = 20"
  shows "ParseQuantumAddress C (PubKeyToAddress C pk) =
           Inr (bytes_word (ripemd160 C (Hash_Bytes (sha3 C pk))))"
  by (simp add: ParseQuantumAddress_def PubKeyToAddress_def Let_def
      ExtractPayload_EncodeAddress [OF assms(1)] assms(2) NewQuantumAddressFromBytes_def)

text \<open>What a successful parse guarantees, with no assumption on the primitives.\<close>

lemma ExtractPayload_Inr:
  assumes "ExtractPayload C s = Inr p"
  shows "length p = 20 \<and> (\<exists>t. s = AddressPrefix @ t \<and> base58_decode C t = Some (p @ addressChecksum C p))"
proof -
  from assms obtain d where pre: "take (length AddressPrefix) s = AddressPrefix"
    and d: "base58_decode C (drop (length AddressPrefix) s) = Some d"
    and len: "length d = 24" and sum: "drop 20 d = addressChecksum C (take 20 d)"
    and p: "p = take 20 d"
    by (auto simp: ExtractPayload_def split: if_splits option.splits)
  from pre have "s = AddressPrefix @ drop (length AddressPrefix) s"
    by (metis append_take_drop_id)
  moreover have "d = p @ addressChecksum C p"
    using sum p by (metis append_take_drop_id)
  ultimately show ?thesis using d len p by auto
qed

text \<open>
  A concrete instance of the primitives, to evaluate closed examples: a toy digest, and
  byte strings as their own text.
\<close>

definition toy_crypto :: crypto where
  "toy_crypto =
     \<lparr>sha3 = (\<lambda>b. word_of_nat (be_value b)),
      ripemd160 = (\<lambda>b. take 20 (b @ replicate 20 0)),
      base58_encode = map (\<lambda>w. char_of (unat w)),
      base58_decode = (\<lambda>s. Some (map of_char s)),
      mldsa_key_ok = (\<lambda>_. True),
      mldsa_sign = (\<lambda>_ _. replicate 3309 0),
      mldsa_verify = (\<lambda>_ _ _. True)\<rparr>"

lemma byte_char_roundtrip [simp]: "(of_char (char_of (unat w) :: char) :: u8) = w"
proof -
  have "unat w < 256" using unsigned_less [of w] by simp
  then have "(of_char (char_of (unat w) :: char) :: nat) = unat w"
    by (simp add: of_char_of)
  then have "word_of_nat (of_char (char_of (unat w) :: char)) = w" by simp
  then show ?thesis by (metis of_nat_of_char)
qed

lemma toy_base58: "base58_decode toy_crypto (base58_encode toy_crypto b) = Some b"
  by (simp add: toy_crypto_def o_def)

text \<open>
  An address survives printing and parsing: \<open>ParseQuantumAddress(a.String())\<close>
  returns \<open>a\<close>, for every 20-byte address; and every text the parser accepts is the prefix
  followed by Base58 text of the address bytes and their checksum.
\<close>

theorem address_round_trip:
  assumes "\<And>b. base58_decode C (base58_encode C b) = Some b"
  shows "ParseQuantumAddress C (Address_String C a) = Inr a \<and>
    (ParseQuantumAddress C s = Inr a' \<longrightarrow>
       (\<exists>t. s = AddressPrefix @ t \<and>
          base58_decode C t = Some (Address_Bytes a' @ addressChecksum C (Address_Bytes a'))))"
  using Parse_Address_String [OF assms]
  by (auto simp: ParseQuantumAddress_def split: sum.splits
      dest!: ExtractPayload_Inr NewQuantumAddressFromBytes_Inr)

theorem address_round_trip_witness:
  "ParseQuantumAddress toy_crypto (Address_String toy_crypto 7) = Inr 7"
  using address_round_trip [of toy_crypto 7] toy_base58 by blast

end
