(* ===== verification/Hex_Util.thy ===== *)
theory Hex_Util
  imports Common_Types
begin

unbundle bit_operations_syntax

text \<open>
  The package \<open>common/hexutil\<close> and the hexadecimal parts of \<open>common/hash.go\<close>: the
  0x-prefixed text of byte strings, hashes and 64-bit numbers. The standard library's
  \<open>hex.EncodeToString\<close>, \<open>hex.DecodeString\<close> and \<open>strconv.AppendUint\<close> are modelled
  digit by digit, so that odd lengths and bad digits are the errors they are in the code.
\<close>

section \<open>The standard library's hexadecimal digits\<close>

definition hex_digit :: "nat \<Rightarrow> char" where
  "hex_digit d = (if d < 10 then char_of (48 + d) else char_of (87 + d))"

definition hex_val :: "char \<Rightarrow> nat option" where
  "hex_val c = (let n = of_char c in
     if 48 \<le> n \<and> n \<le> 57 then Some (n - 48)
     else if 97 \<le> n \<and> n \<le> 102 then Some (n - 87)
     else if 65 \<le> n \<and> n \<le> 70 then Some (n - 55)
     else None)"

definition hex_encode :: "bytes \<Rightarrow> string" where
  "hex_encode bs = concat (map (\<lambda>b. [hex_digit (unat b div 16), hex_digit (unat b mod 16)]) bs)"

text \<open>The bytes decoded before the first error, and whether there was none.\<close>

fun hex_decode :: "string \<Rightarrow> bytes \<times> bool" where
  "hex_decode (p # q # r) =
     (case hex_val p of None \<Rightarrow> ([], False)
      | Some a \<Rightarrow> (case hex_val q of None \<Rightarrow> ([], False)
         | Some b \<Rightarrow> (case hex_decode r of (bs, ok) \<Rightarrow> (word_of_nat (16 * a + b) # bs, ok))))"
| "hex_decode [] = ([], True)"
| "hex_decode [c] = ([], False)"

fun hex_text :: "nat \<Rightarrow> string" where
  "hex_text n = (if n < 16 then [hex_digit n] else hex_text (n div 16) @ [hex_digit (n mod 16)])"

declare hex_text.simps [simp del]

lemma hex_val_digit [simp]: "d < 16 \<Longrightarrow> hex_val (hex_digit d) = Some d"
  by (auto simp: hex_val_def hex_digit_def Let_def of_char_of)

lemma hex_decode_encode [simp, codec]: "hex_decode (hex_encode bs) = (bs, True)"
proof (induction bs)
  case (Cons b bs)
  have "unat b < 256" using unsigned_less [of b] by simp
  then have "unat b div 16 < 16" and "16 * (unat b div 16) + unat b mod 16 = unat b" by simp_all
  with Cons show ?case by (simp add: hex_encode_def)
qed (simp add: hex_encode_def)

lemma hex_decode_even: "snd (hex_decode s) \<Longrightarrow> even (length s)"
  by (induction s rule: hex_decode.induct) (auto split: option.splits prod.splits)

lemma length_hex_encode [simp, codec]: "length (hex_encode bs) = 2 * length bs"
  by (induction bs) (simp_all add: hex_encode_def)

section \<open>hexutil.go\<close>

datatype hex_error = Empty_String | Missing_Hex_Prefix | Hex_Syntax | Hex_Too_Large | Bad_Hash_Length

definition Encode :: "bytes \<Rightarrow> string" where
  "Encode b = ''0x'' @ hex_encode b"

definition EncodeUint64 :: "u64 \<Rightarrow> string" where
  "EncodeUint64 i = ''0x'' @ hex_text (unat i)"

text \<open>\<open>nil\<close> is \<open>None\<close>; \<open>big.Int.Text(16)\<close> writes a minus sign before the digits.\<close>

definition EncodeBig :: "int option \<Rightarrow> string" where
  "EncodeBig b = (case b of
       None \<Rightarrow> ''0x0''
     | Some z \<Rightarrow> ''0x'' @ (if z < 0 then CHR ''-'' # hex_text (nat (- z)) else hex_text (nat z)))"

definition EncodeHash :: "hash \<Rightarrow> string" where
  "EncodeHash h = ''0x'' @ hex_encode (Hash_Bytes h)"

definition Decode :: "string \<Rightarrow> hex_error + bytes" where
  "Decode s =
     (if length s = 0 then Inl Empty_String
      else if take 2 s \<noteq> ''0x'' then Inl Missing_Hex_Prefix
      else case hex_decode (drop 2 s) of
        (b, ok) \<Rightarrow> if \<not> ok then Inl Hex_Syntax else Inr b)"

definition DecodeUint64 :: "string \<Rightarrow> hex_error + u64" where
  "DecodeUint64 s =
     (case Decode s of
        Inl e \<Rightarrow> Inl e
      | Inr b \<Rightarrow>
          if length b > 8 then Inl Hex_Too_Large
          else Inr (foldl (\<lambda>val byt. push_bit 8 val OR ucast byt) 0 b))"

definition DecodeBig :: "string \<Rightarrow> hex_error + int" where
  "DecodeBig s =
     (case Decode s of Inl e \<Rightarrow> Inl e | Inr b \<Rightarrow> Inr (int (be_value b)))"

definition DecodeHash :: "string \<Rightarrow> hex_error + hash" where
  "DecodeHash s =
     (case Decode s of
        Inl e \<Rightarrow> Inl e
      | Inr b \<Rightarrow> if length b \<noteq> 32 then Inl Bad_Hash_Length else Inr (BytesToHash b))"

definition HexToHash :: "string \<Rightarrow> hash" where
  "HexToHash s =
     (let s' = (if take 2 s = ''0x'' then drop 2 s else s)
      in BytesToHash (fst (hex_decode s')))"

lemma Decode_Encode [codec]: "Decode (Encode b) = Inr b"
  by (simp add: Decode_def Encode_def)

lemma DecodeHash_EncodeHash [codec]: "DecodeHash (EncodeHash h) = Inr h"
  using Decode_Encode [of "Hash_Bytes h"]
  by (simp add: DecodeHash_def EncodeHash_def Encode_def)

lemma HexToHash_EncodeHash [codec]: "HexToHash (EncodeHash h) = h"
  by (simp add: HexToHash_def EncodeHash_def)

text \<open>The shift-and-or loop of \<open>DecodeUint64\<close> reads a big-endian number.\<close>

lemma shift_or_byte: "push_bit 8 v OR ucast b = 256 * v + (ucast (b :: u8) :: u64)"
proof -
  have "push_bit 8 v AND (ucast b :: u64) = 0"
    by (rule bit_word_eqI) (auto simp: bit_simps dest: bit_imp_le_length)
  then have "push_bit 8 v OR (ucast b :: u64) = push_bit 8 v + ucast b"
    by (simp add: disjunctive_add_eq_or)
  then show ?thesis by (simp add: push_bit_eq_mult mult.commute)
qed

lemma shift_or_fold:
  "foldl (\<lambda>val byt. push_bit 8 val OR ucast byt) 0 b = (word_of_nat (be_value b) :: u64)"
  by (induction b rule: rev_induct) (simp_all add: shift_or_byte)

text \<open>Minimal hexadecimal text: its length, and what decoding it gives.\<close>

lemma hex_decode_append:
  "even (length xs) \<Longrightarrow> snd (hex_decode xs) \<Longrightarrow>
     hex_decode (xs @ ys) = (fst (hex_decode xs) @ fst (hex_decode ys), snd (hex_decode ys))"
  by (induction xs rule: hex_decode.induct) (auto split: option.splits prod.splits)

lemma hex_text_step: "16 \<le> n \<Longrightarrow> hex_text n = hex_text (n div 16) @ [hex_digit (n mod 16)]"
  by (subst hex_text.simps) simp

lemma hex_text_digit: "n < 16 \<Longrightarrow> hex_text n = [hex_digit n]"
  by (subst hex_text.simps) simp

lemma hex_text_256: "256 \<le> n \<Longrightarrow>
    hex_text n = hex_text (n div 256) @ [hex_digit (n div 16 mod 16), hex_digit (n mod 16)]"
  using hex_text_step [of n] hex_text_step [of "n div 16"]
  by (simp add: div_mult2_eq [symmetric])

lemma hex_text_byte:
  assumes "n < 256" and "16 \<le> n"
  shows "hex_text n = [hex_digit (n div 16), hex_digit (n mod 16)]"
proof -
  from assms have "n div 16 < 16" by simp
  with assms show ?thesis by (simp add: hex_text_step [of n] hex_text_digit [of "n div 16"])
qed

lemma hex_decode_hex_text:
  "even (length (hex_text n)) \<Longrightarrow>
     snd (hex_decode (hex_text n)) \<and> be_value (fst (hex_decode (hex_text n))) = n"
proof (induction n rule: less_induct)
  case (less n)
  consider "n < 16" | "16 \<le> n" "n < 256" | "256 \<le> n" by linarith
  then show ?case
  proof cases
    case 1
    with less.prems show ?thesis by (simp add: hex_text.simps [of n])
  next
    case 2
    then have "16 * (n div 16) + n mod 16 = n" by simp
    with 2 show ?thesis by (simp add: hex_text_byte be_value_def unat_of_nat)
  next
    case 3
    let ?d = "[hex_digit (n div 16 mod 16), hex_digit (n mod 16)]"
    from 3 less.prems have ev: "even (length (hex_text (n div 256)))"
      by (simp add: hex_text_256)
    from 3 have "n div 256 < n" by simp
    with ev less.IH have ih: "snd (hex_decode (hex_text (n div 256)))"
      "be_value (fst (hex_decode (hex_text (n div 256)))) = n div 256" by blast+
    have lo: "16 * (n div 16 mod 16) + n mod 16 = n mod 256"
      using mod_mult2_eq [of n 16 16] by simp
    then have "hex_decode ?d = ([word_of_nat (n mod 256)], True)" by simp
    with 3 ih ev show ?thesis by (simp add: hex_text_256 hex_decode_append)
  qed
qed

lemma length_hex_text_le: "n < 16 ^ Suc k \<Longrightarrow> length (hex_text n) \<le> Suc k"
proof (induction k arbitrary: n)
  case 0
  then show ?case by (simp add: hex_text.simps [of n])
next
  case (Suc k)
  then have "n div 16 < 16 ^ Suc k" by (simp add: less_mult_imp_div_less)
  with Suc.IH have "length (hex_text (n div 16)) \<le> Suc k" by blast
  then show ?case by (simp add: hex_text.simps [of n])
qed

lemma length_hex_decode: "snd (hex_decode s) \<Longrightarrow> 2 * length (fst (hex_decode s)) = length s"
  by (induction s rule: hex_decode.induct) (auto split: option.splits prod.splits)

text \<open>
  \<open>DecodeUint64\<close> inverts \<open>EncodeUint64\<close> exactly on the numbers whose minimal
  hexadecimal text has an even number of digits; on every other number (such as 0 or 1) the
  decoder rejects the encoder's own output as a syntax error.
\<close>

theorem uint64_hex_round_trip:
  "DecodeUint64 (EncodeUint64 i) =
     (if even (length (hex_text (unat i))) then Inr i else Inl Hex_Syntax)"
proof (cases "even (length (hex_text (unat i)))")
  case True
  let ?s = "hex_text (unat i)"
  have "unat i < 16 ^ Suc 15" using unsigned_less [of i] by simp
  then have "length ?s \<le> Suc 15" by (rule length_hex_text_le)
  with True have "length (fst (hex_decode ?s)) \<le> 8"
    using hex_decode_hex_text [OF True] length_hex_decode [of ?s] by linarith
  with True show ?thesis
    using hex_decode_hex_text [OF True]
    by (cases "hex_decode ?s") (auto simp: DecodeUint64_def Decode_def EncodeUint64_def shift_or_fold)
next
  case False
  then have "\<not> snd (hex_decode (hex_text (unat i)))" using hex_decode_even by blast
  with False show ?thesis
    by (cases "hex_decode (hex_text (unat i))")
      (auto simp: DecodeUint64_def Decode_def EncodeUint64_def)
qed

end
