(* ===== verification/Reward_Schedule.thy ===== *)
theory Reward_Schedule
  imports Prelude
begin

text \<open>
  The economic schedule: the halving block reward, the supply computed from it and the cap
  (\<open>antdc/reward/reward.go\<close>), and the gas price tiers (\<open>antdc/fees/gas.go\<close>).
\<close>

section \<open>Constants of the schedule\<close>

definition oneANTD :: int where
  "oneANTD = 1000000000000000000"

definition initialBlockReward :: int where
  "initialBlockReward = 200 * oneANTD"

definition genesisPremine :: int where
  "genesisPremine = 60000000 * oneANTD"

definition eligibilityThreshold :: int where
  "eligibilityThreshold = 100000 * oneANTD"

definition secondsPerBlock :: u64 where
  "secondsPerBlock = 150"

definition blocksPerDay :: u64 where
  "blocksPerDay = (24 * 60 * 60) div secondsPerBlock"

definition blocksPerYear :: u64 where
  "blocksPerYear = blocksPerDay * 365"

definition blocksPerHalving :: u64 where
  "blocksPerHalving = blocksPerYear * 4"

definition maxHalvings :: u64 where
  "maxHalvings = 64"

definition genesisTimestamp :: u64 where
  "genesisTimestamp = 1763731821"

lemma blocksPerHalving_value [simp]: "blocksPerHalving = 840960"
  by (simp add: blocksPerHalving_def blocksPerYear_def blocksPerDay_def secondsPerBlock_def)

section \<open>Gas price tiers (fees/gas.go)\<close>

definition AutoGasPriceByAmount :: "int option \<Rightarrow> int" where
  "AutoGasPriceByAmount amount =
     (case amount of
        None \<Rightarrow> 1000000000
      | Some a \<Rightarrow>
          let baseGwei = (if a \<ge> 100 * oneANTD then 6
                          else if a \<ge> 10 * oneANTD then 4
                          else if a \<ge> oneANTD then 2
                          else 1)
          in baseGwei * 1000000000)"

lemma AutoGasPrice_mono: "a \<le> b \<Longrightarrow> AutoGasPriceByAmount (Some a) \<le> AutoGasPriceByAmount (Some b)"
  by (simp add: AutoGasPriceByAmount_def Let_def oneANTD_def)

section \<open>The halving loop\<close>

text \<open>\<open>for i := 0; i < halvingPeriod; i++\<close>: halve, and stop at zero below one ANTD.\<close>

fun halve_loop :: "nat \<Rightarrow> int \<Rightarrow> int" where
  "halve_loop 0 reward = reward"
| "halve_loop (Suc n) reward =
     (let reward' = reward div 2 in if reward' < oneANTD then 0 else halve_loop n reward')"

definition CalculateBlockReward :: "u64 \<Rightarrow> int" where
  "CalculateBlockReward blockNumber =
     (let halvingPeriod = blockNumber div blocksPerHalving;
          halvingPeriod' = (if halvingPeriod > maxHalvings then maxHalvings else halvingPeriod)
      in halve_loop (unat halvingPeriod') initialBlockReward)"

text \<open>The time-based variant; \<open>currentTime\<close> is an \<open>int64\<close>, read as two's complement.\<close>

definition CalculateBlockRewardByTime :: "u64 \<Rightarrow> int" where
  "CalculateBlockRewardByTime currentTime =
     (let secondsSinceGenesis = currentTime - genesisTimestamp
      in if sint secondsSinceGenesis < 0 then initialBlockReward
         else let secondsPerHalving = 4 * 365 * 24 * 60 * 60;
                  halvingPeriod = nat (sint secondsSinceGenesis div secondsPerHalving);
                  halvingPeriod' = (if halvingPeriod > unat maxHalvings then unat maxHalvings
                                    else halvingPeriod)
              in halve_loop halvingPeriod' initialBlockReward)"

text \<open>
  The loop of \<open>CalculateTotalSupplyCap\<close>, with the number of iterations left: the last
  iteration is the one at \<open>halving == maxHalvings\<close>.
\<close>

fun cap_loop :: "nat \<Rightarrow> int \<Rightarrow> int \<Rightarrow> int" where
  "cap_loop 0 currentReward supply = supply"
| "cap_loop (Suc k) currentReward supply =
     (let blocksInPeriod = (if k = 0 then 0 else blocksPerHalving);
          periodReward = currentReward * sint blocksInPeriod;
          supply' = supply + periodReward;
          currentReward' = currentReward div 2
      in if currentReward' < oneANTD then supply' else cap_loop k currentReward' supply')"

definition CalculateTotalSupplyCap :: int where
  "CalculateTotalSupplyCap = cap_loop (Suc (unat maxHalvings)) initialBlockReward genesisPremine"

text \<open>
  The loop of \<open>CalculateCirculatingSupply\<close>, with fuel: \<open>None\<close> is running out of it.
\<close>

fun supply_loop :: "nat \<Rightarrow> u64 \<Rightarrow> u64 \<Rightarrow> int \<Rightarrow> u64 \<Rightarrow> int \<Rightarrow> int option" where
  "supply_loop 0 blockNumber currentBlock currentReward currentHalving supply = None"
| "supply_loop (Suc fuel) blockNumber currentBlock currentReward currentHalving supply =
     (if \<not> currentBlock < blockNumber then Some supply
      else
        let blocksInThisPeriod = (if currentHalving = maxHalvings then blockNumber - currentBlock
                                  else blocksPerHalving);
            blocksToProcess = (if currentBlock + blocksInThisPeriod > blockNumber
                               then blockNumber - currentBlock else blocksInThisPeriod);
            periodReward = currentReward * sint blocksToProcess;
            supply' = supply + periodReward;
            currentBlock' = currentBlock + blocksToProcess
        in if currentBlock' mod blocksPerHalving = 0 \<and> currentBlock' > 0 then
             let currentHalving' = currentHalving + 1
             in if currentHalving' > maxHalvings then Some supply'
                else let currentReward' = currentReward div 2
                     in if currentReward' < oneANTD then Some supply'
                        else supply_loop fuel blockNumber currentBlock' currentReward' currentHalving' supply'
           else supply_loop fuel blockNumber currentBlock' currentReward currentHalving supply')"

definition CalculateCirculatingSupply :: "u64 \<Rightarrow> int option" where
  "CalculateCirculatingSupply blockNumber =
     supply_loop 10 blockNumber 0 initialBlockReward 0 genesisPremine"

text \<open>The integer fields of \<open>GetNextHalvingInfo\<close>.\<close>

record halving_info =
  currentHalvingPeriod :: u64
  nextHalvingBlock :: u64
  blocksUntilHalving :: u64
  secondsUntilHalving :: u64
  daysUntilHalving :: u64
  currentReward :: int
  nextReward :: int

definition GetNextHalvingInfo :: "u64 \<Rightarrow> halving_info" where
  "GetNextHalvingInfo blockNumber =
     (let cur = blockNumber div blocksPerHalving;
          next_block = (cur + 1) * blocksPerHalving;
          until = next_block - blockNumber;
          secs = until * secondsPerBlock
      in \<lparr>currentHalvingPeriod = cur, nextHalvingBlock = next_block,
          blocksUntilHalving = until, secondsUntilHalving = secs,
          daysUntilHalving = secs div (24 * 60 * 60),
          currentReward = CalculateBlockReward blockNumber,
          nextReward = CalculateBlockReward next_block\<rparr>)"

section \<open>Closed form of the schedule\<close>

text \<open>The reward of halving period \<open>k\<close>: eight periods pay, the rest pay nothing.\<close>

definition period_reward :: "nat \<Rightarrow> int" where
  "period_reward k = (if k < 8 then initialBlockReward div 2 ^ k else 0)"

definition schedule_reward :: "nat \<Rightarrow> int" where
  "schedule_reward b = period_reward (b div 840960)"

lemma halve_loop_shift: "halve_loop (Suc n) r = (if r div 2 < oneANTD then 0 else halve_loop n (r div 2))"
  by (simp add: Let_def)

lemma halve_loop_initial: "halve_loop k initialBlockReward = period_reward k"
proof (cases "k < 8")
  case True
  then have "k \<in> {0, 1, 2, 3, 4, 5, 6, 7}" by auto
  then show ?thesis
    by (auto simp: period_reward_def initialBlockReward_def oneANTD_def Let_def numeral_eq_Suc
        simp del: halve_loop.simps(2) simp add: halve_loop_shift)
next
  case False
  then have "k = Suc (Suc (Suc (Suc (Suc (Suc (Suc (Suc (k - 8))))))))" by linarith
  then obtain j where "k = Suc (Suc (Suc (Suc (Suc (Suc (Suc (Suc j)))))))" ..
  with False show ?thesis
    by (simp add: period_reward_def initialBlockReward_def oneANTD_def)
qed

lemma CalculateBlockReward_closed: "CalculateBlockReward n = schedule_reward (unat n)"
proof -
  let ?p = "n div blocksPerHalving"
  have p: "unat ?p = unat n div 840960" by (simp add: unat_div_distrib)
  show ?thesis
  proof (cases "?p > maxHalvings")
    case True
    then have "64 < unat ?p" by (simp add: word_less_nat_alt maxHalvings_def)
    with True show ?thesis
      by (simp add: CalculateBlockReward_def Let_def halve_loop_initial schedule_reward_def
          period_reward_def maxHalvings_def p [symmetric])
  next
    case False
    then show ?thesis
      by (simp add: CalculateBlockReward_def Let_def halve_loop_initial schedule_reward_def p [symmetric])
  qed
qed

lemma initial_nonneg [simp]: "0 \<le> initialBlockReward"
  by (simp add: initialBlockReward_def oneANTD_def)

lemma period_reward_nonneg [simp]: "0 \<le> period_reward k"
  by (simp add: period_reward_def pos_imp_zdiv_nonneg_iff)

lemma period_reward_antimono:
  assumes "j \<le> k"
  shows "period_reward k \<le> period_reward j"
proof (cases "k < 8")
  case True
  have "initialBlockReward div 2 ^ k \<le> initialBlockReward div 2 ^ j"
    by (rule zdiv_mono2) (simp_all add: assms)
  with True assms show ?thesis by (simp add: period_reward_def)
next
  case False
  then have "period_reward k = 0" by (simp add: period_reward_def)
  then show ?thesis by simp
qed

lemma period_reward_Suc:
  "k < 7 \<Longrightarrow> period_reward k div 2 = period_reward (Suc k) \<and> oneANTD \<le> period_reward (Suc k)"
proof -
  assume "k < 7"
  then have "k \<in> {0, 1, 2, 3, 4, 5, 6}" by auto
  then show ?thesis by (auto simp: period_reward_def initialBlockReward_def oneANTD_def)
qed

lemma period_reward_last: "period_reward 7 div 2 < oneANTD"
  by (simp add: period_reward_def initialBlockReward_def oneANTD_def)

section \<open>Supply\<close>

definition scheduled_supply :: "nat \<Rightarrow> int" where
  "scheduled_supply n = genesisPremine + (\<Sum>b<n. schedule_reward b)"

lemma scheduled_supply_period:
  assumes "k * 840960 \<le> m" and "m \<le> Suc k * 840960"
  shows "scheduled_supply m = scheduled_supply (k * 840960) + period_reward k * int (m - k * 840960)"
proof -
  have "(\<Sum>b<m. schedule_reward b) =
      (\<Sum>b<k * 840960. schedule_reward b) + (\<Sum>b\<in>{k * 840960..<m}. schedule_reward b)"
    using sum.atLeastLessThan_concat [of 0 "k * 840960" m schedule_reward] assms
    by (simp add: atLeast0LessThan)
  also have "(\<Sum>b\<in>{k * 840960..<m}. schedule_reward b) = (\<Sum>b\<in>{k * 840960..<m}. period_reward k)"
  proof (rule sum.cong)
    fix b assume "b \<in> {k * 840960..<m}"
    with assms have "k * 840960 \<le> b" and "b < Suc k * 840960" by simp_all
    then have "b div 840960 = k" by (simp add: div_nat_eqI)
    then show "schedule_reward b = period_reward k" by (simp add: schedule_reward_def)
  qed simp
  finally show ?thesis by (simp add: scheduled_supply_def)
qed

lemma scheduled_supply_mono: "m \<le> n \<Longrightarrow> scheduled_supply m \<le> scheduled_supply n"
  by (auto simp: scheduled_supply_def schedule_reward_def intro!: sum_mono2)

lemma scheduled_supply_final:
  assumes "8 * 840960 \<le> m"
  shows "scheduled_supply m = scheduled_supply (8 * 840960)"
proof -
  have "(\<Sum>b<m. schedule_reward b) = (\<Sum>b<8 * 840960. schedule_reward b)"
  proof (rule sum.mono_neutral_right)
    show "\<forall>b\<in>{..<m} - {..<8 * 840960}. schedule_reward b = 0"
    proof
      fix b assume "b \<in> {..<m} - {..<8 * 840960}"
      then have "8 \<le> b div 840960" by (simp add: less_eq_div_iff_mult_less_eq)
      then show "schedule_reward b = 0" by (simp add: schedule_reward_def period_reward_def)
    qed
  qed (use assms in auto)
  then show ?thesis by (simp add: scheduled_supply_def)
qed

definition period_start :: "nat \<Rightarrow> u64" where
  "period_start k = word_of_nat (k * 840960)"

lemma unat_period_start [simp]: "k \<le> 8 \<Longrightarrow> unat (period_start k) = k * 840960"
  unfolding period_start_def by (subst unat_of_nat) simp

lemma period_start_Suc: "period_start k + 840960 = period_start (Suc k)"
  unfolding period_start_def by (metis mult_Suc of_nat_add of_nat_numeral add.commute)

lemma supply_loop_done: "\<not> cur < n \<Longrightarrow> 0 < fuel \<Longrightarrow> supply_loop fuel n cur r h t = Some t"
  by (cases fuel) simp_all

lemma sint_small:
  fixes w :: u64
  assumes "unat w < 1000000"
  shows "sint w = int (unat w)"
proof -
  have "int (unat w) < 1000000" using assms by linarith
  then have "uint w < 1000000" by simp
  moreover have "0 \<le> uint w" by simp
  ultimately have "signed_take_bit 63 (uint w) = uint w"
    by (intro signed_take_bit_int_eq_self order_trans [OF _ uint_ge_0]) simp_all
  then show ?thesis by (simp add: sint_uint)
qed

text \<open>One round of the loop, at the start of a halving period.\<close>

lemma supply_loop_full:
  assumes k: "k \<le> 7" and n: "Suc k * 840960 \<le> unat n"
  shows "supply_loop (Suc fuel) n (period_start k) r (word_of_nat k) t =
    (if r div 2 < oneANTD then Some (t + r * 840960)
     else supply_loop fuel n (period_start (Suc k)) (r div 2) (word_of_nat (Suc k)) (t + r * 840960))"
proof -
  have lt: "period_start k < n"
    using k n by (simp add: word_less_nat_alt)
  have h: "(word_of_nat k :: u64) \<noteq> maxHalvings" and h': "\<not> (word_of_nat k + 1 :: u64) > maxHalvings"
    using k by (auto simp: maxHalvings_def word_less_nat_alt word_unat_eq_iff unat_of_nat unat_word_ariths)
  have next_start: "\<not> period_start k + 840960 > n"
    using k n by (simp add: period_start_Suc word_less_nat_alt)
  have m: "period_start (Suc k) mod 840960 = 0" and p: "0 < period_start (Suc k)"
    using k by (simp_all add: word_unat_eq_iff unat_mod_distrib word_less_nat_alt)
  have hs: "(word_of_nat k + 1 :: u64) = word_of_nat (Suc k)" by simp
  show ?thesis
    using lt h h' next_start m p
    by (simp add: Let_def period_start_Suc hs [symmetric] del: of_nat_Suc)
qed

text \<open>The last round: the height lies inside the current period.\<close>

lemma supply_loop_partial:
  assumes k: "k \<le> 7" and lo: "k * 840960 < unat n" and hi: "unat n < Suc k * 840960"
    and fuel: "0 < fuel"
  shows "supply_loop (Suc fuel) n (period_start k) r (word_of_nat k) t =
    Some (t + r * int (unat n - k * 840960))"
proof -
  have lt: "period_start k < n" using k lo by (simp add: word_less_nat_alt)
  have h: "(word_of_nat k :: u64) \<noteq> maxHalvings"
    using k by (auto simp: maxHalvings_def word_unat_eq_iff unat_of_nat)
  have over: "period_start k + 840960 > n"
    using k hi by (simp add: period_start_Suc word_less_nat_alt)
  have diff: "unat (n - period_start k) = unat n - k * 840960"
    using k lo by (simp add: unat_sub_if')
  then have sint: "sint (n - period_start k) = int (unat n - k * 840960)"
    using hi sint_small [of "n - period_start k"] by simp
  have sum: "period_start k + (n - period_start k) = n" by simp
  have "unat n mod 840960 \<noteq> 0"
  proof
    assume "unat n mod 840960 = 0"
    then obtain q where "unat n = 840960 * q" by auto
    with lo hi show False by auto
  qed
  then have m: "n mod 840960 \<noteq> 0" by (auto simp: word_unat_eq_iff unat_mod_distrib)
  have ex: "supply_loop fuel n n r (word_of_nat k) t' = Some t'" for t'
    using fuel by (cases fuel) simp_all
  show ?thesis
    using lt h over m ex by (simp add: Let_def sint sum)
qed

lemma supply_loop_correct:
  assumes "k \<le> 7" and "k * 840960 \<le> unat n" and "9 - k < fuel"
  shows "supply_loop fuel n (period_start k) (period_reward k) (word_of_nat k) (scheduled_supply (k * 840960))
    = Some (scheduled_supply (unat n))"
  using assms
proof (induction fuel arbitrary: k)
  case (Suc fuel)
  consider "unat n = k * 840960" | "k * 840960 < unat n" "unat n < Suc k * 840960"
    | "Suc k * 840960 \<le> unat n" using Suc.prems(2) by linarith
  then show ?case
  proof cases
    case 1
    then have "\<not> period_start k < n" using Suc.prems(1) by (simp add: word_less_nat_alt)
    then show ?thesis by (simp add: 1)
  next
    case 2
    have "0 < fuel" using Suc.prems by linarith
    with 2 Suc.prems(1) show ?thesis
      by (simp only: supply_loop_partial) (simp add: scheduled_supply_period [of k "unat n"])
  next
    case 3
    have full: "scheduled_supply (k * 840960) + period_reward k * 840960 = scheduled_supply (Suc k * 840960)"
      using scheduled_supply_period [of k "Suc k * 840960"] by simp
    show ?thesis
    proof (cases "k = 7")
      case True
      have "scheduled_supply (unat n) = scheduled_supply (8 * 840960)"
        using 3 True by (intro scheduled_supply_final) simp
      with True full period_reward_last show ?thesis
        using supply_loop_full [OF Suc.prems(1) 3, of fuel "period_reward k" "scheduled_supply (k * 840960)"]
        by (simp del: supply_loop.simps)
    next
      case False
      then have k: "k < 7" using Suc.prems(1) by simp
      then have "supply_loop fuel n (period_start (Suc k)) (period_reward (Suc k)) (word_of_nat (Suc k))
          (scheduled_supply (Suc k * 840960)) = Some (scheduled_supply (unat n))"
        using Suc.prems 3 by (intro Suc.IH) auto
      with period_reward_Suc [OF k] full show ?thesis
        using supply_loop_full [OF Suc.prems(1) 3, of fuel "period_reward k" "scheduled_supply (k * 840960)"]
        by (simp del: supply_loop.simps)
    qed
  qed
qed simp

lemma CalculateCirculatingSupply_closed:
  "CalculateCirculatingSupply n = Some (scheduled_supply (unat n))"
proof -
  have "scheduled_supply 0 = genesisPremine" by (simp add: scheduled_supply_def)
  moreover have "period_reward 0 = initialBlockReward" by (simp add: period_reward_def)
  moreover have "period_start 0 = 0" by (simp add: period_start_def)
  ultimately show ?thesis
    using supply_loop_correct [of 0 n 10] by (simp add: CalculateCirculatingSupply_def)
qed

lemma scheduled_supply_Suc_period:
  "scheduled_supply (Suc k * 840960) = scheduled_supply (k * 840960) + period_reward k * 840960"
  using scheduled_supply_period [of k "Suc k * 840960"] by simp

lemma cap_loop_correct:
  assumes "j \<le> 7" and "9 - j \<le> m"
  shows "cap_loop m (period_reward j) (scheduled_supply (j * 840960)) = scheduled_supply (8 * 840960)"
  using assms
proof (induction m arbitrary: j)
  case (Suc m)
  have sint: "sint (840960 :: u64) = 840960" by (simp add: sint_small)
  have m: "m \<noteq> 0" using Suc.prems by linarith
  have acc: "scheduled_supply (j * 840960) + period_reward j * sint (840960 :: u64) = scheduled_supply (Suc j * 840960)"
    by (simp only: scheduled_supply_Suc_period sint)
  show ?case
  proof (cases "j = 7")
    case True
    with m acc period_reward_last show ?thesis by (simp add: Let_def)
  next
    case False
    then have j: "j < 7" using Suc.prems(1) by simp
    then have "cap_loop m (period_reward (Suc j)) (scheduled_supply (Suc j * 840960)) = scheduled_supply (8 * 840960)"
      using Suc.prems by (intro Suc.IH) auto
    with m acc period_reward_Suc [OF j] show ?thesis by (simp add: Let_def)
  qed
qed simp

lemma CalculateTotalSupplyCap_closed: "CalculateTotalSupplyCap = scheduled_supply (8 * 840960)"
proof -
  have "scheduled_supply (0 * 840960) = genesisPremine" by (simp add: scheduled_supply_def)
  moreover have "period_reward 0 = initialBlockReward" by (simp add: period_reward_def)
  moreover have "9 \<le> Suc (unat maxHalvings)" by (simp add: maxHalvings_def)
  ultimately show ?thesis
    using cap_loop_correct [of 0 "Suc (unat maxHalvings)"]
    by (simp add: CalculateTotalSupplyCap_def del: cap_loop.simps)
qed

section \<open>Properties\<close>

text \<open>
  The reward loop computes \<open>200 ANTD / 2^k\<close> in halving period \<open>k < 8\<close> and zero from the
  ninth period on, for every 64-bit block number; a later block never earns more.
\<close>

theorem block_reward_closed_form:
  "CalculateBlockReward n =
     (if unat n div 840960 < 8 then 200 * oneANTD div 2 ^ (unat n div 840960) else 0)
   \<and> 0 \<le> CalculateBlockReward n
   \<and> CalculateBlockReward (max m n) \<le> CalculateBlockReward n"
proof -
  have "unat n \<le> unat (max m n)" by (simp add: word_le_nat_alt [symmetric])
  then have "unat n div 840960 \<le> unat (max m n) div 840960" by (rule div_le_mono)
  then show ?thesis
    by (simp add: CalculateBlockReward_closed schedule_reward_def period_reward_antimono)
      (simp add: period_reward_def initialBlockReward_def)
qed

text \<open>
  The circulating supply that the period loop computes is the genesis premine plus the sum
  of the rewards of all the blocks below the given height: the loop always returns (ten rounds
  are enough for every 64-bit height), its result never exceeds the supply cap, and it is the
  cap from the end of the eighth halving period on.
\<close>

theorem circulating_supply_is_sum_of_rewards:
  "CalculateCirculatingSupply n =
     Some (genesisPremine + (\<Sum>b<unat n. CalculateBlockReward (word_of_nat b)))
   \<and> genesisPremine + (\<Sum>b<unat n. CalculateBlockReward (word_of_nat b)) \<le> CalculateTotalSupplyCap
   \<and> CalculateCirculatingSupply (max n 6727680) = Some CalculateTotalSupplyCap"
proof -
  have "(\<Sum>b<unat n. CalculateBlockReward (word_of_nat b)) = (\<Sum>b<unat n. schedule_reward b)"
  proof (rule sum.cong)
    fix b assume "b \<in> {..<unat n}"
    moreover have "unat n < 2 ^ 64" using unsigned_less [of n] by simp
    ultimately have "b < 2 ^ 64" by simp
    then have "unat (word_of_nat b :: u64) = b" by (simp add: unat_of_nat)
    then show "CalculateBlockReward (word_of_nat b) = schedule_reward b"
      by (simp add: CalculateBlockReward_closed)
  qed simp
  moreover have "scheduled_supply (unat n) \<le> scheduled_supply (8 * 840960)"
  proof (cases "unat n \<le> 8 * 840960")
    case True
    then show ?thesis by (rule scheduled_supply_mono)
  next
    case False
    then have "scheduled_supply (unat n) = scheduled_supply (8 * 840960)"
      by (intro scheduled_supply_final) simp
    then show ?thesis by (simp only: order_refl)
  qed
  moreover have "unat (6727680 :: u64) \<le> unat (max n 6727680)"
    by (simp only: word_le_nat_alt [symmetric] max.cobounded2)
  then have "scheduled_supply (unat (max n 6727680)) = scheduled_supply (8 * 840960)"
    by (intro scheduled_supply_final) simp
  ultimately show ?thesis
    by (simp add: CalculateCirculatingSupply_closed CalculateTotalSupplyCap_closed)
      (simp add: scheduled_supply_def)
qed

end
