(* ===== verification/Transactions.thy ===== *)
theory Transactions
  imports Hex_Util
begin

text \<open>
  Transactions (\<open>antdc/tx/tx.go\<close>): the signing preimage, signing and verification, the
  structural checks, the JSON form field by field; and the choice of a nonce
  (\<open>antdc/nonce/nonce.go\<close>).

  A nil \<open>*big.Int\<close> or \<open>*QuantumAddress\<close> is \<open>None\<close>; a nil byte slice is the empty one,
  which no operation here tells apart.
\<close>

record tx =
  tx_From :: address
  tx_To :: "address option"
  tx_PubKey :: bytes
  tx_Value :: "int option"
  tx_Data :: bytes
  tx_Nonce :: u64
  tx_Gas :: u64
  tx_GasPrice :: "int option"
  tx_Signature :: bytes
  tx_Timestamp :: u64

datatype tx_error =
    Zero_Gas | Invalid_Gas_Price | Invalid_Value | Value_Too_Large
  | Invalid_PubKey_Length | Invalid_Signature_Length
  | Missing_Public_Key | Invalid_Signature | From_Mismatch | Bad_Signer_Address addr_error

definition MaxQuantumSignatureSize :: nat where
  "MaxQuantumSignatureSize = MLDSA65SignatureSize"

definition NewTx :: "address \<Rightarrow> address \<Rightarrow> int option \<Rightarrow> bytes \<Rightarrow> u64 \<Rightarrow> u64 \<Rightarrow> int option \<Rightarrow> tx" where
  "NewTx from to value data nonce gas gasPrice =
     \<lparr>tx_From = from, tx_To = Some to, tx_PubKey = [], tx_Value = value, tx_Data = data,
      tx_Nonce = nonce, tx_Gas = gas, tx_GasPrice = gasPrice, tx_Signature = [], tx_Timestamp = 0\<rparr>"

definition NewTransferTx :: "address \<Rightarrow> address \<Rightarrow> int option \<Rightarrow> u64 \<Rightarrow> int option \<Rightarrow> u64 \<Rightarrow> tx" where
  "NewTransferTx from to amount nonce gasPrice now =
     \<lparr>tx_From = from, tx_To = Some to, tx_PubKey = [], tx_Value = amount, tx_Data = [],
      tx_Nonce = nonce, tx_Gas = 21000, tx_GasPrice = gasPrice, tx_Signature = [], tx_Timestamp = now\<rparr>"

section \<open>Hashing and signing\<close>

text \<open>The SHA-256 of the standard library is the parameter \<open>sha256\<close>.\<close>

definition signing_preimage :: "tx \<Rightarrow> bytes" where
  "signing_preimage t =
     (case tx_To t of None \<Rightarrow> [] | Some a \<Rightarrow> Address_Bytes a)
     @ (case tx_Value t of None \<Rightarrow> [] | Some v \<Rightarrow> big_bytes v)
     @ tx_Data t
     @ word_bytes 8 (tx_Nonce t)
     @ word_bytes 8 (tx_Gas t)
     @ (case tx_GasPrice t of None \<Rightarrow> [] | Some p \<Rightarrow> big_bytes p)
     @ word_bytes 8 (tx_Timestamp t)"

definition HashForSigning :: "(bytes \<Rightarrow> hash) \<Rightarrow> tx \<Rightarrow> bytes" where
  "HashForSigning sha256 t = Hash_Bytes (sha256 (signing_preimage t))"

definition tx_Hash :: "(bytes \<Rightarrow> hash) \<Rightarrow> tx \<Rightarrow> hash" where
  "tx_Hash sha256 t = BytesToHash (HashForSigning sha256 t)"

definition Sign_Tx :: "crypto \<Rightarrow> (bytes \<Rightarrow> hash) \<Rightarrow> tx \<Rightarrow> bytes \<Rightarrow> bytes \<Rightarrow> tx option" where
  "Sign_Tx C sha256 t privKey pubKey =
     (case Sign C privKey (HashForSigning sha256 t) of
        None \<Rightarrow> None
      | Some sig \<Rightarrow>
          (case ParseQuantumAddress C (PubKeyToAddress C pubKey) of
             Inl e \<Rightarrow> None
           | Inr from \<Rightarrow> Some (t\<lparr>tx_Signature := sig, tx_PubKey := pubKey, tx_From := from\<rparr>)))"

definition Verify_Tx :: "crypto \<Rightarrow> (bytes \<Rightarrow> hash) \<Rightarrow> tx \<Rightarrow> tx_error + unit" where
  "Verify_Tx C sha256 t =
     (if tx_PubKey t = [] then Inl Missing_Public_Key
      else if \<not> Verify_Signature C (tx_PubKey t) (HashForSigning sha256 t) (tx_Signature t)
      then Inl Invalid_Signature
      else case ParseQuantumAddress C (PubKeyToAddress C (tx_PubKey t)) of
        Inl e \<Rightarrow> Inl (Bad_Signer_Address e)
      | Inr addr \<Rightarrow> if addr \<noteq> tx_From t then Inl From_Mismatch else Inr ())"

text \<open>\<open>Value.BitLen() > 256\<close> is \<open>2^256 \<le> |Value|\<close>.\<close>

definition Validate_Tx :: "tx \<Rightarrow> tx_error + unit" where
  "Validate_Tx t =
     (if tx_Gas t = 0 then Inl Zero_Gas
      else case tx_GasPrice t of
        None \<Rightarrow> Inl Invalid_Gas_Price
      | Some price \<Rightarrow>
          if price \<le> 0 then Inl Invalid_Gas_Price
          else case tx_Value t of
            None \<Rightarrow> Inl Invalid_Value
          | Some value \<Rightarrow>
              if value \<le> 0 then Inl Invalid_Value
              else if value \<ge> 2 ^ 256 then Inl Value_Too_Large
              else if length (tx_PubKey t) \<noteq> MLDSA65PublicKeySize then Inl Invalid_PubKey_Length
              else if length (tx_Signature t) \<noteq> MaxQuantumSignatureSize
              then Inl Invalid_Signature_Length
              else Inr ())"

lemma Validate_Tx_Inr:
  "Validate_Tx t = Inr () \<longleftrightarrow>
     tx_Gas t \<noteq> 0 \<and> (\<exists>p. tx_GasPrice t = Some p \<and> 0 < p)
     \<and> (\<exists>v. tx_Value t = Some v \<and> 0 < v \<and> v < 2 ^ 256)
     \<and> length (tx_PubKey t) = MLDSA65PublicKeySize
     \<and> length (tx_Signature t) = MaxQuantumSignatureSize"
  by (auto simp: Validate_Tx_def split: option.splits)

lemma signing_preimage_upd [simp]:
  "signing_preimage (t\<lparr>tx_Signature := s\<rparr>) = signing_preimage t"
  "signing_preimage (t\<lparr>tx_PubKey := k\<rparr>) = signing_preimage t"
  "signing_preimage (t\<lparr>tx_From := a\<rparr>) = signing_preimage t"
  by (simp_all add: signing_preimage_def)

lemma tx_Hash_sha [simp]: "tx_Hash sha256 t = sha256 (signing_preimage t)"
  by (simp add: tx_Hash_def HashForSigning_def)

section \<open>JSON form\<close>

text \<open>
  The struct that \<open>MarshalJSON\<close> hands to \<open>encoding/json\<close> and \<open>UnmarshalJSON\<close> gets
  from it. A number-valued field may be a JSON number (read as \<open>int64\<close>), text, null, or
  something else.
\<close>

datatype json_num = J_Number int | J_String string | J_Null | J_Other

record tx_json =
  j_from :: string
  j_to :: "string option"
  j_pubKey :: string
  j_value :: json_num
  j_data :: string
  j_nonce :: u64
  j_gas :: u64
  j_gasPrice :: json_num
  j_signature :: string
  j_timestamp :: u64

datatype json_error = Bad_Hex | Bad_Address addr_error | Bad_Big_Int

definition MarshalJSON_Tx :: "crypto \<Rightarrow> tx \<Rightarrow> tx_json" where
  "MarshalJSON_Tx C t =
     \<lparr>j_from = Address_String C (tx_From t),
      j_to = map_option (Address_String C) (tx_To t),
      j_pubKey = hex_encode (tx_PubKey t),
      j_value = J_String (case tx_Value t of None \<Rightarrow> '''' | Some v \<Rightarrow> dec_int v),
      j_data = hex_encode (tx_Data t),
      j_nonce = tx_Nonce t,
      j_gas = tx_Gas t,
      j_gasPrice = J_String (case tx_GasPrice t of None \<Rightarrow> '''' | Some p \<Rightarrow> dec_int p),
      j_signature = hex_encode (tx_Signature t),
      j_timestamp = tx_Timestamp t\<rparr>"

text \<open>\<open>strings.Trim(val, "\"")\<close>.\<close>

definition trim_quotes :: "string \<Rightarrow> string" where
  "trim_quotes s = rev (dropWhile (\<lambda>c. c = CHR 0x22) (rev (dropWhile (\<lambda>c. c = CHR 0x22) s)))"

definition parseBigInt_tx :: "json_num \<Rightarrow> json_error + int" where
  "parseBigInt_tx v =
     (case v of
        J_Number n \<Rightarrow> Inr n
      | J_String s \<Rightarrow>
          let cleaned = trim_quotes s
          in if cleaned = '''' then Inr 0
             else (case parse_int cleaned of None \<Rightarrow> Inl Bad_Big_Int | Some n \<Rightarrow> Inr n)
      | J_Null \<Rightarrow> Inr 0
      | J_Other \<Rightarrow> Inl Bad_Big_Int)"

text \<open>An empty text leaves the field of the receiver \<open>t\<close> as it is.\<close>

definition hex_field :: "string \<Rightarrow> bytes \<Rightarrow> json_error + bytes" where
  "hex_field s old =
     (if s = '''' then Inr old
      else case hex_decode s of (b, ok) \<Rightarrow> if ok then Inr b else Inl Bad_Hex)"

definition UnmarshalJSON_Tx :: "crypto \<Rightarrow> tx_json \<Rightarrow> tx \<Rightarrow> json_error + tx" where
  "UnmarshalJSON_Tx C aux t =
     (case hex_field (j_data aux) (tx_Data t) of Inl e \<Rightarrow> Inl e
      | Inr d \<Rightarrow>
     (case hex_field (j_signature aux) (tx_Signature t) of Inl e \<Rightarrow> Inl e
      | Inr s \<Rightarrow>
     (case hex_field (j_pubKey aux) (tx_PubKey t) of Inl e \<Rightarrow> Inl e
      | Inr pk \<Rightarrow>
     (case (if j_from aux = '''' then Inr (tx_From t) else ParseQuantumAddress C (j_from aux)) of
        Inl e \<Rightarrow> Inl (Bad_Address e)
      | Inr from \<Rightarrow>
     (case (case j_to aux of None \<Rightarrow> Inr (tx_To t)
            | Some s \<Rightarrow> (case ParseQuantumAddress C s of Inl e \<Rightarrow> Inl e | Inr a \<Rightarrow> Inr (Some a))) of
        Inl e \<Rightarrow> Inl (Bad_Address e)
      | Inr to \<Rightarrow>
     (case parseBigInt_tx (j_value aux) of Inl e \<Rightarrow> Inl e
      | Inr v \<Rightarrow>
     (case parseBigInt_tx (j_gasPrice aux) of Inl e \<Rightarrow> Inl e
      | Inr gp \<Rightarrow>
        Inr \<lparr>tx_From = from, tx_To = to, tx_PubKey = pk, tx_Value = Some v, tx_Data = d,
             tx_Nonce = j_nonce aux, tx_Gas = j_gas aux, tx_GasPrice = Some gp,
             tx_Signature = s, tx_Timestamp = j_timestamp aux\<rparr>)))))))"

text \<open>The receiver of a decode: a zeroed struct.\<close>

definition zero_tx :: tx where
  "zero_tx = \<lparr>tx_From = zero_address, tx_To = None, tx_PubKey = [], tx_Value = None, tx_Data = [],
      tx_Nonce = 0, tx_Gas = 0, tx_GasPrice = None, tx_Signature = [], tx_Timestamp = 0\<rparr>"

lemma dec_nat_no_quote: "CHR 0x22 \<notin> set (dec_nat n)"
proof (induction n rule: dec_nat.induct)
  case (1 n)
  have q: "(CHR 0x22 :: char) \<noteq> char_of (48 + d)" if "d < 10" for d :: nat
  proof
    assume "CHR 0x22 = (char_of (48 + d) :: char)"
    then have "of_char (CHR 0x22) = (of_char (char_of (48 + d) :: char) :: nat)" by simp
    with that show False by (simp add: of_char_of)
  qed
  show ?case
  proof (cases "n < 10")
    case True
    then show ?thesis using q [of n] by (subst dec_nat.simps) simp
  next
    case False
    then show ?thesis using "1.IH" q [of "n mod 10"] by (subst dec_nat.simps) simp
  qed
qed

lemma trim_quotes_id: "CHR 0x22 \<notin> set s \<Longrightarrow> trim_quotes s = s"
proof -
  assume s: "CHR 0x22 \<notin> set s"
  then have "dropWhile (\<lambda>c. c = CHR 0x22) s = s" by (cases s) auto
  moreover from s have "CHR 0x22 \<notin> set (rev s)" by simp
  then have "dropWhile (\<lambda>c. c = CHR 0x22) (rev s) = rev s" by (cases "rev s") auto
  ultimately show ?thesis by (simp add: trim_quotes_def)
qed

lemma parseBigInt_dec [codec]: "parseBigInt_tx (J_String (dec_int z)) = Inr z"
proof -
  have "CHR 0x22 \<notin> set (dec_int z)" and "dec_int z \<noteq> ''''"
    by (simp_all add: dec_int_def dec_nat_no_quote)
  then show ?thesis by (simp add: parseBigInt_tx_def trim_quotes_id parse_int_dec_int)
qed

lemma hex_encode_empty [simp]: "hex_encode b = [] \<longleftrightarrow> b = []"
  by (cases b) (simp_all add: hex_encode_def)

lemma hex_field_encode [codec]: "hex_field (hex_encode b) [] = Inr b"
  by (simp add: hex_field_def)

lemma Address_String_not_empty [simp]: "Address_String C a \<noteq> ''''"
  by (simp add: Address_String_def EncodeAddress_def AddressPrefix_def)

section \<open>Choosing a nonce (nonce/nonce.go)\<close>

datatype nonce_error = Invalid_Nonce string | No_Pending_To_Replace

definition Determine :: "(bytes \<Rightarrow> hash) \<Rightarrow> string list \<Rightarrow> address \<Rightarrow> u64 \<Rightarrow> u64 \<Rightarrow> tx list
    \<Rightarrow> nonce_error + (u64 \<times> string \<times> bool \<times> hash)" where
  "Determine sha256 parts fromAddr stateNonce nextNonce pending =
     (if length parts \<le> 4 then Inr (stateNonce, ''auto'', False, zero_hash)
      else
        let arg = parts ! 4
        in if arg \<noteq> ''@replace'' \<and> arg \<noteq> ''replace'' then
             (case parse_nat arg of
                None \<Rightarrow> Inl (Invalid_Nonce arg)
              | Some n \<Rightarrow> if n \<ge> 2 ^ 64 then Inl (Invalid_Nonce arg)
                          else Inr (word_of_nat n, ''manual'', False, zero_hash))
           else
             (case find (\<lambda>t. tx_From t = fromAddr \<and> tx_Nonce t = stateNonce) pending of
                Some t \<Rightarrow> Inr (stateNonce,
                    ''replace '' @ take 8 (''0x'' @ hex_encode (Hash_Bytes (tx_Hash sha256 t))),
                    True, tx_Hash sha256 t)
              | None \<Rightarrow> Inl No_Pending_To_Replace))"

section \<open>Properties\<close>

lemma nat_bytes_step: "0 < n \<Longrightarrow> nat_bytes n = nat_bytes (n div 256) @ [word_of_nat (n mod 256)]"
  by (subst nat_bytes.simps) simp

text \<open>The same transaction with the low byte of its value moved to the front of its data.\<close>

definition shift_value_byte :: "tx \<Rightarrow> tx" where
  "shift_value_byte t =
     (case tx_Value t of None \<Rightarrow> t
      | Some v \<Rightarrow> t\<lparr>tx_Value := Some (v div 256), tx_Data := word_of_int (v mod 256) # tx_Data t\<rparr>)"

lemma shift_value_byte_preimage:
  assumes v: "tx_Value t = Some v" and "0 < v"
  shows "signing_preimage (shift_value_byte t) = signing_preimage t"
proof -
  have "nat v div 256 = nat (v div 256)" and "nat v mod 256 = nat (v mod 256)"
    using \<open>0 < v\<close> by (simp_all add: nat_div_distrib nat_mod_distrib)
  then have "big_bytes v = big_bytes (v div 256) @ [word_of_nat (nat (v mod 256))]"
    using \<open>0 < v\<close> nat_bytes_step [of "nat v"] by (simp add: big_bytes_def)
  moreover have "(word_of_nat (nat (v mod 256)) :: u8) = word_of_int (v mod 256)"
    using \<open>0 < v\<close> by simp
  ultimately show ?thesis
    by (simp add: signing_preimage_def shift_value_byte_def v)
qed

lemma Verify_Tx_cong:
  assumes "signing_preimage t' = signing_preimage t" and "tx_From t' = tx_From t"
    and "tx_PubKey t' = tx_PubKey t" and "tx_Signature t' = tx_Signature t"
  shows "Verify_Tx C sha256 t' = Verify_Tx C sha256 t"
  using assms by (simp add: Verify_Tx_def HashForSigning_def split: sum.split)

text \<open>
  The signing preimage concatenates value and data without lengths, so a signature also
  covers a different payment: moving the low byte of the value into the data keeps the hash,
  the signature check and the structural check, although value and data are different.
\<close>

theorem signature_covers_two_payments:
  assumes "Validate_Tx t = Inr ()" and "Verify_Tx C sha256 t = Inr ()"
    and "tx_Value t = Some v" and "256 \<le> v"
  shows "Validate_Tx (shift_value_byte t) = Inr ()
    \<and> Verify_Tx C sha256 (shift_value_byte t) = Inr ()
    \<and> tx_Hash sha256 (shift_value_byte t) = tx_Hash sha256 t
    \<and> tx_Value (shift_value_byte t) = Some (v div 256) \<and> v div 256 < v"
proof -
  have pre: "signing_preimage (shift_value_byte t) = signing_preimage t"
    using shift_value_byte_preimage [OF assms(3)] assms(4) by linarith
  have v: "v < 2 ^ 256" using assms(1,3) by (auto simp: Validate_Tx_Inr)
  have "0 < v div 256" and lt: "v div 256 < v" using assms(4) by simp_all
  with v have "v div 256 < 2 ^ 256" by linarith
  with \<open>0 < v div 256\<close> have "Validate_Tx (shift_value_byte t) = Inr ()"
    using assms(1,3) by (auto simp: Validate_Tx_Inr shift_value_byte_def)
  moreover have "Verify_Tx C sha256 (shift_value_byte t) = Verify_Tx C sha256 t"
    by (rule Verify_Tx_cong) (use pre assms(3) in \<open>simp_all add: shift_value_byte_def\<close>)
  ultimately show ?thesis
    using assms pre lt by (simp add: shift_value_byte_def)
qed

definition sample_tx :: tx where
  "sample_tx = \<lparr>tx_From = 0, tx_To = Some 5, tx_PubKey = replicate 1952 0, tx_Value = Some 515,
     tx_Data = [], tx_Nonce = 0, tx_Gas = 21000, tx_GasPrice = Some 1000000000,
     tx_Signature = replicate 3309 0, tx_Timestamp = 1\<rparr>"

lemma toy_zero_key: "ParseQuantumAddress toy_crypto (PubKeyToAddress toy_crypto (replicate n 0)) = Inr 0"
proof -
  have "length (ripemd160 toy_crypto b) = 20" for b by (simp add: toy_crypto_def)
  moreover have "ripemd160 toy_crypto (Hash_Bytes (sha3 toy_crypto (replicate n 0))) = replicate 20 0"
  proof -
    have "be_bytes k 0 = replicate k (0::u8)" for k
      by (induction k) (simp_all add: replicate_append_same)
    then show ?thesis by (simp add: toy_crypto_def Hash_Bytes_def word_bytes_def)
  qed
  ultimately show ?thesis
    by (simp add: Parse_PubKeyToAddress toy_base58 bytes_word_def)
qed

lemma sample_tx_ok:
  "Validate_Tx sample_tx = Inr ()" "Verify_Tx toy_crypto sha sample_tx = Inr ()"
  by (simp_all add: Validate_Tx_Inr Verify_Tx_def sample_tx_def toy_zero_key Verify_Signature_def
      MLDSA65SignatureSize_def MLDSA65PublicKeySize_def MaxQuantumSignatureSize_def)
    (simp_all add: toy_crypto_def)

theorem signature_covers_two_payments_witness:
  "Verify_Tx toy_crypto (\<lambda>_. 9) (shift_value_byte sample_tx) = Inr ()
   \<and> tx_Value (shift_value_byte sample_tx) = Some 2"
  using signature_covers_two_payments [OF sample_tx_ok, of 515]
  by (simp add: sample_tx_def)

text \<open>
  A transaction signed with a matching key pair passes verification, keeps its hash, and
  names the signer's address as its sender.
\<close>

theorem signed_transaction_verifies:
  assumes base58: "\<And>b. base58_decode C (base58_encode C b) = Some b"
    and digest: "\<And>b. length (ripemd160 C b) = 20"
    and keys: "length priv = MLDSA65PrivateKeySize" "mldsa_key_ok C priv" "mldsa_key_ok C pub" "pub \<noteq> []"
    and sound: "\<And>m. mldsa_verify C pub m (mldsa_sign C priv m)"
    and sig_len: "\<And>m. length (mldsa_sign C priv m) = MLDSA65SignatureSize"
  shows "\<exists>t'. Sign_Tx C sha256 t priv pub = Some t' \<and> Verify_Tx C sha256 t' = Inr ()
    \<and> tx_Hash sha256 t' = tx_Hash sha256 t
    \<and> ParseQuantumAddress C (PubKeyToAddress C pub) = Inr (tx_From t')"
  using assms
  by (simp add: Sign_Tx_def Sign_def Verify_Tx_def Verify_Signature_def HashForSigning_def
      Parse_PubKeyToAddress [OF base58 digest])

theorem signed_transaction_verifies_witness:
  "\<exists>t'. Sign_Tx toy_crypto (\<lambda>_. 9) zero_tx (replicate 4032 0) [1] = Some t'
    \<and> Verify_Tx toy_crypto (\<lambda>_. 9) t' = Inr ()"
proof -
  have "length (ripemd160 toy_crypto b) = 20" "mldsa_key_ok toy_crypto k"
    "mldsa_verify toy_crypto k m (mldsa_sign toy_crypto k' m)"
    "length (mldsa_sign toy_crypto k' m) = MLDSA65SignatureSize" for b k k' m
    by (simp_all add: toy_crypto_def MLDSA65SignatureSize_def)
  moreover have "length (replicate 4032 0 :: bytes) = MLDSA65PrivateKeySize"
    by (simp add: MLDSA65PrivateKeySize_def)
  ultimately show ?thesis
    using signed_transaction_verifies [of toy_crypto "replicate 4032 0" "[1]" "\<lambda>_. 9" zero_tx] toy_base58
    by blast
qed

text \<open>
  Decoding the JSON form of a transaction whose value and gas price are set gives the same
  transaction back, field by field.
\<close>

theorem tx_json_round_trip:
  assumes "\<And>b. base58_decode C (base58_encode C b) = Some b"
    and "tx_Value t = Some v" and "tx_GasPrice t = Some p"
  shows "UnmarshalJSON_Tx C (MarshalJSON_Tx C t) zero_tx = Inr t"
  using assms
  by (simp add: UnmarshalJSON_Tx_def MarshalJSON_Tx_def zero_tx_def hex_field_encode
      Parse_Address_String parseBigInt_dec split: option.split)

theorem tx_json_round_trip_witness:
  "UnmarshalJSON_Tx toy_crypto (MarshalJSON_Tx toy_crypto sample_tx) zero_tx = Inr sample_tx"
  by (rule tx_json_round_trip) (simp_all add: toy_base58 sample_tx_def)

end
