(* ===== verification/Blocks.thy ===== *)
theory Blocks
  imports Transactions
begin

text \<open>
  Blocks and headers (\<open>antdc/block/block.go\<close>, \<open>antdc/block/headerhash.go\<close>): header
  construction and validation, the hash preimages, the Merkle root, uncles, the size
  estimate and block validation.

  \<open>common.ComputeHash\<close> is \<open>sha3 C\<close>. A nil \<open>*Header\<close>, \<open>*Tx\<close> or \<open>*big.Int\<close> is \<open>None\<close>;
  \<open>Nil_Dereference\<close> is the runtime panic of reading through one. Nil and empty byte slices
  are both \<open>[]\<close>: no operation here tells them apart.
\<close>

section \<open>Data\<close>

definition MaxBlockSize :: int where "MaxBlockSize = 8388608"
definition MaxTransactions :: nat where "MaxTransactions = 10000"
definition MaxUncles :: nat where "MaxUncles = 2"
definition MaxExtraDataSize :: nat where "MaxExtraDataSize = 256"
definition BloomByteLength :: nat where "BloomByteLength = 256"
definition FutureBlockThreshold :: int where "FutureBlockThreshold = 30"

record staker_registration =
  sr_Address :: address
  sr_Amount :: "int option"
  sr_RegisteredHeight :: u64
  sr_UnlockStakeHeight :: "u64 option"
  sr_IsActive :: bool

record header =
  h_ParentHash :: hash
  h_UncleHash :: hash
  h_Coinbase :: address
  h_Root :: hash
  h_TxHash :: hash
  h_ReceiptHash :: hash
  h_Bloom :: bytes
  h_Difficulty :: "int option"
  h_Number :: "int option"
  h_GasLimit :: u64
  h_GasUsed :: u64
  h_Time :: u64
  h_Extra :: bytes
  h_Signature :: bytes
  h_MixDigest :: hash
  h_Nonce :: u64
  h_Version :: u32
  h_ProtocolVersion :: u32
  h_UpgradeName :: bytes
  h_UpgradeTimestamp :: u64
  h_MainKingAddress :: address
  h_RewardAmount :: "int option"
  h_CurrentReward :: "int option"
  h_Stakers :: "staker_registration list"
  h_TxRoot :: hash

record block =
  b_Header :: "header option"
  b_Txs :: "tx option list"
  b_Uncles :: "header option list"

datatype block_error =
    Block_Nil | Header_Nil | Nil_Dereference
  | Err_Invalid_Number | Number_Mismatch | Err_Invalid_Parent_Hash
  | Err_Gas_Limit_Exceeded | Gas_Limit_Zero
  | Err_Invalid_Timestamp | Timestamp_Before_Parent | Err_Invalid_Difficulty
  | Extra_Too_Large | Extra_All_Zero | Extra_All_FF | Extra_Repeating
  | Parent_Block_Required | Parent_Header_Required
  | Err_Block_Too_Large | Err_Too_Many_Transactions | Err_Tx_Root_Mismatch
  | Err_Too_Many_Uncles | Err_Duplicate_Uncle | Uncle_Invalid nat block_error
  | Err_Uncle_Number_Too_High | Uncle_Too_Old | Uncle_Is_Ancestor
  | Gas_Used_Mismatch | Invalid_Nonce_Length | Invalid_Nonce_Hex | Invalid_Big_Int

section \<open>Extra data\<close>

definition validateExtraDataContent :: "bytes \<Rightarrow> block_error + unit" where
  "validateExtraDataContent extra =
     (case extra of
        [] \<Rightarrow> Inr ()
      | first # rest \<Rightarrow>
          if list_ex (\<lambda>b. b \<noteq> first) rest then Inr ()
          else if first = 0x00 then Inl Extra_All_Zero
          else if first = 0xff then Inl Extra_All_FF
          else if length extra > 1 then Inl Extra_Repeating
          else Inr ())"

definition ValidateExtraDataSize :: "bytes \<Rightarrow> block_error + unit" where
  "ValidateExtraDataSize extra =
     (if length extra > MaxExtraDataSize then Inl Extra_Too_Large
      else validateExtraDataContent extra)"

definition SetExtraData :: "header \<Rightarrow> bytes \<Rightarrow> block_error + header" where
  "SetExtraData h data =
     (case ValidateExtraDataSize data of
        Inl e \<Rightarrow> Inl e
      | Inr _ \<Rightarrow> Inr (h\<lparr>h_Extra := data\<rparr>))"

definition GetExtraData :: "header option \<Rightarrow> bytes" where
  "GetExtraData h = (case h of None \<Rightarrow> [] | Some h \<Rightarrow> h_Extra h)"

section \<open>Hashes\<close>

text \<open>\<open>safeBigIntToBytes\<close>: the low \<open>n\<close> bytes of the magnitude.\<close>

definition safeBigIntToBytes :: "int option \<Rightarrow> nat \<Rightarrow> bytes" where
  "safeBigIntToBytes value n =
     (case value of
        None \<Rightarrow> replicate n 0
      | Some z \<Rightarrow>
          let b = big_bytes z
          in if length b > n then drop (length b - n) b
             else if length b < n then replicate (n - length b) 0 @ b
             else b)"

definition bloom_bytes :: "bytes \<Rightarrow> bytes" where
  "bloom_bytes bloom = take BloomByteLength bloom @ replicate (BloomByteLength - length bloom) 0"

text \<open>A byte string after its length as a big-endian 64-bit number.\<close>

definition length_prefixed :: "bytes \<Rightarrow> bytes" where
  "length_prefixed b = be_bytes 8 (length b) @ b"

definition staker_bytes :: "staker_registration \<Rightarrow> bytes" where
  "staker_bytes s =
     Address_Bytes (sr_Address s)
     @ safeBigIntToBytes (sr_Amount s) 32
     @ word_bytes 8 (sr_RegisteredHeight s)
     @ (case sr_UnlockStakeHeight s of
          Some u \<Rightarrow> 1 # word_bytes 8 u
        | None \<Rightarrow> [0])
     @ [if sr_IsActive s then 1 else 0]"

definition stakers_bytes :: "staker_registration list \<Rightarrow> bytes" where
  "stakers_bytes ss = be_bytes 8 (length ss) @ concat (map staker_bytes ss)"

text \<open>The bytes that \<open>Header.Hash\<close> hashes, in its order.\<close>

definition header_preimage :: "header \<Rightarrow> bytes" where
  "header_preimage h =
     Hash_Bytes (h_ParentHash h)
     @ Hash_Bytes (h_UncleHash h)
     @ Address_Bytes (h_Coinbase h)
     @ Hash_Bytes (h_Root h)
     @ Hash_Bytes (h_TxHash h)
     @ Hash_Bytes (h_ReceiptHash h)
     @ bloom_bytes (h_Bloom h)
     @ safeBigIntToBytes (h_Number h) 32
     @ word_bytes 8 (h_GasLimit h)
     @ word_bytes 8 (h_GasUsed h)
     @ word_bytes 8 (h_Time h)
     @ safeBigIntToBytes (h_Difficulty h) 32
     @ length_prefixed (h_Extra h)
     @ length_prefixed (h_Signature h)
     @ Hash_Bytes (h_MixDigest h)
     @ word_bytes 8 (h_Nonce h)
     @ word_bytes 4 (h_Version h)
     @ word_bytes 4 (h_ProtocolVersion h)
     @ word_bytes 8 (h_UpgradeTimestamp h)
     @ length_prefixed (h_UpgradeName h)
     @ Address_Bytes (h_MainKingAddress h)
     @ safeBigIntToBytes (h_RewardAmount h) 32
     @ safeBigIntToBytes (h_CurrentReward h) 32
     @ stakers_bytes (h_Stakers h)"

definition Header_Hash :: "crypto \<Rightarrow> header option \<Rightarrow> hash" where
  "Header_Hash C h = (case h of None \<Rightarrow> zero_hash | Some h \<Rightarrow> sha3 C (header_preimage h))"

text \<open>\<open>big.Int.Uint64\<close>: the low 64 bits of the magnitude.\<close>

definition big_uint64 :: "int \<Rightarrow> u64" where
  "big_uint64 z = word_of_int \<bar>z\<bar>"

text \<open>\<open>None\<close>: the panic on a nil number or difficulty.\<close>

definition mining_preimage :: "header \<Rightarrow> bytes option" where
  "mining_preimage h =
     (case (h_Number h, h_Difficulty h) of
        (Some number, Some difficulty) \<Rightarrow> Some
         (Hash_Bytes (h_ParentHash h)
          @ Address_Bytes (h_Coinbase h)
          @ Hash_Bytes (h_Root h)
          @ Hash_Bytes (h_TxHash h)
          @ le_bytes 8 (unat (big_uint64 number))
          @ le_bytes 8 (unat (h_GasLimit h))
          @ le_bytes 8 (unat (h_GasUsed h))
          @ le_bytes 8 (unat (h_Time h))
          @ safeBigIntToBytes (Some difficulty) 32
          @ le_bytes 4 (length (h_Extra h))
          @ h_Extra h)
      | _ \<Rightarrow> None)"

definition HashForMining :: "crypto \<Rightarrow> header option \<Rightarrow> hash option" where
  "HashForMining C h =
     (case h of None \<Rightarrow> Some zero_hash | Some h \<Rightarrow> map_option (sha3 C) (mining_preimage h))"

definition Block_Hash :: "crypto \<Rightarrow> block \<Rightarrow> hash" where
  "Block_Hash C b = (case b_Header b of None \<Rightarrow> zero_hash | Some h \<Rightarrow> Header_Hash C (Some h))"

text \<open>One round of \<open>computeMerkleRoot\<close>: pair up, the last hash with itself if it is alone.\<close>

fun merkle_level :: "crypto \<Rightarrow> hash list \<Rightarrow> hash list" where
  "merkle_level C (a # b # hs) = sha3 C (Hash_Bytes a @ Hash_Bytes b) # merkle_level C hs"
| "merkle_level C [a] = [sha3 C (Hash_Bytes a @ Hash_Bytes a)]"
| "merkle_level C [] = []"

lemma length_merkle_level: "length (merkle_level C hs) = (length hs + 1) div 2"
  by (induction C hs rule: merkle_level.induct) simp_all

function computeMerkleRoot :: "crypto \<Rightarrow> hash list \<Rightarrow> hash" where
  "computeMerkleRoot C [] = zero_hash"
| "computeMerkleRoot C [h] = h"
| "computeMerkleRoot C (a # b # hs) = computeMerkleRoot C (merkle_level C (a # b # hs))"
  by pat_completeness auto

termination
  by (relation "measure (\<lambda>(C, hs). length hs)") (simp_all add: length_merkle_level)

declare computeMerkleRoot.simps(3) [simp del]

definition opt_tx_hash :: "(bytes \<Rightarrow> hash) \<Rightarrow> tx option \<Rightarrow> hash" where
  "opt_tx_hash sha256 t = (case t of None \<Rightarrow> zero_hash | Some t \<Rightarrow> tx_Hash sha256 t)"

definition CalculateTxHash :: "crypto \<Rightarrow> (bytes \<Rightarrow> hash) \<Rightarrow> tx option list \<Rightarrow> hash" where
  "CalculateTxHash C sha256 txs =
     (case txs of
        [] \<Rightarrow> zero_hash
      | [None] \<Rightarrow> zero_hash
      | [Some t] \<Rightarrow> tx_Hash sha256 t
      | _ \<Rightarrow> computeMerkleRoot C (map (opt_tx_hash sha256) txs))"

definition CalculateUncleHash :: "crypto \<Rightarrow> header option list \<Rightarrow> hash" where
  "CalculateUncleHash C uncles =
     (if uncles = [] then zero_hash
      else sha3 C (concat (map (\<lambda>u. Hash_Bytes (Header_Hash C u)) uncles)))"

text \<open>\<open>None\<close>: the panic on a nil transaction.\<close>

definition CalculateGasUsed :: "tx option list \<Rightarrow> u64 option" where
  "CalculateGasUsed txs =
     fold (\<lambda>t acc. case (t, acc) of (Some t, Some g) \<Rightarrow> Some (g + tx_Gas t) | _ \<Rightarrow> None)
       txs (Some 0)"

section \<open>Headers\<close>

text \<open>
  \<open>time.Unix(sec, 0)\<close> as the library keeps it: seconds since year 1 in a wrapping \<open>int64\<close>;
  \<open>After\<close> and \<open>Before\<close> compare these, and \<open>now\<close> is \<open>time.Now().Unix()\<close>.
\<close>

definition unix_ext :: "u64 \<Rightarrow> int" where
  "unix_ext sec = sint (sec + 62135596800)"

definition validateTimestamp :: "u64 \<Rightarrow> header \<Rightarrow> header option \<Rightarrow> block_error + unit" where
  "validateTimestamp now h parent =
     (if unix_ext (h_Time h) > unix_ext now + FutureBlockThreshold then Inl Err_Invalid_Timestamp
      else case parent of
        Some p \<Rightarrow> if unix_ext (h_Time h) < unix_ext (h_Time p) then Inl Timestamp_Before_Parent
                  else Inr ()
      | None \<Rightarrow> Inr ())"

definition Validate_parent :: "crypto \<Rightarrow> header \<Rightarrow> int \<Rightarrow> header option \<Rightarrow> block_error + unit" where
  "Validate_parent C h number parent =
     (case parent of
        Some p \<Rightarrow>
          (case h_Number p of
             None \<Rightarrow> Inl Nil_Dereference
           | Some pn \<Rightarrow>
               if number \<noteq> pn + 1 then Inl Number_Mismatch
               else if h_ParentHash h \<noteq> Header_Hash C (Some p) then Inl Err_Invalid_Parent_Hash
               else Inr ())
      | None \<Rightarrow> if number \<noteq> 0 then Inl Err_Invalid_Parent_Hash else Inr ())"

definition Validate_Header ::
    "crypto \<Rightarrow> u64 \<Rightarrow> header option \<Rightarrow> header option \<Rightarrow> block_error + unit" where
  "Validate_Header C now hdr parent =
     (case hdr of
        None \<Rightarrow> Inl Header_Nil
      | Some h \<Rightarrow>
     (case h_Number h of
        None \<Rightarrow> Inl Err_Invalid_Number
      | Some number \<Rightarrow>
          if number < 0 then Inl Err_Invalid_Number
          else case Validate_parent C h number parent of
            Inl e \<Rightarrow> Inl e
          | Inr _ \<Rightarrow>
              if h_GasUsed h > h_GasLimit h then Inl Err_Gas_Limit_Exceeded
              else if h_GasLimit h = 0 then Inl Gas_Limit_Zero
              else case validateTimestamp now h parent of
                Inl e \<Rightarrow> Inl e
              | Inr _ \<Rightarrow>
                  (case h_Difficulty h of
                     None \<Rightarrow> Inl Err_Invalid_Difficulty
                   | Some d \<Rightarrow>
                       if d \<le> 0 then Inl Err_Invalid_Difficulty
                       else ValidateExtraDataSize (h_Extra h))))"

text \<open>
  The proof-of-work engine is the parameter \<open>powDifficulty\<close>, its
  \<open>CalculateExpectedDifficultyForMiner\<close>; \<open>None\<close> is the nil engine.
\<close>

definition NewHeader ::
    "crypto \<Rightarrow> u64 \<Rightarrow> block option \<Rightarrow> address \<Rightarrow> hash \<Rightarrow> hash \<Rightarrow> int option \<Rightarrow> u64
     \<Rightarrow> (u64 \<Rightarrow> u64 \<Rightarrow> u64 \<Rightarrow> address \<Rightarrow> int) option \<Rightarrow> bytes \<Rightarrow> block_error + header" where
  "NewHeader C now parent coinbase root txHash num gasLimit powDifficulty extraData =
     (case num of
        None \<Rightarrow> Inl Err_Invalid_Number
      | Some number \<Rightarrow>
          if number < 0 then Inl Err_Invalid_Number
          else if gasLimit = 0 then Inl Gas_Limit_Zero
          else if number \<noteq> 0 \<and> parent = None then Inl Parent_Block_Required
          else if number \<noteq> 0 \<and> Option.bind parent b_Header = None then Inl Parent_Header_Required
          else
            let difficulty =
                  (if number = 0 then 1
                   else case (powDifficulty, Option.bind parent b_Header) of
                     (Some pd, Some ph) \<Rightarrow> pd (big_uint64 number) (h_Time ph) now coinbase
                   | _ \<Rightarrow> 1);
                parentHash = (case parent of None \<Rightarrow> zero_hash | Some p \<Rightarrow> Block_Hash C p);
                hdr = \<lparr>h_ParentHash = parentHash, h_UncleHash = CalculateUncleHash C [],
                   h_Coinbase = coinbase, h_Root = root, h_TxHash = txHash, h_ReceiptHash = zero_hash,
                   h_Bloom = replicate BloomByteLength 0, h_Difficulty = Some difficulty,
                   h_Number = Some number, h_GasLimit = gasLimit, h_GasUsed = 0, h_Time = now,
                   h_Extra = [], h_Signature = [], h_MixDigest = zero_hash, h_Nonce = 0,
                   h_Version = 1, h_ProtocolVersion = 0, h_UpgradeName = [], h_UpgradeTimestamp = 0,
                   h_MainKingAddress = zero_address, h_RewardAmount = None, h_CurrentReward = None,
                   h_Stakers = [], h_TxRoot = txHash\<rparr>
            in case SetExtraData hdr extraData of
                 Inl e \<Rightarrow> Inl e
               | Inr hdr' \<Rightarrow>
                   if number = 0 \<and> parentHash \<noteq> zero_hash then Inl Err_Invalid_Parent_Hash
                   else Inr hdr')"

section \<open>Blocks\<close>

definition NewBlock ::
    "crypto \<Rightarrow> header option \<Rightarrow> tx option list \<Rightarrow> header option list \<Rightarrow> block_error + block" where
  "NewBlock C hdr txs uncles =
     (case hdr of
        None \<Rightarrow> Inl Header_Nil
      | Some h \<Rightarrow>
          let h1 = (if h_UncleHash h = zero_hash then h\<lparr>h_UncleHash := CalculateUncleHash C uncles\<rparr> else h)
          in case CalculateGasUsed txs of
            None \<Rightarrow> Inl Nil_Dereference
          | Some g \<Rightarrow>
              let h2 = h1\<lparr>h_GasUsed := g\<rparr>; h3 = h2\<lparr>h_TxRoot := h_TxHash h2\<rparr>
              in Inr \<lparr>b_Header = Some h3, b_Txs = txs, b_Uncles = uncles\<rparr>)"

definition updateHeader :: "crypto \<Rightarrow> (bytes \<Rightarrow> hash) \<Rightarrow> block \<Rightarrow> block_error + block" where
  "updateHeader C sha256 b =
     (case b_Header b of
        None \<Rightarrow> Inl Nil_Dereference
      | Some h \<Rightarrow>
          let h1 = (if h_TxHash h = zero_hash then h\<lparr>h_TxHash := CalculateTxHash C sha256 (b_Txs b)\<rparr> else h);
              h2 = h1\<lparr>h_TxRoot := h_TxHash h1\<rparr>;
              h3 = (if h_UncleHash h2 = zero_hash
                    then h2\<lparr>h_UncleHash := CalculateUncleHash C (b_Uncles b)\<rparr> else h2)
          in case CalculateGasUsed (b_Txs b) of
            None \<Rightarrow> Inl Nil_Dereference
          | Some g \<Rightarrow> Inr (b\<lparr>b_Header := Some (h3\<lparr>h_GasUsed := g\<rparr>)\<rparr>))"

text \<open>The size estimate, with the header \<open>h\<close> of \<open>b\<close>.\<close>

definition Block_Size :: "header \<Rightarrow> block \<Rightarrow> int" where
  "Block_Size h b =
     32 + 32 + 20 + 32 + 32 + 32 + int BloomByteLength + 32 + 32 + 8 + 8 + 8
     + int (length (h_Extra h)) + int (length (h_Signature h)) + 32 + 8
     + int (length (b_Txs b)) * 160 + int (length (b_Uncles b)) * 512"

text \<open>One step only: the loop breaks after its first round.\<close>

definition isAncestor :: "crypto \<Rightarrow> block \<Rightarrow> header option \<Rightarrow> block_error + bool" where
  "isAncestor C b ancestor =
     (case b_Header b of
        None \<Rightarrow> Inl Nil_Dereference
      | Some h \<Rightarrow>
     (case h_Number h of
        None \<Rightarrow> Inl Nil_Dereference
      | Some n \<Rightarrow> if n > 0 then Inr (h_ParentHash h = Header_Hash C ancestor) else Inr False))"

text \<open>The loop over the uncles, with its index and the hashes seen so far.\<close>

fun validateUncles_loop ::
    "crypto \<Rightarrow> u64 \<Rightarrow> int option \<Rightarrow> block \<Rightarrow> nat \<Rightarrow> hash list \<Rightarrow> header option list \<Rightarrow> block_error + unit" where
  "validateUncles_loop C now bn parent i seen [] = Inr ()"
| "validateUncles_loop C now bn parent i seen (u # us) =
     (let uncleHash = Header_Hash C u
      in if uncleHash \<in> set seen then Inl Err_Duplicate_Uncle
         else case Validate_Header C now u None of
           Inl e \<Rightarrow> Inl (Uncle_Invalid i e)
         | Inr _ \<Rightarrow>
             (case (Option.bind u h_Number, bn) of
                (Some un, Some n) \<Rightarrow>
                  if un \<ge> n then Inl Err_Uncle_Number_Too_High
                  else if n - un > 6 then Inl Uncle_Too_Old
                  else (case isAncestor C parent u of
                      Inl e \<Rightarrow> Inl e
                    | Inr anc \<Rightarrow>
                        if anc then Inl Uncle_Is_Ancestor
                        else validateUncles_loop C now bn parent (i + 1) (uncleHash # seen) us)
              | _ \<Rightarrow> Inl Nil_Dereference))"

definition Validate_Block ::
    "crypto \<Rightarrow> (bytes \<Rightarrow> hash) \<Rightarrow> u64 \<Rightarrow> block option \<Rightarrow> block option \<Rightarrow> block_error + unit" where
  "Validate_Block C sha256 now blk prnt =
     (case blk of
        None \<Rightarrow> Inl Block_Nil
      | Some b \<Rightarrow>
     (case prnt of
        None \<Rightarrow> Inl Nil_Dereference
      | Some parent \<Rightarrow>
     (case Validate_Header C now (b_Header b) (b_Header parent) of
        Inl e \<Rightarrow> Inl e
      | Inr _ \<Rightarrow>
     (case b_Header b of
        None \<Rightarrow> Inl Nil_Dereference
      | Some h \<Rightarrow>
          if Block_Size h b > MaxBlockSize then Inl Err_Block_Too_Large
          else if length (b_Txs b) > MaxTransactions then Inl Err_Too_Many_Transactions
          else if CalculateTxHash C sha256 (b_Txs b) \<noteq> h_TxHash h then Inl Err_Tx_Root_Mismatch
          else if length (b_Uncles b) > MaxUncles then Inl Err_Too_Many_Uncles
          else (case validateUncles_loop C now (h_Number h) parent 0 [] (b_Uncles b) of
              Inl e \<Rightarrow> Inl e
            | Inr _ \<Rightarrow>
                (case CalculateGasUsed (b_Txs b) of
                   None \<Rightarrow> Inl Nil_Dereference
                 | Some g \<Rightarrow> if h_GasUsed h \<noteq> g then Inl Gas_Used_Mismatch else Inr ()))))))"

section \<open>Text forms\<close>

definition SyncRoots :: "header \<Rightarrow> header" where
  "SyncRoots h = h\<lparr>h_TxRoot := h_TxHash h\<rparr>"

definition Nonce_String :: "u64 \<Rightarrow> string" where
  "Nonce_String n = hex_encode (word_bytes 8 n)"

definition Nonce_MarshalText :: "u64 \<Rightarrow> string" where
  "Nonce_MarshalText n = ''0x'' @ hex_encode (word_bytes 8 n)"

definition Nonce_UnmarshalText :: "string \<Rightarrow> block_error + u64" where
  "Nonce_UnmarshalText s =
     (let t = (if take 2 s = ''0x'' then drop 2 s else s)
      in if length t \<noteq> 16 then Inl Invalid_Nonce_Length
         else case hex_decode t of
           (bs, ok) \<Rightarrow> if ok then Inr (bytes_word bs) else Inl Invalid_Nonce_Hex)"

text \<open>\<open>strings.Trim(val, "\" ")\<close>: quotes and blanks at both ends.\<close>

definition trim_quotes_blanks :: "string \<Rightarrow> string" where
  "trim_quotes_blanks s =
     (let cut = dropWhile (\<lambda>c. c = CHR 0x22 \<or> c = CHR '' '')
      in rev (cut (rev (cut s))))"

text \<open>\<open>big.Int.SetString(s, 16)\<close>: an optional sign, then one or more digits.\<close>

fun parse_hex_digits :: "nat \<Rightarrow> string \<Rightarrow> nat option" where
  "parse_hex_digits acc [] = Some acc"
| "parse_hex_digits acc (c # cs) =
     (case hex_val c of None \<Rightarrow> None | Some d \<Rightarrow> parse_hex_digits (16 * acc + d) cs)"

definition parse_hex_int :: "string \<Rightarrow> int option" where
  "parse_hex_int s =
     (let digits = (\<lambda>t. if t = '''' then None else map_option int (parse_hex_digits 0 t))
      in case s of
        [] \<Rightarrow> None
      | c # cs \<Rightarrow> if c = CHR ''-'' then map_option uminus (digits cs)
                  else if c = CHR ''+'' then digits cs else digits s)"

text \<open>A JSON number is read as \<open>float64\<close>; \<open>J_Number\<close> holds the integers.\<close>

definition parseBigInt :: "json_num \<Rightarrow> block_error + int" where
  "parseBigInt v =
     (case v of
        J_Number n \<Rightarrow> if n < 0 then Inl Invalid_Big_Int else Inr n
      | J_String s \<Rightarrow>
          let cleaned = trim_quotes_blanks s
          in if cleaned = '''' then Inr 0
             else (case (if take 2 cleaned = ''0x'' then parse_hex_int (drop 2 cleaned)
                         else parse_int cleaned) of
                     None \<Rightarrow> Inl Invalid_Big_Int
                   | Some n \<Rightarrow> Inr n)
      | J_Null \<Rightarrow> Inr 0
      | J_Other \<Rightarrow> Inl Invalid_Big_Int)"

section \<open>The hash preimage determines the header\<close>

text \<open>The magnitude that 32 bytes keep of a number, zero for nil.\<close>

definition big_magnitude :: "int option \<Rightarrow> int" where
  "big_magnitude v = (case v of None \<Rightarrow> 0 | Some z \<Rightarrow> \<bar>z\<bar> mod 2 ^ 256)"

lemma length_safeBigIntToBytes [simp, codec]: "length (safeBigIntToBytes v n) = n"
  by (auto simp: safeBigIntToBytes_def Let_def split: option.split)

lemma be_value_safeBigIntToBytes [codec]:
  "int (be_value (safeBigIntToBytes v 32)) = big_magnitude v"
proof (cases v)
  case (Some z)
  let ?b = "big_bytes z"
  have val: "int (be_value ?b) = \<bar>z\<bar>" by (simp add: big_bytes_def)
  show ?thesis
  proof (cases "32 < length ?b")
    case True
    then have "be_value ?b = be_value (take (length ?b - 32) ?b) * 256 ^ 32 + be_value (drop (length ?b - 32) ?b)"
      using be_value_append [of "take (length ?b - 32) ?b" "drop (length ?b - 32) ?b"] by simp
    moreover have "be_value (drop (length ?b - 32) ?b) < 256 ^ 32"
      using be_value_less [of "drop (length ?b - 32) ?b"] True by simp
    ultimately have "be_value (drop (length ?b - 32) ?b) = be_value ?b mod 256 ^ 32"
      by simp
    with True val show ?thesis
      by (simp add: Some safeBigIntToBytes_def big_magnitude_def Let_def zmod_int)
  next
    case False
    then have "be_value ?b < 256 ^ 32"
      using be_value_less [of ?b] power_increasing [of "length ?b" 32 "256 :: nat"] by linarith
    then have "int (be_value ?b) < int (256 ^ 32)" by (simp only: of_nat_less_iff)
    then have "\<bar>z\<bar> < 2 ^ 256" using val by simp
    moreover have "be_value (replicate k 0 @ ?b) = be_value ?b" for k
      by (simp add: be_value_append)
    ultimately show ?thesis
      using False val by (simp add: Some safeBigIntToBytes_def big_magnitude_def Let_def)
  qed
qed (simp add: safeBigIntToBytes_def big_magnitude_def)

lemma safeBigIntToBytes_inject:
  "safeBigIntToBytes v 32 = safeBigIntToBytes w 32 \<longleftrightarrow> big_magnitude v = big_magnitude w"
  by (metis be_bytes_be_value be_value_safeBigIntToBytes length_safeBigIntToBytes of_nat_eq_iff)

lemma length_prefixed_append:
  assumes "length a < 2 ^ 64" and "length b < 2 ^ 64"
  shows "length_prefixed a @ r = length_prefixed b @ r' \<longleftrightarrow> a = b \<and> r = r'"
  using assms be_bytes_inject [of "length a" 8 "length b"]
  by (auto simp: length_prefixed_def)

lemma length_bloom_bytes [simp, codec]: "length (bloom_bytes b) = 256"
  by (simp add: bloom_bytes_def BloomByteLength_def)

definition staker_canonical :: "staker_registration \<Rightarrow> staker_registration" where
  "staker_canonical s = s\<lparr>sr_Amount := Some (big_magnitude (sr_Amount s))\<rparr>"

lemma staker_bytes_append:
  "staker_bytes s @ r = staker_bytes s' @ r' \<longleftrightarrow> staker_canonical s = staker_canonical s' \<and> r = r'"
  by (cases s; cases s')
    (auto simp: staker_bytes_def staker_canonical_def safeBigIntToBytes_inject word_bytes_inject
      split: option.splits if_splits)

lemma concat_staker_bytes:
  "length ss = length ss' \<Longrightarrow>
     concat (map staker_bytes ss) = concat (map staker_bytes ss') \<longleftrightarrow>
     map staker_canonical ss = map staker_canonical ss'"
  by (induction ss ss' rule: list_induct2) (simp_all add: staker_bytes_append)

lemma staker_list_bytes:
  assumes "length ss < 2 ^ 64" and "length ss' < 2 ^ 64"
  shows "stakers_bytes ss = stakers_bytes ss' \<longleftrightarrow>
    map staker_canonical ss = map staker_canonical ss'"
  unfolding stakers_bytes_def using assms be_bytes_inject [of "length ss" 8 "length ss'"] concat_staker_bytes [of ss ss']
  by (auto dest: map_eq_imp_length_eq)

text \<open>
  The header with the parts that the hash ignores brought to a standard form: the sign and the
  high bits of big numbers, padding of the bloom filter, and the unhashed copy of the root.
\<close>

definition header_canonical :: "header \<Rightarrow> header" where
  "header_canonical h =
     h\<lparr>h_Bloom := bloom_bytes (h_Bloom h),
       h_Number := Some (big_magnitude (h_Number h)),
       h_Difficulty := Some (big_magnitude (h_Difficulty h)),
       h_RewardAmount := Some (big_magnitude (h_RewardAmount h)),
       h_CurrentReward := Some (big_magnitude (h_CurrentReward h)),
       h_Stakers := map staker_canonical (h_Stakers h),
       h_TxRoot := 0\<rparr>"

definition slices_fit :: "header \<Rightarrow> bool" where
  "slices_fit h \<longleftrightarrow> length (h_Extra h) < 2 ^ 64 \<and> length (h_Signature h) < 2 ^ 64
     \<and> length (h_UpgradeName h) < 2 ^ 64 \<and> length (h_Stakers h) < 2 ^ 64"

lemma header_preimage_inject:
  assumes "slices_fit h" and "slices_fit h'"
  shows "header_preimage h = header_preimage h' \<longleftrightarrow> header_canonical h = header_canonical h'"
  using assms
  by (cases h; cases h')
    (auto simp: header_preimage_def header_canonical_def slices_fit_def word_bytes_inject
      safeBigIntToBytes_inject length_prefixed_append staker_list_bytes)

section \<open>The Merkle root\<close>

text \<open>What one round hashes, and what the whole computation hashes.\<close>

fun level_inputs :: "hash list \<Rightarrow> bytes list" where
  "level_inputs (a # b # hs) = (Hash_Bytes a @ Hash_Bytes b) # level_inputs hs"
| "level_inputs [a] = [Hash_Bytes a @ Hash_Bytes a]"
| "level_inputs [] = []"

function merkle_inputs :: "crypto \<Rightarrow> hash list \<Rightarrow> bytes list" where
  "merkle_inputs C [] = []"
| "merkle_inputs C [h] = []"
| "merkle_inputs C (a # b # hs) =
     level_inputs (a # b # hs) @ merkle_inputs C (merkle_level C (a # b # hs))"
  by pat_completeness auto

termination
  by (relation "measure (\<lambda>(C, hs). length hs)") (simp_all add: length_merkle_level)

declare merkle_inputs.simps(3) [simp del]

lemma merkle_level_inputs: "merkle_level C hs = map (sha3 C) (level_inputs hs)"
  by (induction C hs rule: merkle_level.induct) simp_all

lemma level_inputs_inject:
  "length xs = length ys \<Longrightarrow> level_inputs xs = level_inputs ys \<Longrightarrow> xs = ys"
proof (induction xs arbitrary: ys rule: level_inputs.induct)
  case (1 a b hs)
  then obtain a' b' hs' where "ys = a' # b' # hs'"
    by (metis length_Suc_conv)
  with 1 show ?case by simp
next
  case (2 a)
  then obtain a' where "ys = [a']" by (metis length_0_conv length_Suc_conv)
  with 2 show ?case by simp
qed simp

text \<open>Two byte strings of the lists with the same digest.\<close>

definition collides :: "crypto \<Rightarrow> bytes list \<Rightarrow> bytes list \<Rightarrow> bool" where
  "collides C xs ys \<longleftrightarrow> list_ex (\<lambda>x. list_ex (\<lambda>y. x \<noteq> y \<and> sha3 C x = sha3 C y) ys) xs"

lemma map_sha3_inject:
  "map (sha3 C) xs = map (sha3 C) ys \<Longrightarrow> xs = ys \<or> collides C xs ys"
proof (induction xs arbitrary: ys)
  case (Cons x xs)
  then obtain y ys' where ys: "ys = y # ys'" and "sha3 C x = sha3 C y"
    and "map (sha3 C) xs = map (sha3 C) ys'" by (cases ys) auto
  with Cons.IH [of ys'] show ?case by (auto simp: collides_def list_ex_iff)
qed simp

lemma collides_append:
  "collides C xs ys \<Longrightarrow> collides C (xs @ xs') (ys @ ys')"
  "collides C xs' ys' \<Longrightarrow> collides C (xs @ xs') (ys @ ys')"
  by (auto simp: collides_def list_ex_iff)

lemma merkle_root_inject:
  "length xs = length ys \<Longrightarrow> computeMerkleRoot C xs = computeMerkleRoot C ys \<Longrightarrow>
     xs = ys \<or> collides C (merkle_inputs C xs) (merkle_inputs C ys)"
proof (induction C xs arbitrary: ys rule: merkle_inputs.induct)
  case (2 C h)
  then obtain h' where "ys = [h']" by (metis length_0_conv length_Suc_conv)
  with 2 show ?case by simp
next
  case (3 C a b hs)
  then obtain a' b' hs' where ys: "ys = a' # b' # hs'" by (metis length_Suc_conv)
  let ?x = "a # b # hs" and ?y = "a' # b' # hs'"
  have "length (merkle_level C ?x) = length (merkle_level C ?y)"
    using "3.prems"(1) ys by (simp only: length_merkle_level)
  moreover have "computeMerkleRoot C (merkle_level C ?x) = computeMerkleRoot C (merkle_level C ?y)"
    using "3.prems"(2) ys by (simp only: computeMerkleRoot.simps(3))
  ultimately consider "merkle_level C ?x = merkle_level C ?y"
    | "collides C (merkle_inputs C (merkle_level C ?x)) (merkle_inputs C (merkle_level C ?y))"
    using "3.IH" by blast
  then show ?case
  proof cases
    case 1
    then have "level_inputs ?x = level_inputs ?y \<or> collides C (level_inputs ?x) (level_inputs ?y)"
      by (intro map_sha3_inject) (simp only: merkle_level_inputs)
    then show ?thesis
      using level_inputs_inject "3.prems"(1) collides_append(1) ys
      by (metis merkle_inputs.simps(3))
  next
    case 2
    then show ?thesis
      using collides_append(2) ys by (metis merkle_inputs.simps(3))
  qed
qed simp

lemma merkle_level_dup:
  "odd (length hs) \<Longrightarrow> merkle_level C (hs @ [last hs]) = merkle_level C hs"
  by (induction C hs rule: merkle_level.induct) auto

lemma merkle_root_dup:
  assumes "odd (length hs)" and "length hs \<noteq> 1"
  shows "computeMerkleRoot C (hs @ [last hs]) = computeMerkleRoot C hs"
proof -
  from assms obtain a b hs' where hs: "hs = a # b # hs'"
    by (cases hs; cases "tl hs") auto
  then have "computeMerkleRoot C (hs @ [last hs]) = computeMerkleRoot C (merkle_level C (hs @ [last hs]))"
    by (simp only: append_Cons computeMerkleRoot.simps(3))
  also have "\<dots> = computeMerkleRoot C hs"
    by (simp only: merkle_level_dup [OF assms(1)]) (simp only: hs computeMerkleRoot.simps(3))
  finally show ?thesis .
qed

lemma CalculateTxHash_merkle:
  "CalculateTxHash C sha256 txs = computeMerkleRoot C (map (opt_tx_hash sha256) txs)"
  by (auto simp: CalculateTxHash_def opt_tx_hash_def split: list.split option.split)

section \<open>Validation\<close>

lemma Validate_Header_Inr:
  "Validate_Header C now hdr parent = Inr () \<longleftrightarrow>
     (\<exists>h number d. hdr = Some h \<and> h_Number h = Some number \<and> 0 \<le> number
        \<and> Validate_parent C h number parent = Inr ()
        \<and> h_GasUsed h \<le> h_GasLimit h \<and> h_GasLimit h \<noteq> 0
        \<and> validateTimestamp now h parent = Inr ()
        \<and> h_Difficulty h = Some d \<and> 0 < d
        \<and> ValidateExtraDataSize (h_Extra h) = Inr ())"
  by (auto simp: Validate_Header_def split: option.splits sum.splits)

lemma validateUncles_Inr:
  assumes "validateUncles_loop C now bn parent i seen us = Inr ()" and "u \<in> set us"
  shows "\<exists>h n. u = Some h \<and> h_Number h = Some 0 \<and> bn = Some n \<and> 0 < n \<and> n \<le> 6"
  using assms
proof (induction us arbitrary: i seen)
  case (Cons v us)
  from Cons.prems(1) have v: "Validate_Header C now v None = Inr ()"
    by (auto simp: Let_def split: if_splits sum.splits option.splits)
  then obtain h where h: "v = Some h" "h_Number h = Some 0"
    by (auto simp: Validate_Header_Inr Validate_parent_def split: if_splits)
  with v Cons.prems(1) obtain n seen' where "bn = Some n" "0 < n" "n \<le> 6"
    and rest: "validateUncles_loop C now bn parent (i + 1) seen' us = Inr ()"
    by (auto simp: Let_def split: if_splits sum.splits option.splits)
  with h Cons.IH [OF rest] Cons.prems(2) show ?case by auto
qed simp

lemma Validate_Block_Inr:
  "Validate_Block C sha256 now (Some b) (Some parent) = Inr () \<longleftrightarrow>
     Validate_Header C now (b_Header b) (b_Header parent) = Inr ()
     \<and> (\<exists>h g. b_Header b = Some h \<and> Block_Size h b \<le> MaxBlockSize
          \<and> length (b_Txs b) \<le> MaxTransactions
          \<and> h_TxHash h = CalculateTxHash C sha256 (b_Txs b)
          \<and> length (b_Uncles b) \<le> MaxUncles
          \<and> validateUncles_loop C now (h_Number h) parent 0 [] (b_Uncles b) = Inr ()
          \<and> CalculateGasUsed (b_Txs b) = Some g \<and> h_GasUsed h = g)"
  by (auto simp: Validate_Block_def split: option.splits sum.splits)

lemma CalculateGasUsed_snoc:
  "CalculateGasUsed (txs @ [Some t]) = map_option (\<lambda>g. g + tx_Gas t) (CalculateGasUsed txs)"
  by (simp add: CalculateGasUsed_def split: option.split)

text \<open>A concrete chain of two blocks, with a constant digest.\<close>

definition const_crypto :: crypto where
  "const_crypto = toy_crypto\<lparr>sha3 := \<lambda>_. 0\<rparr>"

definition sample_header :: header where
  "sample_header = \<lparr>h_ParentHash = 0, h_UncleHash = 0, h_Coinbase = 7, h_Root = 0, h_TxHash = 0,
     h_ReceiptHash = 0, h_Bloom = [], h_Difficulty = Some 1, h_Number = Some 0,
     h_GasLimit = 60000000, h_GasUsed = 0, h_Time = 1763731821, h_Extra = [], h_Signature = [],
     h_MixDigest = 0, h_Nonce = 0, h_Version = 1, h_ProtocolVersion = 1, h_UpgradeName = [],
     h_UpgradeTimestamp = 0, h_MainKingAddress = 0, h_RewardAmount = None, h_CurrentReward = None,
     h_Stakers = [], h_TxRoot = 0\<rparr>"

definition sample_parent :: block where
  "sample_parent = \<lparr>b_Header = Some sample_header, b_Txs = [], b_Uncles = []\<rparr>"

definition sample_block :: block where
  "sample_block = \<lparr>b_Header = Some (sample_header\<lparr>h_Number := Some 1, h_GasUsed := 63000\<rparr>),
     b_Txs = [Some sample_tx, Some sample_tx, Some sample_tx], b_Uncles = [Some sample_header]\<rparr>"

lemma const_sha3 [simp]: "sha3 const_crypto b = 0"
  by (simp add: const_crypto_def)

lemma const_Header_Hash [simp]: "Header_Hash const_crypto h = 0"
  by (simp add: Header_Hash_def zero_hash_def split: option.split)

lemma sample_uncle_ok:
  "Validate_Header const_crypto 1763731821 (Some sample_header) None = Inr ()"
  by (simp add: Validate_Header_Inr Validate_parent_def validateTimestamp_def sample_header_def
      ValidateExtraDataSize_def validateExtraDataContent_def FutureBlockThreshold_def)

lemma sample_block_ok:
  "Validate_Block const_crypto sha 1763731821 (Some sample_block) (Some sample_parent) = Inr ()"
proof -
  have "validateUncles_loop const_crypto 1763731821 (Some 1) sample_parent 0 [] [Some sample_header] = Inr ()"
    by (simp add: sample_uncle_ok) (simp add: sample_header_def sample_parent_def isAncestor_def)
  moreover have "CalculateTxHash const_crypto sha (b_Txs sample_block) = 0"
    by (simp add: CalculateTxHash_merkle sample_block_def computeMerkleRoot.simps(3))
  moreover have "CalculateGasUsed (b_Txs sample_block) = Some 63000"
    by (simp add: CalculateGasUsed_def sample_block_def sample_tx_def)
  moreover have "b_Header sample_block = Some (sample_header\<lparr>h_Number := Some 1, h_GasUsed := 63000\<rparr>)"
    and "b_Uncles sample_block = [Some sample_header]" and "length (b_Txs sample_block) = 3"
    and "b_Header sample_parent = Some sample_header"
    by (simp_all add: sample_block_def sample_parent_def)
  moreover have "h_GasLimit sample_header = 60000000" "h_Time sample_header = 1763731821"
    "h_Number sample_header = Some 0" "h_TxHash sample_header = 0" "h_ParentHash sample_header = 0"
    "h_Difficulty sample_header = Some 1" "h_Extra sample_header = []" "h_Signature sample_header = []"
    by (simp_all add: sample_header_def)
  ultimately show ?thesis
    by (simp add: Validate_Block_Inr MaxUncles_def MaxTransactions_def
        MaxBlockSize_def Block_Size_def BloomByteLength_def Validate_Header_Inr Validate_parent_def
        validateTimestamp_def ValidateExtraDataSize_def validateExtraDataContent_def
        FutureBlockThreshold_def del: validateUncles_loop.simps)
qed

section \<open>Properties\<close>

text \<open>
  C19: two headers, whose byte strings fit 64-bit lengths, have the same hash exactly if they agree in every
  hashed field up to what the hash ignores (the sign and the bits above 256 of big numbers, nil read as
  zero, the padding of the bloom filter), or the two preimages are a SHA3 collision: the length-prefixed
  layout is unambiguous. The number 3 and the number -3 do give the same hash.
\<close>

theorem header_hash_covers_every_field:
  assumes "slices_fit h" and "slices_fit h'"
  shows "Header_Hash C (Some h) = Header_Hash C (Some h') \<longleftrightarrow>
    header_canonical h = header_canonical h'
    \<or> header_preimage h \<noteq> header_preimage h' \<and> sha3 C (header_preimage h) = sha3 C (header_preimage h')"
  using header_preimage_inject [OF assms] by (auto simp: Header_Hash_def)

theorem header_hash_covers_every_field_witness:
  "Header_Hash toy_crypto (Some (sample_header\<lparr>h_Number := Some 3\<rparr>)) =
   Header_Hash toy_crypto (Some (sample_header\<lparr>h_Number := Some (- 3), h_TxRoot := 5\<rparr>))"
proof -
  have "slices_fit (sample_header\<lparr>h_Number := Some 3\<rparr>)"
    and "slices_fit (sample_header\<lparr>h_Number := Some (- 3), h_TxRoot := 5\<rparr>)"
    by (simp_all add: slices_fit_def sample_header_def)
  moreover have "header_canonical (sample_header\<lparr>h_Number := Some 3\<rparr>) =
      header_canonical (sample_header\<lparr>h_Number := Some (- 3), h_TxRoot := 5\<rparr>)"
    by (simp add: header_canonical_def sample_header_def big_magnitude_def)
  ultimately show ?thesis
    using header_hash_covers_every_field by blast
qed

text \<open>
  The transaction root binds the transactions of a block of known size: two lists of the
  same length with the same root have the same transaction hashes, position by position, or the
  Merkle computations contain a SHA3 collision.
\<close>

theorem tx_root_binds_transactions:
  assumes "length txs = length txs'"
    and "CalculateTxHash C sha256 txs = CalculateTxHash C sha256 txs'"
  shows "map (opt_tx_hash sha256) txs = map (opt_tx_hash sha256) txs'
    \<or> collides C (merkle_inputs C (map (opt_tx_hash sha256) txs))
        (merkle_inputs C (map (opt_tx_hash sha256) txs'))"
  using assms by (intro merkle_root_inject) (simp_all add: CalculateTxHash_merkle)

theorem tx_root_binds_transactions_witness:
  "map (opt_tx_hash (\<lambda>_. 9)) [Some sample_tx] = map (opt_tx_hash (\<lambda>_. 9)) [Some zero_tx]
   \<or> collides toy_crypto (merkle_inputs toy_crypto [9]) (merkle_inputs toy_crypto [9])"
  using tx_root_binds_transactions [of "[Some sample_tx]" "[Some zero_tx]" toy_crypto "\<lambda>_. 9"]
  by (simp add: CalculateTxHash_def opt_tx_hash_def)

text \<open>
  Repeating the last of an odd number of transactions keeps the transaction root, so the
  root check alone does not see it; a valid block changed this way is still rejected, because
  the gas total no longer matches the header.
\<close>

theorem duplicated_transaction_is_rejected:
  assumes valid: "Validate_Block C sha256 now (Some b) (Some parent) = Inr ()"
    and odd: "odd (length (b_Txs b))" "length (b_Txs b) \<noteq> 1"
    and last: "last (b_Txs b) = Some t" "tx_Gas t \<noteq> 0"
  shows "CalculateTxHash C sha256 (b_Txs b @ [last (b_Txs b)]) = CalculateTxHash C sha256 (b_Txs b)
    \<and> Validate_Block C sha256 now (Some (b\<lparr>b_Txs := b_Txs b @ [last (b_Txs b)]\<rparr>)) (Some parent) \<noteq> Inr ()"
proof -
  from odd(1) have "b_Txs b \<noteq> []" by auto
  then have "computeMerkleRoot C (map (opt_tx_hash sha256) (b_Txs b) @ [last (map (opt_tx_hash sha256) (b_Txs b))])
      = computeMerkleRoot C (map (opt_tx_hash sha256) (b_Txs b))"
    using odd by (intro merkle_root_dup) simp_all
  then have "CalculateTxHash C sha256 (b_Txs b @ [last (b_Txs b)]) = CalculateTxHash C sha256 (b_Txs b)"
    using \<open>b_Txs b \<noteq> []\<close> by (simp add: CalculateTxHash_merkle last_map)
  moreover have "Validate_Block C sha256 now (Some (b\<lparr>b_Txs := b_Txs b @ [last (b_Txs b)]\<rparr>)) (Some parent) \<noteq> Inr ()"
    using valid last by (auto simp: Validate_Block_Inr CalculateGasUsed_snoc)
  ultimately show ?thesis ..
qed

theorem duplicated_transaction_is_rejected_witness:
  "Validate_Block const_crypto (\<lambda>_. 9) 1763731821
     (Some (sample_block\<lparr>b_Txs := b_Txs sample_block @ [Some sample_tx]\<rparr>)) (Some sample_parent) \<noteq> Inr ()"
  using duplicated_transaction_is_rejected [OF sample_block_ok, of sample_tx "\<lambda>_. 9"]
  by (simp add: sample_block_def sample_tx_def)

text \<open>
  What block validation guarantees: the header continues the parent (number, hash link and
  time), gas and transaction root match the body, the limits hold; and since uncles are checked
  against no parent, every accepted uncle is a header of number zero, so that a block above
  height six has no uncles.
\<close>

theorem validated_block_is_consistent:
  assumes "Validate_Block C sha256 now (Some b) (Some parent) = Inr ()"
    and "b_Header b = Some h" and "b_Header parent = Some p"
  shows "(\<exists>n. h_Number p = Some n \<and> h_Number h = Some (n + 1))
    \<and> h_ParentHash h = Block_Hash C parent
    \<and> unix_ext (h_Time p) \<le> unix_ext (h_Time h) \<and> unix_ext (h_Time h) \<le> unix_ext now + 30
    \<and> CalculateGasUsed (b_Txs b) = Some (h_GasUsed h) \<and> h_GasUsed h \<le> h_GasLimit h
    \<and> h_TxHash h = CalculateTxHash C sha256 (b_Txs b)
    \<and> length (b_Txs b) \<le> 10000 \<and> length (h_Extra h) \<le> 256
    \<and> list_all (\<lambda>u. Option.bind u h_Number = Some 0) (b_Uncles b)
    \<and> (b_Uncles b = [] \<or> h_Number h \<in> Some ` {1..6})"
proof -
  note valid = assms(1) [unfolded Validate_Block_Inr, simplified assms(2,3)]
  then have uncles: "validateUncles_loop C now (h_Number h) parent 0 [] (b_Uncles b) = Inr ()"
    by simp
  then have "list_all (\<lambda>u. Option.bind u h_Number = Some 0) (b_Uncles b)"
    by (auto simp: list_all_iff dest!: validateUncles_Inr)
  moreover have "b_Uncles b = [] \<or> h_Number h \<in> Some ` {1..6}"
  proof (cases "b_Uncles b")
    case (Cons u us)
    then obtain n where "h_Number h = Some n" "0 < n" "n \<le> 6"
      using validateUncles_Inr [OF uncles, of u] by auto
    then show ?thesis by simp
  qed simp
  moreover have "unix_ext (h_Time p) \<le> unix_ext (h_Time h) \<and> unix_ext (h_Time h) \<le> unix_ext now + 30"
    using valid by (auto simp: Validate_Header_Inr validateTimestamp_def FutureBlockThreshold_def split: if_splits)
  moreover have "(\<exists>n. h_Number p = Some n \<and> h_Number h = Some (n + 1)) \<and> h_ParentHash h = Block_Hash C parent"
    using valid assms(3)
    by (auto simp: Validate_Header_Inr Validate_parent_def Block_Hash_def split: option.splits if_splits)
  moreover have "length (h_Extra h) \<le> 256"
    using valid by (auto simp: Validate_Header_Inr ValidateExtraDataSize_def MaxExtraDataSize_def split: if_splits)
  moreover have "length (b_Txs b) \<le> 10000"
    using valid by (simp add: MaxTransactions_def)
  moreover have "CalculateGasUsed (b_Txs b) = Some (h_GasUsed h) \<and> h_GasUsed h \<le> h_GasLimit h
    \<and> h_TxHash h = CalculateTxHash C sha256 (b_Txs b)"
    using valid by (auto simp: Validate_Header_Inr)
  ultimately show ?thesis by blast
qed

theorem validated_block_is_consistent_witness:
  "list_all (\<lambda>u. Option.bind u h_Number = Some 0) (b_Uncles sample_block)
   \<and> CalculateGasUsed (b_Txs sample_block) = Some 63000"
  using validated_block_is_consistent [OF sample_block_ok,
      of "sample_header\<lparr>h_Number := Some 1, h_GasUsed := 63000\<rparr>" sample_header "\<lambda>_. 9"]
  by (simp add: sample_block_def sample_parent_def)

text \<open>
  A header built by \<open>NewHeader\<close> on top of a parent passes \<open>Header.Validate\<close> against that
  parent, if the parent is not in the future and the engine's difficulty is positive.
\<close>

theorem new_header_validates:
  assumes "NewHeader C now (Some prnt) coinbase root txHash (Some (n + 1)) gasLimit (Some pd) extra = Inr h"
    and "b_Header prnt = Some p" and "h_Number p = Some n" and "0 \<le> n"
    and "unix_ext (h_Time p) \<le> unix_ext now"
    and "0 < pd (big_uint64 (n + 1)) (h_Time p) now coinbase"
  shows "Validate_Header C now (Some h) (Some p) = Inr ()"
  using assms
  by (auto simp: NewHeader_def SetExtraData_def Let_def Validate_Header_Inr Validate_parent_def
      validateTimestamp_def FutureBlockThreshold_def Block_Hash_def split: sum.splits if_splits)

theorem new_header_validates_witness:
  "\<exists>h. NewHeader const_crypto 1763731900 (Some sample_parent) 7 1 2 (Some 1) 60000000 (Some (\<lambda>_ _ _ _. 5)) [] = Inr h
     \<and> Validate_Header const_crypto 1763731900 (Some h) (Some sample_header) = Inr ()"
proof -
  have p: "b_Header sample_parent = Some sample_header" "h_Number sample_header = Some 0"
    "h_Time sample_header = 1763731821"
    by (simp_all add: sample_parent_def sample_header_def)
  then obtain h where
    h: "NewHeader const_crypto 1763731900 (Some sample_parent) 7 1 2 (Some 1) 60000000 (Some (\<lambda>_ _ _ _. 5)) [] = Inr h"
    by (simp add: NewHeader_def SetExtraData_def ValidateExtraDataSize_def validateExtraDataContent_def Let_def)
  moreover have "unix_ext (h_Time sample_header) \<le> unix_ext 1763731900"
    by (simp add: p unix_ext_def)
  ultimately show ?thesis
    using new_header_validates [of const_crypto 1763731900 sample_parent 7 1 2 0 60000000 "\<lambda>_ _ _ _. 5" "[]" h sample_header] p
    by simp
qed

end
