(* ===== verification/Protocol.thy ===== *)
theory Protocol
  imports Blocks Reward_Schedule
begin

text \<open>
  The protocol upgrade schedule, the consensus fields it stamps on headers, their check
  (\<open>antdc/chain/protocol.go\<close>) and the fixed genesis header (\<open>antdc/chain/genesis.go\<close>).
\<close>

section \<open>The upgrade schedule\<close>

definition GenesisTimestamp :: u64 where "GenesisTimestamp = 1763731821"
definition GenesisDifficulty :: int where "GenesisDifficulty = 1000000"
definition GenesisGasLimit :: u64 where "GenesisGasLimit = 60000000"

text \<open>The dash of the text is U+2014, three bytes of UTF-8.\<close>

definition GenesisExtraData :: bytes where
  "GenesisExtraData = str_bytes ''ANTDChain Genesis '' @ [0xE2, 0x80, 0x94] @ str_bytes '' November 2025''"

definition GenesisMainKing :: string where
  "GenesisMainKing = ''0qANA3c85k94LTyTXLGDdEzmLE32b1qhYZF''"

definition protocolBlocksPerYear :: u64 where "protocolBlocksPerYear = 2628000"
definition protocolBlocksPerHalving :: u64 where "protocolBlocksPerHalving = protocolBlocksPerYear * 4"

record protocol_upgrade =
  pu_Version :: u32
  pu_Name :: bytes
  pu_ActivationHeight :: u64
  pu_ActivationTime :: u64
  pu_InitialBlockReward :: "int option"

definition protocolUpgradeSchedule :: "protocol_upgrade list" where
  "protocolUpgradeSchedule =
     [\<lparr>pu_Version = 1, pu_Name = str_bytes ''genesis'', pu_ActivationHeight = 0,
       pu_ActivationTime = GenesisTimestamp, pu_InitialBlockReward = Some (200 * 1000000000000000000)\<rparr>]"

definition expectedUpgrade :: "u64 \<Rightarrow> u64 \<Rightarrow> protocol_upgrade" where
  "expectedUpgrade height blockTime =
     fold (\<lambda>upgrade active.
         if height \<ge> pu_ActivationHeight upgrade \<and> blockTime \<ge> pu_ActivationTime upgrade
         then upgrade else active)
       protocolUpgradeSchedule (protocolUpgradeSchedule ! 0)"

text \<open>The loop is the one of the reward schedule: halve, and stop at zero below one ANTD.\<close>

definition expectedRewardForBlock :: "u64 \<Rightarrow> int option \<Rightarrow> int" where
  "expectedRewardForBlock height initialReward =
     (case initialReward of
        None \<Rightarrow> 0
      | Some r \<Rightarrow> halve_loop (unat (height div protocolBlocksPerHalving)) r)"

definition protocolMainKingAddress :: "crypto \<Rightarrow> addr_error + address" where
  "protocolMainKingAddress C = ParseQuantumAddress C GenesisMainKing"

section \<open>Stamping and checking headers\<close>

definition ApplyProtocolHeaderFields :: "crypto \<Rightarrow> header \<Rightarrow> addr_error + header" where
  "ApplyProtocolHeaderFields C h =
     (case h_Number h of
        None \<Rightarrow> Inr h
      | Some number \<Rightarrow>
          let height = big_uint64 number;
              upgrade = expectedUpgrade height (h_Time h);
              expectedReward = expectedRewardForBlock height (pu_InitialBlockReward upgrade)
          in case protocolMainKingAddress C of
               Inl e \<Rightarrow> Inl e
             | Inr mainKing \<Rightarrow> Inr
                (h\<lparr>h_ProtocolVersion := pu_Version upgrade, h_UpgradeName := pu_Name upgrade,
                   h_UpgradeTimestamp := pu_ActivationTime upgrade, h_MainKingAddress := mainKing,
                   h_RewardAmount := Some expectedReward, h_CurrentReward := Some expectedReward\<rparr>))"

datatype protocol_error =
    Nil_Header | Nil_Header_Number | Bad_Main_King addr_error
  | Version_Mismatch | Upgrade_Name_Mismatch | Upgrade_Time_Mismatch | Main_King_Mismatch
  | Reward_Missing | Current_Reward_Missing | Reward_Changed | Current_Reward_Changed
  | Local_Reward_Mismatch
  | Genesis_Parent_Not_Zero | Genesis_Coinbase_Mismatch | Genesis_Timestamp_Mismatch
  | Genesis_Gas_Limit_Mismatch | Genesis_Difficulty_Mismatch | Genesis_Extra_Mismatch

definition validateGenesisFields :: "header \<Rightarrow> address \<Rightarrow> protocol_error + unit" where
  "validateGenesisFields h mainKing =
     (if h_ParentHash h \<noteq> zero_hash then Inl Genesis_Parent_Not_Zero
      else if h_Coinbase h \<noteq> mainKing then Inl Genesis_Coinbase_Mismatch
      else if h_Time h \<noteq> GenesisTimestamp then Inl Genesis_Timestamp_Mismatch
      else if h_GasLimit h \<noteq> GenesisGasLimit then Inl Genesis_Gas_Limit_Mismatch
      else if h_Difficulty h \<noteq> Some GenesisDifficulty then Inl Genesis_Difficulty_Mismatch
      else if h_Extra h \<noteq> GenesisExtraData then Inl Genesis_Extra_Mismatch
      else Inr ())"

definition validateProtocolHeader :: "crypto \<Rightarrow> header option \<Rightarrow> protocol_error + unit" where
  "validateProtocolHeader C hdr =
     (case hdr of
        None \<Rightarrow> Inl Nil_Header
      | Some h \<Rightarrow>
     (case h_Number h of
        None \<Rightarrow> Inl Nil_Header_Number
      | Some number \<Rightarrow>
          let height = big_uint64 number;
              upgrade = expectedUpgrade height (h_Time h);
              expectedReward = expectedRewardForBlock height (pu_InitialBlockReward upgrade)
          in case protocolMainKingAddress C of
               Inl e \<Rightarrow> Inl (Bad_Main_King e)
             | Inr mainKing \<Rightarrow>
                 if h_ProtocolVersion h \<noteq> pu_Version upgrade then Inl Version_Mismatch
                 else if h_UpgradeName h \<noteq> pu_Name upgrade then Inl Upgrade_Name_Mismatch
                 else if h_UpgradeTimestamp h \<noteq> pu_ActivationTime upgrade then Inl Upgrade_Time_Mismatch
                 else if h_MainKingAddress h \<noteq> mainKing then Inl Main_King_Mismatch
                 else if h_RewardAmount h = None then Inl Reward_Missing
                 else if h_CurrentReward h = None then Inl Current_Reward_Missing
                 else if h_RewardAmount h \<noteq> Some expectedReward then Inl Reward_Changed
                 else if h_CurrentReward h \<noteq> Some expectedReward then Inl Current_Reward_Changed
                 else if CalculateBlockReward height \<noteq> expectedReward then Inl Local_Reward_Mismatch
                 else if height = 0 then validateGenesisFields h mainKing
                 else Inr ()))"

text \<open>
  The header of the fixed genesis block, over the state root \<open>root\<close>; \<open>now\<close> is the clock that
  \<open>NewHeader\<close> reads.
\<close>

datatype genesis_error = Genesis_King addr_error | Genesis_Block block_error

definition genesis_block :: "crypto \<Rightarrow> u64 \<Rightarrow> hash \<Rightarrow> (u64 \<Rightarrow> u64 \<Rightarrow> u64 \<Rightarrow> address \<Rightarrow> int) \<Rightarrow> genesis_error + block" where
  "genesis_block C now root powDifficulty =
     (case ParseQuantumAddress C GenesisMainKing of
        Inl e \<Rightarrow> Inl (Genesis_King e)
      | Inr mainKing \<Rightarrow>
     (case NewHeader C now None mainKing root zero_hash (Some 0) GenesisGasLimit
             (Some powDifficulty) GenesisExtraData of
        Inl e \<Rightarrow> Inl (Genesis_Block e)
      | Inr h0 \<Rightarrow>
          let h1 = h0\<lparr>h_Time := GenesisTimestamp, h_Difficulty := Some GenesisDifficulty,
                     h_ParentHash := zero_hash, h_UncleHash := zero_hash, h_ReceiptHash := zero_hash,
                     h_MixDigest := zero_hash, h_Nonce := 0, h_Bloom := replicate BloomByteLength 0\<rparr>
          in case ApplyProtocolHeaderFields C h1 of
               Inl e \<Rightarrow> Inl (Genesis_King e)
             | Inr h2 \<Rightarrow>
                 (case NewBlock C (Some h2) [] [] of
                    Inl e \<Rightarrow> Inl (Genesis_Block e)
                  | Inr b \<Rightarrow> Inr b)))"

section \<open>The two halving schedules\<close>

lemma protocolBlocksPerHalving_value: "protocolBlocksPerHalving = 10512000"
  by (simp add: protocolBlocksPerHalving_def protocolBlocksPerYear_def)

lemma expectedUpgrade_genesis: "expectedUpgrade height blockTime = protocolUpgradeSchedule ! 0"
  by (simp add: expectedUpgrade_def protocolUpgradeSchedule_def)

lemma expectedReward_closed:
  "expectedRewardForBlock height (pu_InitialBlockReward (expectedUpgrade height t)) =
     period_reward (unat height div 10512000)"
proof -
  have "(200 * 1000000000000000000 :: int) = initialBlockReward"
    by (simp add: initialBlockReward_def oneANTD_def)
  then show ?thesis
    by (simp only: protocolBlocksPerHalving_value expectedUpgrade_genesis expectedRewardForBlock_def protocolUpgradeSchedule_def
        nth_Cons_0 protocol_upgrade.select_convs option.case halve_loop_initial)
      (simp add: unat_div_distrib)
qed

lemma period_reward_inject:
  assumes "j < 8" and "period_reward j = period_reward k"
  shows "j = k"
proof -
  have "j < 8 \<Longrightarrow> period_reward j = 200000000000000000000 div 2 ^ j" for j
    by (simp add: period_reward_def initialBlockReward_def oneANTD_def)
  moreover have "k < 8"
  proof (rule ccontr)
    assume "\<not> k < 8"
    then have "period_reward j = 0" using assms(2) by (simp add: period_reward_def)
    then show False
      using period_reward_antimono [of j 7] assms(1)
      by (simp add: period_reward_def initialBlockReward_def oneANTD_def)
  qed
  ultimately have "(200000000000000000000 :: int) div 2 ^ j = 200000000000000000000 div 2 ^ k"
    using assms by simp
  moreover have "j = 0 \<or> j = 1 \<or> j = 2 \<or> j = 3 \<or> j = 4 \<or> j = 5 \<or> j = 6 \<or> j = 7"
    using assms(1) by linarith
  moreover have "k = 0 \<or> k = 1 \<or> k = 2 \<or> k = 3 \<or> k = 4 \<or> k = 5 \<or> k = 6 \<or> k = 7"
    using \<open>k < 8\<close> by linarith
  ultimately show ?thesis by (elim disjE) simp_all
qed

text \<open>The local and the protocol schedule agree only before the first local halving and after the last protocol one.\<close>

lemma schedules_agree:
  "schedule_reward n = period_reward (n div 10512000) \<longleftrightarrow> n < 840960 \<or> 84096000 \<le> n"
proof
  assume eq: "schedule_reward n = period_reward (n div 10512000)"
  show "n < 840960 \<or> 84096000 \<le> n"
  proof (rule ccontr)
    assume "\<not> (n < 840960 \<or> 84096000 \<le> n)"
    then have lo: "840960 \<le> n" and "n div 10512000 < 8"
      by (simp_all add: div_less_iff_less_mult)
    moreover have "Suc (n div 10512000) * 840960 \<le> n"
    proof (cases "n div 10512000")
      case (Suc j)
      then show ?thesis using div_times_less_eq_dividend [of n 10512000] by simp
    qed (simp add: lo)
    then have "Suc (n div 10512000) \<le> n div 840960"
      by (simp only: less_eq_div_iff_mult_less_eq zero_less_numeral)
    ultimately show False
      using eq period_reward_inject [of "n div 10512000" "n div 840960"] by (simp add: schedule_reward_def)
  qed
next
  assume "n < 840960 \<or> 84096000 \<le> n"
  then show "schedule_reward n = period_reward (n div 10512000)"
  proof
    assume "84096000 \<le> n"
    then have "8 \<le> n div 10512000" and "8 \<le> n div 840960" by (simp_all add: less_eq_div_iff_mult_less_eq)
    then show ?thesis by (simp add: schedule_reward_def period_reward_def)
  qed (simp add: schedule_reward_def)
qed

section \<open>Properties\<close>

lemma validateProtocolHeader_Inr:
  "validateProtocolHeader C (Some h) = Inr () \<longleftrightarrow>
     (\<exists>n king. h_Number h = Some n \<and> protocolMainKingAddress C = Inr king
        \<and> h_ProtocolVersion h = 1 \<and> h_UpgradeName h = str_bytes ''genesis''
        \<and> h_UpgradeTimestamp h = GenesisTimestamp \<and> h_MainKingAddress h = king
        \<and> h_RewardAmount h = Some (period_reward (unat (big_uint64 n) div 10512000))
        \<and> h_CurrentReward h = Some (period_reward (unat (big_uint64 n) div 10512000))
        \<and> schedule_reward (unat (big_uint64 n)) = period_reward (unat (big_uint64 n) div 10512000)
        \<and> (big_uint64 n = 0 \<longrightarrow> validateGenesisFields h king = Inr ()))"
proof -
  have "pu_Version (expectedUpgrade ht t) = 1" "pu_Name (expectedUpgrade ht t) = str_bytes ''genesis''"
    "pu_ActivationTime (expectedUpgrade ht t) = GenesisTimestamp" for ht t
    by (simp_all add: expectedUpgrade_genesis protocolUpgradeSchedule_def)
  then show ?thesis
    by (cases "h_Number h"; cases "protocolMainKingAddress C")
      (simp_all add: validateProtocolHeader_def Let_def expectedReward_closed CalculateBlockReward_closed)
qed

lemma ApplyProtocolHeaderFields_Inr:
  "ApplyProtocolHeaderFields C h = Inr h' \<Longrightarrow> h_Number h = Some n \<Longrightarrow>
     \<exists>king. protocolMainKingAddress C = Inr king \<and>
       h' = h\<lparr>h_ProtocolVersion := 1, h_UpgradeName := str_bytes ''genesis'',
              h_UpgradeTimestamp := GenesisTimestamp, h_MainKingAddress := king,
              h_RewardAmount := Some (period_reward (unat (big_uint64 n) div 10512000)),
              h_CurrentReward := Some (period_reward (unat (big_uint64 n) div 10512000))\<rparr>"
  by (auto simp: ApplyProtocolHeaderFields_def Let_def expectedReward_closed split: sum.splits)
    (simp_all add: expectedUpgrade_genesis protocolUpgradeSchedule_def)

text \<open>
  C1: no header whatever with a height from 840,960 up to 84,095,999 passes the protocol check:
  the local reward schedule halves every 840,960 blocks and the protocol's every 10,512,000, and
  the check wants both to agree. The chain stops at its first halving.
\<close>

theorem no_block_after_first_halving:
  assumes "validateProtocolHeader C (Some h) = Inr ()" and "h_Number h = Some n"
  shows "unat (big_uint64 n) < 840960 \<or> 84096000 \<le> unat (big_uint64 n)"
  using assms schedules_agree by (auto simp: validateProtocolHeader_Inr)

text \<open>A key set in which the genesis address parses: every text decodes to zero bytes.\<close>

definition king_crypto :: crypto where
  "king_crypto = const_crypto\<lparr>base58_decode := \<lambda>_. Some (replicate 24 0)\<rparr>"

lemma be_bytes_0: "be_bytes k 0 = replicate k 0"
  by (induction k) (simp_all add: replicate_append_same)

lemma king_crypto_parses: "ParseQuantumAddress king_crypto GenesisMainKing = Inr 0"
proof -
  have "sha3 king_crypto b = 0" for b by (simp add: king_crypto_def)
  then have "addressChecksum king_crypto p = replicate 4 0" for p
    by (simp add: addressChecksum_def Hash_Bytes_def word_bytes_def be_bytes_0)
  then show ?thesis
    by (simp add: ParseQuantumAddress_def ExtractPayload_def GenesisMainKing_def AddressPrefix_def
        NewQuantumAddressFromBytes_def bytes_word_def king_crypto_def)
qed

theorem no_block_after_first_halving_witness:
  "unat (big_uint64 5) < 840960 \<or> 84096000 \<le> unat (big_uint64 5)"
proof (rule no_block_after_first_halving [of king_crypto
      "sample_header\<lparr>h_Number := Some 5, h_UpgradeName := str_bytes ''genesis'',
         h_UpgradeTimestamp := GenesisTimestamp, h_RewardAmount := Some initialBlockReward,
         h_CurrentReward := Some initialBlockReward\<rparr>"])
  have "unat (big_uint64 5) = 5" by (simp add: big_uint64_def)
  then show "validateProtocolHeader king_crypto (Some (sample_header\<lparr>h_Number := Some 5,
      h_UpgradeName := str_bytes ''genesis'', h_UpgradeTimestamp := GenesisTimestamp,
      h_RewardAmount := Some initialBlockReward, h_CurrentReward := Some initialBlockReward\<rparr>)) = Inr ()"
    by (simp add: validateProtocolHeader_Inr protocolMainKingAddress_def king_crypto_parses sample_header_def
        period_reward_def schedule_reward_def) (simp add: big_uint64_def)
qed simp

text \<open>
  A non-genesis header stamped by \<open>ApplyProtocolHeaderFields\<close> passes the protocol check
  exactly at the heights at which the two reward schedules agree.
\<close>

theorem stamped_header_validates_iff_schedules_agree:
  assumes "ApplyProtocolHeaderFields C h = Inr h'" and "h_Number h = Some n" and "big_uint64 n \<noteq> 0"
  shows "validateProtocolHeader C (Some h') = Inr () \<longleftrightarrow>
    unat (big_uint64 n) < 840960 \<or> 84096000 \<le> unat (big_uint64 n)"
  using ApplyProtocolHeaderFields_Inr [OF assms(1,2)] assms(2,3)
  by (auto simp: validateProtocolHeader_Inr schedules_agree)

theorem stamped_header_validates_iff_schedules_agree_witness:
  "\<exists>h'. ApplyProtocolHeaderFields king_crypto (sample_header\<lparr>h_Number := Some 840960\<rparr>) = Inr h'
     \<and> validateProtocolHeader king_crypto (Some h') \<noteq> Inr ()"
proof -
  let ?h = "sample_header\<lparr>h_Number := Some 840960\<rparr>"
  obtain h' where h': "ApplyProtocolHeaderFields king_crypto ?h = Inr h'"
    by (simp add: ApplyProtocolHeaderFields_def protocolMainKingAddress_def king_crypto_parses Let_def)
  have "unat (big_uint64 840960) = 840960" and "big_uint64 840960 \<noteq> 0" by (simp_all add: big_uint64_def)
  with stamped_header_validates_iff_schedules_agree [OF h', of 840960] h' show ?thesis by auto
qed

lemma genesis_extra_ok: "ValidateExtraDataSize GenesisExtraData = Inr ()"
  by (simp add: ValidateExtraDataSize_def validateExtraDataContent_def GenesisExtraData_def
      MaxExtraDataSize_def str_bytes_def)

text \<open>
  The genesis block is fixed: it does not depend on the clock or the proof-of-work engine,
  has height zero and the main king as its miner, and passes the protocol check.
\<close>

theorem genesis_block_is_fixed:
  assumes "genesis_block C now root pd = Inr b"
  shows "genesis_block C now' root pd' = Inr b
    \<and> validateProtocolHeader C (b_Header b) = Inr ()
    \<and> map_option h_Number (b_Header b) = Some (Some 0)
    \<and> map_option h_Root (b_Header b) = Some root \<and> b_Txs b = []"
proof -
  note extra = genesis_extra_ok
  have reward: "expectedRewardForBlock 0 (Some 200000000000000000000) = period_reward 0"
    using expectedReward_closed [of 0 0] by (simp add: expectedUpgrade_genesis protocolUpgradeSchedule_def)
  from assms obtain k where k: "ParseQuantumAddress C GenesisMainKing = Inr k"
    by (auto simp: genesis_block_def split: sum.splits)
  have same: "genesis_block C now' root pd' = genesis_block C now root pd" for now' pd'
    by (simp add: genesis_block_def k NewHeader_def SetExtraData_def extra Let_def)
  have "big_uint64 0 = 0" by (simp add: big_uint64_def)
  with assms k have "validateProtocolHeader C (b_Header b) = Inr ()
    \<and> map_option h_Number (b_Header b) = Some (Some 0) \<and> map_option h_Root (b_Header b) = Some root \<and> b_Txs b = []"
    by (auto simp: genesis_block_def NewHeader_def SetExtraData_def extra Let_def GenesisGasLimit_def
        ApplyProtocolHeaderFields_def protocolMainKingAddress_def NewBlock_def CalculateGasUsed_def
        reward validateProtocolHeader_Inr schedule_reward_def validateGenesisFields_def
        CalculateUncleHash_def
        expectedUpgrade_genesis protocolUpgradeSchedule_def)
  with assms same show ?thesis by simp
qed

theorem genesis_block_is_fixed_witness:
  "\<exists>b. genesis_block king_crypto 5 9 (\<lambda>_ _ _ _. 1) = Inr b \<and> validateProtocolHeader king_crypto (b_Header b) = Inr ()"
proof -
  obtain b where "genesis_block king_crypto 5 9 (\<lambda>_ _ _ _. 1) = Inr b"
    by (simp add: genesis_extra_ok genesis_block_def king_crypto_parses NewHeader_def SetExtraData_def Let_def
        GenesisGasLimit_def ApplyProtocolHeaderFields_def protocolMainKingAddress_def NewBlock_def
        CalculateGasUsed_def)
  then show ?thesis using genesis_block_is_fixed by blast
qed

end
