(* ===== verification/Account_State.thy ===== *)
theory Account_State
  imports Common_Types "HOL-Library.DAList"
begin

text \<open>
  The account state (\<open>antdc/state/state.go\<close>): balances, nonces, code and storage slots as
  entries of a key-value store, and the state root over its sorted entries.

  LevelDB is third-party code: its handle is the type \<open>'d\<close> and its operations are the record
  \<open>kv_ops\<close>, an argument of every definition here. What the state relies on is the locale
  \<open>kv_store\<close> (a write changes the value at its key, and nothing else; iteration lists the
  entries) and, where success matters, \<open>kv_reliable\<close> (writes succeed). The locale
  \<open>account_ledger\<close> is what the rest of the program sees of it: balances that only \<open>add\<close>
  changes.
\<close>

section \<open>The key-value store\<close>

record 'd kv_ops =
  kv_get :: "'d \<Rightarrow> bytes \<Rightarrow> bytes option"
  kv_put :: "'d \<Rightarrow> bytes \<Rightarrow> bytes \<Rightarrow> 'd option"
  kv_entries :: "'d \<Rightarrow> (bytes \<times> bytes) list option"
  kv_delete :: "'d \<Rightarrow> bytes list \<Rightarrow> 'd option"
  kv_write :: "'d \<Rightarrow> (bytes \<times> bytes) list \<Rightarrow> 'd option"

datatype state_error = Negative_Balance | Store_Error | Root_Mismatch

definition put_result :: "'d option \<Rightarrow> state_error + 'd" where
  "put_result r = (case r of None \<Rightarrow> Inl Store_Error | Some d \<Rightarrow> Inr d)"

section \<open>Balances and nonces\<close>

definition balance_key :: "address \<Rightarrow> bytes" where
  "balance_key addr = str_bytes ''balance:'' @ Address_Bytes addr"

definition nonce_key :: "address \<Rightarrow> bytes" where
  "nonce_key addr = str_bytes ''nonce:'' @ Address_Bytes addr"

definition GetBalance :: "'d kv_ops \<Rightarrow> 'd \<Rightarrow> address \<Rightarrow> int" where
  "GetBalance K d addr =
     (case kv_get K d (balance_key addr) of
        None \<Rightarrow> 0
      | Some data \<Rightarrow> int (be_value data))"

definition AddBalance :: "'d kv_ops \<Rightarrow> 'd \<Rightarrow> address \<Rightarrow> int \<Rightarrow> state_error + 'd" where
  "AddBalance K d addr amount =
     (let current = GetBalance K d addr;
          newBal = current + amount
      in if newBal < 0 then Inl Negative_Balance
         else put_result (kv_put K d (balance_key addr) (big_bytes newBal)))"

definition SetBalance :: "'d kv_ops \<Rightarrow> 'd \<Rightarrow> address \<Rightarrow> int \<Rightarrow> state_error + 'd" where
  "SetBalance K d addr balance =
     (if balance < 0 then Inl Negative_Balance
      else put_result (kv_put K d (balance_key addr) (big_bytes balance)))"

text \<open>\<open>None\<close>: \<open>BigEndian.Uint64\<close> panics on fewer than eight bytes; it reads the first eight.\<close>

definition GetNonce :: "'d kv_ops \<Rightarrow> 'd \<Rightarrow> address \<Rightarrow> u64 option" where
  "GetNonce K d addr =
     (case kv_get K d (nonce_key addr) of
        None \<Rightarrow> Some 0
      | Some data \<Rightarrow> if length data < 8 then None else Some (bytes_word (take 8 data)))"

definition SetNonce :: "'d kv_ops \<Rightarrow> 'd \<Rightarrow> address \<Rightarrow> u64 \<Rightarrow> state_error + 'd" where
  "SetNonce K d addr nonce = put_result (kv_put K d (nonce_key addr) (word_bytes 8 nonce))"

section \<open>Code and storage\<close>

definition code_key :: "address \<Rightarrow> bytes" where
  "code_key addr = str_bytes ''code:'' @ Address_Bytes addr"

definition codehash_key :: "address \<Rightarrow> bytes" where
  "codehash_key addr = str_bytes ''codehash:'' @ Address_Bytes addr"

definition storage_key :: "address \<Rightarrow> address \<Rightarrow> bytes" where
  "storage_key addr key = str_bytes ''storage:'' @ Address_Bytes addr @ Address_Bytes key"

text \<open>\<open>keccak256\<close> is the go-ethereum function.\<close>

definition SetCode :: "'d kv_ops \<Rightarrow> (bytes \<Rightarrow> bytes) \<Rightarrow> 'd \<Rightarrow> address \<Rightarrow> bytes \<Rightarrow> state_error + 'd" where
  "SetCode K keccak256 d addr code =
     (case kv_put K d (code_key addr) code of
        None \<Rightarrow> Inl Store_Error
      | Some d1 \<Rightarrow> put_result (kv_put K d1 (codehash_key addr) (keccak256 code)))"

definition GetCode :: "'d kv_ops \<Rightarrow> 'd \<Rightarrow> address \<Rightarrow> bytes" where
  "GetCode K d addr = (case kv_get K d (code_key addr) of None \<Rightarrow> [] | Some data \<Rightarrow> data)"

definition GetCodeHash :: "'d kv_ops \<Rightarrow> 'd \<Rightarrow> address \<Rightarrow> hash" where
  "GetCodeHash K d addr =
     (case kv_get K d (codehash_key addr) of None \<Rightarrow> zero_hash | Some data \<Rightarrow> BytesToHash data)"

definition GetStorage :: "'d kv_ops \<Rightarrow> 'd \<Rightarrow> address \<Rightarrow> address \<Rightarrow> hash" where
  "GetStorage K d addr key =
     (case kv_get K d (storage_key addr key) of None \<Rightarrow> zero_hash | Some data \<Rightarrow> BytesToHash data)"

definition SetStorage :: "'d kv_ops \<Rightarrow> 'd \<Rightarrow> address \<Rightarrow> address \<Rightarrow> hash \<Rightarrow> state_error + 'd" where
  "SetStorage K d addr key value =
     put_result (kv_put K d (storage_key addr key) (Hash_Bytes value))"

section \<open>The state root\<close>

definition is_meta :: "bytes \<Rightarrow> bool" where
  "is_meta key \<longleftrightarrow> take 5 key = str_bytes ''meta:''"

text \<open>The bytes that are hashed: keys and values in key order, without lengths between them.\<close>

definition root_preimage :: "(bytes \<times> bytes) list \<Rightarrow> bytes" where
  "root_preimage es = concat (map (\<lambda>(k, v). k @ v) (sort_key fst (filter (\<lambda>(k, v). \<not> is_meta k) es)))"

definition State_Root :: "'d kv_ops \<Rightarrow> (bytes \<Rightarrow> hash) \<Rightarrow> 'd \<Rightarrow> hash" where
  "State_Root K sha256 d =
     (case kv_entries K d of
        None \<Rightarrow> zero_hash
      | Some es \<Rightarrow> BytesToHash (Hash_Bytes (sha256 (root_preimage es))))"

definition State_Clear :: "'d kv_ops \<Rightarrow> 'd \<Rightarrow> state_error + 'd" where
  "State_Clear K d =
     (case kv_entries K d of
        None \<Rightarrow> Inl Store_Error
      | Some es \<Rightarrow> put_result (kv_delete K d (map fst es)))"

text \<open>The state is returned with the error too: the first write may have happened.\<close>

definition State_Commit :: "'d kv_ops \<Rightarrow> (bytes \<Rightarrow> hash) \<Rightarrow> 'd \<Rightarrow> u64 \<Rightarrow> (state_error + hash) \<times> 'd" where
  "State_Commit K sha256 d blockNumber =
     (let root = State_Root K sha256 d
      in case kv_put K d (str_bytes ''meta:state_root:latest'') (Hash_Bytes root) of
           None \<Rightarrow> (Inl Store_Error, d)
         | Some d1 \<Rightarrow>
             (case kv_put K d1 (str_bytes (''meta:state_root:'' @ dec_nat (unat blockNumber))) (Hash_Bytes root) of
                None \<Rightarrow> (Inl Store_Error, d1)
              | Some d2 \<Rightarrow> (Inr root, d2)))"

definition State_Reset :: "'d kv_ops \<Rightarrow> (bytes \<Rightarrow> hash) \<Rightarrow> 'd \<Rightarrow> hash \<Rightarrow> state_error + unit" where
  "State_Reset K sha256 d root =
     (if State_Root K sha256 d \<noteq> root then Inl Root_Mismatch else Inr ())"

text \<open>\<open>opened\<close> is what \<open>leveldb.OpenFile\<close> gives for the new path.\<close>

definition State_Clone :: "'d kv_ops \<Rightarrow> 'd \<Rightarrow> 'd option \<Rightarrow> state_error + 'd" where
  "State_Clone K d opened =
     (case opened of
        None \<Rightarrow> Inl Store_Error
      | Some newDB \<Rightarrow>
          (case kv_entries K d of
             None \<Rightarrow> Inl Store_Error
           | Some es \<Rightarrow> put_result (kv_write K newDB es)))"

section \<open>Interfaces\<close>

locale kv_store =
  fixes K :: "'d kv_ops"
  assumes get_put: "kv_put K d k v = Some d' \<Longrightarrow> kv_get K d' = (kv_get K d)(k \<mapsto> v)"
    and get_entries: "kv_entries K d = Some es \<Longrightarrow> distinct (map fst es) \<and> map_of es = kv_get K d"
    and get_delete: "kv_delete K d ks = Some d' \<Longrightarrow> kv_get K d' = (kv_get K d) |` (- set ks)"
    and get_write: "kv_write K d es = Some d' \<Longrightarrow> kv_get K d' = kv_get K d ++ map_of (rev es)"

locale kv_reliable = kv_store +
  assumes put_total: "\<exists>d'. kv_put K d k v = Some d'"
    and entries_total: "\<exists>es. kv_entries K d = Some es"

text \<open>The sum of all balances, and a call whose error is ignored.\<close>

definition ledger_total :: "(address \<Rightarrow> int) \<Rightarrow> int" where
  "ledger_total b = (\<Sum>a\<in>UNIV. b a)"

definition or_unchanged :: "'s \<Rightarrow> 'e + 's \<Rightarrow> 's" where
  "or_unchanged s r = (case r of Inl _ \<Rightarrow> s | Inr s' \<Rightarrow> s')"

lemma or_unchanged_simps [simp]: "or_unchanged s (Inl e) = s" "or_unchanged s (Inr s') = s'"
  by (simp_all add: or_unchanged_def)

lemma ledger_total_upd [ledger]: "ledger_total (b(a := v)) = ledger_total b - b a + v"
  unfolding ledger_total_def by (rule sum_UNIV_upd)

locale account_ledger =
  fixes bal :: "'s \<Rightarrow> address \<Rightarrow> int" and add :: "'s \<Rightarrow> address \<Rightarrow> int \<Rightarrow> 'e + 's"
  assumes bal_nonneg: "0 \<le> bal s a"
    and add_Inr: "add s a v = Inr s' \<Longrightarrow> bal s' = (bal s)(a := bal s a + v)"
    and add_succeeds: "0 \<le> bal s a + v \<Longrightarrow> \<exists>s'. add s a v = Inr s'"
    and add_fails: "bal s a + v < 0 \<Longrightarrow> \<exists>e. add s a v = Inl e"
begin

lemma bal_add:
  "0 \<le> bal s a + v \<Longrightarrow> bal (or_unchanged s (add s a v)) = (bal s)(a := bal s a + v)"
  using add_succeeds [of s a v] add_Inr [of s a v] by auto

lemma bal_credit:
  "0 \<le> v \<Longrightarrow> bal (or_unchanged s (add s a v)) = (bal s)(a := bal s a + v)"
  using bal_add bal_nonneg [of s a] by simp

lemma total_add:
  "0 \<le> bal s a + v \<Longrightarrow> ledger_total (bal (or_unchanged s (add s a v))) = ledger_total (bal s) + v"
  by (simp add: bal_add ledger_total_upd)

lemma total_credit:
  "0 \<le> v \<Longrightarrow> ledger_total (bal (or_unchanged s (add s a v))) = ledger_total (bal s) + v"
  using total_add bal_nonneg [of s a] by simp

lemma add_never_negative: "add s a v = Inr s' \<Longrightarrow> 0 \<le> bal s a + v"
  using add_fails [of s a v] by (metis Inl_Inr_False not_le)

lemma total_transfer:
  assumes "0 \<le> v" and "v \<le> bal s a"
  shows "ledger_total (bal (or_unchanged (or_unchanged s (add s a (- v)))
      (add (or_unchanged s (add s a (- v))) b v))) = ledger_total (bal s)"
  using assms total_add [of s a "- v"] by (simp add: total_credit)

lemma bal_transfer:
  assumes "0 \<le> v" and "v \<le> bal s a"
  shows "bal (or_unchanged (or_unchanged s (add s a (- v))) (add (or_unchanged s (add s a (- v))) b v)) =
    (let f = (bal s)(a := bal s a - v) in f(b := f b + v))"
  using assms bal_add [of s a "- v"] by (simp add: bal_credit Let_def)

end

section \<open>The account operations over the store\<close>

lemma key_kinds [simp]:
  "balance_key a \<noteq> nonce_key b" "balance_key a \<noteq> code_key b" "balance_key a \<noteq> codehash_key b"
  "balance_key a \<noteq> storage_key b k" "nonce_key a \<noteq> balance_key b" "nonce_key a \<noteq> code_key b"
  "nonce_key a \<noteq> codehash_key b" "nonce_key a \<noteq> storage_key b k" "code_key a \<noteq> balance_key b"
  "code_key a \<noteq> nonce_key b" "code_key a \<noteq> codehash_key b" "codehash_key a \<noteq> balance_key b"
  "codehash_key a \<noteq> nonce_key b" "codehash_key a \<noteq> code_key b"
  "storage_key a k \<noteq> balance_key b" "storage_key a k \<noteq> nonce_key b"
  "code_key b \<noteq> storage_key a k" "storage_key a k \<noteq> code_key b"
  by (simp_all add: balance_key_def nonce_key_def code_key_def codehash_key_def storage_key_def str_bytes_def)

lemma key_inject [simp]:
  "balance_key a = balance_key b \<longleftrightarrow> a = b" "nonce_key a = nonce_key b \<longleftrightarrow> a = b"
  "code_key a = code_key b \<longleftrightarrow> a = b" "codehash_key a = codehash_key b \<longleftrightarrow> a = b"
  "storage_key a k = storage_key b l \<longleftrightarrow> a = b \<and> k = l"
  by (simp_all add: balance_key_def nonce_key_def code_key_def codehash_key_def storage_key_def)

lemma meta_key [simp]: "is_meta (str_bytes (''meta:'' @ s))"
  by (simp add: is_meta_def str_bytes_def)

lemma account_key_not_meta [simp]:
  "\<not> is_meta (balance_key a)" "\<not> is_meta (nonce_key a)" "\<not> is_meta (code_key a)"
  "\<not> is_meta (codehash_key a)" "\<not> is_meta (storage_key a k)"
  by (simp_all add: is_meta_def balance_key_def nonce_key_def code_key_def codehash_key_def
      storage_key_def str_bytes_def)

context kv_store begin

lemma GetBalance_nonneg: "0 \<le> GetBalance K d a"
  by (simp add: GetBalance_def split: option.split)

lemma AddBalance_Inr:
  assumes "AddBalance K d a v = Inr d'"
  shows "GetBalance K d' = (GetBalance K d)(a := GetBalance K d a + v)"
    and "GetNonce K d' = GetNonce K d" and "GetCode K d' = GetCode K d"
    and "0 \<le> GetBalance K d a + v"
proof -
  from assms have pos: "0 \<le> GetBalance K d a + v"
    and put: "kv_put K d (balance_key a) (big_bytes (GetBalance K d a + v)) = Some d'"
    by (auto simp: AddBalance_def Let_def put_result_def split: if_splits option.splits)
  note get = get_put [OF put]
  show "GetBalance K d' = (GetBalance K d)(a := GetBalance K d a + v)"
    using pos by (auto simp: GetBalance_def get)
  show "GetNonce K d' = GetNonce K d" and "GetCode K d' = GetCode K d"
    by (auto simp: GetNonce_def GetCode_def get)
  show "0 \<le> GetBalance K d a + v" by (fact pos)
qed

lemma SetBalance_Inr:
  assumes "SetBalance K d a v = Inr d'"
  shows "GetBalance K d' = (GetBalance K d)(a := v)"
    and "GetNonce K d' = GetNonce K d" and "GetCode K d' = GetCode K d" and "0 \<le> v"
proof -
  from assms have pos: "0 \<le> v" and put: "kv_put K d (balance_key a) (big_bytes v) = Some d'"
    by (auto simp: SetBalance_def put_result_def split: if_splits option.splits)
  note get = get_put [OF put]
  show "GetBalance K d' = (GetBalance K d)(a := v)"
    using pos by (auto simp: GetBalance_def get)
  show "GetNonce K d' = GetNonce K d" and "GetCode K d' = GetCode K d"
    by (auto simp: GetNonce_def GetCode_def get)
  show "0 \<le> v" by (fact pos)
qed

lemma SetNonce_Inr:
  assumes "SetNonce K d a n = Inr d'"
  shows "GetNonce K d' = (GetNonce K d)(a := Some n)"
    and "GetBalance K d' = GetBalance K d" and "GetCode K d' = GetCode K d"
proof -
  from assms have put: "kv_put K d (nonce_key a) (word_bytes 8 n) = Some d'"
    by (auto simp: SetNonce_def put_result_def split: option.splits)
  note get = get_put [OF put]
  show "GetNonce K d' = (GetNonce K d)(a := Some n)"
    by (auto simp: GetNonce_def get bytes_word_word_bytes)
  show "GetBalance K d' = GetBalance K d" and "GetCode K d' = GetCode K d"
    by (auto simp: GetBalance_def GetCode_def get)
qed

lemma SetCode_Inr:
  assumes "SetCode K keccak256 d a code = Inr d'"
  shows "GetCode K d' = (GetCode K d)(a := code)" and "GetBalance K d' = GetBalance K d"
    and "GetNonce K d' = GetNonce K d"
  using assms
  by (auto simp: SetCode_def put_result_def GetCode_def GetBalance_def GetNonce_def
      split: option.splits dest!: get_put)

lemma SetStorage_Inr:
  assumes "SetStorage K d a k v = Inr d'"
  shows "GetStorage K d' b l = (if b = a \<and> l = k then v else GetStorage K d b l)"
    and "GetBalance K d' = GetBalance K d" and "GetNonce K d' = GetNonce K d"
  using assms
  by (auto simp: SetStorage_def put_result_def GetStorage_def GetBalance_def GetNonce_def
      split: option.splits dest!: get_put)

end

context kv_reliable begin

lemma AddBalance_succeeds: "0 \<le> GetBalance K d a + v \<Longrightarrow> \<exists>d'. AddBalance K d a v = Inr d'"
  using put_total [of d "balance_key a" "big_bytes (GetBalance K d a + v)"]
  by (auto simp: AddBalance_def Let_def put_result_def)

lemma SetNonce_succeeds: "\<exists>d'. SetNonce K d a n = Inr d'"
  using put_total [of d "nonce_key a" "word_bytes 8 n"] by (auto simp: SetNonce_def put_result_def)

lemma SetBalance_succeeds: "0 \<le> v \<Longrightarrow> \<exists>d'. SetBalance K d a v = Inr d'"
  using put_total [of d "balance_key a" "big_bytes v"] by (auto simp: SetBalance_def put_result_def)

end

text \<open>A reliable store is an account ledger.\<close>

sublocale kv_reliable \<subseteq> ledger: account_ledger "GetBalance K" "AddBalance K"
proof
  show "0 \<le> GetBalance K s a" for s a by (rule GetBalance_nonneg)
  show "AddBalance K s a v = Inr s' \<Longrightarrow> GetBalance K s' = (GetBalance K s)(a := GetBalance K s a + v)"
    for s a v s' by (rule AddBalance_Inr)
  show "0 \<le> GetBalance K s a + v \<Longrightarrow> \<exists>s'. AddBalance K s a v = Inr s'" for s a v
    by (rule AddBalance_succeeds)
  show "GetBalance K s a + v < 0 \<Longrightarrow> \<exists>e. AddBalance K s a v = Inl e" for s a v
    by (simp add: AddBalance_def)
qed

context kv_reliable begin

lemma is_store: "kv_store K" by (rule kv_store_axioms)

lemma is_ledger: "account_ledger (GetBalance K) (AddBalance K)" by (rule ledger.account_ledger_axioms)

end

section \<open>The store as a finite map\<close>

text \<open>What LevelDB implements: a finite map, with every write successful.\<close>

definition map_kv :: "(bytes, bytes) alist kv_ops" where
  "map_kv =
     \<lparr>kv_get = DAList.lookup,
      kv_put = (\<lambda>d k v. Some (DAList.update k v d)),
      kv_entries = (\<lambda>d. Some (DAList.impl_of d)),
      kv_delete = (\<lambda>d ks. Some (fold DAList.delete ks d)),
      kv_write = (\<lambda>d es. Some (fold (\<lambda>(k, v). DAList.update k v) es d))\<rparr>"

lemma lookup_fold_delete: "DAList.lookup (fold DAList.delete ks d) = DAList.lookup d |` (- set ks)"
  by (induction ks arbitrary: d) (auto simp: lookup_delete restrict_map_def fun_eq_iff)

lemma lookup_fold_update:
  "DAList.lookup (fold (\<lambda>(k, v). DAList.update k v) es d) = DAList.lookup d ++ map_of (rev es)"
  by (induction es arbitrary: d) (auto simp: lookup_update map_add_def fun_eq_iff split: option.split)

lemma map_of_impl_of: "map_of (alist.impl_of d) = DAList.lookup d"
  by (simp add: DAList.lookup_def)

interpretation mkv: kv_reliable map_kv
  by unfold_locales
    (auto simp: map_kv_def lookup_update lookup_fold_delete lookup_fold_update map_of_impl_of fun_eq_iff)

section \<open>The root depends on the account entries only\<close>

context kv_store begin

lemma root_preimage_cong:
  assumes es: "kv_entries K d = Some es" and es': "kv_entries K d' = Some es'"
    and same: "\<And>k. \<not> is_meta k \<Longrightarrow> kv_get K d' k = kv_get K d k"
  shows "root_preimage es' = root_preimage es"
proof -
  let ?f = "filter (\<lambda>(k, v). \<not> is_meta k)"
  have mem: "(k, v) \<in> set es \<longleftrightarrow> kv_get K d k = Some v"
    "(k, v) \<in> set es' \<longleftrightarrow> kv_get K d' k = Some v" for k v
    using get_entries [OF es] get_entries [OF es'] by (metis map_of_eq_Some_iff)+
  have "set (?f es') = set (?f es)" by (auto simp: mem same)
  moreover have "distinct (map fst (?f es))" and "distinct (map fst (?f es'))"
    using get_entries [OF es] get_entries [OF es'] by (simp_all add: distinct_map_filter)
  ultimately show ?thesis
    unfolding root_preimage_def by (metis sort_key_unique)
qed

end

context kv_reliable begin

lemma State_Root_cong:
  "(\<And>k. \<not> is_meta k \<Longrightarrow> kv_get K d' k = kv_get K d k) \<Longrightarrow> State_Root K sha256 d' = State_Root K sha256 d"
  using entries_total [of d] entries_total [of d'] root_preimage_cong [of d _ d']
  by (auto simp: State_Root_def)

lemma State_Commit_Inr:
  obtains d' where "State_Commit K sha256 d n = (Inr (State_Root K sha256 d), d')"
    and "\<And>k. \<not> is_meta k \<Longrightarrow> kv_get K d' k = kv_get K d k"
proof -
  let ?r = "Hash_Bytes (State_Root K sha256 d)"
  obtain d1 where d1: "kv_put K d (str_bytes ''meta:state_root:latest'') ?r = Some d1"
    using put_total by blast
  obtain d2 where d2: "kv_put K d1 (str_bytes (''meta:state_root:'' @ dec_nat (unat n))) ?r = Some d2"
    using put_total by blast
  have meta: "is_meta (str_bytes (''meta:state_root:'' @ s))" for s
    using meta_key [of "''state_root:'' @ s"] by simp
  show thesis
  proof (rule that [of d2])
    show "State_Commit K sha256 d n = (Inr (State_Root K sha256 d), d2)"
      using d1 d2 by (simp add: State_Commit_def Let_def)
    show "kv_get K d2 k = kv_get K d k" if "\<not> is_meta k" for k
      using that get_put [OF d1] get_put [OF d2] meta [of "''latest''"] meta by auto
  qed
qed

end

section \<open>Properties\<close>

text \<open>
  Over a reliable store, \<open>AddBalance\<close> succeeds exactly when the balance stays
  non-negative; it then changes the balance of that account by the amount, and no other
  balance, nonce or code; \<open>SetNonce\<close> and \<open>GetNonce\<close> are inverse on 64-bit nonces and leave
  the balances alone.
\<close>

theorem account_operations:
  assumes "kv_reliable K"
  shows "(case AddBalance K d a v of
        Inl _ \<Rightarrow> GetBalance K d a + v < 0
      | Inr d' \<Rightarrow> GetBalance K d' = (GetBalance K d)(a := GetBalance K d a + v)
          \<and> 0 \<le> GetBalance K d a + v \<and> GetNonce K d' = GetNonce K d \<and> GetCode K d' = GetCode K d)
    \<and> (\<exists>d'. SetNonce K d a n = Inr d' \<and> GetNonce K d' = (GetNonce K d)(a := Some n)
        \<and> GetBalance K d' = GetBalance K d)"
  using kv_store.AddBalance_Inr [OF kv_reliable.is_store [OF assms], of d a v]
    kv_reliable.AddBalance_succeeds [OF assms, of d a v]
    kv_reliable.SetNonce_succeeds [OF assms, of d a n]
    kv_store.SetNonce_Inr [OF kv_reliable.is_store [OF assms], of d a n]
  by (force split: sum.split)

text \<open>A two-entry state: account 5 holds 1000, account 9 has nonce 3.\<close>

definition sample_state :: "(bytes, bytes) alist" where
  "sample_state =
     DAList.update (balance_key 5) (big_bytes 1000) (DAList.update (nonce_key 9) (word_bytes 8 (3 :: u64)) DAList.empty)"

lemma sample_state_get [simp]:
  "GetBalance map_kv sample_state a = (if a = 5 then 1000 else 0)"
  "GetNonce map_kv sample_state a = Some (if a = 9 then 3 else 0)"
  by (simp_all add: GetBalance_def GetNonce_def map_kv_def sample_state_def lookup_update bytes_word_word_bytes)

theorem account_operations_witness:
  "\<exists>d'. AddBalance map_kv sample_state 5 (- 400) = Inr d' \<and> GetBalance map_kv d' 5 = 600
     \<and> GetNonce map_kv d' 9 = Some 3"
  using account_operations [OF mkv.kv_reliable_axioms, of sample_state 5 "- 400" 0]
  by (auto split: sum.splits)

text \<open>
  The state root is a function of the account entries: committing a block writes metadata
  only, so it leaves the root and every account as they were, returns that root, and a reset to
  it succeeds; two states with the same account entries have the same root.
\<close>

theorem commit_preserves_root:
  assumes "kv_reliable K"
  shows "\<exists>d'. State_Commit K sha256 d n = (Inr (State_Root K sha256 d), d')
      \<and> State_Root K sha256 d' = State_Root K sha256 d
      \<and> State_Reset K sha256 d' (State_Root K sha256 d) = Inr ()
      \<and> GetBalance K d' = GetBalance K d \<and> GetNonce K d' = GetNonce K d"
proof -
  obtain d' where c: "State_Commit K sha256 d n = (Inr (State_Root K sha256 d), d')"
    and same: "\<And>k. \<not> is_meta k \<Longrightarrow> kv_get K d' k = kv_get K d k"
    using kv_reliable.State_Commit_Inr [OF assms] by blast
  have "State_Root K sha256 d' = State_Root K sha256 d"
    using kv_reliable.State_Root_cong [OF assms] same by blast
  moreover have "GetBalance K d' = GetBalance K d" and "GetNonce K d' = GetNonce K d"
    using same by (simp_all add: GetBalance_def GetNonce_def fun_eq_iff)
  ultimately show ?thesis using c by (simp add: State_Reset_def)
qed

theorem commit_preserves_root_witness:
  "\<exists>d'. State_Commit map_kv (\<lambda>b. word_of_nat (length b)) sample_state 7 =
      (Inr (State_Root map_kv (\<lambda>b. word_of_nat (length b)) sample_state), d')
    \<and> GetBalance map_kv d' 5 = 1000"
  using commit_preserves_root [OF mkv.kv_reliable_axioms, of "\<lambda>b. word_of_nat (length b)" sample_state 7] by auto

end
