(* ===== verification/VM.thy ===== *)
theory VM
  imports Transactions Account_State
begin

text \<open>
  The transaction interpreter (\<open>antdc/vm/vm.go\<close>): simple transfers, and the stack machine that
  data-carrying transactions run. Gas is a \<open>uint64\<close> and is subtracted with wrap-around; the
  errors of \<open>AddBalance\<close> and \<open>SetNonce\<close> that the code ignores leave the state unchanged.
\<close>

section \<open>The machine\<close>

text \<open>The values of \<open>interface{}\<close> that occur.\<close>

datatype vm_value = V_Int int | V_Address address | V_Hash hash | V_Nil

record instruction =
  in_Opcode :: string
  in_Args :: "vm_value list"

record vm =
  vm_gas :: u64
  vm_stack :: "vm_value list"
  vm_storage :: "hash \<Rightarrow> vm_value option"

datatype vm_error =
    Invalid_Transaction tx_error | Insufficient_Gas | Insufficient_Balance | Context_Done
  | Bad_Hardcoded_Address addr_error | Bad_Arguments | Stack_Underflow | Need_Big_Int | Need_Hash_Key
  | Unknown_Opcode string | Out_Of_Gas | Nil_Recipient_Panic | Nil_Value_Panic

definition NewVM :: "u64 \<Rightarrow> vm" where
  "NewVM gasLimit = \<lparr>vm_gas = gasLimit, vm_stack = [], vm_storage = \<lambda>_. None\<rparr>"

definition canTransfer :: "'d kv_ops \<Rightarrow> 'd \<Rightarrow> address \<Rightarrow> int \<Rightarrow> bool" where
  "canTransfer K d from value \<longleftrightarrow> GetBalance K d from \<ge> value"

definition transfer :: "'d kv_ops \<Rightarrow> 'd \<Rightarrow> address \<Rightarrow> address \<Rightarrow> int \<Rightarrow> 'd" where
  "transfer K d from to value =
     (if value = 0 then d
      else let d1 = or_unchanged d (AddBalance K d from (- value))
           in or_unchanged d1 (AddBalance K d1 to value))"

text \<open>The check after the switch, \<open>v.gas < 0\<close> on a \<open>uint64\<close>.\<close>

definition gas_check :: "vm \<Rightarrow> 'd \<Rightarrow> vm_error + (vm \<times> 'd)" where
  "gas_check v d = (if vm_gas v < 0 then Inl Out_Of_Gas else Inr (v, d))"

definition arith_op :: "(int \<Rightarrow> int \<Rightarrow> int) \<Rightarrow> vm \<Rightarrow> 'd \<Rightarrow> vm_error + (vm \<times> 'd)" where
  "arith_op f v d =
     (let st = vm_stack v; n = length st
      in if n < 2 then Inl Stack_Underflow
         else case (st ! (n - 2), st ! (n - 1)) of
           (V_Int a, V_Int b) \<Rightarrow>
             gas_check (v\<lparr>vm_stack := take (n - 2) st @ [V_Int (f a b)], vm_gas := vm_gas v - 200\<rparr>) d
         | _ \<Rightarrow> Inl Need_Big_Int)"

definition executeInstruction :: "'d kv_ops \<Rightarrow> vm \<Rightarrow> 'd \<Rightarrow> instruction \<Rightarrow> vm_error + (vm \<times> 'd)" where
  "executeInstruction K v d i =
     (let op = in_Opcode i; args = in_Args i; st = vm_stack v
      in if op = ''PUSH'' then
           (if length args \<noteq> 1 then Inl Bad_Arguments
            else gas_check (v\<lparr>vm_stack := st @ [args ! 0], vm_gas := vm_gas v - 100\<rparr>) d)
         else if op = ''POP'' then
           (if length st = 0 then Inl Stack_Underflow
            else gas_check (v\<lparr>vm_stack := butlast st, vm_gas := vm_gas v - 50\<rparr>) d)
         else if op = ''ADD'' then arith_op (+) v d
         else if op = ''SUB'' then arith_op (-) v d
         else if op = ''STORE'' then
           (if length st = 0 \<or> length args \<noteq> 1 then Inl Bad_Arguments
            else case args ! 0 of
              V_Hash key \<Rightarrow> gas_check (v\<lparr>vm_storage := (vm_storage v)(key \<mapsto> last st),
                                          vm_stack := butlast st, vm_gas := vm_gas v - 1000\<rparr>) d
            | _ \<Rightarrow> Inl Need_Hash_Key)
         else if op = ''LOAD'' then
           (if length args \<noteq> 1 then Inl Bad_Arguments
            else case args ! 0 of
              V_Hash key \<Rightarrow>
                gas_check (v\<lparr>vm_stack := st @ [case vm_storage v key of None \<Rightarrow> V_Nil | Some x \<Rightarrow> x],
                             vm_gas := vm_gas v - 800\<rparr>) d
            | _ \<Rightarrow> Inl Need_Hash_Key)
         else if op = ''TRANSFER'' then
           (if length args \<noteq> 2 then Inl Bad_Arguments
            else case (args ! 0, args ! 1) of
              (V_Address to, V_Int amount) \<Rightarrow>
                if \<not> canTransfer K d zero_address amount then Inl Insufficient_Balance
                else gas_check (v\<lparr>vm_gas := vm_gas v - 21000\<rparr>) (transfer K d zero_address to amount)
            | _ \<Rightarrow> Inl Bad_Arguments)
         else if op = ''HALT'' then Inr (v, d)
         else Inl (Unknown_Opcode op))"

text \<open>The code is a placeholder: the data of the transaction is not looked at.\<close>

definition parseInstructions :: "crypto \<Rightarrow> bytes \<Rightarrow> addr_error + instruction list" where
  "parseInstructions C data =
     (case ParseQuantumAddress C ''0qANA3c85k94LTyTXLGDdEzmLE32b1qhYZF'' of
        Inl e \<Rightarrow> Inl e
      | Inr addr \<Rightarrow> Inr
         [\<lparr>in_Opcode = ''PUSH'', in_Args = [V_Int 100]\<rparr>,
          \<lparr>in_Opcode = ''TRANSFER'', in_Args = [V_Address addr, V_Int 50]\<rparr>])"

text \<open>
  The loop over the instructions; \<open>ctxDone i\<close> is whether the context is done before the
  \<open>i\<close>th. Machine and state are returned with an error too, as they were before the failing
  instruction.
\<close>

fun run_instructions ::
    "'d kv_ops \<Rightarrow> (nat \<Rightarrow> bool) \<Rightarrow> nat \<Rightarrow> instruction list \<Rightarrow> vm \<Rightarrow> 'd \<Rightarrow> vm_error option \<times> vm \<times> 'd" where
  "run_instructions K ctxDone n [] v d = (None, v, d)"
| "run_instructions K ctxDone n (i # is) v d =
     (if ctxDone n then (Some Context_Done, v, d)
      else case executeInstruction K v d i of
        Inl e \<Rightarrow> (Some e, v, d)
      | Inr (v', d') \<Rightarrow> run_instructions K ctxDone (n + 1) is v' d')"

text \<open>The result or error, the gas used, the machine and the state.\<close>

definition Execute ::
    "'d kv_ops \<Rightarrow> crypto \<Rightarrow> (bytes \<Rightarrow> hash) \<Rightarrow> (nat \<Rightarrow> bool) \<Rightarrow> vm \<Rightarrow> 'd \<Rightarrow> tx
     \<Rightarrow> (vm_error + bytes) \<times> u64 \<times> vm \<times> 'd" where
  "Execute K C sha256 ctxDone v d t =
     (case Validate_Tx t of
        Inl e \<Rightarrow> (Inl (Invalid_Transaction e), 0, v, d)
      | Inr _ \<Rightarrow>
          if vm_gas v < 21000 then (Inl Insufficient_Gas, 21000, v, d)
          else
            let v1 = v\<lparr>vm_gas := vm_gas v - 21000\<rparr>
            in if tx_Data t = [] then
                 let from = BytesToQuantumAddress (Address_Bytes (tx_From t))
                 in case tx_Value t of
                      None \<Rightarrow> (Inl Nil_Value_Panic, 21000, v1, d)
                    | Some value \<Rightarrow>
                        if \<not> canTransfer K d from value then (Inl Insufficient_Balance, 21000, v1, d)
                        else (case tx_To t of
                            None \<Rightarrow> (Inl Nil_Recipient_Panic, 21000, v1, d)
                          | Some to \<Rightarrow>
                              let d1 = transfer K d from (BytesToQuantumAddress (Address_Bytes to)) value;
                                  d2 = or_unchanged d1 (SetNonce K d1 from (tx_Nonce t + 1))
                              in (Inr (Hash_Bytes (State_Root K sha256 d2)), 21000, v1, d2))
               else (case parseInstructions C (tx_Data t) of
                   Inl e \<Rightarrow> (Inl (Bad_Hardcoded_Address e), 21000, v1, d)
                 | Inr instructions \<Rightarrow>
                     (case run_instructions K ctxDone 0 instructions v1 d of
                        (Some e, v2, d2) \<Rightarrow> (Inl e, 21000, v2, d2)
                      | (None, v2, d2) \<Rightarrow> (Inr (Hash_Bytes (State_Root K sha256 d2)), 21000, v2, d2))))"

section \<open>Effects on the ledger\<close>

lemma gas_check_Inr [simp]: "gas_check v d = Inr (v, d)"
  by (simp add: gas_check_def)

context kv_reliable begin

lemma total_vm_transfer:
  assumes "0 \<le> value" and "canTransfer K d from value"
  shows "ledger_total (GetBalance K (transfer K d from to value)) = ledger_total (GetBalance K d)"
  using assms ledger.total_transfer [of "value" d "from" to]
  by (simp add: transfer_def canTransfer_def Let_def)

lemma balance_vm_transfer:
  assumes "0 \<le> value" and "canTransfer K d from value"
  shows "GetBalance K (transfer K d from to value) =
    (let f = (GetBalance K d)(from := GetBalance K d from - value) in f(to := f to + value))"
  using assms ledger.bal_transfer [of "value" d "from" to]
  by (simp add: transfer_def canTransfer_def Let_def)

lemma nonce_or_unchanged_add:
  "GetNonce K (or_unchanged d (AddBalance K d a v)) = GetNonce K d"
  using AddBalance_Inr(2) [of d a v] by (cases "AddBalance K d a v") simp_all

lemma nonce_vm_transfer: "GetNonce K (transfer K d from to value) = GetNonce K d"
  by (simp add: transfer_def Let_def nonce_or_unchanged_add)

lemma SetNonce_or_unchanged:
  "GetBalance K (or_unchanged d (SetNonce K d a n)) = GetBalance K d"
  "GetNonce K (or_unchanged d (SetNonce K d a n)) = (GetNonce K d)(a := Some n)"
  using SetNonce_succeeds [of d a n] SetNonce_Inr [of d a n] by auto

end

text \<open>What the two hard-wired instructions do.\<close>

lemma run_two:
  "run_instructions K ctxDone 0
      [\<lparr>in_Opcode = ''PUSH'', in_Args = [V_Int 100]\<rparr>,
       \<lparr>in_Opcode = ''TRANSFER'', in_Args = [V_Address king, V_Int 50]\<rparr>] v d =
   (let v1 = v\<lparr>vm_stack := vm_stack v @ [V_Int 100], vm_gas := vm_gas v - 100\<rparr>
    in if ctxDone 0 then (Some Context_Done, v, d)
       else if ctxDone 1 then (Some Context_Done, v1, d)
       else if \<not> canTransfer K d zero_address 50 then (Some Insufficient_Balance, v1, d)
       else (None, v1\<lparr>vm_gas := vm_gas v - 100 - 21000\<rparr>, transfer K d zero_address king 50))"
  by (simp add: executeInstruction_def Let_def)

definition exec_vm :: "'r \<times> u64 \<times> vm \<times> 'd \<Rightarrow> vm" where
  "exec_vm r = fst (snd (snd r))"

definition exec_state :: "'r \<times> u64 \<times> vm \<times> 'd \<Rightarrow> 'd" where
  "exec_state r = snd (snd (snd r))"

lemma exec_sel [simp]: "exec_vm (a, g, v, d) = v" "exec_state (a, g, v, d) = d"
  by (simp_all add: exec_vm_def exec_state_def)

text \<open>A transaction without data: what a run that returns a root has checked and done.\<close>

lemma Execute_transfer:
  assumes "fst (Execute K C sha256 ctxDone v d t) = Inr ret" and "tx_Data t = []"
  obtains to "value" where "tx_To t = Some to" and "tx_Value t = Some value" and "0 < value"
    and "canTransfer K d (tx_From t) value" and "21000 \<le> vm_gas v"
    and "exec_vm (Execute K C sha256 ctxDone v d t) = v\<lparr>vm_gas := vm_gas v - 21000\<rparr>"
    and "exec_state (Execute K C sha256 ctxDone v d t) =
      or_unchanged (transfer K d (tx_From t) to value)
        (SetNonce K (transfer K d (tx_From t) to value) (tx_From t) (tx_Nonce t + 1))"
    and "ret = Hash_Bytes (State_Root K sha256 (exec_state (Execute K C sha256 ctxDone v d t)))"
  using assms
  by (auto simp: Execute_def Let_def Validate_Tx_Inr split: sum.splits if_splits option.splits)

lemma Execute_contract_cases:
  assumes "Validate_Tx t = Inr ()" and "21000 \<le> vm_gas v" and "tx_Data t \<noteq> []"
    and "ParseQuantumAddress C ''0qANA3c85k94LTyTXLGDdEzmLE32b1qhYZF'' = Inr king"
  shows "Execute K C sha256 ctxDone v d t =
    (let v1 = v\<lparr>vm_gas := vm_gas v - 21000\<rparr>;
         v2 = v1\<lparr>vm_stack := vm_stack v @ [V_Int 100], vm_gas := vm_gas v - 21000 - 100\<rparr>;
         d' = transfer K d zero_address king 50
     in if ctxDone 0 then (Inl Context_Done, 21000, v1, d)
        else if ctxDone 1 then (Inl Context_Done, 21000, v2, d)
        else if \<not> canTransfer K d zero_address 50 then (Inl Insufficient_Balance, 21000, v2, d)
        else (Inr (Hash_Bytes (State_Root K sha256 d')), 21000, v2\<lparr>vm_gas := vm_gas v - 21000 - 100 - 21000\<rparr>, d'))"
proof -
  have p: "parseInstructions C (tx_Data t) =
      Inr [\<lparr>in_Opcode = ''PUSH'', in_Args = [V_Int 100]\<rparr>,
          \<lparr>in_Opcode = ''TRANSFER'', in_Args = [V_Address king, V_Int 50]\<rparr>]"
    by (simp add: parseInstructions_def assms(4))
  have "\<not> vm_gas v < 21000" using assms(2) by simp
  then show ?thesis
    by (simp add: Execute_def assms p run_two Let_def del: run_instructions.simps)
qed

lemma Execute_contract:
  assumes "fst (Execute K C sha256 ctxDone v d t) = Inr ret" and "tx_Data t \<noteq> []"
  obtains king where "ParseQuantumAddress C ''0qANA3c85k94LTyTXLGDdEzmLE32b1qhYZF'' = Inr king"
    and "canTransfer K d zero_address 50" and "21000 \<le> vm_gas v"
    and "vm_gas (exec_vm (Execute K C sha256 ctxDone v d t)) = vm_gas v - 42100"
    and "exec_state (Execute K C sha256 ctxDone v d t) = transfer K d zero_address king 50"
proof -
  from assms have val: "Validate_Tx t = Inr ()" and gas: "21000 \<le> vm_gas v"
    by (auto simp: Execute_def split: sum.splits if_splits)
  obtain king where king: "ParseQuantumAddress C ''0qANA3c85k94LTyTXLGDdEzmLE32b1qhYZF'' = Inr king"
  proof (cases "ParseQuantumAddress C ''0qANA3c85k94LTyTXLGDdEzmLE32b1qhYZF''")
    case (Inl e)
    with assms val gas have False by (simp add: Execute_def parseInstructions_def Let_def split: if_splits)
    then show ?thesis ..
  qed (rule that)
  note run = Execute_contract_cases [OF val gas assms(2) king, of K sha256 ctxDone d, unfolded Let_def]
  have "\<not> ctxDone 0" "\<not> ctxDone 1" "canTransfer K d zero_address 50"
    using assms(1) unfolding run by (auto split: if_splits)
  with that [OF king] gas show thesis by (simp add: run)
qed

lemma Execute_error_state:
  assumes "fst (Execute K C sha256 ctxDone v d t) = Inl e"
  shows "exec_state (Execute K C sha256 ctxDone v d t) = d"
proof (cases "Validate_Tx t = Inr () \<and> 21000 \<le> vm_gas v \<and> tx_Data t \<noteq> []
    \<and> (\<exists>king. ParseQuantumAddress C ''0qANA3c85k94LTyTXLGDdEzmLE32b1qhYZF'' = Inr king)")
  case True
  then obtain king where king: "ParseQuantumAddress C ''0qANA3c85k94LTyTXLGDdEzmLE32b1qhYZF'' = Inr king" by blast
  with True have run: "Execute K C sha256 ctxDone v d t =
      (let v1 = v\<lparr>vm_gas := vm_gas v - 21000\<rparr>;
         v2 = v1\<lparr>vm_stack := vm_stack v @ [V_Int 100], vm_gas := vm_gas v - 21000 - 100\<rparr>;
         d' = transfer K d zero_address king 50
     in if ctxDone 0 then (Inl Context_Done, 21000, v1, d)
        else if ctxDone 1 then (Inl Context_Done, 21000, v2, d)
        else if \<not> canTransfer K d zero_address 50 then (Inl Insufficient_Balance, 21000, v2, d)
        else (Inr (Hash_Bytes (State_Root K sha256 d')), 21000, v2\<lparr>vm_gas := vm_gas v - 21000 - 100 - 21000\<rparr>, d'))"
    by (intro Execute_contract_cases) simp_all
  show ?thesis
    using assms unfolding run Let_def by (auto split: if_splits)
next
  case False
  with assms show ?thesis
    by (auto simp: Execute_def Let_def parseInstructions_def split: sum.splits if_splits option.splits)
qed

context kv_reliable begin

lemma Execute_total:
  "ledger_total (GetBalance K (exec_state (Execute K C sha256 ctxDone v d t))) = ledger_total (GetBalance K d)"
proof (cases "fst (Execute K C sha256 ctxDone v d t)")
  case (Inl e)
  then show ?thesis by (simp add: Execute_error_state)
next
  case (Inr ret)
  show ?thesis
  proof (cases "tx_Data t = []")
    case True
    obtain to "value" where "0 < value" and can: "canTransfer K d (tx_From t) value"
      and st: "exec_state (Execute K C sha256 ctxDone v d t) =
        or_unchanged (transfer K d (tx_From t) to value)
          (SetNonce K (transfer K d (tx_From t) to value) (tx_From t) (tx_Nonce t + 1))"
      using Execute_transfer [OF Inr True] by metis
    have "0 \<le> value" using \<open>0 < value\<close> by simp
    then show ?thesis
      unfolding st SetNonce_or_unchanged(1)
      by (rule total_vm_transfer [OF _ can])
  next
    case False
    obtain king where can: "canTransfer K d zero_address 50"
      and st: "exec_state (Execute K C sha256 ctxDone v d t) = transfer K d zero_address king 50"
      using Execute_contract [OF Inr False] by metis
    show ?thesis
      unfolding st by (rule total_vm_transfer [OF _ can]) simp
  qed
qed

end

section \<open>Properties\<close>

text \<open>
  Running a transaction, whatever it contains and however it ends, leaves the sum of all
  balances as it was; and if it ends with an error it changes no account at all.
\<close>

theorem execution_conserves_supply:
  assumes "kv_reliable K"
  shows "ledger_total (GetBalance K (exec_state (Execute K C sha256 ctxDone v d t))) = ledger_total (GetBalance K d)
    \<and> (case fst (Execute K C sha256 ctxDone v d t) of
         Inl _ \<Rightarrow> exec_state (Execute K C sha256 ctxDone v d t) = d
       | Inr ret \<Rightarrow> ret = Hash_Bytes (State_Root K sha256 (exec_state (Execute K C sha256 ctxDone v d t))))"
proof (cases "fst (Execute K C sha256 ctxDone v d t)")
  case (Inl e)
  then show ?thesis by (simp add: Execute_error_state)
next
  case (Inr ret)
  then have "ret = Hash_Bytes (State_Root K sha256 (exec_state (Execute K C sha256 ctxDone v d t)))"
    by (auto simp: Execute_def Let_def split: sum.splits if_splits option.splits prod.splits)
  then show ?thesis by (simp add: Inr kv_reliable.Execute_total [OF assms])
qed

definition sample_machine :: vm where
  "sample_machine = NewVM 21000"

theorem execution_conserves_supply_witness:
  "ledger_total (GetBalance map_kv
     (exec_state (Execute map_kv toy_crypto (\<lambda>_. 9) (\<lambda>_. False) sample_machine sample_state sample_tx))) =
   ledger_total (GetBalance map_kv sample_state)"
  using execution_conserves_supply [OF mkv.kv_reliable_axioms, of toy_crypto "\<lambda>_. 9" "\<lambda>_. False"
      sample_machine sample_state sample_tx] by blast

text \<open>
  A successful transfer moves exactly its positive value from the sender, who owned it, to
  the recipient, sets the sender's nonce to the next one, leaves all other accounts alone and
  uses 21000 of the machine's gas.
\<close>

theorem transfer_effect:
  assumes "kv_reliable K" and "fst (Execute K C sha256 ctxDone v d t) = Inr ret" and "tx_Data t = []"
  shows "\<exists>to value. tx_To t = Some to \<and> tx_Value t = Some value
    \<and> 0 < value \<and> value \<le> GetBalance K d (tx_From t)
    \<and> GetBalance K (exec_state (Execute K C sha256 ctxDone v d t)) =
        (if to = tx_From t then GetBalance K d
         else (GetBalance K d)(tx_From t := GetBalance K d (tx_From t) - value, to := GetBalance K d to + value))
    \<and> GetNonce K (exec_state (Execute K C sha256 ctxDone v d t)) = (GetNonce K d)(tx_From t := Some (tx_Nonce t + 1))
    \<and> 21000 \<le> vm_gas v
    \<and> vm_gas (exec_vm (Execute K C sha256 ctxDone v d t)) = vm_gas v - 21000"
  using assms(2,3)
proof (elim Execute_transfer)
  fix to "value"
  assume "tx_To t = Some to" "tx_Value t = Some value" "0 < value"
    and can: "canTransfer K d (tx_From t) value" and "21000 \<le> vm_gas v"
    and vm: "exec_vm (Execute K C sha256 ctxDone v d t) = v\<lparr>vm_gas := vm_gas v - 21000\<rparr>"
    and st: "exec_state (Execute K C sha256 ctxDone v d t) =
      or_unchanged (transfer K d (tx_From t) to value)
        (SetNonce K (transfer K d (tx_From t) to value) (tx_From t) (tx_Nonce t + 1))"
  then show ?thesis
    using kv_reliable.balance_vm_transfer [OF assms(1) _ can, of to] can
    by (intro exI [of _ to] exI [of _ "value"])
      (auto simp: kv_reliable.SetNonce_or_unchanged [OF assms(1)] kv_reliable.nonce_vm_transfer [OF assms(1)]
        canTransfer_def Let_def fun_eq_iff)
qed

lemma sample_transfer_runs:
  "\<exists>ret. fst (Execute map_kv toy_crypto sha (\<lambda>_. False) sample_machine
      (DAList.update (balance_key 0) (big_bytes 600) DAList.empty) sample_tx) = Inr ret"
proof -
  have "GetBalance map_kv (DAList.update (balance_key 0) (big_bytes 600) DAList.empty) 0 = 600"
    by (simp add: GetBalance_def map_kv_def)
  moreover have "tx_Data sample_tx = []" "tx_From sample_tx = 0" "tx_Value sample_tx = Some 515" "tx_To sample_tx = Some 5"
    by (simp_all add: sample_tx_def)
  ultimately show ?thesis
    by (simp add: Execute_def sample_tx_ok canTransfer_def Let_def sample_machine_def NewVM_def)
qed

theorem transfer_effect_witness:
  "GetBalance map_kv (exec_state (Execute map_kv toy_crypto (\<lambda>_. 9) (\<lambda>_. False) sample_machine
      (DAList.update (balance_key 0) (big_bytes 600) DAList.empty) sample_tx)) 5 = 515"
proof -
  obtain ret where "fst (Execute map_kv toy_crypto (\<lambda>_. 9) (\<lambda>_. False) sample_machine
      (DAList.update (balance_key 0) (big_bytes 600) DAList.empty) sample_tx) = Inr ret"
    using sample_transfer_runs by blast
  moreover have "GetBalance map_kv (DAList.update (balance_key 0) (big_bytes 600) DAList.empty) 5 = 0"
    by (simp add: GetBalance_def map_kv_def lookup_update)
  moreover have "tx_From sample_tx = 0" "tx_Value sample_tx = Some 515" "tx_To sample_tx = Some 5" "tx_Data sample_tx = []"
    by (simp_all add: sample_tx_def)
  ultimately show ?thesis
    using transfer_effect [OF mkv.kv_reliable_axioms, of toy_crypto "\<lambda>_. 9" "\<lambda>_. False" sample_machine
        "DAList.update (balance_key 0) (big_bytes 600) DAList.empty" sample_tx ret]
    by simp
qed

text \<open>
  A data-carrying transaction never runs out of gas: once past the check for 21000, its
  two hard-wired instructions take another 21100 from the gas, and the unsigned subtraction
  wraps instead of failing. It moves 50 units from the zero address to the fixed address
  whatever its value, recipient and data are, and does not advance the sender's nonce, so the
  same transaction can run again.
\<close>

theorem contract_effect:
  assumes "kv_reliable K" and "tx_Data t \<noteq> []" and "Validate_Tx t = Inr ()" and "21000 \<le> vm_gas v"
    and "ParseQuantumAddress C ''0qANA3c85k94LTyTXLGDdEzmLE32b1qhYZF'' = Inr king"
    and "50 \<le> GetBalance K d 0"
  shows "fst (Execute K C sha256 (\<lambda>_. False) v d t) =
      Inr (Hash_Bytes (State_Root K sha256 (transfer K d 0 king 50)))
    \<and> vm_gas (exec_vm (Execute K C sha256 (\<lambda>_. False) v d t)) = vm_gas v - 42100
    \<and> GetNonce K (exec_state (Execute K C sha256 (\<lambda>_. False) v d t)) = GetNonce K d
    \<and> GetBalance K (exec_state (Execute K C sha256 (\<lambda>_. False) v d t)) =
        (if king = 0 then GetBalance K d
         else (GetBalance K d)(0 := GetBalance K d 0 - 50, king := GetBalance K d king + 50))"
proof -
  have can: "canTransfer K d 0 50" using assms(6) by (simp add: canTransfer_def)
  note run = Execute_contract_cases [OF assms(3,4,2,5), of K sha256 "\<lambda>_. False" d, unfolded Let_def zero_address_def]
  show ?thesis
    using kv_reliable.balance_vm_transfer [OF assms(1) _ can, of king] can
    by (auto simp: run kv_reliable.nonce_vm_transfer [OF assms(1)] Let_def fun_eq_iff)
qed

definition contract_crypto :: crypto where
  "contract_crypto = toy_crypto\<lparr>sha3 := \<lambda>_. 0, base58_decode := \<lambda>_. Some (replicate 20 1 @ replicate 4 0)\<rparr>"

theorem contract_effect_witness:
  "\<exists>d. vm_gas (exec_vm (Execute map_kv contract_crypto (\<lambda>_. 9) (\<lambda>_. False) sample_machine d
      (sample_tx\<lparr>tx_Data := [1]\<rparr>))) = 18446744073709530516"
proof -
  have "be_bytes k 0 = replicate k (0::u8)" for k
    by (induction k) (simp_all add: replicate_append_same)
  then have "addressChecksum contract_crypto p = replicate 4 0" for p
    by (simp add: addressChecksum_def contract_crypto_def Hash_Bytes_def word_bytes_def)
  then obtain king where king: "ParseQuantumAddress contract_crypto ''0qANA3c85k94LTyTXLGDdEzmLE32b1qhYZF'' = Inr king"
    by (simp add: ParseQuantumAddress_def ExtractPayload_def AddressPrefix_def
        NewQuantumAddressFromBytes_def contract_crypto_def)
  let ?d = "DAList.update (balance_key 0) (big_bytes 600) DAList.empty"
  have "GetBalance map_kv ?d 0 = 600" by (simp add: GetBalance_def map_kv_def)
  moreover have "Validate_Tx (sample_tx\<lparr>tx_Data := [1]\<rparr>) = Inr ()"
    using sample_tx_ok(1) by (simp add: Validate_Tx_Inr)
  moreover have "tx_Data (sample_tx\<lparr>tx_Data := [1]\<rparr>) \<noteq> []" by simp
  moreover have "21000 \<le> vm_gas sample_machine" by (simp add: sample_machine_def NewVM_def)
  ultimately have "vm_gas (exec_vm (Execute map_kv contract_crypto (\<lambda>_. 9) (\<lambda>_. False) sample_machine ?d
      (sample_tx\<lparr>tx_Data := [1]\<rparr>))) = vm_gas sample_machine - 42100"
    using contract_effect [OF mkv.kv_reliable_axioms _ _ _ king, of "sample_tx\<lparr>tx_Data := [1]\<rparr>" sample_machine ?d "\<lambda>_. 9"]
    by simp
  also have "\<dots> = 18446744073709530516" by (simp add: sample_machine_def NewVM_def)
  finally show ?thesis by blast
qed

end
