(* ===== verification/Distribution.thy ===== *)
theory Distribution
  imports Reward_Schedule Account_State
begin

text \<open>
  Distribution of the block reward and the fees among miner, main king and rotating king
  (\<open>DistributeRewards\<close> in \<open>antdc/reward/reward.go\<close>). The king manager's current king is an
  argument, \<open>None\<close> for a nil manager, and the call that records the king's share is part of
  the result. The inflation rate, a floating-point figure for the logs, is left out.
\<close>

record reward_distribution =
  rd_BlockNumber :: u64
  rd_Miner :: address
  rd_TotalReward :: int
  rd_MinerReward :: int
  rd_MainKingReward :: int
  rd_RotatingKingReward :: int
  rd_MainKingAddress :: address
  rd_RotatingKingAddress :: address
  rd_RotatingKingEligible :: bool
  rd_HalvingInfo :: halving_info

datatype reward_error = No_King_Manager | No_Pos_Engine

text \<open>The split into 50, 20 and 130 of 200 parts: miner, main king, rotating king.\<close>

definition split_reward :: "int \<Rightarrow> bool \<Rightarrow> int \<times> int \<times> int" where
  "split_reward totalReward rotatingEligible =
     (let minerReward = totalReward * 50 div 200;
          mainReward = totalReward * 20 div 200;
          rotReward = (if rotatingEligible then totalReward * 130 div 200 else 0);
          mainReward = (if rotatingEligible then mainReward else mainReward + totalReward * 130 div 200);
          remainder = totalReward - (minerReward + mainReward + rotReward)
      in if remainder > 0 then
           (if rotatingEligible then (minerReward, mainReward, rotReward + remainder)
            else (minerReward, mainReward + remainder, rotReward))
         else (minerReward, mainReward, rotReward))"

text \<open>The credits, with their errors ignored.\<close>

definition pay_rewards ::
    "'d kv_ops \<Rightarrow> 'd \<Rightarrow> address \<Rightarrow> address \<Rightarrow> address \<Rightarrow> int \<Rightarrow> int \<Rightarrow> int \<Rightarrow> bool \<Rightarrow> 'd" where
  "pay_rewards K d miner mainKing king minerReward mainReward rotReward pay =
     (let d1 = or_unchanged d (AddBalance K d miner minerReward);
          d2 = or_unchanged d1 (AddBalance K d1 mainKing mainReward)
      in if pay then or_unchanged d2 (AddBalance K d2 king rotReward) else d2)"

definition DistributeRewards ::
    "'d kv_ops \<Rightarrow> 'd \<Rightarrow> address \<Rightarrow> address \<Rightarrow> int option \<Rightarrow> u64 \<Rightarrow> address option \<Rightarrow> bool
     \<Rightarrow> reward_error + (reward_distribution \<times> 'd \<times> (address \<times> int \<times> u64) option)" where
  "DistributeRewards K d mainKing miner transactionFees blockNumber rkManager posEngine =
     (case rkManager of
        None \<Rightarrow> Inl No_King_Manager
      | Some currentRotatingKing \<Rightarrow>
          if \<not> posEngine then Inl No_Pos_Engine
          else
            let blockReward = CalculateBlockReward blockNumber;
                halvingInfo = GetNextHalvingInfo blockNumber;
                totalReward = (case transactionFees of
                    Some fees \<Rightarrow> if fees > 0 then blockReward + fees else blockReward
                  | None \<Rightarrow> blockReward)
            in if totalReward = 0 then
                 Inr (\<lparr>rd_BlockNumber = blockNumber, rd_Miner = miner, rd_TotalReward = 0,
                       rd_MinerReward = 0, rd_MainKingReward = 0, rd_RotatingKingReward = 0,
                       rd_MainKingAddress = mainKing, rd_RotatingKingAddress = zero_address,
                       rd_RotatingKingEligible = False, rd_HalvingInfo = halvingInfo\<rparr>, d, None)
               else
                 let rotatingEligible = (currentRotatingKing \<noteq> zero_address
                       \<and> GetBalance K d currentRotatingKing \<ge> eligibilityThreshold);
                     (minerReward, mainReward, rotReward) = split_reward totalReward rotatingEligible;
                     pay = (rotatingEligible \<and> rotReward > 0);
                     d' = pay_rewards K d miner mainKing currentRotatingKing minerReward mainReward rotReward pay
                 in Inr (\<lparr>rd_BlockNumber = blockNumber, rd_Miner = miner, rd_TotalReward = totalReward,
                       rd_MinerReward = minerReward, rd_MainKingReward = mainReward,
                       rd_RotatingKingReward = rotReward, rd_MainKingAddress = mainKing,
                       rd_RotatingKingAddress = currentRotatingKing,
                       rd_RotatingKingEligible = rotatingEligible, rd_HalvingInfo = halvingInfo\<rparr>, d',
                       if pay then Some (currentRotatingKing, rotReward, blockNumber) else None))"

section \<open>The split\<close>

lemma split_reward_exact:
  assumes "0 \<le> t" and "split_reward t e = (m, k, r)"
  shows "m + k + r = t" and "m = t div 4" and "0 \<le> m" and "0 \<le> k" and "0 \<le> r"
    and "e \<Longrightarrow> k = t div 10 \<and> t * 13 div 20 \<le> r \<and> r \<le> t * 13 div 20 + 2" and "\<not> e \<Longrightarrow> r = 0"
proof -
  have m: "t * 50 div 200 = t div 4" and k: "t * 20 div 200 = t div 10" and r: "t * 130 div 200 = t * 13 div 20"
    using div_mult_mult2 [of 50 t 4] div_mult_mult2 [of 20 t 10] div_mult_mult2 [of 10 "t * 13" 20]
    by simp_all
  have "t = 4 * (t div 4) + t mod 4" "t = 10 * (t div 10) + t mod 10" "t * 13 = 20 * (t * 13 div 20) + t * 13 mod 20"
    by simp_all
  moreover have "0 \<le> t mod 4" "t mod 4 < 4" "0 \<le> t mod 10" "t mod 10 < 10" "0 \<le> t * 13 mod 20" "t * 13 mod 20 < 20"
    by simp_all
  ultimately have sum: "t div 4 + t div 10 + t * 13 div 20 \<le> t" "t \<le> t div 4 + t div 10 + t * 13 div 20 + 2"
    by linarith+
  have pos: "0 \<le> t div 4" "0 \<le> t div 10" "0 \<le> t * 13 div 20"
    using assms(1) by simp_all
  note eqs = assms(2) [unfolded split_reward_def Let_def m k r]
  show "m + k + r = t" "m = t div 4" "0 \<le> m" "0 \<le> k" "0 \<le> r"
    "e \<Longrightarrow> k = t div 10 \<and> t * 13 div 20 \<le> r \<and> r \<le> t * 13 div 20 + 2" "\<not> e \<Longrightarrow> r = 0"
    using eqs sum pos by (auto split: if_splits)
qed

lemma block_reward_nonneg: "0 \<le> CalculateBlockReward n"
  by (simp add: CalculateBlockReward_closed schedule_reward_def)

text \<open>The amount that \<open>a\<close> gets of the three shares.\<close>

definition share :: "reward_distribution \<Rightarrow> address \<Rightarrow> int" where
  "share r a =
     (if a = rd_Miner r then rd_MinerReward r else 0)
     + (if a = rd_MainKingAddress r then rd_MainKingReward r else 0)
     + (if a = rd_RotatingKingAddress r then rd_RotatingKingReward r else 0)"

context kv_reliable begin

lemma credit_balance:
  "0 \<le> v \<Longrightarrow> GetBalance K (or_unchanged d (AddBalance K d a v)) b = GetBalance K d b + (if b = a then v else 0)"
  by (simp add: ledger.bal_credit)

lemma nonce_credit: "GetNonce K (or_unchanged d (AddBalance K d a v)) = GetNonce K d"
  using AddBalance_Inr(2) [of d a v] by (cases "AddBalance K d a v") simp_all

lemma DistributeRewards_Inr:
  assumes "DistributeRewards K d mainKing miner fees n king pos = Inr (r, d', rec)"
  shows "rd_TotalReward r = CalculateBlockReward n + max 0 (case fees of None \<Rightarrow> 0 | Some f \<Rightarrow> f)"
    and "rd_MinerReward r + rd_MainKingReward r + rd_RotatingKingReward r = rd_TotalReward r"
    and "rd_MinerReward r = rd_TotalReward r div 4"
    and "0 \<le> rd_MainKingReward r" and "0 \<le> rd_RotatingKingReward r"
    and "GetBalance K d' a = GetBalance K d a + share r a"
    and "GetNonce K d' = GetNonce K d"
    and "rd_RotatingKingEligible r \<Longrightarrow> rd_MainKingReward r = rd_TotalReward r div 10
        \<and> king = Some (rd_RotatingKingAddress r) \<and> rd_RotatingKingAddress r \<noteq> 0
        \<and> eligibilityThreshold \<le> GetBalance K d (rd_RotatingKingAddress r)"
    and "\<not> rd_RotatingKingEligible r \<Longrightarrow> rd_RotatingKingReward r = 0"
    and "rec = (if rd_RotatingKingReward r > 0 then Some (rd_RotatingKingAddress r, rd_RotatingKingReward r, n) else None)"
proof -
  let ?t = "CalculateBlockReward n + max 0 (case fees of None \<Rightarrow> 0 | Some f \<Rightarrow> f)"
  from assms obtain k where k: "king = Some k" and pos
    by (auto simp: DistributeRewards_def split: option.splits if_splits)
  let ?e = "k \<noteq> zero_address \<and> eligibilityThreshold \<le> GetBalance K d k"
  have t: "(case fees of Some f \<Rightarrow> if 0 < f then CalculateBlockReward n + f else CalculateBlockReward n
      | None \<Rightarrow> CalculateBlockReward n) = ?t"
    by (auto split: option.split)
  have t0: "0 \<le> ?t" using block_reward_nonneg [of n] by simp
  obtain m mk rr where s: "split_reward ?t ?e = (m, mk, rr)" by (metis prod_cases3)
  note ex = split_reward_exact [OF t0 s]
  note def = assms [unfolded DistributeRewards_def k option.case Let_def t]
  have *: "rd_TotalReward r = ?t \<and> rd_MinerReward r + rd_MainKingReward r + rd_RotatingKingReward r = rd_TotalReward r
      \<and> rd_MinerReward r = rd_TotalReward r div 4 \<and> 0 \<le> rd_MainKingReward r \<and> 0 \<le> rd_RotatingKingReward r
      \<and> GetBalance K d' a = GetBalance K d a + share r a \<and> GetNonce K d' = GetNonce K d
      \<and> (rd_RotatingKingEligible r \<longrightarrow> rd_MainKingReward r = rd_TotalReward r div 10
        \<and> king = Some (rd_RotatingKingAddress r) \<and> rd_RotatingKingAddress r \<noteq> 0
        \<and> eligibilityThreshold \<le> GetBalance K d (rd_RotatingKingAddress r))
      \<and> (\<not> rd_RotatingKingEligible r \<longrightarrow> rd_RotatingKingReward r = 0)
      \<and> rec = (if rd_RotatingKingReward r > 0 then Some (rd_RotatingKingAddress r, rd_RotatingKingReward r, n) else None)"
  proof (cases "?t = 0")
    case True
    then show ?thesis using def \<open>pos\<close> by (auto simp: share_def)
  next
    case False
    then have "Inr (r, d', rec) = (Inr
        (\<lparr>rd_BlockNumber = n, rd_Miner = miner, rd_TotalReward = ?t, rd_MinerReward = m, rd_MainKingReward = mk,
          rd_RotatingKingReward = rr, rd_MainKingAddress = mainKing, rd_RotatingKingAddress = k,
          rd_RotatingKingEligible = ?e, rd_HalvingInfo = GetNextHalvingInfo n\<rparr>,
         pay_rewards K d miner mainKing k m mk rr (?e \<and> 0 < rr),
         if ?e \<and> 0 < rr then Some (k, rr, n) else None) :: reward_error + _)"
      using def \<open>pos\<close> by (simp only: s Let_def prod.case if_False not_True_eq_False)
    then have r: "r = \<lparr>rd_BlockNumber = n, rd_Miner = miner, rd_TotalReward = ?t, rd_MinerReward = m,
          rd_MainKingReward = mk, rd_RotatingKingReward = rr, rd_MainKingAddress = mainKing,
          rd_RotatingKingAddress = k, rd_RotatingKingEligible = ?e, rd_HalvingInfo = GetNextHalvingInfo n\<rparr>"
      and d': "d' = pay_rewards K d miner mainKing k m mk rr (?e \<and> 0 < rr)"
      and rec: "rec = (if ?e \<and> 0 < rr then Some (k, rr, n) else None)"
      by simp_all
    have "\<not> (?e \<and> 0 < rr) \<Longrightarrow> rr = 0" using ex(5) ex(7) by linarith
    then have "GetBalance K d' a = GetBalance K d a + share r a" and "GetNonce K d' = GetNonce K d"
      using ex(3-5) by (auto simp: d' r pay_rewards_def share_def Let_def credit_balance nonce_credit)
    moreover have "rec = (if rd_RotatingKingReward r > 0 then Some (rd_RotatingKingAddress r, rd_RotatingKingReward r, n) else None)"
      using ex(7) by (auto simp: rec r)
    moreover have "rd_TotalReward r = ?t"
      and "rd_MinerReward r + rd_MainKingReward r + rd_RotatingKingReward r = rd_TotalReward r"
      and "rd_MinerReward r = rd_TotalReward r div 4"
      and "0 \<le> rd_MainKingReward r" and "0 \<le> rd_RotatingKingReward r"
      and "rd_RotatingKingEligible r \<longrightarrow> rd_MainKingReward r = rd_TotalReward r div 10"
      and "\<not> rd_RotatingKingEligible r \<longrightarrow> rd_RotatingKingReward r = 0"
      unfolding r reward_distribution.select_convs by (rule refl ex(1-5) impI ex(6) [THEN conjunct1] ex(7); assumption?)+
    moreover have "rd_RotatingKingEligible r \<longrightarrow> king = Some (rd_RotatingKingAddress r) \<and> rd_RotatingKingAddress r \<noteq> 0
        \<and> eligibilityThreshold \<le> GetBalance K d (rd_RotatingKingAddress r)"
      unfolding r reward_distribution.select_convs k zero_address_def by blast
    ultimately show ?thesis by blast
  qed
  from * show "rd_TotalReward r = ?t" by blast
  from * show "rd_MinerReward r + rd_MainKingReward r + rd_RotatingKingReward r = rd_TotalReward r" by blast
  from * show "rd_MinerReward r = rd_TotalReward r div 4" by blast
  from * show "0 \<le> rd_MainKingReward r" by blast
  from * show "0 \<le> rd_RotatingKingReward r" by blast
  from * show "GetBalance K d' a = GetBalance K d a + share r a" by blast
  from * show "GetNonce K d' = GetNonce K d" by blast
  from * show "rd_RotatingKingEligible r \<Longrightarrow> rd_MainKingReward r = rd_TotalReward r div 10
        \<and> king = Some (rd_RotatingKingAddress r) \<and> rd_RotatingKingAddress r \<noteq> 0
        \<and> eligibilityThreshold \<le> GetBalance K d (rd_RotatingKingAddress r)" by blast
  from * show "\<not> rd_RotatingKingEligible r \<Longrightarrow> rd_RotatingKingReward r = 0" by blast
  from * show "rec = (if rd_RotatingKingReward r > 0 then Some (rd_RotatingKingAddress r, rd_RotatingKingReward r, n) else None)"
    by blast
qed

end

lemma ledger_total_share:
  "ledger_total (\<lambda>a. b a + share r a) =
     ledger_total b + (rd_MinerReward r + rd_MainKingReward r + rd_RotatingKingReward r)"
  by (simp add: ledger_total_def share_def sum.distrib)

lemma DistributeRewards_returns:
  obtains r d' rec where "DistributeRewards K d mainKing miner fees n (Some king) True = Inr (r, d', rec)"
proof -
  have "\<exists>x. DistributeRewards K d mainKing miner fees n (Some king) True = Inr x"
    by (simp only: DistributeRewards_def option.case Let_def split_beta not_True_eq_False if_False split: if_split) blast
  then show thesis using that by (metis prod_cases3)
qed

text \<open>The resulting state, without the bookkeeping.\<close>

definition total_reward :: "int option \<Rightarrow> u64 \<Rightarrow> int" where
  "total_reward fees n =
     (case fees of Some f \<Rightarrow> if f > 0 then CalculateBlockReward n + f else CalculateBlockReward n
      | None \<Rightarrow> CalculateBlockReward n)"

lemma DistributeRewards_state:
  assumes "DistributeRewards K d mainKing miner fees n king pos = Inr (r, d', rec)"
  shows "\<exists>k. king = Some k \<and> d' = (if total_reward fees n = 0 then d
    else let e = (k \<noteq> zero_address \<and> GetBalance K d k \<ge> eligibilityThreshold)
         in case split_reward (total_reward fees n) e of
              (a, b, c) \<Rightarrow> pay_rewards K d miner mainKing k a b c (e \<and> c > 0))"
proof -
  from assms obtain k where k: "king = Some k" and p: "pos"
    by (auto simp: DistributeRewards_def split: option.splits if_splits)
  have t: "(case fees of Some f \<Rightarrow> if f > 0 then CalculateBlockReward n + f else CalculateBlockReward n
      | None \<Rightarrow> CalculateBlockReward n) = total_reward fees n"
    by (simp add: total_reward_def)
  note def = assms [unfolded DistributeRewards_def k option.case Let_def t]
  show ?thesis
  proof (cases "total_reward fees n = 0")
    case True
    with def p k show ?thesis by simp
  next
    case False
    let ?e = "k \<noteq> zero_address \<and> GetBalance K d k \<ge> eligibilityThreshold"
    obtain a b c where s: "split_reward (total_reward fees n) ?e = (a, b, c)" by (metis prod_cases3)
    from def p False have "d' = pay_rewards K d miner mainKing k a b c (?e \<and> c > 0)"
      by (simp add: s)
    with False k s show ?thesis by (simp add: Let_def)
  qed
qed

section \<open>Properties\<close>

text \<open>
  C18: the reward of a block is the subsidy of the schedule in \<open>reward.go\<close> (200 ANTD before the first
  halving, not the single ANTD of the readme) plus the positive fees, and it is paid out exactly: the miner
  gets a quarter, an eligible rotating king (not the zero address, and holding the threshold before the
  payout) gets the remainder after the main king's tenth, and without one the main king gets the rest (the
  readme promises 90, 5 and 5 percent); each account grows by its shares, nonces stay, and the sum of all
  balances grows by exactly the reward.
\<close>

theorem reward_is_paid_out_exactly:
  assumes "kv_reliable K"
    and "DistributeRewards K d mainKing miner fees n king posEngine = Inr (r, d', rec)"
  shows "rd_TotalReward r = CalculateBlockReward n + max 0 (case fees of None \<Rightarrow> 0 | Some f \<Rightarrow> f)
    \<and> (n < 840960 \<longrightarrow> CalculateBlockReward n = 200 * 10 ^ 18)
    \<and> rd_MinerReward r = rd_TotalReward r div 4
    \<and> rd_MainKingReward r = rd_TotalReward r - rd_MinerReward r - rd_RotatingKingReward r
    \<and> (if rd_RotatingKingEligible r
       then rd_MainKingReward r = rd_TotalReward r div 10 \<and> king = Some (rd_RotatingKingAddress r)
         \<and> eligibilityThreshold \<le> GetBalance K d (rd_RotatingKingAddress r)
       else rd_RotatingKingReward r = 0)
    \<and> GetBalance K d' = (\<lambda>a. GetBalance K d a + share r a)
    \<and> GetNonce K d' = GetNonce K d
    \<and> ledger_total (GetBalance K d') = ledger_total (GetBalance K d) + rd_TotalReward r"
proof -
  note D = kv_reliable.DistributeRewards_Inr [OF assms]
  have bal: "GetBalance K d' = (\<lambda>a. GetBalance K d a + share r a)"
    using D(6) by (simp add: fun_eq_iff)
  then have "ledger_total (GetBalance K d') = ledger_total (GetBalance K d) + rd_TotalReward r"
    by (simp only: ledger_total_share D(2))
  moreover have "rd_MainKingReward r = rd_TotalReward r - rd_MinerReward r - rd_RotatingKingReward r"
    using D(2) by linarith
  moreover have "if rd_RotatingKingEligible r
       then rd_MainKingReward r = rd_TotalReward r div 10 \<and> king = Some (rd_RotatingKingAddress r)
         \<and> eligibilityThreshold \<le> GetBalance K d (rd_RotatingKingAddress r)
       else rd_RotatingKingReward r = 0"
    using D(8,9) by (metis (full_types))
  moreover have "n < 840960 \<longrightarrow> CalculateBlockReward n = 200 * 10 ^ 18"
  proof
    assume "n < 840960"
    then have "unat (n div 840960) = 0" by (simp add: unat_div_distrib word_less_nat_alt)
    then have "n div 840960 = 0" by (simp only: unat_eq_0)
    then show "CalculateBlockReward n = 200 * 10 ^ 18"
      by (simp add: CalculateBlockReward_def initialBlockReward_def oneANTD_def)
  qed
  ultimately show ?thesis using D(1,3,7) bal by blast
qed

theorem reward_is_paid_out_exactly_witness:
  "\<exists>r d' rec. DistributeRewards map_kv sample_state 1 2 (Some 10) 0 (Some 5) True = Inr (r, d', rec)
    \<and> ledger_total (GetBalance map_kv d') = ledger_total (GetBalance map_kv sample_state) + rd_TotalReward r"
proof -
  obtain r d' rec where "DistributeRewards map_kv sample_state 1 2 (Some 10) 0 (Some 5) True = Inr (r, d', rec)"
    by (rule DistributeRewards_returns)
  then show ?thesis
    using reward_is_paid_out_exactly [OF mkv.kv_reliable_axioms] by blast
qed

end
