(* ===== verification/Execution.thy ===== *)
theory Execution
  imports Blocks VM Distribution
begin

text \<open>
  Execution of a block's transactions (\<open>antdc/chain/execution.go\<close>), the maturity rule that
  limits what can be spent (\<open>antdc/chain/maturity.go\<close>), the reward step
  (\<open>antdc/chain/rewards.go\<close>) and the dry run on a clone that predicts the final state root
  (\<open>antdc/chain/templates.go\<close>).

  Blocks of the chain are read through the parameter \<open>blockAt\<close>, \<open>getBlockByNumber\<close> with
  \<open>None\<close> for an error or a nil block. State is returned with errors too: what a failing block
  has written stays written.
\<close>

section \<open>Maturity of received value (maturity.go)\<close>

definition DefaultMinConfirmations :: u64 where "DefaultMinConfirmations = 30"

definition txMaturityConfirmations :: "u64 \<Rightarrow> u64" where
  "txMaturityConfirmations minConfirmations =
     (if minConfirmations > 0 then minConfirmations else DefaultMinConfirmations)"

text \<open>The value that a transaction sends to \<open>addr\<close> from another account.\<close>

definition incoming_value :: "address \<Rightarrow> tx option \<Rightarrow> int" where
  "incoming_value addr transaction =
     (case transaction of
        None \<Rightarrow> 0
      | Some t \<Rightarrow>
          (case (tx_To t, tx_Value t) of
             (Some dest, Some value) \<Rightarrow>
               let to = BytesToQuantumAddress (Address_Bytes dest);
                   from = BytesToQuantumAddress (Address_Bytes (tx_From t))
               in if to = addr \<and> from \<noteq> addr then value else 0
           | _ \<Rightarrow> 0))"

definition block_incoming :: "address \<Rightarrow> block option \<Rightarrow> int" where
  "block_incoming addr blk =
     (case blk of None \<Rightarrow> 0 | Some b \<Rightarrow> (\<Sum>t\<leftarrow>b_Txs b. incoming_value addr t))"

text \<open>
  \<open>None\<close>: the loop \<open>height <= currentHeight\<close> does not end at the largest \<open>uint64\<close>.
\<close>

definition immatureIncomingBalance ::
    "(u64 \<Rightarrow> block option) \<Rightarrow> u64 \<Rightarrow> address \<Rightarrow> u64 \<Rightarrow> (address \<Rightarrow> int option) \<Rightarrow> int option" where
  "immatureIncomingBalance blockAt minConfirmations addr currentHeight pendingIncoming =
     (let immature = (case pendingIncoming addr of None \<Rightarrow> 0 | Some amount \<Rightarrow> amount);
          confirmationsRequired = txMaturityConfirmations minConfirmations
      in if confirmationsRequired \<le> 1 then Some immature
         else if currentHeight = -1 then None
         else
           let lookback = confirmationsRequired - 1;
               startHeight = (if currentHeight > lookback then currentHeight - lookback + 1 else 0)
           in Some (immature + (\<Sum>height\<leftarrow>[unat startHeight..<Suc (unat currentHeight)].
                                  block_incoming addr (blockAt (word_of_nat height)))))"

definition spendableBalanceAtHeight ::
    "'d kv_ops \<Rightarrow> 'd \<Rightarrow> (u64 \<Rightarrow> block option) \<Rightarrow> u64 \<Rightarrow> address \<Rightarrow> u64 \<Rightarrow> (address \<Rightarrow> int option) \<Rightarrow> int option" where
  "spendableBalanceAtHeight K d blockAt minConfirmations addr currentHeight pendingIncoming =
     map_option (\<lambda>immature. let spendable = GetBalance K d addr - immature
                            in if spendable < 0 then 0 else spendable)
       (immatureIncomingBalance blockAt minConfirmations addr currentHeight pendingIncoming)"

section \<open>Executing the transactions of a block\<close>

datatype exec_error =
    Exec_Tx_Nil nat | Exec_Signature nat tx_error | Exec_Nonce nat | Exec_Spendable nat
  | Exec_Failed nat vm_error | Exec_Panic | Exec_Diverges | Exec_Duplicate

text \<open>What the reads of the chain need: its blocks and the confirmation depth.\<close>

record chain_view =
  cv_blockAt :: "u64 \<Rightarrow> block option"
  cv_minConfirmations :: u64

definition transactionCommittedGas :: "tx option \<Rightarrow> u64" where
  "transactionCommittedGas t = (case t of None \<Rightarrow> 0 | Some t \<Rightarrow> tx_Gas t)"

text \<open>\<open>big.NewInt(int64(t.Gas))\<close>: the gas is read as a signed number.\<close>

definition gas_cost :: "tx \<Rightarrow> int option" where
  "gas_cost t = map_option (\<lambda>price. price * sint (tx_Gas t)) (tx_GasPrice t)"

definition validateTransactionForExecutionAtHeight ::
    "'d kv_ops \<Rightarrow> crypto \<Rightarrow> (bytes \<Rightarrow> hash) \<Rightarrow> 'd \<Rightarrow> chain_view \<Rightarrow> tx option \<Rightarrow> nat \<Rightarrow> u64
     \<Rightarrow> (address \<Rightarrow> int option) \<Rightarrow> exec_error + unit" where
  "validateTransactionForExecutionAtHeight K C sha256 d V transaction index currentHeight pendingIncoming =
     (case transaction of
        None \<Rightarrow> Inl (Exec_Tx_Nil index)
      | Some t \<Rightarrow>
     (case Verify_Tx C sha256 t of
        Inl e \<Rightarrow> Inl (Exec_Signature index e)
      | Inr _ \<Rightarrow>
          let from = BytesToQuantumAddress (Address_Bytes (tx_From t))
          in case GetNonce K d from of
               None \<Rightarrow> Inl Exec_Panic
             | Some expectedNonce \<Rightarrow>
                 if tx_Nonce t \<noteq> expectedNonce then Inl (Exec_Nonce index)
                 else case spendableBalanceAtHeight K d (cv_blockAt V) (cv_minConfirmations V) from
                             currentHeight pendingIncoming of
                     None \<Rightarrow> Inl Exec_Diverges
                   | Some balance \<Rightarrow>
                       (case (tx_Value t, gas_cost t) of
                          (Some value, Some cost) \<Rightarrow>
                            if balance < value + cost then Inl (Exec_Spendable index) else Inr ()
                        | _ \<Rightarrow> Inl Exec_Panic)))"

text \<open>The loop of \<open>executeBlockTransactions\<close>: machine, state, fees, gas and pending incoming value.\<close>

fun execute_loop ::
    "'d kv_ops \<Rightarrow> crypto \<Rightarrow> (bytes \<Rightarrow> hash) \<Rightarrow> chain_view \<Rightarrow> u64 \<Rightarrow> nat \<Rightarrow> tx option list
     \<Rightarrow> vm \<Rightarrow> 'd \<Rightarrow> int \<Rightarrow> u64 \<Rightarrow> (address \<Rightarrow> int option) \<Rightarrow> (exec_error + int \<times> u64) \<times> 'd" where
  "execute_loop K C sha256 V currentHeight i [] v d totalFees totalGasUsed pendingIncoming =
     (Inr (totalFees, totalGasUsed), d)"
| "execute_loop K C sha256 V currentHeight i (transaction # txs) v d totalFees totalGasUsed pendingIncoming =
     (case validateTransactionForExecutionAtHeight K C sha256 d V transaction i currentHeight pendingIncoming of
        Inl e \<Rightarrow> (Inl e, d)
      | Inr _ \<Rightarrow>
          (case transaction of
             None \<Rightarrow> (Inl (Exec_Tx_Nil i), d)
           | Some t \<Rightarrow>
               let r = Execute K C sha256 (\<lambda>_. False) v d t
               in case fst r of
                    Inl e \<Rightarrow> (Inl (Exec_Failed i e), exec_state r)
                  | Inr _ \<Rightarrow>
                      let committedGas = transactionCommittedGas transaction;
                          pendingIncoming' =
                            (case (tx_To t, tx_Value t) of
                               (Some dest, Some value) \<Rightarrow>
                                 let to = BytesToQuantumAddress (Address_Bytes dest);
                                     from = BytesToQuantumAddress (Address_Bytes (tx_From t))
                                 in if to \<noteq> from
                                    then pendingIncoming(to \<mapsto>
                                      (case pendingIncoming to of None \<Rightarrow> 0 | Some p \<Rightarrow> p) + value)
                                    else pendingIncoming
                             | _ \<Rightarrow> pendingIncoming)
                      in case gas_cost t of
                           None \<Rightarrow> (Inl Exec_Panic, exec_state r)
                         | Some txFee \<Rightarrow>
                             execute_loop K C sha256 V currentHeight (i + 1) txs (exec_vm r) (exec_state r)
                               (totalFees + txFee) (totalGasUsed + committedGas) pendingIncoming'))"

definition executeBlockTransactions ::
    "'d kv_ops \<Rightarrow> crypto \<Rightarrow> (bytes \<Rightarrow> hash) \<Rightarrow> chain_view \<Rightarrow> 'd \<Rightarrow> block \<Rightarrow> (exec_error + int \<times> u64) \<times> 'd" where
  "executeBlockTransactions K C sha256 V d b =
     (case b_Header b of
        None \<Rightarrow> (Inl Exec_Panic, d)
      | Some h \<Rightarrow>
          let currentHeight = (case h_Number h of
                Some n \<Rightarrow> if n > 0 then big_uint64 n - 1 else 0
              | None \<Rightarrow> 0)
          in execute_loop K C sha256 V currentHeight 0 (b_Txs b) (NewVM (h_GasLimit h)) d 0 0 (\<lambda>_. None))"

section \<open>The rotating king of a block (rewards.go)\<close>

text \<open>The UTF-8 forms of the Unicode white space that \<open>strings.TrimSpace\<close> removes.\<close>

definition utf8_spaces :: "bytes list" where
  "utf8_spaces =
     map (\<lambda>b. [b]) [0x09, 0x0A, 0x0B, 0x0C, 0x0D, 0x20] @ [[0xC2, 0x85], [0xC2, 0xA0], [0xE1, 0x9A, 0x80]]
     @ map (\<lambda>b. [0xE2, 0x80, b])
         [0x80, 0x81, 0x82, 0x83, 0x84, 0x85, 0x86, 0x87, 0x88, 0x89, 0x8A, 0xA8, 0xA9, 0xAF]
     @ [[0xE2, 0x81, 0x9F], [0xE3, 0x80, 0x80]]"

text \<open>The test for the empty string only matters for termination: no space is empty.\<close>

function strip_front :: "bytes list \<Rightarrow> bytes \<Rightarrow> bytes" where
  "strip_front spaces s =
     (case find (\<lambda>w. w \<noteq> [] \<and> take (length w) s = w) spaces of
        None \<Rightarrow> s
      | Some w \<Rightarrow> strip_front spaces (drop (length w) s))"
  by pat_completeness auto

termination
proof (relation "measure (\<lambda>(spaces, s). length s)")
  fix spaces s and w :: bytes
  assume "find (\<lambda>w. w \<noteq> [] \<and> take (length w) s = w) spaces = Some w"
  then have "w \<noteq> []" and "take (length w) s = w" by (auto simp: find_Some_iff)
  then have "s \<noteq> []" by auto
  with \<open>w \<noteq> []\<close> show "((spaces, drop (length w) s), spaces, s) \<in> measure (\<lambda>(spaces, s). length s)" by simp
qed simp

declare strip_front.simps [simp del]

definition TrimSpace :: "bytes \<Rightarrow> bytes" where
  "TrimSpace s = rev (strip_front (map rev utf8_spaces) (rev (strip_front utf8_spaces s)))"

text \<open>\<open>strings.Split(s, "|")\<close>.\<close>

fun split_bar :: "bytes \<Rightarrow> bytes list" where
  "split_bar [] = [[]]"
| "split_bar (b # bs) =
     (if b = 0x7C then [] # split_bar bs
      else case split_bar bs of [] \<Rightarrow> [[b]] | p # ps \<Rightarrow> (b # p) # ps)"

definition bytes_str :: "bytes \<Rightarrow> string" where
  "bytes_str bs = map (\<lambda>b. char_of (unat b)) bs"

text \<open>The first part that starts with \<open>rk=\<close> decides.\<close>

fun king_part :: "crypto \<Rightarrow> bytes list \<Rightarrow> address option" where
  "king_part C [] = None"
| "king_part C (p # ps) =
     (let part = TrimSpace p
      in if take 3 part \<noteq> str_bytes ''rk='' then king_part C ps
         else let addr = bytes_str (TrimSpace (drop 3 part))
              in if IsValidAddress C addr
                 then (case ParseQuantumAddress C addr of Inl _ \<Rightarrow> None | Inr a \<Rightarrow> Some a)
                 else None)"

definition rotatingKingFromBlockExtra :: "crypto \<Rightarrow> bytes \<Rightarrow> address option" where
  "rotatingKingFromBlockExtra C extra = king_part C (split_bar extra)"

text \<open>
  The king that the manager chosen for the block answers: \<open>rkManager\<close> is the current king of
  the chain's manager, \<open>None\<close> without one; extra data may override it.
\<close>

definition resolveRotatingKingManagerForBlock :: "crypto \<Rightarrow> address option \<Rightarrow> header option \<Rightarrow> address option" where
  "resolveRotatingKingManagerForBlock C rkManager hdr =
     (case (rkManager, hdr) of
        (Some king, Some h) \<Rightarrow>
          (case rotatingKingFromBlockExtra C (h_Extra h) of
             Some forcedKing \<Rightarrow> Some forcedKing
           | None \<Rightarrow> Some king)
      | _ \<Rightarrow> rkManager)"

datatype block_reward_error = No_Distributor | Reward_Panic | Distribution_Failed reward_error

text \<open>\<open>distributor\<close> is the main king of the chain's reward distributor.\<close>

definition distributeBlockRewards ::
    "'d kv_ops \<Rightarrow> crypto \<Rightarrow> address option \<Rightarrow> address option \<Rightarrow> bool \<Rightarrow> 'd \<Rightarrow> header \<Rightarrow> int option
     \<Rightarrow> block_reward_error + (reward_distribution \<times> 'd \<times> (address \<times> int \<times> u64) option)" where
  "distributeBlockRewards K C distributor rkManager posEngine d h totalFees =
     (case distributor of
        None \<Rightarrow> Inl No_Distributor
      | Some mainKing \<Rightarrow>
     (case h_Number h of
        None \<Rightarrow> Inl Reward_Panic
      | Some number \<Rightarrow>
     (case DistributeRewards K d mainKing (h_Coinbase h) totalFees (big_uint64 number)
             (resolveRotatingKingManagerForBlock C rkManager (Some h)) posEngine of
        Inl e \<Rightarrow> Inl (Distribution_Failed e)
      | Inr r \<Rightarrow> Inr r)))"

section \<open>The dry run on a clone (templates.go)\<close>

datatype dry_run_error =
    Clone_Failed state_error | Dry_Tx_Nil nat | Dry_Signature nat | Dry_Execution nat vm_error
  | Dry_No_Distributor | Dry_Extra block_error | Dry_Panic | Dry_Reward reward_error

text \<open>\<open>executeTransactionsOnState\<close>: signatures and execution, with one machine; no nonces.\<close>

fun dry_loop ::
    "'d kv_ops \<Rightarrow> crypto \<Rightarrow> (bytes \<Rightarrow> hash) \<Rightarrow> nat \<Rightarrow> tx option list \<Rightarrow> vm \<Rightarrow> 'd \<Rightarrow> dry_run_error + 'd" where
  "dry_loop K C sha256 i [] v d = Inr d"
| "dry_loop K C sha256 i (transaction # txs) v d =
     (case transaction of
        None \<Rightarrow> Inl (Dry_Tx_Nil i)
      | Some t \<Rightarrow>
     (case Verify_Tx C sha256 t of
        Inl _ \<Rightarrow> Inl (Dry_Signature i)
      | Inr _ \<Rightarrow>
          let r = Execute K C sha256 (\<lambda>_. False) v d t
          in case fst r of
               Inl e \<Rightarrow> Inl (Dry_Execution i e)
             | Inr _ \<Rightarrow> dry_loop K C sha256 (i + 1) txs (exec_vm r) (exec_state r)))"

definition executeTransactionsOnState ::
    "'d kv_ops \<Rightarrow> crypto \<Rightarrow> (bytes \<Rightarrow> hash) \<Rightarrow> 'd \<Rightarrow> tx option list \<Rightarrow> u64 \<Rightarrow> dry_run_error + 'd" where
  "executeTransactionsOnState K C sha256 d txs gasLimit = dry_loop K C sha256 0 txs (NewVM gasLimit) d"

text \<open>\<open>None\<close>: the panic on a nil gas price. A nil transaction adds nothing.\<close>

definition dry_fees :: "tx option list \<Rightarrow> int option" where
  "dry_fees txs =
     fold (\<lambda>t acc. case (t, acc) of
         (None, _) \<Rightarrow> acc
       | (Some t, Some s) \<Rightarrow> map_option ((+) s) (gas_cost t)
       | (_, None) \<Rightarrow> None) txs (Some 0)"

text \<open>\<open>opened\<close> is the fresh database that \<open>Clone\<close> fills.\<close>

definition computeBlockFinalStateRoot ::
    "'d kv_ops \<Rightarrow> crypto \<Rightarrow> (bytes \<Rightarrow> hash) \<Rightarrow> address option \<Rightarrow> address option \<Rightarrow> bool \<Rightarrow> 'd \<Rightarrow> 'd option
     \<Rightarrow> address \<Rightarrow> u64 \<Rightarrow> u64 \<Rightarrow> bytes \<Rightarrow> tx option list \<Rightarrow> dry_run_error + hash" where
  "computeBlockFinalStateRoot K C sha256 distributor rkManager posEngine d opened miner blockTime blockNum extra txs =
     (case State_Clone K d opened of
        Inl e \<Rightarrow> Inl (Clone_Failed e)
      | Inr s0 \<Rightarrow>
     (case executeTransactionsOnState K C sha256 s0 txs 10000000 of
        Inl e \<Rightarrow> Inl e
      | Inr s1 \<Rightarrow>
     (case distributor of
        None \<Rightarrow> Inl Dry_No_Distributor
      | Some mainKing \<Rightarrow>
     (case ValidateExtraDataSize extra of
        Inl e \<Rightarrow> Inl (Dry_Extra e)
      | Inr _ \<Rightarrow>
     (case dry_fees txs of
        None \<Rightarrow> Inl Dry_Panic
      | Some totalFees \<Rightarrow>
          let king = (case rkManager of
                None \<Rightarrow> None
              | Some k \<Rightarrow> (case rotatingKingFromBlockExtra C extra of Some f \<Rightarrow> Some f | None \<Rightarrow> Some k))
          in case DistributeRewards K s1 mainKing miner (Some totalFees) blockNum king posEngine of
               Inl e \<Rightarrow> Inl (Dry_Reward e)
             | Inr (_, s2, _) \<Rightarrow> Inr (State_Root K sha256 s2))))))"

section \<open>States with the same content\<close>

definition same_content :: "'d kv_ops \<Rightarrow> 'd \<Rightarrow> 'd \<Rightarrow> bool" where
  "same_content K d e \<longleftrightarrow> kv_get K d = kv_get K e"

lemma same_reads:
  assumes "same_content K d e"
  shows "GetBalance K d = GetBalance K e" and "GetNonce K d = GetNonce K e"
  using assms by (simp_all add: same_content_def GetBalance_def GetNonce_def fun_eq_iff)

context kv_reliable begin

lemma same_put:
  "same_content K d e \<Longrightarrow> kv_put K d k v = Some d' \<Longrightarrow> kv_put K e k v = Some e' \<Longrightarrow> same_content K d' e'"
  by (simp add: same_content_def get_put)

lemma same_AddBalance:
  assumes "same_content K d e"
  shows "same_content K (or_unchanged d (AddBalance K d a v)) (or_unchanged e (AddBalance K e a v))"
proof (cases "GetBalance K e a + v < 0")
  case True
  with assms show ?thesis by (simp add: AddBalance_def same_reads)
next
  case False
  let ?b = "big_bytes (GetBalance K e a + v)"
  obtain d' e' where "kv_put K d (balance_key a) ?b = Some d'" and "kv_put K e (balance_key a) ?b = Some e'"
    using put_total by blast
  with False show ?thesis
    using same_put [OF assms] by (simp add: AddBalance_def same_reads [OF assms] put_result_def)
qed

lemma same_SetNonce:
  assumes "same_content K d e"
  shows "same_content K (or_unchanged d (SetNonce K d a n)) (or_unchanged e (SetNonce K e a n))"
proof -
  obtain d' e' where "kv_put K d (nonce_key a) (word_bytes 8 n) = Some d'"
    and "kv_put K e (nonce_key a) (word_bytes 8 n) = Some e'"
    using put_total by blast
  then show ?thesis using same_put [OF assms] by (simp add: SetNonce_def put_result_def)
qed

lemma same_transfer:
  "same_content K d e \<Longrightarrow> same_content K (transfer K d from to v) (transfer K e from to v)"
  by (simp add: transfer_def Let_def same_AddBalance)

lemma same_Root: "same_content K d e \<Longrightarrow> State_Root K sha256 d = State_Root K sha256 e"
  by (rule State_Root_cong) (simp add: same_content_def)

text \<open>The effect of a successful run on the accounts does not depend on the machine.\<close>

lemma same_Execute:
  assumes same: "same_content K d e"
    and d: "fst (Execute K C sha256 c v d t) = Inr r" and e: "fst (Execute K C sha256 c' w e t) = Inr r'"
  shows "same_content K (exec_state (Execute K C sha256 c v d t)) (exec_state (Execute K C sha256 c' w e t))"
proof (cases "tx_Data t = []")
  case True
  from Execute_transfer [OF d True] obtain to "value"
    where "tx_To t = Some to" "tx_Value t = Some value"
      and ds: "exec_state (Execute K C sha256 c v d t) =
        or_unchanged (transfer K d (tx_From t) to value)
          (SetNonce K (transfer K d (tx_From t) to value) (tx_From t) (tx_Nonce t + 1))"
    by metis
  with Execute_transfer [OF e True]
  have "exec_state (Execute K C sha256 c' w e t) =
        or_unchanged (transfer K e (tx_From t) to value)
          (SetNonce K (transfer K e (tx_From t) to value) (tx_From t) (tx_Nonce t + 1))"
    by (metis option.inject)
  then show ?thesis unfolding ds by (simp add: same_SetNonce same_transfer same)
next
  case False
  from Execute_contract [OF d False] obtain king
    where k: "ParseQuantumAddress C ''0qANA3c85k94LTyTXLGDdEzmLE32b1qhYZF'' = Inr king"
      and ds: "exec_state (Execute K C sha256 c v d t) = transfer K d zero_address king 50"
    by metis
  with Execute_contract [OF e False]
  have "exec_state (Execute K C sha256 c' w e t) = transfer K e zero_address king 50"
    by (metis Inr_inject)
  then show ?thesis unfolding ds by (simp add: same_transfer same)
qed

lemma same_pay_rewards:
  "same_content K d e \<Longrightarrow> same_content K (pay_rewards K d m mk k a b c p) (pay_rewards K e m mk k a b c p)"
  by (simp add: pay_rewards_def Let_def same_AddBalance)

lemma same_Distribute:
  assumes same: "same_content K d e"
    and d: "DistributeRewards K d mk miner fees n king pos = Inr (r, d', rec)"
    and e: "DistributeRewards K e mk miner fees n king pos' = Inr (r', e', rec')"
  shows "same_content K d' e'"
  using DistributeRewards_state [OF d] DistributeRewards_state [OF e] same
  by (auto simp: same_reads [OF same] Let_def same_pay_rewards split: prod.split)

lemma same_Clone:
  assumes "State_Clone K d (Some fresh) = Inr s" and "kv_get K fresh = Map.empty"
  shows "same_content K d s"
proof -
  from assms(1) obtain es where es: "kv_entries K d = Some es" and w: "kv_write K fresh es = Some s"
    by (auto simp: State_Clone_def put_result_def split: option.splits)
  show ?thesis
    using get_entries [OF es] get_write [OF w] assms(2) map_of_inject_set [of es "rev es"]
    by (simp add: same_content_def rev_map [symmetric])
qed

end

section \<open>The two loops\<close>

text \<open>Sum of the signed gas costs; transactions without a price do not occur in executed blocks.\<close>

definition fee_sum :: "tx option list \<Rightarrow> int" where
  "fee_sum txs = (\<Sum>t\<leftarrow>txs. case Option.bind t gas_cost of None \<Rightarrow> 0 | Some c \<Rightarrow> c)"

definition priced :: "tx option \<Rightarrow> bool" where
  "priced t \<longleftrightarrow> Option.bind t gas_cost \<noteq> None"

text \<open>One round of the block loop, for a transaction that passes its checks.\<close>

lemma execute_loop_Cons:
  assumes "execute_loop K C sha256 V h i (transaction # txs) v d f g p = (Inr (fees, gas), d')"
  obtains t ret cost p' where "transaction = Some t"
    and "validateTransactionForExecutionAtHeight K C sha256 d V (Some t) i h p = Inr ()"
    and "fst (Execute K C sha256 (\<lambda>_. False) v d t) = Inr ret" and "gas_cost t = Some cost"
    and "execute_loop K C sha256 V h (i + 1) txs (exec_vm (Execute K C sha256 (\<lambda>_. False) v d t))
      (exec_state (Execute K C sha256 (\<lambda>_. False) v d t)) (f + cost) (g + tx_Gas t) p' = (Inr (fees, gas), d')"
proof -
  from assms obtain t where t: "transaction = Some t"
    and val: "validateTransactionForExecutionAtHeight K C sha256 d V (Some t) i h p = Inr ()"
    by (auto split: sum.splits option.splits)
  from assms t val obtain ret where ret: "fst (Execute K C sha256 (\<lambda>_. False) v d t) = Inr ret"
    by (auto simp: Let_def split: sum.splits)
  from assms t val ret obtain cost where cost: "gas_cost t = Some cost"
    by (auto simp: Let_def split: option.splits)
  show thesis
    using assms by (intro that [OF t val ret cost])
      (simp add: t val ret cost Let_def transactionCommittedGas_def)
qed

lemma execute_loop_sums:
  "execute_loop K C sha256 V h i txs v d f g p = (Inr (fees, gas), d') \<Longrightarrow>
     fees = f + fee_sum txs \<and> list_all priced txs
     \<and> gas = g + (\<Sum>t\<leftarrow>txs. transactionCommittedGas t)"
proof (induction txs arbitrary: i v d f g p)
  case (Cons transaction txs)
  from Cons.prems show ?case
  proof (rule execute_loop_Cons)
    fix t ret cost p'
    assume t: "transaction = Some t" and cost: "gas_cost t = Some cost"
      and rest: "execute_loop K C sha256 V h (i + 1) txs (exec_vm (Execute K C sha256 (\<lambda>_. False) v d t))
        (exec_state (Execute K C sha256 (\<lambda>_. False) v d t)) (f + cost) (g + tx_Gas t) p' = (Inr (fees, gas), d')"
    show ?case
      using Cons.IH [OF rest] t cost
      by (simp add: fee_sum_def priced_def transactionCommittedGas_def add.assoc)
  qed
qed (simp add: fee_sum_def)

lemma dry_fees_sum:
  "list_all priced txs \<Longrightarrow> dry_fees txs = Some (fee_sum txs)"
proof -
  have "list_all priced txs \<Longrightarrow>
    fold (\<lambda>t acc. case (t, acc) of (None, _) \<Rightarrow> acc | (Some t, Some s) \<Rightarrow> map_option ((+) s) (gas_cost t)
       | (_, None) \<Rightarrow> None) txs (Some s) = Some (s + fee_sum txs)" for s
    by (induction txs arbitrary: s) (auto simp: fee_sum_def priced_def split: option.splits)
  from this [of 0] show "list_all priced txs \<Longrightarrow> dry_fees txs = Some (fee_sum txs)"
    by (simp add: dry_fees_def)
qed

context kv_reliable begin

lemma execute_loop_total:
  "ledger_total (GetBalance K (snd (execute_loop K C sha256 V h i txs v d f g p))) = ledger_total (GetBalance K d)"
proof (induction txs arbitrary: i v d f g p)
  case (Cons transaction txs)
  show ?case
    by (simp add: Let_def Cons.IH Execute_total split: sum.split option.split)
qed simp

lemma loops_agree:
  assumes "execute_loop K C sha256 V h i txs v d f g p = (Inr (fees, gas), d')"
    and "dry_loop K C sha256 j txs w e = Inr e'" and "same_content K d e"
  shows "same_content K d' e'"
  using assms
proof (induction txs arbitrary: i j v w d e f g p)
  case (Cons transaction txs)
  from Cons.prems(1) show ?case
  proof (rule execute_loop_Cons)
    fix t ret cost p'
    assume t: "transaction = Some t" and ret: "fst (Execute K C sha256 (\<lambda>_. False) v d t) = Inr ret"
      and rest: "execute_loop K C sha256 V h (i + 1) txs (exec_vm (Execute K C sha256 (\<lambda>_. False) v d t))
        (exec_state (Execute K C sha256 (\<lambda>_. False) v d t)) (f + cost) (g + tx_Gas t) p' = (Inr (fees, gas), d')"
    from Cons.prems(2) t obtain ret' where ret': "fst (Execute K C sha256 (\<lambda>_. False) w e t) = Inr ret'"
      and dry: "dry_loop K C sha256 (j + 1) txs (exec_vm (Execute K C sha256 (\<lambda>_. False) w e t))
        (exec_state (Execute K C sha256 (\<lambda>_. False) w e t)) = Inr e'"
      by (auto simp: Let_def split: sum.splits)
    show ?case
      by (rule Cons.IH [OF rest dry same_Execute [OF Cons.prems(3) ret ret']])
  qed
qed simp

end

lemma dry_run_agrees:
  assumes "kv_reliable K" and "kv_get K fresh = Map.empty"
    and dry: "computeBlockFinalStateRoot K C sha256 distributor rk pos d (Some fresh) (h_Coinbase h) (h_Time h)
      (big_uint64 n) (h_Extra h) (b_Txs b) = Inr root"
    and exec: "executeBlockTransactions K C sha256 V d b = (Inr (fees, gas), d1)"
    and rewards: "distributeBlockRewards K C distributor rk pos d1 h (Some fees) = Inr (r, d2, rec)"
    and hdr: "b_Header b = Some h" "h_Number h = Some n"
  shows "State_Root K sha256 d2 = root \<and> fees = fee_sum (b_Txs b)
    \<and> gas = (\<Sum>t\<leftarrow>b_Txs b. transactionCommittedGas t)"
proof -
  obtain cur where loop: "execute_loop K C sha256 V cur 0 (b_Txs b) (NewVM (h_GasLimit h)) d 0 0 (\<lambda>_. None)
      = (Inr (fees, gas), d1)"
    using exec hdr by (auto simp: executeBlockTransactions_def Let_def)
  note sums = execute_loop_sums [OF loop]
  from dry obtain s0 s1 mk where clone: "State_Clone K d (Some fresh) = Inr s0"
    and run: "dry_loop K C sha256 0 (b_Txs b) (NewVM 10000000) s0 = Inr s1" and mk: "distributor = Some mk"
    by (auto simp: computeBlockFinalStateRoot_def executeTransactionsOnState_def split: sum.splits option.splits)
  let ?king = "case rk of None \<Rightarrow> None
    | Some k \<Rightarrow> (case rotatingKingFromBlockExtra C (h_Extra h) of Some f \<Rightarrow> Some f | None \<Rightarrow> Some k)"
  have king: "resolveRotatingKingManagerForBlock C rk (Some h) = ?king"
    by (auto simp: resolveRotatingKingManagerForBlock_def split: option.split)
  from dry clone run mk sums obtain r' s2 rec'
    where dist: "DistributeRewards K s1 mk (h_Coinbase h) (Some fees) (big_uint64 n) ?king pos = Inr (r', s2, rec')"
      and root: "root = State_Root K sha256 s2"
    by (auto simp: computeBlockFinalStateRoot_def executeTransactionsOnState_def dry_fees_sum Let_def
        split: sum.splits prod.splits)
  from rewards mk hdr king
  have "DistributeRewards K d1 mk (h_Coinbase h) (Some fees) (big_uint64 n) ?king pos = Inr (r, d2, rec)"
    by (auto simp: distributeBlockRewards_def split: sum.splits)
  moreover have "same_content K d1 s1"
    using kv_reliable.loops_agree [OF assms(1) loop run] kv_reliable.same_Clone [OF assms(1) clone assms(2)] by blast
  ultimately have "same_content K d2 s2"
    using kv_reliable.same_Distribute [OF assms(1) _ _ dist] by blast
  then have "State_Root K sha256 d2 = root"
    using kv_reliable.same_Root [OF assms(1)] root by blast
  with sums show ?thesis by simp
qed

lemma block_totals:
  assumes "kv_reliable K"
    and exec: "executeBlockTransactions K C sha256 V d b = (Inr (fees, gas), d1)"
    and rewards: "distributeBlockRewards K C distributor rk pos d1 h (Some fees) = Inr (r, d2, rec)"
    and num: "h_Number h = Some n"
  shows "ledger_total (GetBalance K d1) = ledger_total (GetBalance K d)
    \<and> ledger_total (GetBalance K d2) =
        ledger_total (GetBalance K d) + CalculateBlockReward (big_uint64 n) + max 0 fees"
proof -
  have "ledger_total (GetBalance K (snd (executeBlockTransactions K C sha256 V d b))) = ledger_total (GetBalance K d)"
    by (simp add: executeBlockTransactions_def Let_def kv_reliable.execute_loop_total [OF assms(1)] split: option.split)
  then have exec_total: "ledger_total (GetBalance K d1) = ledger_total (GetBalance K d)"
    by (simp add: exec)
  from rewards num obtain mk king where
    dist: "DistributeRewards K d1 mk (h_Coinbase h) (Some fees) (big_uint64 n) king pos = Inr (r, d2, rec)"
    by (auto simp: distributeBlockRewards_def split: sum.splits option.splits)
  note D = kv_reliable.DistributeRewards_Inr [OF assms(1) dist]
  have "GetBalance K d2 = (\<lambda>a. GetBalance K d1 a + share r a)" using D(6) by blast
  then have "ledger_total (GetBalance K d2) = ledger_total (GetBalance K d1) + rd_TotalReward r"
    by (simp only: ledger_total_share D(2))
  with exec_total D(1) show ?thesis by simp
qed

section \<open>Properties\<close>

text \<open>
  C2: the dry run predicts the block: if the state root computed on the clone and the real
  execution with the reward step both succeed, the state after the rewards has exactly the
  predicted root, whatever the gas limits, the blocks behind and the clone's database are; the
  fees paid out are the signed gas costs of all transactions, the gas is the sum of their limits.
\<close>

theorem dry_run_predicts_final_root:
  assumes "kv_reliable K" and "kv_get K fresh = Map.empty"
    and dry: "computeBlockFinalStateRoot K C sha256 distributor rk pos d (Some fresh) (h_Coinbase h) (h_Time h)
      (big_uint64 n) (h_Extra h) (b_Txs b) = Inr root"
    and exec: "executeBlockTransactions K C sha256 V d b = (Inr (fees, gas), d1)"
    and rewards: "distributeBlockRewards K C distributor rk pos d1 h (Some fees) = Inr (r, d2, rec)"
    and hdr: "b_Header b = Some h" "h_Number h = Some n"
  shows "State_Root K sha256 d2 = root \<and> fees = fee_sum (b_Txs b)
    \<and> gas = (\<Sum>t\<leftarrow>b_Txs b. transactionCommittedGas t)"
  by (rule dry_run_agrees [OF assms])

text \<open>A view of a chain without blocks, and a block of one header without transactions.\<close>

definition no_chain :: chain_view where
  "no_chain = \<lparr>cv_blockAt = \<lambda>_. None, cv_minConfirmations = 1\<rparr>"

lemma sample_header_sel: "h_Extra sample_header = []" "h_Number sample_header = Some 0"
  by (simp_all add: sample_header_def)

theorem dry_run_predicts_final_root_witness:
  "\<exists>root r d2 rec. computeBlockFinalStateRoot map_kv toy_crypto (\<lambda>b. word_of_nat (length b)) (Some 3) (Some 5) True
      sample_state (Some DAList.empty) (h_Coinbase sample_header) (h_Time sample_header) 0 [] [] = Inr root
    \<and> distributeBlockRewards map_kv toy_crypto (Some 3) (Some 5) True sample_state sample_header (Some 0) = Inr (r, d2, rec)
    \<and> State_Root map_kv (\<lambda>b. word_of_nat (length b)) d2 = root"
proof -
  let ?sha = "\<lambda>b. word_of_nat (length b)" and ?h = "sample_header"
  have rk: "rotatingKingFromBlockExtra toy_crypto [] = None"
    by (simp add: rotatingKingFromBlockExtra_def TrimSpace_def strip_front.simps utf8_spaces_def str_bytes_def)
  obtain s0 where s0: "State_Clone map_kv sample_state (Some DAList.empty) = Inr s0"
    by (simp add: State_Clone_def map_kv_def put_result_def)
  obtain r' s2 rec' where r': "DistributeRewards map_kv s0 3 (h_Coinbase ?h) (Some 0) 0 (Some 5) True = Inr (r', s2, rec')"
    by (rule DistributeRewards_returns)
  obtain r d2 rec where r: "DistributeRewards map_kv sample_state 3 (h_Coinbase ?h) (Some 0) 0 (Some 5) True = Inr (r, d2, rec)"
    by (rule DistributeRewards_returns)
  have z: "big_uint64 0 = 0" by (simp add: big_uint64_def)
  have dry: "computeBlockFinalStateRoot map_kv toy_crypto ?sha (Some 3) (Some 5) True sample_state (Some DAList.empty)
      (h_Coinbase ?h) (h_Time ?h) (big_uint64 0) (h_Extra ?h) (b_Txs sample_parent) = Inr (State_Root map_kv ?sha s2)"
    using s0 r' rk z
    by (simp add: computeBlockFinalStateRoot_def executeTransactionsOnState_def sample_header_sel sample_parent_def
        ValidateExtraDataSize_def validateExtraDataContent_def dry_fees_def)
  have exec: "executeBlockTransactions map_kv toy_crypto ?sha no_chain sample_state sample_parent = (Inr (0, 0), sample_state)"
    by (simp add: executeBlockTransactions_def sample_parent_def Let_def)
  have rew: "distributeBlockRewards map_kv toy_crypto (Some 3) (Some 5) True sample_state ?h (Some 0) = Inr (r, d2, rec)"
    using r rk z by (simp add: distributeBlockRewards_def sample_header_sel resolveRotatingKingManagerForBlock_def)
  have "kv_get map_kv DAList.empty = Map.empty" by (simp add: map_kv_def fun_eq_iff)
  then have "State_Root map_kv ?sha d2 = State_Root map_kv ?sha s2"
    using dry_run_predicts_final_root [OF mkv.kv_reliable_axioms _ dry exec rew _ sample_header_sel(2)]
    by (simp add: sample_parent_def)
  with dry rew z show ?thesis by (simp add: sample_header_sel sample_parent_def)
qed

text \<open>
  C17: executing a block and paying its reward creates money: execution leaves the sum of all
  balances alone - no sender is charged for gas - and the reward step then adds the subsidy and
  all positive fees, so the supply grows by the fees on top of the schedule.
\<close>

theorem block_fees_are_minted:
  assumes "kv_reliable K"
    and exec: "executeBlockTransactions K C sha256 V d b = (Inr (fees, gas), d1)"
    and rewards: "distributeBlockRewards K C distributor rk pos d1 h (Some fees) = Inr (r, d2, rec)"
    and num: "h_Number h = Some n"
  shows "ledger_total (GetBalance K d1) = ledger_total (GetBalance K d)
    \<and> ledger_total (GetBalance K d2) =
        ledger_total (GetBalance K d) + CalculateBlockReward (big_uint64 n) + max 0 fees"
  by (rule block_totals [OF assms])

theorem block_fees_are_minted_witness:
  "\<exists>r d2 rec. distributeBlockRewards map_kv toy_crypto (Some 3) (Some 5) True sample_state sample_header (Some 0) = Inr (r, d2, rec)
    \<and> ledger_total (GetBalance map_kv d2) =
        ledger_total (GetBalance map_kv sample_state) + CalculateBlockReward 0"
proof -
  have exec: "executeBlockTransactions map_kv toy_crypto (\<lambda>_. 9) no_chain sample_state sample_parent = (Inr (0, 0), sample_state)"
    by (simp add: executeBlockTransactions_def sample_parent_def Let_def)
  have z: "big_uint64 0 = 0" by (simp add: big_uint64_def)
  have rk: "resolveRotatingKingManagerForBlock toy_crypto (Some 5) (Some sample_header) = Some 5"
    by (simp add: resolveRotatingKingManagerForBlock_def sample_header_sel rotatingKingFromBlockExtra_def
        TrimSpace_def strip_front.simps utf8_spaces_def str_bytes_def)
  obtain r d2 rec where r: "DistributeRewards map_kv sample_state 3 (h_Coinbase sample_header) (Some 0) 0 (Some 5) True = Inr (r, d2, rec)"
    by (rule DistributeRewards_returns)
  then have rew: "distributeBlockRewards map_kv toy_crypto (Some 3) (Some 5) True sample_state sample_header (Some 0) = Inr (r, d2, rec)"
    using rk z by (simp add: distributeBlockRewards_def sample_header_sel)
  then show ?thesis
    using block_fees_are_minted [OF mkv.kv_reliable_axioms exec rew sample_header_sel(2)] z by simp
qed

lemma spendable_exists:
  assumes "currentHeight \<noteq> -1"
  shows "\<exists>balance. spendableBalanceAtHeight K d blockAt m a currentHeight pending = Some balance \<and> 0 \<le> balance"
proof -
  obtain z where "immatureIncomingBalance blockAt m a currentHeight pending = Some z"
    using assms by (cases "txMaturityConfirmations m \<le> 1") (simp_all add: immatureIncomingBalance_def Let_def)
  then show ?thesis by (simp add: spendableBalanceAtHeight_def Let_def)
qed

lemma sint_large:
  fixes w :: u64
  assumes "2 ^ 63 \<le> unat w"
  shows "sint w = int (unat w) - 2 ^ 64"
proof -
  have u: "uint w = sint w mod 2 ^ 64"
    by (simp add: uint_sint take_bit_eq_mod)
  have lo: "- (2 ^ 63) \<le> sint w" and hi: "sint w < 2 ^ 63"
    using sint_greater_eq [of w] sint_less [of w] by simp_all
  have "int (2 ^ 63) \<le> int (unat w)" using assms by (simp only: of_nat_le_iff)
  then have big: "2 ^ 63 \<le> uint w" by simp
  have "sint w < 0"
  proof (rule ccontr)
    assume "\<not> sint w < 0"
    then have "uint w = sint w" using u hi by simp
    with big hi show False by simp
  qed
  then have "sint w mod 2 ^ 64 = sint w + 2 ^ 64"
    using mod_pos_pos_trivial [of "sint w + 2 ^ 64" "2 ^ 64"] lo by simp
  then have "uint w = sint w + 2 ^ 64" using u by simp
  then show ?thesis by simp
qed

text \<open>
  The gas of a transaction is read as a signed number when its cost is computed. A
  transaction whose gas is at least 2^63 has a negative cost and passes the check of the
  spendable balance however little of the sender's balance has matured.
\<close>

theorem huge_gas_bypasses_maturity:
  assumes "Verify_Tx C sha256 t = Inr ()" and "GetNonce K d (tx_From t) = Some (tx_Nonce t)"
    and "tx_Value t = Some value" and "tx_GasPrice t = Some price" and "1 \<le> price"
    and "2 ^ 63 \<le> unat (tx_Gas t)" and "value \<le> 2 ^ 64 - int (unat (tx_Gas t))"
    and "currentHeight \<noteq> -1"
  shows "validateTransactionForExecutionAtHeight K C sha256 d V (Some t) i currentHeight pending = Inr ()
    \<and> value + price * sint (tx_Gas t) \<le> 0"
proof -
  have s: "sint (tx_Gas t) = int (unat (tx_Gas t)) - 2 ^ 64"
    using assms(6) by (rule sint_large)
  have "uint (tx_Gas t) < 2 ^ 64" using uint_bounded [of "tx_Gas t"] by simp
  then have "value + price * sint (tx_Gas t) \<le> value + 1 * sint (tx_Gas t)"
    using assms(5) s by (intro add_left_mono mult_right_mono_neg) simp_all
  then have cost: "value + price * sint (tx_Gas t) \<le> 0" using assms(7) s by linarith
  obtain balance where "spendableBalanceAtHeight K d (cv_blockAt V) (cv_minConfirmations V) (tx_From t)
      currentHeight pending = Some balance" and "0 \<le> balance"
    using spendable_exists [OF assms(8), of K d "cv_blockAt V" "cv_minConfirmations V" "tx_From t" pending]
    by blast
  then show ?thesis
    using assms(1-4) cost by (simp add: validateTransactionForExecutionAtHeight_def gas_cost_def Let_def)
qed

lemma huge_gas_setup:
  "Verify_Tx toy_crypto sha (sample_tx\<lparr>tx_Gas := 9223372036854775808\<rparr>) = Inr ()"
  by (simp_all add: Verify_Tx_def sample_tx_def toy_zero_key Verify_Signature_def MLDSA65SignatureSize_def)
    (simp_all add: toy_crypto_def)

theorem huge_gas_bypasses_maturity_witness:
  "validateTransactionForExecutionAtHeight map_kv toy_crypto (\<lambda>_. 9) DAList.empty no_chain
     (Some (sample_tx\<lparr>tx_Gas := 9223372036854775808\<rparr>)) 0 5 (\<lambda>_. None) = Inr ()
   \<and> GetBalance map_kv DAList.empty (tx_From sample_tx) = 0"
  using huge_gas_bypasses_maturity [OF huge_gas_setup, of map_kv DAList.empty 515 1000000000 5 "\<lambda>_. 9"
      no_chain 0 "\<lambda>_. None"]
  by (simp add: sample_tx_def GetNonce_def GetBalance_def map_kv_def)

lemma dry_loop_gas:
  assumes "dry_loop K C sha256 i txs v d = Inr d'"
    and "list_all (\<lambda>t. map_option tx_Data t = Some []) txs"
  shows "21000 * length txs \<le> unat (vm_gas v)"
  using assms
proof (induction txs arbitrary: i v d)
  case (Cons transaction txs)
  from Cons.prems(2) obtain t where t: "transaction = Some t" and data: "tx_Data t = []" by auto
  from Cons.prems(1) t obtain ret where ret: "fst (Execute K C sha256 (\<lambda>_. False) v d t) = Inr ret"
    and rest: "dry_loop K C sha256 (i + 1) txs (exec_vm (Execute K C sha256 (\<lambda>_. False) v d t))
      (exec_state (Execute K C sha256 (\<lambda>_. False) v d t)) = Inr d'"
    by (auto simp: Let_def split: sum.splits)
  from Execute_transfer [OF ret data] have gas: "21000 \<le> vm_gas v"
    and vm: "vm_gas (exec_vm (Execute K C sha256 (\<lambda>_. False) v d t)) = vm_gas v - 21000"
    by (metis, metis vm.select_convs(1) vm.surjective vm.update_convs(1))
  from gas have "21000 \<le> unat (vm_gas v)" by (simp add: word_le_nat_alt)
  moreover have "unat (vm_gas v - 21000) = unat (vm_gas v) - 21000"
    using gas by (simp add: unat_sub)
  ultimately show ?case
    using Cons.IH [OF rest] Cons.prems(2) vm by simp
qed simp

text \<open>
  The dry run uses a fixed gas limit of 10,000,000 whatever the block's limit is, so no
  block with more than 476 plain transfers passes it, although 10,000 are allowed.
\<close>

theorem dry_run_rejects_477_transfers:
  assumes "477 \<le> length txs" and "list_all (\<lambda>t. map_option tx_Data t = Some []) txs"
  shows "\<exists>e. executeTransactionsOnState K C sha256 d txs 10000000 = Inl e"
proof (cases "executeTransactionsOnState K C sha256 d txs 10000000")
  case (Inr d')
  then have "21000 * length txs \<le> unat (10000000 :: u64)"
    using dry_loop_gas [OF _ assms(2)] by (simp add: executeTransactionsOnState_def NewVM_def) fastforce
  with assms(1) show ?thesis by simp
qed simp

theorem dry_run_rejects_477_transfers_witness:
  "\<exists>e. executeTransactionsOnState map_kv toy_crypto (\<lambda>_. 9) sample_state (replicate 500 (Some sample_tx)) 10000000 = Inl e"
  by (rule dry_run_rejects_477_transfers) (simp_all add: sample_tx_def list_all_iff)

end
