(* ===== verification/Tx_Ordering.thy ===== *)
theory Tx_Ordering
  imports Execution "HOL-Library.Multiset"
begin

text \<open>
  The selection order of transactions and the direct application of transactions to the state
  (\<open>sortAndValidateTransactions\<close>, \<open>applyTransaction\<close> and their helpers in
  \<open>antdc/chain/execution.go\<close>).
\<close>

section \<open>Sorting by sender and nonce\<close>

text \<open>The first pass: no nil and no duplicate hash.\<close>

fun check_distinct :: "(bytes \<Rightarrow> hash) \<Rightarrow> nat \<Rightarrow> hash list \<Rightarrow> tx option list \<Rightarrow> exec_error + tx list" where
  "check_distinct sha256 i seen [] = Inr []"
| "check_distinct sha256 i seen (currentTx # txs) =
     (case currentTx of
        None \<Rightarrow> Inl (Exec_Tx_Nil i)
      | Some t \<Rightarrow>
          if tx_Hash sha256 t \<in> set seen then Inl Exec_Duplicate
          else (case check_distinct sha256 (i + 1) (tx_Hash sha256 t # seen) txs of
                  Inl e \<Rightarrow> Inl e
                | Inr ts \<Rightarrow> Inr (t # ts)))"

text \<open>One sender's transactions against its simulated nonce and balance.\<close>

fun check_sender :: "nat \<Rightarrow> u64 \<Rightarrow> int \<Rightarrow> tx list \<Rightarrow> exec_error + unit" where
  "check_sender i currentNonce currentBalance [] = Inr ()"
| "check_sender i currentNonce currentBalance (t # ts) =
     (if tx_Nonce t \<noteq> currentNonce then Inl (Exec_Nonce i)
      else case (tx_Value t, gas_cost t) of
        (Some value, Some cost) \<Rightarrow>
          if currentBalance < value + cost then Inl (Exec_Spendable i)
          else check_sender (i + 1) (currentNonce + 1) (currentBalance - (value + cost)) ts
      | _ \<Rightarrow> Inl Exec_Panic)"

definition check_account ::
    "'d kv_ops \<Rightarrow> 'd \<Rightarrow> chain_view \<Rightarrow> u64 \<Rightarrow> address \<Rightarrow> tx list \<Rightarrow> exec_error + unit" where
  "check_account K d V height sender ts =
     (let senderAddress = BytesToQuantumAddress (Address_Bytes sender)
      in case GetNonce K d senderAddress of
           None \<Rightarrow> Inl Exec_Panic
         | Some currentNonce \<Rightarrow>
             (case spendableBalanceAtHeight K d (cv_blockAt V) (cv_minConfirmations V) senderAddress height (\<lambda>_. None) of
                None \<Rightarrow> Inl Exec_Diverges
              | Some currentBalance \<Rightarrow> check_sender 0 currentNonce currentBalance ts))"

text \<open>The loop over the senders, with the transactions of each.\<close>

fun check_senders ::
    "'d kv_ops \<Rightarrow> 'd \<Rightarrow> chain_view \<Rightarrow> u64 \<Rightarrow> (address \<Rightarrow> tx list) \<Rightarrow> address list \<Rightarrow> exec_error + tx list" where
  "check_senders K d V height groups [] = Inr []"
| "check_senders K d V height groups (s # ss) =
     (case check_account K d V height s (groups s) of
        Inl e \<Rightarrow> Inl e
      | Inr _ \<Rightarrow>
          (case check_senders K d V height groups ss of
             Inl e \<Rightarrow> Inl e
           | Inr validTxs \<Rightarrow> Inr (groups s @ validTxs)))"

text \<open>\<open>txsBySender\<close> after its groups are sorted by nonce, and the sorted senders.\<close>

definition sender_txs :: "tx list \<Rightarrow> address \<Rightarrow> tx list" where
  "sender_txs ts s = sort_key tx_Nonce (filter (\<lambda>t. tx_From t = s) ts)"

definition sorted_senders :: "tx list \<Rightarrow> address list" where
  "sorted_senders ts = sort (remdups (map tx_From ts))"

definition sortAndValidateTransactions ::
    "'d kv_ops \<Rightarrow> (bytes \<Rightarrow> hash) \<Rightarrow> 'd \<Rightarrow> chain_view \<Rightarrow> u64 \<Rightarrow> tx option list \<Rightarrow> exec_error + tx list" where
  "sortAndValidateTransactions K sha256 d V height txs =
     (if txs = [] then Inr []
      else case check_distinct sha256 0 [] txs of
        Inl e \<Rightarrow> Inl e
      | Inr ts \<Rightarrow> check_senders K d V height (sender_txs ts) (sorted_senders ts))"

section \<open>Direct application\<close>

datatype apply_error =
    Apply_Nil | Apply_Nonce | Apply_Balance | Apply_Panic | Contract_Exists

definition applyContractCreation ::
    "'d kv_ops \<Rightarrow> (bytes \<Rightarrow> hash) \<Rightarrow> (bytes \<Rightarrow> bytes) \<Rightarrow> 'd \<Rightarrow> tx \<Rightarrow> int \<Rightarrow> (apply_error + unit) \<times> 'd" where
  "applyContractCreation K sha256 keccak256 d t value =
     (case GetNonce K d (BytesToQuantumAddress (Address_Bytes (tx_From t))) of
        None \<Rightarrow> (Inl Apply_Panic, d)
      | Some nonce \<Rightarrow>
          let senderNonce = nonce - 1;
              contractAddrBytes = Hash_Bytes (sha256 (Address_Bytes (tx_From t) @ str_bytes (dec_nat (unat senderNonce))));
              contractAddr = BytesToQuantumAddress (take 20 contractAddrBytes)
          in if GetBalance K d contractAddr > 0 \<or> length (GetCode K d contractAddr) > 0
             then (Inl Contract_Exists, d)
             else
               let d1 = or_unchanged d (SetBalance K d contractAddr value);
                   d2 = (if tx_Data t \<noteq> [] then or_unchanged d1 (SetCode K keccak256 d1 contractAddr (tx_Data t)) else d1)
               in (Inr (), d2))"

definition applyTransferOrCall :: "'d kv_ops \<Rightarrow> 'd \<Rightarrow> tx \<Rightarrow> address \<Rightarrow> int \<Rightarrow> (apply_error + unit) \<times> 'd" where
  "applyTransferOrCall K d t dest value =
     (let to = BytesToQuantumAddress (Address_Bytes dest);
          hasBalance = (GetBalance K d to > 0);
          hasCode = (length (GetCode K d to) > 0);
          d1 = (if \<not> hasBalance \<and> \<not> hasCode
                then (let d0 = or_unchanged d (SetBalance K d to 0) in or_unchanged d0 (SetNonce K d0 to 0))
                else d);
          newBalance = GetBalance K d1 to + value
      in (Inr (), or_unchanged d1 (SetBalance K d1 to newBalance)))"

definition applyTransaction ::
    "'d kv_ops \<Rightarrow> (bytes \<Rightarrow> hash) \<Rightarrow> (bytes \<Rightarrow> bytes) \<Rightarrow> 'd \<Rightarrow> tx option \<Rightarrow> (apply_error + unit) \<times> 'd" where
  "applyTransaction K sha256 keccak256 d transaction =
     (case transaction of
        None \<Rightarrow> (Inl Apply_Nil, d)
      | Some t \<Rightarrow>
          let senderAddress = BytesToQuantumAddress (Address_Bytes (tx_From t))
          in case GetNonce K d senderAddress of
               None \<Rightarrow> (Inl Apply_Panic, d)
             | Some senderNonce \<Rightarrow>
                 if tx_Nonce t \<noteq> senderNonce then (Inl Apply_Nonce, d)
                 else case (tx_Value t, gas_cost t) of
                   (Some value, Some gasCost) \<Rightarrow>
                     let totalCost = value + gasCost;
                         senderBalance = GetBalance K d senderAddress
                     in if senderBalance < totalCost then (Inl Apply_Balance, d)
                        else
                          let d1 = or_unchanged d (SetBalance K d senderAddress (senderBalance - totalCost));
                              d2 = or_unchanged d1 (SetNonce K d1 senderAddress (senderNonce + 1))
                          in (case tx_To t of
                                None \<Rightarrow> applyContractCreation K sha256 keccak256 d2 t value
                              | Some dest \<Rightarrow> applyTransferOrCall K d2 t dest value)
                 | _ \<Rightarrow> (Inl Apply_Panic, d))"

fun applyBlockTransactions ::
    "'d kv_ops \<Rightarrow> (bytes \<Rightarrow> hash) \<Rightarrow> (bytes \<Rightarrow> bytes) \<Rightarrow> 'd \<Rightarrow> tx option list \<Rightarrow> (apply_error + unit) \<times> 'd" where
  "applyBlockTransactions K sha256 keccak256 d [] = (Inr (), d)"
| "applyBlockTransactions K sha256 keccak256 d (t # ts) =
     (case applyTransaction K sha256 keccak256 d t of
        (Inl e, d') \<Rightarrow> (Inl e, d')
      | (Inr _, d') \<Rightarrow> applyBlockTransactions K sha256 keccak256 d' ts)"

section \<open>Facts about the selection\<close>

lemma check_distinct_Inr:
  "check_distinct sha256 i seen txs = Inr ts \<longleftrightarrow>
     txs = map Some ts \<and> distinct (map (tx_Hash sha256) ts) \<and> set (map (tx_Hash sha256) ts) \<inter> set seen = {}"
proof (induction sha256 i seen txs arbitrary: ts rule: check_distinct.induct)
  case (2 sha256 i seen currentTx txs)
  show ?case
  proof (cases currentTx)
    case (Some t)
    show ?thesis
    proof (cases "tx_Hash sha256 t \<in> set seen")
      case False
      note IH = "2.IH" [OF Some False]
      show ?thesis
      proof (cases "check_distinct sha256 (i + 1) (tx_Hash sha256 t # seen) txs")
        case (Inl e)
        then show ?thesis using False IH [of "tl ts"] by (cases ts) (auto simp: Some)
      next
        case (Inr us)
        then show ?thesis using False IH [of us] by (cases ts) (auto simp: Some)
      qed
    qed (cases ts, auto simp: Some)
  qed auto
qed auto

definition tx_cost :: "tx \<Rightarrow> int" where
  "tx_cost t = (case tx_Value t of None \<Rightarrow> 0 | Some v \<Rightarrow> v) + (case gas_cost t of None \<Rightarrow> 0 | Some c \<Rightarrow> c)"

text \<open>The nonces \<open>n\<close>, \<open>n + 1\<close>, ... with wrap-around.\<close>

fun nonces_from :: "u64 \<Rightarrow> tx list \<Rightarrow> bool" where
  "nonces_from n [] = True"
| "nonces_from n (t # ts) \<longleftrightarrow> tx_Nonce t = n \<and> nonces_from (n + 1) ts"

lemma check_sender_Inr:
  "check_sender i n b ts = Inr () \<Longrightarrow> nonces_from n ts \<and> (ts = [] \<or> (\<Sum>t\<leftarrow>ts. tx_cost t) \<le> b)"
proof (induction ts arbitrary: i n b)
  case (Cons t ts)
  from Cons.prems obtain v c where vc: "tx_Value t = Some v" "gas_cost t = Some c" "tx_Nonce t = n"
    and le: "v + c \<le> b" and rest: "check_sender (i + 1) (n + 1) (b - (v + c)) ts = Inr ()"
    by (auto split: if_splits option.splits)
  show ?case
    using Cons.IH [OF rest] vc le by (auto simp: tx_cost_def)
qed simp

lemma nonces_from_distinct:
  assumes "nonces_from n ts" and "sorted (map tx_Nonce ts)"
  shows "distinct (map tx_Nonce ts)"
proof -
  have "nonces_from n ts \<Longrightarrow> sorted (map tx_Nonce ts) \<Longrightarrow> sorted_wrt (<) (map tx_Nonce ts)"
  proof (induction n ts rule: nonces_from.induct)
    case (2 n t ts)
    show ?case
    proof (cases ts)
      case (Cons u us)
      have "tx_Nonce t < tx_Nonce u"
        using 2 Cons by (auto simp: order_less_le)
      moreover have "\<forall>x\<in>set ts. tx_Nonce u \<le> tx_Nonce x"
        using 2 Cons by auto
      ultimately show ?thesis using 2 by auto
    qed simp
  qed simp
  with assms show ?thesis by (simp add: strict_sorted_iff)
qed

lemma check_senders_Inr:
  "check_senders K d V height groups ss = Inr out \<longleftrightarrow>
     list_all (\<lambda>s. check_account K d V height s (groups s) = Inr ()) ss \<and> out = concat (map groups ss)"
proof (induction ss arbitrary: out)
  case (Cons s ss)
  let ?a = "check_account K d V height s (groups s)" and ?r = "check_senders K d V height groups ss"
  show ?case
  proof (cases ?a)
    case (Inr u)
    then show ?thesis
    proof (cases ?r)
      case (Inl e)
      then have "\<not> list_all (\<lambda>s. check_account K d V height s (groups s) = Inr ()) ss"
        using Cons.IH [of "concat (map groups ss)"] by simp
      with Inl \<open>?a = Inr u\<close> show ?thesis by simp
    next
      case (Inr rest)
      then show ?thesis using \<open>?a = Inr u\<close> Cons.IH [of rest] by auto
    qed
  qed simp
qed auto

lemma mset_groups:
  "distinct ss \<Longrightarrow> mset (concat (map (\<lambda>s. filter (\<lambda>t. f t = s) ts) ss)) = filter_mset (\<lambda>t. f t \<in> set ss) (mset ts)"
proof (induction ss)
  case (Cons s ss)
  have "filter_mset (\<lambda>t. f t = s) (mset ts) + filter_mset (\<lambda>t. f t \<in> set ss) (mset ts) =
      filter_mset (\<lambda>t. f t = s \<or> f t \<in> set ss) (mset ts)"
    using Cons.prems by (induction ts) auto
  with Cons show ?case by simp
qed simp

lemma mset_sender_groups:
  "mset (concat (map (sender_txs ts) (sorted_senders ts))) = mset ts"
proof -
  have "mset (concat (map (sender_txs ts) ss)) = mset (concat (map (\<lambda>s. filter (\<lambda>t. tx_From t = s) ts) ss))" for ss
    by (induction ss) (simp_all add: sender_txs_def)
  moreover have "filter_mset (\<lambda>t. tx_From t \<in> tx_From ` set ts) (mset ts) = mset ts"
    by (simp add: filter_mset_eq_conv)
  ultimately show ?thesis
    by (simp add: mset_groups sorted_senders_def)
qed

lemma sender_of_group: "t \<in> set (sender_txs ts s) \<Longrightarrow> tx_From t = s"
  by (simp add: sender_txs_def)

lemma filter_group:
  "distinct ss \<Longrightarrow> filter (\<lambda>t. tx_From t = s) (concat (map (sender_txs ts) ss)) =
     (if s \<in> set ss then sender_txs ts s else [])"
proof (induction ss)
  case (Cons s' ss)
  have "filter (\<lambda>t. tx_From t = s) (sender_txs ts s') = (if s' = s then sender_txs ts s else [])"
    using sender_of_group [of _ ts s'] by (auto simp: filter_empty_conv intro!: filter_True)
  with Cons show ?case by auto
qed simp

lemma sorted_groups:
  "sorted ss \<Longrightarrow> sorted (map tx_From (concat (map (sender_txs ts) ss)))"
proof (induction ss)
  case (Cons s ss)
  have "map tx_From (sender_txs ts s) = replicate (length (sender_txs ts s)) s"
    using sender_of_group [of _ ts s] by (simp add: map_replicate_const [symmetric])
  with Cons show ?case by (auto simp: sorted_append dest: sender_of_group)
qed simp

lemma sortAndValidate_Inr:
  "sortAndValidateTransactions K sha256 d V height txs = Inr out \<longleftrightarrow>
     (\<exists>ts. txs = map Some ts \<and> distinct (map (tx_Hash sha256) ts)
       \<and> list_all (\<lambda>s. check_account K d V height s (sender_txs ts s) = Inr ()) (sorted_senders ts)
       \<and> out = concat (map (sender_txs ts) (sorted_senders ts)))"
proof (cases "txs = []")
  case True
  have "sorted_senders [] = []" by (simp add: sorted_senders_def)
  with True show ?thesis by (auto simp: sortAndValidateTransactions_def)
next
  case False
  show ?thesis
  proof (cases "check_distinct sha256 0 [] txs")
    case (Inl e)
    then have "\<not> (txs = map Some ts \<and> distinct (map (tx_Hash sha256) ts))" for ts
      using check_distinct_Inr [of sha256 0 "[]" txs ts] by simp
    with False Inl show ?thesis by (auto simp: sortAndValidateTransactions_def)
  next
    case (Inr ts)
    then have f: "txs = map Some us \<and> distinct (map (tx_Hash sha256) us) \<longleftrightarrow> us = ts" for us
      using check_distinct_Inr [of sha256 0 "[]" txs us] by auto
    have "(\<exists>us. txs = map Some us \<and> distinct (map (tx_Hash sha256) us) \<and> P us) \<longleftrightarrow> P ts" for P
      by (simp only: conj_assoc [symmetric] f) simp
    with False Inr show ?thesis
      by (simp only: sortAndValidateTransactions_def if_False sum.case check_senders_Inr)
  qed
qed

lemma distinct_map_perm: "mset xs = mset ys \<Longrightarrow> distinct (map f xs) \<longleftrightarrow> distinct (map f ys)"
  by (rule mset_eq_imp_distinct_iff) simp

lemma check_account_Inr:
  assumes "check_account K d V height s ts = Inr ()"
  obtains n b where "GetNonce K d s = Some n" and "nonces_from n ts"
    and "spendableBalanceAtHeight K d (cv_blockAt V) (cv_minConfirmations V) s height (\<lambda>_. None) = Some b"
    and "ts = [] \<or> (\<Sum>t\<leftarrow>ts. tx_cost t) \<le> b"
proof -
  from assms obtain n b where "GetNonce K d s = Some n"
    and "spendableBalanceAtHeight K d (cv_blockAt V) (cv_minConfirmations V) s height (\<lambda>_. None) = Some b"
    and "check_sender 0 n b ts = Inr ()"
    by (auto simp: check_account_def Let_def split: option.splits)
  with check_sender_Inr that show thesis by blast
qed

text \<open>Two transactions of a funded sender, and a digest that tells them apart.\<close>

definition rich_state :: "(bytes, bytes) alist" where
  "rich_state = DAList.update (balance_key 0) (big_bytes 1000000000000000000) DAList.empty"

definition second_tx :: tx where
  "second_tx = sample_tx\<lparr>tx_Nonce := 1\<rparr>"

definition sample_sha :: "bytes \<Rightarrow> hash" where
  "sample_sha b = (if b = signing_preimage sample_tx then 0 else 1)"

lemma sample_tx_sel:
  "tx_From sample_tx = 0" "tx_Nonce sample_tx = 0" "tx_Value sample_tx = Some 515"
  "tx_GasPrice sample_tx = Some 1000000000" "tx_Gas sample_tx = 21000" "tx_To sample_tx = Some 5"
  "tx_Data sample_tx = []"
  by (simp_all add: sample_tx_def)

lemma second_tx_sel:
  "tx_From second_tx = 0" "tx_Nonce second_tx = 1" "tx_Value second_tx = Some 515"
  "tx_GasPrice second_tx = Some 1000000000" "tx_Gas second_tx = 21000"
  by (simp_all add: second_tx_def sample_tx_sel)

lemma sample_selection:
  "sortAndValidateTransactions map_kv sample_sha rich_state no_chain 5 [Some second_tx, Some sample_tx]
     = Inr [sample_tx, second_tx]"
proof -
  have pre: "signing_preimage second_tx \<noteq> signing_preimage sample_tx"
    by (simp add: signing_preimage_def second_tx_def word_bytes_inject sample_tx_sel)
  have "GetBalance map_kv rich_state 0 = 1000000000000000000" and "GetNonce map_kv rich_state 0 = Some 0"
    by (simp_all add: rich_state_def GetBalance_def GetNonce_def map_kv_def lookup_update)
  moreover have "spendableBalanceAtHeight map_kv rich_state (cv_blockAt no_chain) (cv_minConfirmations no_chain) 0 5 (\<lambda>_. None)
      = Some (GetBalance map_kv rich_state 0)"
    by (simp add: spendableBalanceAtHeight_def immatureIncomingBalance_def no_chain_def txMaturityConfirmations_def
        mkv.GetBalance_nonneg not_less)
  moreover have "sint (21000 :: u64) = 21000" by (simp add: sint_small)
  moreover have "sorted_senders [second_tx, sample_tx] = [0]"
    by (simp add: sorted_senders_def sample_tx_sel second_tx_sel)
  moreover have "sender_txs [second_tx, sample_tx] 0 = [sample_tx, second_tx]"
    by (simp add: sender_txs_def sample_tx_sel second_tx_sel)
  ultimately show ?thesis
    using pre by (simp add: sortAndValidateTransactions_def check_account_def Let_def gas_cost_def
        sample_tx_sel second_tx_sel sample_sha_def)
qed

section \<open>Properties\<close>

text \<open>
  An accepted selection is a permutation of the given transactions, all present and with
  pairwise different hashes, in ascending order of sender address; each sender's transactions
  have consecutive nonces starting at the account's nonce, and together cost no more than the
  sender can spend.
\<close>

theorem selection_is_valid:
  assumes "sortAndValidateTransactions K sha256 d V height txs = Inr out"
  shows "mset txs = mset (map Some out) \<and> distinct (map (tx_Hash sha256) out)
    \<and> sorted (map tx_From out)
    \<and> list_all (\<lambda>t. \<exists>n b. GetNonce K d (tx_From t) = Some n
          \<and> nonces_from n (filter (\<lambda>u. tx_From u = tx_From t) out)
          \<and> spendableBalanceAtHeight K d (cv_blockAt V) (cv_minConfirmations V) (tx_From t) height (\<lambda>_. None) = Some b
          \<and> (\<Sum>u\<leftarrow>filter (\<lambda>u. tx_From u = tx_From t) out. tx_cost u) \<le> b) out"
proof -
  from assms obtain ts where txs: "txs = map Some ts" and dist: "distinct (map (tx_Hash sha256) ts)"
    and ok: "list_all (\<lambda>s. check_account K d V height s (sender_txs ts s) = Inr ()) (sorted_senders ts)"
    and out: "out = concat (map (sender_txs ts) (sorted_senders ts))"
    unfolding sortAndValidate_Inr by blast
  have perm: "mset out = mset ts" unfolding out by (rule mset_sender_groups)
  have "distinct (map (tx_Hash sha256) out)"
    using dist distinct_map_perm [OF perm] by blast
  moreover have "sorted (map tx_From out)"
    unfolding out by (rule sorted_groups) (simp add: sorted_senders_def)
  moreover have "\<exists>n b. GetNonce K d (tx_From t) = Some n
          \<and> nonces_from n (filter (\<lambda>u. tx_From u = tx_From t) out)
          \<and> spendableBalanceAtHeight K d (cv_blockAt V) (cv_minConfirmations V) (tx_From t) height (\<lambda>_. None) = Some b
          \<and> (\<Sum>u\<leftarrow>filter (\<lambda>u. tx_From u = tx_From t) out. tx_cost u) \<le> b" if "t \<in> set out" for t
  proof -
    have "t \<in> set ts" using that perm by (metis set_mset_mset)
    then have s: "tx_From t \<in> set (sorted_senders ts)" by (simp add: sorted_senders_def)
    then have grp: "filter (\<lambda>u. tx_From u = tx_From t) out = sender_txs ts (tx_From t)"
      unfolding out by (subst filter_group) (simp_all add: sorted_senders_def)
    have "t \<in> set (filter (\<lambda>u. tx_From u = tx_From t) out)" using that by simp
    then have "sender_txs ts (tx_From t) \<noteq> []"
      unfolding grp by (cases "sender_txs ts (tx_From t)") simp_all
    moreover have "check_account K d V height (tx_From t) (sender_txs ts (tx_From t)) = Inr ()"
      using ok s by (simp add: list_all_iff)
    ultimately show ?thesis
      unfolding grp by (elim check_account_Inr) blast
  qed
  ultimately show ?thesis by (simp add: txs perm list_all_iff)
qed

theorem selection_is_valid_witness:
  "list_all (\<lambda>t. \<exists>n. GetNonce map_kv rich_state (tx_From t) = Some n
      \<and> nonces_from n (filter (\<lambda>u. tx_From u = tx_From t) [sample_tx, second_tx])) [sample_tx, second_tx]"
  using selection_is_valid [OF sample_selection] by (auto simp: list_all_iff)

text \<open>
  The selection is canonical: it depends on the set of transactions only, so nodes that
  collected the same transactions in different orders build the same list.
\<close>

theorem selection_is_canonical:
  assumes "sortAndValidateTransactions K sha256 d V height txs = Inr out" and "mset txs' = mset txs"
  shows "sortAndValidateTransactions K sha256 d V height txs' = Inr out"
proof -
  from assms(1) obtain ts where txs: "txs = map Some ts" and dist: "distinct (map (tx_Hash sha256) ts)"
    and ok: "list_all (\<lambda>s. check_account K d V height s (sender_txs ts s) = Inr ()) (sorted_senders ts)"
    and out: "out = concat (map (sender_txs ts) (sorted_senders ts))"
    unfolding sortAndValidate_Inr by blast
  have "None \<notin> set txs'" using mset_eq_setD [OF assms(2)] by (auto simp: txs)
  then obtain us where us: "txs' = map Some us" by (metis ex_map_conv not_None_eq)
  have perm: "mset us = mset ts"
    using assms(2) by (simp add: txs us) (metis mset_map multiset.inj_map_strong option.inject)
  have "distinct (map (tx_Hash sha256) us)"
    using dist distinct_map_perm [OF perm] by blast
  moreover have "sorted_senders us = sorted_senders ts"
    unfolding sorted_senders_def
    by (rule sorted_distinct_set_unique) (simp_all add: mset_eq_setD [OF perm])
  moreover have "sender_txs us s = sender_txs ts s" if "s \<in> set (sorted_senders ts)" for s
  proof -
    from ok that have "check_account K d V height s (sender_txs ts s) = Inr ()"
      by (simp add: list_all_iff)
    then obtain n where "nonces_from n (sender_txs ts s)" by (elim check_account_Inr)
    then have "distinct (map tx_Nonce (sender_txs ts s))"
      by (rule nonces_from_distinct) (simp add: sender_txs_def)
    then have d: "distinct (map tx_Nonce (filter (\<lambda>t. tx_From t = s) ts))"
      by (subst (asm) distinct_map_perm [of _ "filter (\<lambda>t. tx_From t = s) ts"]) (simp_all add: sender_txs_def)
    moreover have m: "mset (filter (\<lambda>t. tx_From t = s) us) = mset (filter (\<lambda>t. tx_From t = s) ts)"
      by (simp add: perm)
    ultimately have "distinct (map tx_Nonce (filter (\<lambda>t. tx_From t = s) us))"
      using distinct_map_perm [OF m] by blast
    then show ?thesis
      unfolding sender_txs_def using d by (rule sort_key_unique) (rule mset_eq_setD [OF m])
  qed
  ultimately show ?thesis
    unfolding sortAndValidate_Inr using us ok out
    by (intro exI [of _ us]) (simp add: list_all_iff cong: map_cong)
qed

theorem selection_is_canonical_witness:
  "sortAndValidateTransactions map_kv sample_sha rich_state no_chain 5 [Some sample_tx, Some second_tx]
     = Inr [sample_tx, second_tx]"
  by (rule selection_is_canonical [OF sample_selection]) simp

text \<open>
  Applying a transfer directly to the state burns its gas cost, unlike block execution; and
  it resets the nonce of a recipient that holds nothing and has no code to zero - also when
  that recipient has already sent transactions, whose signatures then become valid again.
\<close>

theorem direct_transfer_effect:
  assumes "kv_reliable K" and "applyTransaction K sha256 keccak256 d (Some t) = (Inr (), d')"
    and "tx_To t = Some dest" and "dest \<noteq> tx_From t"
    and "tx_Value t = Some value" and "0 \<le> value" and "gas_cost t = Some cost"
  shows "ledger_total (GetBalance K d') = ledger_total (GetBalance K d) - cost
    \<and> GetBalance K d' = (GetBalance K d)(tx_From t := GetBalance K d (tx_From t) - (value + cost),
        dest := GetBalance K d dest + value)
    \<and> GetNonce K d' (tx_From t) = Some (tx_Nonce t + 1)
    \<and> GetNonce K d' dest = (if GetBalance K d dest = 0 \<and> GetCode K d dest = [] then Some 0 else GetNonce K d dest)"
proof -
  note st = kv_reliable.is_store [OF assms(1)]
  let ?from = "tx_From t"
  let ?rest = "GetBalance K d ?from - (value + cost)"
  have nonce: "GetNonce K d ?from = Some (tx_Nonce t)" and le: "0 \<le> ?rest"
    using assms by (auto simp: applyTransaction_def Let_def split: option.splits if_splits)
  obtain d1 where d1: "SetBalance K d ?from ?rest = Inr d1"
    using kv_reliable.SetBalance_succeeds [OF assms(1) le] by blast
  obtain d2 where d2: "SetNonce K d1 ?from (tx_Nonce t + 1) = Inr d2"
    using kv_reliable.SetNonce_succeeds [OF assms(1)] by blast
  have b2: "GetBalance K d2 = (GetBalance K d)(?from := ?rest)"
    and n2: "GetNonce K d2 = (GetNonce K d)(?from := Some (tx_Nonce t + 1))" and c2: "GetCode K d2 = GetCode K d"
    using kv_store.SetBalance_Inr [OF st d1] kv_store.SetNonce_Inr [OF st d2] by simp_all
  have tr: "applyTransferOrCall K d2 t dest value = (Inr (), d')"
    using assms nonce le d1 d2 by (simp add: applyTransaction_def Let_def)
  have dpos: "0 \<le> GetBalance K d2 dest" by (rule kv_store.GetBalance_nonneg [OF st])
  let ?fresh = "GetBalance K d2 dest = 0 \<and> GetCode K d2 dest = []"
  obtain d3 where d3: "d3 = (if ?fresh then (let d0 = or_unchanged d2 (SetBalance K d2 dest 0)
        in or_unchanged d0 (SetNonce K d0 dest 0)) else d2)"
      and fin: "d' = or_unchanged d3 (SetBalance K d3 dest (GetBalance K d3 dest + value))"
    using tr dpos by (auto simp: applyTransferOrCall_def Let_def order_less_le split: if_splits)
  have b3: "GetBalance K d3 = GetBalance K d2"
    and n3: "GetNonce K d3 = (if ?fresh then (GetNonce K d2)(dest := Some 0) else GetNonce K d2)"
  proof -
    obtain e where e: "SetBalance K d2 dest 0 = Inr e"
      using kv_reliable.SetBalance_succeeds [OF assms(1)] by blast
    obtain f where f: "SetNonce K e dest 0 = Inr f"
      using kv_reliable.SetNonce_succeeds [OF assms(1)] by blast
    show "GetBalance K d3 = GetBalance K d2"
      using kv_store.SetBalance_Inr(1) [OF st e] kv_store.SetNonce_Inr(2) [OF st f]
      by (auto simp: d3 Let_def e f)
    show "GetNonce K d3 = (if ?fresh then (GetNonce K d2)(dest := Some 0) else GetNonce K d2)"
      using kv_store.SetBalance_Inr(2) [OF st e] kv_store.SetNonce_Inr(1) [OF st f]
      by (simp add: d3 Let_def e f)
  qed
  have "0 \<le> GetBalance K d3 dest + value" using dpos b3 assms(6) by simp
  then obtain d4 where d4: "SetBalance K d3 dest (GetBalance K d3 dest + value) = Inr d4"
    using kv_reliable.SetBalance_succeeds [OF assms(1)] by blast
  then have d': "d' = d4" by (simp add: fin)
  have bal: "GetBalance K d' = (GetBalance K d)(?from := ?rest, dest := GetBalance K d dest + value)"
    and non: "GetNonce K d' = GetNonce K d3"
    using kv_store.SetBalance_Inr [OF st d4] b2 b3 assms(4) by (auto simp: d')
  have "ledger_total (GetBalance K d') = ledger_total (GetBalance K d) - cost"
    using assms(4) by (simp add: bal ledger_total_upd)
  with bal non n2 n3 b2 c2 assms(4) show ?thesis by simp
qed

theorem direct_transfer_effect_witness:
  "\<exists>d'. applyTransaction map_kv (\<lambda>_. 9) (\<lambda>_. []) rich_state (Some sample_tx) = (Inr (), d')
    \<and> GetBalance map_kv d' 5 = 515 \<and> GetNonce map_kv d' 5 = Some 0"
proof -
  have r: "GetBalance map_kv rich_state a = (if a = 0 then 1000000000000000000 else 0)"
    "GetNonce map_kv rich_state a = Some 0" "GetCode map_kv rich_state a = []" for a
    by (simp_all add: rich_state_def GetBalance_def GetNonce_def GetCode_def map_kv_def lookup_update)
  have c: "gas_cost sample_tx = Some 21000000000000"
    by (simp add: gas_cost_def sample_tx_sel sint_small)
  obtain d' where d': "applyTransaction map_kv (\<lambda>_. 9) (\<lambda>_. []) rich_state (Some sample_tx) = (Inr (), d')"
    by (simp add: applyTransaction_def sample_tx_sel r c Let_def applyTransferOrCall_def)
  show ?thesis
    using direct_transfer_effect [OF mkv.kv_reliable_axioms d' sample_tx_sel(6) _ sample_tx_sel(3) _ c] d'
    by (simp add: sample_tx_sel r)
qed

end
