(* ===== verification/Staking.thy ===== *)
theory Staking
  imports Account_State "HOL-Library.Multiset"
begin

text \<open>
  The staking manager (\<open>antdc/staking/staking.go\<close>) and the stake checks of block validation
  (\<open>antdc/validation/staking_validator.go\<close>).

  The manager's maps are functions on addresses; loops over a map take the iteration order as
  an argument. \<open>time.Time\<close> is a number of nanoseconds; the successive readings of the clock in
  one call are \<open>clk 0\<close>, \<open>clk 1\<close>, and so on. \<open>height\<close> is what the block height provider answers,
  zero without one. \<open>persist\<close> is whether writing the snapshot succeeds; it is \<open>True\<close> when no
  persist function is set. Manager and account state are returned with errors too.
\<close>

section \<open>Data\<close>

record stake_info =
  si_Address :: address
  si_Amount :: int
  si_RegisteredAt :: u64
  si_StartTime :: int
  si_LockUntil :: int
  si_BlocksMined :: u64
  si_RewardsEarned :: "int option"
  si_IsActive :: bool
  si_SlashCount :: u64
  si_LastActivity :: u64

datatype withdrawal_status = Pending | Processing | Completed | Cancelled

record withdrawal_request =
  wr_Address :: address
  wr_Amount :: int
  wr_RequestTime :: int
  wr_RequestBlock :: u64
  wr_UnlockBlock :: u64
  wr_Status :: withdrawal_status

record stake_event =
  ev_Type :: string
  ev_Address :: address
  ev_Amount :: int
  ev_Timestamp :: int
  ev_Block :: u64

record 'd staking =
  sm_stakes :: "address \<Rightarrow> stake_info option"
  sm_totalStaked :: int
  sm_withdrawals :: "address \<Rightarrow> withdrawal_request option"
  sm_minStakeAmount :: int
  sm_lockDuration :: int
  sm_slashPercentage :: int
  sm_events :: "stake_event list"
  sm_statedb :: 'd

datatype staking_error =
    Err_Insufficient_Stake | Err_Already_Staked | Err_Not_Staked | Err_Stake_Locked
  | Err_Invalid_Stake_Value | Insufficient_Stake_Balance | Signing_Failed
  | Stake_State_Error state_error | Persist_Failed | Snapshot_Not_Json | Bad_Snapshot_Amount address | Bad_Snapshot_Rewards address

definition unstakeUnlockDelayBlocks :: u64 where "unstakeUnlockDelayBlocks = 20"

definition NewStakingManager :: "'d \<Rightarrow> int option \<Rightarrow> 'd staking" where
  "NewStakingManager statedb minStake =
     \<lparr>sm_stakes = \<lambda>_. None, sm_totalStaked = 0, sm_withdrawals = \<lambda>_. None,
      sm_minStakeAmount = (case minStake of None \<Rightarrow> 1000000 * 1000000000000000000 | Some m \<Rightarrow> m),
      sm_lockDuration = 7 * 24 * 3600 * 1000000000, sm_slashPercentage = 5, sm_events = [],
      sm_statedb = statedb\<rparr>"

section \<open>Operations\<close>

text \<open>The event channel holds 100 events; a full channel drops the event.\<close>

definition emitEvent :: "'d staking \<Rightarrow> stake_event \<Rightarrow> 'd staking" where
  "emitEvent sm event =
     (if length (sm_events sm) < 100 then sm\<lparr>sm_events := sm_events sm @ [event]\<rparr> else sm)"

definition stakeCommitmentHash :: "crypto \<Rightarrow> string \<Rightarrow> address \<Rightarrow> int \<Rightarrow> int \<Rightarrow> hash" where
  "stakeCommitmentHash C action addr amount now =
     sha3 C (str_bytes action @ Address_Bytes addr @ big_bytes amount
             @ word_bytes 8 (word_of_int (now div 1000000000) :: u64))"

definition persistLocked :: "bool \<Rightarrow> 'd staking \<Rightarrow> (staking_error + unit) \<times> 'd staking" where
  "persistLocked persist sm = (if persist then Inr () else Inl Persist_Failed, sm)"

definition Stake ::
    "'d kv_ops \<Rightarrow> crypto \<Rightarrow> (nat \<Rightarrow> int) \<Rightarrow> u64 \<Rightarrow> bool \<Rightarrow> 'd staking \<Rightarrow> address \<Rightarrow> int \<Rightarrow> bytes
     \<Rightarrow> (staking_error + unit) \<times> 'd staking" where
  "Stake K C clk height persist sm addr amount privKey =
     (if amount < sm_minStakeAmount sm then (Inl Err_Insufficient_Stake, sm)
      else if amount \<noteq> sm_minStakeAmount sm then (Inl Err_Invalid_Stake_Value, sm)
      else if (case sm_stakes sm addr of
                 None \<Rightarrow> False
               | Some existing \<Rightarrow> si_IsActive existing
                   \<or> (case sm_withdrawals sm addr of None \<Rightarrow> False | Some w \<Rightarrow> wr_Status w = Pending))
      then (Inl Err_Already_Staked, sm)
      else if GetBalance K (sm_statedb sm) addr < amount then (Inl Insufficient_Stake_Balance, sm)
      else case Sign C privKey (Hash_Bytes (stakeCommitmentHash C ''STAKE'' addr amount (clk 0))) of
        None \<Rightarrow> (Inl Signing_Failed, sm)
      | Some _ \<Rightarrow>
          (case AddBalance K (sm_statedb sm) addr (- amount) of
             Inl e \<Rightarrow> (Inl (Stake_State_Error e), sm)
           | Inr d \<Rightarrow>
               let info = \<lparr>si_Address = addr, si_Amount = amount, si_RegisteredAt = height,
                     si_StartTime = clk 1, si_LockUntil = clk 2 + sm_lockDuration sm, si_BlocksMined = 0,
                     si_RewardsEarned = None, si_IsActive = True, si_SlashCount = 0,
                     si_LastActivity = height\<rparr>;
                   sm1 = sm\<lparr>sm_statedb := d, sm_stakes := (sm_stakes sm)(addr \<mapsto> info),
                            sm_totalStaked := sm_totalStaked sm + amount\<rparr>;
                   sm2 = emitEvent sm1 \<lparr>ev_Type = ''Stake'', ev_Address = addr, ev_Amount = amount,
                           ev_Timestamp = clk 3, ev_Block = height\<rparr>
               in persistLocked persist sm2))"

definition GetStake :: "'d staking \<Rightarrow> address \<Rightarrow> int" where
  "GetStake sm addr =
     (case sm_stakes sm addr of
        None \<Rightarrow> 0
      | Some stake \<Rightarrow> if \<not> si_IsActive stake then 0 else si_Amount stake)"

definition GetEligibleMiners :: "address list \<Rightarrow> 'd staking \<Rightarrow> int \<Rightarrow> address list" where
  "GetEligibleMiners order sm minStake =
     filter (\<lambda>addr. case sm_stakes sm addr of
         None \<Rightarrow> False
       | Some stake \<Rightarrow> si_IsActive stake \<and> si_Amount stake \<ge> minStake) order"

definition Unstake ::
    "crypto \<Rightarrow> (nat \<Rightarrow> int) \<Rightarrow> u64 \<Rightarrow> bool \<Rightarrow> 'd staking \<Rightarrow> address \<Rightarrow> bytes
     \<Rightarrow> (staking_error + unit) \<times> 'd staking" where
  "Unstake C clk height persist sm addr privKey =
     (case sm_stakes sm addr of
        None \<Rightarrow> (Inl Err_Not_Staked, sm)
      | Some stake \<Rightarrow>
          if \<not> si_IsActive stake then (Inl Err_Not_Staked, sm)
          else if clk 0 < si_LockUntil stake then (Inl Err_Stake_Locked, sm)
          else case Sign C privKey (Hash_Bytes (stakeCommitmentHash C ''UNSTAKE'' addr (si_Amount stake) (clk 1))) of
            None \<Rightarrow> (Inl Signing_Failed, sm)
          | Some _ \<Rightarrow>
              let sm1 = sm\<lparr>sm_stakes := (sm_stakes sm)(addr \<mapsto> stake\<lparr>si_IsActive := False\<rparr>),
                           sm_totalStaked := sm_totalStaked sm - si_Amount stake\<rparr>;
                  request = \<lparr>wr_Address = addr, wr_Amount = si_Amount stake, wr_RequestTime = clk 2,
                      wr_RequestBlock = height, wr_UnlockBlock = height + unstakeUnlockDelayBlocks,
                      wr_Status = Pending\<rparr>;
                  sm2 = sm1\<lparr>sm_withdrawals := (sm_withdrawals sm1)(addr \<mapsto> request)\<rparr>;
                  sm3 = emitEvent sm2 \<lparr>ev_Type = ''Unstake'', ev_Address = addr, ev_Amount = si_Amount stake,
                          ev_Timestamp = clk 3, ev_Block = height\<rparr>
              in persistLocked persist sm3)"

text \<open>The loop over the withdrawals, with the number processed so far.\<close>

fun withdrawals_loop ::
    "'d kv_ops \<Rightarrow> (nat \<Rightarrow> int) \<Rightarrow> u64 \<Rightarrow> address list \<Rightarrow> nat \<Rightarrow> 'd staking \<Rightarrow> (staking_error + nat) \<times> 'd staking" where
  "withdrawals_loop K clk currentHeight [] processed sm = (Inr processed, sm)"
| "withdrawals_loop K clk currentHeight (addr # order) processed sm =
     (case sm_withdrawals sm addr of
        None \<Rightarrow> withdrawals_loop K clk currentHeight order processed sm
      | Some w \<Rightarrow>
          if wr_Status w = Pending \<and> currentHeight \<ge> wr_UnlockBlock w then
            (case AddBalance K (sm_statedb sm) addr (wr_Amount w) of
               Inl e \<Rightarrow> (Inl (Stake_State_Error e), sm)
             | Inr d \<Rightarrow>
                 let sm1 = sm\<lparr>sm_statedb := d, sm_withdrawals := (sm_withdrawals sm)(addr \<mapsto> w\<lparr>wr_Status := Completed\<rparr>)\<rparr>;
                     sm2 = emitEvent sm1 \<lparr>ev_Type = ''Withdrawal'', ev_Address = addr, ev_Amount = wr_Amount w,
                             ev_Timestamp = clk processed, ev_Block = currentHeight\<rparr>
                 in withdrawals_loop K clk currentHeight order (processed + 1) sm2)
          else withdrawals_loop K clk currentHeight order processed sm)"

definition ProcessWithdrawalsAtHeight ::
    "'d kv_ops \<Rightarrow> (nat \<Rightarrow> int) \<Rightarrow> bool \<Rightarrow> address list \<Rightarrow> 'd staking \<Rightarrow> u64 \<Rightarrow> (staking_error + unit) \<times> 'd staking" where
  "ProcessWithdrawalsAtHeight K clk persist order sm currentHeight =
     (case withdrawals_loop K clk currentHeight order 0 sm of
        (Inl e, sm') \<Rightarrow> (Inl e, sm')
      | (Inr processed, sm') \<Rightarrow> if processed > 0 then persistLocked persist sm' else (Inr (), sm'))"

definition Slash ::
    "'d kv_ops \<Rightarrow> (nat \<Rightarrow> int) \<Rightarrow> u64 \<Rightarrow> bool \<Rightarrow> 'd staking \<Rightarrow> address \<Rightarrow> (staking_error + unit) \<times> 'd staking" where
  "Slash K clk height persist sm addr =
     (case sm_stakes sm addr of
        None \<Rightarrow> (Inl Err_Not_Staked, sm)
      | Some stake \<Rightarrow>
          if \<not> si_IsActive stake then (Inl Err_Not_Staked, sm)
          else
            let slashAmount = si_Amount stake * sm_slashPercentage sm div 100;
                stake1 = stake\<lparr>si_Amount := si_Amount stake - slashAmount\<rparr>;
                sm1 = sm\<lparr>sm_stakes := (sm_stakes sm)(addr \<mapsto> stake1),
                         sm_totalStaked := sm_totalStaked sm - slashAmount\<rparr>
            in case AddBalance K (sm_statedb sm1) zero_address slashAmount of
                 Inl e \<Rightarrow> (Inl (Stake_State_Error e), sm1)
               | Inr d \<Rightarrow>
                   let stake2 = stake1\<lparr>si_SlashCount := si_SlashCount stake1 + 1\<rparr>;
                       stake3 = (if si_Amount stake2 < sm_minStakeAmount sm1
                                 then stake2\<lparr>si_IsActive := False\<rparr> else stake2);
                       sm2 = sm1\<lparr>sm_statedb := d, sm_stakes := (sm_stakes sm1)(addr \<mapsto> stake3)\<rparr>;
                       sm3 = emitEvent sm2 \<lparr>ev_Type = ''Slash'', ev_Address = addr, ev_Amount = slashAmount,
                               ev_Timestamp = clk 0, ev_Block = height\<rparr>
                   in persistLocked persist sm3)"

section \<open>Snapshots\<close>

record stake_entry =
  se_Address :: address
  se_Amount :: string
  se_RegisteredAt :: u64
  se_StartUnix :: int
  se_LockUntilUnix :: int
  se_BlocksMined :: u64
  se_RewardsEarned :: string
  se_IsActive :: bool
  se_SlashCount :: u64
  se_LastActivity :: u64

record withdrawal_entry =
  we_Address :: address
  we_Amount :: string
  we_RequestUnix :: int
  we_RequestBlock :: u64
  we_UnlockBlock :: u64
  we_Status :: withdrawal_status

record staking_snapshot =
  snap_Stakes :: "stake_entry list"
  snap_Withdrawals :: "withdrawal_entry list"

text \<open>\<open>(*big.Int)(nil).String()\<close> is the text \<open><nil>\<close>.\<close>

definition big_string :: "int option \<Rightarrow> string" where
  "big_string v = (case v of None \<Rightarrow> ''<nil>'' | Some z \<Rightarrow> dec_int z)"

definition unix_seconds :: "int \<Rightarrow> int" where
  "unix_seconds t = t div 1000000000"

definition stake_to_entry :: "stake_info \<Rightarrow> stake_entry" where
  "stake_to_entry s =
     \<lparr>se_Address = si_Address s, se_Amount = dec_int (si_Amount s), se_RegisteredAt = si_RegisteredAt s,
      se_StartUnix = unix_seconds (si_StartTime s), se_LockUntilUnix = unix_seconds (si_LockUntil s),
      se_BlocksMined = si_BlocksMined s, se_RewardsEarned = big_string (si_RewardsEarned s),
      se_IsActive = si_IsActive s, se_SlashCount = si_SlashCount s, se_LastActivity = si_LastActivity s\<rparr>"

definition withdrawal_to_entry :: "withdrawal_request \<Rightarrow> withdrawal_entry" where
  "withdrawal_to_entry w =
     \<lparr>we_Address = wr_Address w, we_Amount = dec_int (wr_Amount w),
      we_RequestUnix = unix_seconds (wr_RequestTime w), we_RequestBlock = wr_RequestBlock w,
      we_UnlockBlock = wr_UnlockBlock w, we_Status = wr_Status w\<rparr>"

text \<open>The struct that is marshalled; the two lists are the iteration orders of the maps.\<close>

definition Snapshot :: "address list \<Rightarrow> address list \<Rightarrow> 'd staking \<Rightarrow> staking_snapshot" where
  "Snapshot order worder sm =
     \<lparr>snap_Stakes = map stake_to_entry (List.map_filter (sm_stakes sm) order),
      snap_Withdrawals = map withdrawal_to_entry (List.map_filter (sm_withdrawals sm) worder)\<rparr>"

fun load_stakes :: "stake_entry list \<Rightarrow> 'd staking \<Rightarrow> (staking_error + unit) \<times> 'd staking" where
  "load_stakes [] sm = (Inr (), sm)"
| "load_stakes (entry # es) sm =
     (case parse_int (se_Amount entry) of
        None \<Rightarrow> (Inl (Bad_Snapshot_Amount (se_Address entry)), sm)
      | Some amount \<Rightarrow>
     (case (if se_RewardsEarned entry = '''' then Some 0 else parse_int (se_RewardsEarned entry)) of
        None \<Rightarrow> (Inl (Bad_Snapshot_Rewards (se_Address entry)), sm)
      | Some rewards \<Rightarrow>
          let info = \<lparr>si_Address = se_Address entry, si_Amount = amount, si_RegisteredAt = se_RegisteredAt entry,
                si_StartTime = se_StartUnix entry * 1000000000, si_LockUntil = se_LockUntilUnix entry * 1000000000,
                si_BlocksMined = se_BlocksMined entry, si_RewardsEarned = Some rewards,
                si_IsActive = se_IsActive entry, si_SlashCount = se_SlashCount entry,
                si_LastActivity = se_LastActivity entry\<rparr>;
              sm1 = sm\<lparr>sm_stakes := (sm_stakes sm)(se_Address entry \<mapsto> info)\<rparr>;
              sm2 = (if se_IsActive entry then sm1\<lparr>sm_totalStaked := sm_totalStaked sm1 + amount\<rparr> else sm1)
          in load_stakes es sm2))"

fun load_withdrawals :: "withdrawal_entry list \<Rightarrow> 'd staking \<Rightarrow> (staking_error + unit) \<times> 'd staking" where
  "load_withdrawals [] sm = (Inr (), sm)"
| "load_withdrawals (entry # es) sm =
     (case parse_int (we_Amount entry) of
        None \<Rightarrow> (Inl (Bad_Snapshot_Amount (we_Address entry)), sm)
      | Some amount \<Rightarrow>
          let request = \<lparr>wr_Address = we_Address entry, wr_Amount = amount,
                wr_RequestTime = we_RequestUnix entry * 1000000000, wr_RequestBlock = we_RequestBlock entry,
                wr_UnlockBlock = we_UnlockBlock entry, wr_Status = we_Status entry\<rparr>
          in load_withdrawals es (sm\<lparr>sm_withdrawals := (sm_withdrawals sm)(we_Address entry \<mapsto> request)\<rparr>))"

text \<open>
  The stored bytes: blank, or rejected by \<open>encoding/json\<close>, or the JSON form of a snapshot. The
  JSON text itself is left to \<open>encoding/json\<close>.
\<close>

datatype snapshot_data = Blank | Malformed | Decoded staking_snapshot

definition LoadSnapshot :: "'d staking \<Rightarrow> snapshot_data \<Rightarrow> (staking_error + unit) \<times> 'd staking" where
  "LoadSnapshot sm data =
     (case data of
        Blank \<Rightarrow> (Inr (), sm)
      | Malformed \<Rightarrow> (Inl Snapshot_Not_Json, sm)
      | Decoded snap \<Rightarrow>
          let sm0 = sm\<lparr>sm_stakes := \<lambda>_. None, sm_withdrawals := \<lambda>_. None, sm_totalStaked := 0\<rparr>
          in case load_stakes (snap_Stakes snap) sm0 of
               (Inl e, sm1) \<Rightarrow> (Inl e, sm1)
             | (Inr _, sm1) \<Rightarrow> load_withdrawals (snap_Withdrawals snap) sm1)"

record stake_record =
  sk_Address :: address
  sk_Amount :: int
  sk_RegisteredHeight :: u64
  sk_IsActive :: bool
  sk_LastActivity :: u64
  sk_UnlockBlock :: "u64 option"

definition GetStakeRecords :: "address list \<Rightarrow> 'd staking \<Rightarrow> stake_record list" where
  "GetStakeRecords order sm =
     List.map_filter (\<lambda>addr. map_option (\<lambda>stake.
         \<lparr>sk_Address = addr, sk_Amount = si_Amount stake, sk_RegisteredHeight = si_RegisteredAt stake,
          sk_IsActive = si_IsActive stake, sk_LastActivity = si_LastActivity stake,
          sk_UnlockBlock = map_option wr_UnlockBlock (sm_withdrawals sm addr)\<rparr>) (sm_stakes sm addr)) order"

section \<open>The stake checks of block validation (staking_validator.go)\<close>

datatype miner_error = No_Miner | Miner_Insufficient_Stake | Parent_Not_Found | Should_Rotate | Next_Insufficient

definition validatorMinStake :: int where
  "validatorMinStake = 1000000 * 1000000000000000000"

text \<open>\<open>parentKnown\<close>: whether \<open>GetBlockByHash\<close> finds the parent.\<close>

definition ValidateBlockMiner :: "'d staking \<Rightarrow> address \<Rightarrow> bool \<Rightarrow> miner_error + unit" where
  "ValidateBlockMiner sm miner parentKnown =
     (if miner = zero_address then Inl No_Miner
      else if GetStake sm miner < validatorMinStake then Inl Miner_Insufficient_Stake
      else if \<not> parentKnown then Inl Parent_Not_Found
      else Inr ())"

definition ValidateMinerRotation :: "'d staking \<Rightarrow> address \<Rightarrow> address \<Rightarrow> u64 \<Rightarrow> u64 \<Rightarrow> miner_error + unit" where
  "ValidateMinerRotation sm currentMiner nextMiner blocksMined blocksPerMiner =
     (if blocksMined \<ge> blocksPerMiner then
        (if currentMiner = nextMiner then Inl Should_Rotate
         else if GetStake sm nextMiner < validatorMinStake then Inl Next_Insufficient
         else Inr ())
      else Inr ())"

section \<open>The abstract escrow\<close>

text \<open>
  What the manager promises: every coin is in an account balance, in an active stake or in a
  pending withdrawal, and an operation only moves coins of one account between the three.
\<close>

record escrow =
  esc_free :: "address \<Rightarrow> int"
  esc_staked :: "address \<Rightarrow> int"
  esc_pending :: "address \<Rightarrow> int"

inductive escrow_step :: "escrow \<Rightarrow> escrow \<Rightarrow> bool" where
  lock: "0 \<le> v \<Longrightarrow> v \<le> esc_free e a \<Longrightarrow> esc_staked e a = 0 \<Longrightarrow>
    escrow_step e (e\<lparr>esc_free := (esc_free e)(a := esc_free e a - v), esc_staked := (esc_staked e)(a := v)\<rparr>)"
| unlock: "esc_pending e a = 0 \<Longrightarrow>
    escrow_step e (e\<lparr>esc_staked := (esc_staked e)(a := 0), esc_pending := (esc_pending e)(a := esc_staked e a)\<rparr>)"
| release:
    "escrow_step e (e\<lparr>esc_free := (esc_free e)(a := esc_free e a + esc_pending e a), esc_pending := (esc_pending e)(a := 0)\<rparr>)"

definition escrow_total :: "escrow \<Rightarrow> int" where
  "escrow_total e = ledger_total (esc_free e) + ledger_total (esc_staked e) + ledger_total (esc_pending e)"

lemma escrow_step_total: "escrow_step e e' \<Longrightarrow> escrow_total e' = escrow_total e"
  by (induction rule: escrow_step.induct) (simp_all add: escrow_total_def ledger)

lemma escrow_steps_total: "escrow_step\<^sup>*\<^sup>* e e' \<Longrightarrow> escrow_total e' = escrow_total e"
  by (induction rule: rtranclp_induct) (simp_all add: escrow_step_total)

definition is_pending :: "'d staking \<Rightarrow> address \<Rightarrow> bool" where
  "is_pending sm a = (case sm_withdrawals sm a of None \<Rightarrow> False | Some w \<Rightarrow> wr_Status w = Pending)"

definition pending_amount :: "'d staking \<Rightarrow> address \<Rightarrow> int" where
  "pending_amount sm a =
     (case sm_withdrawals sm a of None \<Rightarrow> 0 | Some w \<Rightarrow> if wr_Status w = Pending then wr_Amount w else 0)"

definition escrow_of :: "'d kv_ops \<Rightarrow> 'd staking \<Rightarrow> escrow" where
  "escrow_of K sm = \<lparr>esc_free = GetBalance K (sm_statedb sm), esc_staked = GetStake sm, esc_pending = pending_amount sm\<rparr>"

definition is_active :: "'d staking \<Rightarrow> address \<Rightarrow> bool" where
  "is_active sm a = (case sm_stakes sm a of None \<Rightarrow> False | Some s \<Rightarrow> si_IsActive s)"

definition staking_ok :: "'d staking \<Rightarrow> bool" where
  "staking_ok sm \<longleftrightarrow>
     sm_totalStaked sm = ledger_total (GetStake sm) \<and> 0 \<le> sm_minStakeAmount sm
     \<and> (\<forall>a. 0 \<le> GetStake sm a \<and> 0 \<le> pending_amount sm a)
     \<and> (\<forall>a. is_pending sm a \<longrightarrow> \<not> is_active sm a \<and> sm_stakes sm a \<noteq> None)"

lemma GetStake_upd:
  "sm_stakes sm' = (sm_stakes sm)(a \<mapsto> s) \<Longrightarrow>
    GetStake sm' = (GetStake sm)(a := if si_IsActive s then si_Amount s else 0)"
  by (auto simp: GetStake_def fun_eq_iff)

lemma GetStake_same: "sm_stakes sm' = sm_stakes sm \<Longrightarrow> GetStake sm' = GetStake sm"
  by (simp add: GetStake_def fun_eq_iff)

lemma pending_amount_upd:
  "sm_withdrawals sm' = (sm_withdrawals sm)(a \<mapsto> w) \<Longrightarrow>
    pending_amount sm' = (pending_amount sm)(a := if wr_Status w = Pending then wr_Amount w else 0)"
  by (auto simp: pending_amount_def fun_eq_iff)

lemma pending_amount_same: "sm_withdrawals sm' = sm_withdrawals sm \<Longrightarrow> pending_amount sm' = pending_amount sm"
  by (simp add: pending_amount_def fun_eq_iff)

lemma is_active_upd:
  "sm_stakes sm' = (sm_stakes sm)(a \<mapsto> s) \<Longrightarrow> is_active sm' = (is_active sm)(a := si_IsActive s)"
  by (auto simp: is_active_def fun_eq_iff)

lemma is_pending_upd:
  "sm_withdrawals sm' = (sm_withdrawals sm)(a \<mapsto> w) \<Longrightarrow> is_pending sm' = (is_pending sm)(a := (wr_Status w = Pending))"
  by (auto simp: is_pending_def fun_eq_iff)

lemma is_active_same: "sm_stakes sm' = sm_stakes sm \<Longrightarrow> is_active sm' = is_active sm"
  by (simp add: is_active_def fun_eq_iff)

lemma is_pending_same: "sm_withdrawals sm' = sm_withdrawals sm \<Longrightarrow> is_pending sm' = is_pending sm"
  by (simp add: is_pending_def fun_eq_iff)

lemmas staking_upd =
  GetStake_upd GetStake_same pending_amount_upd pending_amount_same
  is_active_upd is_pending_upd is_active_same is_pending_same

lemma GetStake_inactive: "\<not> is_active sm a \<Longrightarrow> GetStake sm a = 0"
  by (simp add: GetStake_def is_active_def split: option.splits)

lemma pending_amount_settled: "\<not> is_pending sm a \<Longrightarrow> pending_amount sm a = 0"
  by (simp add: pending_amount_def is_pending_def split: option.splits)

lemma emitEvent_simps [simp]:
  "sm_stakes (emitEvent sm e) = sm_stakes sm" "sm_withdrawals (emitEvent sm e) = sm_withdrawals sm"
  "sm_totalStaked (emitEvent sm e) = sm_totalStaked sm" "sm_statedb (emitEvent sm e) = sm_statedb sm"
  "sm_minStakeAmount (emitEvent sm e) = sm_minStakeAmount sm"
  "sm_slashPercentage (emitEvent sm e) = sm_slashPercentage sm"
  by (simp_all add: emitEvent_def)

section \<open>One operation at a time\<close>

lemma Stake_cases:
  assumes "Stake K C clk height persist sm a v pk = (r, sm')"
  obtains (refused) "sm' = sm" "\<exists>e. r = Inl e"
  | (locked) d s where "AddBalance K (sm_statedb sm) a (- v) = Inr d" "v \<le> GetBalance K (sm_statedb sm) a"
      "v = sm_minStakeAmount sm" "\<not> is_active sm a" "sm_stakes sm a \<noteq> None \<longrightarrow> \<not> is_pending sm a"
      "sm_statedb sm' = d" "sm_stakes sm' = (sm_stakes sm)(a \<mapsto> s)" "si_IsActive s" "si_Amount s = v"
      "sm_totalStaked sm' = sm_totalStaked sm + v" "sm_withdrawals sm' = sm_withdrawals sm"
      "sm_minStakeAmount sm' = sm_minStakeAmount sm" "r = (if persist then Inr () else Inl Persist_Failed)"
proof (cases "v = sm_minStakeAmount sm \<and> \<not> is_active sm a \<and> (sm_stakes sm a \<noteq> None \<longrightarrow> \<not> is_pending sm a)
    \<and> v \<le> GetBalance K (sm_statedb sm) a \<and> Sign C pk (Hash_Bytes (stakeCommitmentHash C ''STAKE'' a v (clk 0))) \<noteq> None
    \<and> (\<exists>d. AddBalance K (sm_statedb sm) a (- v) = Inr d)")
  case True
  then obtain d where d: "AddBalance K (sm_statedb sm) a (- v) = Inr d" by auto
  show ?thesis
    using assms True d by (intro locked) (auto simp: Stake_def Let_def persistLocked_def is_active_def is_pending_def
        split: if_splits option.splits)
next
  case False
  then show ?thesis
    using assms by (intro refused) (auto simp: Stake_def is_active_def is_pending_def
        split: if_splits option.splits sum.splits)
qed

lemma Unstake_cases:
  assumes "Unstake C clk height persist sm a pk = (r, sm')"
  obtains (refused) "sm' = sm" "\<exists>e. r = Inl e"
  | (unlocked) s w where "sm_stakes sm a = Some s" "si_IsActive s" "si_LockUntil s \<le> clk 0"
      "sm_stakes sm' = (sm_stakes sm)(a \<mapsto> s\<lparr>si_IsActive := False\<rparr>)"
      "sm_withdrawals sm' = (sm_withdrawals sm)(a \<mapsto> w)" "wr_Status w = Pending" "wr_Amount w = si_Amount s"
      "wr_UnlockBlock w = height + 20" "sm_totalStaked sm' = sm_totalStaked sm - si_Amount s"
      "sm_statedb sm' = sm_statedb sm" "sm_minStakeAmount sm' = sm_minStakeAmount sm"
  using assms
  by (auto simp: Unstake_def Let_def persistLocked_def unstakeUnlockDelayBlocks_def split: if_splits option.splits)

text \<open>One iteration of the withdrawal loop.\<close>

definition released :: "'d kv_ops \<Rightarrow> u64 \<Rightarrow> address \<Rightarrow> 'd staking \<Rightarrow> 'd staking \<Rightarrow> bool" where
  "released K h a sm sm' \<longleftrightarrow> (\<exists>w. sm_withdrawals sm a = Some w \<and> wr_Status w = Pending \<and> wr_UnlockBlock w \<le> h
     \<and> AddBalance K (sm_statedb sm) a (wr_Amount w) = Inr (sm_statedb sm')
     \<and> sm_withdrawals sm' = (sm_withdrawals sm)(a \<mapsto> w\<lparr>wr_Status := Completed\<rparr>)
     \<and> sm_stakes sm' = sm_stakes sm \<and> sm_totalStaked sm' = sm_totalStaked sm
     \<and> sm_minStakeAmount sm' = sm_minStakeAmount sm)"

lemma withdrawals_loop_induct:
  assumes "withdrawals_loop K clk h order n sm = (r, sm')" and "P sm"
    and step: "\<And>a s s'. a \<in> set order \<Longrightarrow> P s \<Longrightarrow> released K h a s s' \<Longrightarrow> P s'"
  shows "P sm'"
  using assms
proof (induction order arbitrary: n sm r sm')
  case (Cons a order)
  have step: "b \<in> set order \<Longrightarrow> P s \<Longrightarrow> released K h b s s' \<Longrightarrow> P s'" for b s s'
    using Cons.prems(3) by (meson list.set_intros(2))
  show ?case
  proof (cases "\<exists>w. sm_withdrawals sm a = Some w \<and> wr_Status w = Pending \<and> wr_UnlockBlock w \<le> h")
    case True
    then obtain w where w: "sm_withdrawals sm a = Some w" "wr_Status w = Pending" "wr_UnlockBlock w \<le> h" by blast
    show ?thesis
    proof (cases "AddBalance K (sm_statedb sm) a (wr_Amount w)")
      case (Inl e)
      then show ?thesis using Cons.prems(1,2) w by simp
    next
      case (Inr d)
      define sm2 where "sm2 = emitEvent (sm\<lparr>sm_statedb := d, sm_withdrawals := (sm_withdrawals sm)(a \<mapsto> w\<lparr>wr_Status := Completed\<rparr>)\<rparr>)
          \<lparr>ev_Type = ''Withdrawal'', ev_Address = a, ev_Amount = wr_Amount w, ev_Timestamp = clk n, ev_Block = h\<rparr>"
      have "released K h a sm sm2" using w Inr by (simp add: released_def sm2_def)
      then have "P sm2" using Cons.prems(2,3) by (meson list.set_intros(1))
      moreover have "withdrawals_loop K clk h order (n + 1) sm2 = (r, sm')"
        using Cons.prems(1) w Inr by (simp add: sm2_def Let_def)
      ultimately show ?thesis using Cons.IH step by blast
    qed
  next
    case False
    then have "withdrawals_loop K clk h order n sm = (r, sm')"
      using Cons.prems(1) by (auto split: option.splits if_splits)
    then show ?thesis using Cons.IH Cons.prems(2) step by blast
  qed
qed simp

section \<open>Sequences of operations\<close>

text \<open>
  One call to the manager with any arguments, whether it succeeds or fails. \<open>Slash\<close> is treated
  on its own below; the node never calls it.
\<close>

inductive staking_step :: "'d kv_ops \<Rightarrow> crypto \<Rightarrow> 'd staking \<Rightarrow> 'd staking \<Rightarrow> bool" for K C where
  stake: "Stake K C clk height persist sm a v pk = (r, sm') \<Longrightarrow> staking_step K C sm sm'"
| unstake: "Unstake C clk height persist sm a pk = (r, sm') \<Longrightarrow> staking_step K C sm sm'"
| withdraw: "ProcessWithdrawalsAtHeight K clk persist order sm h = (r, sm') \<Longrightarrow> staking_step K C sm sm'"

inductive_cases staking_stepE: "staking_step K C sm sm'"

definition refines :: "'d kv_ops \<Rightarrow> 'd staking \<Rightarrow> 'd staking \<Rightarrow> bool" where
  "refines K sm sm' \<longleftrightarrow> staking_ok sm' \<and> escrow_step\<^sup>*\<^sup>* (escrow_of K sm) (escrow_of K sm')"

lemma refines_refl [simp]: "staking_ok sm \<Longrightarrow> refines K sm sm"
  by (simp add: refines_def)

lemma refines_trans: "refines K s1 s2 \<Longrightarrow> refines K s2 s3 \<Longrightarrow> refines K s1 s3"
  by (auto simp: refines_def)

context kv_store begin

lemma Stake_refines:
  assumes "staking_ok sm" and "Stake K C clk height persist sm a v pk = (r, sm')"
  shows "refines K sm sm'"
  using assms(2)
proof (cases rule: Stake_cases)
  case refused
  then show ?thesis using assms(1) by simp
next
  case (locked d s)
  note upd = GetStake_upd [OF locked(7)] is_active_upd [OF locked(7)]
    pending_amount_same [OF locked(11)] is_pending_same [OF locked(11)] AddBalance_Inr(1) [OF locked(1)]
  have zero: "GetStake sm a = 0" by (rule GetStake_inactive [OF locked(4)])
  have "\<not> is_pending sm a" using assms(1) locked(5) by (auto simp: staking_ok_def)
  then have "staking_ok sm'"
    using assms(1) locked zero by (auto simp: staking_ok_def upd ledger_total_upd)
  moreover have "escrow_of K sm' = (escrow_of K sm)
      \<lparr>esc_free := (esc_free (escrow_of K sm))(a := esc_free (escrow_of K sm) a - v),
       esc_staked := (esc_staked (escrow_of K sm))(a := v)\<rparr>"
    using locked by (simp add: escrow_of_def upd)
  moreover have "0 \<le> v" using assms(1) locked(3) by (simp add: staking_ok_def)
  ultimately show ?thesis
    using escrow_step.lock [of v "escrow_of K sm" a] locked(2) zero
    by (auto simp: refines_def escrow_of_def)
qed

lemma Unstake_refines:
  assumes "staking_ok sm" and "Unstake C clk height persist sm a pk = (r, sm')"
  shows "refines K sm sm'"
  using assms(2)
proof (cases rule: Unstake_cases)
  case refused
  then show ?thesis using assms(1) by simp
next
  case (unlocked s w)
  note upd = GetStake_upd [OF unlocked(4)] is_active_upd [OF unlocked(4)]
    pending_amount_upd [OF unlocked(5)] is_pending_upd [OF unlocked(5)]
  have amount: "GetStake sm a = si_Amount s" "is_active sm a"
    using unlocked(1,2) by (simp_all add: GetStake_def is_active_def)
  then have "pending_amount sm a = 0"
    using assms(1) pending_amount_settled [of sm a] by (auto simp: staking_ok_def)
  moreover have "0 \<le> si_Amount s" using assms(1) amount(1) by (metis staking_ok_def)
  then have "staking_ok sm'"
    using assms(1) unlocked amount by (auto simp: staking_ok_def upd ledger_total_upd)
  moreover have "escrow_of K sm' = (escrow_of K sm)
      \<lparr>esc_staked := (esc_staked (escrow_of K sm))(a := 0),
       esc_pending := (esc_pending (escrow_of K sm))(a := esc_staked (escrow_of K sm) a)\<rparr>"
    using unlocked amount by (simp add: escrow_of_def upd)
  ultimately show ?thesis
    using escrow_step.unlock [of "escrow_of K sm" a] by (auto simp: refines_def escrow_of_def)
qed

lemma released_refines:
  assumes "staking_ok sm" and "released K h a sm sm'"
  shows "refines K sm sm'"
proof -
  from assms(2) obtain w where w: "sm_withdrawals sm a = Some w" "wr_Status w = Pending"
      "AddBalance K (sm_statedb sm) a (wr_Amount w) = Inr (sm_statedb sm')"
      "sm_withdrawals sm' = (sm_withdrawals sm)(a \<mapsto> w\<lparr>wr_Status := Completed\<rparr>)"
      "sm_stakes sm' = sm_stakes sm" "sm_totalStaked sm' = sm_totalStaked sm"
      "sm_minStakeAmount sm' = sm_minStakeAmount sm" by (auto simp: released_def)
  note upd = GetStake_same [OF w(5)] is_active_same [OF w(5)] pending_amount_upd [OF w(4)]
    is_pending_upd [OF w(4)] AddBalance_Inr(1) [OF w(3)]
  have amount: "pending_amount sm a = wr_Amount w" using w(1,2) by (simp add: pending_amount_def)
  have "staking_ok sm'" using assms(1) w by (auto simp: staking_ok_def upd)
  moreover have "escrow_of K sm' = (escrow_of K sm)
      \<lparr>esc_free := (esc_free (escrow_of K sm))(a := esc_free (escrow_of K sm) a + esc_pending (escrow_of K sm) a),
       esc_pending := (esc_pending (escrow_of K sm))(a := 0)\<rparr>"
    using amount by (simp add: escrow_of_def upd)
  ultimately show ?thesis using escrow_step.release [of "escrow_of K sm" a] by (auto simp: refines_def)
qed

lemma ProcessWithdrawals_refines:
  assumes "staking_ok sm" and "ProcessWithdrawalsAtHeight K clk persist order sm h = (r, sm')"
  shows "refines K sm sm'"
proof -
  obtain q where loop: "withdrawals_loop K clk h order 0 sm = (q, sm')"
    using assms(2) by (auto simp: ProcessWithdrawalsAtHeight_def persistLocked_def split: prod.splits sum.splits if_splits)
  show ?thesis
    by (rule withdrawals_loop_induct [OF loop, where P = "refines K sm"])
      (use assms(1) in \<open>auto simp: refines_def intro: refines_trans [unfolded refines_def, THEN conjunct2]
        dest: released_refines [unfolded refines_def]\<close>)
qed

lemma staking_step_refines: "staking_ok sm \<Longrightarrow> staking_step K C sm sm' \<Longrightarrow> refines K sm sm'"
  by (erule staking_stepE) (auto intro: Stake_refines Unstake_refines ProcessWithdrawals_refines)

lemma staking_steps_refine: "(staking_step K C)\<^sup>*\<^sup>* sm sm' \<Longrightarrow> staking_ok sm \<Longrightarrow> refines K sm sm'"
  proof (induction rule: rtranclp_induct)
  case (step s s')
  then have "refines K sm s" and "staking_ok s" by (simp_all add: refines_def)
  then show ?case using refines_trans staking_step_refines [OF _ step.hyps(2)] by blast
qed simp

end

lemma new_manager_ok: "0 \<le> m \<Longrightarrow> staking_ok (NewStakingManager d (Some m))"
  by (simp add: staking_ok_def NewStakingManager_def GetStake_def pending_amount_def is_pending_def ledger_total_def)

section \<open>Payment of due withdrawals\<close>

definition withdrawal_due :: "'d staking \<Rightarrow> u64 \<Rightarrow> address \<Rightarrow> bool" where
  "withdrawal_due sm h a =
     (case sm_withdrawals sm a of None \<Rightarrow> False | Some w \<Rightarrow> wr_Status w = Pending \<and> wr_UnlockBlock w \<le> h)"

lemma withdrawals_loop_Cons:
  "\<not> withdrawal_due sm h a \<Longrightarrow> withdrawals_loop K clk h (a # order) n sm = withdrawals_loop K clk h order n sm"
  by (auto simp: withdrawal_due_def split: option.splits)

text \<open>Account \<open>a\<close> after the loop: paid and settled if it was due, else as before.\<close>

definition paid_out :: "'d kv_ops \<Rightarrow> u64 \<Rightarrow> address list \<Rightarrow> 'd staking \<Rightarrow> 'd staking \<Rightarrow> address \<Rightarrow> bool" where
  "paid_out K h order sm sm' a =
     (if a \<in> set order \<and> withdrawal_due sm h a
      then \<not> is_pending sm' a \<and> GetBalance K (sm_statedb sm') a = GetBalance K (sm_statedb sm) a + pending_amount sm a
      else sm_withdrawals sm' a = sm_withdrawals sm a \<and> GetBalance K (sm_statedb sm') a = GetBalance K (sm_statedb sm) a)"

context kv_reliable begin

lemma withdrawals_loop_pays:
  assumes "distinct order" and "\<forall>a. 0 \<le> pending_amount sm a"
  shows "\<exists>m sm'. withdrawals_loop K clk h order n sm = (Inr m, sm')
     \<and> (\<forall>a. paid_out K h order sm sm' a)"
  using assms
proof (induction order arbitrary: n sm)
  case (Cons b order)
  show ?case
  proof (cases "withdrawal_due sm h b")
    case False
    then have "paid_out K h (b # order) sm sm' = paid_out K h order sm sm'" for sm'
      by (auto simp: paid_out_def fun_eq_iff)
    then show ?thesis using Cons.IH [of sm n] Cons.prems withdrawals_loop_Cons [OF False] by simp
  next
    case True
    then obtain w where w: "sm_withdrawals sm b = Some w" "wr_Status w = Pending" "wr_UnlockBlock w \<le> h"
      by (auto simp: withdrawal_due_def split: option.splits)
    have amount: "pending_amount sm b = wr_Amount w" using w by (simp add: pending_amount_def)
    then have "0 \<le> GetBalance K (sm_statedb sm) b + wr_Amount w"
      using Cons.prems(2) GetBalance_nonneg [of "sm_statedb sm" b] by (metis add_nonneg_nonneg)
    then obtain d where d: "AddBalance K (sm_statedb sm) b (wr_Amount w) = Inr d"
      using AddBalance_succeeds by blast
    define sm2 where "sm2 = emitEvent (sm\<lparr>sm_statedb := d, sm_withdrawals := (sm_withdrawals sm)(b \<mapsto> w\<lparr>wr_Status := Completed\<rparr>)\<rparr>)
        \<lparr>ev_Type = ''Withdrawal'', ev_Address = b, ev_Amount = wr_Amount w, ev_Timestamp = clk n, ev_Block = h\<rparr>"
    have wd: "sm_withdrawals sm2 = (sm_withdrawals sm)(b \<mapsto> w\<lparr>wr_Status := Completed\<rparr>)" by (simp add: sm2_def)
    have loop: "withdrawals_loop K clk h (b # order) n sm = withdrawals_loop K clk h order (n + 1) sm2"
      using w d by (simp add: sm2_def Let_def)
    note upd = pending_amount_upd [OF wd] is_pending_upd [OF wd] AddBalance_Inr(1) [OF d]
    have "\<forall>a. 0 \<le> pending_amount sm2 a" using Cons.prems(2) by (simp add: upd)
    with Cons.IH [of sm2 "n + 1"] Cons.prems(1) obtain m sm' where
      run: "withdrawals_loop K clk h order (n + 1) sm2 = (Inr m, sm')"
      and eff: "\<And>a. paid_out K h order sm2 sm' a"
      by auto
    have db: "sm_statedb sm2 = d" by (simp add: sm2_def)
    show ?thesis
    proof (rule exI [of _ m], rule exI [of _ sm'], intro conjI allI)
      show "withdrawals_loop K clk h (b # order) n sm = (Inr m, sm')" using loop run by simp
      fix a
      show "paid_out K h (b # order) sm sm' a"
      proof (cases "a = b")
        case True
        then show ?thesis
          using eff [of b] Cons.prems(1) amount db w \<open>withdrawal_due sm h b\<close>
          by (auto simp: paid_out_def upd is_pending_def wd)
      next
        case False
        then show ?thesis
          using eff [of a] db by (auto simp: paid_out_def upd withdrawal_due_def wd)
      qed
    qed
  qed
qed (auto simp: paid_out_def)

end

section \<open>Snapshots\<close>

definition stake_storable :: "address \<Rightarrow> stake_info \<Rightarrow> bool" where
  "stake_storable a s \<longleftrightarrow> si_Address s = a \<and> si_RewardsEarned s \<noteq> None
     \<and> si_StartTime s mod 1000000000 = 0 \<and> si_LockUntil s mod 1000000000 = 0"

definition withdrawal_storable :: "address \<Rightarrow> withdrawal_request \<Rightarrow> bool" where
  "withdrawal_storable a w \<longleftrightarrow> wr_Address w = a \<and> wr_RequestTime w mod 1000000000 = 0"

lemma unix_seconds_exact: "t mod 1000000000 = 0 \<Longrightarrow> unix_seconds t * 1000000000 = t"
  by (simp add: unix_seconds_def mod_0_imp_dvd)

lemma dec_int_not_Nil: "dec_int z \<noteq> []"
  by (simp add: dec_int_def)

lemma load_stakes_Cons:
  assumes "parse_int (se_Amount entry) = Some amount"
    and "se_RewardsEarned entry \<noteq> []" and "parse_int (se_RewardsEarned entry) = Some rewards"
  shows "load_stakes (entry # es) sm =
    load_stakes es (sm\<lparr>sm_stakes := (sm_stakes sm)(se_Address entry \<mapsto>
          \<lparr>si_Address = se_Address entry, si_Amount = amount, si_RegisteredAt = se_RegisteredAt entry,
           si_StartTime = se_StartUnix entry * 1000000000, si_LockUntil = se_LockUntilUnix entry * 1000000000,
           si_BlocksMined = se_BlocksMined entry, si_RewardsEarned = Some rewards,
           si_IsActive = se_IsActive entry, si_SlashCount = se_SlashCount entry,
           si_LastActivity = se_LastActivity entry\<rparr>),
        sm_totalStaked := sm_totalStaked sm + (if se_IsActive entry then amount else 0)\<rparr>)"
  using assms by (cases sm) (simp add: Let_def)

lemma load_stored_stake:
  assumes "stake_storable a s"
  shows "load_stakes (stake_to_entry s # es) sm =
    load_stakes es (sm\<lparr>sm_stakes := (sm_stakes sm)(a \<mapsto> s),
      sm_totalStaked := sm_totalStaked sm + (if si_IsActive s then si_Amount s else 0)\<rparr>)"
proof -
  obtain r where r: "si_RewardsEarned s = Some r" using assms by (auto simp: stake_storable_def)
  show ?thesis
    using assms load_stakes_Cons [of "stake_to_entry s" "si_Amount s" r es sm] r
    by (cases s) (simp add: stake_storable_def stake_to_entry_def codec big_string_def
        unix_seconds_exact dec_int_not_Nil del: load_stakes.simps(2))
qed

lemma load_stored_withdrawal:
  "withdrawal_storable a w \<Longrightarrow> load_withdrawals (withdrawal_to_entry w # es) sm =
    load_withdrawals es (sm\<lparr>sm_withdrawals := (sm_withdrawals sm)(a \<mapsto> w)\<rparr>)"
  by (cases w) (simp add: withdrawal_storable_def withdrawal_to_entry_def codec unix_seconds_exact Let_def)

lemma load_stakes_entries:
  assumes "\<forall>a\<in>set order. \<exists>s. f a = Some s \<and> stake_storable a s" and "distinct order"
  shows "load_stakes (map stake_to_entry (List.map_filter f order)) sm =
    (Inr (), sm\<lparr>sm_stakes := sm_stakes sm ++ (f |` set order),
       sm_totalStaked := sm_totalStaked sm + (\<Sum>a\<in>set order. case f a of None \<Rightarrow> 0 | Some s \<Rightarrow> if si_IsActive s then si_Amount s else 0)\<rparr>)"
  using assms
proof (induction order arbitrary: sm)
  case (Cons a order)
  then obtain s where s: "f a = Some s" "stake_storable a s" by auto
  have "(sm_stakes sm)(a \<mapsto> s) ++ (f |` set order) = sm_stakes sm ++ (f |` set (a # order))"
    using s(1) Cons.prems(2) by (auto simp: fun_eq_iff map_add_def restrict_map_def split: option.split)
  then show ?case
    using Cons s by (simp add: List.map_filter_simps load_stored_stake [OF s(2)] add.assoc del: load_stakes.simps(2))
qed (simp add: List.map_filter_simps)

lemma load_withdrawals_entries:
  assumes "\<forall>a\<in>set order. \<exists>w. f a = Some w \<and> withdrawal_storable a w" and "distinct order"
  shows "load_withdrawals (map withdrawal_to_entry (List.map_filter f order)) sm =
    (Inr (), sm\<lparr>sm_withdrawals := sm_withdrawals sm ++ (f |` set order)\<rparr>)"
  using assms
proof (induction order arbitrary: sm)
  case (Cons a order)
  then obtain w where w: "f a = Some w" "withdrawal_storable a w" by auto
  have "(sm_withdrawals sm)(a \<mapsto> w) ++ (f |` set order) = sm_withdrawals sm ++ (f |` set (a # order))"
    using w(1) Cons.prems(2) by (auto simp: fun_eq_iff map_add_def restrict_map_def split: option.split)
  then show ?case
    using Cons w by (simp add: List.map_filter_simps load_stored_withdrawal [OF w(2)] del: load_withdrawals.simps(2))
qed (simp add: List.map_filter_simps)

text \<open>A record without a rewards figure is written as \<open><nil>\<close>, which no reader accepts.\<close>

lemma parse_nil: "parse_int ''<nil>'' = None"
  by code_simp

lemma load_stakes_fails:
  assumes "f a = Some s" and "si_RewardsEarned s = None" and "a \<in> set order"
  shows "\<exists>e sm'. load_stakes (map stake_to_entry (List.map_filter f order)) sm = (Inl e, sm')"
  using assms(3)
proof (induction order arbitrary: sm)
  case (Cons b order)
  show ?case
  proof (cases "b = a")
    case True
    then show ?thesis
      using assms(1,2) by (simp add: List.map_filter_simps stake_to_entry_def big_string_def parse_nil codec)
  next
    case False
    then have "a \<in> set order" using Cons.prems by simp
    then show ?thesis
      using Cons.IH by (auto simp: List.map_filter_simps Let_def split: option.split)
  qed
qed simp

section \<open>Slashing\<close>

lemma Slash_active:
  assumes "kv_store K" and "sm_stakes sm a = Some s" and "si_IsActive s"
    and "Slash K clk h persist sm a = (r, sm')" and "r \<noteq> Inl (Stake_State_Error Store_Error)"
    and "0 \<le> si_Amount s" and "0 \<le> sm_slashPercentage sm"
    and "fine = si_Amount s * sm_slashPercentage sm div 100" and "si_Amount s - fine < sm_minStakeAmount sm"
  shows "GetStake sm' = (GetStake sm)(a := 0)" and "sm_totalStaked sm' = sm_totalStaked sm - fine"
    and "GetBalance K (sm_statedb sm') = (GetBalance K (sm_statedb sm))(zero_address := GetBalance K (sm_statedb sm) zero_address + fine)"
    and "sm_withdrawals sm' = sm_withdrawals sm" and "\<not> is_active sm' a" and "sm_stakes sm' a \<noteq> None"
proof -
  have "0 \<le> fine" using assms(6-8) by (simp add: pos_imp_zdiv_nonneg_iff)
  then have nonneg: "\<not> GetBalance K (sm_statedb sm) zero_address + fine < 0"
    using kv_store.GetBalance_nonneg [OF assms(1), of "sm_statedb sm" zero_address] by linarith
  define s1 where "s1 = s\<lparr>si_Amount := si_Amount s - fine\<rparr>"
  define s3 where "s3 = s1\<lparr>si_SlashCount := si_SlashCount s1 + 1, si_IsActive := False\<rparr>"
  obtain d where d: "AddBalance K (sm_statedb sm) zero_address fine = Inr d"
  proof (cases "AddBalance K (sm_statedb sm) zero_address fine")
    case (Inl e)
    then have "e = Store_Error" using nonneg
      by (auto simp: AddBalance_def Let_def put_result_def split: option.splits if_splits)
    then have "r = Inl (Stake_State_Error Store_Error)"
      using assms(2-4) Inl by (simp add: Slash_def Let_def flip: assms(8))
    then show ?thesis using assms(5) by simp
  qed
  have st: "sm_stakes sm' = (sm_stakes sm)(a \<mapsto> s3)" "sm_totalStaked sm' = sm_totalStaked sm - fine"
      "sm_statedb sm' = d" "sm_withdrawals sm' = sm_withdrawals sm"
    using assms(2-4,9) d
    by (auto simp: Slash_def Let_def persistLocked_def s3_def s1_def simp flip: assms(8))
  have "\<not> si_IsActive s3" by (simp add: s3_def)
  then show "GetStake sm' = (GetStake sm)(a := 0)" and "\<not> is_active sm' a" and "sm_stakes sm' a \<noteq> None"
    by (simp_all add: GetStake_upd [OF st(1)] is_active_upd [OF st(1)] st(1))
  show "GetBalance K (sm_statedb sm') = (GetBalance K (sm_statedb sm))(zero_address := GetBalance K (sm_statedb sm) zero_address + fine)"
    by (simp add: st(3) kv_store.AddBalance_Inr(1) [OF assms(1) d])
qed (use assms in \<open>auto simp: Slash_def Let_def persistLocked_def split: sum.splits if_splits\<close>)

section \<open>Properties\<close>

text \<open>
  C20: any sequence of calls of \<open>Stake\<close>, \<open>Unstake\<close> and \<open>ProcessWithdrawalsAtHeight\<close>, failed calls included,
  takes the manager from a fresh start through steps of the abstract escrow only; so the coins in
  balances, active stakes and pending withdrawals always add up to the coins at the start, and
  the recorded total is the sum of the active stakes. \<open>Slash\<close>, which the node never calls, and
  \<open>LoadSnapshot\<close> are not among the calls: both break this.
\<close>

theorem staking_refines_escrow:
  assumes "kv_reliable K" and "0 \<le> m"
    and "(staking_step K C)\<^sup>*\<^sup>* (NewStakingManager d (Some m)) sm"
  shows "escrow_step\<^sup>*\<^sup>* (escrow_of K (NewStakingManager d (Some m))) (escrow_of K sm)
    \<and> ledger_total (GetBalance K (sm_statedb sm)) + ledger_total (GetStake sm) + ledger_total (pending_amount sm)
       = ledger_total (GetBalance K d)
    \<and> sm_totalStaked sm = ledger_total (GetStake sm)"
proof -
  have "refines K (NewStakingManager d (Some m)) sm"
    by (rule kv_store.staking_steps_refine [OF kv_reliable.is_store [OF assms(1)] assms(3) new_manager_ok [OF assms(2)]])
  then have r: "staking_ok sm" "escrow_step\<^sup>*\<^sup>* (escrow_of K (NewStakingManager d (Some m))) (escrow_of K sm)"
    by (simp_all add: refines_def)
  have "escrow_total (escrow_of K (NewStakingManager d (Some m))) = ledger_total (GetBalance K d)"
    by (simp add: escrow_total_def escrow_of_def NewStakingManager_def GetStake_def pending_amount_def ledger_total_def)
  with escrow_steps_total [OF r(2)] r show ?thesis
    by (simp add: escrow_total_def escrow_of_def staking_ok_def)
qed

definition stake_demo :: "(bytes, bytes) alist staking" where
  "stake_demo = snd (Stake map_kv toy_crypto (\<lambda>_. 0) 10 True (NewStakingManager sample_state (Some 400)) 5 400 (replicate 4032 0))"

lemma stake_demo_active: "GetStake stake_demo 5 = 400"
proof -
  obtain d where "AddBalance map_kv sample_state 5 (- 400) = Inr d"
    using mkv.AddBalance_succeeds [of sample_state 5 "- 400"] by auto
  then show ?thesis
    by (simp add: stake_demo_def Stake_def NewStakingManager_def Sign_def MLDSA65PrivateKeySize_def
        toy_crypto_def persistLocked_def GetStake_def Let_def)
qed

theorem staking_refines_escrow_witness:
  "GetStake stake_demo 5 = 400 \<and> ledger_total (GetBalance map_kv (sm_statedb stake_demo)) + ledger_total (GetStake stake_demo)
     + ledger_total (pending_amount stake_demo) = ledger_total (GetBalance map_kv sample_state)"
proof -
  have "staking_step map_kv toy_crypto (NewStakingManager sample_state (Some 400)) stake_demo"
    by (rule staking_step.stake [of _ _ "\<lambda>_. 0" 10 True _ 5 400 "replicate 4032 0" "fst (Stake map_kv toy_crypto (\<lambda>_. 0) 10 True (NewStakingManager sample_state (Some 400)) 5 400 (replicate 4032 0))"])
      (simp add: stake_demo_def)
  then show ?thesis
    using staking_refines_escrow [OF mkv.kv_reliable_axioms, of 400 toy_crypto sample_state stake_demo] stake_demo_active by auto
qed

text \<open>
  C21: a run of the withdrawals at height \<open>h\<close> over a reliable store never fails on a withdrawal:
  whatever the order of the map, every pending withdrawal whose unlock height is reached is
  settled and its amount is on the account's balance, and every other record and balance is
  as before.
\<close>

theorem due_withdrawals_are_paid:
  assumes "kv_reliable K" and "staking_ok sm" and "distinct order"
    and "set order = dom (sm_withdrawals sm)"
  shows "\<exists>sm'. ProcessWithdrawalsAtHeight K clk True order sm h = (Inr (), sm')
    \<and> (\<forall>a. if withdrawal_due sm h a
           then \<not> is_pending sm' a
             \<and> GetBalance K (sm_statedb sm') a = GetBalance K (sm_statedb sm) a + pending_amount sm a
           else sm_withdrawals sm' a = sm_withdrawals sm a
             \<and> GetBalance K (sm_statedb sm') a = GetBalance K (sm_statedb sm) a)"
proof -
  obtain m sm' where loop: "withdrawals_loop K clk h order 0 sm = (Inr m, sm')"
    and paid: "\<And>a. paid_out K h order sm sm' a"
    using kv_reliable.withdrawals_loop_pays [OF assms(1,3), of sm clk h 0] assms(2) by (auto simp: staking_ok_def)
  have "a \<in> set order" if "withdrawal_due sm h a" for a
    using that assms(4) by (auto simp: withdrawal_due_def split: option.splits)
  then have "if withdrawal_due sm h a
      then \<not> is_pending sm' a
        \<and> GetBalance K (sm_statedb sm') a = GetBalance K (sm_statedb sm) a + pending_amount sm a
      else sm_withdrawals sm' a = sm_withdrawals sm a
        \<and> GetBalance K (sm_statedb sm') a = GetBalance K (sm_statedb sm) a" for a
    using paid [of a] by (auto simp: paid_out_def)
  moreover have "ProcessWithdrawalsAtHeight K clk True order sm h = (Inr (), sm')"
    using loop by (simp add: ProcessWithdrawalsAtHeight_def persistLocked_def)
  ultimately show ?thesis by blast
qed

definition withdrawal_demo :: "(bytes, bytes) alist staking" where
  "withdrawal_demo = (NewStakingManager sample_state (Some 400))
     \<lparr>sm_withdrawals := [5 \<mapsto> \<lparr>wr_Address = 5, wr_Amount = 400, wr_RequestTime = 0, wr_RequestBlock = 10,
        wr_UnlockBlock = 30, wr_Status = Pending\<rparr>],
      sm_stakes := [5 \<mapsto> \<lparr>si_Address = 5, si_Amount = 400, si_RegisteredAt = 3, si_StartTime = 0, si_LockUntil = 0,
        si_BlocksMined = 0, si_RewardsEarned = None, si_IsActive = False, si_SlashCount = 0, si_LastActivity = 3\<rparr>]\<rparr>"

theorem due_withdrawals_are_paid_witness:
  "\<exists>sm'. ProcessWithdrawalsAtHeight map_kv (\<lambda>_. 0) True [5] withdrawal_demo 30 = (Inr (), sm')
     \<and> GetBalance map_kv (sm_statedb sm') 5 = 1400 \<and> \<not> is_pending sm' 5"
proof -
  have "GetStake withdrawal_demo = (\<lambda>_. 0)"
    by (auto simp: GetStake_def withdrawal_demo_def)
  then have ok: "staking_ok withdrawal_demo"
    by (simp add: staking_ok_def ledger_total_def)
      (simp add: withdrawal_demo_def NewStakingManager_def pending_amount_def is_pending_def is_active_def)
  have due: "withdrawal_due withdrawal_demo 30 5" "pending_amount withdrawal_demo 5 = 400"
      "GetBalance map_kv (sm_statedb withdrawal_demo) 5 = 1000" "set [5] = dom (sm_withdrawals withdrawal_demo)"
    by (simp_all add: withdrawal_demo_def withdrawal_due_def pending_amount_def NewStakingManager_def)
  show ?thesis
    using due_withdrawals_are_paid [OF mkv.kv_reliable_axioms ok _ due(4), of "\<lambda>_. 0" 30] due(1-3)
    by (auto dest!: spec [of _ 5])
qed

text \<open>
  Loading a snapshot restores the stakes and withdrawals it was made of, with the total of
  the active stakes, provided every record names its own account, carries a rewards figure
  and has times that are whole seconds.
\<close>

theorem staking_snapshot_round_trip:
  assumes "distinct order" and "set order = dom (sm_stakes sm)"
    and "distinct worder" and "set worder = dom (sm_withdrawals sm)"
    and "\<forall>a s. sm_stakes sm a = Some s \<longrightarrow> stake_storable a s"
    and "\<forall>a w. sm_withdrawals sm a = Some w \<longrightarrow> withdrawal_storable a w"
  shows "LoadSnapshot sm0 (Decoded (Snapshot order worder sm)) =
    (Inr (), sm0\<lparr>sm_stakes := sm_stakes sm, sm_withdrawals := sm_withdrawals sm,
                 sm_totalStaked := ledger_total (GetStake sm)\<rparr>)"
proof -
  have st: "\<forall>a\<in>set order. \<exists>s. sm_stakes sm a = Some s \<and> stake_storable a s"
    using assms(2,5) by auto
  have wd: "\<forall>a\<in>set worder. \<exists>w. sm_withdrawals sm a = Some w \<and> withdrawal_storable a w"
    using assms(4,6) by auto
  have all: "sm_stakes sm |` set order = sm_stakes sm" "sm_withdrawals sm |` set worder = sm_withdrawals sm"
    using assms(2,4) by (simp_all add: map_le_antisym map_le_def restrict_map_def domIff fun_eq_iff)
  have "(\<Sum>a\<in>set order. case sm_stakes sm a of None \<Rightarrow> 0 | Some s \<Rightarrow> if si_IsActive s then si_Amount s else 0)
      = ledger_total (GetStake sm)"
    unfolding ledger_total_def assms(2)
    by (rule sum.mono_neutral_cong_left) (auto simp: GetStake_def split: option.split)
  then show ?thesis
    by (simp add: LoadSnapshot_def Snapshot_def Let_def all
        load_stakes_entries [OF st assms(1)] load_withdrawals_entries [OF wd assms(3)])
qed

definition restored_demo :: "(bytes, bytes) alist staking" where
  "restored_demo = withdrawal_demo
     \<lparr>sm_stakes := [9 \<mapsto> \<lparr>si_Address = 9, si_Amount = 400, si_RegisteredAt = 3, si_StartTime = 2000000000,
        si_LockUntil = 7000000000, si_BlocksMined = 0, si_RewardsEarned = Some 12, si_IsActive = True,
        si_SlashCount = 0, si_LastActivity = 3\<rparr>]\<rparr>"

theorem staking_snapshot_round_trip_witness:
  "fst (LoadSnapshot (NewStakingManager sample_state None) (Decoded (Snapshot [9] [5] restored_demo))) = Inr ()
   \<and> sm_totalStaked (snd (LoadSnapshot (NewStakingManager sample_state None) (Decoded (Snapshot [9] [5] restored_demo)))) = 400"
proof -
  have "GetStake restored_demo = (\<lambda>_. 0)(9 := 400)"
    by (auto simp: GetStake_def restored_demo_def fun_eq_iff)
  then have "ledger_total (GetStake restored_demo) = 400"
    by (simp add: ledger_total_upd ledger_total_def)
  then show ?thesis
    using staking_snapshot_round_trip [of "[9]" restored_demo "[5]" "NewStakingManager sample_state None"]
    by (simp add: restored_demo_def withdrawal_demo_def stake_storable_def withdrawal_storable_def
        split: if_splits)
qed

text \<open>
  A stake that \<open>Stake\<close> has just recorded carries no rewards figure, so every snapshot of the
  manager that contains it fails to load: after a restart the stake is gone.
\<close>

theorem fresh_stake_does_not_survive_restart:
  assumes "Stake K C clk h persist sm a v pk = (Inr (), sm')" and "a \<in> set order"
  shows "\<exists>e sm2. LoadSnapshot sm0 (Decoded (Snapshot order worder sm')) = (Inl e, sm2)"
proof -
  have "\<exists>s. sm_stakes sm' a = Some s \<and> si_RewardsEarned s = None"
    using assms(1) by (auto simp: Stake_def Let_def persistLocked_def split: if_splits option.splits sum.splits)
  then obtain s where "sm_stakes sm' a = Some s" "si_RewardsEarned s = None" by blast
  from load_stakes_fails [of "sm_stakes sm'", OF this assms(2),
      of "sm0\<lparr>sm_stakes := \<lambda>_. None, sm_withdrawals := \<lambda>_. None, sm_totalStaked := 0\<rparr>"]
  show ?thesis by (auto simp: LoadSnapshot_def Snapshot_def Let_def)
qed

theorem fresh_stake_does_not_survive_restart_witness:
  "\<exists>e sm2. LoadSnapshot (NewStakingManager sample_state (Some 400)) (Decoded (Snapshot [5] [] stake_demo)) = (Inl e, sm2)"
proof -
  obtain d where "AddBalance map_kv sample_state 5 (- 400) = Inr d"
    using mkv.AddBalance_succeeds [of sample_state 5 "- 400"] by auto
  then have "Stake map_kv toy_crypto (\<lambda>_. 0) 10 True (NewStakingManager sample_state (Some 400)) 5 400 (replicate 4032 0)
      = (Inr (), stake_demo)"
    by (simp add: stake_demo_def Stake_def NewStakingManager_def Sign_def MLDSA65PrivateKeySize_def
        toy_crypto_def persistLocked_def Let_def)
  then show ?thesis by (rule fresh_stake_does_not_survive_restart) simp
qed

text \<open>
  Slashing an active stake that the fine takes below the minimum deactivates it and creates
  no withdrawal: the part that is not the fine is neither staked, pending nor on a balance, it
  stays in the recorded total, and no unstaking can recover it.
\<close>

theorem slash_strands_the_rest:
  assumes "kv_store K" and "sm_stakes sm a = Some s" and "si_IsActive s"
    and "Slash K clk h persist sm a = (r, sm')" and "r \<noteq> Inl (Stake_State_Error Store_Error)"
    and "0 \<le> si_Amount s" and "0 \<le> sm_slashPercentage sm"
    and "fine = si_Amount s * sm_slashPercentage sm div 100" and "si_Amount s - fine < sm_minStakeAmount sm"
  shows "escrow_total (escrow_of K sm') = escrow_total (escrow_of K sm) - (si_Amount s - fine)
    \<and> sm_totalStaked sm' - ledger_total (GetStake sm')
       = sm_totalStaked sm - ledger_total (GetStake sm) + (si_Amount s - fine)
    \<and> Unstake C clk2 h2 persist2 sm' a pk = (Inl Err_Not_Staked, sm')"
proof -
  note eff = Slash_active [OF assms]
  have amount: "GetStake sm a = si_Amount s" using assms(2,3) by (simp add: GetStake_def)
  show ?thesis
    using eff(5,6)
    by (auto simp: escrow_total_def escrow_of_def eff(1-3) pending_amount_same [OF eff(4)] ledger_total_upd amount
        Unstake_def is_active_def split: option.splits)
qed

definition slash_demo :: "(bytes, bytes) alist staking" where
  "slash_demo = (NewStakingManager sample_state (Some 400))
     \<lparr>sm_stakes := [9 \<mapsto> \<lparr>si_Address = 9, si_Amount = 400, si_RegisteredAt = 3, si_StartTime = 0,
        si_LockUntil = 0, si_BlocksMined = 0, si_RewardsEarned = None, si_IsActive = True,
        si_SlashCount = 0, si_LastActivity = 3\<rparr>], sm_totalStaked := 400\<rparr>"

theorem slash_strands_the_rest_witness:
  "\<exists>sm'. Slash map_kv (\<lambda>_. 0) 12 True slash_demo 9 = (Inr (), sm')
     \<and> escrow_total (escrow_of map_kv sm') = escrow_total (escrow_of map_kv slash_demo) - 380"
proof -
  obtain d where "AddBalance map_kv sample_state zero_address 20 = Inr d"
    using mkv.AddBalance_succeeds [of sample_state zero_address 20] mkv.GetBalance_nonneg [of sample_state zero_address] by auto
  then obtain sm' where run: "Slash map_kv (\<lambda>_. 0) 12 True slash_demo 9 = (Inr (), sm')"
    by (auto simp: Slash_def slash_demo_def NewStakingManager_def Let_def persistLocked_def)
  have s: "sm_stakes slash_demo 9 = Some (the (sm_stakes slash_demo 9))" "si_IsActive (the (sm_stakes slash_demo 9))"
      "si_Amount (the (sm_stakes slash_demo 9)) = 400" "sm_slashPercentage slash_demo = 5" "sm_minStakeAmount slash_demo = 400"
    by (simp_all add: slash_demo_def NewStakingManager_def)
  show ?thesis
    using slash_strands_the_rest [OF mkv.kv_store_axioms s(1,2) run, of 20] run by (simp add: s(3-5))
qed

text \<open>
  The node creates its manager with minimum zero, and then every stake the manager ever
  holds is zero: it refuses any other amount, so no miner ever passes the stake check of block
  validation.
\<close>

theorem node_accepts_only_empty_stakes:
  assumes "(staking_step K C)\<^sup>*\<^sup>* (NewStakingManager d (Some 0)) sm"
  shows "GetStake sm a = 0 \<and> (\<exists>e. ValidateBlockMiner sm a known = Inl e)"
proof -
  have "sm_minStakeAmount sm = 0 \<and> (\<forall>a s. sm_stakes sm a = Some s \<longrightarrow> si_Amount s = 0)"
    using assms
  proof (induction rule: rtranclp_induct)
    case (step s s')
    from step.hyps(2) show ?case
    proof cases
      case (stake clk h p b v pk r)
      from stake show ?thesis
        by (cases rule: Stake_cases) (use step.IH in \<open>auto split: if_splits\<close>)
    next
      case (unstake clk h p b pk r)
      from unstake show ?thesis
        by (cases rule: Unstake_cases) (use step.IH in \<open>auto split: if_splits\<close>)
    next
      case (withdraw clk p order h r)
      then obtain q where "withdrawals_loop K clk h order 0 s = (q, s')"
        by (auto simp: ProcessWithdrawalsAtHeight_def persistLocked_def split: prod.splits sum.splits if_splits)
      then show ?thesis
        by (rule withdrawals_loop_induct) (use step.IH in \<open>auto simp: released_def\<close>)
    qed
  qed (simp add: NewStakingManager_def)
  then have "GetStake sm a = 0" by (auto simp: GetStake_def split: option.split)
  then show ?thesis by (simp add: ValidateBlockMiner_def validatorMinStake_def)
qed

theorem node_accepts_only_empty_stakes_witness:
  "\<exists>e. ValidateBlockMiner (NewStakingManager sample_state (Some 0)) 5 True = Inl e"
  using node_accepts_only_empty_stakes [of map_kv toy_crypto sample_state "NewStakingManager sample_state (Some 0)" 5 True] by simp

end
