(* ===== verification/Binary_Heap.thy ===== *)
theory Binary_Heap
  imports Prelude "HOL-Library.Multiset"
begin

text \<open>
  The binary heap of Go's \<open>container/heap\<close> over a slice, which the transaction pool keeps its
  pending transactions in. \<open>lt x y\<close> is the code's \<open>Less\<close> on two elements. The positions the
  functions read are inside the list; this is part of the lemmas.
\<close>

section \<open>Operations\<close>

definition swap :: "nat \<Rightarrow> nat \<Rightarrow> 'a list \<Rightarrow> 'a list" where
  "swap i j h = h[i := h ! j, j := h ! i]"

fun heap_up :: "('a \<Rightarrow> 'a \<Rightarrow> bool) \<Rightarrow> nat \<Rightarrow> 'a list \<Rightarrow> 'a list" where
  "heap_up lt j h =
     (let i = (j - 1) div 2
      in if j = 0 \<or> \<not> lt (h ! j) (h ! i) then h else heap_up lt i (swap i j h))"

declare heap_up.simps [simp del]

function heap_down :: "('a \<Rightarrow> 'a \<Rightarrow> bool) \<Rightarrow> nat \<Rightarrow> 'a list \<Rightarrow> 'a list" where
  "heap_down lt i h =
     (let j1 = 2 * i + 1
      in if j1 \<ge> length h then h
         else
           let j = (if j1 + 1 < length h \<and> lt (h ! (j1 + 1)) (h ! j1) then j1 + 1 else j1)
           in if \<not> lt (h ! j) (h ! i) then h else heap_down lt j (swap i j h))"
  by pat_completeness auto
termination
  by (relation "measure (\<lambda>(lt, i, h). length h - i)") (auto simp: swap_def Let_def)

declare heap_down.simps [simp del]

definition heap_push :: "('a \<Rightarrow> 'a \<Rightarrow> bool) \<Rightarrow> 'a \<Rightarrow> 'a list \<Rightarrow> 'a list" where
  "heap_push lt x h = heap_up lt (length h) (h @ [x])"

text \<open>\<open>heap.Init\<close> sifts down from the last parent to the root.\<close>

fun init_from :: "('a \<Rightarrow> 'a \<Rightarrow> bool) \<Rightarrow> nat \<Rightarrow> 'a list \<Rightarrow> 'a list" where
  "init_from lt 0 h = h"
| "init_from lt (Suc i) h = init_from lt i (heap_down lt i h)"

definition heap_init :: "('a \<Rightarrow> 'a \<Rightarrow> bool) \<Rightarrow> 'a list \<Rightarrow> 'a list" where
  "heap_init lt h = init_from lt (length h div 2) h"

section \<open>The elements\<close>

lemma length_swap [simp]: "length (swap i j h) = length h"
  by (simp add: swap_def)

lemma mset_swap [simp]: "i < length h \<Longrightarrow> j < length h \<Longrightarrow> mset (swap i j h) = mset h"
  by (simp add: swap_def mset_swap)

lemma nth_swap:
  "i < length h \<Longrightarrow> j < length h \<Longrightarrow> swap i j h ! k = (if k = j then h ! i else if k = i then h ! j else h ! k)"
  by (simp add: swap_def nth_list_update)

lemma mset_heap_up: "j < length h \<Longrightarrow> mset (heap_up lt j h) = mset h"
proof (induction lt j h rule: heap_up.induct)
  case (1 lt j h)
  then show ?case by (subst heap_up.simps) (auto simp: Let_def)
qed

lemma mset_heap_push [simp]: "mset (heap_push lt x h) = add_mset x (mset h)"
  by (simp add: heap_push_def mset_heap_up)

section \<open>Heap order\<close>

text \<open>No element is smaller, by the heap's \<open>Less\<close>, than its parent; here the order comes from a
  key, and the root has the largest.\<close>

definition is_heap :: "('a \<Rightarrow> 'k::linorder) \<Rightarrow> 'a list \<Rightarrow> bool" where
  "is_heap key h \<longleftrightarrow> (\<forall>i < length h. 0 < i \<longrightarrow> key (h ! i) \<le> key (h ! ((i - 1) div 2)))"

text \<open>Heap order everywhere but at \<open>j\<close>, whose parent dominates the children of \<open>j\<close>.\<close>

definition almost_heap :: "('a \<Rightarrow> 'k::linorder) \<Rightarrow> nat \<Rightarrow> 'a list \<Rightarrow> bool" where
  "almost_heap key j h \<longleftrightarrow>
     (\<forall>i < length h. 0 < i \<longrightarrow> i \<noteq> j \<longrightarrow> key (h ! i) \<le> key (h ! ((i - 1) div 2)))
     \<and> (\<forall>i < length h. 0 < i \<longrightarrow> 0 < j \<longrightarrow> (i - 1) div 2 = j \<longrightarrow> key (h ! i) \<le> key (h ! ((j - 1) div 2)))"

lemma almost_heap_done:
  "almost_heap key j h \<Longrightarrow> j = 0 \<or> key (h ! j) \<le> key (h ! ((j - 1) div 2)) \<Longrightarrow> is_heap key h"
  unfolding almost_heap_def is_heap_def by blast

lemma almost_heap_swap:
  assumes "almost_heap key j h" and "0 < j" and "j < length h" and "key (h ! ((j - 1) div 2)) < key (h ! j)"
  shows "almost_heap key ((j - 1) div 2) (swap ((j - 1) div 2) j h)"
proof -
  define p where "p = (j - 1) div 2"
  let ?h = "swap p j h"
  have p: "p < j" "p < length h" using assms(2,3) by (simp_all add: p_def)
  have lt: "key (h ! p) < key (h ! j)" using assms(4) by (simp add: p_def)
  have ord: "\<And>i. i < length h \<Longrightarrow> 0 < i \<Longrightarrow> i \<noteq> j \<Longrightarrow> key (h ! i) \<le> key (h ! ((i - 1) div 2))"
    and kids: "\<And>i. i < length h \<Longrightarrow> 0 < i \<Longrightarrow> (i - 1) div 2 = j \<Longrightarrow> key (h ! i) \<le> key (h ! p)"
    using assms(1,2) unfolding almost_heap_def p_def by blast+
  have nth: "?h ! k = (if k = j then h ! p else if k = p then h ! j else h ! k)" for k
    using p assms(3) by (simp add: nth_swap)
  have main: "key (?h ! i) \<le> key (?h ! ((i - 1) div 2))" if i: "i < length h" "0 < i" "i \<noteq> p" for i
  proof -
    consider "i = j" | "i \<noteq> j" "(i - 1) div 2 = j" | "i \<noteq> j" "(i - 1) div 2 = p" | "i \<noteq> j" "(i - 1) div 2 \<noteq> j" "(i - 1) div 2 \<noteq> p"
      by blast
    then show ?thesis
    proof cases
      case 1
      then have "?h ! i = h ! p" "?h ! ((i - 1) div 2) = h ! j" by (simp_all only: nth p_def [symmetric]) simp_all
      then show ?thesis using lt by simp
    next
      case 2
      then show ?thesis using kids [OF i(1,2)] i(3) by (simp add: nth)
    next
      case 3
      then show ?thesis using ord [OF i(1,2)] i(3) lt p by (simp add: nth)
    next
      case 4
      then show ?thesis using ord [OF i(1,2)] i(3) by (simp add: nth)
    qed
  qed
  have "key (?h ! i) \<le> key (?h ! ((p - 1) div 2))" if "i < length h" "0 < i" "0 < p" "(i - 1) div 2 = p" for i
  proof -
    have up: "key (h ! p) \<le> key (h ! ((p - 1) div 2))" using ord [of p] p that(3) by simp
    have far: "(p - 1) div 2 \<noteq> j" "(p - 1) div 2 \<noteq> p" using p that(3) by linarith+
    show ?thesis
    proof (cases "i = j")
      case True
      then show ?thesis using up far by (simp add: nth)
    next
      case False
      then have "key (h ! i) \<le> key (h ! p)" "i \<noteq> p" using ord [of i] that by auto
      then show ?thesis using up far False by (simp add: nth)
    qed
  qed
  then show ?thesis using main unfolding almost_heap_def p_def [symmetric] by simp
qed

lemma heap_up_heap:
  assumes "\<And>x y. lt x y \<longleftrightarrow> key y < key x"
  shows "almost_heap key j h \<Longrightarrow> j < length h \<Longrightarrow> is_heap key (heap_up lt j h)"
proof (induction j arbitrary: h rule: less_induct)
  case (less j)
  let ?p = "(j - 1) div 2"
  show ?case
  proof (cases "0 < j \<and> key (h ! ?p) < key (h ! j)")
    case True
    then have "heap_up lt j h = heap_up lt ?p (swap ?p j h)"
      by (subst heap_up.simps) (simp add: assms Let_def)
    moreover have "?p < j" using True by linarith
    ultimately show ?thesis
      using less.IH almost_heap_swap [of key j h] less.prems True by simp
  next
    case False
    then have "heap_up lt j h = h" by (subst heap_up.simps) (auto simp: assms Let_def)
    then show ?thesis using almost_heap_done [OF less.prems(1)] False by (auto simp: not_less)
  qed
qed

lemma is_heap_push:
  assumes "\<And>x y. lt x y \<longleftrightarrow> key y < key x" and "is_heap key h"
  shows "is_heap key (heap_push lt x h)"
proof -
  have "almost_heap key (length h) (h @ [x])"
    using assms(2) by (auto simp: almost_heap_def is_heap_def nth_append)
  then show ?thesis using heap_up_heap [of lt key, OF assms(1)] by (simp add: heap_push_def)
qed

text \<open>On a heap the sifting down finds nothing to do.\<close>

lemma heap_down_heap:
  assumes "\<And>x y. lt x y \<longleftrightarrow> key y < key x" and "is_heap key h"
  shows "heap_down lt i h = h"
proof -
  have "key (h ! (2 * i + 1)) \<le> key (h ! i)" if "2 * i + 1 < length h"
    using assms(2) that unfolding is_heap_def by fastforce
  moreover have "key (h ! (2 * i + 2)) \<le> key (h ! i)" if "2 * i + 2 < length h"
    using assms(2) [unfolded is_heap_def, rule_format, OF that] by simp
  ultimately show ?thesis
    by (subst heap_down.simps) (auto simp: assms(1) Let_def not_less)
qed

lemma heap_init_heap:
  assumes "\<And>x y. lt x y \<longleftrightarrow> key y < key x" and "is_heap key h"
  shows "heap_init lt h = h"
proof -
  have "init_from lt n h = h" for n by (induction n) (simp_all add: heap_down_heap [of lt key, OF assms])
  then show ?thesis by (simp add: heap_init_def)
qed

lemma is_heap_Nil [simp]: "is_heap key []"
  by (simp add: is_heap_def)

lemma is_heap_root: "is_heap key h \<Longrightarrow> i < length h \<Longrightarrow> key (h ! i) \<le> key (h ! 0)"
proof (induction i rule: less_induct)
  case (less i)
  show ?case
  proof (cases "i = 0")
    case False
    then have "(i - 1) div 2 < i" by linarith
    then show ?thesis
      using less.IH [of "(i - 1) div 2"] less.prems False unfolding is_heap_def by fastforce
  qed simp
qed

lemma is_heap_hd: "is_heap key h \<Longrightarrow> x \<in> set h \<Longrightarrow> key x \<le> key (hd h)"
  by (metis is_heap_root in_set_conv_nth hd_conv_nth list.set_cases list.discI)

section \<open>What a user of the heap relies on\<close>

locale priority_list =
  fixes key :: "'a \<Rightarrow> 'k::linorder" and push :: "'a \<Rightarrow> 'a list \<Rightarrow> 'a list"
    and inv :: "'a list \<Rightarrow> bool" and heapify :: "'a list \<Rightarrow> 'a list"
  assumes inv_Nil: "inv []"
    and inv_push: "inv h \<Longrightarrow> inv (push x h)"
    and mset_push: "mset (push x h) = add_mset x (mset h)"
    and heapify_inv: "inv h \<Longrightarrow> heapify h = h"
    and inv_hd: "inv h \<Longrightarrow> x \<in> set h \<Longrightarrow> key x \<le> key (hd h)"
begin

lemma inv_pushes: "inv h \<Longrightarrow> inv (fold push xs h)"
  by (induction xs arbitrary: h) (simp_all add: inv_push)

lemma mset_pushes: "mset (fold push xs h) = mset xs + mset h"
  by (induction xs arbitrary: h) (simp_all add: mset_push)

lemma inv_build: "inv (heapify (fold push xs []))"
  using inv_pushes [OF inv_Nil] by (simp add: heapify_inv)

lemma mset_build: "mset (heapify (fold push xs [])) = mset xs"
  using inv_pushes [OF inv_Nil] by (simp add: heapify_inv mset_pushes)

lemma set_push: "set (push x h) = Set.insert x (set h)"
  by (metis mset_push set_mset_add_mset_insert set_mset_mset)

end

lemma heap_priority_list:
  assumes "\<And>x y. lt x y \<longleftrightarrow> key y < key x"
  shows "priority_list key (heap_push lt) (is_heap key) (heap_init lt)"
  by unfold_locales
    (simp_all add: is_heap_push [of lt key, OF assms] heap_init_heap [of lt key, OF assms] is_heap_hd)

end
