(* ===== verification/Tx_Pool.thy ===== *)
theory Tx_Pool
  imports Execution Binary_Heap "HOL-Library.Finite_Map"
begin

text \<open>
  The transaction pool (\<open>antdc/chain/txpool.go\<close>): admission, removal, the clean-ups, the nonce
  tracker, the pending heap, and saving and loading.

  Loops over a map take the iteration order as an argument. The chain is the pool's view of it:
  its state, the number of its latest header, and what the maturity rule reads. \<open>tx.GasPrice\<close> is
  never nil in the pool, since admission checks it and the JSON decoder always sets it;
  \<open>gas_price\<close> is 0 there only to be total. Metrics and log lines have no counterpart.
\<close>

section \<open>Data\<close>

definition gas_price :: "tx \<Rightarrow> int" where
  "gas_price t = (case tx_GasPrice t of None \<Rightarrow> 0 | Some p \<Rightarrow> p)"

text \<open>\<open>TxHeap.Less\<close>: the higher gas price comes first.\<close>

definition TxHeap_Less :: "tx \<Rightarrow> tx \<Rightarrow> bool" where
  "TxHeap_Less a b \<longleftrightarrow> gas_price a > gas_price b"

record tx_pool =
  tp_txs :: "(hash, tx) fmap"
  tp_bySender :: "address \<Rightarrow> tx list"
  tp_submitHeight :: "hash \<Rightarrow> u64 option"
  tp_submitTime :: "hash \<Rightarrow> int option"
  tp_nonceTracker :: "address \<Rightarrow> u64"
  tp_pendingHeap :: "tx list"
  tp_maxPoolSize :: int
  tp_maxTxsPerSender :: int
  tp_maxTxSize :: int
  tp_minGasPrice :: int
  tp_maxFutureNonceGap :: u64
  tp_minConfirmations :: u64
  tp_staleBlockAge :: u64
  tp_txTTL :: int

definition NewTxPool :: tx_pool where
  "NewTxPool =
     \<lparr>tp_txs = fmempty, tp_bySender = \<lambda>_. [], tp_submitHeight = \<lambda>_. None, tp_submitTime = \<lambda>_. None,
      tp_nonceTracker = \<lambda>_. 0, tp_pendingHeap = [], tp_maxPoolSize = 10000, tp_maxTxsPerSender = 64,
      tp_maxTxSize = 128 * 1024, tp_minGasPrice = 1000000000, tp_maxFutureNonceGap = 1024,
      tp_minConfirmations = 30, tp_staleBlockAge = 1000, tp_txTTL = 24 * 3600 * 1000000000\<rparr>"

record 'd pool_chain =
  pc_state :: 'd
  pc_latest :: "u64 option"
  pc_view :: chain_view

text \<open>\<open>time.Time{}\<close>, the start of year 1, in nanoseconds.\<close>

definition zero_time :: int where "zero_time = - 62135596800 * 1000000000"

definition latest_number :: "'d pool_chain \<Rightarrow> u64" where
  "latest_number c = (case pc_latest c of None \<Rightarrow> 0 | Some n \<Rightarrow> n)"

datatype pool_error =
    Pool_Nil_Tx | Pool_Invalid tx_error | Pool_Bad_Signature | Pool_No_Chain | Pool_Busy
  | Pool_Too_Large | Pool_Gas_Price | Pool_Insufficient | Pool_Nonce_High | Pool_Lock_Timeout
  | Pool_Known | Pool_Full | Pool_Sender_Limit | Pool_Wrong_Nonce u64 u64 | Pool_Duplicate_Nonce
  | Pool_Panic | Pool_Diverges

text \<open>The calls of \<open>addTx\<close> that may time out.\<close>

datatype pool_call = State_Call | Nonce_Call | Balance_Call | Height_Call | Lock_Wait

definition pool_size :: "tx_pool \<Rightarrow> int" where
  "pool_size p = int (fcard (fmdom (tp_txs p)))"

definition GetNextNonce :: "'d kv_ops \<Rightarrow> 'd pool_chain option \<Rightarrow> tx_pool \<Rightarrow> address \<Rightarrow> u64 option" where
  "GetNextNonce K chain p addr =
     (case chain of
        None \<Rightarrow> Some 0
      | Some c \<Rightarrow>
          (case GetNonce K (pc_state c) addr of
             None \<Rightarrow> None
           | Some stateNonce \<Rightarrow>
               let h = tp_nonceTracker p addr
               in if h \<ge> stateNonce then Some (h + 1) else Some stateNonce))"

section \<open>Admission\<close>

text \<open>Size, price, spendable balance and nonce range: the first failing check, if any.\<close>

definition cost_checks ::
    "'d kv_ops \<Rightarrow> 'd pool_chain \<Rightarrow> tx_pool \<Rightarrow> tx \<Rightarrow> u64 \<Rightarrow> u64 \<Rightarrow> pool_error option" where
  "cost_checks K c p t stateNonce latestHeight =
     (if int (length (tx_Data t)) > tp_maxTxSize p then Some Pool_Too_Large
      else case (tx_GasPrice t, tx_Value t) of
        (Some price, Some value) \<Rightarrow>
          if price < tp_minGasPrice p then Some Pool_Gas_Price
          else
            let totalCost = value + int (unat (tx_Gas t)) * price in
            (case spendableBalanceAtHeight K (pc_state c) (cv_blockAt (pc_view c))
                    (cv_minConfirmations (pc_view c)) (tx_From t) latestHeight (\<lambda>_. None) of
               None \<Rightarrow> Some Pool_Diverges
             | Some spendableBalance \<Rightarrow>
                 if spendableBalance < totalCost then Some Pool_Insufficient
                 else if tx_Nonce t > stateNonce + tp_maxFutureNonceGap p then Some Pool_Nonce_High
                 else None)
      | _ \<Rightarrow> Some Pool_Panic)"

text \<open>What \<open>addTx\<close> checks before it takes the lock; it yields the state nonce and the height.\<close>

definition admission_checks ::
    "'d kv_ops \<Rightarrow> crypto \<Rightarrow> (bytes \<Rightarrow> hash) \<Rightarrow> (pool_call \<Rightarrow> bool) \<Rightarrow> 'd pool_chain option \<Rightarrow> tx_pool
     \<Rightarrow> tx option \<Rightarrow> pool_error + tx \<times> u64 \<times> u64" where
  "admission_checks K C sha256 timeout chain p transaction =
     (case transaction of None \<Rightarrow> Inl Pool_Nil_Tx | Some t \<Rightarrow>
     (case Validate_Tx t of Inl e \<Rightarrow> Inl (Pool_Invalid e) | Inr _ \<Rightarrow>
     (if Verify_Tx C sha256 t \<noteq> Inr () then Inl Pool_Bad_Signature
      else case chain of None \<Rightarrow> Inl Pool_No_Chain | Some c \<Rightarrow>
     (if timeout State_Call \<or> timeout Nonce_Call then Inl Pool_Busy
      else case GetNonce K (pc_state c) (tx_From t) of None \<Rightarrow> Inl Pool_Panic | Some stateNonce \<Rightarrow>
     (if timeout Balance_Call then Inl Pool_Busy
      else
        let latestHeight = (if timeout Height_Call then 0 else latest_number c)
        in case cost_checks K c p t stateNonce latestHeight of
             Some e \<Rightarrow> Inl e
           | None \<Rightarrow> Inr (t, stateNonce, latestHeight))))))"

text \<open>One above the largest pending nonce, unless the state is already further.\<close>

definition expectedNonce :: "u64 \<Rightarrow> tx list \<Rightarrow> u64" where
  "expectedNonce stateNonce senderTxs =
     (if senderTxs \<noteq> [] then
        let maxPendingNonce = foldl (\<lambda>m t. if tx_Nonce t > m then tx_Nonce t else m) 0 senderTxs
        in if maxPendingNonce \<ge> stateNonce then maxPendingNonce + 1 else stateNonce
      else stateNonce)"

definition insert_tx :: "hash \<Rightarrow> int \<Rightarrow> u64 \<Rightarrow> tx_pool \<Rightarrow> tx \<Rightarrow> tx_pool" where
  "insert_tx hash now latestHeight p t =
     p\<lparr>tp_txs := fmupd hash t (tp_txs p),
       tp_bySender := (tp_bySender p)(tx_From t := tp_bySender p (tx_From t) @ [t]),
       tp_submitTime := (tp_submitTime p)(hash \<mapsto> now),
       tp_submitHeight := (tp_submitHeight p)(hash \<mapsto> latestHeight),
       tp_nonceTracker :=
         (if tx_Nonce t > tp_nonceTracker p (tx_From t)
          then (tp_nonceTracker p)(tx_From t := tx_Nonce t) else tp_nonceTracker p),
       tp_pendingHeap := heap_push TxHeap_Less t (tp_pendingHeap p)\<rparr>"

text \<open>What it checks under the lock: the first failing check, if any.\<close>

definition locked_checks :: "tx_pool \<Rightarrow> hash \<Rightarrow> u64 \<Rightarrow> tx \<Rightarrow> pool_error option" where
  "locked_checks p hash stateNonce t =
     (let senderTxs = tp_bySender p (tx_From t) in
      if fmlookup (tp_txs p) hash \<noteq> None then Some Pool_Known
      else if pool_size p \<ge> tp_maxPoolSize p then Some Pool_Full
      else if int (length senderTxs) \<ge> tp_maxTxsPerSender p then Some Pool_Sender_Limit
      else if tx_Nonce t \<noteq> expectedNonce stateNonce senderTxs
      then Some (Pool_Wrong_Nonce (expectedNonce stateNonce senderTxs) (tx_Nonce t))
      else if \<exists>pendingTx \<in> set senderTxs. tx_Nonce pendingTx = tx_Nonce t
      then Some Pool_Duplicate_Nonce
      else None)"

definition addTx ::
    "'d kv_ops \<Rightarrow> crypto \<Rightarrow> (bytes \<Rightarrow> hash) \<Rightarrow> (pool_call \<Rightarrow> bool) \<Rightarrow> int \<Rightarrow> 'd pool_chain option \<Rightarrow> tx_pool
     \<Rightarrow> tx option \<Rightarrow> (pool_error + unit) \<times> tx_pool" where
  "addTx K C sha256 timeout now chain p transaction =
     (case admission_checks K C sha256 timeout chain p transaction of
        Inl e \<Rightarrow> (Inl e, p)
      | Inr (t, stateNonce, latestHeight) \<Rightarrow>
          if timeout Lock_Wait then (Inl Pool_Lock_Timeout, p)
          else (case locked_checks p (tx_Hash sha256 t) stateNonce t of
                  Some e \<Rightarrow> (Inl e, p)
                | None \<Rightarrow> (Inr (), insert_tx (tx_Hash sha256 t) now latestHeight p t)))"

section \<open>Removal\<close>

fun remove_first :: "('a \<Rightarrow> bool) \<Rightarrow> 'a list \<Rightarrow> 'a list" where
  "remove_first P [] = []"
| "remove_first P (x # xs) = (if P x then xs else x # remove_first P xs)"

definition removeLocked :: "(bytes \<Rightarrow> hash) \<Rightarrow> tx_pool \<Rightarrow> hash \<Rightarrow> tx_pool" where
  "removeLocked sha256 p hash =
     (case fmlookup (tp_txs p) hash of
        None \<Rightarrow> p
      | Some t \<Rightarrow>
          p\<lparr>tp_txs := fmdrop hash (tp_txs p),
            tp_submitHeight := (tp_submitHeight p)(hash := None),
            tp_submitTime := (tp_submitTime p)(hash := None),
            tp_bySender := (tp_bySender p)(tx_From t :=
              remove_first (\<lambda>x. tx_Hash sha256 x = hash) (tp_bySender p (tx_From t)))\<rparr>)"

definition rebuildNonceTracker :: "hash list \<Rightarrow> tx_pool \<Rightarrow> tx_pool" where
  "rebuildNonceTracker order p =
     p\<lparr>tp_nonceTracker :=
         fold (\<lambda>t m. if tx_Nonce t > m (tx_From t) then m(tx_From t := tx_Nonce t) else m)
           (List.map_filter (fmlookup (tp_txs p)) order) (\<lambda>_. 0)\<rparr>"

definition rebuildPendingHeap :: "hash list \<Rightarrow> tx_pool \<Rightarrow> tx_pool" where
  "rebuildPendingHeap order p =
     p\<lparr>tp_pendingHeap :=
         heap_init TxHeap_Less
           (fold (heap_push TxHeap_Less) (List.map_filter (fmlookup (tp_txs p)) order) [])\<rparr>"

definition rebuild :: "hash list \<Rightarrow> hash list \<Rightarrow> tx_pool \<Rightarrow> tx_pool" where
  "rebuild order1 order2 p = rebuildPendingHeap order2 (rebuildNonceTracker order1 p)"

definition remove_tx :: "(bytes \<Rightarrow> hash) \<Rightarrow> tx_pool \<Rightarrow> hash \<Rightarrow> tx_pool" where
  "remove_tx sha256 p hash = removeLocked sha256 p hash"

text \<open>A nil transaction in the list would be dereferenced; the callers pass none.\<close>

definition removeTxs :: "(bytes \<Rightarrow> hash) \<Rightarrow> hash list \<Rightarrow> hash list \<Rightarrow> tx_pool \<Rightarrow> tx list \<Rightarrow> tx_pool" where
  "removeTxs sha256 order1 order2 p txs =
     rebuild order1 order2 (fold (\<lambda>t p. removeLocked sha256 p (tx_Hash sha256 t)) txs p)"

definition clear_pool :: "tx_pool \<Rightarrow> tx_pool" where
  "clear_pool p =
     p\<lparr>tp_txs := fmempty, tp_bySender := \<lambda>_. [], tp_submitHeight := \<lambda>_. None, tp_submitTime := \<lambda>_. None,
       tp_nonceTracker := \<lambda>_. 0, tp_pendingHeap := []\<rparr>"

definition GetPending :: "tx_pool \<Rightarrow> tx list" where
  "GetPending p = tp_pendingHeap p"

definition getConfirmed :: "hash list \<Rightarrow> 'd pool_chain \<Rightarrow> tx_pool \<Rightarrow> u64 \<Rightarrow> tx list" where
  "getConfirmed order c p minConf =
     (let cur = latest_number c;
          minConf' = (if minConf = 0 then tp_minConfirmations p else minConf)
      in List.map_filter (fmlookup (tp_txs p))
           (filter (\<lambda>h. case tp_submitHeight p h of
                None \<Rightarrow> False | Some s \<Rightarrow> cur \<ge> s \<and> cur - s + 1 \<ge> minConf') order))"

section \<open>Clean-ups\<close>

definition is_stale :: "u64 \<Rightarrow> int \<Rightarrow> u64 \<Rightarrow> tx_pool \<Rightarrow> hash \<Rightarrow> bool" where
  "is_stale cur now maxAge p h \<longleftrightarrow>
     (case tp_submitHeight p h of None \<Rightarrow> False | Some sh \<Rightarrow> cur > sh \<and> cur - sh > maxAge)
     \<or> (case tp_submitTime p h of None \<Rightarrow> False | Some s \<Rightarrow> now - s > tp_txTTL p)"

text \<open>Entries of the map that are removed, in the order of the iteration.\<close>

definition remove_all :: "(bytes \<Rightarrow> hash) \<Rightarrow> hash list \<Rightarrow> hash list \<Rightarrow> hash list \<Rightarrow> tx_pool \<Rightarrow> tx_pool" where
  "remove_all sha256 hs order1 order2 p =
     (let hs' = filter (\<lambda>h. fmlookup (tp_txs p) h \<noteq> None) hs
      in if hs' \<noteq> [] then rebuild order1 order2 (fold (\<lambda>h p. removeLocked sha256 p h) hs' p) else p)"

definition cleanupStale ::
    "(bytes \<Rightarrow> hash) \<Rightarrow> hash list \<Rightarrow> hash list \<Rightarrow> hash list \<Rightarrow> 'd pool_chain \<Rightarrow> int \<Rightarrow> tx_pool \<Rightarrow> u64 \<Rightarrow> tx_pool" where
  "cleanupStale sha256 order order1 order2 c now p maxAge =
     remove_all sha256 (filter (is_stale (latest_number c) now maxAge p) order) order1 order2 p"

text \<open>
  Whether \<open>cleanupInvalid\<close> drops a transaction of its snapshot; \<open>None\<close> where \<open>GetNonce\<close> panics.
  A missing height reads as 0, a missing time as the zero \<open>time.Time\<close>.
\<close>

definition is_invalid :: "'d kv_ops \<Rightarrow> 'd pool_chain \<Rightarrow> int \<Rightarrow> tx_pool \<Rightarrow> hash \<Rightarrow> tx \<Rightarrow> bool option" where
  "is_invalid K c now p h t =
     (case GetNonce K (pc_state c) (tx_From t) of
        None \<Rightarrow> None
      | Some stateNonce \<Rightarrow>
          let cur = latest_number c;
              sh = (case tp_submitHeight p h of None \<Rightarrow> 0 | Some s \<Rightarrow> s);
              st = (case tp_submitTime p h of None \<Rightarrow> zero_time | Some s \<Rightarrow> s)
          in Some (tx_Nonce t < stateNonce \<or> (sh > 0 \<and> cur - sh > tp_staleBlockAge p) \<or> now - st > tp_txTTL p))"

fun invalid_hashes :: "'d kv_ops \<Rightarrow> 'd pool_chain \<Rightarrow> int \<Rightarrow> tx_pool \<Rightarrow> hash list \<Rightarrow> hash list option" where
  "invalid_hashes K c now p [] = Some []"
| "invalid_hashes K c now p (h # order) =
     (case fmlookup (tp_txs p) h of
        None \<Rightarrow> invalid_hashes K c now p order
      | Some t \<Rightarrow>
          (case (is_invalid K c now p h t, invalid_hashes K c now p order) of
             (Some stale, Some hs) \<Rightarrow> Some (if stale then h # hs else hs)
           | _ \<Rightarrow> None))"

definition cleanupInvalid ::
    "'d kv_ops \<Rightarrow> (bytes \<Rightarrow> hash) \<Rightarrow> hash list \<Rightarrow> hash list \<Rightarrow> hash list \<Rightarrow> 'd pool_chain \<Rightarrow> int \<Rightarrow> tx_pool
     \<Rightarrow> tx_pool option" where
  "cleanupInvalid K sha256 order order1 order2 c now p =
     map_option (\<lambda>toRemove. remove_all sha256 toRemove order1 order2 p) (invalid_hashes K c now p order)"

definition CleanupMinedTransactions ::
    "(bytes \<Rightarrow> hash) \<Rightarrow> hash list \<Rightarrow> hash list \<Rightarrow> tx_pool \<Rightarrow> tx list \<Rightarrow> tx_pool" where
  "CleanupMinedTransactions sha256 order1 order2 p minedTxs =
     remove_all sha256 (remdups (map (tx_Hash sha256) minedTxs)) order1 order2 p"

text \<open>One sender of \<open>cleanupInvalidNonces\<close>: a gap before its first transaction drops them all.\<close>

definition drop_sender :: "(bytes \<Rightarrow> hash) \<Rightarrow> address \<Rightarrow> tx_pool \<Rightarrow> tx_pool" where
  "drop_sender sha256 sender p =
     (let hs = map (tx_Hash sha256) (tp_bySender p sender)
      in p\<lparr>tp_txs := fold fmdrop hs (tp_txs p),
           tp_submitHeight := (\<lambda>h. if h \<in> set hs then None else tp_submitHeight p h),
           tp_submitTime := (\<lambda>h. if h \<in> set hs then None else tp_submitTime p h),
           tp_bySender := (tp_bySender p)(sender := []),
           tp_nonceTracker := (tp_nonceTracker p)(sender := 0)\<rparr>)"

fun gap_loop :: "'d kv_ops \<Rightarrow> (bytes \<Rightarrow> hash) \<Rightarrow> 'd pool_chain \<Rightarrow> address list \<Rightarrow> tx_pool \<Rightarrow> tx_pool option" where
  "gap_loop K sha256 c [] p = Some p"
| "gap_loop K sha256 c (sender # senders) p =
     (case tp_bySender p sender of
        [] \<Rightarrow> gap_loop K sha256 c senders p
      | first # _ \<Rightarrow>
          (case GetNonce K (pc_state c) sender of
             None \<Rightarrow> None
           | Some stateNonce \<Rightarrow>
               gap_loop K sha256 c senders (if tx_Nonce first > stateNonce then drop_sender sha256 sender p else p)))"

definition cleanupInvalidNonces ::
    "'d kv_ops \<Rightarrow> (bytes \<Rightarrow> hash) \<Rightarrow> address list \<Rightarrow> hash list \<Rightarrow> 'd pool_chain \<Rightarrow> tx_pool \<Rightarrow> tx_pool option" where
  "cleanupInvalidNonces K sha256 senders order2 c p =
     map_option (rebuildPendingHeap order2) (gap_loop K sha256 c senders p)"

section \<open>Saving and loading\<close>

record stored_tx =
  st_Tx :: "tx option"
  st_SubmitHeight :: u64
  st_SubmitTime :: int

text \<open>The list that is marshalled and written; \<open>None\<close> when the pool is empty and nothing is written.\<close>

definition SaveToDisk :: "hash list \<Rightarrow> tx_pool \<Rightarrow> stored_tx list option" where
  "SaveToDisk order p =
     (if pool_size p = 0 then None
      else Some (List.map_filter (\<lambda>h. map_option (\<lambda>t.
           \<lparr>st_Tx = Some t, st_SubmitHeight = (case tp_submitHeight p h of None \<Rightarrow> 0 | Some s \<Rightarrow> s),
            st_SubmitTime = (case tp_submitTime p h of None \<Rightarrow> zero_time div 1000000000 | Some s \<Rightarrow> s div 1000000000)\<rparr>)
             (fmlookup (tp_txs p) h)) order))"

text \<open>One stored entry; \<open>None\<close> where \<open>GetNonce\<close> panics.\<close>

definition load_tx ::
    "'d kv_ops \<Rightarrow> crypto \<Rightarrow> (bytes \<Rightarrow> hash) \<Rightarrow> 'd pool_chain \<Rightarrow> stored_tx \<Rightarrow> tx_pool \<Rightarrow> tx_pool option" where
  "load_tx K C sha256 c st p =
     (case st_Tx st of
        None \<Rightarrow> Some p
      | Some t \<Rightarrow>
          if Verify_Tx C sha256 t \<noteq> Inr () then Some p
          else case GetNonce K (pc_state c) (tx_From t) of
            None \<Rightarrow> None
          | Some stateNonce \<Rightarrow>
              if tx_Nonce t < stateNonce then Some p
              else let h = tx_Hash sha256 t in
                Some (p\<lparr>tp_txs := fmupd h t (tp_txs p),
                        tp_submitHeight := (tp_submitHeight p)(h \<mapsto> st_SubmitHeight st),
                        tp_submitTime := (tp_submitTime p)(h \<mapsto> st_SubmitTime st * 1000000000),
                        tp_bySender := (tp_bySender p)(tx_From t := tp_bySender p (tx_From t) @ [t]),
                        tp_pendingHeap := heap_push TxHeap_Less t (tp_pendingHeap p)\<rparr>))"

fun load_txs ::
    "'d kv_ops \<Rightarrow> crypto \<Rightarrow> (bytes \<Rightarrow> hash) \<Rightarrow> 'd pool_chain \<Rightarrow> stored_tx list \<Rightarrow> tx_pool \<Rightarrow> tx_pool option" where
  "load_txs K C sha256 c [] p = Some p"
| "load_txs K C sha256 c (st # sts) p =
     (case load_tx K C sha256 c st p of None \<Rightarrow> None | Some p' \<Rightarrow> load_txs K C sha256 c sts p')"

text \<open>The file: absent, unreadable, not JSON, or the stored list.\<close>

datatype pool_file = Absent | Unreadable | Not_JSON | Stored "stored_tx list"

datatype load_error = Load_Read_Error | Load_Bad_JSON | Load_Panic

definition LoadFromDisk ::
    "'d kv_ops \<Rightarrow> crypto \<Rightarrow> (bytes \<Rightarrow> hash) \<Rightarrow> hash list \<Rightarrow> 'd pool_chain \<Rightarrow> pool_file \<Rightarrow> tx_pool \<Rightarrow> load_error + tx_pool" where
  "LoadFromDisk K C sha256 order1 c file p =
     (case file of
        Absent \<Rightarrow> Inr p
      | Unreadable \<Rightarrow> Inl Load_Read_Error
      | Not_JSON \<Rightarrow> Inl Load_Bad_JSON
      | Stored sts \<Rightarrow>
          (case load_txs K C sha256 c sts p of
             None \<Rightarrow> Inl Load_Panic
           | Some p' \<Rightarrow> Inr (rebuildNonceTracker order1 p')))"

section \<open>The invariant of the pool\<close>

interpretation txh: priority_list gas_price "heap_push TxHeap_Less" "is_heap gas_price" "heap_init TxHeap_Less"
  by (rule heap_priority_list) (simp add: TxHeap_Less_def)

text \<open>
  The table and the per-sender queues hold the same transactions, under their own hash and
  sender, and no sender has two with one nonce.
\<close>

definition pool_ok :: "(bytes \<Rightarrow> hash) \<Rightarrow> tx_pool \<Rightarrow> bool" where
  "pool_ok sha256 p \<longleftrightarrow>
     (\<forall>h t. fmlookup (tp_txs p) h = Some t \<longrightarrow> tx_Hash sha256 t = h \<and> t \<in> set (tp_bySender p (tx_From t)))
     \<and> (\<forall>s t. t \<in> set (tp_bySender p s) \<longrightarrow> tx_From t = s \<and> fmlookup (tp_txs p) (tx_Hash sha256 t) = Some t)
     \<and> (\<forall>s. distinct (map tx_Nonce (tp_bySender p s)))"

text \<open>The limits of the configuration.\<close>

definition pool_bounded :: "tx_pool \<Rightarrow> bool" where
  "pool_bounded p \<longleftrightarrow>
     pool_size p \<le> tp_maxPoolSize p \<and> (\<forall>s. int (length (tp_bySender p s)) \<le> tp_maxTxsPerSender p)"

text \<open>The heap is one, and holds the transactions of the table, each once.\<close>

definition heap_synced :: "tx_pool \<Rightarrow> bool" where
  "heap_synced p \<longleftrightarrow>
     is_heap gas_price (tp_pendingHeap p) \<and> distinct (tp_pendingHeap p)
     \<and> (\<forall>t. t \<in> set (tp_pendingHeap p) \<longleftrightarrow> (\<exists>h. fmlookup (tp_txs p) h = Some t))"

lemma pool_okD:
  assumes "pool_ok sha256 p"
  shows "fmlookup (tp_txs p) h = Some t \<Longrightarrow> tx_Hash sha256 t = h"
    and "fmlookup (tp_txs p) h = Some t \<Longrightarrow> t \<in> set (tp_bySender p (tx_From t))"
    and "t \<in> set (tp_bySender p s) \<Longrightarrow> tx_From t = s"
    and "t \<in> set (tp_bySender p s) \<Longrightarrow> fmlookup (tp_txs p) (tx_Hash sha256 t) = Some t"
    and "distinct (map tx_Nonce (tp_bySender p s))"
    and "distinct (tp_bySender p s)"
proof -
  show nonces: "distinct (map tx_Nonce (tp_bySender p s))" using assms by (simp only: pool_ok_def)
  then show "distinct (tp_bySender p s)" by (simp add: distinct_map)
qed (use assms in \<open>simp_all add: pool_ok_def\<close>)

declare tx_Hash_sha [simp del]

subsection \<open>Admission\<close>

lemma locked_checks_None:
  "locked_checks p hash n t = None \<longleftrightarrow>
     fmlookup (tp_txs p) hash = None \<and> pool_size p < tp_maxPoolSize p
     \<and> int (length (tp_bySender p (tx_From t))) < tp_maxTxsPerSender p
     \<and> tx_Nonce t = expectedNonce n (tp_bySender p (tx_From t))
     \<and> (\<forall>q \<in> set (tp_bySender p (tx_From t)). tx_Nonce q \<noteq> tx_Nonce t)"
  unfolding locked_checks_def Let_def by (simp add: not_le)

lemma admission_checks_tx: "admission_checks K C sha256 timeout chain p t = Inr (t', n, l) \<Longrightarrow> t = Some t'"
  by (cases t) (simp_all add: admission_checks_def Let_def split: option.splits sum.splits if_splits)

lemma addTx_cases:
  assumes "addTx K C sha256 timeout now chain p t = (r, p')"
  obtains (refused) "p' = p" "\<exists>e. r = Inl e"
  | (added) t' n l where "t = Some t'" "r = Inr ()" "p' = insert_tx (tx_Hash sha256 t') now l p t'"
      "fmlookup (tp_txs p) (tx_Hash sha256 t') = None" "pool_size p < tp_maxPoolSize p"
      "int (length (tp_bySender p (tx_From t'))) < tp_maxTxsPerSender p"
      "\<forall>q \<in> set (tp_bySender p (tx_From t')). tx_Nonce q \<noteq> tx_Nonce t'"
      "admission_checks K C sha256 timeout chain p t = Inr (t', n, l)"
      "tx_Nonce t' = expectedNonce n (tp_bySender p (tx_From t'))"
proof (cases "admission_checks K C sha256 timeout chain p t")
  case (Inl e)
  then have "p' = p" "r = Inl e" using assms by (simp_all add: addTx_def)
  then show ?thesis using refused by blast
next
  case (Inr x)
  obtain t' n l where x: "x = (t', n, l)" by (cases x) auto
  show ?thesis
  proof (cases "\<not> timeout Lock_Wait \<and> locked_checks p (tx_Hash sha256 t') n t' = None")
    case True
    have "r = Inr ()" "p' = insert_tx (tx_Hash sha256 t') now l p t'"
      using assms Inr x True by (simp_all add: addTx_def)
    then show ?thesis
      using added [OF admission_checks_tx] Inr x True unfolding locked_checks_None by blast
  next
    case False
    then have "p' = p \<and> (\<exists>e. r = Inl e)"
      using assms Inr x by (auto simp: addTx_def split: if_splits option.splits)
    then show ?thesis using refused by blast
  qed
qed

lemma insert_tx_simps [simp]:
  "tp_txs (insert_tx h now l p t) = fmupd h t (tp_txs p)"
  "tp_bySender (insert_tx h now l p t) = (tp_bySender p)(tx_From t := tp_bySender p (tx_From t) @ [t])"
  "tp_pendingHeap (insert_tx h now l p t) = heap_push TxHeap_Less t (tp_pendingHeap p)"
  "tp_maxPoolSize (insert_tx h now l p t) = tp_maxPoolSize p"
  "tp_maxTxsPerSender (insert_tx h now l p t) = tp_maxTxsPerSender p"
  by (simp_all add: insert_tx_def)

lemma fcard_fmdom_upd: "fmlookup m h = None \<Longrightarrow> fcard (finsert h (fmdom m)) = Suc (fcard (fmdom m))"
  by (simp add: fmdom_notI fcard_finsert_disjoint)

lemma fmupd_values:
  "fmlookup m k = None \<Longrightarrow> (\<exists>h. fmlookup (fmupd k t m) h = Some q) \<longleftrightarrow> q = t \<or> (\<exists>h. fmlookup m h = Some q)"
  by (metis fmupd_lookup option.distinct(1) option.inject)

lemma addTx_ok:
  assumes "addTx K C sha256 timeout now chain p t = (r, p')" and "pool_ok sha256 p"
  shows "pool_ok sha256 p'"
  using assms(1)
proof (cases rule: addTx_cases)
  case (added t' n l)
  note ok = pool_okD [OF assms(2)]
  have new: "t' \<notin> set (tp_bySender p s)" for s using ok(4) added(4) by fastforce
  have "tx_Hash sha256 q = h \<and> q \<in> set (tp_bySender p' (tx_From q))" if "fmlookup (tp_txs p') h = Some q" for h q
    using that ok(1,2) [of h q] added by (auto split: if_splits)
  moreover have "tx_From q = s \<and> fmlookup (tp_txs p') (tx_Hash sha256 q) = Some q" if "q \<in> set (tp_bySender p' s)" for q s
    using that ok(3,4) added by (auto split: if_splits)
  moreover have "distinct (map tx_Nonce (tp_bySender p' s))" for s
    using ok(5) [of s] added by auto
  ultimately show ?thesis unfolding pool_ok_def by blast
qed (use assms(2) in simp)

lemma addTx_bounded:
  assumes "addTx K C sha256 timeout now chain p t = (r, p')" and "pool_bounded p"
  shows "pool_bounded p'"
  using assms(1)
proof (cases rule: addTx_cases)
  case (added t' n l)
  then show ?thesis
    using assms(2) by (auto simp: pool_bounded_def pool_size_def fcard_fmdom_upd)
qed (use assms(2) in simp)

lemma addTx_synced:
  assumes "addTx K C sha256 timeout now chain p t = (r, p')" and "pool_ok sha256 p" and "heap_synced p"
  shows "heap_synced p'"
  using assms(1)
proof (cases rule: addTx_cases)
  case (added t' n l)
  have new: "fmlookup (tp_txs p) h \<noteq> Some t'" for h
    using pool_okD(1) [OF assms(2), of h t'] added(4) by auto
  have "t' \<notin> set (tp_pendingHeap p)" using assms(3) new by (auto simp: heap_synced_def)
  then have "distinct (tp_pendingHeap p')"
    using assms(3) added(3) txh.mset_push [of t' "tp_pendingHeap p"]
    by (metis distinct.simps(2) heap_synced_def insert_tx_simps(3) mset.simps(2) mset_eq_imp_distinct_iff)
  moreover have "(q \<in> set (tp_pendingHeap p')) = (\<exists>h. fmlookup (tp_txs p') h = Some q)" for q
    using assms(3) fmupd_values [OF added(4), of t' q] by (simp only: added(3) insert_tx_simps heap_synced_def txh.set_push insert_iff)
  ultimately show ?thesis
    using assms(3) added(3) by (simp add: heap_synced_def txh.inv_push)
qed (use assms(3) in simp)

subsection \<open>Removal\<close>

lemma remove_first_eq: "\<forall>x \<in> set xs. P x \<longleftrightarrow> x = t \<Longrightarrow> remove_first P xs = remove1 t xs"
  by (induction xs) auto

lemma removeLocked_simps:
  assumes "pool_ok sha256 p" and "fmlookup (tp_txs p) h = Some t"
  shows "tp_txs (removeLocked sha256 p h) = fmdrop h (tp_txs p)"
    and "tp_bySender (removeLocked sha256 p h) = (tp_bySender p)(tx_From t := remove1 t (tp_bySender p (tx_From t)))"
    and "tp_pendingHeap (removeLocked sha256 p h) = tp_pendingHeap p"
proof -
  have *: "\<forall>x \<in> set (tp_bySender p (tx_From t)). tx_Hash sha256 x = h \<longleftrightarrow> x = t"
    using pool_okD [OF assms(1)] assms(2) by (metis option.inject)
  show "tp_bySender (removeLocked sha256 p h) = (tp_bySender p)(tx_From t := remove1 t (tp_bySender p (tx_From t)))"
    by (simp add: removeLocked_def assms(2) remove_first_eq [OF *])
qed (simp_all add: removeLocked_def assms(2))

lemma removeLocked_config [simp]:
  "tp_maxPoolSize (removeLocked sha256 p h) = tp_maxPoolSize p"
  "tp_maxTxsPerSender (removeLocked sha256 p h) = tp_maxTxsPerSender p"
  by (simp_all add: removeLocked_def split: option.split)

lemma removeLocked_ok:
  assumes "pool_ok sha256 p"
  shows "pool_ok sha256 (removeLocked sha256 p h)"
proof (cases "fmlookup (tp_txs p) h")
  case None
  then show ?thesis using assms by (simp add: removeLocked_def)
next
  case (Some t)
  note ok = pool_okD [OF assms] and upd = removeLocked_simps [OF assms Some]
  let ?p = "removeLocked sha256 p h"
  have "tx_Hash sha256 q = k \<and> q \<in> set (tp_bySender ?p (tx_From q))" if "fmlookup (tp_txs ?p) k = Some q" for k q
  proof -
    have q: "fmlookup (tp_txs p) k = Some q" "k \<noteq> h" using that by (simp_all add: upd split: if_splits)
    then have "q \<noteq> t" using ok(1) Some by blast
    then show ?thesis using ok(1,2) [OF q(1)] by (auto simp: upd)
  qed
  moreover have "tx_From q = s \<and> fmlookup (tp_txs ?p) (tx_Hash sha256 q) = Some q" if q: "q \<in> set (tp_bySender ?p s)" for q s
  proof -
    have mem: "q \<in> set (tp_bySender p s)"
      using q by (simp add: upd split: if_splits) (metis notin_set_remove1)
    have "q \<noteq> t"
    proof
      assume "q = t"
      then have "t \<in> set (remove1 t (tp_bySender p (tx_From t)))"
        using q ok(3) [OF mem] by (simp add: upd)
      then show False using ok(6) [of "tx_From t"] by simp
    qed
    then have "tx_Hash sha256 q \<noteq> h" using ok(4) [OF mem] Some by (metis option.inject)
    then show ?thesis using ok(3,4) [OF mem] by (simp add: upd)
  qed
  moreover have "distinct (map tx_Nonce (tp_bySender ?p s))" for s
    using ok(5) [of s] by (auto simp: upd distinct_map distinct_remove1 inj_on_def dest: notin_set_remove1)
  ultimately show ?thesis unfolding pool_ok_def by blast
qed

lemma pool_bounded_sub:
  assumes "pool_bounded p" and "fset (fmdom (tp_txs p')) \<subseteq> fset (fmdom (tp_txs p))"
    and "\<And>s. length (tp_bySender p' s) \<le> length (tp_bySender p s)"
    and "tp_maxPoolSize p' = tp_maxPoolSize p" and "tp_maxTxsPerSender p' = tp_maxTxsPerSender p"
  shows "pool_bounded p'"
proof -
  have "fcard (fmdom (tp_txs p')) \<le> fcard (fmdom (tp_txs p))"
    by (rule fcard_mono) (use assms(2) in \<open>simp add: less_eq_fset.rep_eq\<close>)
  moreover have "int (length (tp_bySender p' s)) \<le> tp_maxTxsPerSender p'" for s
    using assms(1,3,5) unfolding pool_bounded_def by (metis dual_order.trans of_nat_le_iff)
  ultimately show ?thesis using assms(1,4) by (simp add: pool_bounded_def pool_size_def)
qed

lemma removeLocked_bounded:
  assumes "pool_ok sha256 p" and "pool_bounded p"
  shows "pool_bounded (removeLocked sha256 p h)"
proof (cases "fmlookup (tp_txs p) h")
  case None
  then show ?thesis using assms by (simp add: removeLocked_def)
next
  case (Some t)
  show ?thesis
    by (rule pool_bounded_sub [OF assms(2)])
      (auto simp: removeLocked_simps [OF assms(1) Some] length_remove1)
qed

subsection \<open>Rebuilding and batches\<close>

text \<open>\<open>order\<close> visits every entry of the table once.\<close>

definition enumerates :: "hash list \<Rightarrow> (hash, tx) fmap \<Rightarrow> bool" where
  "enumerates order m \<longleftrightarrow> distinct order \<and> set order = fset (fmdom m)"

lemma rebuild_simps [simp]:
  "tp_txs (rebuild o1 o2 p) = tp_txs p" "tp_bySender (rebuild o1 o2 p) = tp_bySender p"
  "tp_maxPoolSize (rebuild o1 o2 p) = tp_maxPoolSize p" "tp_maxTxsPerSender (rebuild o1 o2 p) = tp_maxTxsPerSender p"
  "tp_pendingHeap (rebuild o1 o2 p) = tp_pendingHeap (rebuildPendingHeap o2 p)"
  by (simp_all add: rebuild_def rebuildPendingHeap_def rebuildNonceTracker_def)

lemma rebuildPendingHeap_simps [simp]:
  "tp_txs (rebuildPendingHeap o2 p) = tp_txs p" "tp_bySender (rebuildPendingHeap o2 p) = tp_bySender p"
  "tp_maxPoolSize (rebuildPendingHeap o2 p) = tp_maxPoolSize p"
  "tp_maxTxsPerSender (rebuildPendingHeap o2 p) = tp_maxTxsPerSender p"
  by (simp_all add: rebuildPendingHeap_def)

lemma pool_ok_cong:
  "tp_txs p' = tp_txs p \<Longrightarrow> tp_bySender p' = tp_bySender p \<Longrightarrow> pool_ok sha256 p' = pool_ok sha256 p"
  by (simp add: pool_ok_def)

lemma heap_synced_cong:
  "tp_txs p' = tp_txs p \<Longrightarrow> tp_pendingHeap p' = tp_pendingHeap p \<Longrightarrow> heap_synced p' = heap_synced p"
  by (simp add: heap_synced_def)

lemma set_map_filter: "set (List.map_filter f xs) = {y. \<exists>x \<in> set xs. f x = Some y}"
  by (induction xs) (auto simp: List.map_filter_simps split: option.splits)

lemma distinct_map_filter:
  "distinct xs \<Longrightarrow> (\<And>x y z. f x = Some z \<Longrightarrow> f y = Some z \<Longrightarrow> x = y) \<Longrightarrow> distinct (List.map_filter f xs)"
  by (induction xs) (auto simp: List.map_filter_simps set_map_filter split: option.split)

lemma rebuild_synced:
  assumes "pool_ok sha256 p" and "enumerates o2 (tp_txs p)"
  shows "heap_synced (rebuildPendingHeap o2 p)"
proof -
  let ?ts = "List.map_filter (fmlookup (tp_txs p)) o2"
  have "distinct ?ts"
  proof (rule distinct_map_filter)
    show "x = y" if "fmlookup (tp_txs p) x = Some z" "fmlookup (tp_txs p) y = Some z" for x y z
      using pool_okD(1) [OF assms(1)] that by metis
  qed (use assms(2) in \<open>simp add: enumerates_def\<close>)
  then have "distinct (heap_init TxHeap_Less (fold (heap_push TxHeap_Less) ?ts []))"
    using txh.mset_build [of ?ts] by (metis mset_eq_imp_distinct_iff)
  moreover have "t \<in> set ?ts \<longleftrightarrow> (\<exists>h. fmlookup (tp_txs p) h = Some t)" for t
    using assms(2) by (auto simp: set_map_filter enumerates_def fmlookup_dom_iff)
  moreover have "set (heap_init TxHeap_Less (fold (heap_push TxHeap_Less) ?ts [])) = set ?ts"
    by (rule mset_eq_setD) (rule txh.mset_build)
  ultimately show ?thesis
    using txh.inv_build [of ?ts] by (simp add: heap_synced_def rebuildPendingHeap_def)
qed

lemma rebuild_synced': "pool_ok sha256 p \<Longrightarrow> enumerates o2 (tp_txs p) \<Longrightarrow> heap_synced (rebuild o1 o2 p)"
  using rebuild_synced heap_synced_cong [of "rebuild o1 o2 p" "rebuildPendingHeap o2 p"] by simp

lemma fold_removeLocked:
  "pool_ok sha256 p \<Longrightarrow> pool_bounded p \<Longrightarrow>
    pool_ok sha256 (fold (\<lambda>h p. removeLocked sha256 p h) hs p) \<and> pool_bounded (fold (\<lambda>h p. removeLocked sha256 p h) hs p)"
  by (induction hs arbitrary: p) (simp_all add: removeLocked_ok removeLocked_bounded)

text \<open>What an operation on a good pool has to keep.\<close>

definition pool_good :: "(bytes \<Rightarrow> hash) \<Rightarrow> tx_pool \<Rightarrow> bool" where
  "pool_good sha256 p \<longleftrightarrow> pool_ok sha256 p \<and> pool_bounded p \<and> heap_synced p"

lemma rebuild_good:
  assumes "pool_ok sha256 p" and "pool_bounded p" and "enumerates o2 (tp_txs p)"
  shows "pool_good sha256 (rebuild o1 o2 p)"
proof -
  have "pool_bounded (rebuild o1 o2 p)" using assms(2) by (simp add: pool_bounded_def pool_size_def)
  then show ?thesis
    using assms rebuild_synced' pool_ok_cong [of "rebuild o1 o2 p" p] by (simp add: pool_good_def)
qed

lemma fold_rebuild_good:
  assumes "pool_good sha256 p" and "enumerates o2 (tp_txs (fold (\<lambda>h p. removeLocked sha256 p h) hs p))"
  shows "pool_good sha256 (rebuild o1 o2 (fold (\<lambda>h p. removeLocked sha256 p h) hs p))"
proof -
  have "pool_ok sha256 p" "pool_bounded p" using assms(1) by (simp_all add: pool_good_def)
  from fold_removeLocked [OF this, of hs] show ?thesis using rebuild_good assms(2) by blast
qed

lemma remove_all_good:
  assumes "pool_good sha256 p" and "enumerates o2 (tp_txs (remove_all sha256 hs o1 o2 p))"
  shows "pool_good sha256 (remove_all sha256 hs o1 o2 p)"
  using assms fold_rebuild_good by (auto simp: remove_all_def Let_def split: if_splits)

lemma removeTxs_fold:
  "removeTxs sha256 o1 o2 p ts = rebuild o1 o2 (fold (\<lambda>h p. removeLocked sha256 p h) (map (tx_Hash sha256) ts) p)"
proof -
  have "fold (\<lambda>t p. removeLocked sha256 p (tx_Hash sha256 t)) ts p =
      fold (\<lambda>h p. removeLocked sha256 p h) (map (tx_Hash sha256) ts) p"
    by (induction ts arbitrary: p) simp_all
  then show ?thesis by (simp add: removeTxs_def)
qed

lemma removeTxs_good:
  assumes "pool_good sha256 p" and "enumerates o2 (tp_txs (removeTxs sha256 o1 o2 p ts))"
  shows "pool_good sha256 (removeTxs sha256 o1 o2 p ts)"
  using assms fold_rebuild_good by (simp add: removeTxs_fold)

lemma fmlookup_fold_fmdrop: "fmlookup (fold fmdrop hs m) k = (if k \<in> set hs then None else fmlookup m k)"
  by (induction hs arbitrary: m) auto

lemma drop_sender_keeps:
  assumes "pool_ok sha256 p" and "pool_bounded p"
  shows "pool_ok sha256 (drop_sender sha256 s p) \<and> pool_bounded (drop_sender sha256 s p)"
proof -
  note ok = pool_okD [OF assms(1)]
  let ?p = "drop_sender sha256 s p" and ?hs = "map (tx_Hash sha256) (tp_bySender p s)"
  have sel: "tp_txs ?p = fold fmdrop ?hs (tp_txs p)" "tp_bySender ?p = (tp_bySender p)(s := [])"
      "tp_maxPoolSize ?p = tp_maxPoolSize p" "tp_maxTxsPerSender ?p = tp_maxTxsPerSender p"
    by (simp_all add: drop_sender_def Let_def)
  have look: "fmlookup (tp_txs ?p) h = (if h \<in> set ?hs then None else fmlookup (tp_txs p) h)" for h
    by (simp only: sel fmlookup_fold_fmdrop)
  have "tx_Hash sha256 q = h \<and> q \<in> set (tp_bySender ?p (tx_From q))" if "fmlookup (tp_txs ?p) h = Some q" for h q
  proof -
    have q: "fmlookup (tp_txs p) h = Some q" "h \<notin> set ?hs" using that by (simp_all add: look split: if_splits)
    then have "tx_From q \<noteq> s" using ok(1,2) [OF q(1)] by auto
    then show ?thesis using ok(1,2) [OF q(1)] by (simp add: sel)
  qed
  moreover have "tx_From q = r \<and> fmlookup (tp_txs ?p) (tx_Hash sha256 q) = Some q" if q: "q \<in> set (tp_bySender ?p r)" for q r
  proof -
    have mem: "q \<in> set (tp_bySender p r)" "r \<noteq> s" using q by (simp_all add: sel split: if_splits)
    have "tx_Hash sha256 q \<notin> set ?hs"
    proof
      assume "tx_Hash sha256 q \<in> set ?hs"
      then obtain q' where q': "q' \<in> set (tp_bySender p s)" "tx_Hash sha256 q' = tx_Hash sha256 q" by auto
      then have "q' = q" using ok(4) [OF q'(1)] ok(4) [OF mem(1)] by (metis option.inject)
      then show False using ok(3) [OF q'(1)] ok(3) [OF mem(1)] mem(2) by simp
    qed
    then show ?thesis using ok(3,4) [OF mem(1)] by (simp add: look)
  qed
  moreover have "distinct (map tx_Nonce (tp_bySender ?p r))" for r
    using ok(5) [of r] by (simp add: sel)
  ultimately have "pool_ok sha256 ?p" unfolding pool_ok_def by blast
  moreover have "pool_bounded ?p"
    by (rule pool_bounded_sub [OF assms(2)]) (auto simp: sel(2-4) look fmlookup_dom_iff split: if_splits)
  ultimately show ?thesis by blast
qed

lemma gap_loop_keeps:
  "gap_loop K sha256 c senders p = Some p' \<Longrightarrow> pool_ok sha256 p \<Longrightarrow> pool_bounded p \<Longrightarrow>
    pool_ok sha256 p' \<and> pool_bounded p'"
  by (induction senders arbitrary: p) (auto simp: drop_sender_keeps split: list.splits option.splits if_splits)

section \<open>Reachable pools\<close>

text \<open>
  The calls that leave the heap in step with the table; \<open>remove\<close> alone does not, and
  \<open>LoadFromDisk\<close> bypasses the limits.
\<close>

inductive pool_step :: "'d kv_ops \<Rightarrow> crypto \<Rightarrow> (bytes \<Rightarrow> hash) \<Rightarrow> tx_pool \<Rightarrow> tx_pool \<Rightarrow> bool" for K C sha256 where
  add: "addTx K C sha256 timeout now chain p t = (r, p') \<Longrightarrow> pool_step K C sha256 p p'"
| removeTxs: "p' = removeTxs sha256 o1 o2 p ts \<Longrightarrow> enumerates o2 (tp_txs p') \<Longrightarrow> pool_step K C sha256 p p'"
| clear: "pool_step K C sha256 p (clear_pool p)"
| stale: "p' = cleanupStale sha256 ord o1 o2 (c :: 'd pool_chain) now p maxAge \<Longrightarrow> enumerates o2 (tp_txs p') \<Longrightarrow> pool_step K C sha256 p p'"
| invalid: "cleanupInvalid K sha256 ord o1 o2 c now p = Some p' \<Longrightarrow> enumerates o2 (tp_txs p') \<Longrightarrow> pool_step K C sha256 p p'"
| mined: "p' = CleanupMinedTransactions sha256 o1 o2 p ts \<Longrightarrow> enumerates o2 (tp_txs p') \<Longrightarrow> pool_step K C sha256 p p'"
| gaps: "cleanupInvalidNonces K sha256 ss o2 c p = Some p' \<Longrightarrow> enumerates o2 (tp_txs p') \<Longrightarrow> pool_step K C sha256 p p'"

lemma fcard_empty: "fcard {||} = 0"
  by (simp add: fcard.rep_eq)

lemma pool_bounded_limits: "pool_bounded p \<Longrightarrow> 0 \<le> tp_maxPoolSize p \<and> 0 \<le> tp_maxTxsPerSender p"
  unfolding pool_bounded_def pool_size_def by (meson of_nat_0_le_iff order_trans)

lemma pool_step_good: "pool_step K C sha256 p p' \<Longrightarrow> pool_good sha256 p \<Longrightarrow> pool_good sha256 p'"
proof (induction rule: pool_step.induct)
  case (add timeout now chain p t r p')
  then show ?case using addTx_ok addTx_bounded addTx_synced by (auto simp: pool_good_def)
next
  case (removeTxs p' o1 o2 p ts)
  then show ?case using removeTxs_good by simp
next
  case (clear p)
  then have "0 \<le> tp_maxPoolSize p" "0 \<le> tp_maxTxsPerSender p" by (auto simp: pool_good_def dest: pool_bounded_limits)
  then show ?case
    by (simp add: pool_good_def pool_ok_def pool_bounded_def heap_synced_def clear_pool_def pool_size_def fcard_empty)
next
  case (stale p' ord o1 o2 c now p maxAge)
  then show ?case using remove_all_good by (simp add: cleanupStale_def)
next
  case (invalid ord o1 o2 c now p p')
  then show ?case using remove_all_good by (auto simp: cleanupInvalid_def)
next
  case (mined p' o1 o2 p ts)
  then show ?case using remove_all_good by (simp add: CleanupMinedTransactions_def)
next
  case (gaps ss o2 c p p')
  then obtain q where q: "gap_loop K sha256 c ss p = Some q" "p' = rebuildPendingHeap o2 q"
    by (auto simp: cleanupInvalidNonces_def)
  then have "pool_ok sha256 q" "pool_bounded q"
    using gap_loop_keeps [OF q(1)] gaps.prems(1) unfolding pool_good_def by blast+
  moreover have "enumerates o2 (tp_txs q)" using gaps.hyps(2) q(2) by simp
  ultimately show ?case
    using rebuild_synced pool_ok_cong [of p' q] by (simp add: q(2) pool_good_def pool_bounded_def pool_size_def)
qed

lemma pool_steps_good: "(pool_step K C sha256)\<^sup>*\<^sup>* p p' \<Longrightarrow> pool_good sha256 p \<Longrightarrow> pool_good sha256 p'"
  by (induction rule: rtranclp_induct) (blast dest: pool_step_good)+

lemma new_pool_good: "pool_good sha256 NewTxPool"
  by (simp add: pool_good_def pool_ok_def pool_bounded_def heap_synced_def NewTxPool_def pool_size_def fcard_empty)

section \<open>Properties\<close>

text \<open>
  C22: in every pool reached from a fresh one by admissions (\<open>addTx\<close>), batch removals, clearing and
  clean-ups, in any order, no sender has two transactions with one nonce, the pool and the senders stay
  within their limits, the list offered to miners holds exactly the transactions of the pool, each
  once, and begins with one of the highest gas price. The removal of a single transaction, which leaves
  the heap as it was, and \<open>LoadFromDisk\<close>, which checks no limit, are not among these steps.
\<close>

theorem reachable_pool_is_consistent:
  assumes "(pool_step K C sha256)\<^sup>*\<^sup>* NewTxPool p"
  shows "distinct (map tx_Nonce (tp_bySender p s))
    \<and> pool_size p \<le> tp_maxPoolSize p \<and> int (length (tp_bySender p s)) \<le> tp_maxTxsPerSender p
    \<and> distinct (GetPending p)
    \<and> (t \<in> set (GetPending p) \<longleftrightarrow> fmlookup (tp_txs p) (tx_Hash sha256 t) = Some t)
    \<and> (t \<in> set (GetPending p) \<longleftrightarrow> t \<in> set (tp_bySender p (tx_From t)))
    \<and> (t \<in> set (GetPending p) \<longrightarrow> gas_price t \<le> gas_price (hd (GetPending p)))"
proof -
  have good: "pool_ok sha256 p" "pool_bounded p" "heap_synced p"
    using pool_steps_good [OF assms new_pool_good] by (simp_all add: pool_good_def)
  note ok = pool_okD [OF good(1)]
  have "t \<in> set (GetPending p) \<longleftrightarrow> (\<exists>h. fmlookup (tp_txs p) h = Some t)"
    using good(3) by (simp add: heap_synced_def GetPending_def)
  then have "t \<in> set (GetPending p) \<longleftrightarrow> fmlookup (tp_txs p) (tx_Hash sha256 t) = Some t"
    using ok(1) by metis
  moreover from this have "t \<in> set (GetPending p) \<longleftrightarrow> t \<in> set (tp_bySender p (tx_From t))"
    using ok(2,4) by metis
  ultimately show ?thesis
    using good ok(5) [of s] is_heap_hd [of gas_price "GetPending p" t]
    by (simp add: heap_synced_def pool_bounded_def GetPending_def)
qed

text \<open>
  \<open>addTx\<close> admits a transaction only if it is well-formed and signed, its price reaches the
  minimum, its value and gas fit the spendable balance, and its nonce is the next one for its
  sender; the transaction is then in the table, its sender's queue and the pending list, and
  nothing else is. A refusal leaves the pool as it was.
\<close>

theorem admission_rule:
  assumes "addTx K C sha256 timeout now (Some c) p (Some t) = (r, p')"
  shows "(\<exists>e. r = Inl e \<and> p' = p)
    \<or> (r = Inr () \<and> Validate_Tx t = Inr () \<and> Verify_Tx C sha256 t = Inr ()
        \<and> tp_minGasPrice p \<le> gas_price t
        \<and> (\<exists>v height spendable n. tx_Value t = Some v
            \<and> spendableBalanceAtHeight K (pc_state c) (cv_blockAt (pc_view c)) (cv_minConfirmations (pc_view c))
                (tx_From t) height (\<lambda>_. None) = Some spendable
            \<and> v + int (unat (tx_Gas t)) * gas_price t \<le> spendable
            \<and> GetNonce K (pc_state c) (tx_From t) = Some n
            \<and> tx_Nonce t = expectedNonce n (tp_bySender p (tx_From t)))
        \<and> tp_txs p' = fmupd (tx_Hash sha256 t) t (tp_txs p)
        \<and> tp_bySender p' = (tp_bySender p)(tx_From t := tp_bySender p (tx_From t) @ [t])
        \<and> mset (GetPending p') = add_mset t (mset (GetPending p)))"
  using assms
proof (cases rule: addTx_cases)
  case (added t' n l)
  then have t: "t' = t" by simp
  have adm: "admission_checks K C sha256 timeout (Some c) p (Some t) = Inr (t, n, l)" using added(8) t by simp
  then have "Validate_Tx t = Inr ()" "Verify_Tx C sha256 t = Inr ()" "GetNonce K (pc_state c) (tx_From t) = Some n"
      "cost_checks K c p t n l = None"
    by (auto simp: admission_checks_def Let_def split: option.splits sum.splits if_splits)
  moreover from this(4) obtain v spendable where "tx_Value t = Some v"
      "spendableBalanceAtHeight K (pc_state c) (cv_blockAt (pc_view c)) (cv_minConfirmations (pc_view c))
        (tx_From t) l (\<lambda>_. None) = Some spendable"
      "v + int (unat (tx_Gas t)) * gas_price t \<le> spendable" "tp_minGasPrice p \<le> gas_price t"
    by (auto simp: cost_checks_def Let_def gas_price_def split: option.splits if_splits)
  moreover have "mset (GetPending p') = add_mset t (mset (GetPending p))"
    using added(3) t by (simp add: GetPending_def)
  ultimately show ?thesis using added(2,3,9) t by auto
qed auto

text \<open>
  \<open>remove\<close> takes a transaction out of the table and its sender's queue but not out of the
  pending heap: miners are still offered it.
\<close>

theorem removed_transaction_is_still_offered:
  assumes "pool_ok sha256 p" and "heap_synced p" and "fmlookup (tp_txs p) h = Some t"
  shows "fmlookup (tp_txs (remove_tx sha256 p h)) h = None
    \<and> t \<notin> set (tp_bySender (remove_tx sha256 p h) (tx_From t))
    \<and> t \<in> set (GetPending (remove_tx sha256 p h))"
  using assms pool_okD(6) [OF assms(1), of "tx_From t"]
  by (auto simp: remove_tx_def removeLocked_simps [OF assms(1,3)] GetPending_def heap_synced_def)

text \<open>
  For an account with state nonce zero and no transaction in the pool, \<open>GetNextNonce\<close> answers
  one, and a transaction of that account with that nonce is refused whatever else it is.
\<close>

theorem suggested_nonce_is_refused:
  assumes "GetNonce K (pc_state c) (tx_From t) = Some 0" and "tp_bySender p (tx_From t) = []"
    and "tp_nonceTracker p (tx_From t) = 0"
    and "GetNextNonce K (Some c) p (tx_From t) = Some (tx_Nonce t)"
  shows "tx_Nonce t = 1 \<and> (\<exists>e. addTx K C sha256 timeout now (Some c) p (Some t) = (Inl e, p))"
proof -
  have one: "tx_Nonce t = 1" using assms by (simp add: GetNextNonce_def Let_def)
  have "\<exists>e. addTx K C sha256 timeout now (Some c) p (Some t) = (Inl e, p)"
  proof (cases "addTx K C sha256 timeout now (Some c) p (Some t)")
    case (Pair r p')
    then show ?thesis
    proof (cases rule: addTx_cases)
      case (added t' n l)
      then have "n = 0" and "t' = t"
        using assms(1) by (auto simp: admission_checks_def Let_def split: option.splits sum.splits if_splits)
      then show ?thesis using added(9) assms(2) one by (simp add: expectedNonce_def)
    qed (use Pair in auto)
  qed
  with one show ?thesis by simp
qed

text \<open>
  \<open>cleanupInvalid\<close> subtracts the height at which a transaction came in from the current one
  without a comparison: after the chain has shortened by \<open>k\<close> blocks every pending transaction
  from above the new tip is dropped, as long as \<open>2^64 - k\<close> is more than the stale age.
\<close>

theorem rollback_empties_the_pool:
  assumes "cleanupInvalid K sha256 ord o1 o2 c now p = Some p'"
    and "fmlookup (tp_txs p) h = Some t" and "h \<in> set ord" and "tp_submitHeight p h = Some sh"
    and "latest_number c < sh" and "unat (tp_staleBlockAge p) < 2 ^ 64 - (unat sh - unat (latest_number c))"
  shows "fmlookup (tp_txs p') h = None"
proof -
  have lt: "unat (latest_number c) < unat sh" using assms(5) by (simp add: word_less_nat_alt)
  have "unat (latest_number c - sh) = 2 ^ 64 - (unat sh - unat (latest_number c))"
    using lt unsigned_less [of sh] by (simp add: unat_sub_if')
  then have drop: "tp_staleBlockAge p < latest_number c - sh" and "0 < sh"
    using assms(5,6) by (simp_all add: word_less_nat_alt)
  obtain hs where hs: "invalid_hashes K c now p ord = Some hs" "p' = remove_all sha256 hs o1 o2 p"
    using assms(1) by (auto simp: cleanupInvalid_def)
  have "h \<in> set hs"
    using hs(1) assms(3)
  proof (induction ord arbitrary: hs)
    case (Cons k ord)
    then show ?case
      using assms(2,4) drop \<open>0 < sh\<close>
      by (auto simp: is_invalid_def Let_def split: option.splits if_splits)
  qed simp
  moreover have "fmlookup (tp_txs (fold (\<lambda>h p. removeLocked sha256 p h) ks q)) h = None"
    if "h \<in> set ks \<or> fmlookup (tp_txs q) h = None" for ks q
    using that
  proof (induction ks arbitrary: q)
    case (Cons k ks)
    have "fmlookup (tp_txs (removeLocked sha256 q k)) h = (if k = h then None else fmlookup (tp_txs q) h)"
      by (auto simp: removeLocked_def split: option.split)
    then show ?case using Cons by auto
  qed simp
  ultimately show ?thesis
    using assms(2) hs(2) by (auto simp: remove_all_def Let_def filter_empty_conv)
qed

section \<open>Witnesses\<close>

definition pool_state :: "(bytes, bytes) alist" where
  "pool_state = DAList.update (balance_key 0) (big_bytes 1000000000000000000) DAList.empty"

definition pool_demo_chain :: "(bytes, bytes) alist pool_chain" where
  "pool_demo_chain = \<lparr>pc_state = pool_state, pc_latest = Some 7, pc_view = no_chain\<rparr>"

definition pool_demo :: tx_pool where
  "pool_demo = insert_tx 9 50 7 NewTxPool sample_tx"

lemma pool_state_get [simp]:
  "GetBalance map_kv pool_state a = (if a = 0 then 1000000000000000000 else 0)"
  "GetNonce map_kv pool_state a = Some 0"
  by (simp_all add: GetBalance_def GetNonce_def map_kv_def pool_state_def)

lemma sample_tx_fields:
  "tx_From sample_tx = 0" "tx_Nonce sample_tx = 0" "tx_Value sample_tx = Some 515" "tx_Data sample_tx = []"
  "tx_GasPrice sample_tx = Some 1000000000" "tx_Gas sample_tx = 21000"
  by (simp_all add: sample_tx_def)

lemma pool_demo_added:
  "addTx map_kv toy_crypto (\<lambda>_. 9) (\<lambda>_. False) 50 (Some pool_demo_chain) NewTxPool (Some sample_tx) = (Inr (), pool_demo)"
proof -
  have "cost_checks map_kv pool_demo_chain NewTxPool sample_tx 0 7 = None"
    by (simp add: cost_checks_def sample_tx_fields NewTxPool_def pool_demo_chain_def spendableBalanceAtHeight_def
        immatureIncomingBalance_def txMaturityConfirmations_def no_chain_def)
  then have adm: "admission_checks map_kv toy_crypto (\<lambda>_. 9) (\<lambda>_. False) (Some pool_demo_chain) NewTxPool (Some sample_tx)
      = Inr (sample_tx, 0, 7)"
    by (simp add: admission_checks_def sample_tx_ok pool_demo_chain_def latest_number_def Let_def)
  have "locked_checks NewTxPool 9 0 sample_tx = None"
    by (simp add: locked_checks_None NewTxPool_def pool_size_def fcard_empty expectedNonce_def sample_tx_fields)
  then show ?thesis using adm by (simp add: addTx_def tx_Hash_sha pool_demo_def)
qed

lemma pool_demo_reached: "(pool_step map_kv toy_crypto (\<lambda>_. 9))\<^sup>*\<^sup>* NewTxPool pool_demo"
  by (rule r_into_rtranclp) (rule pool_step.add [OF pool_demo_added])

lemma pool_demo_lookup: "fmlookup (tp_txs pool_demo) 9 = Some sample_tx"
  by (simp add: pool_demo_def)

theorem reachable_pool_is_consistent_witness:
  "sample_tx \<in> set (GetPending pool_demo) \<and> pool_size pool_demo \<le> 10000"
  using reachable_pool_is_consistent [OF pool_demo_reached, of 0 sample_tx] pool_demo_lookup
  by (simp add: tx_Hash_sha pool_demo_def NewTxPool_def)

theorem admission_rule_witness:
  "tp_txs pool_demo = fmupd 9 sample_tx fmempty \<and> mset (GetPending pool_demo) = {#sample_tx#}"
  using admission_rule [OF pool_demo_added] by (simp add: tx_Hash_sha NewTxPool_def GetPending_def)

theorem removed_transaction_is_still_offered_witness:
  "sample_tx \<in> set (GetPending (remove_tx (\<lambda>_. 9) pool_demo 9))"
  using removed_transaction_is_still_offered [OF _ _ pool_demo_lookup, of "\<lambda>_. 9"]
    pool_steps_good [OF pool_demo_reached new_pool_good] by (simp add: pool_good_def)

theorem suggested_nonce_is_refused_witness:
  "\<exists>e. addTx map_kv toy_crypto (\<lambda>_. 9) (\<lambda>_. False) 50 (Some pool_demo_chain) NewTxPool (Some (sample_tx\<lparr>tx_Nonce := 1\<rparr>))
      = (Inl e, NewTxPool)"
  using suggested_nonce_is_refused [of map_kv pool_demo_chain "sample_tx\<lparr>tx_Nonce := 1\<rparr>" NewTxPool toy_crypto "\<lambda>_. 9" "\<lambda>_. False" 50]
  by (simp add: pool_demo_chain_def NewTxPool_def GetNextNonce_def Let_def)

theorem rollback_empties_the_pool_witness:
  "\<exists>p'. cleanupInvalid map_kv (\<lambda>_. 9) [9] [] [] (pool_demo_chain\<lparr>pc_latest := Some 6\<rparr>) 60 pool_demo = Some p'
      \<and> fmlookup (tp_txs p') 9 = None"
proof -
  have "\<exists>p'. cleanupInvalid map_kv (\<lambda>_. 9) [9] [] [] (pool_demo_chain\<lparr>pc_latest := Some 6\<rparr>) 60 pool_demo = Some p'"
    by (simp add: cleanupInvalid_def pool_demo_lookup is_invalid_def pool_demo_chain_def Let_def)
  then obtain p' where run: "cleanupInvalid map_kv (\<lambda>_. 9) [9] [] [] (pool_demo_chain\<lparr>pc_latest := Some 6\<rparr>) 60 pool_demo = Some p'" ..
  have "tp_submitHeight pool_demo 9 = Some 7" "latest_number (pool_demo_chain\<lparr>pc_latest := Some 6\<rparr>) = 6"
      "tp_staleBlockAge pool_demo = 1000"
    by (simp_all add: pool_demo_def insert_tx_def latest_number_def NewTxPool_def)
  then show ?thesis
    using run rollback_empties_the_pool [OF run pool_demo_lookup, of 7] by simp
qed

end
