(* ===== verification/Rotating_King.thy ===== *)
theory Rotating_King
  imports Account_State
begin

text \<open>
  The rotation of kings (\<open>antdc/rotatingking/rotatingking.go\<close>, its data in \<open>dbinterface.go\<close>), the
  keys of its database (\<open>antdc/chain/db/rotatingkingdb_impl.go\<close>) and its use for an accepted
  block (\<open>antdc/chain/rotating_king.go\<close>).

  Indexing a slice out of range is \<open>None\<close>, a panic of the code. The manager carries what was last
  written to its database; \<open>written w\<close> says whether the write \<open>w\<close> of a call succeeds. \<open>now\<close> is the
  clock. Broadcasts and log lines have no effect on the manager and are left out.
\<close>

section \<open>Data\<close>

record king_rotation =
  kr_BlockHeight :: u64
  kr_PreviousKing :: address
  kr_NewKing :: address
  kr_Timestamp :: int
  kr_Reward :: int
  kr_WasEligible :: bool
  kr_Reason :: string

record king_config =
  kc_RotationInterval :: u64
  kc_RotationOffset :: u64
  kc_KingAddresses :: "address list"
  kc_ActivationDelay :: u64
  kc_MinStakeRequired :: int

record king_state =
  ks_CurrentKingIndex :: int
  ks_RotationHeight :: u64
  ks_NextRotationAt :: u64
  ks_LastUpdated :: int
  ks_RotationCount :: u64
  ks_KingsHistory :: "king_rotation list"
  ks_TotalRewardsDistributed :: int
  ks_KingRewards :: "address \<Rightarrow> int option"

text \<open>The blockchain provider: height, balances where the state offers them, and the blocks;
  a block is absent, or has no hash method, or has a hash.\<close>

record king_chain =
  kb_height :: u64
  kb_balance :: "(address \<Rightarrow> int) option"
  kb_block :: "u64 \<Rightarrow> hash option option"

record king_sync =
  ky_LastSyncedBlock :: u64
  ky_TotalBlocks :: u64

record king_manager =
  km_config :: king_config
  km_state :: king_state
  km_bc :: "king_chain option"
  km_saved_config :: "king_config option"
  km_saved_state :: "king_state option"
  km_events :: "king_rotation list"
  km_sync_records :: "(u64 \<times> hash) list"
  km_sync :: "king_sync option"

datatype king_write = W_Config | W_State | W_Event | W_Record | W_Sync

datatype king_error =
    No_Kings | Not_Due | Invalid_Index | Invalid_King | Empty_List | Save_Config_Failed
  | Save_State_Failed | No_Provider | No_Balances | Cancelled_Sync | King_Panic | Sync_Diverges

definition EligibilityThreshold :: int where
  "EligibilityThreshold = 100000 * 1000000000000000000"

definition DefaultRotatingKingConfig :: king_config where
  "DefaultRotatingKingConfig =
     \<lparr>kc_RotationInterval = 100, kc_RotationOffset = 0, kc_KingAddresses = [], kc_ActivationDelay = 2,
      kc_MinStakeRequired = EligibilityThreshold\<rparr>"

section \<open>Persistence\<close>

definition saveState :: "(king_write \<Rightarrow> bool) \<Rightarrow> king_manager \<Rightarrow> bool \<times> king_manager" where
  "saveState written m =
     (if written W_State then (True, m\<lparr>km_saved_state := Some (km_state m)\<rparr>) else (False, m))"

definition saveConfig :: "(king_write \<Rightarrow> bool) \<Rightarrow> king_manager \<Rightarrow> bool \<times> king_manager" where
  "saveConfig written m =
     (if written W_Config then (True, m\<lparr>km_saved_config := Some (km_config m)\<rparr>) else (False, m))"

definition saveEvent :: "(king_write \<Rightarrow> bool) \<Rightarrow> king_rotation \<Rightarrow> king_manager \<Rightarrow> king_manager" where
  "saveEvent written r m = (if written W_Event then m\<lparr>km_events := km_events m @ [r]\<rparr> else m)"

definition saveRecord :: "(king_write \<Rightarrow> bool) \<Rightarrow> u64 \<Rightarrow> hash \<Rightarrow> king_manager \<Rightarrow> king_manager" where
  "saveRecord written height h m =
     (if written W_Record then m\<lparr>km_sync_records := km_sync_records m @ [(height, h)]\<rparr> else m)"

text \<open>\<open>stored\<close> is what the database holds; a read error counts as nothing stored.\<close>

definition NewRotatingKingManager ::
    "(king_write \<Rightarrow> bool) \<Rightarrow> int \<Rightarrow> king_chain option \<Rightarrow> king_config option \<Rightarrow> king_state option \<Rightarrow> king_manager" where
  "NewRotatingKingManager written now bc storedConfig storedState =
     (let config = (case storedConfig of None \<Rightarrow> DefaultRotatingKingConfig | Some c \<Rightarrow> c);
          state = (case storedState of
             None \<Rightarrow> \<lparr>ks_CurrentKingIndex = 0, ks_RotationHeight = 0,
                      ks_NextRotationAt = kc_RotationInterval DefaultRotatingKingConfig, ks_LastUpdated = now,
                      ks_RotationCount = 0, ks_KingsHistory = [], ks_TotalRewardsDistributed = 0,
                      ks_KingRewards = \<lambda>_. None\<rparr>
           | Some s \<Rightarrow> s);
          m = \<lparr>km_config = config, km_state = state, km_bc = bc, km_saved_config = storedConfig,
               km_saved_state = storedState, km_events = [], km_sync_records = [], km_sync = None\<rparr>
      in snd (saveConfig written (snd (saveState written m))))"

section \<open>Queries\<close>

definition king_at :: "king_manager \<Rightarrow> int \<Rightarrow> address option" where
  "king_at m i =
     (if 0 \<le> i \<and> i < int (length (kc_KingAddresses (km_config m)))
      then Some (kc_KingAddresses (km_config m) ! nat i) else None)"

definition nextIndex :: "king_manager \<Rightarrow> int" where
  "nextIndex m = (ks_CurrentKingIndex (km_state m) + 1) mod int (length (kc_KingAddresses (km_config m)))"

definition GetCurrentKing :: "king_manager \<Rightarrow> address option" where
  "GetCurrentKing m =
     (if kc_KingAddresses (km_config m) = [] then Some zero_address
      else king_at m (ks_CurrentKingIndex (km_state m)))"

definition GetNextKing :: "king_manager \<Rightarrow> address option" where
  "GetNextKing m =
     (if kc_KingAddresses (km_config m) = [] then Some zero_address else king_at m (nextIndex m))"

definition ShouldRotate :: "king_manager \<Rightarrow> u64 \<Rightarrow> bool" where
  "ShouldRotate m blockHeight \<longleftrightarrow> blockHeight \<ge> ks_NextRotationAt (km_state m)"

definition IsCurrentKing :: "king_manager \<Rightarrow> address \<Rightarrow> bool option" where
  "IsCurrentKing m addr =
     (if kc_KingAddresses (km_config m) = [] then Some False
      else map_option (\<lambda>k. k = addr) (king_at m (ks_CurrentKingIndex (km_state m))))"

definition IsKing :: "king_manager \<Rightarrow> address \<Rightarrow> bool" where
  "IsKing m addr \<longleftrightarrow> addr \<in> set (kc_KingAddresses (km_config m))"

definition GetKingRewards :: "king_manager \<Rightarrow> address \<Rightarrow> int" where
  "GetKingRewards m king = (case ks_KingRewards (km_state m) king of None \<Rightarrow> 0 | Some r \<Rightarrow> r)"

definition GetRotationHistory :: "king_manager \<Rightarrow> nat \<Rightarrow> king_rotation list" where
  "GetRotationHistory m limit =
     (let h = ks_KingsHistory (km_state m)
      in if length h > limit then drop (length h - limit) h else h)"

definition IsEligible :: "king_manager \<Rightarrow> bool option" where
  "IsEligible m =
     (case GetCurrentKing m of
        None \<Rightarrow> None
      | Some king \<Rightarrow>
          if king = zero_address then Some False
          else (case km_bc m of
             None \<Rightarrow> Some False
           | Some bc \<Rightarrow>
               (case kb_balance bc of
                  None \<Rightarrow> Some False
                | Some balance \<Rightarrow> Some (balance king \<ge> EligibilityThreshold))))"

text \<open>Whether a rotation is recorded as one to an eligible king.\<close>

definition eligible_king :: "king_manager \<Rightarrow> address \<Rightarrow> bool" where
  "eligible_king m king =
     (case km_bc m of
        None \<Rightarrow> False
      | Some bc \<Rightarrow>
          (case kb_balance bc of None \<Rightarrow> False | Some balance \<Rightarrow> balance king \<ge> kc_MinStakeRequired (km_config m)))"

section \<open>Rewards\<close>

text \<open>The last entry for the king that has no reward yet gets it.\<close>

fun mark_first :: "address \<Rightarrow> int \<Rightarrow> king_rotation list \<Rightarrow> king_rotation list" where
  "mark_first king reward [] = []"
| "mark_first king reward (e # es) =
     (if kr_NewKing e = king \<and> kr_Reward e = 0 then e\<lparr>kr_Reward := reward, kr_WasEligible := True\<rparr> # es
      else e # mark_first king reward es)"

definition mark_last :: "address \<Rightarrow> int \<Rightarrow> king_rotation list \<Rightarrow> king_rotation list" where
  "mark_last king reward h = rev (mark_first king reward (rev h))"

definition RecordRewardDistribution ::
    "(king_write \<Rightarrow> bool) \<Rightarrow> king_manager \<Rightarrow> address \<Rightarrow> int option \<Rightarrow> king_manager" where
  "RecordRewardDistribution written m king reward =
     (let r = (case reward of None \<Rightarrow> 0 | Some r \<Rightarrow> r); s = km_state m;
          s' = s\<lparr>ks_TotalRewardsDistributed := ks_TotalRewardsDistributed s + r,
                 ks_KingRewards := (ks_KingRewards s)(king \<mapsto> GetKingRewards m king + r),
                 ks_KingsHistory := mark_last king r (ks_KingsHistory s)\<rparr>
      in snd (saveState written (m\<lparr>km_state := s'\<rparr>)))"

section \<open>Rotation\<close>

definition push_history :: "king_rotation \<Rightarrow> king_rotation list \<Rightarrow> king_rotation list" where
  "push_history r h = (if length (h @ [r]) > 100 then tl (h @ [r]) else h @ [r])"

text \<open>The new state of a rotation to index \<open>i\<close> at \<open>height\<close>.\<close>

definition rotated :: "int \<Rightarrow> u64 \<Rightarrow> int \<Rightarrow> king_rotation \<Rightarrow> king_manager \<Rightarrow> king_manager" where
  "rotated i height now r m =
     (let s = km_state m
      in m\<lparr>km_state := s\<lparr>ks_KingsHistory := push_history r (ks_KingsHistory s), ks_CurrentKingIndex := i,
             ks_RotationHeight := height, ks_NextRotationAt := height + kc_RotationInterval (km_config m),
             ks_RotationCount := ks_RotationCount s + 1, ks_LastUpdated := now\<rparr>\<rparr>)"

text \<open>The search for an eligible successor. \<open>RotateToNextKing\<close> makes it and does not use what it finds.\<close>

definition eligible_search :: "king_manager \<Rightarrow> int option" where
  "eligible_search m =
     (case km_bc m of
        None \<Rightarrow> None
      | Some bc \<Rightarrow>
          (case kb_balance bc of
             None \<Rightarrow> None
           | Some balance \<Rightarrow>
               let n = length (kc_KingAddresses (km_config m)); i = ks_CurrentKingIndex (km_state m);
                   ok = (\<lambda>j. case king_at m j of None \<Rightarrow> False | Some k \<Rightarrow> balance k \<ge> kc_MinStakeRequired (km_config m))
               in if ok ((i + 1) mod int n) then Some ((i + 1) mod int n)
                  else find ok (map (\<lambda>k. (i + int k) mod int n) [1..<n])))"

text \<open>The steps that both rotations share, up to saving the state.\<close>

definition make_rotation :: "int \<Rightarrow> king_manager \<Rightarrow> u64 \<Rightarrow> int \<Rightarrow> string \<Rightarrow> king_rotation option" where
  "make_rotation now m height i reason =
     (case (king_at m (ks_CurrentKingIndex (km_state m)), king_at m i) of
        (Some previousKing, Some newKing) \<Rightarrow>
          Some \<lparr>kr_BlockHeight = height, kr_PreviousKing = previousKing, kr_NewKing = newKing, kr_Timestamp = now,
                kr_Reward = 0, kr_WasEligible = eligible_king m newKing, kr_Reason = reason\<rparr>
      | _ \<Rightarrow> None)"

definition RotateToNextKing ::
    "(king_write \<Rightarrow> bool) \<Rightarrow> int \<Rightarrow> king_manager \<Rightarrow> u64 \<Rightarrow> hash \<Rightarrow> (king_error + unit) \<times> king_manager" where
  "RotateToNextKing written now m blockHeight blockHash =
     (if kc_KingAddresses (km_config m) = [] then (Inl No_Kings, m)
      else if blockHeight < ks_NextRotationAt (km_state m) then (Inl Not_Due, m)
      else
        let found = eligible_search m; i = nextIndex m
        in case make_rotation now m blockHeight i '''' of
             None \<Rightarrow> (Inl King_Panic, m)
           | Some r \<Rightarrow>
               let m1 = saveEvent written r (rotated i blockHeight now r m)
               in case saveState written m1 of
                    (False, m2) \<Rightarrow> (Inl Save_State_Failed, m2)
                  | (True, m2) \<Rightarrow> (Inr (), saveRecord written blockHeight blockHash m2))"

definition rotateToNextKingInternal ::
    "(king_write \<Rightarrow> bool) \<Rightarrow> int \<Rightarrow> king_manager \<Rightarrow> u64 \<Rightarrow> hash \<Rightarrow> (king_error + unit) \<times> king_manager" where
  "rotateToNextKingInternal written now m blockHeight blockHash =
     (if kc_KingAddresses (km_config m) = [] then (Inl No_Kings, m)
      else case make_rotation now m blockHeight (nextIndex m) '''' of
        None \<Rightarrow> (Inl King_Panic, m)
      | Some r \<Rightarrow>
          let m1 = rotated (nextIndex m) blockHeight now r (saveEvent written r m)
          in case saveState written m1 of
               (False, m2) \<Rightarrow> (Inl Save_State_Failed, m2)
             | (True, m2) \<Rightarrow> (Inr (), saveRecord written blockHeight blockHash m2))"

definition ForceRotate ::
    "(king_write \<Rightarrow> bool) \<Rightarrow> int \<Rightarrow> king_manager \<Rightarrow> int \<Rightarrow> string \<Rightarrow> (king_error + unit) \<times> king_manager" where
  "ForceRotate written now m index reason =
     (if kc_KingAddresses (km_config m) = [] then (Inl No_Kings, m)
      else if index < 0 \<or> index \<ge> int (length (kc_KingAddresses (km_config m))) then (Inl Invalid_Index, m)
      else
        let currentHeight = (case km_bc m of None \<Rightarrow> 0 | Some bc \<Rightarrow> kb_height bc)
        in case make_rotation now m currentHeight index reason of
             None \<Rightarrow> (Inl King_Panic, m)
           | Some r \<Rightarrow>
               (case saveState written (saveEvent written r (rotated index currentHeight now r m)) of
                  (False, m2) \<Rightarrow> (Inl Save_State_Failed, m2)
                | (True, m2) \<Rightarrow> (Inr (), m2)))"

fun index_of :: "'a \<Rightarrow> 'a list \<Rightarrow> nat option" where
  "index_of x [] = None"
| "index_of x (y # ys) = (if y = x then Some 0 else map_option Suc (index_of x ys))"

definition ForceRotateToAddress ::
    "(king_write \<Rightarrow> bool) \<Rightarrow> int \<Rightarrow> king_manager \<Rightarrow> address \<Rightarrow> (king_error + unit) \<times> king_manager" where
  "ForceRotateToAddress written now m newKing =
     (case index_of newKing (kc_KingAddresses (km_config m)) of
        None \<Rightarrow> (Inl Invalid_King, m)
      | Some index \<Rightarrow>
          (case km_bc m of
             None \<Rightarrow> (Inl King_Panic, m)
           | Some bc \<Rightarrow>
               let s = km_state m;
                   m1 = m\<lparr>km_state := s\<lparr>ks_CurrentKingIndex := int index, ks_RotationHeight := kb_height bc,
                          ks_NextRotationAt := kb_height bc + kc_RotationInterval (km_config m),
                          ks_RotationCount := ks_RotationCount s + 1, ks_LastUpdated := now\<rparr>\<rparr>
               in case saveState written m1 of
                    (False, m2) \<Rightarrow> (Inl Save_State_Failed, m2)
                  | (True, m2) \<Rightarrow> (Inr (), m2)))"

section \<open>The list of kings\<close>

definition clamp_index :: "king_manager \<Rightarrow> king_manager" where
  "clamp_index m =
     (if ks_CurrentKingIndex (km_state m) \<ge> int (length (kc_KingAddresses (km_config m)))
      then m\<lparr>km_state := (km_state m)\<lparr>ks_CurrentKingIndex := 0\<rparr>\<rparr> else m)"

definition set_kings :: "address list \<Rightarrow> king_manager \<Rightarrow> king_manager" where
  "set_kings addrs m = m\<lparr>km_config := (km_config m)\<lparr>kc_KingAddresses := addrs\<rparr>\<rparr>"

definition SaveKingListToDB ::
    "(king_write \<Rightarrow> bool) \<Rightarrow> king_manager \<Rightarrow> address list \<Rightarrow> (king_error + unit) \<times> king_manager" where
  "SaveKingListToDB written m addresses =
     (case saveConfig written (set_kings addresses m) of
        (False, m1) \<Rightarrow> (Inl Save_Config_Failed, m1)
      | (True, m1) \<Rightarrow>
          (case saveState written (clamp_index m1) of
             (False, m2) \<Rightarrow> (Inl Save_State_Failed, m2)
           | (True, m2) \<Rightarrow> (Inr (), m2)))"

text \<open>\<open>broadcaster\<close>: with one, the chain height is read, which needs a provider.\<close>

definition UpdateKingAddresses ::
    "(king_write \<Rightarrow> bool) \<Rightarrow> bool \<Rightarrow> king_manager \<Rightarrow> address list \<Rightarrow> (king_error + unit) \<times> king_manager" where
  "UpdateKingAddresses written broadcaster m newAddresses =
     (if newAddresses = [] then (Inl Empty_List, m)
      else case saveConfig written (set_kings newAddresses m) of
        (False, m1) \<Rightarrow> (Inl Save_Config_Failed, m1)
      | (True, m1) \<Rightarrow>
          if broadcaster \<and> km_bc m = None then (Inl King_Panic, m1)
          else (case saveState written (clamp_index m1) of
             (False, m2) \<Rightarrow> (Inl Save_State_Failed, m2)
           | (True, m2) \<Rightarrow> (Inr (), m2)))"

definition CleanupIneligibleKings ::
    "(king_write \<Rightarrow> bool) \<Rightarrow> king_manager \<Rightarrow> (king_error + address list) \<times> king_manager" where
  "CleanupIneligibleKings written m =
     (case km_bc m of
        None \<Rightarrow> (Inl No_Provider, m)
      | Some bc \<Rightarrow>
          (case kb_balance bc of
             None \<Rightarrow> (Inl No_Balances, m)
           | Some balance \<Rightarrow>
               let kings = kc_KingAddresses (km_config m);
                   keep = (\<lambda>a. balance a \<ge> kc_MinStakeRequired (km_config m));
                   removed = filter (\<lambda>a. \<not> keep a) kings
               in if removed = [] then (Inr [], m)
                  else
                    let m1 = set_kings (filter keep kings) m;
                        m2 = (if filter keep kings \<noteq> [] then clamp_index m1
                              else (let m0 = set_kings (kc_KingAddresses DefaultRotatingKingConfig) m
                                    in m0\<lparr>km_state := (km_state m0)\<lparr>ks_CurrentKingIndex := 0\<rparr>\<rparr>))
                    in case saveConfig written m2 of
                         (False, m3) \<Rightarrow> (Inl Save_Config_Failed, m3)
                       | (True, m3) \<Rightarrow>
                           (case saveState written m3 of
                              (False, m4) \<Rightarrow> (Inl Save_State_Failed, m4)
                            | (True, m4) \<Rightarrow> (Inr removed, m4))))"

section \<open>Catching up with the chain\<close>

text \<open>
  The heights from \<open>height\<close> to \<open>targetHeight\<close>, at most \<open>2^64 - 1\<close> of them; \<open>cancelled h\<close> is what the
  context says at height \<open>h\<close>. With the largest \<open>uint64\<close> as target the counter of the code wraps
  around and only the context ends the loop; this is \<open>Sync_Diverges\<close>.
\<close>

lemma unat_next: "height \<le> target \<Longrightarrow> target \<noteq> - 1 \<Longrightarrow> unat (height + 1) = Suc (unat (height :: u64))"
proof -
  assume le: "height \<le> target" and "target \<noteq> - 1"
  then have "unat target \<noteq> unat (- 1 :: u64)" by (metis word_unat_eq_iff)
  moreover have "unat (- 1 :: u64) = 2 ^ 64 - 1" by (simp add: unsigned_minus_1_eq_mask mask_eq_exp_minus_1)
  moreover have "unat target < 2 ^ 64" by (rule order_less_le_trans [OF unsigned_less]) simp
  ultimately have "unat target < 2 ^ 64 - 1" by linarith
  then show ?thesis using le by (simp add: word_le_nat_alt unat_word_ariths)
qed

function sync_loop ::
    "(king_write \<Rightarrow> bool) \<Rightarrow> int \<Rightarrow> (u64 \<Rightarrow> bool) \<Rightarrow> king_chain \<Rightarrow> u64 \<Rightarrow> u64 \<Rightarrow> king_manager
     \<Rightarrow> (king_error + unit) \<times> king_manager" where
  "sync_loop written now cancelled bc targetHeight height m =
     (if height > targetHeight then (Inr (), m)
      else if cancelled height then (Inl Cancelled_Sync, m)
      else if targetHeight = - 1 then (Inl Sync_Diverges, m)
      else if height \<ge> ks_NextRotationAt (km_state m) then
        (case kb_block bc height of
           None \<Rightarrow> sync_loop written now cancelled bc targetHeight (height + 1) m
         | Some None \<Rightarrow> sync_loop written now cancelled bc targetHeight (height + 1) m
         | Some (Some blockHash) \<Rightarrow>
             sync_loop written now cancelled bc targetHeight (height + 1)
               (snd (rotateToNextKingInternal written now m height blockHash)))
      else sync_loop written now cancelled bc targetHeight (height + 1) m)"
  by pat_completeness auto
termination
  by (relation "measure (\<lambda>(w, now, c, bc, t, h, m). unat t + 1 - unat h)")
    (auto simp: not_less unat_next word_le_nat_alt)

declare sync_loop.simps [simp del]

definition syncRotationsToHeight ::
    "(king_write \<Rightarrow> bool) \<Rightarrow> int \<Rightarrow> (u64 \<Rightarrow> bool) \<Rightarrow> king_manager \<Rightarrow> u64 \<Rightarrow> (king_error + unit) \<times> king_manager" where
  "syncRotationsToHeight written now cancelled m targetHeight =
     (case km_bc m of
        None \<Rightarrow> (Inl King_Panic, m)
      | Some bc \<Rightarrow>
          let target = (if targetHeight > kb_height bc then kb_height bc else targetHeight);
              start = (if ks_RotationHeight (km_state m) = 0 then 1 else ks_RotationHeight (km_state m))
          in sync_loop written now cancelled bc target start m)"

definition SyncBlocks ::
    "(king_write \<Rightarrow> bool) \<Rightarrow> int \<Rightarrow> (u64 \<Rightarrow> bool) \<Rightarrow> king_manager \<Rightarrow> u64 \<Rightarrow> (king_error + unit) \<times> king_manager" where
  "SyncBlocks written now cancelled m targetHeight =
     (case syncRotationsToHeight written now cancelled m targetHeight of
        (Inl e, m1) \<Rightarrow> (Inl e, m1)
      | (Inr _, m1) \<Rightarrow>
          (Inr (), if written W_Sync
                   then m1\<lparr>km_sync := Some \<lparr>ky_LastSyncedBlock = targetHeight, ky_TotalBlocks = targetHeight\<rparr>\<rparr> else m1))"

section \<open>Accepted blocks (rotating\_king.go)\<close>

record king_distribution =
  kd_RotatingKingAddress :: address
  kd_RotatingKingReward :: int
  kd_RotatingKingEligible :: bool

text \<open>The priority miner handed to the proof-of-work engine is returned with the manager.\<close>

definition processRotatingKingForBlock ::
    "(king_write \<Rightarrow> bool) \<Rightarrow> int \<Rightarrow> king_manager \<Rightarrow> u64 \<Rightarrow> hash \<Rightarrow> king_distribution
     \<Rightarrow> (king_error + address) \<times> king_manager" where
  "processRotatingKingForBlock written now m blockHeight blockHash d =
     (case GetCurrentKing m of
        None \<Rightarrow> (Inl King_Panic, m)
      | Some currentKing \<Rightarrow>
          (case (if kd_RotatingKingAddress d \<noteq> zero_address \<and> kd_RotatingKingAddress d \<noteq> currentKing
                 then ForceRotateToAddress written now m (kd_RotatingKingAddress d) else (Inr (), m)) of
             (Inl e, m1) \<Rightarrow> (Inl e, m1)
           | (Inr _, m1) \<Rightarrow>
               let m2 = (if kd_RotatingKingEligible d \<and> kd_RotatingKingReward d > 0
                         then RecordRewardDistribution written m1 (kd_RotatingKingAddress d) (Some (kd_RotatingKingReward d))
                         else m1)
               in (case (if ShouldRotate m2 blockHeight then RotateToNextKing written now m2 blockHeight blockHash
                         else (Inr (), m2)) of
                     (Inl e, m3) \<Rightarrow> (Inl e, m3)
                   | (Inr _, m3) \<Rightarrow>
                       (case GetCurrentKing m3 of None \<Rightarrow> (Inl King_Panic, m3) | Some k \<Rightarrow> (Inr k, m3)))))"

section \<open>Keys of the database (rotatingkingdb\_impl.go)\<close>

definition rotationEventPrefix :: bytes where "rotationEventPrefix = str_bytes ''rk_event:''"

definition blockSyncRecordPrefix :: bytes where "blockSyncRecordPrefix = str_bytes ''rk_sync:''"

definition rotationEventKey :: "u64 \<Rightarrow> address \<Rightarrow> bytes" where
  "rotationEventKey height addr = rotationEventPrefix @ word_bytes 8 height @ str_bytes '':'' @ Address_Bytes addr"

definition blockSyncRecordKey :: "u64 \<Rightarrow> bytes" where
  "blockSyncRecordKey height = blockSyncRecordPrefix @ word_bytes 8 height"

text \<open>The height in a key with the given prefix.\<close>

definition key_height :: "bytes \<Rightarrow> bytes \<Rightarrow> u64 option" where
  "key_height prefix key =
     (if take (length prefix) key \<noteq> prefix \<or> length key < length prefix + 8 then None
      else Some (bytes_word (take 8 (drop (length prefix) key))))"

text \<open>\<open>entries\<close> is the store in key order from the prefix on; \<open>decode\<close> is \<open>json.Unmarshal\<close>.\<close>

definition GetRotationEvents ::
    "(bytes \<Rightarrow> king_rotation option) \<Rightarrow> (bytes \<times> bytes) list \<Rightarrow> u64 \<Rightarrow> u64 \<Rightarrow> king_rotation list" where
  "GetRotationEvents decode entries fromBlock toBlock =
     List.map_filter (\<lambda>(k, v). case key_height rotationEventPrefix k of
         None \<Rightarrow> None
       | Some height \<Rightarrow> if height \<ge> fromBlock \<and> height \<le> toBlock then decode v else None) entries"

definition GetLastBlockSyncRecord ::
    "(bytes \<Rightarrow> 'r option) \<Rightarrow> (bytes \<times> bytes) list \<Rightarrow> 'r option" where
  "GetLastBlockSyncRecord decode entries =
     fst (foldl (\<lambda>(last, maxHeight) (k, v). case key_height blockSyncRecordPrefix k of
         None \<Rightarrow> (last, maxHeight)
       | Some height \<Rightarrow>
           if height > maxHeight then (case decode v of None \<Rightarrow> (last, maxHeight) | Some r \<Rightarrow> (Some r, height))
           else (last, maxHeight)) (None, 0) entries)"

section \<open>What the operations keep\<close>

definition king_ok :: "king_manager \<Rightarrow> bool" where
  "king_ok m \<longleftrightarrow>
     (let i = ks_CurrentKingIndex (km_state m); n = int (length (kc_KingAddresses (km_config m)))
      in 0 \<le> i \<and> (i < n \<or> n = 0 \<and> i = 0))
     \<and> length (ks_KingsHistory (km_state m)) \<le> 100
     \<and> ks_TotalRewardsDistributed (km_state m) = ledger_total (GetKingRewards m)"

lemma save_simps [simp]:
  "km_state (snd (saveState w m)) = km_state m" "km_config (snd (saveState w m)) = km_config m"
  "km_state (snd (saveConfig w m)) = km_state m" "km_config (snd (saveConfig w m)) = km_config m"
  "km_state (saveEvent w r m) = km_state m" "km_config (saveEvent w r m) = km_config m"
  "km_state (saveRecord w h x m) = km_state m" "km_config (saveRecord w h x m) = km_config m"
  "km_bc (snd (saveState w m)) = km_bc m" "km_bc (saveEvent w r m) = km_bc m" "km_bc (saveRecord w h x m) = km_bc m"
  "km_saved_state (saveRecord w h x m) = km_saved_state m"
  by (simp_all add: saveState_def saveConfig_def saveEvent_def saveRecord_def)

lemma king_ok_cong:
  "km_state m' = km_state m \<Longrightarrow> km_config m' = km_config m \<Longrightarrow> king_ok m' = king_ok m"
  by (simp add: king_ok_def GetKingRewards_def [abs_def])

lemma length_push_history: "length h \<le> 100 \<Longrightarrow> length (push_history r h) \<le> 100"
  by (auto simp: push_history_def)

lemma length_mark_first [simp]: "length (mark_first k r h) = length h"
  by (induction h) auto

lemma length_mark_last [simp]: "length (mark_last k r h) = length h"
  by (simp add: mark_last_def)

lemma saveState_cases:
  "saveState w m = (b, m') \<Longrightarrow> km_state m' = km_state m \<and> km_config m' = km_config m \<and> km_bc m' = km_bc m
     \<and> (b \<longrightarrow> km_saved_state m' = Some (km_state m)) \<and> b = w W_State"
  by (auto simp: saveState_def split: if_splits)

lemma saveConfig_cases:
  "saveConfig w m = (b, m') \<Longrightarrow> km_state m' = km_state m \<and> km_config m' = km_config m \<and> km_bc m' = km_bc m
     \<and> b = w W_Config"
  by (auto simp: saveConfig_def split: if_splits)

lemma rotated_simps [simp]:
  "km_config (rotated i h now r m) = km_config m" "km_bc (rotated i h now r m) = km_bc m"
  "ks_CurrentKingIndex (km_state (rotated i h now r m)) = i"
  "ks_NextRotationAt (km_state (rotated i h now r m)) = h + kc_RotationInterval (km_config m)"
  "ks_RotationHeight (km_state (rotated i h now r m)) = h"
  by (simp_all add: rotated_def Let_def)

lemma rotated_ok:
  assumes "king_ok m" and "0 \<le> i" and "i < int (length (kc_KingAddresses (km_config m)))"
  shows "king_ok (rotated i h now r m)"
  using assms length_push_history
  by (simp add: king_ok_def rotated_def Let_def GetKingRewards_def [abs_def])

text \<open>The effect of a rotation, whichever routine makes it; the state changes before it is saved.\<close>

definition rotates_to :: "int \<Rightarrow> king_manager \<Rightarrow> king_manager \<Rightarrow> bool" where
  "rotates_to i m m' \<longleftrightarrow> (\<exists>h now r. km_state m' = km_state (rotated i h now r m)) \<and> km_config m' = km_config m \<and> km_bc m' = km_bc m"

lemma rotates_to_ok:
  assumes "rotates_to i m m'" and "king_ok m" and "0 \<le> i" and "i < int (length (kc_KingAddresses (km_config m)))"
  shows "king_ok m'"
proof -
  obtain h now r where "km_state m' = km_state (rotated i h now r m)" "km_config m' = km_config m"
    using assms(1) by (auto simp: rotates_to_def)
  then show ?thesis using rotated_ok [OF assms(2-4)] king_ok_cong [of m' "rotated i h now r m"] by simp
qed

lemma nextIndex_range: "kc_KingAddresses (km_config m) \<noteq> [] \<Longrightarrow>
    0 \<le> nextIndex m \<and> nextIndex m < int (length (kc_KingAddresses (km_config m)))"
  by (simp add: nextIndex_def)

lemma make_rotation_some:
  assumes "king_ok m" and "kc_KingAddresses (km_config m) \<noteq> []" and "0 \<le> i"
    and "i < int (length (kc_KingAddresses (km_config m)))"
  shows "\<exists>r. make_rotation now m h i reason = Some r"
  using assms by (auto simp: make_rotation_def king_ok_def king_at_def Let_def)

lemma RotateToNextKing_cases:
  assumes "RotateToNextKing w now m h hash = (r, m')" and "king_ok m"
  obtains (refused) "m' = m" "r = Inl No_Kings \<or> r = Inl Not_Due"
      "kc_KingAddresses (km_config m) = [] \<or> \<not> ShouldRotate m h"
  | (rotated) rr where "kc_KingAddresses (km_config m) \<noteq> []" "ShouldRotate m h"
      "make_rotation now m h (nextIndex m) '''' = Some rr"
      "km_state m' = km_state (rotated (nextIndex m) h now rr m)" "km_config m' = km_config m" "km_bc m' = km_bc m"
      "r = (if w W_State then Inr () else Inl Save_State_Failed)" "w W_State \<longrightarrow> km_saved_state m' = Some (km_state m')"
proof (cases "kc_KingAddresses (km_config m) = [] \<or> \<not> ShouldRotate m h")
  case True
  then show ?thesis using assms refused by (auto simp: RotateToNextKing_def ShouldRotate_def split: if_splits)
next
  case False
  then obtain rr where rr: "make_rotation now m h (nextIndex m) '''' = Some rr"
    using make_rotation_some [OF assms(2)] nextIndex_range by blast
  show ?thesis
    using assms(1) False rr rotated
    by (auto simp: RotateToNextKing_def ShouldRotate_def saveState_def Let_def split: if_splits)
qed

lemma rotateInternal_cases:
  assumes "rotateToNextKingInternal w now m h hash = (r, m')" and "king_ok m"
    and "kc_KingAddresses (km_config m) \<noteq> []"
  obtains rr where "km_state m' = km_state (rotated (nextIndex m) h now rr m)" "km_config m' = km_config m"
    "km_bc m' = km_bc m"
proof -
  obtain rr where rr: "make_rotation now m h (nextIndex m) '''' = Some rr"
    using make_rotation_some [OF assms(2,3)] nextIndex_range [OF assms(3)] by blast
  have "km_state (rotated (nextIndex m) h now rr (saveEvent w rr m)) = km_state (rotated (nextIndex m) h now rr m)"
    by (simp add: rotated_def Let_def)
  then show ?thesis
    using assms(1,3) rr that
    by (auto simp: rotateToNextKingInternal_def saveState_def Let_def split: if_splits)
qed

lemma RotateToNextKing_ok:
  assumes "RotateToNextKing w now m h hash = (r, m')" and "king_ok m"
  shows "king_ok m'"
  using assms
proof (cases rule: RotateToNextKing_cases)
  case (rotated rr)
  then have "rotates_to (nextIndex m) m m'" by (auto simp: rotates_to_def)
  then show ?thesis using assms(2) nextIndex_range [OF rotated(1)] by (blast intro: rotates_to_ok)
qed (use assms(2) in simp)

lemma rotateInternal_ok:
  assumes "rotateToNextKingInternal w now m h hash = (r, m')" and "king_ok m"
  shows "king_ok m' \<and> km_config m' = km_config m"
proof (cases "kc_KingAddresses (km_config m) = []")
  case True
  then show ?thesis using assms by (simp add: rotateToNextKingInternal_def)
next
  case False
  then obtain rr where "km_state m' = km_state (rotated (nextIndex m) h now rr m)" "km_config m' = km_config m" "km_bc m' = km_bc m"
    using assms rotateInternal_cases by metis
  then have "rotates_to (nextIndex m) m m'" by (auto simp: rotates_to_def)
  then show ?thesis
    using rotates_to_ok [OF _ assms(2)] nextIndex_range [OF False] \<open>km_config m' = km_config m\<close> by blast
qed

lemma ForceRotate_ok:
  assumes "ForceRotate w now m i reason = (r, m')" and "king_ok m"
  shows "king_ok m'"
proof (cases "kc_KingAddresses (km_config m) = [] \<or> i < 0 \<or> i \<ge> int (length (kc_KingAddresses (km_config m)))")
  case True
  then show ?thesis using assms by (auto simp: ForceRotate_def split: if_splits)
next
  case False
  define h where "h = (case km_bc m of None \<Rightarrow> 0 | Some bc \<Rightarrow> kb_height bc)"
  obtain rr where rr: "make_rotation now m h i reason = Some rr"
    using make_rotation_some [OF assms(2), where i = i and now = now and reason = reason] False by auto
  have "m' = snd (saveState w (saveEvent w rr (rotated i h now rr m)))"
    using assms(1) False rr by (simp add: ForceRotate_def saveState_def Let_def flip: h_def split: if_splits)
  then show ?thesis
    using rotated_ok [OF assms(2), of i h now rr] False king_ok_cong [of m' "rotated i h now rr m"] by simp
qed

lemma index_of_Some: "index_of x xs = Some i \<Longrightarrow> i < length xs \<and> xs ! i = x"
  by (induction xs arbitrary: i) (auto split: if_splits)

lemma ForceRotateToAddress_ok:
  assumes "ForceRotateToAddress w now m k = (r, m')" and "king_ok m"
  shows "king_ok m'"
proof (cases "index_of k (kc_KingAddresses (km_config m))")
  case None
  then show ?thesis using assms by (simp add: ForceRotateToAddress_def)
next
  case (Some i)
  then show ?thesis
    using assms index_of_Some [OF Some]
    by (auto simp: ForceRotateToAddress_def saveState_def king_ok_def GetKingRewards_def [abs_def] Let_def
        split: option.splits if_splits)
qed

lemma RecordReward_rewards:
  "GetKingRewards (RecordRewardDistribution w m king reward) =
    (GetKingRewards m)(king := GetKingRewards m king + (case reward of None \<Rightarrow> 0 | Some r \<Rightarrow> r))"
  by (auto simp: RecordRewardDistribution_def GetKingRewards_def fun_eq_iff Let_def)

lemma RecordReward_ok: "king_ok m \<Longrightarrow> king_ok (RecordRewardDistribution w m king reward)"
  unfolding king_ok_def RecordReward_rewards
  by (simp add: RecordRewardDistribution_def ledger_total_upd Let_def)

lemma clamp_ok:
  assumes "km_state m1 = km_state m" and "king_ok m"
  shows "king_ok (clamp_index m1)"
  using assms by (auto simp: clamp_index_def king_ok_def GetKingRewards_def [abs_def] Let_def)

lemma clamp_simps [simp]: "km_config (clamp_index m) = km_config m"
  by (simp add: clamp_index_def)

lemma set_kings_simps [simp]: "km_state (set_kings ks m) = km_state m" "km_bc (set_kings ks m) = km_bc m"
  by (simp_all add: set_kings_def)

lemma SaveKingListToDB_ok:
  assumes "SaveKingListToDB w m ks = (r, m')" and "king_ok m" and "w W_Config"
  shows "king_ok m'"
proof -
  define m1 where "m1 = snd (saveConfig w (set_kings ks m))"
  have s1: "saveConfig w (set_kings ks m) = (True, m1)" using assms(3) by (simp add: m1_def saveConfig_def)
  have "km_state m1 = km_state m" by (simp add: m1_def)
  then have "king_ok (clamp_index m1)" using assms(2) by (rule clamp_ok)
  moreover have "m' = snd (saveState w (clamp_index m1))"
    using assms(1) s1 by (auto simp: SaveKingListToDB_def saveState_def split: if_splits)
  ultimately show ?thesis using king_ok_cong [of m' "clamp_index m1"] by simp
qed

lemma UpdateKingAddresses_ok:
  assumes "UpdateKingAddresses w b m ks = (r, m')" and "king_ok m" and "w W_Config" and "km_bc m \<noteq> None"
  shows "king_ok m'"
proof (cases "ks = []")
  case True
  then show ?thesis using assms by (simp add: UpdateKingAddresses_def)
next
  case False
  define m1 where "m1 = snd (saveConfig w (set_kings ks m))"
  have s1: "saveConfig w (set_kings ks m) = (True, m1)" using assms(3) by (simp add: m1_def saveConfig_def)
  have "km_state m1 = km_state m" "km_bc m1 = km_bc m" by (simp_all add: m1_def saveConfig_def)
  then have "king_ok (clamp_index m1)" and "km_bc m1 \<noteq> None" using assms(2,4) clamp_ok by auto
  moreover from this have "m' = snd (saveState w (clamp_index m1))"
    using assms(1,4) s1 False by (auto simp: UpdateKingAddresses_def saveState_def split: if_splits)
  ultimately show ?thesis using king_ok_cong [of m' "clamp_index m1"] by simp
qed

lemma cleanup_result:
  assumes "CleanupIneligibleKings w m = (r, m')" and "km_bc m = Some bc" and "kb_balance bc = Some bal"
    and "keep = (\<lambda>a. bal a \<ge> kc_MinStakeRequired (km_config m))"
    and "filter (\<lambda>a. \<not> keep a) (kc_KingAddresses (km_config m)) \<noteq> []"
    and "kept = filter keep (kc_KingAddresses (km_config m))"
  shows "kc_KingAddresses (km_config m') = kept
    \<and> km_state m' = (km_state m)\<lparr>ks_CurrentKingIndex :=
         (if ks_CurrentKingIndex (km_state m) \<ge> int (length kept) \<or> kept = [] then 0 else ks_CurrentKingIndex (km_state m))\<rparr>"
  using assms
  by (auto simp: CleanupIneligibleKings_def saveConfig_def saveState_def clamp_index_def set_kings_def
      DefaultRotatingKingConfig_def Let_def split: if_splits)

lemma Cleanup_ok:
  assumes "CleanupIneligibleKings w m = (r, m')" and "king_ok m"
  shows "king_ok m'"
proof (cases "m' = m")
  case False
  then obtain bc bal where bc: "km_bc m = Some bc" "kb_balance bc = Some bal"
    using assms(1) by (auto simp: CleanupIneligibleKings_def split: option.splits)
  let ?keep = "\<lambda>a. bal a \<ge> kc_MinStakeRequired (km_config m)"
  have "filter (\<lambda>a. \<not> ?keep a) (kc_KingAddresses (km_config m)) \<noteq> []"
    using assms(1) bc False by (auto simp: CleanupIneligibleKings_def Let_def split: if_splits)
  from cleanup_result [OF assms(1) bc refl this refl] show ?thesis
    using assms(2) by (auto simp: king_ok_def GetKingRewards_def [abs_def] Let_def)
qed (use assms(2) in simp)

lemma sync_loop_ok:
  "sync_loop w now c bc t h m = (r, m') \<Longrightarrow> king_ok m \<Longrightarrow> king_ok m' \<and> km_config m' = km_config m"
proof (induction w now c bc t h m arbitrary: r m' rule: sync_loop.induct)
  case (1 w now c bc t h m)
  let ?m2 = "\<lambda>x. snd (rotateToNextKingInternal w now m h x)"
  have int: "king_ok (?m2 x) \<and> km_config (?m2 x) = km_config m" for x
    using rotateInternal_ok [OF prod.collapse [symmetric] "1.prems"(2)] .
  consider "h > t \<or> c h \<or> t = - 1" | "\<not> (h > t \<or> c h \<or> t = - 1)" "h \<ge> ks_NextRotationAt (km_state m)"
    | "\<not> (h > t \<or> c h \<or> t = - 1)" "\<not> h \<ge> ks_NextRotationAt (km_state m)" by blast
  then show ?case
  proof cases
    case 1
    then show ?thesis using "1.prems" by (subst (asm) sync_loop.simps) (auto split: if_splits)
  next
    case 2
    show ?thesis
    proof (cases "\<exists>x. kb_block bc h = Some (Some x)")
      case True
      then obtain x where x: "kb_block bc h = Some (Some x)" ..
      then have "sync_loop w now c bc t (h + 1) (?m2 x) = (r, m')"
        using "1.prems"(1) 2 by (subst (asm) sync_loop.simps) simp
      from "1.IH"(3) [OF _ _ _ 2(2) x refl this] show ?thesis using 2(1) int [of x] by simp
    next
      case False
      then have none: "kb_block bc h = None \<or> kb_block bc h = Some None" by (metis not_None_eq)
      then have run: "sync_loop w now c bc t (h + 1) m = (r, m')"
        using "1.prems"(1) 2 by (subst (asm) sync_loop.simps) auto
      from none show ?thesis
      proof
        assume "kb_block bc h = None"
        from "1.IH"(1) [OF _ _ _ 2(2) this run "1.prems"(2)] show ?thesis using 2(1) by simp
      next
        assume "kb_block bc h = Some None"
        from "1.IH"(2) [OF _ _ _ 2(2) this refl run "1.prems"(2)] show ?thesis using 2(1) by simp
      qed
    qed
  next
    case 3
    then have "sync_loop w now c bc t (h + 1) m = (r, m')"
      using "1.prems"(1) by (subst (asm) sync_loop.simps) simp
    from "1.IH"(4) [OF _ _ _ 3(2) this "1.prems"(2)] show ?thesis using 3(1) by simp
  qed
qed

lemma SyncBlocks_ok:
  assumes "SyncBlocks w now c m t = (r, m')" and "king_ok m"
  shows "king_ok m'"
proof -
  have "king_ok (snd (syncRotationsToHeight w now c m t))"
    using assms(2) sync_loop_ok [OF prod.collapse [symmetric]]
    by (simp add: syncRotationsToHeight_def Let_def split: option.split)
  moreover have "km_state m' = km_state (snd (syncRotationsToHeight w now c m t))
      \<and> km_config m' = km_config (snd (syncRotationsToHeight w now c m t))"
    using assms(1) by (auto simp: SyncBlocks_def split: sum.splits prod.splits if_splits)
  ultimately show ?thesis using king_ok_cong by blast
qed

lemma process_ok:
  assumes "processRotatingKingForBlock w now m h hash d = (r, m')" and "king_ok m"
  shows "king_ok m'"
proof (cases "GetCurrentKing m")
  case None
  then show ?thesis using assms by (simp add: processRotatingKingForBlock_def)
next
  case (Some k)
  define s1 where "s1 = (if kd_RotatingKingAddress d \<noteq> zero_address \<and> kd_RotatingKingAddress d \<noteq> k
      then ForceRotateToAddress w now m (kd_RotatingKingAddress d) else (Inr (), m))"
  define m2 where "m2 = (if kd_RotatingKingEligible d \<and> kd_RotatingKingReward d > 0
      then RecordRewardDistribution w (snd s1) (kd_RotatingKingAddress d) (Some (kd_RotatingKingReward d)) else snd s1)"
  define s3 where "s3 = (if ShouldRotate m2 h then RotateToNextKing w now m2 h hash else (Inr (), m2))"
  have ok1: "king_ok (snd s1)"
    using assms(2) ForceRotateToAddress_ok [OF prod.collapse [symmetric]] by (simp add: s1_def)
  then have "king_ok m2" by (simp add: m2_def RecordReward_ok)
  then have "king_ok (snd s3)"
    using RotateToNextKing_ok [OF prod.collapse [symmetric]] by (simp add: s3_def)
  moreover have "m' = snd s1 \<or> m' = snd s3"
  proof -
    obtain q m1 where q: "s1 = (q, m1)" by (cases s1)
    have run: "(r, m') = (case s1 of (Inl e, m1) \<Rightarrow> (Inl e, m1) | (Inr _, m1) \<Rightarrow>
        (let m2 = (if kd_RotatingKingEligible d \<and> kd_RotatingKingReward d > 0
                   then RecordRewardDistribution w m1 (kd_RotatingKingAddress d) (Some (kd_RotatingKingReward d)) else m1)
         in (case (if ShouldRotate m2 h then RotateToNextKing w now m2 h hash else (Inr (), m2)) of
               (Inl e, m3) \<Rightarrow> (Inl e, m3)
             | (Inr _, m3) \<Rightarrow> (case GetCurrentKing m3 of None \<Rightarrow> (Inl King_Panic, m3) | Some k \<Rightarrow> (Inr k, m3)))))"
      using assms(1) Some by (simp only: processRotatingKingForBlock_def option.case s1_def)
    show ?thesis
    proof (cases q)
      case (Inl e)
      then show ?thesis using run q by simp
    next
      case (Inr u)
      have "m2 = (if kd_RotatingKingEligible d \<and> kd_RotatingKingReward d > 0
          then RecordRewardDistribution w m1 (kd_RotatingKingAddress d) (Some (kd_RotatingKingReward d)) else m1)"
        using q by (simp add: m2_def)
      then have "(r, m') = (case s3 of (Inl e, m3) \<Rightarrow> (Inl e, m3)
             | (Inr _, m3) \<Rightarrow> (case GetCurrentKing m3 of None \<Rightarrow> (Inl King_Panic, m3) | Some k \<Rightarrow> (Inr k, m3)))"
        using run q Inr by (simp only: s3_def Let_def prod.case sum.case)
      then show ?thesis by (auto split: prod.splits sum.splits option.splits)
    qed
  qed
  ultimately show ?thesis using ok1 by auto
qed

section \<open>Reachable managers\<close>

text \<open>
  Calls on the manager, failed ones included, and new blocks under it. A new list of kings has
  its configuration written; the other case is \<open>failed_config_write_breaks_the_index\<close>.
\<close>

inductive king_step :: "king_manager \<Rightarrow> king_manager \<Rightarrow> bool" where
  rotate: "RotateToNextKing w now m h hash = (r, m') \<Longrightarrow> king_step m m'"
| force: "ForceRotate w now m i reason = (r, m') \<Longrightarrow> king_step m m'"
| force_to: "ForceRotateToAddress w now m k = (r, m') \<Longrightarrow> king_step m m'"
| reward: "king_step m (RecordRewardDistribution w m k reward)"
| save_list: "SaveKingListToDB w m ks = (r, m') \<Longrightarrow> w W_Config \<Longrightarrow> king_step m m'"
| update: "UpdateKingAddresses w b m ks = (r, m') \<Longrightarrow> w W_Config \<Longrightarrow> km_bc m \<noteq> None \<Longrightarrow> king_step m m'"
| cleanup: "CleanupIneligibleKings w m = (res, m') \<Longrightarrow> king_step m m'"
| sync: "SyncBlocks w now c m t = (r, m') \<Longrightarrow> king_step m m'"
| block: "processRotatingKingForBlock w now m h hash d = (kr, m') \<Longrightarrow> king_step m m'"
| chain: "king_step m (m\<lparr>km_bc := bc\<rparr>)"

lemma king_step_ok: "king_step m m' \<Longrightarrow> king_ok m \<Longrightarrow> king_ok m'"
proof (induction rule: king_step.induct)
  case (chain m bc)
  then show ?case using king_ok_cong [of "m\<lparr>km_bc := bc\<rparr>" m] by simp
qed (blast intro: RotateToNextKing_ok ForceRotate_ok ForceRotateToAddress_ok RecordReward_ok SaveKingListToDB_ok
    UpdateKingAddresses_ok Cleanup_ok SyncBlocks_ok process_ok)+

lemma new_manager_king_ok: "king_ok (NewRotatingKingManager w now bc None None)"
proof -
  have "GetKingRewards (NewRotatingKingManager w now bc None None) = (\<lambda>_. 0)"
    by (simp add: NewRotatingKingManager_def GetKingRewards_def fun_eq_iff Let_def)
  then show ?thesis
    by (simp add: king_ok_def NewRotatingKingManager_def DefaultRotatingKingConfig_def ledger_total_def Let_def)
qed

lemma king_ok_current: "king_ok m \<Longrightarrow> GetCurrentKing m \<noteq> None"
  by (auto simp: king_ok_def GetCurrentKing_def king_at_def Let_def)

section \<open>Properties\<close>

text \<open>
  C23: in every state a manager reaches from a start without saved data, through rotations, rewards,
  clean-ups, synchronisations and new blocks with any failures of its database, and through new lists of
  kings whose configuration is written and, for \<open>UpdateKingAddresses\<close>, whose manager has a chain, asking
  for the current king does not panic and yields a listed king when there is one, the history has at
  most 100 entries, and the total of the rewards is the sum of the rewards of the kings. A list whose
  configuration could not be written breaks this, and starts from saved data are not covered.
\<close>

theorem current_king_is_defined:
  assumes "king_step\<^sup>*\<^sup>* (NewRotatingKingManager w now bc None None) m"
  shows "(\<exists>k. GetCurrentKing m = Some k \<and> (kc_KingAddresses (km_config m) \<noteq> [] \<longrightarrow> IsKing m k))
    \<and> length (ks_KingsHistory (km_state m)) \<le> 100
    \<and> ks_TotalRewardsDistributed (km_state m) = ledger_total (GetKingRewards m)"
proof -
  have ok: "king_ok m"
    using assms by (induction rule: rtranclp_induct) (auto intro: king_step_ok new_manager_king_ok)
  obtain k where k: "GetCurrentKing m = Some k" using king_ok_current [OF ok] by blast
  have "kc_KingAddresses (km_config m) \<noteq> [] \<longrightarrow> IsKing m k"
    using k by (auto simp: GetCurrentKing_def king_at_def IsKing_def split: if_splits)
  then show ?thesis using k ok by (auto simp: king_ok_def)
qed

definition king_demo :: king_manager where
  "king_demo =
     \<lparr>km_config = \<lparr>kc_RotationInterval = 100, kc_RotationOffset = 0, kc_KingAddresses = [7, 8, 9],
        kc_ActivationDelay = 2, kc_MinStakeRequired = 50\<rparr>,
      km_state = \<lparr>ks_CurrentKingIndex = 1, ks_RotationHeight = 100, ks_NextRotationAt = 200, ks_LastUpdated = 0,
        ks_RotationCount = 1, ks_KingsHistory = [], ks_TotalRewardsDistributed = 0, ks_KingRewards = \<lambda>_. None\<rparr>,
      km_bc = Some \<lparr>kb_height = 250, kb_balance = Some ((\<lambda>_. 0)(8 := 60, 7 := 60)), kb_block = \<lambda>_. Some (Some 3)\<rparr>,
      km_saved_config = None, km_saved_state = None, km_events = [], km_sync_records = [], km_sync = None\<rparr>"

lemma king_demo_ok: "king_ok king_demo"
proof -
  have "GetKingRewards king_demo = (\<lambda>_. 0)" by (simp add: king_demo_def GetKingRewards_def fun_eq_iff)
  then show ?thesis by (simp add: king_ok_def king_demo_def ledger_total_def)
qed

theorem current_king_is_defined_witness:
  "\<exists>m. SaveKingListToDB (\<lambda>_. True) (NewRotatingKingManager (\<lambda>_. True) 0 None None None) [7, 8] = (Inr (), m)
     \<and> (\<exists>k. GetCurrentKing m = Some k \<and> IsKing m k)"
proof -
  let ?new = "NewRotatingKingManager (\<lambda>_. True) 0 None None None"
  have fst: "fst (SaveKingListToDB (\<lambda>_. True) ?new [7, 8]) = Inr ()"
    by (simp add: SaveKingListToDB_def saveConfig_def saveState_def)
  then obtain m where m: "SaveKingListToDB (\<lambda>_. True) ?new [7, 8] = (Inr (), m)"
    by (metis prod.collapse)
  then have "kc_KingAddresses (km_config m) = [7, 8]"
    by (auto simp: SaveKingListToDB_def saveConfig_def saveState_def set_kings_def)
  moreover have "king_step\<^sup>*\<^sup>* ?new m" by (rule r_into_rtranclp) (rule king_step.save_list [OF m], simp)
  ultimately show ?thesis using current_king_is_defined [of "\<lambda>_. True" 0 None m] m by auto
qed

text \<open>
  A new list of kings whose configuration cannot be written stays in force in memory while
  the index of the current king is not adjusted: if the list is not longer than that index,
  asking for the current king panics.
\<close>

theorem failed_config_write_breaks_the_index:
  assumes "newAddresses \<noteq> []" and "\<not> w W_Config"
    and "int (length newAddresses) \<le> ks_CurrentKingIndex (km_state m)"
  shows "\<exists>m'. UpdateKingAddresses w b m newAddresses = (Inl Save_Config_Failed, m') \<and> GetCurrentKing m' = None"
  using assms by (simp add: UpdateKingAddresses_def saveConfig_def GetCurrentKing_def king_at_def set_kings_def)

theorem failed_config_write_breaks_the_index_witness:
  "\<exists>m'. UpdateKingAddresses (\<lambda>_. False) False king_demo [7] = (Inl Save_Config_Failed, m') \<and> GetCurrentKing m' = None"
  by (rule failed_config_write_breaks_the_index) (simp_all add: king_demo_def)

text \<open>
  When a rotation is due it goes to the next king of the list, whatever the balances are: the
  search for an eligible king has no effect, and if it finds another one the new king is below
  the minimum. The new state is the one that is saved, and the next rotation is one interval on.
\<close>

theorem rotation_ignores_eligibility:
  assumes "king_ok m" and "kc_KingAddresses (km_config m) \<noteq> []" and "ShouldRotate m h" and "w W_State"
  shows "\<exists>m'. RotateToNextKing w now m h hash = (Inr (), m')
    \<and> GetCurrentKing m' = GetNextKing m \<and> ks_CurrentKingIndex (km_state m') = nextIndex m
    \<and> ks_NextRotationAt (km_state m') = h + kc_RotationInterval (km_config m)
    \<and> km_saved_state m' = Some (km_state m')
    \<and> (\<forall>j k. eligible_search m = Some j \<longrightarrow> j \<noteq> nextIndex m \<longrightarrow> GetCurrentKing m' = Some k \<longrightarrow> \<not> eligible_king m k)"
proof -
  obtain r m' where run: "RotateToNextKing w now m h hash = (r, m')" by fastforce
  then show ?thesis
    using assms(1)
  proof (cases rule: RotateToNextKing_cases)
    case (rotated rr)
    have king: "GetCurrentKing m' = king_at m (nextIndex m)"
      using rotated(4,5) assms(2) by (simp add: GetCurrentKing_def king_at_def)
    have "\<not> eligible_king m k"
      if "eligible_search m = Some j" "j \<noteq> nextIndex m" "king_at m (nextIndex m) = Some k" for j k
      using that by (auto simp: eligible_search_def eligible_king_def Let_def nextIndex_def split: option.splits if_splits)
    then show ?thesis
      using run rotated assms(2,4) king by (simp add: GetNextKing_def)
  qed (use assms(2,3) in auto)
qed

theorem rotation_ignores_eligibility_witness:
  "\<exists>m'. RotateToNextKing (\<lambda>_. True) 0 king_demo 200 3 = (Inr (), m') \<and> GetCurrentKing m' = Some 9
     \<and> \<not> eligible_king king_demo 9 \<and> eligible_search king_demo = Some 0"
proof -
  have "kc_KingAddresses (km_config king_demo) \<noteq> []" "ShouldRotate king_demo 200" "GetNextKing king_demo = Some 9"
      "nextIndex king_demo = 2" "eligible_search king_demo = Some 0"
    by (simp_all add: king_demo_def ShouldRotate_def GetNextKing_def king_at_def nextIndex_def eligible_search_def
        Let_def upt_rec)
  then show ?thesis
    using rotation_ignores_eligibility [OF king_demo_ok, of 200 "\<lambda>_. True" 0 3] by auto
qed

text \<open>
  Along any sequence of successful rotations as long as the list, every listed king is the
  current one at some point.
\<close>

theorem every_king_gets_a_turn:
  assumes "king_ok (ms 0)" and "kc_KingAddresses (km_config (ms 0)) = kings"
    and "\<forall>i < length kings. RotateToNextKing w (now i) (ms i) (h i) (hash i) = (Inr (), ms (Suc i))"
    and "k \<in> set kings"
  shows "\<exists>i \<le> length kings. GetCurrentKing (ms i) = Some k"
proof -
  let ?n = "length kings" and ?i0 = "ks_CurrentKingIndex (km_state (ms 0))"
  have n: "0 < ?n" using assms(4) by (auto intro: length_pos_if_in_set)
  have state: "king_ok (ms i) \<and> kc_KingAddresses (km_config (ms i)) = kings
      \<and> ks_CurrentKingIndex (km_state (ms i)) = (?i0 + int i) mod int ?n" if "i \<le> ?n" for i
    using that
  proof (induction i)
    case 0
    have "0 \<le> ?i0 \<and> ?i0 < int ?n" using assms(1,2) n by (auto simp: king_ok_def Let_def)
    then show ?case using assms(1,2) by simp
  next
    case (Suc i)
    then have run: "RotateToNextKing w (now i) (ms i) (h i) (hash i) = (Inr (), ms (Suc i))"
      and IH: "king_ok (ms i)" "kc_KingAddresses (km_config (ms i)) = kings"
        "ks_CurrentKingIndex (km_state (ms i)) = (?i0 + int i) mod int ?n"
      using assms(3) by simp_all
    from run IH(1) show ?case
    proof (cases rule: RotateToNextKing_cases)
      case (rotated rr)
      have "nextIndex (ms i) = ((?i0 + int i) mod int ?n + 1) mod int ?n"
        by (simp add: nextIndex_def IH(2,3))
      also have "\<dots> = (?i0 + int (Suc i)) mod int ?n"
        by (simp only: mod_add_left_eq) (simp add: ac_simps)
      finally show ?thesis
        using rotated(4,5) IH(2) RotateToNextKing_ok [OF run IH(1)] by simp
    qed simp
  qed
  obtain j where j: "j < ?n" "kings ! j = k" using assms(4) by (auto simp: in_set_conv_nth)
  define i where "i = nat ((int j - ?i0) mod int ?n)"
  have i: "i \<le> ?n" "int i = (int j - ?i0) mod int ?n"
    using n by (simp_all add: i_def nat_le_iff less_imp_le)
  have "(?i0 + int i) mod int ?n = int j"
    unfolding i(2) using j(1) by (simp add: mod_add_right_eq)
  then have "GetCurrentKing (ms i) = Some k"
    using state [OF i(1)] j n by (auto simp: GetCurrentKing_def king_at_def)
  with i(1) show ?thesis by blast
qed

definition king_turn :: "nat \<Rightarrow> king_manager" where
  "king_turn i = ((\<lambda>m. snd (RotateToNextKing (\<lambda>_. True) 0 m (ks_NextRotationAt (km_state m)) 3)) ^^ i) king_demo"

lemma rotation_when_due:
  assumes "king_ok m" and "kc_KingAddresses (km_config m) \<noteq> []" and "h = ks_NextRotationAt (km_state m)"
    and "m' = snd (RotateToNextKing (\<lambda>_. True) now m h hash)"
  shows "RotateToNextKing (\<lambda>_. True) now m h hash = (Inr (), m') \<and> king_ok m' \<and> km_config m' = km_config m"
proof -
  obtain r where run: "RotateToNextKing (\<lambda>_. True) now m h hash = (r, m')" by (metis assms(4) prod.collapse)
  then show ?thesis
    using assms(1)
  proof (cases rule: RotateToNextKing_cases)
    case (rotated rr)
    then show ?thesis using run RotateToNextKing_ok [OF run assms(1)] by simp
  qed (use assms(2,3) in \<open>simp add: ShouldRotate_def\<close>)
qed

theorem every_king_gets_a_turn_witness: "\<exists>i \<le> 3. GetCurrentKing (king_turn i) = Some 7"
proof -
  have step: "king_turn (Suc i) = snd (RotateToNextKing (\<lambda>_. True) 0 (king_turn i) (ks_NextRotationAt (km_state (king_turn i))) 3)" for i
    by (simp add: king_turn_def)
  have ok: "king_ok (king_turn i) \<and> kc_KingAddresses (km_config (king_turn i)) = [7, 8, 9]" for i
  proof (induction i)
    case 0
    show ?case by (simp add: king_turn_def king_demo_ok) (simp add: king_demo_def)
  next
    case (Suc i)
    then show ?case using rotation_when_due [OF _ _ refl step] by auto
  qed
  have run: "\<forall>i < 3. RotateToNextKing (\<lambda>_. True) 0 (king_turn i) (ks_NextRotationAt (km_state (king_turn i))) 3
      = (Inr (), king_turn (Suc i))"
    using rotation_when_due [OF _ _ refl step] ok by auto
  show ?thesis
    using every_king_gets_a_turn [of king_turn "[7, 8, 9]" "\<lambda>_. True" "\<lambda>_. 0" "\<lambda>i. ks_NextRotationAt (km_state (king_turn i))"
        "\<lambda>_. 3" 7] run ok [of 0] by (simp add: numeral_eq_Suc)
qed

text \<open>
  Catching up to a target the chain has reached leaves no rotation due there, when every
  block is present, the interval is positive, the context is not cancelled and no height wraps
  around; so catching up again changes nothing.
\<close>

theorem sync_catches_up:
  assumes "king_ok m" and "kc_KingAddresses (km_config m) \<noteq> []" and "km_bc m = Some bc"
    and "\<forall>h. \<exists>x. kb_block bc h = Some (Some x)" and "kb_height bc = t" and "t \<noteq> - 1"
    and "0 < ks_RotationHeight (km_state m)" and "ks_RotationHeight (km_state m) \<le> t"
    and "0 < kc_RotationInterval (km_config m)"
    and "unat t + unat (kc_RotationInterval (km_config m)) < 2 ^ 64"
  shows "\<exists>m'. syncRotationsToHeight w now (\<lambda>_. False) m t = (Inr (), m') \<and> \<not> ShouldRotate m' t \<and> king_ok m'"
proof -
  have "\<exists>m'. sync_loop w now (\<lambda>_. False) bc t h m = (Inr (), m') \<and> (h \<le> t \<or> t < ks_NextRotationAt (km_state m) \<longrightarrow> t < ks_NextRotationAt (km_state m'))"
    if "king_ok m" "km_config m = cfg" "kc_KingAddresses cfg \<noteq> []" "0 < kc_RotationInterval cfg"
      "unat t + unat (kc_RotationInterval cfg) < 2 ^ 64" for h m cfg
    using that
  proof (induction "unat t + 1 - unat h" arbitrary: h m rule: less_induct)
    case less
    show ?case
    proof (cases "h \<le> t")
      case False
      then show ?thesis by (subst sync_loop.simps) (auto simp: not_le)
    next
      case True
      have next_h: "unat (h + 1) = Suc (unat h)" using unat_next [OF True assms(6)] .
      have smaller: "unat t + 1 - unat (h + 1) < unat t + 1 - unat h" using True next_h by (simp add: word_le_nat_alt)
      obtain x where x: "kb_block bc h = Some (Some x)" using assms(4) by blast
      show ?thesis
      proof (cases "h \<ge> ks_NextRotationAt (km_state m)")
        case due: True
        obtain r m2 where run: "rotateToNextKingInternal w now m h x = (r, m2)" by fastforce
        obtain rr where m2: "km_state m2 = km_state (rotated (nextIndex m) h now rr m)" "km_config m2 = km_config m"
          using rotateInternal_cases [OF run less.prems(1)] less.prems(2,3) by metis
        have ok2: "king_ok m2" using rotateInternal_ok [OF run less.prems(1)] by simp
        have "unat (h + kc_RotationInterval cfg) = unat h + unat (kc_RotationInterval cfg)"
          using True less.prems(5) by (simp add: unat_word_ariths word_le_nat_alt)
        then have "h < ks_NextRotationAt (km_state m2)"
          using m2(1) less.prems(2,4) by (simp add: word_less_nat_alt)
        then have "h + 1 \<le> t \<or> t < ks_NextRotationAt (km_state m2)"
          using True next_h by (auto simp: word_le_nat_alt word_less_nat_alt)
        with less.hyps [OF smaller ok2] less.prems m2(2) show ?thesis
          using True due x run assms(6) by (subst sync_loop.simps) auto
      next
        case False
        then have "h + 1 \<le> t \<or> t < ks_NextRotationAt (km_state m)"
          using True next_h by (auto simp: word_le_nat_alt word_less_nat_alt)
        with less.hyps [OF smaller less.prems(1)] less.prems show ?thesis
          using True False assms(6) by (subst sync_loop.simps) auto
      qed
    qed
  qed
  from this [OF assms(1) refl assms(2,9,10), of "ks_RotationHeight (km_state m)"] obtain m' where
    m': "sync_loop w now (\<lambda>_. False) bc t (ks_RotationHeight (km_state m)) m = (Inr (), m')" "t < ks_NextRotationAt (km_state m')"
    using assms(8) by blast
  then have "syncRotationsToHeight w now (\<lambda>_. False) m t = (Inr (), m')"
    using assms(3,5,7) by (auto simp: syncRotationsToHeight_def)
  then show ?thesis
    using m'(2) sync_loop_ok [OF m'(1) assms(1)] by (simp add: ShouldRotate_def not_le)
qed

theorem sync_catches_up_witness:
  "\<exists>m'. syncRotationsToHeight (\<lambda>_. True) 0 (\<lambda>_. False) king_demo 250 = (Inr (), m') \<and> \<not> ShouldRotate m' 250"
  using sync_catches_up [OF king_demo_ok, of _ 250 "\<lambda>_. True" 0] by (auto simp: king_demo_def)

text \<open>
  Removing ineligible kings keeps the position and not the king: if the first king is removed
  while the second one reigns, the reign passes to the third, who is no more eligible than the
  second, and the second loses its turn.
\<close>

theorem cleanup_moves_the_reign:
  assumes "kc_KingAddresses (km_config m) = a # b # c # rest" and "ks_CurrentKingIndex (km_state m) = 1"
    and "km_bc m = Some bc" and "kb_balance bc = Some bal"
    and "bal a < kc_MinStakeRequired (km_config m)"
    and "kc_MinStakeRequired (km_config m) \<le> bal b" and "kc_MinStakeRequired (km_config m) \<le> bal c"
    and "CleanupIneligibleKings w m = (r, m')"
  shows "GetCurrentKing m = Some b \<and> GetCurrentKing m' = Some c"
proof -
  let ?keep = "\<lambda>a. bal a \<ge> kc_MinStakeRequired (km_config m)"
  have "filter (\<lambda>a. \<not> ?keep a) (kc_KingAddresses (km_config m)) \<noteq> []" using assms(1,5) by simp
  from cleanup_result [OF assms(8,3,4) refl this refl] show ?thesis
    using assms(1,2,5-7) by (simp add: GetCurrentKing_def king_at_def)
qed

theorem cleanup_moves_the_reign_witness:
  "\<exists>m'. CleanupIneligibleKings (\<lambda>_. True)
      (king_demo\<lparr>km_bc := Some \<lparr>kb_height = 250, kb_balance = Some ((\<lambda>_. 60)(7 := 1)), kb_block = \<lambda>_. None\<rparr>\<rparr>) = (Inr [7], m')
    \<and> GetCurrentKing m' = Some 9"
proof -
  let ?m = "king_demo\<lparr>km_bc := Some \<lparr>kb_height = 250, kb_balance = Some ((\<lambda>_. 60)(7 := 1)), kb_block = \<lambda>_. None\<rparr>\<rparr>"
  have fst: "fst (CleanupIneligibleKings (\<lambda>_. True) ?m) = Inr [7]"
    by (simp add: king_demo_def CleanupIneligibleKings_def saveConfig_def saveState_def Let_def)
  then obtain m' where m': "CleanupIneligibleKings (\<lambda>_. True) ?m = (Inr [7], m')" by (metis prod.collapse)
  then show ?thesis
    using cleanup_moves_the_reign [of ?m 7 8 9 "[]" _ _ "\<lambda>_. True" "Inr [7]" m'] by (simp add: king_demo_def)
qed

text \<open>
  The keys of rotation events and sync records determine height and address, the height can be
  read back from them, and neither kind is taken for the other.
\<close>

theorem rotation_keys_round_trip:
  "key_height rotationEventPrefix (rotationEventKey h a) = Some h
   \<and> key_height blockSyncRecordPrefix (blockSyncRecordKey h) = Some h
   \<and> key_height rotationEventPrefix (blockSyncRecordKey h) = None
   \<and> key_height blockSyncRecordPrefix (rotationEventKey h a) = None
   \<and> (rotationEventKey h a = rotationEventKey h' a' \<longleftrightarrow> h = h' \<and> a = a')
   \<and> (blockSyncRecordKey h = blockSyncRecordKey h' \<longleftrightarrow> h = h')"
  by (simp add: key_height_def rotationEventKey_def blockSyncRecordKey_def rotationEventPrefix_def
      blockSyncRecordPrefix_def str_bytes_def bytes_word_word_bytes word_bytes_inject)

end
