(* ===== verification/Governance.thy ===== *)
theory Governance
  imports Rotating_King
begin

text \<open>
  Governance of the list of kings (\<open>antdc/governance/governance.go\<close>): proposals of the owner, a
  time lock, and their execution. The proposal files are a function of the proposal id; an
  unreadable file is absent, and so is one whose type is neither of the two known ones. Failures to
  create or list the directory are left out. \<open>saved\<close> says whether a write succeeds. The manager of the kings is
  reached through an interface, which is a locale here; the model of the rotating king manager
  implements it. The update listener runs in a goroutine of its own and is left out.
\<close>

section \<open>Data\<close>

definition GovernanceDelay :: u64 where "GovernanceDelay = 48 * 60 * 60"

datatype proposal_type = ProposalUpdateMainKing | ProposalUpdateRotatingKings

record proposal =
  gp_ID :: u64
  gp_Type :: proposal_type
  gp_Executor :: address
  gp_Executed :: bool
  gp_ETA :: u64
  gp_NewMainKing :: address
  gp_NewRotatingKings :: "address list"
  gp_CreatedTimestamp :: u64
  gp_ExecutedTimestamp :: u64

record 'm governance =
  gc_owner :: address
  gc_proposals :: "u64 \<Rightarrow> proposal option"
  gc_rotatingKingMgr :: 'm
  gc_nextID :: u64
  gc_files :: "u64 \<Rightarrow> proposal option"

datatype 'e gov_error =
    Zero_Owner | No_King_Manager | Not_Authorized | Proposal_Executed | Delay_Not_Passed
  | Invalid_Params | Save_Failed | Not_Found | Update_Failed 'e

text \<open>\<open>files\<close>: the readable proposal files, by the id inside, and \<open>order\<close>, the ids in directory order.\<close>

definition NewGovernanceController ::
    "address \<Rightarrow> 'm option \<Rightarrow> (u64 \<Rightarrow> proposal option) \<Rightarrow> u64 list \<Rightarrow> 'e gov_error + 'm governance" where
  "NewGovernanceController owner rkMgr files order =
     (if owner = zero_address then Inl Zero_Owner
      else case rkMgr of
        None \<Rightarrow> Inl No_King_Manager
      | Some mgr \<Rightarrow>
          let loaded = List.map_filter files order;
              proposals = foldl (\<lambda>m p. m(gp_ID p \<mapsto> p)) Map.empty loaded
          in Inr \<lparr>gc_owner = owner, gc_proposals = proposals, gc_rotatingKingMgr = mgr,
                  gc_nextID = (if loaded \<noteq> [] then foldl (\<lambda>m p. if gp_ID p > m then gp_ID p else m) 0 loaded + 1 else 1),
                  gc_files = files\<rparr>)"

section \<open>Operations\<close>

definition saveProposal :: "bool \<Rightarrow> proposal \<Rightarrow> 'm governance \<Rightarrow> bool \<times> 'm governance" where
  "saveProposal saved p gc =
     (if saved then (True, gc\<lparr>gc_files := (gc_files gc)(gp_ID p \<mapsto> p)\<rparr>) else (False, gc))"

text \<open>What both kinds of proposal do after their checks; the id is used up by a failing save.\<close>

definition propose :: "bool \<Rightarrow> 'm governance \<Rightarrow> (u64 \<Rightarrow> proposal) \<Rightarrow> ('e gov_error + u64) \<times> 'm governance" where
  "propose saved gc mk =
     (let id = gc_nextID gc;
          gc1 = gc\<lparr>gc_nextID := id + 1, gc_proposals := (gc_proposals gc)(id \<mapsto> mk id)\<rparr>
      in case saveProposal saved (mk id) gc1 of
           (False, gc2) \<Rightarrow> (Inl Save_Failed, gc2\<lparr>gc_proposals := (gc_proposals gc2)(id := None)\<rparr>)
         | (True, gc2) \<Rightarrow> (Inr id, gc2))"

definition ProposeMainKingChange ::
    "bool \<Rightarrow> 'm governance \<Rightarrow> address \<Rightarrow> address \<Rightarrow> u64 \<Rightarrow> ('e gov_error + u64) \<times> 'm governance" where
  "ProposeMainKingChange saved gc caller newMainKing now =
     (if caller \<noteq> gc_owner gc then (Inl Not_Authorized, gc)
      else if newMainKing = zero_address then (Inl Invalid_Params, gc)
      else propose saved gc (\<lambda>id.
        \<lparr>gp_ID = id, gp_Type = ProposalUpdateMainKing, gp_Executor = caller, gp_Executed = False,
         gp_ETA = now + GovernanceDelay, gp_NewMainKing = newMainKing, gp_NewRotatingKings = [],
         gp_CreatedTimestamp = now, gp_ExecutedTimestamp = 0\<rparr>))"

definition ProposeRotatingKingsUpdate ::
    "bool \<Rightarrow> 'm governance \<Rightarrow> address \<Rightarrow> address list \<Rightarrow> u64 \<Rightarrow> ('e gov_error + u64) \<times> 'm governance" where
  "ProposeRotatingKingsUpdate saved gc caller newKings now =
     (if caller \<noteq> gc_owner gc then (Inl Not_Authorized, gc)
      else if newKings = [] \<or> length newKings > 1000 then (Inl Invalid_Params, gc)
      else propose saved gc (\<lambda>id.
        \<lparr>gp_ID = id, gp_Type = ProposalUpdateRotatingKings, gp_Executor = caller, gp_Executed = False,
         gp_ETA = now + GovernanceDelay, gp_NewMainKing = zero_address, gp_NewRotatingKings = newKings,
         gp_CreatedTimestamp = now, gp_ExecutedTimestamp = 0\<rparr>))"

text \<open>\<open>update\<close> is \<open>UpdateKingAddresses\<close> of the manager. The caller is not looked at.\<close>

definition ExecuteProposal ::
    "('m \<Rightarrow> address list \<Rightarrow> ('e + unit) \<times> 'm) \<Rightarrow> bool \<Rightarrow> 'm governance \<Rightarrow> u64 \<Rightarrow> address \<Rightarrow> u64
     \<Rightarrow> ('e gov_error + unit) \<times> 'm governance" where
  "ExecuteProposal update saved gc pid caller now =
     (case gc_proposals gc pid of
        None \<Rightarrow> (Inl Not_Found, gc)
      | Some p \<Rightarrow>
          if gp_Executed p then (Inl Proposal_Executed, gc)
          else if now < gp_ETA p then (Inl Delay_Not_Passed, gc)
          else
            let (res, mgr) = (case gp_Type p of
                  ProposalUpdateMainKing \<Rightarrow> (Inr (), gc_rotatingKingMgr gc)
                | ProposalUpdateRotatingKings \<Rightarrow> update (gc_rotatingKingMgr gc) (gp_NewRotatingKings p));
                gc1 = gc\<lparr>gc_rotatingKingMgr := mgr\<rparr>
            in case res of
                 Inl e \<Rightarrow> (Inl (Update_Failed e), gc1)
               | Inr _ \<Rightarrow>
                   let p' = p\<lparr>gp_Executed := True, gp_ExecutedTimestamp := now\<rparr>
                   in (Inr (), snd (saveProposal saved p' (gc1\<lparr>gc_proposals := (gc_proposals gc1)(pid \<mapsto> p')\<rparr>))))"

definition CanExecute :: "'m governance \<Rightarrow> u64 \<Rightarrow> u64 \<Rightarrow> bool" where
  "CanExecute gc pid now =
     (case gc_proposals gc pid of None \<Rightarrow> False | Some p \<Rightarrow> \<not> gp_Executed p \<and> now \<ge> gp_ETA p)"

section \<open>The interface of the king manager\<close>

locale king_list =
  fixes update :: "'m \<Rightarrow> address list \<Rightarrow> ('e + unit) \<times> 'm" and kings :: "'m \<Rightarrow> address list"
  assumes update_sets: "update m ks = (Inr (), m') \<Longrightarrow> kings m' = ks"
    and update_failed: "update m ks = (Inl e, m') \<Longrightarrow> kings m' = kings m \<or> kings m' = ks"
begin

lemma ExecuteProposal_effect:
  assumes "ExecuteProposal update saved gc pid caller now = (r, gc')"
  shows "(\<exists>e. r = Inl e) \<and> gc_proposals gc' = gc_proposals gc \<and> gc_owner gc' = gc_owner gc
      \<and> (kings (gc_rotatingKingMgr gc') = kings (gc_rotatingKingMgr gc)
         \<or> (\<exists>p. gc_proposals gc pid = Some p \<and> gp_ETA p \<le> now \<and> gp_Type p = ProposalUpdateRotatingKings \<and> kings (gc_rotatingKingMgr gc') = gp_NewRotatingKings p))
    \<or> (\<exists>p. r = Inr () \<and> gc_proposals gc pid = Some p \<and> \<not> gp_Executed p \<and> gp_ETA p \<le> now
        \<and> gc_proposals gc' = (gc_proposals gc)(pid \<mapsto> p\<lparr>gp_Executed := True, gp_ExecutedTimestamp := now\<rparr>)
        \<and> gc_owner gc' = gc_owner gc
        \<and> kings (gc_rotatingKingMgr gc') =
            (if gp_Type p = ProposalUpdateRotatingKings then gp_NewRotatingKings p else kings (gc_rotatingKingMgr gc)))"
proof (cases "gc_proposals gc pid")
  case None
  then show ?thesis using assms by (auto simp: ExecuteProposal_def)
next
  case (Some p)
  show ?thesis
  proof (cases "gp_Executed p \<or> now < gp_ETA p")
    case True
    then show ?thesis using assms Some by (auto simp: ExecuteProposal_def split: if_splits)
  next
    case False
    show ?thesis
    proof (cases "gp_Type p")
      case ProposalUpdateMainKing
      then show ?thesis
        using assms Some False by (auto simp: ExecuteProposal_def saveProposal_def Let_def split: if_splits)
    next
      case ProposalUpdateRotatingKings
      obtain res mgr where u: "update (gc_rotatingKingMgr gc) (gp_NewRotatingKings p) = (res, mgr)" by fastforce
      show ?thesis
      proof (cases res)
        case (Inl e)
        then have "r = Inl (Update_Failed e)" "gc' = gc\<lparr>gc_rotatingKingMgr := mgr\<rparr>"
          using assms Some False u ProposalUpdateRotatingKings by (auto simp: ExecuteProposal_def)
        then show ?thesis
          using update_failed [of "gc_rotatingKingMgr gc" "gp_NewRotatingKings p" e mgr] u Inl Some False ProposalUpdateRotatingKings by auto
      next
        case (Inr x)
        have "kings mgr = gp_NewRotatingKings p" using update_sets u Inr by simp
        then show ?thesis
          using assms Some False u Inr ProposalUpdateRotatingKings
          by (auto simp: ExecuteProposal_def saveProposal_def Let_def split: if_splits)
      qed
    qed
  qed
qed

end

text \<open>The manager of the kings offers this.\<close>

interpretation rkm: king_list "UpdateKingAddresses w b" "\<lambda>m. kc_KingAddresses (km_config m)" for w b
proof
  show "kc_KingAddresses (km_config m') = ks" if "UpdateKingAddresses w b m ks = (Inr (), m')" for m ks m'
    using that by (auto simp: UpdateKingAddresses_def saveConfig_def saveState_def clamp_index_def set_kings_def
        split: if_splits)
  show "kc_KingAddresses (km_config m') = kc_KingAddresses (km_config m) \<or> kc_KingAddresses (km_config m') = ks"
    if "UpdateKingAddresses w b m ks = (Inl e, m')" for m ks e m'
    using that by (auto simp: UpdateKingAddresses_def saveConfig_def saveState_def clamp_index_def set_kings_def
        split: if_splits)
qed

lemma propose_cases:
  assumes "propose saved gc mk = (r, gc')"
  shows "gc_owner gc' = gc_owner gc \<and> gc_rotatingKingMgr gc' = gc_rotatingKingMgr gc
    \<and> (if saved then r = Inr (gc_nextID gc) \<and> gc_proposals gc' = (gc_proposals gc)(gc_nextID gc \<mapsto> mk (gc_nextID gc))
       else r = Inl Save_Failed \<and> gc_proposals gc' = (gc_proposals gc)(gc_nextID gc := None))"
  using assms by (auto simp: propose_def saveProposal_def Let_def)

section \<open>Runs of the controller\<close>

text \<open>
  A call with the time it is made at; time does not go back, and the ids do not wrap around
  (which takes \<open>2^64\<close> proposals).
\<close>

inductive gov_step :: "king_manager governance \<times> u64 \<Rightarrow> king_manager governance \<times> u64 \<Rightarrow> bool" where
  propose_main: "ProposeMainKingChange saved gc caller k now = ((r :: king_error gov_error + u64), gc') \<Longrightarrow> t \<le> now \<Longrightarrow> gc_nextID gc \<noteq> - 1 \<Longrightarrow>
    gov_step (gc, t) (gc', now)"
| propose_kings: "ProposeRotatingKingsUpdate saved gc caller ks now = ((r :: king_error gov_error + u64), gc') \<Longrightarrow> t \<le> now \<Longrightarrow> gc_nextID gc \<noteq> - 1 \<Longrightarrow>
    gov_step (gc, t) (gc', now)"
| execute: "ExecuteProposal (UpdateKingAddresses w b) saved gc pid caller now = (r, gc') \<Longrightarrow> t \<le> now \<Longrightarrow>
    gov_step (gc, t) (gc', now)"

inductive_cases gov_stepE: "gov_step (gc, t) (gc', t')"

definition proposal_ok :: "king_manager governance \<Rightarrow> u64 \<Rightarrow> proposal \<Rightarrow> bool" where
  "proposal_ok gc pid p \<longleftrightarrow>
     gp_ID p = pid \<and> pid < gc_nextID gc \<and> gp_Executor p = gc_owner gc
     \<and> gp_ETA p = gp_CreatedTimestamp p + GovernanceDelay"

definition governed :: "address list \<Rightarrow> king_manager governance \<Rightarrow> u64 \<Rightarrow> bool" where
  "governed initial gc t \<longleftrightarrow>
     (\<forall>pid p. gc_proposals gc pid = Some p \<longrightarrow> proposal_ok gc pid p)
     \<and> (kc_KingAddresses (km_config (gc_rotatingKingMgr gc)) = initial
        \<or> (\<exists>pid p. gc_proposals gc pid = Some p \<and> gp_Type p = ProposalUpdateRotatingKings \<and> gp_ETA p \<le> t
              \<and> kc_KingAddresses (km_config (gc_rotatingKingMgr gc)) = gp_NewRotatingKings p))"

lemma governed_later:
  assumes "governed initial gc t" and "t \<le> t'"
  shows "governed initial gc t'"
proof -
  have "gp_ETA p \<le> t \<Longrightarrow> gp_ETA p \<le> t'" for p using assms(2) by (rule order_trans [rotated])
  then show ?thesis using assms(1) unfolding governed_def by blast
qed

lemma propose_governed:
  assumes "propose saved gc mk = (r, gc')" and "governed initial gc t" and "t \<le> now" and "gc_nextID gc \<noteq> - 1"
    and mk: "\<And>i. gp_ID (mk i) = i \<and> gp_Executor (mk i) = gc_owner gc \<and> gp_ETA (mk i) = gp_CreatedTimestamp (mk i) + GovernanceDelay"
  shows "governed initial gc' now"
proof -
  let ?i = "gc_nextID gc"
  have up: "?i < ?i + 1" using unat_next [of ?i ?i] assms(4) by (simp add: word_less_nat_alt)
  have next': "gc_nextID gc' = ?i + 1" "gc_owner gc' = gc_owner gc" "gc_rotatingKingMgr gc' = gc_rotatingKingMgr gc"
    using assms(1) by (auto simp: propose_def saveProposal_def Let_def split: if_splits)
  have fresh: "gc_proposals gc ?i = None"
    using assms(2) by (cases "gc_proposals gc ?i") (auto simp: governed_def proposal_ok_def)
  have props: "gc_proposals gc' = (gc_proposals gc)(?i := (if saved then Some (mk ?i) else None))"
    using propose_cases [OF assms(1)] by (simp split: if_splits)
  have "proposal_ok gc' pid p" if "gc_proposals gc' pid = Some p" for pid p
  proof (cases "pid = ?i")
    case True
    then have "p = mk ?i" using that by (simp add: props split: if_splits)
    then show ?thesis using True mk [of ?i] up next' by (simp add: proposal_ok_def)
  next
    case False
    then have "proposal_ok gc pid p" using that assms(2) by (simp add: props governed_def)
    then show ?thesis using less_trans [OF _ up] next' by (simp add: proposal_ok_def)
  qed
  moreover have "gc_proposals gc' pid = Some p" if "gc_proposals gc pid = Some p" for pid p
    using that fresh by (auto simp: props)
  ultimately show ?thesis
    using governed_later [OF assms(2,3)] next'(3) unfolding governed_def by metis
qed

lemma gov_step_governed:
  assumes "gov_step (gc, t) (gc', t')" and "governed initial gc t"
  shows "governed initial gc' t' \<and> gc_owner gc' = gc_owner gc"
  using assms(1)
proof (rule gov_stepE)
  fix saved caller k and r :: "king_error gov_error + u64"
  assume 1: "ProposeMainKingChange saved gc caller k t' = (r, gc')" "t \<le> t'" "gc_nextID gc \<noteq> - 1"
  have refused: "governed initial gc t'" by (rule governed_later [OF assms(2) 1(2)])
  show ?thesis
  proof (cases "caller \<noteq> gc_owner gc \<or> k = zero_address")
    case True
    then show ?thesis using 1(1) refused by (auto simp: ProposeMainKingChange_def split: if_splits)
  next
    case False
    then have run: "\<exists>mk. propose saved gc mk = (r, gc') \<and> (\<forall>i. gp_ID (mk i) = i \<and> gp_Executor (mk i) = gc_owner gc
        \<and> gp_ETA (mk i) = gp_CreatedTimestamp (mk i) + GovernanceDelay)"
      using 1(1) by (intro exI) (auto simp: ProposeMainKingChange_def)
    then show ?thesis using propose_governed [OF _ assms(2) 1(2,3)] propose_cases by metis
  qed
next
  fix saved caller ks and r :: "king_error gov_error + u64"
  assume 2: "ProposeRotatingKingsUpdate saved gc caller ks t' = (r, gc')" "t \<le> t'" "gc_nextID gc \<noteq> - 1"
  have refused: "governed initial gc t'" by (rule governed_later [OF assms(2) 2(2)])
  show ?thesis
  proof (cases "caller \<noteq> gc_owner gc \<or> ks = [] \<or> length ks > 1000")
    case True
    then show ?thesis using 2(1) refused by (auto simp: ProposeRotatingKingsUpdate_def split: if_splits)
  next
    case False
    then have run: "\<exists>mk. propose saved gc mk = (r, gc') \<and> (\<forall>i. gp_ID (mk i) = i \<and> gp_Executor (mk i) = gc_owner gc
        \<and> gp_ETA (mk i) = gp_CreatedTimestamp (mk i) + GovernanceDelay)"
      using 2(1) by (intro exI) (auto simp: ProposeRotatingKingsUpdate_def)
    then show ?thesis using propose_governed [OF _ assms(2) 2(2,3)] propose_cases by metis
  qed
next
  fix w b saved pid caller r
  assume 3: "ExecuteProposal (UpdateKingAddresses w b) saved gc pid caller t' = (r, gc')" "t \<le> t'"
  have next': "gc_nextID gc' = gc_nextID gc"
    using 3(1) by (auto simp: ExecuteProposal_def saveProposal_def Let_def
        split: option.splits if_splits proposal_type.splits prod.splits sum.splits)
  have later: "gp_ETA p \<le> t \<Longrightarrow> gp_ETA p \<le> t'" for p using 3(2) by simp
  from rkm.ExecuteProposal_effect [OF 3(1)] show ?thesis
  proof (elim disjE exE conjE)
    fix p
    assume p: "gc_proposals gc pid = Some p" "gp_ETA p \<le> t'" "\<not> gp_Executed p"
      and props: "gc_proposals gc' = (gc_proposals gc)(pid \<mapsto> p\<lparr>gp_Executed := True, gp_ExecutedTimestamp := t'\<rparr>)"
      and own: "gc_owner gc' = gc_owner gc"
      and kings: "kc_KingAddresses (km_config (gc_rotatingKingMgr gc')) =
        (if gp_Type p = ProposalUpdateRotatingKings then gp_NewRotatingKings p else kc_KingAddresses (km_config (gc_rotatingKingMgr gc)))"
    have "proposal_ok gc' q x" if "gc_proposals gc' q = Some x" for q x
      using that assms(2) p(1) own next' by (auto simp: props governed_def proposal_ok_def split: if_splits)
    moreover have "\<exists>x. gc_proposals gc' q = Some x \<and> gp_Type x = gp_Type y \<and> gp_ETA x = gp_ETA y \<and> gp_NewRotatingKings x = gp_NewRotatingKings y"
      if "gc_proposals gc q = Some y" for q y
      using that p(1) by (auto simp: props)
    moreover have "kc_KingAddresses (km_config (gc_rotatingKingMgr gc')) = initial
        \<or> (\<exists>q x. gc_proposals gc' q = Some x \<and> gp_Type x = ProposalUpdateRotatingKings \<and> gp_ETA x \<le> t'
              \<and> kc_KingAddresses (km_config (gc_rotatingKingMgr gc')) = gp_NewRotatingKings x)"
    proof (cases "gp_Type p = ProposalUpdateRotatingKings")
      case True
      obtain x where "gc_proposals gc' pid = Some x" "gp_Type x = gp_Type p" "gp_ETA x = gp_ETA p"
          "gp_NewRotatingKings x = gp_NewRotatingKings p"
        using calculation(2) [OF p(1)] by blast
      then show ?thesis using True p(2) kings by (intro disjI2 exI [of _ pid] exI [of _ x]) simp
    next
      case False
      then have same: "kc_KingAddresses (km_config (gc_rotatingKingMgr gc')) = kc_KingAddresses (km_config (gc_rotatingKingMgr gc))"
        using kings by simp
      from assms(2) consider "kc_KingAddresses (km_config (gc_rotatingKingMgr gc)) = initial"
        | q y where "gc_proposals gc q = Some y" "gp_Type y = ProposalUpdateRotatingKings" "gp_ETA y \<le> t"
          "kc_KingAddresses (km_config (gc_rotatingKingMgr gc)) = gp_NewRotatingKings y"
        unfolding governed_def by blast
      then show ?thesis
      proof cases
        case 1
        then show ?thesis using same by simp
      next
        case 2
        obtain x where "gc_proposals gc' q = Some x" "gp_Type x = gp_Type y" "gp_ETA x = gp_ETA y"
            "gp_NewRotatingKings x = gp_NewRotatingKings y"
          using calculation(2) [OF 2(1)] by blast
        then show ?thesis using 2(2,4) later [OF 2(3)] same by (intro disjI2 exI [of _ q] exI [of _ x]) simp
      qed
    qed
    ultimately show ?thesis using own unfolding governed_def by blast
  next
    assume same: "gc_proposals gc' = gc_proposals gc" "gc_owner gc' = gc_owner gc"
      "kc_KingAddresses (km_config (gc_rotatingKingMgr gc')) = kc_KingAddresses (km_config (gc_rotatingKingMgr gc))"
    have "governed initial gc t'" by (rule governed_later [OF assms(2) 3(2)])
    then show ?thesis unfolding governed_def proposal_ok_def by (auto simp only: same next')
  next
    fix p
    assume same: "gc_proposals gc' = gc_proposals gc" "gc_owner gc' = gc_owner gc"
      and p: "gc_proposals gc pid = Some p" "gp_ETA p \<le> t'" "gp_Type p = ProposalUpdateRotatingKings"
        "kc_KingAddresses (km_config (gc_rotatingKingMgr gc')) = gp_NewRotatingKings p"
    have "proposal_ok gc' q x" if "gc_proposals gc' q = Some x" for q x
      using that assms(2) by (simp add: same next' governed_def proposal_ok_def)
    moreover have "kc_KingAddresses (km_config (gc_rotatingKingMgr gc')) = initial
        \<or> (\<exists>q x. gc_proposals gc' q = Some x \<and> gp_Type x = ProposalUpdateRotatingKings \<and> gp_ETA x \<le> t'
              \<and> kc_KingAddresses (km_config (gc_rotatingKingMgr gc')) = gp_NewRotatingKings x)"
      using p same(1) by (intro disjI2 exI [of _ pid] exI [of _ p]) simp
    ultimately show ?thesis using same(2) unfolding governed_def by blast
  qed
qed

lemma gov_steps_governed:
  "gov_step\<^sup>*\<^sup>* s s' \<Longrightarrow> governed initial (fst s) (snd s) \<Longrightarrow>
    governed initial (fst s') (snd s') \<and> gc_owner (fst s') = gc_owner (fst s)"
proof (induction rule: rtranclp_induct)
  case (step s' s'')
  then show ?case using gov_step_governed [of "fst s'" "snd s'" "fst s''" "snd s''" initial] by simp
qed simp

lemma ETA_reached:
  assumes "gp_ETA p = gp_CreatedTimestamp p + GovernanceDelay" and "gp_ETA p \<le> t"
    and "unat (gp_CreatedTimestamp p) + 172800 < 2 ^ 64"
  shows "unat (gp_CreatedTimestamp p) + 172800 \<le> unat t"
proof -
  have "unat (gp_CreatedTimestamp p + GovernanceDelay) = unat (gp_CreatedTimestamp p) + 172800"
    using assms(3) by (simp add: unat_word_ariths GovernanceDelay_def)
  then show ?thesis using assms(1,2) by (simp add: word_le_nat_alt)
qed

section \<open>Properties\<close>

text \<open>
  From a new controller without proposal files, through any calls by anybody, any failures
  to write and any answers of the king manager, the list of kings is the one at the start or
  the one of a proposal that the owner made at least 48 hours before the present (for times
  whose sum with the delay fits 64 bits).
\<close>

theorem kings_change_only_after_the_delay:
  assumes "NewGovernanceController owner (Some mgr) (\<lambda>_. None) order = (Inr gc0 :: king_error gov_error + _)"
    and "gov_step\<^sup>*\<^sup>* (gc0, t0) (gc, t)"
  shows "kc_KingAddresses (km_config (gc_rotatingKingMgr gc)) = kc_KingAddresses (km_config mgr)
    \<or> (\<exists>pid p. gc_proposals gc pid = Some p \<and> gp_Executor p = owner \<and> gp_Type p = ProposalUpdateRotatingKings
          \<and> kc_KingAddresses (km_config (gc_rotatingKingMgr gc)) = gp_NewRotatingKings p
          \<and> (unat (gp_CreatedTimestamp p) + 172800 < 2 ^ 64 \<longrightarrow> unat (gp_CreatedTimestamp p) + 172800 \<le> unat t))"
proof -
  have none: "List.map_filter (\<lambda>_. None) order = []" by (induction order) (simp_all add: List.map_filter_simps)
  have gc0: "gc_proposals gc0 = (\<lambda>_. None)" "gc_rotatingKingMgr gc0 = mgr" "gc_owner gc0 = owner"
    using assms(1) by (auto simp: NewGovernanceController_def none Let_def split: if_splits)
  then have "governed (kc_KingAddresses (km_config mgr)) gc0 t0" by (simp add: governed_def)
  then have ok: "governed (kc_KingAddresses (km_config mgr)) gc t" "gc_owner gc = owner"
    using gov_steps_governed [OF assms(2)] gc0(3) by auto
  from ok(1) consider "kc_KingAddresses (km_config (gc_rotatingKingMgr gc)) = kc_KingAddresses (km_config mgr)"
    | pid p where "gc_proposals gc pid = Some p" "gp_Type p = ProposalUpdateRotatingKings" "gp_ETA p \<le> t"
      "kc_KingAddresses (km_config (gc_rotatingKingMgr gc)) = gp_NewRotatingKings p"
    unfolding governed_def by blast
  then show ?thesis
  proof cases
    case 2
    then have "gp_Executor p = owner" "gp_ETA p = gp_CreatedTimestamp p + GovernanceDelay"
      using ok by (auto simp: governed_def proposal_ok_def)
    then show ?thesis using 2 ETA_reached [of p t] by blast
  qed blast
qed

definition gov_demo :: "king_manager governance" where
  "gov_demo = \<lparr>gc_owner = 4, gc_proposals = \<lambda>_. None, gc_rotatingKingMgr = king_demo, gc_nextID = 1, gc_files = \<lambda>_. None\<rparr>"

definition gov_demo2 :: "king_manager governance" where
  "gov_demo2 = snd (ProposeRotatingKingsUpdate True gov_demo 4 [8, 9] 1000 :: (king_error gov_error + u64) \<times> _)"

definition gov_demo3 :: "king_manager governance" where
  "gov_demo3 = snd (ExecuteProposal (UpdateKingAddresses (\<lambda>_. True) False) True gov_demo2 1 99 173800)"

lemma gov_demo_new:
  "NewGovernanceController 4 (Some king_demo) (\<lambda>_. None) [] = (Inr gov_demo :: king_error gov_error + _)"
  by (simp add: NewGovernanceController_def gov_demo_def List.map_filter_simps zero_address_def)

lemma gov_demo2_proposal:
  "gc_proposals gov_demo2 1 = Some \<lparr>gp_ID = 1, gp_Type = ProposalUpdateRotatingKings, gp_Executor = 4, gp_Executed = False,
     gp_ETA = 173800, gp_NewMainKing = 0, gp_NewRotatingKings = [8, 9], gp_CreatedTimestamp = 1000, gp_ExecutedTimestamp = 0\<rparr>"
  "gc_rotatingKingMgr gov_demo2 = king_demo"
  by (simp_all add: gov_demo2_def gov_demo_def ProposeRotatingKingsUpdate_def propose_def saveProposal_def
      GovernanceDelay_def zero_address_def Let_def)

lemma gov_demo3_kings: "kc_KingAddresses (km_config (gc_rotatingKingMgr gov_demo3)) = [8, 9]"
  by (simp add: gov_demo3_def ExecuteProposal_def gov_demo2_proposal saveProposal_def UpdateKingAddresses_def
      saveConfig_def saveState_def set_kings_def clamp_index_def Let_def)

theorem kings_change_only_after_the_delay_witness:
  "kc_KingAddresses (km_config (gc_rotatingKingMgr gov_demo3)) \<noteq> kc_KingAddresses (km_config king_demo)
   \<and> (\<exists>pid p. gc_proposals gov_demo3 pid = Some p \<and> gp_Executor p = 4 \<and> gp_NewRotatingKings p = [8, 9])"
proof -
  have "gov_step (gov_demo, 1000) (gov_demo2, 1000)"
    by (rule gov_step.propose_kings [of True gov_demo 4 "[8, 9]" 1000 "fst (ProposeRotatingKingsUpdate True gov_demo 4 [8, 9] 1000)"])
      (simp_all add: gov_demo2_def, simp add: gov_demo_def)
  moreover have "gov_step (gov_demo2, 1000) (gov_demo3, 173800)"
    by (rule gov_step.execute [of "\<lambda>_. True" False True gov_demo2 1 99 173800
          "fst (ExecuteProposal (UpdateKingAddresses (\<lambda>_. True) False) True gov_demo2 1 99 173800)"])
      (simp_all add: gov_demo3_def)
  ultimately have run: "gov_step\<^sup>*\<^sup>* (gov_demo, 1000) (gov_demo3, 173800)"
    by (meson converse_rtranclp_into_rtranclp rtranclp.rtrancl_refl)
  have differ: "kc_KingAddresses (km_config (gc_rotatingKingMgr gov_demo3)) \<noteq> kc_KingAddresses (km_config king_demo)"
    by (simp add: gov_demo3_kings) (simp add: king_demo_def)
  then show ?thesis
    using kings_change_only_after_the_delay [OF gov_demo_new run] gov_demo3_kings
    by metis
qed

text \<open>
  A proposal for the rotating kings cannot be executed before its time; from then on anybody
  can execute it if the king manager accepts the list, which then is in force, and a second
  execution is refused. Executing a proposal for the main king succeeds and leaves the king
  manager and the owner as they were.
\<close>

theorem proposal_life_cycle:
  assumes "gc_proposals gc pid = Some p" and "\<not> gp_Executed p"
  shows "(now < gp_ETA p \<longrightarrow> ExecuteProposal (UpdateKingAddresses w b) saved gc pid caller now = (Inl Delay_Not_Passed, gc))
    \<and> (gp_ETA p \<le> now \<longrightarrow> gp_Type p = ProposalUpdateRotatingKings \<longrightarrow>
      fst (UpdateKingAddresses w b (gc_rotatingKingMgr gc) (gp_NewRotatingKings p)) = Inr () \<longrightarrow>
      (\<exists>gc'. ExecuteProposal (UpdateKingAddresses w b) saved gc pid caller now = (Inr (), gc')
         \<and> kc_KingAddresses (km_config (gc_rotatingKingMgr gc')) = gp_NewRotatingKings p
         \<and> ExecuteProposal (UpdateKingAddresses w b) saved gc' pid caller2 now2 = (Inl Proposal_Executed, gc')))
    \<and> (gp_ETA p \<le> now \<longrightarrow> gp_Type p = ProposalUpdateMainKing \<longrightarrow>
      (\<exists>gc'. ExecuteProposal (UpdateKingAddresses w b) saved gc pid caller now = (Inr (), gc')
         \<and> gc_rotatingKingMgr gc' = gc_rotatingKingMgr gc \<and> gc_owner gc' = gc_owner gc))"
proof (intro conjI)
  show "now < gp_ETA p \<longrightarrow> ExecuteProposal (UpdateKingAddresses w b) saved gc pid caller now = (Inl Delay_Not_Passed, gc)"
    using assms by (simp add: ExecuteProposal_def)
  show "gp_ETA p \<le> now \<longrightarrow> gp_Type p = ProposalUpdateMainKing \<longrightarrow>
      (\<exists>gc'. ExecuteProposal (UpdateKingAddresses w b) saved gc pid caller now = (Inr (), gc')
         \<and> gc_rotatingKingMgr gc' = gc_rotatingKingMgr gc \<and> gc_owner gc' = gc_owner gc)"
    using assms by (auto simp: ExecuteProposal_def saveProposal_def Let_def)
  show "gp_ETA p \<le> now \<longrightarrow> gp_Type p = ProposalUpdateRotatingKings \<longrightarrow>
      fst (UpdateKingAddresses w b (gc_rotatingKingMgr gc) (gp_NewRotatingKings p)) = Inr () \<longrightarrow>
      (\<exists>gc'. ExecuteProposal (UpdateKingAddresses w b) saved gc pid caller now = (Inr (), gc')
         \<and> kc_KingAddresses (km_config (gc_rotatingKingMgr gc')) = gp_NewRotatingKings p
         \<and> ExecuteProposal (UpdateKingAddresses w b) saved gc' pid caller2 now2 = (Inl Proposal_Executed, gc'))"
  proof (intro impI)
    assume due: "gp_ETA p \<le> now" "gp_Type p = ProposalUpdateRotatingKings"
      and accepted: "fst (UpdateKingAddresses w b (gc_rotatingKingMgr gc) (gp_NewRotatingKings p)) = Inr ()"
    then obtain mgr where mgr: "UpdateKingAddresses w b (gc_rotatingKingMgr gc) (gp_NewRotatingKings p) = (Inr (), mgr)"
      by (metis prod.collapse)
    define gc' where "gc' = snd (ExecuteProposal (UpdateKingAddresses w b) saved gc pid caller now)"
    have run: "ExecuteProposal (UpdateKingAddresses w b) saved gc pid caller now = (Inr (), gc')"
      using assms due mgr by (simp add: gc'_def ExecuteProposal_def Let_def not_less)
    have "gc_rotatingKingMgr gc' = mgr" "\<exists>q. gc_proposals gc' pid = Some q \<and> gp_Executed q"
      using assms due mgr by (auto simp: gc'_def ExecuteProposal_def saveProposal_def Let_def)
    then show "\<exists>gc'. ExecuteProposal (UpdateKingAddresses w b) saved gc pid caller now = (Inr (), gc')
         \<and> kc_KingAddresses (km_config (gc_rotatingKingMgr gc')) = gp_NewRotatingKings p
         \<and> ExecuteProposal (UpdateKingAddresses w b) saved gc' pid caller2 now2 = (Inl Proposal_Executed, gc')"
      using run rkm.update_sets [OF mgr] by (intro exI [of _ gc']) (auto simp: ExecuteProposal_def)
  qed
qed

theorem proposal_life_cycle_witness:
  "ExecuteProposal (UpdateKingAddresses (\<lambda>_. True) False) True gov_demo2 1 99 173799 = (Inl Delay_Not_Passed, gov_demo2)
   \<and> (\<exists>gc'. ExecuteProposal (UpdateKingAddresses (\<lambda>_. True) False) True gov_demo2 1 99 173800 = (Inr (), gc')
        \<and> ExecuteProposal (UpdateKingAddresses (\<lambda>_. True) False) True gc' 1 99 173801 = (Inl Proposal_Executed, gc'))"
proof -
  have "fst (UpdateKingAddresses (\<lambda>_. True) False king_demo [8, 9]) = Inr ()"
    by (simp add: UpdateKingAddresses_def saveConfig_def saveState_def)
  then show ?thesis
    using proposal_life_cycle [OF gov_demo2_proposal(1), of 173799 "\<lambda>_. True" False True 99 99 173801]
      proposal_life_cycle [OF gov_demo2_proposal(1), of 173800 "\<lambda>_. True" False True 99 99 173801]
    by (auto simp: gov_demo2_proposal(2))
qed

end
