(* ===== verification/Float_Rounding.thy ===== *)
theory Float_Rounding
  imports Prelude Complex_Main "HOL-Library.Log_Nat"
begin

text \<open>
  Binary floating point numbers, for the code that computes with \<open>float64\<close> and
  \<open>big.Float\<close>. A finite number is the rational it denotes; \<open>fl p x\<close> is \<open>x\<close> rounded to \<open>p\<close>
  significant bits, to nearest, ties to even. A \<open>float64\<close> operation is the exact one followed
  by \<open>fl 53\<close>: the numbers the difficulty code meets are far from overflow and underflow.
\<close>

section \<open>Rounding\<close>

definition round_even :: "rat \<Rightarrow> int" where
  "round_even x =
     (let q = \<lfloor>x\<rfloor>; r = x - of_int q
      in if r < 1 / 2 \<or> r = 1 / 2 \<and> even q then q else q + 1)"

definition ilog2 :: "rat \<Rightarrow> int" where
  "ilog2 x =
     (let (n, d) = quotient_of x; k = bitlen n - bitlen d
      in if 2 powi k \<le> x then k else k - 1)"

definition fl :: "nat \<Rightarrow> rat \<Rightarrow> rat" where
  "fl p x =
     (if x = 0 then 0
      else let e = ilog2 \<bar>x\<bar> - (int p - 1)
           in sgn x * of_int (round_even (\<bar>x\<bar> / 2 powi e)) * 2 powi e)"

text \<open>The numbers with at most \<open>p\<close> significant bits.\<close>

definition representable :: "nat \<Rightarrow> rat \<Rightarrow> bool" where
  "representable p y \<longleftrightarrow> (\<exists>m e. \<bar>m\<bar> \<le> 2 ^ p \<and> y = of_int m * 2 powi e)"

section \<open>Lemmas\<close>

lemma round_even_le: "x \<le> of_int n \<Longrightarrow> round_even x \<le> n"
proof -
  assume le: "x \<le> of_int n"
  then have "\<lfloor>x\<rfloor> \<le> n" by linarith
  moreover have "\<lfloor>x\<rfloor> < n" if "\<not> x - of_int \<lfloor>x\<rfloor> < 1 / 2"
  proof -
    have "of_int \<lfloor>x\<rfloor> < x" using that by linarith
    then show ?thesis using le by linarith
  qed
  ultimately show ?thesis by (auto simp: round_even_def Let_def)
qed

lemma round_even_ge: "of_int n \<le> x \<Longrightarrow> n \<le> round_even x"
proof -
  assume "of_int n \<le> x"
  then have "n \<le> \<lfloor>x\<rfloor>" by linarith
  then show ?thesis by (auto simp: round_even_def Let_def)
qed

lemma bitlen_powi:
  assumes "0 < n"
  shows "2 powi (bitlen n - 1) \<le> (of_int n :: rat)" and "(of_int n :: rat) < 2 powi (bitlen n)"
proof -
  have len: "0 < bitlen n" using assms bitlen_bounds [OF assms] by (cases "bitlen n \<le> 0") simp_all
  have b: "2 ^ nat (bitlen n - 1) \<le> n" "n < 2 ^ nat (bitlen n)" using bitlen_bounds [OF assms] by simp_all
  have "2 powi (bitlen n - 1) = (of_int (2 ^ nat (bitlen n - 1)) :: rat)"
    and "2 powi (bitlen n) = (of_int (2 ^ nat (bitlen n)) :: rat)"
    using len by (simp_all add: power_int_def)
  with b show "2 powi (bitlen n - 1) \<le> (of_int n :: rat)" and "(of_int n :: rat) < 2 powi (bitlen n)"
    by (simp_all only: of_int_le_iff of_int_less_iff)
qed

lemma ilog2_bounds:
  assumes "0 < x"
  shows "2 powi (ilog2 x) \<le> x" and "x < 2 powi (ilog2 x + 1)"
proof -
  obtain n d where q: "quotient_of x = (n, d)" by fastforce
  have d: "0 < d" using quotient_of_denom_pos [OF q] .
  have x: "x = of_int n / of_int d" using quotient_of_div [OF q] .
  have n: "0 < n" using assms d by (simp add: x zero_less_divide_iff)
  let ?k = "bitlen n - bitlen d"
  have "2 powi (?k - 1) * of_int d < (2 powi (?k - 1) * 2 powi (bitlen d) :: rat)"
    using bitlen_powi(2) [OF d] by simp
  also have "\<dots> = 2 powi (bitlen n - 1)" by (simp flip: power_int_add)
  also have "\<dots> \<le> of_int n" by (rule bitlen_powi(1) [OF n])
  finally have low: "2 powi (?k - 1) \<le> x" using d by (simp add: x le_divide_eq)
  have "of_int n < (2 powi (bitlen n) :: rat)" by (rule bitlen_powi(2) [OF n])
  also have "\<dots> = 2 powi (?k + 1) * 2 powi (bitlen d - 1)" by (simp flip: power_int_add)
  also have "\<dots> \<le> 2 powi (?k + 1) * of_int d"
    using bitlen_powi(1) [OF d] by (intro mult_left_mono) simp_all
  finally have up: "x < 2 powi (?k + 1)" using d by (simp add: x divide_less_eq)
  show "2 powi (ilog2 x) \<le> x" using low by (auto simp: ilog2_def q Let_def)
  show "x < 2 powi (ilog2 x + 1)" using up by (auto simp: ilog2_def q Let_def)
qed

lemma representable_multiple:
  assumes "representable p y" and "2 powi (int p - 1 + e) \<le> y" and "1 \<le> p"
  shows "\<exists>n. y = of_int n * 2 powi e"
proof -
  obtain m f where m: "\<bar>m\<bar> \<le> 2 ^ p" and y: "y = of_int m * 2 powi f"
    using assms(1) unfolding representable_def by blast
  have split: "2 powi f = of_int (2 ^ nat (f - e)) * (2 powi e :: rat)" if "e \<le> f"
  proof -
    have "(2 powi f :: rat) = 2 powi (f - e) * 2 powi e" by (simp flip: power_int_add)
    then show ?thesis using that by (simp add: power_int_def)
  qed
  show ?thesis
  proof (cases "e \<le> f")
    case True
    then show ?thesis using split by (intro exI [of _ "m * 2 ^ nat (f - e)"]) (simp add: y)
  next
    case False
    have "(of_int m :: rat) \<le> of_int (2 ^ p)" using m by (simp only: of_int_le_iff abs_le_iff)
    then have "y \<le> 2 ^ p * 2 powi f" unfolding y by (intro mult_right_mono) simp_all
    also have "\<dots> \<le> 2 ^ p * 2 powi (e - 1)" using False by (intro mult_left_mono power_int_increasing) simp_all
    also have "\<dots> = 2 powi (int p - 1 + e)"
    proof -
      have "(2 ^ p * 2 powi (e - 1) :: rat) = 2 powi (int p) * 2 powi (e - 1)" by simp
      also have "\<dots> = 2 powi (int p + (e - 1))" by (rule power_int_add [symmetric]) simp
      finally show ?thesis by (simp add: algebra_simps)
    qed
    finally have "y = 2 powi (int p - 1 + e)" using assms(2) by simp
    also have "\<dots> = 2 powi (int p - 1) * 2 powi e" by (simp flip: power_int_add)
    also have "2 powi (int p - 1) = (of_int (2 ^ (p - 1)) :: rat)"
      using assms(3) by (simp add: power_int_def nat_diff_distrib)
    finally show ?thesis by blast
  qed
qed

lemma fl_scaled:
  fixes p :: nat and x :: rat
  assumes "0 < x"
  defines "e \<equiv> ilog2 x - (int p - 1)"
  shows "fl p x = of_int (round_even (x / 2 powi e)) * 2 powi e" and "2 powi (int p - 1 + e) \<le> x"
  using assms ilog2_bounds [OF assms(1)] by (simp_all add: fl_def Let_def e_def)

lemma fl_le:
  assumes "0 < x" and "x \<le> y" and "representable p y" and "1 \<le> p"
  shows "fl p x \<le> y"
proof -
  define e where "e = ilog2 x - (int p - 1)"
  note s = fl_scaled [OF assms(1), of p, folded e_def]
  obtain n where n: "y = of_int n * 2 powi e"
    using representable_multiple [OF assms(3) _ assms(4), of e] s(2) assms(2) by fastforce
  have "x / 2 powi e \<le> of_int n" using assms(2) by (simp add: n divide_le_eq)
  then have "(of_int (round_even (x / 2 powi e)) :: rat) \<le> of_int n" by (simp add: round_even_le)
  then show ?thesis unfolding s(1) n by (intro mult_right_mono) simp_all
qed

lemma fl_ge:
  assumes "0 < x" and "y \<le> x" and "representable p y" and "1 \<le> p"
  shows "y \<le> fl p x"
proof -
  define e where "e = ilog2 x - (int p - 1)"
  note s = fl_scaled [OF assms(1), of p, folded e_def]
  have unit: "2 powi (int p - 1) = (of_int (2 ^ (p - 1)) :: rat)"
    using assms(4) by (simp add: power_int_def nat_diff_distrib)
  have pow: "2 powi (int p - 1 + e) = of_int (2 ^ (p - 1)) * (2 powi e :: rat)"
    unfolding unit [symmetric] by (rule power_int_add) simp
  obtain n where n: "y \<le> of_int n * 2 powi e" "of_int n * 2 powi e \<le> x"
  proof (cases "2 powi (int p - 1 + e) \<le> y")
    case True
    then obtain n where "y = of_int n * 2 powi e"
      using representable_multiple [OF assms(3) _ assms(4)] by blast
    then show ?thesis using that [of n] assms(2) by simp
  next
    case False
    then show ?thesis using that [of "2 ^ (p - 1)"] s(2) by (simp add: pow)
  qed
  have "of_int n \<le> x / 2 powi e" using n(2) by (simp add: le_divide_eq)
  then have "(of_int n :: rat) \<le> of_int (round_even (x / 2 powi e))" by (simp add: round_even_ge)
  then have "of_int n * 2 powi e \<le> (of_int (round_even (x / 2 powi e)) * 2 powi e :: rat)"
    by (intro mult_right_mono) simp_all
  then show ?thesis unfolding s(1) using n(1) by (rule order_trans [rotated])
qed

lemma fl_representable: "0 < x \<Longrightarrow> representable p x \<Longrightarrow> 1 \<le> p \<Longrightarrow> fl p x = x"
  by (rule antisym [OF fl_le fl_ge]) simp_all

lemma fl_0 [simp]: "fl p 0 = 0" by (simp add: fl_def)

lemma representable_int: "\<bar>m\<bar> \<le> 2 ^ p \<Longrightarrow> representable p (of_int m)"
  unfolding representable_def by (intro exI [of _ m] exI [of _ 0]) simp

lemma representable_scaled: "\<bar>m\<bar> \<le> 2 ^ p \<Longrightarrow> representable p (of_int m * 2 powi e)"
  unfolding representable_def by blast

lemma fl_pos: "0 < x \<Longrightarrow> 1 \<le> p \<Longrightarrow> 0 < fl p x"
proof -
  assume "0 < x" "1 \<le> p"
  then have "2 powi (ilog2 x) \<le> fl p x"
    using fl_ge [of x "2 powi (ilog2 x)" p] ilog2_bounds(1) [of x] representable_scaled [of 1 p "ilog2 x"] by simp
  then show ?thesis by (rule less_le_trans [rotated]) simp
qed

end
