(* ===== verification/Difficulty.thy ===== *)
theory Difficulty
  imports Float_Rounding Common_Types
begin

text \<open>
  The difficulty of the proof of work (\<open>difficulty/difficulty.go\<close>): retargeting from a window
  of timestamps, the suffix that makes the difficulty of each miner distinct, and the target.
  A \<open>*big.Int\<close> that may be nil is an \<open>int option\<close>, a \<open>float64\<close> or \<open>big.Float\<close> the rational it
  denotes, rounded after each operation as \<open>Float_Rounding\<close> says.
\<close>

section \<open>Constants\<close>

definition BlockTimeTarget :: u64 where "BlockTimeTarget = 150"
definition DGWWindow :: nat where "DGWWindow = 24"
definition LWMAWindow :: nat where "LWMAWindow = 60"
definition AdjustmentWindow :: nat where "AdjustmentWindow = LWMAWindow"
definition MinDifficulty :: int where "MinDifficulty = 1"
definition BaseDifficulty :: int where "BaseDifficulty = 131072"
definition MaxAdjustmentFactor :: rat where "MaxAdjustmentFactor = 4"
definition MinAdjustmentFactor :: rat where "MinAdjustmentFactor = 1 / 4"
definition MaxFutureBlockTime :: u64 where "MaxFutureBlockTime = 15 * 60"
definition MinerOffsetBits :: nat where "MinerOffsetBits = 20 * 8"
definition MaxDifficulty :: int where "MaxDifficulty = 2 ^ 256 - 1"
definition minerDomain :: int where "minerDomain = 2 ^ MinerOffsetBits + 1"

lemmas difficulty_consts = DGWWindow_def LWMAWindow_def MinDifficulty_def MaxDifficulty_def
  MaxAdjustmentFactor_def MinAdjustmentFactor_def MaxFutureBlockTime_def BlockTimeTarget_def

section \<open>Bounds and the suffix of the miner\<close>

definition Clamp :: "int option \<Rightarrow> int" where
  "Clamp value =
     (case value of
        None \<Rightarrow> MinDifficulty
      | Some v \<Rightarrow> if v < MinDifficulty then MinDifficulty else if v > MaxDifficulty then MaxDifficulty else v)"

definition Normalize :: "int option \<Rightarrow> int" where
  "Normalize value =
     (case value of
        None \<Rightarrow> MinDifficulty
      | Some v \<Rightarrow>
          if v \<le> 0 then MinDifficulty
          else Clamp (Some (if v \<ge> minerDomain then v div minerDomain else v)))"

definition ForMiner :: "int option \<Rightarrow> address \<Rightarrow> int" where
  "ForMiner baseDifficulty miner =
     (let base = Normalize baseDifficulty; minerOffset = int (be_value (Address_Bytes miner)) + 1
      in base * minerDomain + minerOffset)"

definition Target :: "int option \<Rightarrow> int" where
  "Target value = 2 ^ 256 div Normalize value"

definition Display :: "int option \<Rightarrow> string" where
  "Display value =
     (case value of None \<Rightarrow> ''0'' | Some v \<Rightarrow> if v \<le> 0 then ''0'' else dec_int v)"

section \<open>Block times\<close>

definition ElapsedBlockTime :: "u64 \<Rightarrow> u64 \<Rightarrow> u64" where
  "ElapsedBlockTime parentTime currentTime = (if currentTime \<le> parentTime then 1 else currentTime - parentTime)"

text \<open>The body of the loops over a window: the time of one block, within bounds.\<close>

definition bounded_time :: "u64 \<Rightarrow> u64 \<Rightarrow> u64" where
  "bounded_time a b =
     (let diff = ElapsedBlockTime a b;
          diff = (if diff > MaxFutureBlockTime then MaxFutureBlockTime else diff)
      in if diff < 1 then 1 else diff)"

fun time_loop :: "u64 \<Rightarrow> u64 list \<Rightarrow> u64" where
  "time_loop totalTime (a # b # ts) = time_loop (totalTime + bounded_time a b) (b # ts)"
| "time_loop totalTime _ = totalTime"

text \<open>\<open>window[len(window)-n:]\<close>, for a longer window.\<close>

definition last_n :: "nat \<Rightarrow> 'a list \<Rightarrow> 'a list" where
  "last_n n xs = (if length xs > n then drop (length xs - n) xs else xs)"

fun deltas_loop :: "u64 \<Rightarrow> u64 list \<Rightarrow> u64 list" where
  "deltas_loop elapsed [] = []"
| "deltas_loop elapsed (b # bs) =
     (let elapsed' = elapsed + (if b = 0 then 1 else b) in elapsed' # deltas_loop elapsed' bs)"

definition timestampsFromDeltas :: "u64 list \<Rightarrow> u64 list" where
  "timestampsFromDeltas blockTimes = 0 # deltas_loop 0 blockTimes"

section \<open>Retargeting\<close>

definition float64_of :: "u64 \<Rightarrow> rat" where
  "float64_of w = fl 53 (of_nat (unat w))"

text \<open>\<open>float64(total) / float64(n)\<close>\<close>

definition average_time :: "u64 \<Rightarrow> nat \<Rightarrow> rat" where
  "average_time totalTime n = fl 53 (float64_of totalTime / fl 53 (of_nat n))"

definition bounded_ratio :: "rat \<Rightarrow> rat" where
  "bounded_ratio avgTime =
     (let ratio = fl 53 (float64_of BlockTimeTarget / avgTime);
          ratio = (if ratio > MaxAdjustmentFactor then MaxAdjustmentFactor else ratio)
      in if ratio < MinAdjustmentFactor then MinAdjustmentFactor else ratio)"

text \<open>\<open>SetInt\<close> keeps all bits of the difficulty, at least 64; \<open>Mul\<close> rounds to that precision;
  \<open>Int\<close> truncates.\<close>

definition big_prec :: "int \<Rightarrow> nat" where
  "big_prec d = max 64 (nat (bitlen d))"

definition big_trunc :: "rat \<Rightarrow> int" where
  "big_trunc x = (if x < 0 then - \<lfloor>- x\<rfloor> else \<lfloor>x\<rfloor>)"

definition scale_difficulty :: "int \<Rightarrow> rat \<Rightarrow> int" where
  "scale_difficulty currentDiff factor = big_trunc (fl (big_prec currentDiff) (of_int currentDiff * factor))"

definition applyDigiShield :: "int \<Rightarrow> int \<Rightarrow> rat \<Rightarrow> int" where
  "applyDigiShield newDiff oldDiff ratio =
     (if ratio > MaxAdjustmentFactor \<and> newDiff > oldDiff * 4 then oldDiff * 4
      else if ratio < MinAdjustmentFactor \<and> newDiff < oldDiff div 4 then oldDiff div 4
      else newDiff)"

definition ensureDifficultyChanges :: "int \<Rightarrow> int \<Rightarrow> rat \<Rightarrow> int" where
  "ensureDifficultyChanges current adjusted avgTime =
     (if adjusted \<noteq> current then adjusted
      else if avgTime \<le> float64_of BlockTimeTarget \<and> current > MinDifficulty
      then (if current < MaxDifficulty then Clamp (Some (current + 1)) else current)
      else if avgTime > float64_of BlockTimeTarget \<and> current > MinDifficulty then current - 1
      else adjusted)"

definition CalculateSimpleAverage :: "int option \<Rightarrow> u64 list \<Rightarrow> int" where
  "CalculateSimpleAverage prevDifficulty timestamps =
     (if length timestamps < 2 then Clamp prevDifficulty
      else
        let avgTime = average_time (time_loop 0 timestamps) (length timestamps - 1);
            ratio = bounded_ratio avgTime;
            currentDiff = Normalize prevDifficulty;
            result = scale_difficulty currentDiff ratio
        in ensureDifficultyChanges currentDiff (Clamp (Some result)) avgTime)"

fun weighted_loop :: "nat \<Rightarrow> rat \<Rightarrow> rat \<Rightarrow> u64 list \<Rightarrow> rat \<times> rat" where
  "weighted_loop i weightedSum weightSum (a # b # ts) =
     weighted_loop (i + 1)
       (fl 53 (weightedSum + fl 53 (float64_of (bounded_time a b) * fl 53 (of_nat i))))
       (fl 53 (weightSum + fl 53 (of_nat i))) (b # ts)"
| "weighted_loop i weightedSum weightSum _ = (weightedSum, weightSum)"

definition CalculateLWMA :: "int option \<Rightarrow> u64 list \<Rightarrow> int" where
  "CalculateLWMA prevDifficulty timestamps =
     (if length timestamps < LWMAWindow then CalculateSimpleAverage prevDifficulty timestamps
      else
        let (weightedSum, weightSum) = weighted_loop 1 0 0 (last_n LWMAWindow timestamps);
            avgTime = fl 53 (weightedSum / weightSum);
            ratio = bounded_ratio avgTime;
            currentDiff = Normalize prevDifficulty;
            result = scale_difficulty currentDiff ratio
        in ensureDifficultyChanges currentDiff (Clamp (Some result)) avgTime)"

definition CalculateDarkGravityWave :: "int option \<Rightarrow> u64 list \<Rightarrow> int" where
  "CalculateDarkGravityWave prevDifficulty timestamps =
     (if length timestamps < DGWWindow then Clamp prevDifficulty
      else
        let window = last_n DGWWindow timestamps;
            avgTime = average_time (time_loop 0 window) (length window - 1);
            ratio = bounded_ratio avgTime;
            currentDiff = Normalize prevDifficulty;
            result = applyDigiShield (scale_difficulty currentDiff ratio) currentDiff ratio
        in ensureDifficultyChanges currentDiff (Clamp (Some result)) avgTime)"

definition CalculateDifficulty :: "int option \<Rightarrow> u64 \<Rightarrow> u64 list \<Rightarrow> int" where
  "CalculateDifficulty prevDifficulty height timestamps =
     (if height = 0 then BaseDifficulty
      else if unat height \<ge> DGWWindow then CalculateDarkGravityWave prevDifficulty timestamps
      else CalculateLWMA prevDifficulty timestamps)"

definition CalculateDifficultyFromDeltas :: "int option \<Rightarrow> u64 \<Rightarrow> u64 list \<Rightarrow> int" where
  "CalculateDifficultyFromDeltas baseDifficulty height blockTimes =
     (if height = 0 then BaseDifficulty
      else CalculateDifficulty baseDifficulty height (timestampsFromDeltas blockTimes))"

definition FromWindow :: "int option \<Rightarrow> u64 \<Rightarrow> u64 list \<Rightarrow> int" where
  "FromWindow baseDifficulty height blockTimes = CalculateDifficultyFromDeltas baseDifficulty height blockTimes"

text \<open>The ratio that \<open>CalculateASERT\<close> bounds at its end is not used.\<close>

definition CalculateASERT :: "int option \<Rightarrow> u64 list \<Rightarrow> rat \<Rightarrow> int" where
  "CalculateASERT prevDifficulty timestamps targetInterval =
     (if length timestamps < 2 then Clamp prevDifficulty
      else
        let elapsed = float64_of (ElapsedBlockTime (hd timestamps) (last timestamps));
            timeElapsed = (if elapsed < 1 then 1 else elapsed);
            expectedElapsed = fl 53 (fl 53 (of_nat (length timestamps - 1)) * targetInterval);
            exponent = fl 53 (fl 53 (timeElapsed - expectedElapsed) / (24 * 3600));
            multiplier =
              (if exponent > 0 then fl 53 (1 + fl 53 (exponent / 10))
               else if exponent < 0 then fl 53 (1 - fl 53 (- exponent / 10)) else 1);
            currentDiff = Normalize prevDifficulty
        in Clamp (Some (scale_difficulty currentDiff multiplier)))"

fun deviation_loop :: "rat \<Rightarrow> u64 list \<Rightarrow> rat" where
  "deviation_loop totalDeviation (a # b # ts) =
     (let blockTime = float64_of (ElapsedBlockTime a b);
          blockTime = (if blockTime < 1 then 1 else blockTime);
          blockTime = (if blockTime > float64_of MaxFutureBlockTime then float64_of MaxFutureBlockTime else blockTime);
          deviation = fl 53 (fl 53 (blockTime - float64_of BlockTimeTarget) / float64_of BlockTimeTarget)
      in deviation_loop (fl 53 (totalDeviation + fl 53 (deviation * deviation))) (b # ts))"
| "deviation_loop totalDeviation _ = totalDeviation"

definition KimotoGravityWell :: "u64 list \<Rightarrow> rat" where
  "KimotoGravityWell timestamps =
     (if length timestamps < 12 then 1
      else
        let window = drop (length timestamps - 12) timestamps;
            avgDeviation = fl 53 (deviation_loop 0 window / fl 53 (of_nat (length window - 1)))
        in fl 53 (1 + avgDeviation))"

definition GetDifficultyAlgorithm :: "u64 \<Rightarrow> string" where
  "GetDifficultyAlgorithm height =
     (if unat height \<ge> DGWWindow then ''Dark Gravity Wave v3'' else ''LWMA (Linear Weighted Moving Average)'')"

section \<open>Bounds\<close>

lemma Clamp_range: "1 \<le> Clamp v" "Clamp v \<le> MaxDifficulty"
  by (auto simp: Clamp_def MinDifficulty_def MaxDifficulty_def split: option.splits)

lemma Clamp_within: "1 \<le> v \<Longrightarrow> v \<le> MaxDifficulty \<Longrightarrow> Clamp (Some v) = v"
  by (simp add: Clamp_def MinDifficulty_def)

lemma Clamp_mono: "v \<le> w \<Longrightarrow> Clamp (Some v) \<le> Clamp (Some w)"
  by (auto simp: Clamp_def MinDifficulty_def MaxDifficulty_def)

lemma Normalize_range: "1 \<le> Normalize v" "Normalize v \<le> MaxDifficulty"
  using Clamp_range by (auto simp: Normalize_def MinDifficulty_def MaxDifficulty_def split: option.splits)

lemma miner_offset: "int (be_value (Address_Bytes m)) + 1 < minerDomain"
proof -
  have "be_value (Address_Bytes m) < 256 ^ 20" using be_value_less [of "Address_Bytes m"] by simp
  then have "int (be_value (Address_Bytes m)) < int (256 ^ 20)" by (simp only: of_nat_less_iff)
  also have "int (256 ^ 20) = 2 ^ MinerOffsetBits" by (simp add: MinerOffsetBits_def)
  finally show ?thesis unfolding minerDomain_def by linarith
qed

lemma ForMiner_divmod:
  "ForMiner b m div minerDomain = Normalize b"
  "ForMiner b m mod minerDomain = int (be_value (Address_Bytes m)) + 1"
proof -
  have pos: "0 < minerDomain" by (simp add: minerDomain_def)
  have "ForMiner b m = (int (be_value (Address_Bytes m)) + 1) + minerDomain * Normalize b"
    by (simp add: ForMiner_def Let_def algebra_simps)
  then show "ForMiner b m div minerDomain = Normalize b"
    and "ForMiner b m mod minerDomain = int (be_value (Address_Bytes m)) + 1"
    using miner_offset [of m] pos by (simp_all add: div_mult_self2 div_pos_pos_trivial mod_pos_pos_trivial)
qed

lemma big_prec: "1 \<le> d \<Longrightarrow> \<bar>d\<bar> \<le> 2 ^ big_prec d" "1 \<le> big_prec d"
proof -
  assume d: "1 \<le> d"
  have "d < 2 ^ nat (bitlen d)" using bitlen_bounds [of d] d by simp
  also have "(2::int) ^ nat (bitlen d) \<le> 2 ^ big_prec d" by (intro power_increasing) (simp_all add: big_prec_def)
  finally show "\<bar>d\<bar> \<le> 2 ^ big_prec d" using d by simp
qed (simp add: big_prec_def)


lemma scale_difficulty_bounds:
  assumes "1 \<le> d" and "0 < r"
  shows "r \<le> 4 \<Longrightarrow> scale_difficulty d r \<le> 4 * d" and "r \<le> 1 \<Longrightarrow> scale_difficulty d r \<le> d"
    and "1 \<le> r \<Longrightarrow> d \<le> scale_difficulty d r" and "1 / 4 \<le> r \<Longrightarrow> d div 4 \<le> scale_difficulty d r"
proof -
  note prec = big_prec(1) [OF assms(1)] big_prec(2) [of d]
  have x: "0 < of_int d * r" using assms by simp
  have trunc: "big_trunc (fl (big_prec d) (of_int d * r)) = \<lfloor>fl (big_prec d) (of_int d * r)\<rfloor>"
    using fl_pos [OF x prec(2)] by (simp add: big_trunc_def)
  have rep: "representable (big_prec d) (of_int d * 2 powi e)" for e by (rule representable_scaled [OF prec(1)])
  have up: "fl (big_prec d) (of_int d * r) \<le> of_int d * 2 powi e" if "r \<le> 2 powi e" for e
    using assms(1) that by (intro fl_le [OF x _ rep prec(2)] mult_left_mono) simp_all
  have low: "of_int d * 2 powi e \<le> fl (big_prec d) (of_int d * r)" if "2 powi e \<le> r" for e
    using assms(1) that by (intro fl_ge [OF x _ rep prec(2)] mult_left_mono) simp_all
  show "scale_difficulty d r \<le> 4 * d" if "r \<le> 4"
    using up [of 2] that unfolding scale_difficulty_def trunc by (simp add: floor_le_iff)
  show "scale_difficulty d r \<le> d" if "r \<le> 1"
    using up [of 0] that unfolding scale_difficulty_def trunc by (simp add: floor_le_iff)
  show "d \<le> scale_difficulty d r" if "1 \<le> r"
    using low [of 0] that unfolding scale_difficulty_def trunc by (simp add: le_floor_iff)
  show "d div 4 \<le> scale_difficulty d r" if "1 / 4 \<le> r"
  proof -
    have "4 * (d div 4) \<le> d" by simp
    then have "(of_int (4 * (d div 4)) :: rat) \<le> of_int d" by (simp only: of_int_le_iff)
    moreover have "of_int d * (1 / 4) \<le> fl (big_prec d) (of_int d * r)"
      using low [of "- 2"] that by (simp add: power_int_minus)
    ultimately show ?thesis unfolding scale_difficulty_def trunc by (simp add: le_floor_iff)
  qed
qed

section \<open>The window\<close>

text \<open>The time a window spans, each block counted between one second and fifteen minutes.\<close>

definition block_time :: "u64 \<Rightarrow> u64 \<Rightarrow> nat" where
  "block_time a b = max 1 (min 900 (unat b - unat a))"

definition window_time :: "u64 list \<Rightarrow> nat" where
  "window_time ts = sum_list (map2 block_time (butlast ts) (tl ts))"

lemma unat_bounded_time: "unat (bounded_time a b) = block_time a b"
proof -
  have sub: "unat (b - a) = unat b - unat a" if "a < b" using that by (simp add: unat_sub)
  show ?thesis
  proof (cases "b \<le> a")
    case True
    then show ?thesis by (simp add: bounded_time_def ElapsedBlockTime_def block_time_def MaxFutureBlockTime_def word_le_nat_alt)
  next
    case False
    then have ab: "a < b" by simp
    then have pos: "\<not> b - a < 1" by (simp add: word_less_nat_alt sub [OF ab])
    have cut: "(900 < b - a) = (900 < unat b - unat a)" using ab by (simp add: word_less_nat_alt sub)
    show ?thesis using False ab pos sub [OF ab]
      by (auto simp: bounded_time_def ElapsedBlockTime_def block_time_def MaxFutureBlockTime_def Let_def cut word_less_nat_alt)
  qed
qed

lemma block_time_bounds: "1 \<le> block_time a b" "block_time a b \<le> 900"
  by (simp_all add: block_time_def)

lemma window_time_Cons: "window_time (a # b # ts) = block_time a b + window_time (b # ts)"
  by (simp add: window_time_def)

lemma window_time_bounds: "length ts - 1 \<le> window_time ts" "window_time ts \<le> 900 * (length ts - 1)"
proof (induction ts rule: induct_list012)
  case (3 a b ts)
  { case 1 show ?case using "3.IH"(3) block_time_bounds [of a b] by (simp add: window_time_Cons) }
  { case 2 show ?case using "3.IH"(4) block_time_bounds [of a b] by (simp add: window_time_Cons) }
qed (simp_all add: window_time_def)

lemma unat_time_loop:
  "unat acc + window_time ts < 2 ^ 64 \<Longrightarrow> unat (time_loop acc ts) = unat acc + window_time ts"
proof (induction acc ts rule: time_loop.induct)
  case (1 acc a b ts)
  have "unat (acc + bounded_time a b) = unat acc + block_time a b"
    using "1.prems" by (simp add: unat_word_ariths unat_bounded_time window_time_Cons)
  then show ?case using 1 by (simp add: window_time_Cons)
qed (simp_all add: window_time_def)

lemma float_of_small: "n \<le> 2 ^ 53 \<Longrightarrow> fl 53 (of_nat n) = of_nat n"
proof (cases "n = 0")
  case False
  assume "n \<le> 2 ^ 53"
  then have "int n \<le> int (2 ^ 53)" by (simp only: of_nat_le_iff)
  then have "\<bar>int n\<bar> \<le> 2 ^ 53" by simp
  then have "representable 53 (of_int (int n))" by (rule representable_int)
  then show ?thesis using False by (intro fl_representable) simp_all
qed simp

lemma float_target: "float64_of BlockTimeTarget = 150"
  using float_of_small [of 150] by (simp add: float64_of_def BlockTimeTarget_def)

lemma average_time_exact:
  assumes "window_time ts \<le> 2 ^ 53" and "n \<le> 2 ^ 53"
  shows "average_time (time_loop 0 ts) n = fl 53 (of_nat (window_time ts) / of_nat n)"
proof -
  have "unat (time_loop 0 ts) = window_time ts" using unat_time_loop [of 0 ts] assms(1) by simp
  then show ?thesis
    using float_of_small [OF assms(1)] float_of_small [OF assms(2)] by (simp add: average_time_def float64_of_def)
qed

lemma bounded_ratio_range: "1 / 4 \<le> bounded_ratio a" "bounded_ratio a \<le> 4" "0 < bounded_ratio a"
proof -
  show "1 / 4 \<le> bounded_ratio a" "bounded_ratio a \<le> 4"
    by (simp_all add: bounded_ratio_def Let_def MaxAdjustmentFactor_def MinAdjustmentFactor_def)
  then show "0 < bounded_ratio a" by linarith
qed

lemma bounded_ratio_sides:
  assumes "0 < a"
  shows "a \<le> 150 \<Longrightarrow> 1 \<le> bounded_ratio a" and "150 \<le> a \<Longrightarrow> bounded_ratio a \<le> 1"
proof -
  have one: "representable 53 1" using representable_int [of 1 53] by simp
  show "1 \<le> bounded_ratio a" if "a \<le> 150"
  proof -
    have "1 \<le> fl 53 (150 / a)" using assms that by (intro fl_ge one) (simp_all add: le_divide_eq)
    then show ?thesis by (simp add: bounded_ratio_def Let_def float_target MaxAdjustmentFactor_def MinAdjustmentFactor_def)
  qed
  show "bounded_ratio a \<le> 1" if "150 \<le> a"
  proof -
    have "fl 53 (150 / a) \<le> 1" using assms that by (intro fl_le one) (simp_all add: divide_le_eq)
    then show ?thesis by (simp add: bounded_ratio_def Let_def float_target MaxAdjustmentFactor_def MinAdjustmentFactor_def)
  qed
qed

lemma last_n_length: "n \<le> length xs \<Longrightarrow> length (last_n n xs) = n"
  by (simp add: last_n_def)

lemma ensure_range:
  assumes "1 \<le> d" and "d \<le> MaxDifficulty" and "lo \<le> d" and "lo \<le> a" and "a \<le> hi" and "1 \<le> a" and "a \<le> MaxDifficulty"
    and "d < MaxDifficulty \<Longrightarrow> d + 1 \<le> hi" and "1 < d \<Longrightarrow> lo \<le> d - 1"
  shows "lo \<le> ensureDifficultyChanges d a v \<and> ensureDifficultyChanges d a v \<le> hi
    \<and> 1 \<le> ensureDifficultyChanges d a v \<and> ensureDifficultyChanges d a v \<le> MaxDifficulty"
  using assms by (auto simp: ensureDifficultyChanges_def MinDifficulty_def Clamp_within)

text \<open>One step of any of the three algorithms.\<close>

lemma step_range:
  fixes prev :: "int option" and a v :: rat
  defines "d \<equiv> Normalize prev"
  defines "D \<equiv> ensureDifficultyChanges d (Clamp (Some (scale_difficulty d (bounded_ratio a)))) v"
  shows "d div 4 \<le> D" and "D \<le> 4 * d" and "1 \<le> D" and "D \<le> MaxDifficulty"
proof -
  have d: "1 \<le> d" "d \<le> MaxDifficulty" unfolding d_def by (rule Normalize_range)+
  have s: "d div 4 \<le> scale_difficulty d (bounded_ratio a)" "scale_difficulty d (bounded_ratio a) \<le> 4 * d"
    using scale_difficulty_bounds [OF d(1) bounded_ratio_range(3)] bounded_ratio_range by blast+
  have "d div 4 \<le> Clamp (Some (scale_difficulty d (bounded_ratio a)))"
    using s d by (auto simp: Clamp_def MinDifficulty_def)
  moreover have "Clamp (Some (scale_difficulty d (bounded_ratio a))) \<le> 4 * d"
    using s d by (auto simp: Clamp_def MinDifficulty_def)
  ultimately have "d div 4 \<le> D \<and> D \<le> 4 * d \<and> 1 \<le> D \<and> D \<le> MaxDifficulty"
    unfolding D_def using d by (intro ensure_range Clamp_range) auto
  then show "d div 4 \<le> D" and "D \<le> 4 * d" and "1 \<le> D" and "D \<le> MaxDifficulty" by simp_all
qed

lemma digishield_idle: "applyDigiShield n d (bounded_ratio a) = n"
  using bounded_ratio_range [of a] by (auto simp: applyDigiShield_def MaxAdjustmentFactor_def MinAdjustmentFactor_def)

lemma DGW_step:
  assumes "DGWWindow \<le> length ts"
  shows "CalculateDarkGravityWave prev ts =
    ensureDifficultyChanges (Normalize prev)
      (Clamp (Some (scale_difficulty (Normalize prev)
        (bounded_ratio (fl 53 (of_nat (window_time (last_n DGWWindow ts)) / 23))))))
      (fl 53 (of_nat (window_time (last_n DGWWindow ts)) / 23))"
proof -
  have len: "length (last_n DGWWindow ts) = 24" using assms last_n_length [of DGWWindow ts] by (simp add: DGWWindow_def)
  have "window_time (last_n DGWWindow ts) \<le> 2 ^ 53" using window_time_bounds(2) [of "last_n DGWWindow ts"] len by simp
  then have avg: "average_time (time_loop 0 (last_n DGWWindow ts)) (length (last_n DGWWindow ts) - 1) =
      fl 53 (of_nat (window_time (last_n DGWWindow ts)) / 23)"
    using average_time_exact [of "last_n DGWWindow ts" 23] len by simp
  show ?thesis using assms unfolding CalculateDarkGravityWave_def Let_def avg digishield_idle by simp
qed

lemma retarget_range:
  assumes "height \<noteq> 0" and "2 \<le> length ts" and "24 \<le> unat height \<Longrightarrow> 24 \<le> length ts"
  shows "\<exists>a v. CalculateDifficulty prev height ts =
    ensureDifficultyChanges (Normalize prev) (Clamp (Some (scale_difficulty (Normalize prev) (bounded_ratio a)))) v"
proof (cases "24 \<le> unat height")
  case True
  then show ?thesis
    using assms(1,3) DGW_step [of ts prev] by (simp add: CalculateDifficulty_def DGWWindow_def) blast
next
  case False
  have simple: "\<exists>a v. CalculateSimpleAverage prev ts =
      ensureDifficultyChanges (Normalize prev) (Clamp (Some (scale_difficulty (Normalize prev) (bounded_ratio a)))) v"
    using assms(2) by (simp add: CalculateSimpleAverage_def Let_def) blast
  have "\<exists>a v. CalculateLWMA prev ts =
      ensureDifficultyChanges (Normalize prev) (Clamp (Some (scale_difficulty (Normalize prev) (bounded_ratio a)))) v"
  proof (cases "length ts < LWMAWindow")
    case True
    then show ?thesis using simple by (simp add: CalculateLWMA_def)
  next
    case False
    then show ?thesis by (simp add: CalculateLWMA_def Let_def case_prod_beta) blast
  qed
  then show ?thesis using False assms(1) by (simp add: CalculateDifficulty_def DGWWindow_def)
qed

lemma difficulty_in_range: "1 \<le> CalculateDifficulty prev height ts \<and> CalculateDifficulty prev height ts \<le> MaxDifficulty"
proof (cases "height \<noteq> 0 \<and> 2 \<le> length ts \<and> (24 \<le> unat height \<longrightarrow> 24 \<le> length ts)")
  case True
  then show ?thesis using retarget_range [of height ts prev] step_range(3,4) [of prev] by fastforce
next
  case False
  then consider "height = 0" | "height \<noteq> 0" "24 \<le> unat height" "length ts < 24"
    | "height \<noteq> 0" "\<not> 24 \<le> unat height" "length ts < 2" by fastforce
  then show ?thesis
  proof cases
    case 1
    then show ?thesis by (simp add: CalculateDifficulty_def BaseDifficulty_def MaxDifficulty_def)
  next
    case 2
    then show ?thesis by (simp add: CalculateDifficulty_def CalculateDarkGravityWave_def DGWWindow_def Clamp_range)
  next
    case 3
    then show ?thesis
      by (simp add: CalculateDifficulty_def CalculateLWMA_def CalculateSimpleAverage_def DGWWindow_def LWMAWindow_def Clamp_range)
  qed
qed

lemma retarget_bounds:
  assumes "height \<noteq> 0" and "2 \<le> length ts" and "24 \<le> unat height \<longrightarrow> 24 \<le> length ts"
  shows "Normalize prev div 4 \<le> CalculateDifficulty prev height ts"
    and "CalculateDifficulty prev height ts \<le> 4 * Normalize prev"
  using retarget_range [of height ts prev] step_range(1,2) [of prev] assms by fastforce+

lemma Normalize_ForMiner: "Normalize (Some (ForMiner base miner)) = Normalize base"
proof -
  have "1 * minerDomain \<le> Normalize base * minerDomain"
    by (intro mult_right_mono Normalize_range(1)) (simp add: minerDomain_def)
  then have big: "minerDomain \<le> ForMiner base miner" by (simp add: ForMiner_def Let_def)
  have "0 < ForMiner base miner" by (rule less_le_trans [OF _ big]) (simp add: minerDomain_def)
  then have "Normalize (Some (ForMiner base miner)) = Clamp (Some (Normalize base))"
    using big by (subst Normalize_def) (simp add: ForMiner_divmod(1))
  then show ?thesis by (simp add: Clamp_within Normalize_range)
qed

section \<open>Properties\<close>

text \<open>
  C16: the difficulty lies between 1 and \<open>2^256 - 1\<close>, in all cases of its computation. At height zero it is
  the base difficulty. With too few timestamps (less than two, or less than 24 from height 24 on) it is
  the previous one, brought into the bounds. Otherwise it is within the factor four, in either direction,
  of the previous one after normalisation, which takes the miner's suffix off.
\<close>

theorem retarget_is_bounded:
  "1 \<le> CalculateDifficulty prev height ts \<and> CalculateDifficulty prev height ts \<le> 2 ^ 256 - 1
   \<and> (height = 0 \<longrightarrow> CalculateDifficulty prev height ts = BaseDifficulty)
   \<and> (height \<noteq> 0 \<and> length ts < (if 24 \<le> unat height then 24 else 2) \<longrightarrow> CalculateDifficulty prev height ts = Clamp prev)
   \<and> (height \<noteq> 0 \<and> 2 \<le> length ts \<and> (24 \<le> unat height \<longrightarrow> 24 \<le> length ts) \<longrightarrow>
        Normalize prev div 4 \<le> CalculateDifficulty prev height ts
        \<and> CalculateDifficulty prev height ts \<le> 4 * Normalize prev)"
  using difficulty_in_range [of prev height ts] retarget_bounds [of height ts prev]
  by (auto simp: MaxDifficulty_def CalculateDifficulty_def CalculateDarkGravityWave_def CalculateLWMA_def CalculateSimpleAverage_def
      DGWWindow_def LWMAWindow_def split: if_splits)

theorem retarget_is_bounded_witness:
  "25 \<le> CalculateDifficulty (Some 100) 5 [1000, 1010] \<and> CalculateDifficulty (Some 100) 5 [1000, 1010] \<le> 400"
  using retarget_is_bounded [of "Some 100" 5 "[1000, 1010]"]
  by (simp add: Normalize_def Clamp_def MinDifficulty_def MaxDifficulty_def minerDomain_def MinerOffsetBits_def)

text \<open>
  With 24 timestamps and a difficulty strictly between the bounds, Dark Gravity Wave raises
  the difficulty if the 23 blocks took at most 150 seconds each on average, and lowers it
  otherwise: it never stays. At difficulty one it stays unless the blocks took less than half of
  that time.
\<close>

theorem gravity_wave_follows_the_pace:
  fixes prev :: "int option"
  assumes "24 \<le> length ts" and "24 \<le> unat height"
  defines "d \<equiv> Normalize prev" and "D \<equiv> CalculateDifficulty prev height ts"
    and "secs \<equiv> window_time (last_n 24 ts)"
  shows "(secs \<le> 23 * 150 \<and> 1 < d \<and> d < 2 ^ 256 - 1 \<longrightarrow> d < D)
    \<and> (23 * 150 < secs \<and> 1 < d \<longrightarrow> D < d)
    \<and> (23 * 75 < secs \<and> d = 1 \<longrightarrow> D = 1)"
proof (intro conjI impI)
  define a where "a = fl 53 (rat_of_nat secs / 23)"
  have D: "D = ensureDifficultyChanges d (Clamp (Some (scale_difficulty d (bounded_ratio a)))) a"
    using assms(1,2) DGW_step [of ts prev]
    by (cases "height = 0") (simp_all add: D_def d_def a_def secs_def CalculateDifficulty_def DGWWindow_def)
  have d: "1 \<le> d" "d \<le> MaxDifficulty" unfolding d_def by (rule Normalize_range)+
  note scaled = scale_difficulty_bounds [OF d(1) bounded_ratio_range(3) [of a]]
  have secs: "0 < rat_of_nat secs / 23"
    using window_time_bounds(1) [of "last_n 24 ts"] last_n_length [OF assms(1)] by (simp add: secs_def)
  then have a: "0 < a" unfolding a_def by (rule fl_pos) simp
  have rep: "representable 53 (of_int m / 32)" if "\<bar>m\<bar> \<le> 2 ^ 53" for m
    using representable_scaled [OF that, of "- 5"] by (simp add: power_int_minus)
  show "d < D" if "secs \<le> 23 * 150 \<and> 1 < d \<and> d < 2 ^ 256 - 1"
  proof -
    have "rat_of_nat secs \<le> of_nat (23 * 150)" using that by (simp only: of_nat_le_iff)
    then have "a \<le> 150" unfolding a_def using rep [of 4800] by (intro fl_le [OF secs]) (simp_all add: divide_le_eq)
    moreover from this have "d \<le> Clamp (Some (scale_difficulty d (bounded_ratio a)))"
      using scaled(3) bounded_ratio_sides(1) [OF a] d by (auto simp: Clamp_def MinDifficulty_def)
    ultimately show ?thesis unfolding D using that
      by (auto simp: ensureDifficultyChanges_def float_target MinDifficulty_def MaxDifficulty_def Clamp_def)
  qed
  show "D < d" if "23 * 150 < secs \<and> 1 < d"
  proof -
    have "3451 \<le> secs" using that by simp
    then have "rat_of_nat 3451 \<le> of_nat secs" by (simp only: of_nat_le_iff)
    then have "of_int 4801 / 32 \<le> a" unfolding a_def using rep [of 4801] by (intro fl_ge [OF secs]) (simp_all add: le_divide_eq)
    then have slow: "150 < a" by simp
    then have "Clamp (Some (scale_difficulty d (bounded_ratio a))) \<le> d"
      using scaled(2) bounded_ratio_sides(2) [OF a] d by (auto simp: Clamp_def MinDifficulty_def)
    then show ?thesis unfolding D using that slow d
      by (auto simp: ensureDifficultyChanges_def float_target MinDifficulty_def)
  qed
  show "D = 1" if "23 * 75 < secs \<and> d = 1"
  proof -
    have "1726 \<le> secs" using that by simp
    then have "rat_of_nat 1726 \<le> of_nat secs" by (simp only: of_nat_le_iff)
    then have "of_int 2401 / 32 \<le> a" unfolding a_def using rep [of 2401] by (intro fl_ge [OF secs]) (simp_all add: le_divide_eq)
    then have "150 / a \<le> of_int 4095 * 2 powi - 11" using a by (simp add: divide_le_eq power_int_minus)
    then have "fl 53 (150 / a) \<le> of_int 4095 * 2 powi - 11"
      using a by (intro fl_le representable_scaled) simp_all
    then have "bounded_ratio a \<le> of_int 4095 * 2 powi - 11"
      by (auto simp: bounded_ratio_def Let_def float_target MaxAdjustmentFactor_def MinAdjustmentFactor_def power_int_minus)
    then have "fl 64 (bounded_ratio a) \<le> of_int 4095 * 2 powi - 11"
      by (intro fl_le bounded_ratio_range(3) representable_scaled) simp_all
    then have "\<lfloor>fl 64 (bounded_ratio a)\<rfloor> \<le> 1" by (simp add: floor_le_iff power_int_minus)
    moreover have "big_prec 1 = 64" by (simp add: big_prec_def bitlen_def floorlog_def)
    ultimately have "scale_difficulty 1 (bounded_ratio a) \<le> 1"
      using fl_pos [OF bounded_ratio_range(3) [of a], of 64] by (simp add: scale_difficulty_def big_trunc_def)
    then have "Clamp (Some (scale_difficulty 1 (bounded_ratio a))) = 1"
      using Clamp_range(1) [of "Some (scale_difficulty 1 (bounded_ratio a))"] by (auto simp: Clamp_def MinDifficulty_def MaxDifficulty_def)
    then show ?thesis unfolding D using that by (simp add: ensureDifficultyChanges_def MinDifficulty_def)
  qed
qed

definition steady :: "nat \<Rightarrow> u64 list" where
  "steady secs = map (\<lambda>i. of_nat (secs * i)) [0..<24]"

lemma steady_facts:
  "\<And>secs. length (steady secs) = 24" "window_time (last_n 24 (steady 100)) = 2300" "window_time (last_n 24 (steady 200)) = 4600"
proof -
  show len: "length (steady secs) = 24" for secs by (simp add: steady_def)
  have all: "last_n 24 (steady secs) = steady secs" for secs by (simp add: last_n_def len)
  have upt: "[0..<24] = [0, 1, 2, 3, 4, 5, 6, 7, 8, 9, 10, 11, 12, 13, 14, 15, 16, 17, 18, 19, 20, 21, 22, 23::nat]"
    by (simp add: upt_rec)
  show "window_time (last_n 24 (steady 100)) = 2300" "window_time (last_n 24 (steady 200)) = 4600"
    unfolding all by (simp_all add: steady_def upt window_time_Cons block_time_def) (simp_all add: window_time_def)
qed

theorem gravity_wave_follows_the_pace_witness:
  "100 < CalculateDifficulty (Some 100) 50 (steady 100) \<and> CalculateDifficulty (Some 100) 50 (steady 200) < 100
   \<and> CalculateDifficulty None 50 (steady 100) = 1"
proof -
  have n: "Normalize (Some 100) = 100" "Normalize None = 1"
    by (simp_all add: Normalize_def Clamp_def MinDifficulty_def MaxDifficulty_def minerDomain_def MinerOffsetBits_def)
  show ?thesis
    using gravity_wave_follows_the_pace [of "steady 100" 50 "Some 100"]
      gravity_wave_follows_the_pace [of "steady 200" 50 "Some 100"] gravity_wave_follows_the_pace [of "steady 100" 50 None]
    by (simp add: n steady_facts)
qed

text \<open>
  The suffix of a miner does not change the base difficulty nor the target, and the full
  difficulties of two miners, or of two base difficulties, are never the same.
\<close>

theorem miner_suffix_is_transparent:
  "Normalize (Some (ForMiner base miner)) = Normalize base
   \<and> Target (Some (ForMiner base miner)) = Target base
   \<and> (ForMiner base miner = ForMiner base2 miner2 \<longleftrightarrow> Normalize base = Normalize base2 \<and> miner = miner2)"
proof -
  have "ForMiner base miner = ForMiner base2 miner2 \<longleftrightarrow> Normalize base = Normalize base2 \<and> miner = miner2"
  proof
    assume same: "ForMiner base miner = ForMiner base2 miner2"
    have "be_value (Address_Bytes miner) = be_value (Address_Bytes miner2)"
      using ForMiner_divmod(2) [of base miner] ForMiner_divmod(2) [of base2 miner2] same by simp
    then have "Address_Bytes miner = Address_Bytes miner2"
      by (metis be_bytes_be_value length_Address_Bytes)
    then show "Normalize base = Normalize base2 \<and> miner = miner2"
      using ForMiner_divmod(1) [of base miner] ForMiner_divmod(1) [of base2 miner2] same by simp
  qed (simp add: ForMiner_def Let_def)
  then show ?thesis by (simp add: Normalize_ForMiner Target_def)
qed

end
