(* ===== verification/Pow.thy ===== *)
theory Pow
  imports Difficulty
begin

text \<open>
  The proof-of-work engine (\<open>antdc/pow/pow.go\<close>): its difficulty and block-time window, the
  serialisation that is hashed, mining and verification. SHA3-256 is the field \<open>sha3\<close> of the
  record \<open>crypto\<close>. Metrics and log lines are left out; \<open>now\<close> is the Unix time. A nonce, an
  array of eight bytes, is the \<open>u64\<close> whose big-endian bytes it holds.
\<close>

section \<open>Engine\<close>

record pow =
  pw_difficulty :: int
  pw_blockTimes :: "u64 list"
  pw_averageBlockTime :: rat
  pw_lastAdjustment :: u64
  pw_priorityMiner :: address
  pw_priorityBoost :: u64
  pw_totalBlocks :: u64

definition DifficultyAdjustment :: nat where "DifficultyAdjustment = AdjustmentWindow"
definition MaxClockDrift :: u64 where "MaxClockDrift = 30"

definition NewPoW :: pow where
  "NewPoW = \<lparr>pw_difficulty = BaseDifficulty, pw_blockTimes = [], pw_averageBlockTime = float64_of BlockTimeTarget,
     pw_lastAdjustment = 0, pw_priorityMiner = zero_address, pw_priorityBoost = 0, pw_totalBlocks = 0\<rparr>"

definition SetDifficulty :: "pow \<Rightarrow> int option \<Rightarrow> pow" where
  "SetDifficulty p diff = p\<lparr>pw_difficulty := Normalize diff\<rparr>"

definition GetTarget :: "pow \<Rightarrow> int" where
  "GetTarget p = Target (Some (pw_difficulty p))"

text \<open>The window after one more block time.\<close>

definition push_time :: "u64 list \<Rightarrow> u64 \<Rightarrow> u64 list" where
  "push_time window0 delta =
     (let window = window0 @ [delta] in if length window > DifficultyAdjustment then drop 1 window else window)"

definition CalculateExpectedDifficulty :: "pow \<Rightarrow> u64 \<Rightarrow> u64 \<Rightarrow> u64 \<Rightarrow> int" where
  "CalculateExpectedDifficulty p height parentTime currentTime =
     (let window = push_time (pw_blockTimes p) (ElapsedBlockTime parentTime currentTime)
      in FromWindow (Some (pw_difficulty p)) height window)"

definition CalculateExpectedDifficultyForMiner :: "pow \<Rightarrow> u64 \<Rightarrow> u64 \<Rightarrow> u64 \<Rightarrow> address \<Rightarrow> int" where
  "CalculateExpectedDifficultyForMiner p height parentTime currentTime miner =
     ForMiner (Some (CalculateExpectedDifficulty p height parentTime currentTime)) miner"

definition AdjustDifficulty :: "pow \<Rightarrow> u64 \<Rightarrow> u64 \<Rightarrow> u64 \<Rightarrow> int \<times> pow" where
  "AdjustDifficulty p height parentTime currentTime =
     (let p1 = p\<lparr>pw_blockTimes := push_time (pw_blockTimes p) (ElapsedBlockTime parentTime currentTime)\<rparr>;
          adjusted = FromWindow (Some (pw_difficulty p1)) height (pw_blockTimes p1)
      in if adjusted = pw_difficulty p1 then (pw_difficulty p1, p1)
         else
           let total = sum_list (pw_blockTimes p1)
           in (adjusted, p1\<lparr>pw_averageBlockTime := average_time total (length (pw_blockTimes p1)),
                 pw_difficulty := adjusted, pw_lastAdjustment := height\<rparr>))"

definition VerifyMinerEligibility :: "int \<Rightarrow> u64 \<Rightarrow> bool" where
  "VerifyMinerEligibility now timestamp \<longleftrightarrow> \<not> timestamp > word_of_int (now + 30)"

definition RecordBlockMined :: "pow \<Rightarrow> pow" where
  "RecordBlockMined p = p\<lparr>pw_totalBlocks := pw_totalBlocks p + 1\<rparr>"

definition SetPriorityMiner :: "pow \<Rightarrow> address \<Rightarrow> u64 \<Rightarrow> pow" where
  "SetPriorityMiner p miner boostPercent = p\<lparr>pw_priorityMiner := miner, pw_priorityBoost := boostPercent\<rparr>"

definition IsKing_pow :: "pow \<Rightarrow> address \<Rightarrow> bool" where
  "IsKing_pow p addr \<longleftrightarrow> pw_priorityMiner p = addr"

definition VerifyBlockSignature :: "address \<Rightarrow> hash \<Rightarrow> u64 \<Rightarrow> u64 \<Rightarrow> bytes \<Rightarrow> bool" where
  "VerifyBlockSignature coinbase parentHash height timestamp sig = True"

definition GetNextMiner :: "pow \<Rightarrow> address" where
  "GetNextMiner p = pw_priorityMiner p"

definition GetKingAddresses_pow :: "pow \<Rightarrow> address list" where
  "GetKingAddresses_pow p = (if pw_priorityMiner p = zero_address then [] else [pw_priorityMiner p])"

section \<open>Headers, mining and verification\<close>

record pow_header =
  ph_ParentHash :: hash
  ph_Coinbase :: address
  ph_Root :: hash
  ph_TxHash :: hash
  ph_Number :: u64
  ph_Difficulty :: "int option"
  ph_Time :: u64
  ph_Extra :: bytes
  ph_Nonce :: u64
  ph_MixDigest :: hash

definition mining_difficulty :: "int option \<Rightarrow> int" where
  "mining_difficulty d = (case d of None \<Rightarrow> MinDifficulty | Some v \<Rightarrow> if v \<le> 0 then MinDifficulty else v)"

text \<open>All of the serialisation but the nonce; \<open>None\<close>: the panic on a difficulty of more than 32 bytes.\<close>

definition mining_prefix :: "pow_header \<Rightarrow> bytes option" where
  "mining_prefix h =
     (let diffBytes = big_bytes (mining_difficulty (ph_Difficulty h)) in
      if length diffBytes > 32 then None
      else Some (Hash_Bytes (ph_ParentHash h) @ Address_Bytes (ph_Coinbase h) @ Hash_Bytes (ph_Root h)
        @ Hash_Bytes (ph_TxHash h) @ word_bytes 8 (ph_Number h)
        @ replicate (32 - length diffBytes) 0 @ diffBytes
        @ word_bytes 8 (ph_Time h)
        @ word_bytes 4 (of_nat (length (ph_Extra h)) :: u32) @ ph_Extra h))"

definition SerializeForMining :: "pow_header \<Rightarrow> bytes option" where
  "SerializeForMining h = map_option (\<lambda>prefix. prefix @ word_bytes 8 (ph_Nonce h)) (mining_prefix h)"

text \<open>\<open>hashToBig(&hash).Cmp(target) < 0\<close>\<close>

definition below_target :: "hash \<Rightarrow> int option \<Rightarrow> bool" where
  "below_target h d \<longleftrightarrow> uint h < Target d"

datatype mine_error = Nil_Header | Cancelled | No_Nonce | Mine_Panic

lemma below_max: "nonce < - 1 \<longleftrightarrow> unat (nonce :: u64) < 2 ^ 64 - 1"
  by (simp add: word_less_nat_alt unsigned_minus_1_eq_mask mask_eq_exp_minus_1)

lemma unat_succ: "nonce < - 1 \<Longrightarrow> unat (nonce + 1 :: u64) = unat nonce + 1"
  unfolding below_max by (simp add: unat_word_ariths)

text \<open>\<open>stopped\<close>: whether the context is done when it is asked for the given nonce.\<close>

function mine_loop :: "crypto \<Rightarrow> (u64 \<Rightarrow> bool) \<Rightarrow> bytes \<Rightarrow> int option \<Rightarrow> u64 \<Rightarrow> mine_error + u64 \<times> hash" where
  "mine_loop C stopped prefix d nonce =
     (if \<not> nonce < - 1 then Inl No_Nonce
      else if stopped nonce then Inl Cancelled
      else
        let hash = sha3 C (prefix @ word_bytes 8 nonce)
        in if below_target hash d then Inr (nonce, hash) else mine_loop C stopped prefix d (nonce + 1))"
  by pat_completeness auto

termination
proof (relation "measure (\<lambda>(C, stopped, prefix, d, nonce). 2 ^ 64 - unat nonce)")
  show "((C, stopped, prefix, d, nonce + 1), (C, stopped, prefix, d, nonce))
      \<in> measure (\<lambda>(C, stopped, prefix, d, nonce). 2 ^ 64 - unat nonce)"
    if "\<not> \<not> nonce < - 1" for C stopped prefix d and nonce :: u64
    using that unat_succ [of nonce] by (simp add: below_max)
qed simp

declare mine_loop.simps [simp del]

definition MineBlock :: "crypto \<Rightarrow> (u64 \<Rightarrow> bool) \<Rightarrow> pow_header option \<Rightarrow> mine_error + pow_header" where
  "MineBlock C stopped header =
     (case header of
        None \<Rightarrow> Inl Nil_Header
      | Some h \<Rightarrow>
          (case mining_prefix h of
             None \<Rightarrow> Inl Mine_Panic
           | Some prefix \<Rightarrow>
               (case mine_loop C stopped prefix (ph_Difficulty h) 0 of
                  Inl e \<Rightarrow> Inl e
                | Inr (nonce, hash) \<Rightarrow> Inr (h\<lparr>ph_Nonce := nonce, ph_MixDigest := hash\<rparr>))))"

text \<open>\<open>None\<close>: the panic of the serialisation.\<close>

definition Verify_pow :: "crypto \<Rightarrow> pow_header option \<Rightarrow> bool option" where
  "Verify_pow C header =
     (case header of
        None \<Rightarrow> Some False
      | Some h \<Rightarrow>
          (case SerializeForMining h of
             None \<Rightarrow> None
           | Some serialized \<Rightarrow>
               let hash = sha3 C serialized
               in Some (hash = ph_MixDigest h \<and> below_target hash (ph_Difficulty h))))"

section \<open>The engine\<close>

definition pow_ok :: "pow \<Rightarrow> bool" where
  "pow_ok p \<longleftrightarrow> 1 \<le> pw_difficulty p \<and> pw_difficulty p \<le> MaxDifficulty \<and> length (pw_blockTimes p) \<le> DifficultyAdjustment"

inductive pow_step :: "pow \<Rightarrow> pow \<Rightarrow> bool" where
  set_difficulty: "pow_step p (SetDifficulty p d)"
| adjust: "pow_step p (snd (AdjustDifficulty p height parentTime currentTime))"
| mined: "pow_step p (RecordBlockMined p)"
| priority: "pow_step p (SetPriorityMiner p miner boost)"

lemma length_push_time: "length ts \<le> DifficultyAdjustment \<Longrightarrow> length (push_time ts t) \<le> DifficultyAdjustment"
  by (auto simp: push_time_def Let_def DifficultyAdjustment_def AdjustmentWindow_def LWMAWindow_def)

lemma FromWindow_range: "1 \<le> FromWindow d h ts" "FromWindow d h ts \<le> MaxDifficulty"
  using difficulty_in_range [of d h "timestampsFromDeltas ts"]
  by (auto simp: FromWindow_def CalculateDifficultyFromDeltas_def BaseDifficulty_def MaxDifficulty_def)

lemma pow_step_ok: "pow_step p p' \<Longrightarrow> pow_ok p \<Longrightarrow> pow_ok p'"
  by (induction rule: pow_step.induct)
    (auto simp: pow_ok_def SetDifficulty_def AdjustDifficulty_def RecordBlockMined_def SetPriorityMiner_def Let_def
      Normalize_range FromWindow_range length_push_time)

lemma pow_steps_ok: "pow_step\<^sup>*\<^sup>* p p' \<Longrightarrow> pow_ok p \<Longrightarrow> pow_ok p'"
  by (induction rule: rtranclp_induct) (auto intro: pow_step_ok)

section \<open>The search for a nonce\<close>

lemma word_next_le: "n < - 1 \<Longrightarrow> (n + 1 \<le> k) = (n < (k :: u64))"
  using unat_succ [of n] by (auto simp: word_le_nat_alt word_less_nat_alt)

lemma mine_loop_Inr:
  "mine_loop C stopped prefix d n = Inr (m, digest) \<Longrightarrow>
    n \<le> m \<and> digest = sha3 C (prefix @ word_bytes 8 m) \<and> below_target digest d
    \<and> (\<forall>k. n \<le> k \<longrightarrow> k < m \<longrightarrow> \<not> below_target (sha3 C (prefix @ word_bytes 8 k)) d)"
proof (induction C stopped prefix d n rule: mine_loop.induct)
  case (1 C stopped prefix d n)
  show ?case
  proof (cases "below_target (sha3 C (prefix @ word_bytes 8 n)) d")
    case True
    then show ?thesis using "1.prems" by (auto simp: mine_loop.simps [of C stopped prefix d n] Let_def split: if_splits)
  next
    case False
    then have n: "n < - 1" and rest: "mine_loop C stopped prefix d (n + 1) = Inr (m, digest)"
      and "\<not> stopped n"
      using "1.prems" by (auto simp: mine_loop.simps [of C stopped prefix d n] Let_def split: if_splits)
    then have found: "n < m" "digest = sha3 C (prefix @ word_bytes 8 m)" "below_target digest d"
      "\<And>k. n < k \<Longrightarrow> k < m \<Longrightarrow> \<not> below_target (sha3 C (prefix @ word_bytes 8 k)) d"
    proof -
      have "n + 1 \<le> m \<and> digest = sha3 C (prefix @ word_bytes 8 m) \<and> below_target digest d
          \<and> (\<forall>k. n + 1 \<le> k \<longrightarrow> k < m \<longrightarrow> \<not> below_target (sha3 C (prefix @ word_bytes 8 k)) d)"
        using "1.IH" n rest \<open>\<not> stopped n\<close> False by blast
      then show "n < m" "digest = sha3 C (prefix @ word_bytes 8 m)" "below_target digest d"
        "\<And>k. n < k \<Longrightarrow> k < m \<Longrightarrow> \<not> below_target (sha3 C (prefix @ word_bytes 8 k)) d"
        unfolding word_next_le [OF n] by blast+
    qed
    have "\<not> below_target (sha3 C (prefix @ word_bytes 8 k)) d" if "n \<le> k" "k < m" for k
      using that found(4) False by (cases "k = n") simp_all
    then show ?thesis using found(1-3) by (intro conjI allI impI less_imp_le)
  qed
qed

lemma mine_loop_search:
  "(\<And>k. \<not> stopped k) \<Longrightarrow>
    (if \<exists>k. n \<le> k \<and> k < - 1 \<and> below_target (sha3 C (prefix @ word_bytes 8 k)) d
     then \<exists>r. mine_loop C stopped prefix d n = Inr r else mine_loop C stopped prefix d n = Inl No_Nonce)"
proof (induction C stopped prefix d n rule: mine_loop.induct)
  case (1 C stopped prefix d n)
  show ?case
  proof (cases "n < - 1 \<and> \<not> below_target (sha3 C (prefix @ word_bytes 8 n)) d")
    case True
    then have "mine_loop C stopped prefix d n = mine_loop C stopped prefix d (n + 1)"
      using "1.prems" by (simp add: mine_loop.simps [of C stopped prefix d n])
    moreover have "(\<exists>k. n \<le> k \<and> k < - 1 \<and> below_target (sha3 C (prefix @ word_bytes 8 k)) d) \<longleftrightarrow>
        (\<exists>k. n + 1 \<le> k \<and> k < - 1 \<and> below_target (sha3 C (prefix @ word_bytes 8 k)) d)"
      using True word_next_le [of n] by (metis order_le_less)
    moreover have "if \<exists>k. n + 1 \<le> k \<and> k < - 1 \<and> below_target (sha3 C (prefix @ word_bytes 8 k)) d
        then \<exists>r. mine_loop C stopped prefix d (n + 1) = Inr r else mine_loop C stopped prefix d (n + 1) = Inl No_Nonce"
      using "1.IH" True "1.prems" by blast
    ultimately show ?thesis by (simp only:)
  next
    case False
    then show ?thesis
    proof (cases "n < - 1")
      case True
      then have "mine_loop C stopped prefix d n = Inr (n, sha3 C (prefix @ word_bytes 8 n))"
        using False "1.prems" by (subst mine_loop.simps) (simp add: Let_def)
      then show ?thesis using True False by auto
    next
      case beyond: False
      then have "\<not> (n \<le> k \<and> k < - 1)" for k by (meson order_le_less_trans)
      then show ?thesis using beyond by (auto simp: mine_loop.simps [of C stopped prefix d n])
    qed
  qed
qed

lemma mining_prefix_update [simp]:
  "mining_prefix (h\<lparr>ph_Nonce := n\<rparr>) = mining_prefix h" "mining_prefix (h\<lparr>ph_MixDigest := x\<rparr>) = mining_prefix h"
  by (simp_all add: mining_prefix_def Let_def)

section \<open>Properties\<close>

text \<open>
  C15: a header that mining returns passes verification, differs from the given one in nonce and
  mix digest only, and has the smallest nonce that meets the target. Without a cancellation
  mining succeeds exactly if one of the nonces up to \<open>2^64 - 2\<close> meets the target, and otherwise
  stops with \<open>ErrInvalidNonce\<close>.
\<close>

theorem mining_and_verification_agree:
  assumes "mining_prefix h = Some prefix"
  shows "(MineBlock C stopped (Some h) = Inr h' \<longrightarrow>
      Verify_pow C (Some h') = Some True
      \<and> h' = h\<lparr>ph_Nonce := ph_Nonce h', ph_MixDigest := ph_MixDigest h'\<rparr>
      \<and> (\<forall>k < ph_Nonce h'. \<not> below_target (sha3 C (prefix @ word_bytes 8 k)) (ph_Difficulty h)))
    \<and> ((\<forall>k. \<not> stopped k) \<longrightarrow>
        (if \<exists>k < - 1 :: u64. below_target (sha3 C (prefix @ word_bytes 8 k)) (ph_Difficulty h)
         then \<exists>h''. MineBlock C stopped (Some h) = Inr h'' else MineBlock C stopped (Some h) = Inl No_Nonce))"
proof (intro conjI impI)
  assume "MineBlock C stopped (Some h) = Inr h'"
  then obtain m digest where run: "mine_loop C stopped prefix (ph_Difficulty h) 0 = Inr (m, digest)"
    and h': "h' = h\<lparr>ph_Nonce := m, ph_MixDigest := digest\<rparr>"
    using assms by (auto simp: MineBlock_def split: sum.splits)
  note found = mine_loop_Inr [OF run]
  show "Verify_pow C (Some h') = Some True"
    using found assms by (auto simp: Verify_pow_def SerializeForMining_def h' Let_def)
  show "h' = h\<lparr>ph_Nonce := ph_Nonce h', ph_MixDigest := ph_MixDigest h'\<rparr>" by (simp add: h')
  show "\<forall>k < ph_Nonce h'. \<not> below_target (sha3 C (prefix @ word_bytes 8 k)) (ph_Difficulty h)"
    using found by (simp add: h')
next
  assume "\<forall>k. \<not> stopped k"
  then have search: "if \<exists>k. (0 :: u64) \<le> k \<and> k < - 1 \<and> below_target (sha3 C (prefix @ word_bytes 8 k)) (ph_Difficulty h)
      then \<exists>r. mine_loop C stopped prefix (ph_Difficulty h) 0 = Inr r
      else mine_loop C stopped prefix (ph_Difficulty h) 0 = Inl No_Nonce"
    by - (rule mine_loop_search, blast)
  show "if \<exists>k < - 1 :: u64. below_target (sha3 C (prefix @ word_bytes 8 k)) (ph_Difficulty h)
      then \<exists>h''. MineBlock C stopped (Some h) = Inr h'' else MineBlock C stopped (Some h) = Inl No_Nonce"
  proof (cases "\<exists>k < - 1 :: u64. below_target (sha3 C (prefix @ word_bytes 8 k)) (ph_Difficulty h)")
    case True
    then obtain r where "mine_loop C stopped prefix (ph_Difficulty h) 0 = Inr r" using search by auto
    then show ?thesis using True assms by (cases r) (auto simp: MineBlock_def)
  next
    case False
    then have "mine_loop C stopped prefix (ph_Difficulty h) 0 = Inl No_Nonce" using search by auto
    then show ?thesis using False assms by (auto simp: MineBlock_def)
  qed
qed

definition pow_crypto :: crypto where
  "pow_crypto = toy_crypto\<lparr>sha3 := \<lambda>b. if last b = 3 then 5 else - 1\<rparr>"

definition pow_demo :: pow_header where
  "pow_demo = \<lparr>ph_ParentHash = 1, ph_Coinbase = 2, ph_Root = 3, ph_TxHash = 4, ph_Number = 7, ph_Difficulty = Some 16,
     ph_Time = 1000, ph_Extra = [9], ph_Nonce = 0, ph_MixDigest = 0\<rparr>"

lemma pow_demo_prefix: "\<exists>prefix. mining_prefix pow_demo = Some prefix"
  by (simp add: mining_prefix_def pow_demo_def mining_difficulty_def big_bytes_def nat_bytes.simps)

lemma last_nonce: "last (prefix @ word_bytes 8 n) = (word_of_nat (unat n mod 256) :: u8)"
proof -
  have "word_bytes 8 n = be_bytes 7 (unat n div 256) @ [word_of_nat (unat n mod 256)]"
    using be_bytes.simps(2) [of 7 "unat n"] by (simp add: word_bytes_def)
  then show ?thesis by simp
qed

lemma pow_demo_mined:
  "MineBlock pow_crypto (\<lambda>_. False) (Some pow_demo) = Inr (pow_demo\<lparr>ph_Nonce := 3, ph_MixDigest := 5\<rparr>)"
proof -
  obtain prefix where prefix: "mining_prefix pow_demo = Some prefix" using pow_demo_prefix by blast
  have target: "Target (Some 16) = 2 ^ 252"
    by (simp add: Target_def Normalize_def Clamp_def MinDifficulty_def MaxDifficulty_def minerDomain_def MinerOffsetBits_def)
  have miss: "\<not> below_target (- 1) (Some 16)" and hit: "below_target 5 (Some 16)"
    unfolding below_target_def target by (simp_all add: unsigned_minus_1_eq_mask mask_eq_exp_minus_1)
  have "mine_loop pow_crypto (\<lambda>_. False) prefix (Some 16) 0 = Inr (3, 5)"
    by (simp add: mine_loop.simps [of _ _ _ _ 0] mine_loop.simps [of _ _ _ _ 1] mine_loop.simps [of _ _ _ _ 2]
        mine_loop.simps [of _ _ _ _ 3] pow_crypto_def last_nonce miss hit Let_def below_max)
  then show ?thesis using prefix by (simp add: MineBlock_def) (simp add: pow_demo_def)
qed

theorem mining_and_verification_agree_witness:
  "Verify_pow pow_crypto (Some (pow_demo\<lparr>ph_Nonce := 3, ph_MixDigest := 5\<rparr>)) = Some True"
proof -
  obtain prefix where "mining_prefix pow_demo = Some prefix" using pow_demo_prefix by blast
  from mining_and_verification_agree [OF this] pow_demo_mined show ?thesis by blast
qed

text \<open>
  In every state the engine reaches, its difficulty is within the bounds and its window
  holds at most 60 block times; and the difficulty it predicts for a block is the one that
  adjusting to that block then sets.
\<close>

theorem engine_predicts_its_adjustment:
  assumes "pow_step\<^sup>*\<^sup>* NewPoW p"
  shows "1 \<le> pw_difficulty p \<and> pw_difficulty p \<le> 2 ^ 256 - 1 \<and> length (pw_blockTimes p) \<le> 60
    \<and> (case AdjustDifficulty p height parentTime currentTime of (adjusted, p') \<Rightarrow>
        adjusted = CalculateExpectedDifficulty p height parentTime currentTime \<and> pw_difficulty p' = adjusted)"
proof -
  have "pow_ok NewPoW"
    by (simp add: pow_ok_def NewPoW_def BaseDifficulty_def MaxDifficulty_def)
  from pow_steps_ok [OF assms this] have "pow_ok p" .
  then show ?thesis
    by (auto simp: pow_ok_def MaxDifficulty_def DifficultyAdjustment_def AdjustmentWindow_def LWMAWindow_def
        AdjustDifficulty_def CalculateExpectedDifficulty_def Let_def)
qed

theorem engine_predicts_its_adjustment_witness:
  "1 \<le> pw_difficulty (SetDifficulty NewPoW (Some 77))"
  using engine_predicts_its_adjustment [of "SetDifficulty NewPoW (Some 77)" 1 0 0] pow_step.set_difficulty [of NewPoW "Some 77"]
  by blast

section \<open>What the proof of work commits to\<close>

definition diff_bytes :: "int \<Rightarrow> bytes" where
  "diff_bytes d = replicate (32 - length (big_bytes d)) 0 @ big_bytes d"

lemma diff_bytes_inject:
  assumes "length (big_bytes d) \<le> 32" and "length (big_bytes d') \<le> 32" and "0 \<le> d" and "0 \<le> d'"
  shows "length (diff_bytes d) = 32" and "diff_bytes d = diff_bytes d' \<longleftrightarrow> d = d'"
proof -
  show "length (diff_bytes d) = 32" using assms(1) by (simp add: diff_bytes_def)
  have v: "int (be_value (diff_bytes e)) = e" if "0 \<le> e" for e
    using that by (simp add: diff_bytes_def be_value_append)
  show "diff_bytes d = diff_bytes d' \<longleftrightarrow> d = d'" by (metis v assms(3,4))
qed

lemma mining_prefix_Some:
  "mining_prefix h = Some prefix \<longleftrightarrow>
    length (big_bytes (mining_difficulty (ph_Difficulty h))) \<le> 32
    \<and> prefix = Hash_Bytes (ph_ParentHash h) @ Address_Bytes (ph_Coinbase h) @ Hash_Bytes (ph_Root h)
        @ Hash_Bytes (ph_TxHash h) @ word_bytes 8 (ph_Number h) @ diff_bytes (mining_difficulty (ph_Difficulty h))
        @ word_bytes 8 (ph_Time h) @ word_bytes 4 (of_nat (length (ph_Extra h)) :: u32) @ ph_Extra h"
proof (cases "length (big_bytes (mining_difficulty (ph_Difficulty h))) \<le> 32")
  case True
  let ?p = "Hash_Bytes (ph_ParentHash h) @ Address_Bytes (ph_Coinbase h) @ Hash_Bytes (ph_Root h)
        @ Hash_Bytes (ph_TxHash h) @ word_bytes 8 (ph_Number h) @ diff_bytes (mining_difficulty (ph_Difficulty h))
        @ word_bytes 8 (ph_Time h) @ word_bytes 4 (of_nat (length (ph_Extra h)) :: u32) @ ph_Extra h"
  have "mining_prefix h = Some ?p" using True by (simp add: mining_prefix_def diff_bytes_def Let_def)
  then show ?thesis using True by (simp only: option.inject eq_commute [of ?p] simp_thms)
qed (simp add: mining_prefix_def Let_def)

lemma mining_difficulty_pos: "0 \<le> mining_difficulty d"
  by (simp add: mining_difficulty_def MinDifficulty_def split: option.splits)

text \<open>The header with the fields the hash does not see.\<close>

definition mining_core :: "pow_header \<Rightarrow> pow_header" where
  "mining_core h = h\<lparr>ph_Difficulty := Some (mining_difficulty (ph_Difficulty h)), ph_Nonce := 0, ph_MixDigest := 0\<rparr>"

lemma mining_prefix_inject:
  assumes "mining_prefix h = Some prefix" and "mining_prefix h' = Some prefix"
  shows "mining_core h = mining_core h'"
proof -
  have len: "length (big_bytes (mining_difficulty (ph_Difficulty h))) \<le> 32"
      "length (big_bytes (mining_difficulty (ph_Difficulty h'))) \<le> 32"
    using assms by (simp_all add: mining_prefix_Some)
  note sizes = diff_bytes_inject(1) [OF len mining_difficulty_pos mining_difficulty_pos]
    diff_bytes_inject(1) [OF len(2,1) mining_difficulty_pos mining_difficulty_pos]
  have "ph_ParentHash h = ph_ParentHash h' \<and> ph_Coinbase h = ph_Coinbase h' \<and> ph_Root h = ph_Root h'
      \<and> ph_TxHash h = ph_TxHash h' \<and> ph_Number h = ph_Number h'
      \<and> diff_bytes (mining_difficulty (ph_Difficulty h)) = diff_bytes (mining_difficulty (ph_Difficulty h'))
      \<and> ph_Time h = ph_Time h' \<and> ph_Extra h = ph_Extra h'"
    using assms sizes unfolding mining_prefix_Some by (simp add: word_bytes_inject)
  then show ?thesis
    using diff_bytes_inject(2) [OF len mining_difficulty_pos mining_difficulty_pos]
    by (intro pow_header.equality) (simp_all add: mining_core_def)
qed

text \<open>
  Two headers with the same digest under the proof of work agree in every field that the
  serialisation covers (and in the nonce), or exhibit a collision of SHA3-256.
\<close>

theorem proof_of_work_binds_the_header:
  assumes "SerializeForMining h = Some s" and "SerializeForMining h' = Some s'" and "sha3 C s = sha3 C s'"
  shows "mining_core h = mining_core h' \<and> ph_Nonce h = ph_Nonce h' \<or> s \<noteq> s' \<and> sha3 C s = sha3 C s'"
proof (cases "s = s'")
  case True
  obtain p p' where p: "mining_prefix h = Some p" "s = p @ word_bytes 8 (ph_Nonce h)"
      "mining_prefix h' = Some p'" "s' = p' @ word_bytes 8 (ph_Nonce h')"
    using assms(1,2) by (auto simp: SerializeForMining_def)
  then have "p = p'" "ph_Nonce h = ph_Nonce h'" using True by (simp_all add: word_bytes_inject)
  then show ?thesis using mining_prefix_inject p by blast
qed (use assms(3) in simp)

lemma toy_hash_serialization:
  "SerializeForMining pow_demo \<noteq> None"
  using pow_demo_prefix by (auto simp: SerializeForMining_def)

theorem proof_of_work_binds_the_header_witness:
  "\<exists>s. SerializeForMining pow_demo = Some s \<and> SerializeForMining (pow_demo\<lparr>ph_MixDigest := 8\<rparr>) = Some s
    \<and> mining_core pow_demo = mining_core (pow_demo\<lparr>ph_MixDigest := 8\<rparr>)"
proof -
  obtain s where "SerializeForMining pow_demo = Some s" "SerializeForMining (pow_demo\<lparr>ph_MixDigest := 8\<rparr>) = Some s"
    using pow_demo_prefix by (auto simp: SerializeForMining_def)
  with proof_of_work_binds_the_header [OF this refl] show ?thesis by blast
qed

end
