(* ===== verification/Block_Validation.thy ===== *)
theory Block_Validation
  imports Execution Protocol Pow Rotating_King
begin

text \<open>
  Validation and execution of a block on top of its parent (\<open>antdc/chain/validation.go\<close>): the
  structural checks, the difficulty derived from the chain, proof of work, roots, execution,
  rewards and the updates that follow. The blocks of the chain are read through the parameter
  \<open>byHash\<close>, \<open>GetBlockByHash\<close> with \<open>None\<close> for an error or a nil block; \<open>now\<close> is the Unix time.

  What a failing block has done to the node stays done, as in the code, which has no undo.
\<close>

section \<open>Checks of the header\<close>

datatype validation_error =
    V_Nil_Block | V_Nil_Parent | V_Genesis | V_Extra block_error | V_Height | V_Parent_Hash | V_Not_After_Parent
  | V_Too_Far | V_Too_Fast | V_Block_Hash | V_No_Engine | V_Not_Eligible | V_Difficulty | V_Nil_Number
  | V_Proof_Of_Work | V_Tx_Root | V_No_Signature | V_Signature | V_Precheck dry_run_error | V_State_Root
  | V_Gas_Used | V_Execution exec_error | V_Gas_Limit | V_Rewards block_reward_error | V_Final_Root
  | V_Protocol protocol_error | V_Parent_Unknown | V_Panic

text \<open>\<open>b.Header.Number.Uint64()\<close>, which panics on a nil number.\<close>

definition header_height :: "header \<Rightarrow> u64 option" where
  "header_height h = map_option big_uint64 (h_Number h)"

definition validateBasicBlockIntegrity ::
    "crypto \<Rightarrow> int \<Rightarrow> block option \<Rightarrow> block option \<Rightarrow> validation_error + unit" where
  "validateBasicBlockIntegrity C now b parent =
     (case Option.bind b b_Header of
        None \<Rightarrow> Inl V_Nil_Block
      | Some h \<Rightarrow>
     (case (parent, Option.bind parent b_Header) of
        (Some p, Some ph) \<Rightarrow>
          (case (header_height h, header_height ph) of
             (Some blockHeight, Some parentHeight) \<Rightarrow>
               if blockHeight = 0 then Inl V_Genesis
               else
                 (case ValidateExtraDataSize (h_Extra h) of
                    Inl e \<Rightarrow> Inl (V_Extra e)
                  | Inr _ \<Rightarrow>
                      if blockHeight \<noteq> parentHeight + 1 then Inl V_Height
                      else if h_ParentHash h \<noteq> Block_Hash C p then Inl V_Parent_Hash
                      else if h_Time h \<le> h_Time ph then Inl V_Not_After_Parent
                      else if h_Time h > word_of_int now + MaxClockDrift then Inl V_Too_Far
                      else if h_Time h < h_Time ph + BlockTimeTarget then Inl V_Too_Fast
                      else Inr ())
           | _ \<Rightarrow> Inl V_Panic)
      | _ \<Rightarrow> Inl V_Nil_Parent))"

definition validateBlockHash :: "crypto \<Rightarrow> block \<Rightarrow> validation_error + unit" where
  "validateBlockHash C b = (if Block_Hash C b \<noteq> Header_Hash C (b_Header b) then Inl V_Block_Hash else Inr ())"

text \<open>Registering the miner with the engine does nothing, whatever its stake or balance.\<close>

definition validatePoSEligibility :: "int \<Rightarrow> pow option \<Rightarrow> header \<Rightarrow> validation_error + unit" where
  "validatePoSEligibility now engine h =
     (case engine of
        None \<Rightarrow> Inl V_No_Engine
      | Some _ \<Rightarrow> if VerifyMinerEligibility now (h_Time h) then Inr () else Inl V_Not_Eligible)"

section \<open>Difficulty\<close>

text \<open>The blocks from \<open>cur\<close> back to genesis, at most \<open>n\<close>, newest first.\<close>

fun collect_blocks :: "(hash \<Rightarrow> block option) \<Rightarrow> nat \<Rightarrow> header \<Rightarrow> header list" where
  "collect_blocks byHash 0 cur = []"
| "collect_blocks byHash (Suc n) cur =
     cur # (case h_Number cur of
               None \<Rightarrow> []
             | Some number \<Rightarrow>
                 if number = 0 then []
                 else (case Option.bind (byHash (h_ParentHash cur)) b_Header of
                         None \<Rightarrow> []
                       | Some ancestor \<Rightarrow> collect_blocks byHash n ancestor))"

definition collectDifficultyTimestamps :: "(hash \<Rightarrow> block option) \<Rightarrow> header \<Rightarrow> u64 \<Rightarrow> u64 list" where
  "collectDifficultyTimestamps byHash parent candidateTime =
     rev (map h_Time (collect_blocks byHash AdjustmentWindow parent)) @ [candidateTime]"

text \<open>\<open>None\<close>: the panic on a nil number.\<close>

definition calculateExpectedDifficultyFromChainState ::
    "(hash \<Rightarrow> block option) \<Rightarrow> pow \<Rightarrow> header \<Rightarrow> block option \<Rightarrow> int option" where
  "calculateExpectedDifficultyFromChainState byHash engine h parent =
     (case header_height h of
        None \<Rightarrow> None
      | Some height \<Rightarrow>
          (case Option.bind parent b_Header of
             None \<Rightarrow> Some (CalculateExpectedDifficulty engine height 0 (h_Time h))
           | Some ph \<Rightarrow>
               if h_Difficulty ph = None then Some (CalculateExpectedDifficulty engine height 0 (h_Time h))
               else if height = 0 then Some (CalculateExpectedDifficulty engine height (h_Time ph) (h_Time h))
               else
                 let window = collectDifficultyTimestamps byHash ph (h_Time h);
                     baseDifficulty = CalculateDifficulty (h_Difficulty ph) height window
                 in Some (ForMiner (Some baseDifficulty) (h_Coinbase h))))"

definition validateDifficulty ::
    "(hash \<Rightarrow> block option) \<Rightarrow> pow option \<Rightarrow> header \<Rightarrow> block option \<Rightarrow> validation_error + unit" where
  "validateDifficulty byHash engine h parent =
     (case engine of
        None \<Rightarrow> Inl V_No_Engine
      | Some p \<Rightarrow>
          (case (calculateExpectedDifficultyFromChainState byHash p h parent, h_Difficulty h) of
             (Some expected, Some d) \<Rightarrow> if d \<noteq> expected then Inl V_Difficulty else Inr ()
           | _ \<Rightarrow> Inl V_Panic))"

section \<open>Proof of work, transaction root and signature\<close>

definition powHeaderFromBlockHeader :: "header option \<Rightarrow> validation_error + pow_header" where
  "powHeaderFromBlockHeader header =
     (case header of
        None \<Rightarrow> Inl V_Nil_Block
      | Some h \<Rightarrow>
          (case header_height h of
             None \<Rightarrow> Inl V_Nil_Number
           | Some number \<Rightarrow>
               Inr \<lparr>ph_ParentHash = h_ParentHash h, ph_Coinbase = h_Coinbase h, ph_Root = h_Root h,
                    ph_TxHash = h_TxHash h, ph_Number = number,
                    ph_Difficulty = (case h_Difficulty h of None \<Rightarrow> Some MinDifficulty | d \<Rightarrow> d),
                    ph_Time = h_Time h, ph_Extra = h_Extra h, ph_Nonce = h_Nonce h,
                    ph_MixDigest = h_MixDigest h\<rparr>))"

definition validateProofOfWork :: "crypto \<Rightarrow> pow option \<Rightarrow> header option \<Rightarrow> validation_error + unit" where
  "validateProofOfWork C engine header =
     (case engine of
        None \<Rightarrow> Inl V_No_Engine
      | Some _ \<Rightarrow>
          (case powHeaderFromBlockHeader header of
             Inl e \<Rightarrow> Inl e
           | Inr ph \<Rightarrow>
               (case Verify_pow C (Some ph) of
                  None \<Rightarrow> Inl V_Panic
                | Some ok \<Rightarrow> if ok then Inr () else Inl V_Proof_Of_Work)))"

definition CalcTxRoot :: "crypto \<Rightarrow> (bytes \<Rightarrow> hash) \<Rightarrow> tx option list \<Rightarrow> hash" where
  "CalcTxRoot C sha256 txs = CalculateTxHash C sha256 txs"

definition validateTransactionRoot :: "crypto \<Rightarrow> (bytes \<Rightarrow> hash) \<Rightarrow> block \<Rightarrow> header \<Rightarrow> validation_error + unit" where
  "validateTransactionRoot C sha256 b h =
     (if CalcTxRoot C sha256 (b_Txs b) \<noteq> h_TxHash h then Inl V_Tx_Root else Inr ())"

definition validateBlockSignature :: "header \<Rightarrow> validation_error + unit" where
  "validateBlockSignature h =
     (if h_Signature h = [] then Inl V_No_Signature
      else case header_height h of
        None \<Rightarrow> Inl V_Panic
      | Some height \<Rightarrow>
          if VerifyBlockSignature (h_Coinbase h) (h_ParentHash h) height (h_Time h) (h_Signature h) then Inr ()
          else Inl V_Signature)"

definition validateBlockForSync :: "crypto \<Rightarrow> block option \<Rightarrow> block option \<Rightarrow> validation_error + unit" where
  "validateBlockForSync C b parent =
     (case (b, Option.bind b b_Header) of
        (Some blk, Some h) \<Rightarrow>
          (case parent of
             Some p \<Rightarrow> if h_ParentHash h \<noteq> Block_Hash C p then Inl V_Parent_Hash else validateBlockHash C blk
           | None \<Rightarrow> validateBlockHash C blk)
      | _ \<Rightarrow> Inl V_Nil_Block)"

text \<open>The first failure of a list of checks.\<close>

fun first_error :: "('e + unit) list \<Rightarrow> 'e + unit" where
  "first_error [] = Inr ()"
| "first_error (c # cs) = (case c of Inl e \<Rightarrow> Inl e | Inr _ \<Rightarrow> first_error cs)"

definition proposal_checks ::
    "crypto \<Rightarrow> (bytes \<Rightarrow> hash) \<Rightarrow> (hash \<Rightarrow> block option) \<Rightarrow> int \<Rightarrow> pow option \<Rightarrow> block \<Rightarrow> header \<Rightarrow> block
     \<Rightarrow> (validation_error + unit) list" where
  "proposal_checks C sha256 byHash now engine b h parent =
     [map_sum V_Protocol (\<lambda>x. x) (validateProtocolHeader C (Some h)),
      validateBasicBlockIntegrity C now (Some b) (Some parent),
      validateBlockHash C b,
      validateDifficulty byHash engine h (Some parent),
      validateProofOfWork C engine (Some h),
      validateTransactionRoot C sha256 b h,
      validateBlockSignature h]"

definition ValidateMinedBlockProposal ::
    "crypto \<Rightarrow> (bytes \<Rightarrow> hash) \<Rightarrow> (hash \<Rightarrow> block option) \<Rightarrow> int \<Rightarrow> pow option \<Rightarrow> block option \<Rightarrow> validation_error + unit" where
  "ValidateMinedBlockProposal C sha256 byHash now engine b =
     (case (b, Option.bind b b_Header) of
        (Some blk, Some h) \<Rightarrow>
          (case h_Number h of
             None \<Rightarrow> Inl V_Nil_Number
           | Some number \<Rightarrow>
               if number = 0 then map_sum V_Protocol (\<lambda>x. x) (validateProtocolHeader C (Some h))
               else
                 (case byHash (h_ParentHash h) of
                    None \<Rightarrow> Inl V_Parent_Unknown
                  | Some parent \<Rightarrow> first_error (proposal_checks C sha256 byHash now engine blk h parent)))
      | _ \<Rightarrow> Inl V_Nil_Block)"

section \<open>Validation and execution\<close>

text \<open>
  What a block changes: accounts, the king manager and the engine. \<open>distributor\<close> is the main
  king of the reward distributor; \<open>written\<close> says which writes of the king manager succeed.
\<close>

record 'd node =
  nd_state :: 'd
  nd_kings :: "king_manager option"
  nd_pow :: "pow option"

record 'd node_env =
  ne_kv :: "'d kv_ops"
  ne_crypto :: crypto
  ne_sha256 :: "bytes \<Rightarrow> hash"
  ne_view :: chain_view
  ne_byHash :: "hash \<Rightarrow> block option"
  ne_distributor :: "address option"
  ne_now :: int
  ne_opened :: "'d option"
  ne_written :: "king_write \<Rightarrow> bool"

text \<open>The king that the manager resolved for a block answers; \<open>None\<close>: its index is out of range.\<close>

definition king_for :: "crypto \<Rightarrow> king_manager option \<Rightarrow> bytes \<Rightarrow> address option option" where
  "king_for C kings extra =
     (case kings of
        None \<Rightarrow> Some None
      | Some m \<Rightarrow>
          (case rotatingKingFromBlockExtra C extra of
             Some forced \<Rightarrow> Some (Some forced)
           | None \<Rightarrow> map_option Some (GetCurrentKing m)))"

definition record_share ::
    "(king_write \<Rightarrow> bool) \<Rightarrow> king_manager option \<Rightarrow> (address \<times> int \<times> u64) option \<Rightarrow> king_manager option" where
  "record_share written kings paid =
     (case paid of
        None \<Rightarrow> kings
      | Some (king, reward, height) \<Rightarrow> map_option (\<lambda>m. RecordRewardDistribution written m king (Some reward)) kings)"

definition king_share :: "reward_distribution \<Rightarrow> king_distribution" where
  "king_share r = \<lparr>kd_RotatingKingAddress = rd_RotatingKingAddress r, kd_RotatingKingReward = rd_RotatingKingReward r,
     kd_RotatingKingEligible = rd_RotatingKingEligible r\<rparr>"

text \<open>The checks that come before any change of the node.\<close>

definition prechecks :: "'d node_env \<Rightarrow> 'd node \<Rightarrow> block \<Rightarrow> header \<Rightarrow> block option \<Rightarrow> validation_error + unit" where
  "prechecks E n b h parent = first_error
     [validateBasicBlockIntegrity (ne_crypto E) (ne_now E) (Some b) parent,
      validateBlockHash (ne_crypto E) b,
      validatePoSEligibility (ne_now E) (nd_pow n) h,
      validateDifficulty (ne_byHash E) (nd_pow n) h parent,
      validateProofOfWork (ne_crypto E) (nd_pow n) (Some h),
      validateTransactionRoot (ne_crypto E) (ne_sha256 E) b h,
      validateBlockSignature h]"

text \<open>The state root predicted on a clone.\<close>

definition rootPrecheck :: "'d node_env \<Rightarrow> 'd node \<Rightarrow> block \<Rightarrow> header \<Rightarrow> validation_error + unit" where
  "rootPrecheck E n b h =
     (case (header_height h, king_for (ne_crypto E) (nd_kings n) (h_Extra h)) of
        (Some height, Some king) \<Rightarrow>
          (case computeBlockFinalStateRoot (ne_kv E) (ne_crypto E) (ne_sha256 E) (ne_distributor E) king (nd_pow n \<noteq> None)
                  (nd_state n) (ne_opened E) (h_Coinbase h) (h_Time h) height (h_Extra h) (b_Txs b) of
             Inl e \<Rightarrow> Inl (V_Precheck e)
           | Inr expectedRoot \<Rightarrow> if h_Root h \<noteq> expectedRoot then Inl V_State_Root else Inr ())
      | _ \<Rightarrow> Inl V_Panic)"

text \<open>Execution of the transactions, with the checks on the gas: the fees and the new state.\<close>

definition runTransactions :: "'d node_env \<Rightarrow> 'd \<Rightarrow> block \<Rightarrow> header \<Rightarrow> (validation_error + int) \<times> 'd" where
  "runTransactions E d b h =
     (if b_Txs b = [] then (if h_GasUsed h \<noteq> 0 then Inl V_Gas_Used else Inr 0, d)
      else
        (case executeBlockTransactions (ne_kv E) (ne_crypto E) (ne_sha256 E) (ne_view E) d b of
           (Inl e, d1) \<Rightarrow> (Inl (V_Execution e), d1)
         | (Inr (totalFees, gasUsed), d1) \<Rightarrow>
             (if h_GasUsed h \<noteq> gasUsed then Inl V_Gas_Used
              else if gasUsed > h_GasLimit h then Inl V_Gas_Limit else Inr totalFees, d1)))"

text \<open>\<open>None\<close>: the new king's index is out of range. A failing update of the kings is logged only.\<close>

definition updateKings :: "'d node_env \<Rightarrow> 'd node \<Rightarrow> block \<Rightarrow> header \<Rightarrow> reward_distribution \<Rightarrow> 'd node" where
  "updateKings E n b h r =
     (case (nd_kings n, header_height h) of
        (Some m, Some height) \<Rightarrow>
          (case processRotatingKingForBlock (ne_written E) (ne_now E) m height (Block_Hash (ne_crypto E) b) (king_share r) of
             (Inl _, m') \<Rightarrow> n\<lparr>nd_kings := Some m'\<rparr>
           | (Inr k, m') \<Rightarrow> n\<lparr>nd_kings := Some m', nd_pow := map_option (\<lambda>p. SetPriorityMiner p k 50) (nd_pow n)\<rparr>)
      | _ \<Rightarrow> n)"

definition updateEngine :: "'d node \<Rightarrow> header \<Rightarrow> header \<Rightarrow> 'd node" where
  "updateEngine n h parent =
     n\<lparr>nd_pow := map_option (\<lambda>p.
         let (newDifficulty, p') = AdjustDifficulty p (case header_height h of None \<Rightarrow> 0 | Some x \<Rightarrow> x) (h_Time parent) (h_Time h)
         in SetDifficulty p' (Some newDifficulty)) (nd_pow n)\<rparr>"

definition validateAndExecuteBlock ::
    "'d node_env \<Rightarrow> 'd node \<Rightarrow> block option \<Rightarrow> block option \<Rightarrow> (validation_error + unit) \<times> 'd node" where
  "validateAndExecuteBlock E n b parent =
     (case (b, Option.bind b b_Header) of
        (Some blk, Some h) \<Rightarrow>
          (case first_error [prechecks E n blk h parent, rootPrecheck E n blk h] of
             Inl e \<Rightarrow> (Inl e, n)
           | Inr _ \<Rightarrow>
               (case runTransactions E (nd_state n) blk h of
                  (Inl e, d1) \<Rightarrow> (Inl e, n\<lparr>nd_state := d1\<rparr>)
                | (Inr totalFees, d1) \<Rightarrow>
                    (case (king_for (ne_crypto E) (nd_kings n) (h_Extra h), Option.bind parent b_Header) of
                       (Some king, Some ph) \<Rightarrow>
                         (case distributeBlockRewards (ne_kv E) (ne_crypto E) (ne_distributor E) king (nd_pow n \<noteq> None) d1 h
                                 (Some totalFees) of
                            Inl e \<Rightarrow> (Inl (V_Rewards e), n\<lparr>nd_state := d1\<rparr>)
                          | Inr (r, d2, paid) \<Rightarrow>
                              let n2 = n\<lparr>nd_state := d2, nd_kings := record_share (ne_written E) (nd_kings n) paid\<rparr>
                              in if h_Root h \<noteq> State_Root (ne_kv E) (ne_sha256 E) d2 then (Inl V_Final_Root, n2)
                                 else (Inr (), updateEngine (updateKings E n2 blk h r) h ph))
                     | _ \<Rightarrow> (Inl V_Panic, n\<lparr>nd_state := d1\<rparr>))))
      | _ \<Rightarrow> (Inl V_Nil_Block, n))"

section \<open>Lemmas\<close>

lemma first_error_Inr: "first_error cs = Inr u \<longleftrightarrow> (\<forall>c \<in> set cs. \<exists>v. c = Inr v)"
  by (induction cs) (auto split: sum.split)

lemma validateBasic_Inr:
  assumes "validateBasicBlockIntegrity C now (Some b) parent = Inr u"
  obtains h p ph n pn where "b_Header b = Some h" "parent = Some p" "b_Header p = Some ph"
    "h_Number h = Some n" "h_Number ph = Some pn" "big_uint64 n = big_uint64 pn + 1" "big_uint64 n \<noteq> 0"
    "h_ParentHash h = Block_Hash C p" "h_Time ph < h_Time h" "h_Time h \<le> word_of_int now + MaxClockDrift"
    "h_Time ph + BlockTimeTarget \<le> h_Time h" "ValidateExtraDataSize (h_Extra h) = Inr ()"
  using assms
  by (auto simp: validateBasicBlockIntegrity_def header_height_def not_less not_le split: option.splits sum.splits if_splits)

lemma validateProofOfWork_Inr:
  "validateProofOfWork C engine (Some h) = Inr u \<Longrightarrow>
    \<exists>ph. powHeaderFromBlockHeader (Some h) = Inr ph \<and> Verify_pow C (Some ph) = Some True"
  by (auto simp: validateProofOfWork_def split: option.splits sum.splits if_splits)

lemma validateDifficulty_Inr:
  assumes "validateDifficulty byHash engine h parent = Inr u"
  obtains p d where "engine = Some p" "h_Difficulty h = Some d"
    "calculateExpectedDifficultyFromChainState byHash p h parent = Some d"
  using assms by (auto simp: validateDifficulty_def split: option.splits if_splits)

lemma proposal_Inr:
  assumes "ValidateMinedBlockProposal C sha256 byHash now engine (Some b) = Inr ()" and "b_Header b = Some h"
    and "header_height h \<noteq> Some 0"
  obtains number parent where "h_Number h = Some number" "number \<noteq> 0" "byHash (h_ParentHash h) = Some parent"
    "first_error (proposal_checks C sha256 byHash now engine b h parent) = Inr ()"
proof -
  obtain number where num: "h_Number h = Some number" "number \<noteq> 0"
    using assms by (auto simp: ValidateMinedBlockProposal_def header_height_def big_uint64_def split: option.splits if_splits)
  obtain parent where "byHash (h_ParentHash h) = Some parent"
    using assms(1,2) num by (auto simp: ValidateMinedBlockProposal_def split: option.splits)
  with num assms(1,2) show thesis by (intro that [of number parent]) (simp_all add: ValidateMinedBlockProposal_def)
qed

text \<open>The ways in which \<open>validateAndExecuteBlock\<close> ends.\<close>

lemma validateAndExecute_accepts:
  assumes "validateAndExecuteBlock E n (Some b) parent = (Inr (), n')"
  obtains h ph king fees d1 r d2 paid where
    "b_Header b = Some h" "Option.bind parent b_Header = Some ph"
    "prechecks E n b h parent = Inr ()" "rootPrecheck E n b h = Inr ()"
    "runTransactions E (nd_state n) b h = (Inr fees, d1)"
    "king_for (ne_crypto E) (nd_kings n) (h_Extra h) = Some king"
    "distributeBlockRewards (ne_kv E) (ne_crypto E) (ne_distributor E) king (nd_pow n \<noteq> None) d1 h (Some fees) = Inr (r, d2, paid)"
    "h_Root h = State_Root (ne_kv E) (ne_sha256 E) d2"
    "n' = updateEngine (updateKings E (n\<lparr>nd_state := d2, nd_kings := record_share (ne_written E) (nd_kings n) paid\<rparr>) b h r) h ph"
proof -
  obtain h where h: "b_Header b = Some h"
    using assms by (cases "b_Header b") (auto simp: validateAndExecuteBlock_def)
  have checks: "prechecks E n b h parent = Inr ()" "rootPrecheck E n b h = Inr ()"
    using assms h by (auto simp: validateAndExecuteBlock_def split: sum.splits)
  obtain fees d1 where run: "runTransactions E (nd_state n) b h = (Inr fees, d1)"
    using assms h checks by (auto simp: validateAndExecuteBlock_def split: sum.splits prod.splits)
  obtain king ph where king: "king_for (ne_crypto E) (nd_kings n) (h_Extra h) = Some king" "Option.bind parent b_Header = Some ph"
    using assms h checks run by (auto simp: validateAndExecuteBlock_def split: sum.splits option.splits)
  obtain r d2 paid where dist: "distributeBlockRewards (ne_kv E) (ne_crypto E) (ne_distributor E) king (nd_pow n \<noteq> None) d1 h (Some fees) = Inr (r, d2, paid)"
    using assms h checks run king by (auto simp: validateAndExecuteBlock_def split: sum.splits)
  have "h_Root h = State_Root (ne_kv E) (ne_sha256 E) d2"
    and "n' = updateEngine (updateKings E (n\<lparr>nd_state := d2, nd_kings := record_share (ne_written E) (nd_kings n) paid\<rparr>) b h r) h ph"
    using assms h checks run king dist by (auto simp: validateAndExecuteBlock_def Let_def split: if_splits)
  with h king checks run dist show thesis by (rule_tac that)
qed

lemma update_state [simp]:
  "nd_state (updateEngine n h ph) = nd_state n" "nd_state (updateKings E n b h r) = nd_state n"
  by (auto simp: updateEngine_def updateKings_def split: option.split prod.split sum.split)

lemma runTransactions_Inr:
  assumes "runTransactions E d b h = (Inr fees, d1)" and "b_Header b = Some h"
  shows "\<exists>gas. executeBlockTransactions (ne_kv E) (ne_crypto E) (ne_sha256 E) (ne_view E) d b = (Inr (fees, gas), d1) \<and> h_GasUsed h = gas"
  using assms
  by (auto simp: runTransactions_def executeBlockTransactions_def Let_def split: if_splits prod.splits sum.splits)

text \<open>The dry run that passed rules out a failure of the reward step and of the final root.\<close>

lemma rootPrecheck_Inr:
  assumes "rootPrecheck E n b h = Inr ()"
  obtains number king where "h_Number h = Some number" "king_for (ne_crypto E) (nd_kings n) (h_Extra h) = Some king"
    "computeBlockFinalStateRoot (ne_kv E) (ne_crypto E) (ne_sha256 E) (ne_distributor E) king (nd_pow n \<noteq> None)
       (nd_state n) (ne_opened E) (h_Coinbase h) (h_Time h) (big_uint64 number) (h_Extra h) (b_Txs b) = Inr (h_Root h)"
  using assms by (auto simp: rootPrecheck_def header_height_def split: option.splits sum.splits if_splits)



section \<open>What the king manager records\<close>

lemma RecordReward_reads [simp]:
  "GetCurrentKing (RecordRewardDistribution w m k r) = GetCurrentKing m"
  "ShouldRotate (RecordRewardDistribution w m k r) h = ShouldRotate m h"
  by (simp_all add: RecordRewardDistribution_def saveState_def Let_def GetCurrentKing_def king_at_def ShouldRotate_def)

lemma process_records:
  assumes "GetCurrentKing m = Some k" and "\<not> ShouldRotate m height"
    and "kd_RotatingKingAddress d = zero_address \<or> kd_RotatingKingAddress d = k"
  shows "processRotatingKingForBlock w now m height bh d =
    (Inr k, if kd_RotatingKingEligible d \<and> kd_RotatingKingReward d > 0
       then RecordRewardDistribution w m (kd_RotatingKingAddress d) (Some (kd_RotatingKingReward d)) else m)"
  using assms by (auto simp: processRotatingKingForBlock_def Let_def)

lemma Distribute_addresses:
  assumes "DistributeRewards K d mk miner fees n (Some k) pos = Inr (r, d', rec)"
  shows "rd_Miner r = miner" "rd_MainKingAddress r = mk" "rd_RotatingKingAddress r = zero_address \<or> rd_RotatingKingAddress r = k"
  using assms by (auto simp: DistributeRewards_def Let_def split: if_splits prod.splits)

section \<open>Fields that nothing seals\<close>

text \<open>The header without the fields that neither the proof of work nor a check looks at.\<close>

definition unsealed :: "header \<Rightarrow> header" where
  "unsealed h = h\<lparr>h_UncleHash := 0, h_ReceiptHash := 0, h_Bloom := [], h_GasLimit := 0, h_GasUsed := 0,
     h_Signature := [], h_Stakers := [], h_TxRoot := 0\<rparr>"

lemma unsealed_eq:
  assumes "unsealed h' = unsealed h"
  shows "h_ParentHash h' = h_ParentHash h" "h_Coinbase h' = h_Coinbase h" "h_Root h' = h_Root h"
    "h_TxHash h' = h_TxHash h" "h_Difficulty h' = h_Difficulty h" "h_Number h' = h_Number h" "h_Time h' = h_Time h"
    "h_Extra h' = h_Extra h" "h_MixDigest h' = h_MixDigest h" "h_Nonce h' = h_Nonce h"
    "h_ProtocolVersion h' = h_ProtocolVersion h" "h_UpgradeName h' = h_UpgradeName h"
    "h_UpgradeTimestamp h' = h_UpgradeTimestamp h" "h_MainKingAddress h' = h_MainKingAddress h"
    "h_RewardAmount h' = h_RewardAmount h" "h_CurrentReward h' = h_CurrentReward h" "h_Version h' = h_Version h"
  using arg_cong [OF assms, of h_ParentHash] arg_cong [OF assms, of h_Coinbase] arg_cong [OF assms, of h_Root]
    arg_cong [OF assms, of h_TxHash] arg_cong [OF assms, of h_Difficulty] arg_cong [OF assms, of h_Number]
    arg_cong [OF assms, of h_Time] arg_cong [OF assms, of h_Extra] arg_cong [OF assms, of h_MixDigest]
    arg_cong [OF assms, of h_Nonce] arg_cong [OF assms, of h_ProtocolVersion] arg_cong [OF assms, of h_UpgradeName]
    arg_cong [OF assms, of h_UpgradeTimestamp] arg_cong [OF assms, of h_MainKingAddress]
    arg_cong [OF assms, of h_RewardAmount] arg_cong [OF assms, of h_CurrentReward] arg_cong [OF assms, of h_Version]
  by (simp_all add: unsealed_def)

lemma unsealed_checks:
  assumes "unsealed h' = unsealed h" and "b_Header b = Some h"
  shows "validateBasicBlockIntegrity C now (Some (b\<lparr>b_Header := Some h'\<rparr>)) parent = validateBasicBlockIntegrity C now (Some b) parent"
    and "validateBlockHash C (b\<lparr>b_Header := Some h'\<rparr>) = validateBlockHash C b"
    and "validatePoSEligibility now engine h' = validatePoSEligibility now engine h"
    and "validateDifficulty byHash engine h' parent = validateDifficulty byHash engine h parent"
    and "validateProofOfWork C engine (Some h') = validateProofOfWork C engine (Some h)"
    and "validateTransactionRoot C sha256 (b\<lparr>b_Header := Some h'\<rparr>) h' = validateTransactionRoot C sha256 b h"
    and "h_Signature h' \<noteq> [] \<Longrightarrow> h_Signature h \<noteq> [] \<Longrightarrow> validateBlockSignature h' = validateBlockSignature h"
  by (simp_all add: assms(2) validateBasicBlockIntegrity_def validateBlockHash_def Block_Hash_def validatePoSEligibility_def
      validateDifficulty_def calculateExpectedDifficultyFromChainState_def validateProofOfWork_def
      powHeaderFromBlockHeader_def validateTransactionRoot_def validateBlockSignature_def VerifyBlockSignature_def
      header_height_def)
    (unfold calculateExpectedDifficultyFromChainState_def powHeaderFromBlockHeader_def VerifyBlockSignature_def
      header_height_def option.case unsealed_eq [OF assms(1)], simp_all)

lemma unsealed_protocol:
  assumes "unsealed h' = unsealed h" and "header_height h \<noteq> Some 0"
  shows "validateProtocolHeader C (Some h') = validateProtocolHeader C (Some h)"
  using assms(2)
  by (auto simp: validateProtocolHeader_def header_height_def unsealed_eq [OF assms(1)] Let_def split: option.split sum.split)

lemma wrong_gas_checks:
  fixes g :: u64
  assumes "b_Header b = Some h"
  defines "h' \<equiv> h\<lparr>h_GasUsed := g\<rparr>"
  shows "prechecks E n (b\<lparr>b_Header := Some h'\<rparr>) h' parent = prechecks E n b h parent"
    and "rootPrecheck E n (b\<lparr>b_Header := Some h'\<rparr>) h' = rootPrecheck E n b h"
    and "executeBlockTransactions K C sha256 V d (b\<lparr>b_Header := Some h'\<rparr>) = executeBlockTransactions K C sha256 V d b"
proof -
  have u: "unsealed h' = unsealed h" by (simp add: unsealed_def h'_def)
  have s: "validateBlockSignature h' = validateBlockSignature h"
    by (auto simp: validateBlockSignature_def h'_def header_height_def VerifyBlockSignature_def split: option.split)
  show "prechecks E n (b\<lparr>b_Header := Some h'\<rparr>) h' parent = prechecks E n b h parent"
    unfolding prechecks_def by (simp only: unsealed_checks [OF u assms(1)] s)
  show "rootPrecheck E n (b\<lparr>b_Header := Some h'\<rparr>) h' = rootPrecheck E n b h"
    by (cases "h_Number h"; cases "king_for (ne_crypto E) (nd_kings n) (h_Extra h)")
      (simp_all add: rootPrecheck_def h'_def header_height_def split: sum.split)
  show "executeBlockTransactions K C sha256 V d (b\<lparr>b_Header := Some h'\<rparr>) = executeBlockTransactions K C sha256 V d b"
    using assms(1) by (simp add: executeBlockTransactions_def h'_def)
qed

lemma wrong_gas_outcome:
  assumes "validateAndExecuteBlock E n (Some b) parent = (Inr (), n')" and "b_Header b = Some h"
    and "g \<noteq> h_GasUsed h" and "b_Txs b \<noteq> []"
  shows "\<exists>fees d1. executeBlockTransactions (ne_kv E) (ne_crypto E) (ne_sha256 E) (ne_view E) (nd_state n) b
      = (Inr (fees, h_GasUsed h), d1)
    \<and> validateAndExecuteBlock E n (Some (b\<lparr>b_Header := Some (h\<lparr>h_GasUsed := g\<rparr>)\<rparr>)) parent
      = (Inl V_Gas_Used, n\<lparr>nd_state := d1\<rparr>)"
  using assms(1)
proof (rule validateAndExecute_accepts)
  fix h0 ph king fees d1 r d2 paid
  assume H: "b_Header b = Some h0" and checks: "prechecks E n b h0 parent = Inr ()" "rootPrecheck E n b h0 = Inr ()"
    and run: "runTransactions E (nd_state n) b h0 = (Inr fees, d1)"
  have h: "h0 = h" using H assms(2) by simp
  have exec: "executeBlockTransactions (ne_kv E) (ne_crypto E) (ne_sha256 E) (ne_view E) (nd_state n) b = (Inr (fees, h_GasUsed h), d1)"
    using runTransactions_Inr [OF run H] h by auto
  then have "runTransactions E (nd_state n) (b\<lparr>b_Header := Some (h\<lparr>h_GasUsed := g\<rparr>)\<rparr>) (h\<lparr>h_GasUsed := g\<rparr>) = (Inl V_Gas_Used, d1)"
    using assms(3,4) by (simp add: runTransactions_def wrong_gas_checks(3) [OF assms(2)])
  moreover have "first_error [prechecks E n (b\<lparr>b_Header := Some (h\<lparr>h_GasUsed := g\<rparr>)\<rparr>) (h\<lparr>h_GasUsed := g\<rparr>) parent,
      rootPrecheck E n (b\<lparr>b_Header := Some (h\<lparr>h_GasUsed := g\<rparr>)\<rparr>) (h\<lparr>h_GasUsed := g\<rparr>)] = Inr ()"
    unfolding wrong_gas_checks(1,2) [OF assms(2)] using checks by (simp add: h)
  ultimately show ?thesis using exec by (simp add: validateAndExecuteBlock_def del: first_error.simps)
qed

section \<open>A concrete block\<close>

text \<open>A block with one transfer on top of a parent without a difficulty, with digests that are zero.\<close>

definition bv_parent :: block where
  "bv_parent = \<lparr>b_Header = Some (sample_header\<lparr>h_Difficulty := None\<rparr>), b_Txs = [], b_Uncles = []\<rparr>"

definition bv_header :: header where
  "bv_header = sample_header\<lparr>h_Number := Some 1, h_Time := 1763731971, h_Signature := [1], h_GasUsed := 21000,
     h_Difficulty := Some (CalculateExpectedDifficulty NewPoW 1 0 1763731971),
     h_UpgradeName := str_bytes ''genesis'', h_UpgradeTimestamp := GenesisTimestamp,
     h_RewardAmount := Some initialBlockReward, h_CurrentReward := Some initialBlockReward\<rparr>"

definition bv_block :: block where
  "bv_block = \<lparr>b_Header = Some bv_header, b_Txs = [Some sample_tx], b_Uncles = []\<rparr>"

definition bv_env :: "(bytes, bytes) alist node_env" where
  "bv_env = \<lparr>ne_kv = map_kv, ne_crypto = king_crypto, ne_sha256 = \<lambda>_. 0, ne_view = no_chain,
     ne_byHash = \<lambda>_. Some bv_parent, ne_distributor = Some 3, ne_now = 1763731971, ne_opened = Some DAList.empty,
     ne_written = \<lambda>_. True\<rparr>"

definition bv_state :: "(bytes, bytes) alist" where
  "bv_state = DAList.update (balance_key 8) (big_bytes eligibilityThreshold)
     (DAList.update (balance_key 0) (big_bytes 1000000000000000) DAList.empty)"

definition bv_node :: "(bytes, bytes) alist node" where
  "bv_node = \<lparr>nd_state = bv_state, nd_kings = Some king_demo, nd_pow = Some NewPoW\<rparr>"

lemma bv_state_get:
  "GetBalance map_kv bv_state a = (if a = 0 then 1000000000000000 else if a = 8 then eligibilityThreshold else 0)"
  "GetNonce map_kv bv_state a = Some 0"
  by (simp_all add: bv_state_def GetBalance_def GetNonce_def map_kv_def lookup_update eligibilityThreshold_def oneANTD_def)

lemma king_sha3 [simp]: "sha3 king_crypto b = 0" "Header_Hash king_crypto h = 0"
  by (simp_all add: king_crypto_def Header_Hash_def zero_hash_def split: option.split)

lemma bv_parent_hash: "Block_Hash king_crypto p = 0"
  by (simp add: Block_Hash_def zero_hash_def split: option.split)

lemma bv_difficulty: "1 \<le> CalculateExpectedDifficulty NewPoW n a b" "CalculateExpectedDifficulty NewPoW n a b \<le> MaxDifficulty"
  by (simp_all add: CalculateExpectedDifficulty_def Let_def FromWindow_range)

lemma Target_pos: "0 < Target v"
proof -
  have "Normalize v \<le> 2 ^ 256" using Normalize_range(2) [of v] by (simp add: MaxDifficulty_def)
  then have "2 ^ 256 div 2 ^ 256 \<le> 2 ^ 256 div Normalize v"
    using Normalize_range(1) [of v] by (intro zdiv_mono2) simp_all
  then show ?thesis by (simp add: Target_def)
qed

lemma zero_digest_verifies:
  assumes "\<And>s. sha3 C s = 0" and "ph_MixDigest h = 0" and "ph_Difficulty h = Some d" and "1 \<le> d" and "d \<le> MaxDifficulty"
  shows "Verify_pow C (Some h) = Some True"
proof -
  have "nat d < nat (2 ^ 256)" using assms(4,5) by (subst nat_less_eq_zless) (simp_all add: MaxDifficulty_def)
  also have "nat (2 ^ 256) = 256 ^ 32" by simp
  finally have "length (big_bytes d) \<le> 32"
    using length_nat_bytes_le [of "nat d" 32] assms(4) by (simp add: big_bytes_def)
  then have "\<exists>p. mining_prefix h = Some p"
    using assms(3,4) by (simp add: mining_prefix_def mining_difficulty_def Let_def)
  then show ?thesis
    using assms(1-3) Target_pos [of "Some d"] by (auto simp: Verify_pow_def SerializeForMining_def below_target_def Let_def)
qed

lemma bv_basic: "validateBasicBlockIntegrity king_crypto 1763731971 (Some bv_block) (Some bv_parent) = Inr ()"
  by (simp add: validateBasicBlockIntegrity_def bv_block_def bv_header_def bv_parent_def header_height_def sample_header_def
      big_uint64_def ValidateExtraDataSize_def validateExtraDataContent_def bv_parent_hash MaxClockDrift_def BlockTimeTarget_def)

lemma bv_pow: "validateProofOfWork king_crypto (Some NewPoW) (Some bv_header) = Inr ()"
proof -
  obtain ph where ph: "powHeaderFromBlockHeader (Some bv_header) = Inr ph" "ph_MixDigest ph = 0"
      "ph_Difficulty ph = Some (CalculateExpectedDifficulty NewPoW 1 0 1763731971)"
    by (simp add: powHeaderFromBlockHeader_def header_height_def bv_header_def sample_header_def)
  then have "Verify_pow king_crypto (Some ph) = Some True"
    using zero_digest_verifies [OF king_sha3(1) ph(2,3) bv_difficulty] by blast
  with ph(1) show ?thesis by (simp add: validateProofOfWork_def)
qed

lemma bv_checks:
  "validateBlockHash king_crypto bv_block = Inr ()" "validatePoSEligibility 1763731971 (Some NewPoW) bv_header = Inr ()"
  "validateDifficulty byHash (Some NewPoW) bv_header (Some bv_parent) = Inr ()"
  "validateTransactionRoot king_crypto (\<lambda>_. 0) bv_block bv_header = Inr ()"
  "validateBlockSignature bv_header = Inr ()"
  by (simp_all add: validateBlockHash_def bv_parent_hash validatePoSEligibility_def VerifyMinerEligibility_def
      validateDifficulty_def calculateExpectedDifficultyFromChainState_def header_height_def bv_parent_def
      validateTransactionRoot_def CalcTxRoot_def CalculateTxHash_def tx_Hash_def HashForSigning_def
      validateBlockSignature_def VerifyBlockSignature_def bv_header_def bv_block_def sample_header_def big_uint64_def)

lemma bv_protocol: "validateProtocolHeader king_crypto (Some bv_header) = Inr ()"
  by (simp add: validateProtocolHeader_Inr protocolMainKingAddress_def king_crypto_parses bv_header_def sample_header_def
      period_reward_def schedule_reward_def) (simp add: big_uint64_def)

lemma bv_transfer_runs:
  assumes "515 \<le> GetBalance map_kv d 0" and "21000 \<le> vm_gas v"
  shows "fst (Execute map_kv C sha c v d sample_tx) = Inr (Hash_Bytes (State_Root map_kv sha (exec_state (Execute map_kv C sha c v d sample_tx))))"
proof -
  have "tx_Data sample_tx = []" "tx_From sample_tx = 0" "tx_Value sample_tx = Some 515" "tx_To sample_tx = Some 5"
    by (simp_all add: sample_tx_def)
  with assms show ?thesis by (simp add: Execute_def sample_tx_ok canTransfer_def Let_def not_less)
qed

lemma king_address [simp]: "ParseQuantumAddress king_crypto (PubKeyToAddress king_crypto k) = Inr 0"
proof -
  have "addressChecksum king_crypto p = replicate 4 0" for p
    by (simp add: addressChecksum_def Hash_Bytes_def word_bytes_def be_bytes_0)
  then show ?thesis
    by (simp add: PubKeyToAddress_def EncodeAddress_def Let_def ParseQuantumAddress_def ExtractPayload_def AddressPrefix_def
        NewQuantumAddressFromBytes_def bytes_word_def king_crypto_def)
qed

lemma bv_tx_ok: "Verify_Tx king_crypto sha sample_tx = Inr ()"
  by (simp add: Verify_Tx_def sample_tx_def Verify_Signature_def MLDSA65SignatureSize_def)
    (simp add: king_crypto_def const_crypto_def toy_crypto_def)

lemma bv_executes:
  "\<exists>d1. executeBlockTransactions map_kv king_crypto (\<lambda>_. 0) no_chain bv_state bv_block = (Inr (21000000000000, 21000), d1)
    \<and> GetBalance map_kv d1 5 = 515"
proof -
  let ?x = "Execute map_kv king_crypto (\<lambda>_. 0) (\<lambda>_. False) (NewVM 60000000) bv_state sample_tx"
  have run: "\<exists>r. fst ?x = Inr r"
    using bv_transfer_runs [of bv_state "NewVM 60000000"] by (simp add: bv_state_get NewVM_def)
  have gas: "gas_cost sample_tx = Some 21000000000000"
    by (simp add: gas_cost_def sample_tx_def)
  have "spendableBalanceAtHeight map_kv bv_state (cv_blockAt no_chain) (cv_minConfirmations no_chain) 0 0 (\<lambda>_. None)
      = Some 1000000000000000"
    by (simp add: spendableBalanceAtHeight_def immatureIncomingBalance_def txMaturityConfirmations_def no_chain_def bv_state_get)
  then have val: "validateTransactionForExecutionAtHeight map_kv king_crypto (\<lambda>_. 0) bv_state no_chain (Some sample_tx) 0 0 (\<lambda>_. None) = Inr ()"
    using gas by (simp add: validateTransactionForExecutionAtHeight_def bv_tx_ok Let_def bv_state_get) (simp add: sample_tx_def bv_state_get)
  have tx: "tx_Data sample_tx = []" "tx_From sample_tx = 0" "tx_Value sample_tx = Some 515" "tx_To sample_tx = Some 5"
      "tx_Gas sample_tx = 21000"
    by (simp_all add: sample_tx_def)
  have "GetBalance map_kv (exec_state ?x) 5 = 515"
  proof -
    obtain r where r: "fst ?x = Inr r" using run by blast
    have can: "canTransfer map_kv bv_state 0 515" by (simp add: canTransfer_def bv_state_get)
    have "GetBalance map_kv (exec_state ?x) = GetBalance map_kv (transfer map_kv bv_state 0 5 515)"
      by (rule Execute_transfer [OF r tx(1)]) (use tx mkv.SetNonce_or_unchanged(1) in auto)
    then show ?thesis by (simp add: mkv.balance_vm_transfer [OF _ can] bv_state_get)
  qed
  then show ?thesis
    using tx(5) run val gas by (auto simp: executeBlockTransactions_def bv_block_def bv_header_def sample_header_def big_uint64_def
        Let_def transactionCommittedGas_def)
qed

lemma bv_dry_run: "rootPrecheck bv_env bv_node bv_block bv_header = Inr ()"
proof -
  have empty: "kv_get map_kv DAList.empty = Map.empty" by (simp add: map_kv_def fun_eq_iff)
  obtain s0 where s0: "State_Clone map_kv bv_state (Some DAList.empty) = Inr s0"
    by (simp add: State_Clone_def map_kv_def put_result_def)
  then have "GetBalance map_kv s0 = GetBalance map_kv bv_state"
    using kv_reliable.same_Clone [OF mkv.kv_reliable_axioms s0 empty] same_reads(1) by metis
  then obtain r where "fst (Execute map_kv king_crypto (\<lambda>_. 0) (\<lambda>_. False) (NewVM 10000000) s0 sample_tx) = Inr r"
    using bv_transfer_runs [of s0 "NewVM 10000000"] by (simp add: bv_state_get NewVM_def)
  then obtain s1 where s1: "executeTransactionsOnState map_kv king_crypto (\<lambda>_. 0) s0 [Some sample_tx] 10000000 = Inr s1"
    by (simp add: executeTransactionsOnState_def bv_tx_ok Let_def)
  have king: "king_for king_crypto (Some king_demo) [] = Some (Some 8)" "rotatingKingFromBlockExtra king_crypto [] = None"
    by (simp_all add: king_for_def rotatingKingFromBlockExtra_def TrimSpace_def strip_front.simps utf8_spaces_def str_bytes_def
        king_demo_def GetCurrentKing_def king_at_def)
  obtain dr s2 rec where "DistributeRewards map_kv s1 3 7 (Some 21000000000000) 1 (Some 8) True = Inr (dr, s2, rec)"
    by (rule DistributeRewards_returns)
  then show ?thesis
    using s0 s1 king
    by (simp add: rootPrecheck_def bv_env_def bv_node_def header_height_def bv_header_def sample_header_def big_uint64_def
        bv_block_def computeBlockFinalStateRoot_def ValidateExtraDataSize_def validateExtraDataContent_def dry_fees_def
        gas_cost_def sample_tx_def State_Root_def map_kv_def)
qed

lemma bv_accepted: "\<exists>n'. validateAndExecuteBlock bv_env bv_node (Some bv_block) (Some bv_parent) = (Inr (), n')"
proof -
  have sel: "ne_crypto bv_env = king_crypto" "ne_sha256 bv_env = (\<lambda>_. 0)" "ne_now bv_env = 1763731971" "ne_kv bv_env = map_kv"
      "ne_view bv_env = no_chain" "ne_distributor bv_env = Some 3" "nd_pow bv_node = Some NewPoW" "nd_state bv_node = bv_state"
      "nd_kings bv_node = Some king_demo" "h_GasUsed bv_header = 21000" "h_GasLimit bv_header = 60000000"
      "h_Extra bv_header = []" "h_Number bv_header = Some 1" "h_Root bv_header = 0" "b_Header bv_block = Some bv_header"
      "b_Txs bv_block = [Some sample_tx]" "b_Header bv_parent = Some (sample_header\<lparr>h_Difficulty := None\<rparr>)"
    by (simp_all add: bv_env_def bv_node_def bv_header_def sample_header_def bv_block_def bv_parent_def)
  have "prechecks bv_env bv_node bv_block bv_header (Some bv_parent) = Inr ()"
    by (simp add: prechecks_def sel bv_basic bv_checks bv_pow)
  then have checks: "first_error [prechecks bv_env bv_node bv_block bv_header (Some bv_parent), rootPrecheck bv_env bv_node bv_block bv_header] = Inr ()"
    by (simp add: bv_dry_run)
  obtain d1 where run: "runTransactions bv_env bv_state bv_block bv_header = (Inr 21000000000000, d1)"
    using bv_executes by (auto simp: runTransactions_def sel)
  have king: "king_for king_crypto (Some king_demo) [] = Some (Some 8)" "resolveRotatingKingManagerForBlock king_crypto (Some 8) (Some bv_header) = Some 8"
    by (simp_all add: king_for_def resolveRotatingKingManagerForBlock_def rotatingKingFromBlockExtra_def TrimSpace_def strip_front.simps
        utf8_spaces_def str_bytes_def king_demo_def GetCurrentKing_def king_at_def sel)
  obtain r d2 paid where "DistributeRewards map_kv d1 3 (h_Coinbase bv_header) (Some 21000000000000) (big_uint64 1) (Some 8) True = Inr (r, d2, paid)"
    by (rule DistributeRewards_returns)
  then have "distributeBlockRewards map_kv king_crypto (Some 3) (Some 8) True d1 bv_header (Some 21000000000000) = Inr (r, d2, paid)"
    using king by (simp add: distributeBlockRewards_def sel)
  moreover have "State_Root map_kv (\<lambda>_. 0) d2 = 0" by (simp add: State_Root_def map_kv_def)
  ultimately show ?thesis
    using checks run king by (simp add: validateAndExecuteBlock_def sel Let_def del: first_error.simps)
qed


section \<open>Properties\<close>

text \<open>
  C3: an accepted block continues its parent (hash link, height, at least 150 seconds, at most 30
  seconds ahead of the clock), has a valid proof of work and transaction root, declares exactly
  the gas of its transactions and the state root that the node has afterwards, and creates the
  scheduled reward plus the fees, no more.
\<close>

theorem accepted_block_guarantees:
  assumes "kv_reliable (ne_kv E)" and "ne_opened E = Some fresh" and "kv_get (ne_kv E) fresh = Map.empty"
    and accepted: "validateAndExecuteBlock E n (Some b) (Some p) = (Inr (), n')"
    and headers: "b_Header b = Some h" "b_Header p = Some ph"
  shows "h_ParentHash h = Block_Hash (ne_crypto E) p
    \<and> (\<exists>number. h_Number h = Some number \<and> header_height ph = Some (big_uint64 number - 1)
        \<and> ledger_total (GetBalance (ne_kv E) (nd_state n')) =
            ledger_total (GetBalance (ne_kv E) (nd_state n)) + CalculateBlockReward (big_uint64 number) + max 0 (fee_sum (b_Txs b)))
    \<and> h_Time ph < h_Time h \<and> h_Time ph + 150 \<le> h_Time h \<and> h_Time h \<le> word_of_int (ne_now E) + 30
    \<and> (\<exists>pw. powHeaderFromBlockHeader (Some h) = Inr pw \<and> Verify_pow (ne_crypto E) (Some pw) = Some True)
    \<and> h_TxHash h = CalculateTxHash (ne_crypto E) (ne_sha256 E) (b_Txs b)
    \<and> h_GasUsed h = (\<Sum>t\<leftarrow>b_Txs b. transactionCommittedGas t)
    \<and> h_Root h = State_Root (ne_kv E) (ne_sha256 E) (nd_state n')"
  using accepted
proof (rule validateAndExecute_accepts)
  fix h0 ph0 king fees d1 r d2 paid
  assume H: "b_Header b = Some h0" "Option.bind (Some p) b_Header = Some ph0"
    and checks: "prechecks E n b h0 (Some p) = Inr ()" "rootPrecheck E n b h0 = Inr ()"
    and run: "runTransactions E (nd_state n) b h0 = (Inr fees, d1)"
    and king: "king_for (ne_crypto E) (nd_kings n) (h_Extra h0) = Some king"
    and dist: "distributeBlockRewards (ne_kv E) (ne_crypto E) (ne_distributor E) king (nd_pow n \<noteq> None) d1 h0 (Some fees) = Inr (r, d2, paid)"
    and root: "h_Root h0 = State_Root (ne_kv E) (ne_sha256 E) d2"
    and n': "n' = updateEngine (updateKings E (n\<lparr>nd_state := d2, nd_kings := record_share (ne_written E) (nd_kings n) paid\<rparr>) b h0 r) h0 ph0"
  have eq: "h0 = h" "ph0 = ph" using H headers by simp_all
  note pre = checks(1) [unfolded prechecks_def first_error_Inr eq, simplified]
  obtain gas where exec: "executeBlockTransactions (ne_kv E) (ne_crypto E) (ne_sha256 E) (ne_view E) (nd_state n) b = (Inr (fees, gas), d1)"
    and gas: "h_GasUsed h = gas"
    using runTransactions_Inr [OF run H(1)] eq by blast
  obtain number king' where num: "h_Number h = Some number" and king': "king_for (ne_crypto E) (nd_kings n) (h_Extra h) = Some king'"
    and dry: "computeBlockFinalStateRoot (ne_kv E) (ne_crypto E) (ne_sha256 E) (ne_distributor E) king' (nd_pow n \<noteq> None)
       (nd_state n) (ne_opened E) (h_Coinbase h) (h_Time h) (big_uint64 number) (h_Extra h) (b_Txs b) = Inr (h_Root h)"
    using rootPrecheck_Inr [OF checks(2)] unfolding eq by metis
  have same: "king' = king" using king king' by (simp add: eq)
  note agree = dry_run_agrees [OF assms(1,3) dry [unfolded same assms(2)] exec dist [unfolded eq] headers(1) num]
  note total = block_totals [OF assms(1) exec dist [unfolded eq] num]
  from pre obtain u where basic: "validateBasicBlockIntegrity (ne_crypto E) (ne_now E) (Some b) (Some p) = Inr u" by blast
  have "h_ParentHash h = Block_Hash (ne_crypto E) p \<and> header_height ph = Some (big_uint64 number - 1)
      \<and> h_Time ph < h_Time h \<and> h_Time ph + 150 \<le> h_Time h \<and> h_Time h \<le> word_of_int (ne_now E) + 30"
    using basic headers num
    by (elim validateBasic_Inr) (auto simp: header_height_def MaxClockDrift_def BlockTimeTarget_def)
  moreover have "\<exists>pw. powHeaderFromBlockHeader (Some h) = Inr pw \<and> Verify_pow (ne_crypto E) (Some pw) = Some True"
    using pre validateProofOfWork_Inr by blast
  moreover have "h_TxHash h = CalculateTxHash (ne_crypto E) (ne_sha256 E) (b_Txs b)"
    using pre by (auto simp: validateTransactionRoot_def CalcTxRoot_def split: if_splits)
  moreover have "nd_state n' = d2" by (simp add: n')
  ultimately show ?thesis using agree total gas num root eq by auto
qed

theorem accepted_block_guarantees_witness:
  "\<exists>n'. validateAndExecuteBlock bv_env bv_node (Some bv_block) (Some bv_parent) = (Inr (), n')
    \<and> ledger_total (GetBalance map_kv (nd_state n')) = ledger_total (GetBalance map_kv bv_state)
        + CalculateBlockReward 1 + max 0 (fee_sum [Some sample_tx])"
proof -
  have empty: "kv_get map_kv DAList.empty = Map.empty" by (simp add: map_kv_def fun_eq_iff)
  obtain n' where n': "validateAndExecuteBlock bv_env bv_node (Some bv_block) (Some bv_parent) = (Inr (), n')"
    using bv_accepted by blast
  moreover have "ne_kv bv_env = map_kv" "nd_state bv_node = bv_state" "b_Txs bv_block = [Some sample_tx]" "h_Number bv_header = Some 1"
      "b_Header bv_block = Some bv_header" "ne_opened bv_env = Some DAList.empty" "big_uint64 1 = 1"
    by (simp_all add: bv_env_def bv_node_def bv_block_def bv_header_def big_uint64_def)
  ultimately show ?thesis
    using accepted_block_guarantees [OF _ _ _ n', of DAList.empty bv_header] mkv.kv_reliable_axioms empty
    by (auto simp: bv_parent_def)
qed



text \<open>
  C5: whoever changes nothing but the declared gas of a valid block with transactions - no proof
  of work is needed for it - makes every node that receives it apply all of the transactions and
  then reject the block, without taking them back.
\<close>

theorem wrong_gas_poisons_the_state:
  assumes "validateAndExecuteBlock E n (Some b) parent = (Inr (), n')" and "b_Header b = Some h"
    and "g \<noteq> h_GasUsed h" and "b_Txs b \<noteq> []"
  shows "\<exists>fees d1. executeBlockTransactions (ne_kv E) (ne_crypto E) (ne_sha256 E) (ne_view E) (nd_state n) b
      = (Inr (fees, h_GasUsed h), d1)
    \<and> validateAndExecuteBlock E n (Some (b\<lparr>b_Header := Some (h\<lparr>h_GasUsed := g\<rparr>)\<rparr>)) parent
      = (Inl V_Gas_Used, n\<lparr>nd_state := d1\<rparr>)"
  by (rule wrong_gas_outcome [OF assms])

theorem wrong_gas_poisons_the_state_witness:
  "\<exists>d1. validateAndExecuteBlock bv_env bv_node (Some (bv_block\<lparr>b_Header := Some (bv_header\<lparr>h_GasUsed := 0\<rparr>)\<rparr>)) (Some bv_parent)
      = (Inl V_Gas_Used, bv_node\<lparr>nd_state := d1\<rparr>) \<and> GetBalance map_kv d1 5 = 515 \<and> GetBalance map_kv bv_state 5 = 0"
proof -
  obtain n' where n': "validateAndExecuteBlock bv_env bv_node (Some bv_block) (Some bv_parent) = (Inr (), n')"
    using bv_accepted by blast
  have "b_Header bv_block = Some bv_header" "0 \<noteq> h_GasUsed bv_header" "b_Txs bv_block \<noteq> []"
    by (simp_all add: bv_block_def bv_header_def)
  with wrong_gas_poisons_the_state [OF n' this] bv_executes bv_state_get(1) [of 5] show ?thesis
    by (fastforce simp: bv_env_def bv_node_def)
qed

text \<open>
  The difficulty of an accepted block on a parent with a difficulty is forced: its base
  comes from the timestamps of the chain and differs from the parent's at most by the factor
  four (below the size at which a base is taken for a difficulty with a suffix), and its suffix
  names the coinbase.
\<close>

theorem accepted_difficulty_is_forced:
  assumes "validateDifficulty byHash (Some engine) h (Some p) = Inr ()" and "b_Header p = Some ph"
    and "header_height h = Some height" and "height \<noteq> 0" and "h_Difficulty ph = Some pd"
    and "24 \<le> unat height \<longrightarrow> 23 \<le> length (collect_blocks byHash AdjustmentWindow ph)"
    and "4 * Normalize (Some pd) < minerDomain"
  shows "\<exists>d. h_Difficulty h = Some d
    \<and> d mod minerDomain = int (be_value (Address_Bytes (h_Coinbase h))) + 1
    \<and> Normalize (Some d) = CalculateDifficulty (Some pd) height (collectDifficultyTimestamps byHash ph (h_Time h))
    \<and> Normalize (Some pd) div 4 \<le> Normalize (Some d) \<and> Normalize (Some d) \<le> 4 * Normalize (Some pd)"
proof -
  let ?w = "collectDifficultyTimestamps byHash ph (h_Time h)"
  let ?base = "CalculateDifficulty (Some pd) height ?w"
  obtain d where d: "h_Difficulty h = Some d" "calculateExpectedDifficultyFromChainState byHash engine h (Some p) = Some d"
    using assms(1) by (elim validateDifficulty_Inr) auto
  have eq: "d = ForMiner (Some ?base) (h_Coinbase h)"
    using d(2) assms(2-5) by (simp add: calculateExpectedDifficultyFromChainState_def Let_def)
  have "length ?w = Suc (length (collect_blocks byHash AdjustmentWindow ph))"
    by (simp add: collectDifficultyTimestamps_def)
  moreover have "1 \<le> length (collect_blocks byHash AdjustmentWindow ph)"
    by (simp add: AdjustmentWindow_def LWMAWindow_def eval_nat_numeral)
  ultimately have "2 \<le> length ?w" and "24 \<le> unat height \<longrightarrow> 24 \<le> length ?w" using assms(6) by auto
  note bounds = retarget_bounds [OF assms(4) this, of "Some pd"]
  have "Normalize (Some ?base) = ?base"
    using bounds(2) assms(7) difficulty_in_range [of "Some pd" height ?w] by (simp add: Normalize_def Clamp_within)
  then show ?thesis
    using d(1) bounds ForMiner_divmod(2) [of "Some ?base" "h_Coinbase h"] by (simp add: eq Normalize_ForMiner)
qed

theorem accepted_difficulty_is_forced_witness:
  "Normalize (Some (ForMiner (Some (CalculateDifficulty (Some 1) 1 [1763731821, 1763731971])) 7)) \<le> 4"
proof -
  let ?d = "ForMiner (Some (CalculateDifficulty (Some 1) 1 [1763731821, 1763731971])) 7"
  let ?h = "sample_header\<lparr>h_Number := Some 1, h_Time := 1763731971, h_Difficulty := Some ?d\<rparr>"
  have "collect_blocks byHash AdjustmentWindow sample_header = [sample_header]" for byHash
    by (simp add: AdjustmentWindow_def LWMAWindow_def eval_nat_numeral sample_header_def)
  then have "collectDifficultyTimestamps (\<lambda>_. None) sample_header (h_Time ?h) = [1763731821, 1763731971]"
    by (simp add: collectDifficultyTimestamps_def) (simp add: sample_header_def)
  moreover have sel: "b_Header sample_parent = Some sample_header" "header_height ?h = Some 1" "h_Difficulty sample_header = Some 1"
    "h_Difficulty ?h = Some ?d" "h_Coinbase ?h = 7" "Normalize (Some 1) = 1"
    by (simp_all add: sample_parent_def header_height_def sample_header_def big_uint64_def Normalize_def Clamp_def
        MinDifficulty_def MaxDifficulty_def minerDomain_def MinerOffsetBits_def)
  ultimately have "validateDifficulty (\<lambda>_. None) (Some NewPoW) ?h (Some sample_parent) = Inr ()"
    by (simp add: validateDifficulty_def calculateExpectedDifficultyFromChainState_def Let_def)
  moreover have "4 * Normalize (Some 1) < minerDomain" by (simp add: sel(6) minerDomain_def MinerOffsetBits_def)
  ultimately show ?thesis
    using accepted_difficulty_is_forced [of "\<lambda>_. None" NewPoW ?h sample_parent sample_header 1 1] sel by simp
qed

text \<open>
  Neither the signature of the miner nor the gas fields, the uncle and receipt hashes, the
  bloom filter, the stakers or the second transaction root of a header are sealed by the proof of
  work or checked: a proposal stays valid when all of them are replaced, by anyone, as long as
  the signature is not empty.
\<close>

theorem proposals_are_malleable:
  assumes "ValidateMinedBlockProposal C sha256 byHash now engine (Some b) = Inr ()" and "b_Header b = Some h"
    and "unsealed h' = unsealed h" and "h_Signature h' \<noteq> []" and "header_height h \<noteq> Some 0"
  shows "ValidateMinedBlockProposal C sha256 byHash now engine (Some (b\<lparr>b_Header := Some h'\<rparr>)) = Inr ()"
proof -
  obtain number parent where num: "h_Number h = Some number" "number \<noteq> 0" and parent: "byHash (h_ParentHash h) = Some parent"
    and checks: "first_error (proposal_checks C sha256 byHash now engine b h parent) = Inr ()"
    by (rule proposal_Inr [OF assms(1,2,5)])
  have "h_Signature h \<noteq> []"
    using checks by (auto simp: proposal_checks_def validateBlockSignature_def first_error_Inr simp del: first_error.simps)
  note same = unsealed_checks [OF assms(3,2)] unsealed_protocol [OF assms(3,5)] unsealed_eq [OF assms(3)]
  show ?thesis
    using checks num parent \<open>h_Signature h \<noteq> []\<close> assms(4)
    by (simp add: ValidateMinedBlockProposal_def proposal_checks_def same del: first_error.simps)
qed

theorem proposals_are_malleable_witness:
  "ValidateMinedBlockProposal king_crypto (\<lambda>_. 0) (\<lambda>_. Some bv_parent) 1763731971 (Some NewPoW)
     (Some (bv_block\<lparr>b_Header := Some (bv_header\<lparr>h_Signature := [66], h_GasUsed := 5\<rparr>)\<rparr>)) = Inr ()"
proof (rule proposals_are_malleable)
  have "h_Number bv_header = Some 1" "b_Header bv_block = Some bv_header"
    by (simp_all add: bv_header_def bv_block_def)
  then show "ValidateMinedBlockProposal king_crypto (\<lambda>_. 0) (\<lambda>_. Some bv_parent) 1763731971 (Some NewPoW) (Some bv_block) = Inr ()"
    and "b_Header bv_block = Some bv_header" and "header_height bv_header \<noteq> Some 0"
    by (simp_all add: ValidateMinedBlockProposal_def proposal_checks_def bv_basic bv_checks bv_pow bv_protocol header_height_def
        big_uint64_def)
qed (simp_all add: unsealed_def)

text \<open>
  The king manager counts every share twice: unless the block names another king or a rotation
  is due, the rewards recorded for the king grow by twice the amount that its balance grows by
  after the transactions.
\<close>

theorem king_share_is_recorded_twice:
  assumes "kv_reliable (ne_kv E)"
    and accepted: "validateAndExecuteBlock E n (Some b) (Some p) = (Inr (), n')"
    and "b_Header b = Some h" and "header_height h = Some height" and m: "nd_kings n = Some m"
    and k: "rotatingKingFromBlockExtra (ne_crypto E) (h_Extra h) = None" "GetCurrentKing m = Some k" "\<not> ShouldRotate m height"
    and "h_Coinbase h \<noteq> k" and "ne_distributor E \<noteq> Some k" and "runTransactions E (nd_state n) b h = (Inr fees, d1)"
  shows "\<exists>m'. nd_kings n' = Some m'
    \<and> GetKingRewards m' k = GetKingRewards m k
        + 2 * (GetBalance (ne_kv E) (nd_state n') k - GetBalance (ne_kv E) d1 k)"
  using accepted
proof (rule validateAndExecute_accepts)
  fix h0 ph king fees0 d10 r d2 paid
  assume H: "b_Header b = Some h0" and run: "runTransactions E (nd_state n) b h0 = (Inr fees0, d10)"
    and king: "king_for (ne_crypto E) (nd_kings n) (h_Extra h0) = Some king"
    and dist: "distributeBlockRewards (ne_kv E) (ne_crypto E) (ne_distributor E) king (nd_pow n \<noteq> None) d10 h0 (Some fees0) = Inr (r, d2, paid)"
    and n': "n' = updateEngine (updateKings E (n\<lparr>nd_state := d2, nd_kings := record_share (ne_written E) (nd_kings n) paid\<rparr>) b h0 r) h0 ph"
  have eq: "h0 = h" "d10 = d1" using H run assms(3,11) by simp_all
  have "king = Some k" using king m k(1,2) by (simp add: eq king_for_def)
  then have "resolveRotatingKingManagerForBlock (ne_crypto E) king (Some h) = Some k"
    using k(1) by (simp add: resolveRotatingKingManagerForBlock_def)
  then obtain mk where mk: "ne_distributor E = Some mk"
    and D: "DistributeRewards (ne_kv E) d1 mk (h_Coinbase h) (Some fees0) height (Some k) (nd_pow n \<noteq> None) = Inr (r, d2, paid)"
    using dist assms(4) by (auto simp: distributeBlockRewards_def eq header_height_def split: option.splits sum.splits)
  note R = kv_reliable.DistributeRewards_Inr [OF assms(1) D] and A = Distribute_addresses [OF D]
  let ?rot = "rd_RotatingKingReward r"
  have bal: "GetBalance (ne_kv E) d2 k = GetBalance (ne_kv E) d1 k + ?rot"
  proof (cases "rd_RotatingKingEligible r")
    case True
    then show ?thesis using R(6) [of k] R(8) A assms(9,10) mk by (auto simp: share_def)
  next
    case False
    then show ?thesis using R(6) [of k] R(9) A assms(9,10) mk by (auto simp: share_def)
  qed
  let ?m1 = "if ?rot > 0 then RecordRewardDistribution (ne_written E) m k (Some ?rot) else m"
  let ?m2 = "if ?rot > 0 then RecordRewardDistribution (ne_written E) ?m1 k (Some ?rot) else ?m1"
  have elig: "?rot > 0 \<Longrightarrow> rd_RotatingKingEligible r \<and> rd_RotatingKingAddress r = k"
    using R(8,9) by (cases "rd_RotatingKingEligible r") auto
  have "record_share (ne_written E) (nd_kings n) paid = Some ?m1"
    using R(10) elig by (simp add: record_share_def m)
  moreover have "processRotatingKingForBlock (ne_written E) (ne_now E) ?m1 height bh (king_share r) = (Inr k, ?m2)" for bh
    using process_records [of ?m1 k height "king_share r"] k(2,3) A(3) elig by (auto simp: king_share_def)
  ultimately have "nd_kings n' = Some ?m2"
    using assms(4) by (simp add: n' eq updateEngine_def updateKings_def)
  moreover have "GetKingRewards ?m2 k = GetKingRewards m k + 2 * ?rot"
    using R(5) by (simp add: RecordReward_rewards)
  moreover have "nd_state n' = d2" by (simp add: n')
  ultimately show ?thesis using bal by auto
qed

theorem king_share_is_recorded_twice_witness:
  "\<exists>n' m' d1. validateAndExecuteBlock bv_env bv_node (Some bv_block) (Some bv_parent) = (Inr (), n') \<and> nd_kings n' = Some m'
    \<and> runTransactions bv_env bv_state bv_block bv_header = (Inr 21000000000000, d1)
    \<and> GetKingRewards m' 8 = 2 * (GetBalance map_kv (nd_state n') 8 - GetBalance map_kv d1 8)"
proof -
  obtain n' where n': "validateAndExecuteBlock bv_env bv_node (Some bv_block) (Some bv_parent) = (Inr (), n')"
    using bv_accepted by blast
  have sel: "ne_crypto bv_env = king_crypto" "ne_sha256 bv_env = (\<lambda>_. 0)" "ne_kv bv_env = map_kv"
      "ne_view bv_env = no_chain" "ne_distributor bv_env = Some 3" "nd_state bv_node = bv_state" "nd_kings bv_node = Some king_demo"
      "h_GasUsed bv_header = 21000" "h_GasLimit bv_header = 60000000" "h_Extra bv_header = []" "header_height bv_header = Some 1"
      "b_Header bv_block = Some bv_header" "h_Coinbase bv_header = 7" "b_Txs bv_block = [Some sample_tx]"
    by (simp_all add: bv_env_def bv_node_def bv_header_def sample_header_def bv_block_def header_height_def big_uint64_def)
  obtain d1 where run: "runTransactions bv_env bv_state bv_block bv_header = (Inr 21000000000000, d1)"
    using bv_executes by (auto simp: runTransactions_def sel)
  have "rotatingKingFromBlockExtra king_crypto [] = None" "GetCurrentKing king_demo = Some 8" "\<not> ShouldRotate king_demo 1"
      "GetKingRewards king_demo 8 = 0"
    by (simp_all add: rotatingKingFromBlockExtra_def TrimSpace_def strip_front.simps utf8_spaces_def str_bytes_def
        king_demo_def GetCurrentKing_def king_at_def ShouldRotate_def GetKingRewards_def word_le_nat_alt)
  then show ?thesis
    using king_share_is_recorded_twice [OF _ n', of bv_header 1 king_demo 8 21000000000000 d1] mkv.kv_reliable_axioms run n'
    by (auto simp: sel)
qed

end
