(* ===== verification/Fork_Choice.thy ===== *)
theory Fork_Choice
  imports Block_Validation "HOL-Library.Product_Lexorder"
begin

text \<open>
  The rule that decides between two blocks of the same height (the end of
  \<open>antdc/chain/sync.go\<close>): difficulty, then proof, then time, then hash. \<open>bytes.Compare\<close> of two
  hashes is the unsigned order of the words.
\<close>

section \<open>The rule\<close>

definition normalizedDifficulty :: "int option \<Rightarrow> int" where
  "normalizedDifficulty diff = (case diff of None \<Rightarrow> 0 | Some d \<Rightarrow> if d \<le> 0 then 0 else d)"

definition proofQualityHash :: "crypto \<Rightarrow> block option \<Rightarrow> hash" where
  "proofQualityHash C b =
     (case (b, Option.bind b b_Header) of
        (Some blk, Some h) \<Rightarrow> if h_MixDigest h \<noteq> zero_hash then h_MixDigest h else Block_Hash C blk
      | _ \<Rightarrow> zero_hash)"

definition compareProofQuality :: "crypto \<Rightarrow> block option \<Rightarrow> block option \<Rightarrow> int" where
  "compareProofQuality C a b =
     (let aProof = proofQualityHash C a; bProof = proofQualityHash C b
      in if aProof < bProof then - 1 else if aProof > bProof then 1 else 0)"

definition isBetterBlockCandidate :: "crypto \<Rightarrow> block option \<Rightarrow> block option \<Rightarrow> bool" where
  "isBetterBlockCandidate C newBlock currentBlock =
     (case (newBlock, Option.bind newBlock b_Header, currentBlock, Option.bind currentBlock b_Header) of
        (Some nb, Some nh, Some cb, Some ch) \<Rightarrow>
          let newDifficulty = normalizedDifficulty (h_Difficulty nh);
              currentDifficulty = normalizedDifficulty (h_Difficulty ch)
          in if newDifficulty \<noteq> currentDifficulty then newDifficulty > currentDifficulty
             else let c = compareProofQuality C newBlock currentBlock
             in if c \<noteq> 0 then c < 0
             else if h_Time nh \<noteq> h_Time ch then h_Time nh < h_Time ch
             else Block_Hash C nb < Block_Hash C cb
      | _ \<Rightarrow> False)"

section \<open>The order behind the rule\<close>

definition fork_key :: "crypto \<Rightarrow> block \<Rightarrow> int \<times> int \<times> int \<times> int" where
  "fork_key C b =
     (case b_Header b of
        None \<Rightarrow> (0, 0, 0, 0)
      | Some h \<Rightarrow> (normalizedDifficulty (h_Difficulty h), - uint (proofQualityHash C (Some b)), - uint (h_Time h),
                   - uint (Block_Hash C b)))"

lemma uint_less: "uint (v :: 'a::len word) < uint w \<longleftrightarrow> v < w" "uint v = uint w \<longleftrightarrow> v = w"
  by (simp_all add: word_less_def word_uint_eq_iff)

lemma better_iff_key:
  assumes "b_Header a = Some h" and "b_Header b = Some h'"
  shows "isBetterBlockCandidate C (Some a) (Some b) \<longleftrightarrow> fork_key C b < fork_key C a"
proof -
  let ?d = "normalizedDifficulty (h_Difficulty h)" and ?d' = "normalizedDifficulty (h_Difficulty h')"
  let ?p = "proofQualityHash C (Some a)" and ?p' = "proofQualityHash C (Some b)"
  have key: "fork_key C b < fork_key C a \<longleftrightarrow>
      ?d' < ?d \<or> ?d = ?d' \<and> (?p < ?p' \<or> ?p = ?p' \<and> (h_Time h < h_Time h' \<or> h_Time h = h_Time h' \<and> Block_Hash C a < Block_Hash C b))"
    by (auto simp: fork_key_def assms less_prod_def' uint_less)
  have rule: "isBetterBlockCandidate C (Some a) (Some b) \<longleftrightarrow> (if ?d \<noteq> ?d' then ?d' < ?d
      else if ?p \<noteq> ?p' then ?p < ?p' else if h_Time h \<noteq> h_Time h' then h_Time h < h_Time h' else Block_Hash C a < Block_Hash C b)"
    by (cases rule: linorder_cases [of ?p ?p']) (auto simp: isBetterBlockCandidate_def assms compareProofQuality_def Let_def)
  show ?thesis unfolding key rule by auto
qed

lemma key_determines_hash:
  assumes "b_Header a = Some h" and "b_Header b = Some h'" and "fork_key C a = fork_key C b"
  shows "Block_Hash C a = Block_Hash C b"
  using assms by (simp add: fork_key_def uint_less)

text \<open>
  The better of two blocks, and of a list. This is a notion of the proofs: the node itself
  takes a reversal for a better competitor of its tip, and a selection for the candidates of its peers.
\<close>

definition better_of :: "crypto \<Rightarrow> block \<Rightarrow> block \<Rightarrow> block" where
  "better_of C tip b = (if isBetterBlockCandidate C (Some b) (Some tip) then b else tip)"

lemma better_of_cases:
  assumes "b_Header tip \<noteq> None" and "b_Header b \<noteq> None"
  shows "b_Header (better_of C tip b) \<noteq> None" and "fork_key C (better_of C tip b) = max (fork_key C tip) (fork_key C b)"
    and "better_of C tip b \<in> {tip, b}"
proof -
  show "b_Header (better_of C tip b) \<noteq> None" and "better_of C tip b \<in> {tip, b}"
    using assms by (simp_all add: better_of_def)
  show "fork_key C (better_of C tip b) = max (fork_key C tip) (fork_key C b)"
  proof -
    obtain h h' where "b_Header tip = Some h" "b_Header b = Some h'" using assms by blast
    then show ?thesis using better_iff_key [of b h' tip h C] by (auto simp: better_of_def max_def)
  qed
qed

lemma better_of_fold:
  assumes "b_Header tip \<noteq> None" and "\<And>b. b \<in> set bs \<Longrightarrow> b_Header b \<noteq> None"
  shows "b_Header (foldl (better_of C) tip bs) \<noteq> None"
    and "fork_key C (foldl (better_of C) tip bs) = Max (fork_key C ` insert tip (set bs))"
    and "foldl (better_of C) tip bs \<in> insert tip (set bs)"
proof -
  have "b_Header (foldl (better_of C) tip bs) \<noteq> None
    \<and> fork_key C (foldl (better_of C) tip bs) = Max (fork_key C ` insert tip (set bs))
    \<and> foldl (better_of C) tip bs \<in> insert tip (set bs)"
    using assms
  proof (induction bs arbitrary: tip)
    case (Cons b bs)
    have b: "b_Header b \<noteq> None" using Cons.prems(2) by simp
    note k = better_of_cases [OF Cons.prems(1) b, of C]
    have IH: "b_Header (foldl (better_of C) (better_of C tip b) bs) \<noteq> None"
        "fork_key C (foldl (better_of C) (better_of C tip b) bs) = Max (fork_key C ` insert (better_of C tip b) (set bs))"
        "foldl (better_of C) (better_of C tip b) bs \<in> insert (better_of C tip b) (set bs)"
      using Cons.IH [OF k(1)] Cons.prems(2) by auto
    have "Max (fork_key C ` insert (better_of C tip b) (set bs)) = Max (fork_key C ` insert tip (set (b # bs)))"
      by (cases "set bs = {}") (simp_all add: k(2) max.assoc)
    with IH k(3) show ?case by auto
  qed simp
  then show "b_Header (foldl (better_of C) tip bs) \<noteq> None"
    and "fork_key C (foldl (better_of C) tip bs) = Max (fork_key C ` insert tip (set bs))"
    and "foldl (better_of C) tip bs \<in> insert tip (set bs)"
    by blast+
qed

lemma better_headers:
  assumes "isBetterBlockCandidate C a b"
  obtains x h y h' where "a = Some x" "b_Header x = Some h" "b = Some y" "b_Header y = Some h'" "fork_key C y < fork_key C x"
proof -
  obtain x h y h' where s: "a = Some x" "b_Header x = Some h" "b = Some y" "b_Header y = Some h'"
    using assms by (auto simp: isBetterBlockCandidate_def split: option.splits)
  then show thesis using that assms better_iff_key [of x h y h' C] by simp
qed

lemma fork_key_fields:
  assumes "b_Header a = Some h" "b_Header b = Some h'"
  shows "fork_key C a = fork_key C b \<longleftrightarrow> normalizedDifficulty (h_Difficulty h) = normalizedDifficulty (h_Difficulty h')
    \<and> proofQualityHash C (Some a) = proofQualityHash C (Some b) \<and> h_Time h = h_Time h' \<and> Block_Hash C a = Block_Hash C b"
  using assms by (simp add: fork_key_def uint_less)

section \<open>Properties\<close>

text \<open>
  C6: the rule is a strict order, total up to its four criteria. No block is better than itself, of two
  blocks at most one is the better one, and the relation is transitive; between two blocks with headers
  none is better exactly if normalised difficulty, proof, time and hash all agree. So every finite set of
  candidates has a block that none of them beats, and any two such blocks have the same hash.
\<close>

theorem fork_choice_is_a_strict_order:
  "\<not> isBetterBlockCandidate C a a
   \<and> (isBetterBlockCandidate C a b \<longrightarrow> \<not> isBetterBlockCandidate C b a)
   \<and> (isBetterBlockCandidate C a b \<and> isBetterBlockCandidate C b c \<longrightarrow> isBetterBlockCandidate C a c)
   \<and> (b_Header x = Some h \<and> b_Header y = Some h' \<longrightarrow>
       (\<not> isBetterBlockCandidate C (Some x) (Some y) \<and> \<not> isBetterBlockCandidate C (Some y) (Some x)
         \<longleftrightarrow> normalizedDifficulty (h_Difficulty h) = normalizedDifficulty (h_Difficulty h')
           \<and> proofQualityHash C (Some x) = proofQualityHash C (Some y) \<and> h_Time h = h_Time h' \<and> Block_Hash C x = Block_Hash C y))
   \<and> (finite S \<and> S \<noteq> {} \<and> (\<forall>s \<in> S. b_Header s \<noteq> None) \<longrightarrow>
       (\<exists>m \<in> S. \<forall>s \<in> S. \<not> isBetterBlockCandidate C (Some s) (Some m))
       \<and> (\<forall>m \<in> S. \<forall>n \<in> S. (\<forall>s \<in> S. \<not> isBetterBlockCandidate C (Some s) (Some m) \<and> \<not> isBetterBlockCandidate C (Some s) (Some n))
           \<longrightarrow> Block_Hash C m = Block_Hash C n))"
proof (intro conjI impI)
  show "\<not> isBetterBlockCandidate C a a" "isBetterBlockCandidate C a b \<Longrightarrow> \<not> isBetterBlockCandidate C b a"
    by (auto elim!: better_headers)
  show "isBetterBlockCandidate C a c" if "isBetterBlockCandidate C a b \<and> isBetterBlockCandidate C b c"
    using that by (auto elim!: better_headers simp: better_iff_key)
  show "\<not> isBetterBlockCandidate C (Some x) (Some y) \<and> \<not> isBetterBlockCandidate C (Some y) (Some x)
      \<longleftrightarrow> normalizedDifficulty (h_Difficulty h) = normalizedDifficulty (h_Difficulty h')
        \<and> proofQualityHash C (Some x) = proofQualityHash C (Some y) \<and> h_Time h = h_Time h' \<and> Block_Hash C x = Block_Hash C y"
    if "b_Header x = Some h \<and> b_Header y = Some h'"
    using that fork_key_fields [of x h y h' C] better_iff_key [of x h y h' C] better_iff_key [of y h' x h C] by auto
next
  assume S: "finite S \<and> S \<noteq> {} \<and> (\<forall>s \<in> S. b_Header s \<noteq> None)"
  have key: "isBetterBlockCandidate C (Some s) (Some m) \<longleftrightarrow> fork_key C m < fork_key C s" if "s \<in> S" "m \<in> S" for s m
    using S that better_iff_key by (metis not_None_eq)
  have "Max (fork_key C ` S) \<in> fork_key C ` S" using S by (intro Max_in) auto
  then obtain m where m: "m \<in> S" "fork_key C m = Max (fork_key C ` S)" by auto
  have "fork_key C s \<le> fork_key C m" if "s \<in> S" for s unfolding m(2) using S that by (intro Max_ge) auto
  then show "\<exists>m \<in> S. \<forall>s \<in> S. \<not> isBetterBlockCandidate C (Some s) (Some m)" using m(1) key by (meson not_le)
  have agree: "Block_Hash C m = Block_Hash C n"
    if "m \<in> S" "n \<in> S" "\<forall>s \<in> S. \<not> isBetterBlockCandidate C (Some s) (Some m) \<and> \<not> isBetterBlockCandidate C (Some s) (Some n)" for m n
  proof -
    have "fork_key C m = fork_key C n" using that key by (meson antisym not_less)
    then show ?thesis using S that(1,2) key_determines_hash by (metis not_None_eq)
  qed
  then show "\<forall>m \<in> S. \<forall>n \<in> S. (\<forall>s \<in> S. \<not> isBetterBlockCandidate C (Some s) (Some m) \<and> \<not> isBetterBlockCandidate C (Some s) (Some n))
      \<longrightarrow> Block_Hash C m = Block_Hash C n" by blast
qed

theorem fork_choice_is_a_strict_order_witness:
  "\<exists>m \<in> {bv_block, bv_parent, sample_parent}. \<forall>s \<in> {bv_block, bv_parent, sample_parent}. \<not> isBetterBlockCandidate toy_crypto (Some s) (Some m)"
proof -
  have "finite {bv_block, bv_parent, sample_parent} \<and> {bv_block, bv_parent, sample_parent} \<noteq> {}
      \<and> (\<forall>s \<in> {bv_block, bv_parent, sample_parent}. b_Header s \<noteq> None)"
    by (simp add: bv_block_def bv_parent_def sample_parent_def)
  then show ?thesis
    using fork_choice_is_a_strict_order [of toy_crypto _ _ _ _ _ _ _ "{bv_block, bv_parent, sample_parent}"] by blast
qed

lemma Address_value: "be_value (Address_Bytes a) = unat a"
proof -
  have "unat a < 256 ^ 20" using unsigned_less [of a] by simp
  then show ?thesis by (simp add: Address_Bytes_def word_bytes_def be_value_be_bytes del: mod_less_divisor)
qed

text \<open>
  Between two valid blocks on the same parent with the same time the proofs never decide: the
  full difficulties differ by the suffix of the miner, and the numerically larger address wins.
\<close>

theorem larger_address_wins:
  assumes "validateDifficulty byHash (Some engine) h (Some p) = Inr ()"
    and "validateDifficulty byHash (Some engine) h' (Some p) = Inr ()"
    and "b_Header a = Some h" and "b_Header b = Some h'" and "b_Header p = Some ph" and "h_Difficulty ph = Some pd"
    and "h_Number h' = h_Number h" and "h_Time h' = h_Time h" and "header_height h \<noteq> Some 0"
    and "h_Coinbase h \<noteq> h_Coinbase h'"
  shows "isBetterBlockCandidate C (Some a) (Some b) \<longleftrightarrow> h_Coinbase h' < h_Coinbase h"
proof -
  obtain height where height: "header_height h = Some height" "header_height h' = Some height" "height \<noteq> 0"
  proof -
    obtain d where "calculateExpectedDifficultyFromChainState byHash engine h (Some p) = Some d"
      using assms(1) by (elim validateDifficulty_Inr) auto
    then obtain height where "header_height h = Some height"
      by (auto simp: calculateExpectedDifficultyFromChainState_def split: option.splits)
    moreover have "header_height h' = header_height h" using assms(7) by (simp add: header_height_def)
    ultimately show thesis using assms(9) that by auto
  qed
  let ?base = "Some (CalculateDifficulty (Some pd) height (collectDifficultyTimestamps byHash ph (h_Time h)))"
  have d: "h_Difficulty h = Some (ForMiner ?base (h_Coinbase h))" "h_Difficulty h' = Some (ForMiner ?base (h_Coinbase h'))"
    using assms(1,2,5,6,8) height
    by (auto elim!: validateDifficulty_Inr simp: calculateExpectedDifficultyFromChainState_def Let_def)
  have pos: "0 < ForMiner ?base m" for m
  proof -
    have "0 \<le> Normalize ?base * minerDomain"
      using Normalize_range(1) [of ?base] by (intro mult_nonneg_nonneg) (simp_all add: minerDomain_def)
    then show ?thesis by (simp add: ForMiner_def Let_def)
  qed
  have norm: "normalizedDifficulty (h_Difficulty h) = ForMiner ?base (h_Coinbase h)"
      "normalizedDifficulty (h_Difficulty h') = ForMiner ?base (h_Coinbase h')"
    using pos [of "h_Coinbase h"] pos [of "h_Coinbase h'"] by (simp_all add: d normalizedDifficulty_def)
  have cmp: "ForMiner ?base m < ForMiner ?base k \<longleftrightarrow> m < k" "ForMiner ?base m = ForMiner ?base k \<longleftrightarrow> m = k" for m k
    by (auto simp: ForMiner_def Let_def Address_value word_less_def word_uint_eq_iff)
  show ?thesis
    using assms(3,4,10) by (simp add: isBetterBlockCandidate_def Let_def norm cmp)
qed

text \<open>A header on \<open>sample_parent\<close> with the difficulty that its coinbase demands.\<close>

definition rival :: "address \<Rightarrow> header" where
  "rival a = sample_header\<lparr>h_Number := Some 1, h_Time := 1763731971, h_Coinbase := a,
     h_Difficulty := Some (ForMiner (Some (CalculateDifficulty (Some 1) 1 [1763731821, 1763731971])) a)\<rparr>"

theorem larger_address_wins_witness:
  "isBetterBlockCandidate const_crypto (Some (sample_parent\<lparr>b_Header := Some (rival 9)\<rparr>)) (Some (sample_parent\<lparr>b_Header := Some (rival 4)\<rparr>))"
proof -
  have "collect_blocks byHash AdjustmentWindow sample_header = [sample_header]" for byHash
    by (simp add: AdjustmentWindow_def LWMAWindow_def eval_nat_numeral sample_header_def)
  then have w: "collectDifficultyTimestamps (\<lambda>_. None) sample_header 1763731971 = [1763731821, 1763731971]"
    by (simp add: collectDifficultyTimestamps_def) (simp add: sample_header_def)
  have sel: "b_Header sample_parent = Some sample_header" "h_Difficulty sample_header = Some 1"
    by (simp_all add: sample_parent_def sample_header_def)
  have r: "header_height (rival a) = Some 1" "h_Time (rival a) = 1763731971" "h_Coinbase (rival a) = a" "h_Number (rival a) = Some 1"
    "h_Difficulty (rival a) = Some (ForMiner (Some (CalculateDifficulty (Some 1) 1 [1763731821, 1763731971])) a)" for a
    by (simp_all add: rival_def header_height_def big_uint64_def)
  have ok: "validateDifficulty (\<lambda>_. None) (Some NewPoW) (rival a) (Some sample_parent) = Inr ()" for a
    by (simp add: validateDifficulty_def calculateExpectedDifficultyFromChainState_def r sel w)
  show ?thesis
    using larger_address_wins [OF ok [of 9] ok [of 4] _ _ sel] by (simp add: r word_less_nat_alt)
qed

end
