(* ===== verification/Reorg.thy ===== *)
theory Reorg
  imports Fork_Choice "HOL-Library.AList" "HOL-Library.Multiset"
begin

text \<open>
  The reorganisation manager (\<open>antdc/chain/reorganize.go\<close>): the orphan pool, the comparison of
  competing branches by work, and the replacement of a branch with its emergency rollback. The
  chain behind it is the record \<open>chain_ops\<close>, the interface \<open>FullBlockChain\<close>. A query
  answers \<open>None\<close> for an error as for a nil block: only \<open>GetBlock\<close> of a stored height is treated
  differently for the two, and no provider answers it with nil and no error.

  The locale \<open>reorg_chain\<close> holds what the manager relies on: what a successful and a failed
  \<open>ConnectBlock\<close> and \<open>DisconnectBlock\<close> leave of the canonical chain. Its provider here is the
  chain that \<open>antdc/chain/reorganize_same_height_test.go\<close> runs the manager against.

  Log lines and the lock are left out. \<open>iter\<close> lists a Go map in the order of its iteration.
\<close>

section \<open>Data\<close>

definition ManagerMaxReorgDepth :: nat where "ManagerMaxReorgDepth = 6"
definition MinWorkForReorg :: int where "MinWorkForReorg = 3"
definition MaxOrphanBlocks :: nat where "MaxOrphanBlocks = 100"
definition OrphanBlockExpiry :: int where "OrphanBlockExpiry = 2 * 60 * 60"
definition MaxForkDepth :: nat where "MaxForkDepth = 100"

record chain_fork =
  cf_ForkHeight :: u64
  cf_ActiveChain :: "block list"
  cf_CandidateChain :: "block list"
  cf_ActiveWork :: int
  cf_CandidateWork :: int
  cf_DetectedAt :: int

record orphan_block =
  or_Block :: block
  or_ReceivedAt :: int
  or_ExpiresAt :: int
  or_FromPeer :: string

text \<open>Operations that change the chain answer whether they succeeded.\<close>

record 'c chain_ops =
  co_GetBlock :: "'c \<Rightarrow> u64 \<Rightarrow> block option"
  co_GetBlockByHash :: "'c \<Rightarrow> hash \<Rightarrow> block option"
  co_GetBlockHash :: "'c \<Rightarrow> u64 \<Rightarrow> hash option"
  co_HasBlock :: "'c \<Rightarrow> hash \<Rightarrow> bool"
  co_HasBlockAtHeight :: "'c \<Rightarrow> u64 \<Rightarrow> bool"
  co_CurrentTip :: "'c \<Rightarrow> hash"
  co_GetCumulativeWork :: "'c \<Rightarrow> u64 \<Rightarrow> int option"
  co_CalculateBlockWork :: "int option \<Rightarrow> int"
  co_AddBlock :: "'c \<Rightarrow> block \<Rightarrow> bool \<times> 'c"
  co_ConnectBlock :: "'c \<Rightarrow> block \<Rightarrow> bool \<times> 'c"
  co_DisconnectBlock :: "'c \<Rightarrow> u64 \<Rightarrow> bool \<times> 'c"
  co_ValidateBlock :: "'c \<Rightarrow> block \<Rightarrow> bool"
  co_ValidateBlockContext :: "'c \<Rightarrow> block \<Rightarrow> bool"

record 'c reorg_manager =
  rm_chain :: 'c
  rm_orphanPool :: "(hash \<times> orphan_block) list"
  rm_activeForks :: "(u64 \<times> chain_fork) list"
  rm_reorgCount :: u64
  rm_lastReorgHeight :: u64
  rm_lastReorgTime :: int
  rm_maxReorgDepthObserved :: nat

definition NewReorgManager :: "'c \<Rightarrow> 'c reorg_manager" where
  "NewReorgManager chain = \<lparr>rm_chain = chain, rm_orphanPool = [], rm_activeForks = [], rm_reorgCount = 0,
     rm_lastReorgHeight = 0, rm_lastReorgTime = 0, rm_maxReorgDepthObserved = 0\<rparr>"

datatype rm_error =
    R_Nil_Block | R_Panic | R_Load_Canonical | R_Load_Tip | R_Validation | R_Add | R_No_Ancestor | R_Missing
  | R_Depth_Exceeded | R_Disconnect | R_Candidate | R_Connect

record 'c rm_env =
  re_ops :: "'c chain_ops"
  re_crypto :: crypto
  re_now :: int
  re_iter :: "(hash \<times> orphan_block) list \<Rightarrow> (hash \<times> orphan_block) list"

text \<open>\<open>None\<close>: the panic on a nil header or number. A block of a fork has both: they were read before.\<close>

definition blk_number :: "block \<Rightarrow> u64 option" where
  "blk_number b = Option.bind (b_Header b) header_height"

definition fork_height :: "block \<Rightarrow> u64" where
  "fork_height b = (case blk_number b of None \<Rightarrow> 0 | Some h \<Rightarrow> h)"

section \<open>The orphan pool\<close>

text \<open>The first of the oldest, in the order of the iteration.\<close>

definition oldest :: "(hash \<times> orphan_block) list \<Rightarrow> hash option" where
  "oldest os = map_option fst
     (fold (\<lambda>(h, p) acc. case acc of None \<Rightarrow> Some (h, p)
        | Some (_, q) \<Rightarrow> if or_ReceivedAt p < or_ReceivedAt q then Some (h, p) else acc) os None)"

definition addOrphanBlock :: "'c rm_env \<Rightarrow> 'c reorg_manager \<Rightarrow> block \<Rightarrow> string \<Rightarrow> 'c reorg_manager" where
  "addOrphanBlock E rm blk fromPeer =
     (let pool = rm_orphanPool rm;
          pool' = (if length pool \<ge> MaxOrphanBlocks
                   then (case oldest (re_iter E pool) of None \<Rightarrow> pool | Some h \<Rightarrow> AList.delete h pool) else pool);
          orphan = \<lparr>or_Block = blk, or_ReceivedAt = re_now E, or_ExpiresAt = re_now E + OrphanBlockExpiry,
                    or_FromPeer = fromPeer\<rparr>
      in rm\<lparr>rm_orphanPool := AList.update (Block_Hash (re_crypto E) blk) orphan pool'\<rparr>)"

definition cleanupExpiredOrphans :: "'c rm_env \<Rightarrow> 'c reorg_manager \<Rightarrow> 'c reorg_manager" where
  "cleanupExpiredOrphans E rm = rm\<lparr>rm_orphanPool := filter (\<lambda>(h, p). \<not> or_ExpiresAt p < re_now E) (rm_orphanPool rm)\<rparr>"

definition parent_of :: "block \<Rightarrow> hash option" where
  "parent_of b = map_option h_ParentHash (b_Header b)"

text \<open>The orphans with the given parent leave the pool.\<close>

definition take_children :: "'c rm_env \<Rightarrow> 'c reorg_manager \<Rightarrow> hash \<Rightarrow> orphan_block list \<times> 'c reorg_manager" where
  "take_children E rm parentHash =
     (map snd (filter (\<lambda>(h, p). parent_of (or_Block p) = Some parentHash) (re_iter E (rm_orphanPool rm))),
      rm\<lparr>rm_orphanPool := filter (\<lambda>(h, p). parent_of (or_Block p) \<noteq> Some parentHash) (rm_orphanPool rm)\<rparr>)"

section \<open>Branches\<close>

fun fork_walk :: "crypto \<Rightarrow> 'c chain_ops \<Rightarrow> 'c \<Rightarrow> nat \<Rightarrow> block option \<Rightarrow> rm_error + u64" where
  "fork_walk C ops c 0 cur = Inl R_No_Ancestor"
| "fork_walk C ops c (Suc n) None = Inl R_No_Ancestor"
| "fork_walk C ops c (Suc n) (Some b) =
     (case (b_Header b, blk_number b) of
        (Some h, Some height) \<Rightarrow>
          if co_HasBlock ops c (Block_Hash C b) \<and> co_GetBlockHash ops c height = Some (Block_Hash C b) then Inr height
          else (case co_GetBlockByHash ops c (h_ParentHash h) of
                  None \<Rightarrow> Inl R_No_Ancestor
                | Some p \<Rightarrow> fork_walk C ops c n (Some p))
      | (Some h, None) \<Rightarrow>
          if co_HasBlock ops c (Block_Hash C b) then Inl R_Panic
          else (case co_GetBlockByHash ops c (h_ParentHash h) of
                  None \<Rightarrow> Inl R_No_Ancestor
                | Some p \<Rightarrow> fork_walk C ops c n (Some p))
      | _ \<Rightarrow> Inl R_Panic)"

definition findForkPoint :: "'c rm_env \<Rightarrow> 'c \<Rightarrow> block \<Rightarrow> rm_error + u64" where
  "findForkPoint E c parent = fork_walk (re_crypto E) (re_ops E) c MaxForkDepth (Some parent)"

text \<open>\<open>None\<close>: the walk along the parents does not end.\<close>

partial_function (option) chain_walk ::
    "'c chain_ops \<Rightarrow> 'c \<Rightarrow> u64 \<Rightarrow> block \<Rightarrow> block list \<Rightarrow> (rm_error + block list) option" where
  "chain_walk ops c forkHeight current chain =
     (case (b_Header current, blk_number current) of
        (Some h, Some height) \<Rightarrow>
          if height > forkHeight then
            (case co_GetBlockByHash ops c (h_ParentHash h) of
               None \<Rightarrow> Some (Inl R_Missing)
             | Some p \<Rightarrow> if b_Header p = None then Some (Inl R_Missing)
                         else chain_walk ops c forkHeight p (current # chain))
          else Some (Inr chain)
      | _ \<Rightarrow> Some (Inl R_Panic))"

definition buildChainToFork :: "'c rm_env \<Rightarrow> 'c \<Rightarrow> block option \<Rightarrow> u64 \<Rightarrow> (rm_error + block list) option" where
  "buildChainToFork E c tip forkHeight =
     (case tip of
        None \<Rightarrow> Some (Inl R_Missing)
      | Some b \<Rightarrow> if b_Header b = None then Some (Inl R_Missing) else chain_walk (re_ops E) c forkHeight b [])"

definition calculateChainWork :: "'c chain_ops \<Rightarrow> block list \<Rightarrow> int" where
  "calculateChainWork ops chain =
     (\<Sum>b\<leftarrow>chain. co_CalculateBlockWork ops (Option.bind (b_Header b) h_Difficulty))"

section \<open>Replacing a branch\<close>

text \<open>Newest first; the blocks that were detached come back too, in this order.\<close>

fun disconnect_loop :: "'c chain_ops \<Rightarrow> 'c \<Rightarrow> block list \<Rightarrow> block list \<Rightarrow> bool \<times> block list \<times> 'c" where
  "disconnect_loop ops c [] removed = (True, removed, c)"
| "disconnect_loop ops c (b # bs) removed =
     (case co_DisconnectBlock ops c (fork_height b) of
        (False, c') \<Rightarrow> (False, removed, c')
      | (True, c') \<Rightarrow> disconnect_loop ops c' bs (removed @ [b]))"

definition emergencyRollback :: "'c chain_ops \<Rightarrow> 'c \<Rightarrow> block list \<Rightarrow> 'c" where
  "emergencyRollback ops c removed = foldl (\<lambda>c b. snd (co_ConnectBlock ops c b)) c (rev removed)"

definition emergencyRollbackFrom :: "'c chain_ops \<Rightarrow> 'c \<Rightarrow> block list \<Rightarrow> block list \<Rightarrow> 'c" where
  "emergencyRollbackFrom ops c joined removed =
     emergencyRollback ops (foldl (\<lambda>c b. snd (co_DisconnectBlock ops c (fork_height b))) c (rev joined)) removed"

text \<open>Oldest first; \<open>joined\<close> are the candidates before the current one.\<close>

fun connect_loop :: "'c chain_ops \<Rightarrow> 'c \<Rightarrow> block list \<Rightarrow> block list \<Rightarrow> block list \<Rightarrow> rm_error option \<times> 'c" where
  "connect_loop ops c [] joined removed = (None, c)"
| "connect_loop ops c (b # bs) joined removed =
     (if \<not> co_ValidateBlockContext ops c b then (Some R_Candidate, emergencyRollback ops c removed)
      else (case co_ConnectBlock ops c b of
              (False, c') \<Rightarrow> (Some R_Connect, emergencyRollbackFrom ops c' joined removed)
            | (True, c') \<Rightarrow> connect_loop ops c' bs (joined @ [b]) removed))"

definition performReorg :: "'c rm_env \<Rightarrow> 'c reorg_manager \<Rightarrow> chain_fork \<Rightarrow> (rm_error + unit) \<times> 'c reorg_manager" where
  "performReorg E rm fork =
     (if length (cf_ActiveChain fork) > ManagerMaxReorgDepth then (Inl R_Depth_Exceeded, rm)
      else
        (case disconnect_loop (re_ops E) (rm_chain rm) (rev (cf_ActiveChain fork)) [] of
           (False, removed, c1) \<Rightarrow>
             (Inl R_Disconnect, rm\<lparr>rm_chain := emergencyRollback (re_ops E) c1 removed\<rparr>)
         | (True, removed, c1) \<Rightarrow>
             (case connect_loop (re_ops E) c1 (cf_CandidateChain fork) [] removed of
                (Some e, c2) \<Rightarrow> (Inl e, rm\<lparr>rm_chain := c2\<rparr>)
              | (None, c2) \<Rightarrow>
                  if cf_CandidateChain fork = [] then (Inl R_Panic, rm\<lparr>rm_chain := c2, rm_reorgCount := rm_reorgCount rm + 1\<rparr>)
                  else (Inr (), rm\<lparr>rm_chain := c2, rm_reorgCount := rm_reorgCount rm + 1,
                          rm_lastReorgHeight := fork_height (last (cf_CandidateChain fork)), rm_lastReorgTime := re_now E,
                          rm_maxReorgDepthObserved := max (rm_maxReorgDepthObserved rm) (length (cf_ActiveChain fork)),
                          rm_activeForks := AList.delete (cf_ForkHeight fork) (rm_activeForks rm)\<rparr>))))"

section \<open>Handling a block\<close>

definition extendChain :: "'c rm_env \<Rightarrow> 'c reorg_manager \<Rightarrow> block \<Rightarrow> (rm_error + unit) \<times> 'c reorg_manager" where
  "extendChain E rm blk =
     (if \<not> co_ValidateBlock (re_ops E) (rm_chain rm) blk then (Inl R_Validation, rm)
      else (case co_AddBlock (re_ops E) (rm_chain rm) blk of
              (False, c') \<Rightarrow> (Inl R_Add, rm\<lparr>rm_chain := c'\<rparr>)
            | (True, c') \<Rightarrow> (Inr (), rm\<lparr>rm_chain := c'\<rparr>)))"

definition store_fork :: "'c reorg_manager \<Rightarrow> chain_fork \<Rightarrow> 'c reorg_manager" where
  "store_fork rm fork = rm\<lparr>rm_activeForks := AList.update (cf_ForkHeight fork) fork (rm_activeForks rm)\<rparr>"

text \<open>Both branches of a fork, from the same fork point; a missing block is \<open>Inl R_Missing\<close>.\<close>

definition compare_branches ::
    "'c rm_env \<Rightarrow> 'c reorg_manager \<Rightarrow> block \<Rightarrow> block option \<Rightarrow> u64 \<Rightarrow> int \<Rightarrow> (rm_error + chain_fork) option" where
  "compare_branches E rm blk tip forkHeight baseWork =
     (case buildChainToFork E (rm_chain rm) (Some blk) forkHeight of
        None \<Rightarrow> None
      | Some (Inl e) \<Rightarrow> Some (Inl e)
      | Some (Inr candidateChain) \<Rightarrow>
     (case buildChainToFork E (rm_chain rm) tip forkHeight of
        None \<Rightarrow> None
      | Some (Inl e) \<Rightarrow> Some (Inl e)
      | Some (Inr activeChain) \<Rightarrow>
          Some (Inr \<lparr>cf_ForkHeight = forkHeight, cf_ActiveChain = activeChain, cf_CandidateChain = candidateChain,
                     cf_ActiveWork = baseWork + calculateChainWork (re_ops E) activeChain,
                     cf_CandidateWork = baseWork + calculateChainWork (re_ops E) candidateChain,
                     cf_DetectedAt = re_now E\<rparr>)))"

definition handlePotentialFork ::
    "'c rm_env \<Rightarrow> 'c reorg_manager \<Rightarrow> block \<Rightarrow> block \<Rightarrow> ((rm_error + unit) \<times> 'c reorg_manager) option" where
  "handlePotentialFork E rm blk parent =
     (let c = rm_chain rm; currentTipHash = co_CurrentTip (re_ops E) c;
          currentTipBlock = co_GetBlockByHash (re_ops E) c currentTipHash
      in if currentTipBlock \<noteq> None \<and> Block_Hash (re_crypto E) parent = currentTipHash then Some (extendChain E rm blk)
         else (case findForkPoint E c parent of
            Inl R_Panic \<Rightarrow> Some (Inl R_Panic, rm)
          | Inl _ \<Rightarrow> Some (Inr (), addOrphanBlock E rm blk ''fork-detection'')
          | Inr forkHeight \<Rightarrow>
              (case compare_branches E rm blk currentTipBlock forkHeight 0 of
                 None \<Rightarrow> None
               | Some (Inl R_Panic) \<Rightarrow> Some (Inl R_Panic, rm)
               | Some (Inl _) \<Rightarrow> Some (Inr (), rm)
               | Some (Inr fork) \<Rightarrow>
                   Some (if cf_CandidateWork fork - cf_ActiveWork fork > MinWorkForReorg then performReorg E rm fork
                         else (Inr (), store_fork rm fork)))))"

definition handleSameHeightFork ::
    "'c rm_env \<Rightarrow> 'c reorg_manager \<Rightarrow> block \<Rightarrow> u64 \<Rightarrow> ((rm_error + unit) \<times> 'c reorg_manager) option" where
  "handleSameHeightFork E rm candidateBlock height =
     (if height = 0 then Some (Inr (), rm)
      else
        (let c = rm_chain rm in
         case Option.bind (parent_of candidateBlock) (co_GetBlockByHash (re_ops E) c) of
            None \<Rightarrow> Some (Inr (), addOrphanBlock E rm candidateBlock ''same-height-fork'')
          | Some parent \<Rightarrow>
         (case co_GetBlockByHash (re_ops E) c (co_CurrentTip (re_ops E) c) of
            None \<Rightarrow> Some (Inl R_Load_Tip, rm)
          | Some currentTipBlock \<Rightarrow>
         (case findForkPoint E c parent of
            Inl R_Panic \<Rightarrow> Some (Inl R_Panic, rm)
          | Inl _ \<Rightarrow> Some (Inr (), addOrphanBlock E rm candidateBlock ''same-height-fork'')
          | Inr forkHeight \<Rightarrow>
              (case compare_branches E rm candidateBlock (Some currentTipBlock) forkHeight
                      (case co_GetCumulativeWork (re_ops E) c forkHeight of None \<Rightarrow> 0 | Some w \<Rightarrow> w) of
                 None \<Rightarrow> None
               | Some (Inl R_Panic) \<Rightarrow> Some (Inl R_Panic, rm)
               | Some (Inl _) \<Rightarrow> Some (Inr (), rm)
               | Some (Inr fork) \<Rightarrow>
                   Some (if cf_CandidateWork fork > cf_ActiveWork fork then performReorg E rm fork
                         else (Inr (), store_fork rm fork)))))))"

text \<open>
  One call of \<open>ProcessNewBlock\<close> up to the loop over resolved orphans: \<open>Finished\<close>, or the orphans
  that the loop offers again, whose errors are only logged.
\<close>

datatype 'c step_result = Finished "rm_error + unit" "'c reorg_manager" | Resolve "orphan_block list" "'c reorg_manager"

definition process_step :: "'c rm_env \<Rightarrow> 'c reorg_manager \<Rightarrow> block option \<Rightarrow> string \<Rightarrow> 'c step_result option" where
  "process_step E rm block fromPeer =
     (let ops = re_ops E; c = rm_chain rm; finish = (\<lambda>(r, rm'). Finished r rm') in
      case (block, Option.bind block b_Header) of
        (Some blk, Some h) \<Rightarrow>
     (case blk_number blk of
        None \<Rightarrow> Some (Finished (Inl R_Panic) rm)
      | Some height \<Rightarrow>
          let hash = Block_Hash (re_crypto E) blk
          in if co_HasBlock ops c hash then Some (Finished (Inr ()) rm)
             else if co_HasBlockAtHeight ops c height \<and> co_GetBlock ops c height = None
             then Some (Finished (Inl R_Load_Canonical) rm)
             else if co_HasBlockAtHeight ops c height
                  \<and> map_option (Block_Hash (re_crypto E)) (co_GetBlock ops c height) \<noteq> Some hash
             then map_option finish (handleSameHeightFork E rm blk height)
             else if h_ParentHash h = co_CurrentTip ops c then Some (finish (extendChain E rm blk))
             else if map_of (rm_orphanPool rm) (h_ParentHash h) \<noteq> None
             then (let (os, rm') = take_children E (addOrphanBlock E rm blk fromPeer) (h_ParentHash h)
                   in Some (Resolve os rm'))
             else (case co_GetBlockByHash ops c (h_ParentHash h) of
                     Some parent \<Rightarrow> map_option finish (handlePotentialFork E rm blk parent)
                   | None \<Rightarrow> Some (Finished (Inr ()) (addOrphanBlock E rm blk fromPeer))))
      | _ \<Rightarrow> Some (Finished (Inl R_Nil_Block) rm))"

text \<open>The recursion of \<open>tryResolveOrphans\<close>, depth first; \<open>None\<close>: it does not return.\<close>

partial_function (option) resolve_all :: "'c rm_env \<Rightarrow> 'c reorg_manager \<Rightarrow> orphan_block list \<Rightarrow> 'c reorg_manager option" where
  "resolve_all E rm os =
     (case os of
        [] \<Rightarrow> Some rm
      | p # ps \<Rightarrow>
          (case process_step E rm (Some (or_Block p)) (or_FromPeer p) of
             None \<Rightarrow> None
           | Some (Finished r rm') \<Rightarrow> resolve_all E rm' ps
           | Some (Resolve qs rm') \<Rightarrow> resolve_all E rm' (qs @ ps)))"

definition ProcessNewBlock ::
    "'c rm_env \<Rightarrow> 'c reorg_manager \<Rightarrow> block option \<Rightarrow> string \<Rightarrow> ((rm_error + unit) \<times> 'c reorg_manager) option" where
  "ProcessNewBlock E rm block fromPeer =
     (case process_step E rm block fromPeer of
        None \<Rightarrow> None
      | Some (Finished r rm') \<Rightarrow> Some (r, rm')
      | Some (Resolve os rm') \<Rightarrow> map_option (\<lambda>rm''. (Inr (), rm'')) (resolve_all E rm' os))"

text \<open>\<open>forks\<close>: the forks in the order of the iteration over the map.\<close>

definition detectAndResolveForks :: "'c rm_env \<Rightarrow> chain_fork list \<Rightarrow> 'c reorg_manager \<Rightarrow> 'c reorg_manager" where
  "detectAndResolveForks E forks rm =
     foldl (\<lambda>rm fork. if cf_CandidateWork fork > cf_ActiveWork fork then snd (performReorg E rm fork) else rm) rm forks"

section \<open>The contract of the chain\<close>

fun numbered :: "nat \<Rightarrow> block list \<Rightarrow> bool" where
  "numbered n [] \<longleftrightarrow> True"
| "numbered n (b # bs) \<longleftrightarrow> unat (fork_height b) = n \<and> numbered (Suc n) bs"

lemma numbered_append [simp]: "numbered n (xs @ ys) \<longleftrightarrow> numbered n xs \<and> numbered (n + length xs) ys"
  by (induction xs arbitrary: n) auto

text \<open>
  \<open>canon\<close> reads the canonical chain from the genesis block on, \<open>ok\<close> is the well-formedness of
  the chain's state. Blocks are connected at the end and disconnected with all that follow them.
\<close>

locale reorg_chain =
  fixes ops :: "'c chain_ops" and canon :: "'c \<Rightarrow> block list" and ok :: "'c \<Rightarrow> bool"
  assumes disconnect: "ok c \<Longrightarrow> co_DisconnectBlock ops c h = (True, c') \<Longrightarrow> unat h < length (canon c)
      \<Longrightarrow> ok c' \<and> canon c' = take (unat h) (canon c)"
    and disconnect_fails: "ok c \<Longrightarrow> co_DisconnectBlock ops c h = (False, c') \<Longrightarrow> ok c' \<and> canon c' = canon c"
    and connect: "ok c \<Longrightarrow> co_ConnectBlock ops c b = (True, c') \<Longrightarrow> unat (fork_height b) = length (canon c)
      \<Longrightarrow> ok c' \<and> canon c' = canon c @ [b]"
    and connect_fails: "ok c \<Longrightarrow> co_ConnectBlock ops c b = (False, c') \<Longrightarrow> ok c' \<and> canon c' = canon c"
begin

lemma disconnect_loop:
  assumes "ok c" "canon c = xs @ ys" "numbered (length xs) ys"
    and "disconnect_loop ops c (rev ys) zs = (success, removed, c')"
  shows "\<exists>kept gone. ys = kept @ gone \<and> removed = zs @ rev gone \<and> ok c' \<and> canon c' = xs @ kept \<and> (success \<longrightarrow> kept = [])"
  using assms
proof (induction ys arbitrary: c zs rule: rev_induct)
  case (snoc b ys)
  have len: "unat (fork_height b) = length (xs @ ys)" using snoc.prems(3) by simp
  show ?case
  proof (cases "co_DisconnectBlock ops c (fork_height b)")
    case (Pair s c1)
    show ?thesis
    proof (cases s)
      case True
      have "ok c1 \<and> canon c1 = xs @ ys"
        using disconnect [of c "fork_height b" c1] snoc.prems(1,2) Pair True len by simp
      then obtain kept gone where "ys = kept @ gone" "removed = (zs @ [b]) @ rev gone" "ok c'" "canon c' = xs @ kept"
          "success \<longrightarrow> kept = []"
        using snoc.IH [of c1 "zs @ [b]"] snoc.prems(3,4) Pair True by auto
      then show ?thesis by (intro exI [of _ kept] exI [of _ "gone @ [b]"]) simp
    next
      case False
      then show ?thesis
        using disconnect_fails [of c "fork_height b" c1] snoc.prems Pair
        by (intro exI [of _ "ys @ [b]"] exI [of _ "[]"]) auto
    qed
  qed
qed (intro exI [of _ "[]"], simp)

text \<open>The candidates that were connected before a failure are the \<open>joined\<close> ones.\<close>

lemma connect_loop_None:
  assumes "ok c" "numbered (length (canon c)) bs" "connect_loop ops c bs joined removed = (None, c')"
  shows "ok c' \<and> canon c' = canon c @ bs"
  using assms
proof (induction bs arbitrary: c joined)
  case (Cons b bs)
  obtain c1 where c1: "co_ConnectBlock ops c b = (True, c1)" "connect_loop ops c1 bs (joined @ [b]) removed = (None, c')"
    using Cons.prems(3) by (auto split: if_splits prod.splits bool.splits)
  then have "ok c1" "canon c1 = canon c @ [b]"
    using connect [of c b c1] Cons.prems(1,2) by auto
  then show ?case using Cons.IH [of c1 "joined @ [b]"] Cons.prems(2) c1(2) by auto
qed simp

end

text \<open>With a law more, a rollback succeeds: a block that stood on this chain can stand on it again,
  and blocks above the genesis block can be disconnected.\<close>

locale restoring_chain = reorg_chain +
  assumes reconnect: "ok c \<Longrightarrow> ok c0 \<Longrightarrow> canon c0 = canon c @ b # bs \<Longrightarrow> fst (co_ConnectBlock ops c b)"
begin

lemma emergencyRollback_restores:
  assumes "ok c" "ok c0" "canon c0 = canon c @ bs" "numbered (length (canon c)) bs"
  shows "ok (emergencyRollback ops c (rev bs)) \<and> canon (emergencyRollback ops c (rev bs)) = canon c0"
proof -
  have "ok (foldl (\<lambda>c b. snd (co_ConnectBlock ops c b)) c bs)
      \<and> canon (foldl (\<lambda>c b. snd (co_ConnectBlock ops c b)) c bs) = canon c @ bs"
    using assms(1,3,4)
  proof (induction bs arbitrary: c)
    case (Cons b bs)
    obtain c1 where c1: "co_ConnectBlock ops c b = (True, c1)"
      using reconnect [OF Cons.prems(1) assms(2) Cons.prems(2)] by (metis prod.collapse)
    then have "ok c1" "canon c1 = canon c @ [b]" using connect [of c b c1] Cons.prems by auto
    then show ?case using Cons.IH [of c1] Cons.prems c1 by simp
  qed simp
  then show ?thesis by (simp add: emergencyRollback_def assms(3))
qed

end

text \<open>A chain that detaches any block above the genesis block restores the branch after a refused candidate, too.\<close>

locale detaching_chain = restoring_chain +
  assumes detach: "ok c \<Longrightarrow> 0 < unat h \<Longrightarrow> unat h < length (canon c) \<Longrightarrow> fst (co_DisconnectBlock ops c h)"
begin

lemma detach_all:
  assumes "ok c" "canon c = xs @ ys" "numbered (length xs) ys" "xs \<noteq> []"
  shows "ok (foldl (\<lambda>c b. snd (co_DisconnectBlock ops c (fork_height b))) c (rev ys))
      \<and> canon (foldl (\<lambda>c b. snd (co_DisconnectBlock ops c (fork_height b))) c (rev ys)) = xs"
  using assms
proof (induction ys arbitrary: c rule: rev_induct)
  case (snoc b ys)
  have h: "unat (fork_height b) = length (xs @ ys)" using snoc.prems(3) by simp
  then have "fst (co_DisconnectBlock ops c (fork_height b))"
    using detach [of c "fork_height b"] snoc.prems(1,2,4) by (simp flip: length_greater_0_conv)
  then obtain c1 where c1: "co_DisconnectBlock ops c (fork_height b) = (True, c1)" by (metis prod.collapse)
  then have "ok c1" "canon c1 = xs @ ys" using disconnect [OF snoc.prems(1) c1] snoc.prems(2) h by auto
  then show ?case using snoc.IH [of c1] snoc.prems(3,4) c1 by simp
qed simp

lemma connect_loop_fails:
  assumes "ok c" "canon c = xs @ joined" "numbered (length xs) (joined @ bs)" "xs \<noteq> []"
    and "ok c0" "canon c0 = xs @ ys" "numbered (length xs) ys"
    and "connect_loop ops c bs joined (rev ys) = (Some e, c')" "e \<noteq> R_Candidate"
  shows "e = R_Connect \<and> ok c' \<and> canon c' = canon c0"
  using assms(1-3,8)
proof (induction bs arbitrary: c joined)
  case (Cons b bs)
  have len: "unat (fork_height b) = length (canon c)" using Cons.prems(2,3) by simp
  show ?case
  proof (cases "co_ConnectBlock ops c b")
    case (Pair s c1)
    show ?thesis
    proof (cases s)
      case True
      then have "ok c1" "canon c1 = xs @ (joined @ [b])" using connect [of c b c1] Cons.prems(1,2) len Pair by auto
      then show ?thesis
        using Cons.IH [of c1 "joined @ [b]"] Cons.prems(3,4) Pair True assms(9) by (auto split: if_splits)
    next
      case False
      then have e: "e = R_Connect" "c' = emergencyRollbackFrom ops c1 joined (rev ys)"
        using Cons.prems(4) Pair assms(9) by (auto split: if_splits)
      have "ok c1" "canon c1 = xs @ joined" using connect_fails [of c b c1] Cons.prems(1,2) Pair False by auto
      then have "ok (foldl (\<lambda>c b. snd (co_DisconnectBlock ops c (fork_height b))) c1 (rev joined))"
          "canon (foldl (\<lambda>c b. snd (co_DisconnectBlock ops c (fork_height b))) c1 (rev joined)) = xs"
        using detach_all [of c1 xs joined] Cons.prems(3) assms(4) by auto
      then show ?thesis
        using emergencyRollback_restores [of "foldl (\<lambda>c b. snd (co_DisconnectBlock ops c (fork_height b))) c1 (rev joined)" c0 ys]
          assms(5-7) e by (simp add: emergencyRollbackFrom_def)
    qed
  qed
qed simp

end

section \<open>Outcomes of a reorganisation\<close>

text \<open>What the manager does to the chain depends on the chain's contract; the next lemmas do not.\<close>

lemma performReorg_too_deep:
  "ManagerMaxReorgDepth < length (cf_ActiveChain fork) \<Longrightarrow> performReorg E rm fork = (Inl R_Depth_Exceeded, rm)"
  by (simp add: performReorg_def)

lemma connect_loop_error:
  "connect_loop ops c bs joined removed = (Some e, c') \<Longrightarrow> e = R_Candidate \<or> e = R_Connect"
  by (induction ops c bs joined removed rule: connect_loop.induct) (auto split: if_splits prod.splits bool.splits)

lemma performReorg_cases:
  assumes "performReorg E rm fork = (r, rm')" "length (cf_ActiveChain fork) \<le> ManagerMaxReorgDepth"
    "cf_CandidateChain fork \<noteq> []"
  obtains (detach) removed c1 where
      "disconnect_loop (re_ops E) (rm_chain rm) (rev (cf_ActiveChain fork)) [] = (False, removed, c1)"
      "r = Inl R_Disconnect" "rm' = rm\<lparr>rm_chain := emergencyRollback (re_ops E) c1 removed\<rparr>"
  | (attach) removed c1 e c2 where
      "disconnect_loop (re_ops E) (rm_chain rm) (rev (cf_ActiveChain fork)) [] = (True, removed, c1)"
      "connect_loop (re_ops E) c1 (cf_CandidateChain fork) [] removed = (Some e, c2)"
      "r = Inl e" "rm' = rm\<lparr>rm_chain := c2\<rparr>"
  | (success) removed c1 c2 where
      "disconnect_loop (re_ops E) (rm_chain rm) (rev (cf_ActiveChain fork)) [] = (True, removed, c1)"
      "connect_loop (re_ops E) c1 (cf_CandidateChain fork) [] removed = (None, c2)"
      "r = Inr ()" "rm_chain rm' = c2" "rm_reorgCount rm' = rm_reorgCount rm + 1"
      "rm_maxReorgDepthObserved rm' = max (rm_maxReorgDepthObserved rm) (length (cf_ActiveChain fork))"
      "rm_orphanPool rm' = rm_orphanPool rm"
  using assms by (auto simp: performReorg_def split: prod.splits bool.splits option.splits)

context reorg_chain
begin

lemma performReorg_success:
  assumes "re_ops E = ops" "ok (rm_chain rm)" "canon (rm_chain rm) = xs @ cf_ActiveChain fork"
    and "numbered (length xs) (cf_ActiveChain fork)" "numbered (length xs) (cf_CandidateChain fork)"
    and "cf_CandidateChain fork \<noteq> []" "performReorg E rm fork = (Inr (), rm')"
  shows "ok (rm_chain rm')" "canon (rm_chain rm') = xs @ cf_CandidateChain fork"
    "rm_reorgCount rm' = rm_reorgCount rm + 1" "length (cf_ActiveChain fork) \<le> ManagerMaxReorgDepth"
proof -
  show depth: "length (cf_ActiveChain fork) \<le> ManagerMaxReorgDepth"
    using assms(7) performReorg_too_deep [of fork E rm] by fastforce
  have "ok (rm_chain rm') \<and> canon (rm_chain rm') = xs @ cf_CandidateChain fork \<and> rm_reorgCount rm' = rm_reorgCount rm + 1"
    using assms(7) depth assms(6)
  proof (cases rule: performReorg_cases)
    case (success removed c1 c2)
    then have c1: "ok c1" "canon c1 = xs"
      using disconnect_loop [OF assms(2-4)] assms(1) by fastforce+
    then show ?thesis using connect_loop_None [of c1 "cf_CandidateChain fork"] success assms(1,5) by auto
  qed simp_all
  then show "ok (rm_chain rm')" "canon (rm_chain rm') = xs @ cf_CandidateChain fork"
    "rm_reorgCount rm' = rm_reorgCount rm + 1" by simp_all
qed

end

context reorg_chain
begin

text \<open>A branch that is no longer the end of the chain takes all that follows it along.\<close>

lemma performReorg_stale:
  assumes "re_ops E = ops" "ok (rm_chain rm)" "canon (rm_chain rm) = xs @ cf_ActiveChain fork @ grown"
    and "numbered (length xs) (cf_ActiveChain fork)" "numbered (length xs) (cf_CandidateChain fork)"
    and "cf_ActiveChain fork \<noteq> []" "cf_CandidateChain fork \<noteq> []" "performReorg E rm fork = (Inr (), rm')"
  shows "canon (rm_chain rm') = xs @ cf_CandidateChain fork"
proof -
  have depth: "length (cf_ActiveChain fork) \<le> ManagerMaxReorgDepth"
    using assms(8) performReorg_too_deep [of fork E rm] by fastforce
  obtain as b where active: "cf_ActiveChain fork = as @ [b]" using assms(6) by (metis rev_exhaust)
  have b: "unat (fork_height b) = length (xs @ as)" using assms(4) by (simp add: active)
  show ?thesis
    using assms(8) depth assms(7)
  proof (cases rule: performReorg_cases)
    case (success removed c1 c2)
    then obtain c0 where c0: "co_DisconnectBlock ops (rm_chain rm) (fork_height b) = (True, c0)"
        "disconnect_loop ops c0 (rev as) [b] = (True, removed, c1)"
      by (auto simp: active assms(1) split: prod.splits bool.splits)
    have "ok c0" "canon c0 = xs @ as"
      using disconnect [OF assms(2) c0(1)] b by (simp_all add: assms(3) active)
    then have "ok c1" "canon c1 = xs"
      using disconnect_loop [of c0 xs as "[b]" True removed c1] c0(2) assms(4) by (auto simp: active)
    then show ?thesis using connect_loop_None [of c1 "cf_CandidateChain fork"] success(2,4) assms(1,5) by auto
  qed simp_all
qed

end

context restoring_chain
begin

lemma performReorg_detach_fails:
  assumes "re_ops E = ops" "ok (rm_chain rm)" "canon (rm_chain rm) = xs @ cf_ActiveChain fork"
    and "numbered (length xs) (cf_ActiveChain fork)" "cf_CandidateChain fork \<noteq> []"
    and "performReorg E rm fork = (Inl e, rm')" "e \<noteq> R_Candidate" "e \<noteq> R_Connect"
  shows "ok (rm_chain rm')" "canon (rm_chain rm') = canon (rm_chain rm)"
proof -
  have "ok (rm_chain rm') \<and> canon (rm_chain rm') = canon (rm_chain rm)"
  proof (cases "length (cf_ActiveChain fork) \<le> ManagerMaxReorgDepth")
    case True
    show ?thesis
      using assms(6) True assms(5)
    proof (cases rule: performReorg_cases)
      case (detach removed c1)
      obtain kept gone where split: "cf_ActiveChain fork = kept @ gone" "removed = rev gone" "ok c1" "canon c1 = xs @ kept"
        using disconnect_loop [OF assms(2-4) detach(1) [unfolded assms(1)]] by auto
      then show ?thesis
        using emergencyRollback_restores [of c1 "rm_chain rm" gone] assms(2-4) detach(3) by (simp add: assms(1))
    next
      case (attach removed c1 e' c2)
      then show ?thesis using connect_loop_error [OF attach(2)] assms(7,8) by simp
    qed simp
  next
    case False
    then have "rm' = rm" using performReorg_too_deep [of fork E rm] assms(6) by simp
    then show ?thesis using assms(2) by simp
  qed
  then show "ok (rm_chain rm')" "canon (rm_chain rm') = canon (rm_chain rm)" by simp_all
qed

end

context detaching_chain
begin

lemma performReorg_fails:
  assumes "re_ops E = ops" "ok (rm_chain rm)" "canon (rm_chain rm) = xs @ cf_ActiveChain fork" "xs \<noteq> []"
    and "numbered (length xs) (cf_ActiveChain fork)" "numbered (length xs) (cf_CandidateChain fork)"
    and "cf_CandidateChain fork \<noteq> []" "performReorg E rm fork = (Inl e, rm')" "e \<noteq> R_Candidate"
  shows "ok (rm_chain rm')" "canon (rm_chain rm') = canon (rm_chain rm)"
proof -
  have "ok (rm_chain rm') \<and> canon (rm_chain rm') = canon (rm_chain rm)"
  proof (cases "length (cf_ActiveChain fork) \<le> ManagerMaxReorgDepth")
    case True
    show ?thesis
      using assms(8) True assms(7)
    proof (cases rule: performReorg_cases)
      case (detach removed c1)
      obtain kept gone where split: "cf_ActiveChain fork = kept @ gone" "removed = rev gone" "ok c1" "canon c1 = xs @ kept"
        using disconnect_loop [OF assms(2,3,5) detach(1) [unfolded assms(1)]] by auto
      then show ?thesis
        using emergencyRollback_restores [of c1 "rm_chain rm" gone] assms(2,3,5) detach(3) by (simp add: assms(1))
    next
      case (attach removed c1 e' c2)
      then have c1: "ok c1" "canon c1 = xs" "removed = rev (cf_ActiveChain fork)"
        using disconnect_loop [OF assms(2,3,5) attach(1) [unfolded assms(1)]] by auto
      then show ?thesis
        using connect_loop_fails [of c1 xs "[]" "cf_CandidateChain fork" "rm_chain rm" "cf_ActiveChain fork" e c2]
          attach(2-4) assms(1-9) by simp
    qed simp
  next
    case False
    then have "rm' = rm" using performReorg_too_deep [of fork E rm] assms(8) by simp
    then show ?thesis using assms(2) by simp
  qed
  then show "ok (rm_chain rm')" "canon (rm_chain rm') = canon (rm_chain rm)" by simp_all
qed

end

section \<open>The chain of the manager's tests\<close>

record test_chain =
  st_canonical :: "u64 \<Rightarrow> block option"
  st_byHash :: "hash \<Rightarrow> block option"
  st_tipHeight :: u64
  st_failDisconnectAt :: u64
  st_connectCalls :: int

definition GetCumulativeWork_from :: "(u64 \<Rightarrow> block option) \<Rightarrow> (int option \<Rightarrow> int) \<Rightarrow> u64 \<Rightarrow> int option" where
  "GetCumulativeWork_from canonical work height =
     foldl (\<lambda>acc i. case acc of None \<Rightarrow> None
        | Some t \<Rightarrow> (case Option.bind (canonical (of_nat i)) b_Header of None \<Rightarrow> None | Some h \<Rightarrow> Some (t + work (h_Difficulty h))))
       (Some 0) [0..<Suc (unat height)]"

definition CalculateBlockWork :: "int option \<Rightarrow> int" where
  "CalculateBlockWork difficulty = (case difficulty of None \<Rightarrow> 1 | Some d \<Rightarrow> if d \<le> 0 then 1 else d)"

definition test_ConnectBlock :: "crypto \<Rightarrow> test_chain \<Rightarrow> block \<Rightarrow> bool \<times> test_chain" where
  "test_ConnectBlock C c0 b =
     (let c = c0\<lparr>st_connectCalls := st_connectCalls c0 + 1\<rparr>;
          height = fork_height b
      in if height > 0
           \<and> (case st_canonical c (height - 1) of None \<Rightarrow> True | Some p \<Rightarrow> Some (Block_Hash C p) \<noteq> parent_of b) then (False, c)
         else (True, c\<lparr>st_canonical := (st_canonical c)(height \<mapsto> b), st_byHash := (st_byHash c)(Block_Hash C b \<mapsto> b),
                       st_tipHeight := (if height \<ge> st_tipHeight c then height else st_tipHeight c)\<rparr>))"

text \<open>The loop over the heights does not end for the tip \<open>2 ^ 64 - 1\<close>, which no test reaches.\<close>

definition test_DisconnectBlock :: "test_chain \<Rightarrow> u64 \<Rightarrow> bool \<times> test_chain" where
  "test_DisconnectBlock c height =
     (if st_failDisconnectAt c = height \<or> height = 0 then (False, c)
      else (True, c\<lparr>st_canonical := (\<lambda>h. if height \<le> h \<and> h \<le> st_tipHeight c then None else st_canonical c h),
                    st_tipHeight := height - 1\<rparr>))"

definition test_ValidateBlockContext :: "crypto \<Rightarrow> test_chain \<Rightarrow> block \<Rightarrow> bool" where
  "test_ValidateBlockContext C c b =
     (case b_Header b of
        None \<Rightarrow> False
      | Some h \<Rightarrow> h_Number h = Some 0
          \<or> (case st_byHash c (h_ParentHash h) of None \<Rightarrow> False | Some p \<Rightarrow> Block_Hash C p = h_ParentHash h))"

definition test_chain_ops :: "crypto \<Rightarrow> test_chain chain_ops" where
  "test_chain_ops C =
     \<lparr>co_GetBlock = st_canonical, co_GetBlockByHash = st_byHash,
      co_GetBlockHash = (\<lambda>c h. map_option (Block_Hash C) (st_canonical c h)),
      co_HasBlock = (\<lambda>c h. st_byHash c h \<noteq> None), co_HasBlockAtHeight = (\<lambda>c h. st_canonical c h \<noteq> None),
      co_CurrentTip = (\<lambda>c. case st_canonical c (st_tipHeight c) of None \<Rightarrow> 0 | Some b \<Rightarrow> Block_Hash C b),
      co_GetCumulativeWork = (\<lambda>c. GetCumulativeWork_from (st_canonical c) CalculateBlockWork),
      co_CalculateBlockWork = CalculateBlockWork,
      co_AddBlock = test_ConnectBlock C, co_ConnectBlock = test_ConnectBlock C,
      co_DisconnectBlock = test_DisconnectBlock,
      co_ValidateBlock = (\<lambda>_ _. True), co_ValidateBlockContext = test_ValidateBlockContext C\<rparr>"

text \<open>The invariant: blocks exactly up to the tip, under their own heights, each on the one below.\<close>

definition test_ok :: "crypto \<Rightarrow> test_chain \<Rightarrow> bool" where
  "test_ok C c \<longleftrightarrow>
     (\<forall>h. st_canonical c h \<noteq> None \<longleftrightarrow> h \<le> st_tipHeight c) \<and>
     (\<forall>h b. st_canonical c h = Some b \<longrightarrow> blk_number b = Some h
        \<and> (0 < h \<longrightarrow> (\<exists>p. st_canonical c (h - 1) = Some p \<and> parent_of b = Some (Block_Hash C p))))"

definition test_canon :: "test_chain \<Rightarrow> block list" where
  "test_canon c = map (\<lambda>i. the (st_canonical c (of_nat i))) [0..<Suc (unat (st_tipHeight c))]"

lemma length_test_canon [simp]: "length (test_canon c) = Suc (unat (st_tipHeight c))"
  by (simp add: test_canon_def)

lemma nth_test_canon: "i \<le> unat (st_tipHeight c) \<Longrightarrow> test_canon c ! i = the (st_canonical c (of_nat i))"
  by (simp add: test_canon_def nth_append del: upt_Suc)

lemma canonical_nth:
  assumes "test_ok C c" "unat h < length (test_canon c)"
  shows "st_canonical c h = Some (test_canon c ! unat h)"
  using assms by (auto simp: nth_test_canon test_ok_def word_le_nat_alt less_Suc_eq_le)

lemma unat_less_64: "unat k < 2 ^ 64" for k :: u64
  using unsigned_less [of k] by simp

lemma fork_height_number: "blk_number b = Some h \<Longrightarrow> fork_height b = h"
  by (simp add: fork_height_def)

lemma unat_pred: "0 < unat k \<Longrightarrow> unat (k - 1) = unat k - 1" for k :: u64
  by (simp add: unat_sub_if' Suc_le_eq)

lemma test_disconnect:
  assumes "test_ok C c" "test_DisconnectBlock c h = (True, c')" "unat h < length (test_canon c)"
  shows "test_ok C c' \<and> test_canon c' = take (unat h) (test_canon c)"
proof -
  have h: "h \<noteq> 0" and c': "c' = c\<lparr>st_canonical := (\<lambda>k. if h \<le> k \<and> k \<le> st_tipHeight c then None else st_canonical c k),
        st_tipHeight := h - 1\<rparr>"
    using assms(2) by (auto simp: test_DisconnectBlock_def split: if_splits)
  have pred: "unat (h - 1) = unat h - 1" "0 < unat h" using h by (simp_all add: unat_pred unat_gt_0)
  have "unat h \<le> unat (k - 1) \<Longrightarrow> 0 < unat k \<Longrightarrow> unat h \<le> unat k" for k :: u64 by (simp add: unat_pred)
  then have ok: "test_ok C c'"
    using assms(1,3) h pred unfolding test_ok_def c'
    by (auto simp: word_le_nat_alt word_less_nat_alt less_Suc_eq_le)
  moreover have "test_canon c' = take (unat h) (test_canon c)"
  proof (rule nth_equalityI)
    show "length (test_canon c') = length (take (unat h) (test_canon c))"
      using assms(3) pred by (simp add: c' min_def)
  next
    fix i assume "i < length (test_canon c')"
    then have i: "i < unat h" using pred by (simp add: c')
    moreover note unat_less_64 [of h]
    ultimately have "unat (of_nat i :: u64) = i" by (simp add: unat_of_nat)
    then show "test_canon c' ! i = take (unat h) (test_canon c) ! i"
      using i assms(3) pred by (simp add: nth_test_canon c' word_le_nat_alt)
  qed
  ultimately show ?thesis ..
qed

lemma test_disconnect_fails:
  "test_ok C c \<Longrightarrow> test_DisconnectBlock c h = (False, c') \<Longrightarrow> test_ok C c' \<and> test_canon c' = test_canon c"
  by (auto simp: test_DisconnectBlock_def split: if_splits)

lemma test_ok_calls [simp]:
  "test_ok C (c\<lparr>st_connectCalls := n\<rparr>) = test_ok C c" "test_canon (c\<lparr>st_connectCalls := n\<rparr>) = test_canon c"
  by (simp_all add: test_ok_def test_canon_def)

lemma test_connect_fails:
  "test_ok C c \<Longrightarrow> test_ConnectBlock C c b = (False, c') \<Longrightarrow> test_ok C c' \<and> test_canon c' = test_canon c"
  by (auto simp: test_ConnectBlock_def Let_def split: if_splits)

lemma test_connect:
  assumes "test_ok C c" "test_ConnectBlock C c b = (True, c')" "unat (fork_height b) = length (test_canon c)"
  shows "test_ok C c' \<and> test_canon c' = test_canon c @ [b]"
proof -
  let ?h = "fork_height b"
  have h: "unat ?h = Suc (unat (st_tipHeight c))" "unat (?h - 1) = unat (st_tipHeight c)"
    using assms(3) by (simp_all add: unat_pred)
  have tip: "?h - 1 = st_tipHeight c" using h(2) by (simp add: word_unat_eq_iff)
  have nz: "0 < ?h" using h(1) by (simp add: word_less_nat_alt)
  obtain p where p: "st_canonical c (st_tipHeight c) = Some p" "parent_of b = Some (Block_Hash C p)"
    and c': "st_canonical c' = (st_canonical c)(?h \<mapsto> b)" "st_tipHeight c' = ?h"
    using assms(2) nz h(1)
    by (auto simp: test_ConnectBlock_def Let_def tip word_le_nat_alt split: if_splits option.splits)
  have number: "blk_number b = Some ?h" using nz by (auto simp: fork_height_def split: option.splits)
  have le: "k \<le> ?h \<longleftrightarrow> k = ?h \<or> k \<le> st_tipHeight c" for k
    using h(1) by (auto simp: word_le_nat_alt word_unat_eq_iff)
  have below: "k - 1 \<noteq> ?h" if "k \<le> st_tipHeight c" "0 < k" for k
    using that h(1) by (auto simp: word_le_nat_alt word_less_nat_alt word_unat_eq_iff unat_pred)
  have "test_ok C c'"
    using assms(1) p below number unfolding test_ok_def c' le by (auto simp: tip)
  moreover have "test_canon c' = test_canon c @ [b]"
  proof (rule nth_equalityI)
    fix i assume "i < length (test_canon c')"
    then have i: "i \<le> Suc (unat (st_tipHeight c))" by (simp add: c' h)
    moreover note unat_less_64 [of ?h]
    ultimately have "unat (of_nat i :: u64) = i" using h(1) by (simp add: unat_of_nat)
    then have "of_nat i = ?h \<longleftrightarrow> i = Suc (unat (st_tipHeight c))" by (simp add: word_unat_eq_iff h(1))
    then show "test_canon c' ! i = (test_canon c @ [b]) ! i"
      using i by (cases "i = Suc (unat (st_tipHeight c))") (simp_all add: nth_test_canon c' h nth_append)
  qed (simp add: c' h)
  ultimately show ?thesis ..
qed

lemma test_reconnect:
  assumes "test_ok C c" "test_ok C c0" "test_canon c0 = test_canon c @ b # bs"
  shows "fst (test_ConnectBlock C c b)"
proof -
  let ?n = "Suc (unat (st_tipHeight c))"
  have len: "?n < length (test_canon c0)" "?n \<le> unat (st_tipHeight c0)"
    using arg_cong [OF assms(3), of length] by simp_all
  then have n: "unat (of_nat ?n :: u64) = ?n"
    using unat_less_64 [of "st_tipHeight c0"] by (simp add: unat_of_nat del: of_nat_Suc)
  have at: "st_canonical c0 (of_nat ?n) = Some b" "st_canonical c0 (st_tipHeight c) = st_canonical c (st_tipHeight c)"
  proof -
    show "st_canonical c0 (of_nat ?n) = Some b"
      using canonical_nth [OF assms(2), of "of_nat ?n"] n len(1) by (simp add: assms(3) nth_append)
    show "st_canonical c0 (st_tipHeight c) = st_canonical c (st_tipHeight c)"
      using canonical_nth [OF assms(1), of "st_tipHeight c"] canonical_nth [OF assms(2), of "st_tipHeight c"] len
      by (simp add: assms(3) nth_append)
  qed
  have pred: "(of_nat ?n :: u64) - 1 = st_tipHeight c" by simp
  moreover have "(0 :: u64) < of_nat ?n" using n by (simp add: word_less_nat_alt del: of_nat_Suc)
  ultimately have "blk_number b = Some (of_nat ?n)" "\<exists>p. st_canonical c (of_nat ?n - 1) = Some p \<and> parent_of b = Some (Block_Hash C p)"
    using assms(2) at unfolding test_ok_def by (metis pred)+
  then show ?thesis by (auto simp: test_ConnectBlock_def Let_def fork_height_number)
qed

lemma test_ops:
  "co_DisconnectBlock (test_chain_ops C) = test_DisconnectBlock" "co_ConnectBlock (test_chain_ops C) = test_ConnectBlock C"
  by (simp_all add: test_chain_ops_def)

lemmas test_laws = test_disconnect test_disconnect_fails test_connect test_connect_fails test_reconnect

interpretation test_reorg: restoring_chain "test_chain_ops C" test_canon "test_ok C" for C
  by unfold_locales (unfold test_ops, (erule (2) test_laws | erule (1) test_laws)+)

lemma test_failDisconnectAt:
  "test_DisconnectBlock c h = (s, c') \<Longrightarrow> st_failDisconnectAt c' = st_failDisconnectAt c"
  "test_ConnectBlock C c b = (s, c') \<Longrightarrow> st_failDisconnectAt c' = st_failDisconnectAt c"
  by (auto simp: test_DisconnectBlock_def test_ConnectBlock_def Let_def split: if_splits)

lemma test_detach: "st_failDisconnectAt c = 0 \<Longrightarrow> 0 < unat h \<Longrightarrow> fst (test_DisconnectBlock c h)"
  by (auto simp: test_DisconnectBlock_def)

interpretation test_detaching: detaching_chain "test_chain_ops C" test_canon
  "\<lambda>c. test_ok C c \<and> st_failDisconnectAt c = 0" for C
  by unfold_locales
    (unfold test_ops, (auto dest: test_laws test_failDisconnectAt intro: test_detach)+)

section \<open>Properties\<close>

text \<open>
  C12: on the chain of the tests, a reorganisation that does not stop at a context check ends with the
  common prefix and one whole branch: the candidate one on success, the old one on any error.
\<close>

theorem reorganisation_is_atomic:
  assumes "re_ops E = test_chain_ops C" "test_ok C (rm_chain rm)" "st_failDisconnectAt (rm_chain rm) = 0"
    and "test_canon (rm_chain rm) = xs @ cf_ActiveChain fork" "xs \<noteq> []"
    and "numbered (length xs) (cf_ActiveChain fork)" "numbered (length xs) (cf_CandidateChain fork)"
    and "cf_CandidateChain fork \<noteq> []" "performReorg E rm fork = (r, rm')" "r \<noteq> Inl R_Candidate"
  shows "test_ok C (rm_chain rm')
    \<and> test_canon (rm_chain rm') = xs @ (if r = Inr () then cf_CandidateChain fork else cf_ActiveChain fork)"
proof (cases r)
  case (Inl e)
  then show ?thesis
    using test_detaching.performReorg_fails [OF assms(1) _ assms(4,5,6,7,8), of e rm'] assms(1,2,3,4,9,10) by simp
next
  case (Inr u)
  then show ?thesis
    using test_reorg.performReorg_success [OF assms(1,2,4,6,7,8), of rm'] assms(9) by simp
qed

lemma test_ok_at:
  assumes "test_ok C c" "h \<le> st_tipHeight c"
  obtains b where "st_canonical c h = Some b" "blk_number b = Some h"
    "0 < h \<longrightarrow> (\<exists>p. st_canonical c (h - 1) = Some p \<and> parent_of b = Some (Block_Hash C p))"
  using assms unfolding test_ok_def by blast

lemma blk_number_header: "blk_number b = Some n \<Longrightarrow> \<exists>h. b_Header b = Some h \<and> header_height h = Some n"
  by (auto simp: blk_number_def bind_eq_Some_conv)

text \<open>A block directly on the fork point is its own branch.\<close>

lemma buildChainToFork_single:
  assumes "blk_number b = Some (n + 1)" "n < n + 1" "parent_of b = Some ph"
    and "co_GetBlockByHash (re_ops E) c ph = Some p" "blk_number p = Some n"
  shows "buildChainToFork E c (Some b) n = Some (Inr [b])"
proof -
  obtain h where h: "b_Header b = Some h" "h_ParentHash h = ph" using assms(3) by (auto simp: parent_of_def)
  obtain k where k: "b_Header p = Some k" using blk_number_header [OF assms(5)] by blast
  have "chain_walk (re_ops E) c n p [b] = Some (Inr [b])"
    by (subst chain_walk.simps) (simp add: k assms(5))
  then show ?thesis
    by (simp add: buildChainToFork_def h, subst chain_walk.simps) (simp add: h assms(1,2,4) k)
qed

text \<open>A competitor of the tip on the same parent, with the same difficulty, is only stored as a fork.\<close>

lemma same_difficulty_keeps:
  assumes "b_Header b = Some h" "b_Header t = Some k" "h_ParentHash h = Block_Hash (re_crypto E) p" "h_ParentHash k = Block_Hash (re_crypto E) p"
    and "blk_number b = Some (n + 1)" "blk_number t = Some (n + 1)" "n < n + 1" "blk_number p = Some n" "h_Difficulty h = h_Difficulty k"
    and "co_GetBlockByHash (re_ops E) (rm_chain rm) (Block_Hash (re_crypto E) p) = Some p"
    and "co_GetBlockByHash (re_ops E) (rm_chain rm) (co_CurrentTip (re_ops E) (rm_chain rm)) = Some t"
    and "co_HasBlock (re_ops E) (rm_chain rm) (Block_Hash (re_crypto E) p)"
    and "co_GetBlockHash (re_ops E) (rm_chain rm) n = Some (Block_Hash (re_crypto E) p)"
  shows "\<exists>fork. handleSameHeightFork E rm b (n + 1) = Some (Inr (), store_fork rm fork)"
proof -
  obtain q where q: "b_Header p = Some q" using blk_number_header [OF assms(8)] by blast
  have "findForkPoint E (rm_chain rm) p = Inr n"
    by (simp add: findForkPoint_def MaxForkDepth_def numeral_eq_Suc assms(8,12,13) q)
  moreover have "buildChainToFork E (rm_chain rm) (Some x) n = Some (Inr [x])" if "x = b \<or> x = t" for x
    using that assms by (intro buildChainToFork_single [where ph = "Block_Hash (re_crypto E) p" and p = p]) (auto simp: parent_of_def)
  moreover have "n + 1 \<noteq> 0" using assms(7) by (auto simp: word_less_nat_alt)
  ultimately show ?thesis
    using assms by (simp add: handleSameHeightFork_def compare_branches_def parent_of_def calculateChainWork_def Let_def) blast
qed

text \<open>
  A competitor of the tip: the state and the blocks that decide the race. \<open>ph\<close> is the hash of their
  parent.
\<close>

definition tip_race :: "crypto \<Rightarrow> test_chain \<Rightarrow> block \<Rightarrow> block \<Rightarrow> bool" where
  "tip_race C c old new \<longleftrightarrow>
     test_ok C c \<and> st_failDisconnectAt c = 0 \<and> 0 < st_tipHeight c
     \<and> st_canonical c (st_tipHeight c) = Some old \<and> st_byHash c (Block_Hash C old) = Some old
     \<and> st_byHash c (Block_Hash C new) = None
     \<and> blk_number new = Some (st_tipHeight c) \<and> parent_of new = parent_of old
     \<and> Option.bind (parent_of old) (st_byHash c) = st_canonical c (st_tipHeight c - 1)"

definition block_work :: "block \<Rightarrow> int" where
  "block_work b = CalculateBlockWork (Option.bind (b_Header b) h_Difficulty)"

lemma tip_race_fork:
  assumes "tip_race C c old new" "re_ops E = test_chain_ops C" "re_crypto E = C" "rm_chain rm = c"
  obtains fork where
    "cf_ActiveChain fork = [old]" "cf_CandidateChain fork = [new]"
    "cf_CandidateWork fork - cf_ActiveWork fork = block_work new - block_work old"
    "handleSameHeightFork E rm new (st_tipHeight c)
      = Some (if cf_CandidateWork fork > cf_ActiveWork fork then performReorg E rm fork else (Inr (), store_fork rm fork))"
proof -
  note race = assms(1) [unfolded tip_race_def]
  let ?n = "st_tipHeight c - 1"
  have n: "?n + 1 = st_tipHeight c" "?n < ?n + 1" "st_tipHeight c \<noteq> 0" "?n \<le> st_tipHeight c"
    using race by (auto simp: word_less_nat_alt word_le_nat_alt unat_pred)
  obtain p where p: "st_canonical c ?n = Some p" "parent_of old = Some (Block_Hash C p)"
    using race test_ok_at [of C c "st_tipHeight c"] by (metis option.inject order_refl)
  have number: "blk_number p = Some ?n" "blk_number old = Some (st_tipHeight c)"
    using race p(1) unfolding test_ok_def by blast+
  obtain k where k: "b_Header p = Some k" using blk_number_header [OF number(1)] by blast
  have sel: "co_GetBlockByHash (test_chain_ops C) = st_byHash" "co_CurrentTip (test_chain_ops C) c = Block_Hash C old"
    "co_HasBlock (test_chain_ops C) c h \<longleftrightarrow> st_byHash c h \<noteq> None"
    "co_GetBlockHash (test_chain_ops C) c h' = map_option (Block_Hash C) (st_canonical c h')" for h h'
    using race by (simp_all add: test_chain_ops_def)
  have byHash: "st_byHash c (Block_Hash C p) = Some p" using race p by simp
  have "findForkPoint E c p = Inr ?n"
    by (simp add: findForkPoint_def MaxForkDepth_def numeral_eq_Suc assms(2,3) sel byHash number k p(1))
  moreover have "buildChainToFork E c (Some b) ?n = Some (Inr [b])" if "b = old \<or> b = new" for b
    using that race p number byHash n
    by (intro buildChainToFork_single [where ph = "Block_Hash C p" and p = p]) (auto simp: assms(2) sel)
  ultimately have "handleSameHeightFork E rm new (st_tipHeight c)
      = Some (if cf_CandidateWork fork > cf_ActiveWork fork then performReorg E rm fork else (Inr (), store_fork rm fork))"
    if "fork = \<lparr>cf_ForkHeight = ?n, cf_ActiveChain = [old], cf_CandidateChain = [new],
         cf_ActiveWork = base + block_work old, cf_CandidateWork = base + block_work new, cf_DetectedAt = re_now E\<rparr>"
      and "base = (case co_GetCumulativeWork (re_ops E) c ?n of None \<Rightarrow> 0 | Some w \<Rightarrow> w)" for fork base
    using race p byHash n(3) that
    by (simp add: handleSameHeightFork_def compare_branches_def assms(2-4) sel Let_def calculateChainWork_def
        block_work_def test_chain_ops_def)
  from this [OF refl refl] show thesis by (rule that [rotated 3]) simp_all
qed

lemma race_connects:
  assumes "tip_race C c old new" "cf_ActiveChain fork = [old]" "cf_CandidateChain fork = [new]"
    and "re_ops E = test_chain_ops C" "rm_chain rm = c"
  shows "fst (performReorg E rm fork) = Inr ()"
proof -
  note race = assms(1) [unfolded tip_race_def]
  obtain p where p: "st_canonical c (st_tipHeight c - 1) = Some p" "parent_of old = Some (Block_Hash C p)"
    using race test_ok_at [of C c "st_tipHeight c"] by (metis option.inject order_refl)
  have old: "fork_height old = st_tipHeight c" "fork_height new = st_tipHeight c"
    using race unfolding test_ok_def by (auto simp: fork_height_number)
  obtain h where h: "b_Header new = Some h" "h_ParentHash h = Block_Hash C p"
    using race p(2) by (auto simp: parent_of_def)
  have "st_tipHeight c \<noteq> 0" "\<not> st_tipHeight c \<le> st_tipHeight c - 1"
    using race by (auto simp: word_le_nat_alt word_less_nat_alt unat_pred)
  then show ?thesis
    using race p old h
    by (auto simp: performReorg_def ManagerMaxReorgDepth_def assms(2-5) test_chain_ops_def test_DisconnectBlock_def
        test_ValidateBlockContext_def test_ConnectBlock_def Let_def)
qed

lemma race_step:
  assumes "tip_race C (rm_chain rm) old new" "re_ops E = test_chain_ops C" "re_crypto E = C"
  shows "\<exists>rm'. process_step E rm (Some new) peer = Some (Finished (Inr ()) rm') \<and> test_ok C (rm_chain rm')
    \<and> test_canon (rm_chain rm') = butlast (test_canon (rm_chain rm)) @ [if block_work new > block_work old then new else old]
    \<and> rm_reorgCount rm' = rm_reorgCount rm + (if block_work new > block_work old then 1 else 0)"
proof -
  let ?c = "rm_chain rm"
  note race = assms(1) [unfolded tip_race_def]
  let ?xs = "butlast (test_canon ?c)"
  obtain fork where fork: "cf_ActiveChain fork = [old]" "cf_CandidateChain fork = [new]"
    "cf_CandidateWork fork - cf_ActiveWork fork = block_work new - block_work old"
    and same: "handleSameHeightFork E rm new (st_tipHeight ?c)
      = Some (if cf_CandidateWork fork > cf_ActiveWork fork then performReorg E rm fork else (Inr (), store_fork rm fork))"
    by (rule tip_race_fork [OF assms refl])
  obtain h where h: "b_Header new = Some h" "header_height h = Some (st_tipHeight ?c)"
    using race blk_number_header by blast
  have step: "process_step E rm (Some new) peer = map_option (\<lambda>(r, rm'). Finished r rm') (handleSameHeightFork E rm new (st_tipHeight ?c))"
    using race h by (auto simp: process_step_def assms(2,3) test_chain_ops_def Let_def)
  have canon: "test_canon ?c = ?xs @ [old]" "length ?xs = unat (st_tipHeight ?c)"
    using canonical_nth [of C ?c "st_tipHeight ?c"] race append_butlast_last_id [of "test_canon ?c"]
    by (auto simp: last_conv_nth simp flip: length_greater_0_conv)
  have num: "unat (fork_height b) = length ?xs" if "b = old \<or> b = new" for b
    using race that canon(2) unfolding test_ok_def by (auto simp: fork_height_number)
  show ?thesis
  proof (cases "block_work new > block_work old")
    case True
    then have more: "cf_CandidateWork fork > cf_ActiveWork fork" using fork(3) by linarith
    obtain r rm' where reorg: "performReorg E rm fork = (r, rm')" by (metis prod.exhaust)
    have "r = Inr ()" using race_connects [OF assms(1) fork(1,2) assms(2) refl] reorg by simp
    then show ?thesis
      using test_reorg.performReorg_success [OF assms(2), of rm ?xs fork rm'] race reorg canon fork num True more
      by (simp add: step same)
  next
    case False
    then have "\<not> cf_CandidateWork fork > cf_ActiveWork fork" using fork(3) by linarith
    then show ?thesis
      using False race canon(1) by (simp add: step same store_fork_def)
  qed
qed

text \<open>
  Two miners find a block on the same parent. The chain keeps exactly one of them above the common
  part: the new one if its difficulty makes more work, otherwise the one that came first.
\<close>

theorem same_height_race:
  assumes "tip_race C (rm_chain rm) old new" "re_ops E = test_chain_ops C" "re_crypto E = C"
  shows "\<exists>rm'. ProcessNewBlock E rm (Some new) peer = Some (Inr (), rm') \<and> test_ok C (rm_chain rm')
    \<and> test_canon (rm_chain rm') = butlast (test_canon (rm_chain rm)) @ [if block_work new > block_work old then new else old]
    \<and> rm_reorgCount rm' = rm_reorgCount rm + (if block_work new > block_work old then 1 else 0)"
  using race_step [OF assms, of peer] by (auto simp: ProcessNewBlock_def)

text \<open>
  The periodic check replays a stored fork without looking at the chain again: blocks that were
  appended to the stored active branch in the meantime are dropped with it, whatever their work.
\<close>

theorem stored_fork_drops_newer_blocks:
  assumes "re_ops E = test_chain_ops C" "test_ok C (rm_chain rm)"
    and "test_canon (rm_chain rm) = xs @ cf_ActiveChain fork @ grown"
    and "numbered (length xs) (cf_ActiveChain fork)" "numbered (length xs) (cf_CandidateChain fork)"
    and "cf_ActiveChain fork \<noteq> []" "cf_CandidateChain fork \<noteq> []" "fst (performReorg E rm fork) = Inr ()"
    and "cf_CandidateWork fork > cf_ActiveWork fork"
  shows "test_canon (rm_chain (detectAndResolveForks E [fork] rm)) = xs @ cf_CandidateChain fork"
  using test_reorg.performReorg_stale [OF assms(1-7), of "snd (performReorg E rm fork)"] assms(8,9)
  by (simp add: detectAndResolveForks_def prod_eq_iff)

section \<open>Orphans with an orphaned parent\<close>




section \<open>When the chain changes\<close>

lemma performReorg_changes:
  assumes "performReorg E rm fork = (r, rm')" "rm_chain rm' \<noteq> rm_chain rm"
  shows "length (cf_ActiveChain fork) \<le> ManagerMaxReorgDepth"
  using assms performReorg_too_deep [of fork E rm] by force

lemma addOrphanBlock_chain [simp]: "rm_chain (addOrphanBlock E rm b peer) = rm_chain rm"
  by (simp add: addOrphanBlock_def Let_def)

lemma compare_branches_fork:
  "compare_branches E rm b tip n w = Some (Inr fork)
    \<Longrightarrow> buildChainToFork E (rm_chain rm) (Some b) (cf_ForkHeight fork) = Some (Inr (cf_CandidateChain fork))
      \<and> buildChainToFork E (rm_chain rm) tip (cf_ForkHeight fork) = Some (Inr (cf_ActiveChain fork))
      \<and> cf_CandidateWork fork - cf_ActiveWork fork
        = calculateChainWork (re_ops E) (cf_CandidateChain fork) - calculateChainWork (re_ops E) (cf_ActiveChain fork)"
  by (auto simp: compare_branches_def split: option.splits sum.splits)

text \<open>
  A reorganisation to the branch of \<open>b\<close>: both branches are built down to the same height, one from the
  block and one from the tip, the detached one has at most six blocks, and the work of the blocks of the
  other one is greater by more than \<open>margin\<close>.
\<close>

definition wins :: "'c rm_env \<Rightarrow> 'c reorg_manager \<Rightarrow> int \<Rightarrow> block \<Rightarrow> rm_error + unit \<Rightarrow> 'c reorg_manager \<Rightarrow> chain_fork \<Rightarrow> bool" where
  "wins E rm margin b r rm' fork \<longleftrightarrow>
     performReorg E rm fork = (r, rm')
     \<and> calculateChainWork (re_ops E) (cf_CandidateChain fork) - calculateChainWork (re_ops E) (cf_ActiveChain fork) > margin
     \<and> length (cf_ActiveChain fork) \<le> ManagerMaxReorgDepth
     \<and> buildChainToFork E (rm_chain rm) (Some b) (cf_ForkHeight fork) = Some (Inr (cf_CandidateChain fork))
     \<and> buildChainToFork E (rm_chain rm) (co_GetBlockByHash (re_ops E) (rm_chain rm) (co_CurrentTip (re_ops E) (rm_chain rm)))
         (cf_ForkHeight fork) = Some (Inr (cf_ActiveChain fork))"

lemma wins_fork:
  assumes "compare_branches E rm b tip n w = Some (Inr fork)" "performReorg E rm fork = (r, rm')" "rm_chain rm' \<noteq> rm_chain rm"
    and "co_GetBlockByHash (re_ops E) (rm_chain rm) (co_CurrentTip (re_ops E) (rm_chain rm)) = tip"
  shows "cf_ActiveWork fork < cf_CandidateWork fork \<Longrightarrow> \<exists>fork. wins E rm 0 b r rm' fork"
    and "MinWorkForReorg < cf_CandidateWork fork - cf_ActiveWork fork \<Longrightarrow> \<exists>fork. wins E rm MinWorkForReorg b r rm' fork"
  using assms(2,4) performReorg_changes [OF assms(2,3)] compare_branches_fork [OF assms(1)]
  by (auto simp: wins_def intro!: exI [of _ fork])

lemma handleSameHeightFork_changes:
  assumes "handleSameHeightFork E rm b height = Some (r, rm')" "rm_chain rm' \<noteq> rm_chain rm"
  shows "\<exists>fork. wins E rm 0 b r rm' fork"
  using assms
  by (auto simp: handleSameHeightFork_def Let_def store_fork_def intro: wins_fork
      split: if_splits option.splits sum.splits rm_error.splits)

lemma handlePotentialFork_changes:
  assumes "handlePotentialFork E rm b parent = Some (r, rm')" "rm_chain rm' \<noteq> rm_chain rm"
  shows "Block_Hash (re_crypto E) parent = co_CurrentTip (re_ops E) (rm_chain rm) \<and> extendChain E rm b = (r, rm')
    \<or> (\<exists>fork. wins E rm MinWorkForReorg b r rm' fork)"
  using assms
  by (auto simp: handlePotentialFork_def Let_def store_fork_def intro: wins_fork
      split: if_splits option.splits sum.splits rm_error.splits)

text \<open>The block names the tip as its parent, or the block that the store has for the named parent is the tip.\<close>

definition builds_on_tip :: "'c rm_env \<Rightarrow> 'c reorg_manager \<Rightarrow> block \<Rightarrow> bool" where
  "builds_on_tip E rm b \<longleftrightarrow>
     (\<exists>h. b_Header b = Some h \<and> (h_ParentHash h = co_CurrentTip (re_ops E) (rm_chain rm)
       \<or> map_option (Block_Hash (re_crypto E)) (co_GetBlockByHash (re_ops E) (rm_chain rm) (h_ParentHash h))
           = Some (co_CurrentTip (re_ops E) (rm_chain rm))))"

definition block_move :: "'c rm_env \<Rightarrow> 'c reorg_manager \<Rightarrow> block \<Rightarrow> rm_error + unit \<Rightarrow> 'c reorg_manager \<Rightarrow> bool" where
  "block_move E rm b r rm' \<longleftrightarrow> builds_on_tip E rm b \<and> extendChain E rm b = (r, rm')
     \<or> (\<exists>fork. wins E rm 0 b r rm' fork \<and> co_HasBlockAtHeight (re_ops E) (rm_chain rm) (fork_height b)
         \<or> wins E rm MinWorkForReorg b r rm' fork)"

definition chain_move :: "'c rm_env \<Rightarrow> 'c reorg_manager \<Rightarrow> 'c reorg_manager \<Rightarrow> bool" where
  "chain_move E rm rm' \<longleftrightarrow> rm_chain rm' = rm_chain rm \<or> (\<exists>b r. block_move E rm b r rm')"

lemma process_step_moves:
  assumes "process_step E rm (Some b) peer = Some (Finished r rm')" "rm_chain rm' \<noteq> rm_chain rm"
  shows "block_move E rm b r rm'"
proof -
  obtain h height where h: "b_Header b = Some h" "blk_number b = Some height"
    using assms by (auto simp: process_step_def Let_def split: option.splits)
  have number: "fork_height b = height" using h(2) by (simp add: fork_height_def)
  have same: "block_move E rm b r rm'"
    if "handleSameHeightFork E rm b height = Some (r, rm')" "co_HasBlockAtHeight (re_ops E) (rm_chain rm) height"
    using handleSameHeightFork_changes [OF that(1) assms(2)] that(2) number by (auto simp: block_move_def)
  have extend: "block_move E rm b r rm'"
    if "extendChain E rm b = (r, rm')" "h_ParentHash h = co_CurrentTip (re_ops E) (rm_chain rm)"
    using that h(1) by (simp add: block_move_def builds_on_tip_def)
  have potential: "block_move E rm b r rm'"
    if "handlePotentialFork E rm b p = Some (r, rm')" "co_GetBlockByHash (re_ops E) (rm_chain rm) (h_ParentHash h) = Some p" for p
    using handlePotentialFork_changes [OF that(1) assms(2)] that(2) h(1) by (auto simp: block_move_def builds_on_tip_def)
  show ?thesis
    using assms h by (auto simp: process_step_def Let_def intro: same extend potential split: if_splits option.splits prod.splits)
qed

lemma process_step_Resolve:
  assumes "process_step E rm (Some b) peer = Some (Resolve os rm')"
  shows "rm_chain rm' = rm_chain rm \<and> rm_orphanPool rm \<noteq> []"
  using assms
  by (auto simp: process_step_def take_children_def Let_def split: if_splits option.splits prod.splits)

lemma resolve_all_moves:
  assumes "resolve_all E rm os = Some rm'"
  shows "(chain_move E)\<^sup>*\<^sup>* rm rm'"
proof (rule resolve_all.raw_induct [where P = "\<lambda>E rm os rm'. (chain_move E)\<^sup>*\<^sup>* rm rm'", OF _ assms])
  fix resolve :: "'a rm_env \<Rightarrow> 'a reorg_manager \<Rightarrow> orphan_block list \<Rightarrow> 'a reorg_manager option" and E rm os rm'
  assume 1: "\<And>E rm os rm'. resolve E rm os = Some rm' \<Longrightarrow> (chain_move E)\<^sup>*\<^sup>* rm rm'"
    and 2: "(case os of [] \<Rightarrow> Some rm
      | p # ps \<Rightarrow> (case process_step E rm (Some (or_Block p)) (or_FromPeer p) of None \<Rightarrow> None
           | Some (Finished r rm') \<Rightarrow> resolve E rm' ps | Some (Resolve qs rm') \<Rightarrow> resolve E rm' (qs @ ps))) = Some rm'"
  show "(chain_move E)\<^sup>*\<^sup>* rm rm'"
  proof (cases os)
    case Nil
    then show ?thesis using 2 by simp
  next
    case (Cons p ps)
    obtain step where step: "process_step E rm (Some (or_Block p)) (or_FromPeer p) = Some step"
      using 2 Cons by (auto split: option.splits)
    show ?thesis
    proof (cases step)
      case (Finished r rm1)
      have "(chain_move E)\<^sup>*\<^sup>* rm1 rm'" using 2 Cons step Finished by (intro 1) simp
      moreover have "chain_move E rm rm1" using process_step_moves [of E rm "or_Block p" "or_FromPeer p" r rm1] step Finished
        by (auto simp: chain_move_def)
      ultimately show ?thesis by (rule converse_rtranclp_into_rtranclp [rotated])
    next
      case (Resolve qs rm1)
      have "(chain_move E)\<^sup>*\<^sup>* rm1 rm'" using 2 Cons step Resolve by (intro 1) simp
      moreover have "chain_move E rm rm1" using process_step_Resolve [of E rm "or_Block p" "or_FromPeer p" qs rm1] step Resolve
        by (simp add: chain_move_def)
      ultimately show ?thesis by (rule converse_rtranclp_into_rtranclp [rotated])
    qed
  qed
qed

text \<open>
  C13: whatever the chain behind it, processing a block together with the orphans that it releases changes
  the chain only in moves of two kinds: a block on top of the tip is validated and added, or one
  reorganisation of at most six blocks goes to the branch of a block whose blocks have strictly more work
  than those it replaces, by more than three unless the block competes with one of its own height. As
  long as no orphan waits, there is at most one move, and its block is the processed one.
\<close>

theorem chain_changes_for_more_work:
  assumes "ProcessNewBlock E rm (Some b) peer = Some (r, rm')"
  shows "(chain_move E)\<^sup>*\<^sup>* rm rm' \<and> (rm_orphanPool rm = [] \<and> rm_chain rm' \<noteq> rm_chain rm \<longrightarrow> block_move E rm b r rm')"
proof -
  obtain step where step: "process_step E rm (Some b) peer = Some step"
    using assms by (auto simp: ProcessNewBlock_def split: option.splits)
  show ?thesis
  proof (cases step)
    case (Finished r' rm'')
    then have "r' = r" "rm'' = rm'" using assms step by (simp_all add: ProcessNewBlock_def)
    then have move: "rm_chain rm' \<noteq> rm_chain rm \<longrightarrow> block_move E rm b r rm'"
      using process_step_moves [of E rm b peer r rm'] step Finished by simp
    then have "chain_move E rm rm'" unfolding chain_move_def by blast
    then show ?thesis using move by (simp add: r_into_rtranclp)
  next
    case (Resolve os rm1)
    then have "resolve_all E rm1 os = Some rm'" using assms step by (auto simp: ProcessNewBlock_def)
    then have "(chain_move E)\<^sup>*\<^sup>* rm1 rm'" by (rule resolve_all_moves)
    moreover have "rm_chain rm1 = rm_chain rm" "rm_orphanPool rm \<noteq> []"
      using process_step_Resolve [of E rm b peer os rm1] step Resolve by simp_all
    ultimately show ?thesis by (auto simp: chain_move_def intro: converse_rtranclp_into_rtranclp)
  qed
qed

section \<open>Examples\<close>

text \<open>A hash that tells these blocks apart: the length of the encoded header.\<close>

definition len_crypto :: crypto where
  "len_crypto = toy_crypto\<lparr>sha3 := \<lambda>b. of_nat (length b)\<rparr>"

definition demo_block :: "int \<Rightarrow> nat \<Rightarrow> int \<Rightarrow> hash \<Rightarrow> block" where
  "demo_block n extra d parent = sample_parent\<lparr>b_Header := Some (sample_header\<lparr>h_Number := Some n,
     h_Extra := replicate extra 0, h_Difficulty := Some d, h_ParentHash := parent\<rparr>)\<rparr>"

lemma demo_hash [simp]: "Block_Hash len_crypto (demo_block n extra d parent) = of_nat (extra + 696)"
  by (simp add: Block_Hash_def demo_block_def Header_Hash_def len_crypto_def sample_parent_def header_preimage_def
      sample_header_def bloom_bytes_def length_prefixed_def stakers_bytes_def Hash_Bytes_def Address_Bytes_def
      word_bytes_def BloomByteLength_def)

lemma demo_sel [simp]:
  "blk_number (demo_block n extra d parent) = Some (big_uint64 n)" "parent_of (demo_block n extra d parent) = Some parent"
  "block_work (demo_block n extra d parent) = CalculateBlockWork (Some d)"
  "fork_height (demo_block n extra d parent) = big_uint64 n"
  by (simp_all add: blk_number_def parent_of_def block_work_def fork_height_def demo_block_def header_height_def)

definition genesis_demo :: block where "genesis_demo = demo_block 0 0 1 0"
definition old_demo :: block where "old_demo = demo_block 1 1 1 696"
definition new_demo :: block where "new_demo = demo_block 1 2 2 696"

definition chain_demo :: test_chain where
  "chain_demo = \<lparr>st_canonical = [0 \<mapsto> genesis_demo, 1 \<mapsto> old_demo],
     st_byHash = [696 \<mapsto> genesis_demo, 697 \<mapsto> old_demo], st_tipHeight = 1, st_failDisconnectAt = 0, st_connectCalls = 0\<rparr>"

definition env_demo :: "test_chain rm_env" where
  "env_demo = \<lparr>re_ops = test_chain_ops len_crypto, re_crypto = len_crypto, re_now = 0, re_iter = \<lambda>os. os\<rparr>"

lemma env_demo_sel [simp]: "re_ops env_demo = test_chain_ops len_crypto" "re_crypto env_demo = len_crypto"
  "re_now env_demo = 0" "re_iter env_demo = (\<lambda>os. os)"
  by (simp_all add: env_demo_def)

lemma big_uint64_demo [simp]: "big_uint64 0 = 0" "big_uint64 1 = 1" "big_uint64 (numeral n) = numeral n"
  by (simp_all add: big_uint64_def)

lemma word_le_1: "h \<le> 1 \<longleftrightarrow> h = 0 \<or> h = 1" for h :: u64
  by (auto simp: word_le_nat_alt word_unat_eq_iff le_Suc_eq)

lemma chain_demo_ok: "test_ok len_crypto chain_demo" "st_failDisconnectAt chain_demo = 0" "st_tipHeight chain_demo = 1"
  "test_canon chain_demo = [genesis_demo, old_demo]"
  by (simp_all add: test_ok_def chain_demo_def word_le_1 genesis_demo_def old_demo_def test_canon_def)

lemma chain_demo_race: "tip_race len_crypto chain_demo old_demo new_demo"
  by (simp add: tip_race_def chain_demo_ok) (simp add: chain_demo_def genesis_demo_def old_demo_def new_demo_def)

lemma demo_work: "block_work new_demo = 2" "block_work old_demo = 1"
  by (simp_all add: new_demo_def old_demo_def CalculateBlockWork_def)

theorem same_height_race_witness:
  "\<exists>rm'. ProcessNewBlock env_demo (NewReorgManager chain_demo) (Some new_demo) ''peer'' = Some (Inr (), rm')
    \<and> test_canon (rm_chain rm') = [genesis_demo, new_demo]"
  using same_height_race [of len_crypto "NewReorgManager chain_demo" old_demo new_demo env_demo "''peer''"]
  by (auto simp: NewReorgManager_def chain_demo_race chain_demo_ok demo_work)

definition fork_demo :: chain_fork where
  "fork_demo = \<lparr>cf_ForkHeight = 0, cf_ActiveChain = [old_demo], cf_CandidateChain = [new_demo], cf_ActiveWork = 1,
     cf_CandidateWork = 2, cf_DetectedAt = 0\<rparr>"

lemma fork_demo_sel [simp]: "cf_ActiveChain fork_demo = [old_demo]" "cf_CandidateChain fork_demo = [new_demo]"
  "cf_ActiveWork fork_demo = 1" "cf_CandidateWork fork_demo = 2"
  by (simp_all add: fork_demo_def)

lemma fork_demo_numbered: "numbered 1 [old_demo]" "numbered 1 [new_demo]"
  by (simp_all add: old_demo_def new_demo_def)

theorem reorganisation_is_atomic_witness:
  "test_canon (rm_chain (snd (performReorg env_demo (NewReorgManager chain_demo) fork_demo))) = [genesis_demo, new_demo]"
proof -
  have "fst (performReorg env_demo (NewReorgManager chain_demo) fork_demo) = Inr ()"
    by (rule race_connects [OF chain_demo_race]) (simp_all add: NewReorgManager_def)
  then obtain rm' where "performReorg env_demo (NewReorgManager chain_demo) fork_demo = (Inr (), rm')"
    by (metis prod.collapse)
  then show ?thesis
    using reorganisation_is_atomic [of env_demo len_crypto "NewReorgManager chain_demo" "[genesis_demo]" fork_demo
        "Inr ()" rm'] fork_demo_numbered
    by (simp add: NewReorgManager_def chain_demo_ok)
qed

text \<open>Two more blocks on the old branch: the stored fork still wins when it is looked at again.\<close>

definition second_demo :: block where "second_demo = demo_block 2 3 1 697"
definition third_demo :: block where "third_demo = demo_block 3 4 1 699"

definition grown_chain :: test_chain where
  "grown_chain = snd (test_ConnectBlock len_crypto (snd (test_ConnectBlock len_crypto chain_demo second_demo)) third_demo)"

lemma demo_fork_height [simp]:
  "fork_height genesis_demo = 0" "fork_height old_demo = 1" "fork_height second_demo = 2" "fork_height third_demo = 3"
  "fork_height new_demo = 1"
  by (simp_all add: genesis_demo_def old_demo_def second_demo_def third_demo_def new_demo_def)

lemma grown_chain: "test_ok len_crypto grown_chain" "test_canon grown_chain = [genesis_demo, old_demo, second_demo, third_demo]"
proof -
  obtain c1 where c1: "test_ConnectBlock len_crypto chain_demo second_demo = (True, c1)"
    by (simp add: test_ConnectBlock_def Let_def chain_demo_def second_demo_def old_demo_def)
  then have sel: "st_canonical c1 2 = Some second_demo"
    by (auto simp: test_ConnectBlock_def Let_def split: if_splits)
  obtain c2 where c2: "test_ConnectBlock len_crypto c1 third_demo = (True, c2)"
    using sel by (simp add: test_ConnectBlock_def Let_def second_demo_def third_demo_def)
  have "test_ok len_crypto c1 \<and> test_canon c1 = [genesis_demo, old_demo, second_demo]"
    using test_connect [OF chain_demo_ok(1) c1] by (simp add: chain_demo_ok)
  then show "test_ok len_crypto grown_chain" "test_canon grown_chain = [genesis_demo, old_demo, second_demo, third_demo]"
    using test_connect [of len_crypto c1 third_demo c2] c1 c2 length_test_canon [of c1] by (simp_all add: grown_chain_def)
qed

lemma grown_sel: "st_canonical grown_chain 0 = Some genesis_demo" "st_byHash grown_chain 696 = Some genesis_demo"
  "st_failDisconnectAt grown_chain = 0" "st_tipHeight grown_chain = 3"
  by (simp_all add: grown_chain_def test_ConnectBlock_def Let_def chain_demo_def second_demo_def third_demo_def old_demo_def)

theorem stored_fork_drops_newer_blocks_witness:
  "test_canon (rm_chain (detectAndResolveForks env_demo [fork_demo] (NewReorgManager grown_chain))) = [genesis_demo, new_demo]
    \<and> block_work new_demo < (\<Sum>b\<leftarrow>tl (test_canon grown_chain). block_work b)"
proof -
  obtain h where h: "b_Header new_demo = Some h" "h_ParentHash h = 696" by (simp add: new_demo_def demo_block_def)
  have demo: "Block_Hash len_crypto genesis_demo = 696" "parent_of new_demo = Some 696"
    by (simp_all add: genesis_demo_def new_demo_def)
  have "fst (performReorg env_demo (NewReorgManager grown_chain) fork_demo) = Inr ()"
    using grown_sel h demo
    by (simp add: performReorg_def ManagerMaxReorgDepth_def NewReorgManager_def test_chain_ops_def test_DisconnectBlock_def
        test_ValidateBlockContext_def test_ConnectBlock_def Let_def)
  then show ?thesis
    using stored_fork_drops_newer_blocks [of env_demo len_crypto "NewReorgManager grown_chain" "[genesis_demo]" fork_demo
        "[second_demo, third_demo]"] fork_demo_numbered
    by (simp add: NewReorgManager_def grown_chain demo_work)
       (simp add: second_demo_def third_demo_def CalculateBlockWork_def)
qed

theorem chain_changes_for_more_work_witness:
  "\<exists>r rm'. ProcessNewBlock env_demo (NewReorgManager chain_demo) (Some new_demo) ''peer'' = Some (r, rm')
    \<and> block_move env_demo (NewReorgManager chain_demo) new_demo r rm'"
proof -
  let ?rm = "NewReorgManager chain_demo"
  have "rm_chain ?rm = chain_demo" "rm_orphanPool ?rm = []" by (simp_all add: NewReorgManager_def)
  then obtain rm' where rm': "process_step env_demo ?rm (Some new_demo) ''peer'' = Some (Finished (Inr ()) rm')"
      "test_canon (rm_chain rm') = [genesis_demo, new_demo]"
    using race_step [of len_crypto ?rm old_demo new_demo env_demo "''peer''"]
    by (auto simp: chain_demo_race chain_demo_ok demo_work)
  moreover have "old_demo \<noteq> new_demo"
    by (simp add: old_demo_def new_demo_def demo_block_def sample_parent_def sample_header_def)
  ultimately have changed: "rm_chain rm' \<noteq> rm_chain ?rm" using chain_demo_ok(4) by (auto simp: NewReorgManager_def)
  have "ProcessNewBlock env_demo ?rm (Some new_demo) ''peer'' = Some (Inr (), rm')" using rm'(1) by (simp add: ProcessNewBlock_def)
  then show ?thesis
    using chain_changes_for_more_work [of env_demo ?rm new_demo "''peer''" "Inr ()" rm'] changed \<open>rm_orphanPool ?rm = []\<close> by blast
qed



end
