(* ===== verification/Chain_DB.thy ===== *)
theory Chain_DB
  imports Blocks
begin

text \<open>
  The chain database: key layout (\<open>antdc/chain/db/keys.go\<close>), block store and canonical pointers
  (\<open>antdc/chain/db/chaindb.go\<close>), the batches that \<open>antdc/chain/blockchain.go\<close> writes past them, and
  the pruning marks of \<open>antdc/chain/prune_reorg_integration.go\<close>.

  Pebble is third-party code: its handle is the type \<open>'d\<close>, its operations are the record
  \<open>pebble_ops\<close>. The locale \<open>pebble_store\<close> states what is relied upon: a committed batch applies its
  operations in order and changes no other key. RLP is the record \<open>rlp_codec\<close>, and the locale
  \<open>chain_store\<close> adds that a block without nil pointers is decoded as it was encoded. Nothing is assumed
  of a block with one: RLP writes a nil number as zero, and cannot read back a nil transaction, header
  or recipient.

  The database view (block of a hash, canonical hash of a height, head, last height) is the abstract
  state of the store; every operation is the corresponding update of the view.
\<close>

section \<open>The store\<close>

datatype batch_op = Put_Op bytes bytes | Delete_Op bytes

text \<open>\<open>Inl ()\<close> and \<open>None\<close>: an error of the store, other than a missing key.\<close>

record 'd pebble_ops =
  pb_get :: "'d \<Rightarrow> bytes \<Rightarrow> unit + bytes option"
  pb_commit :: "'d \<Rightarrow> batch_op list \<Rightarrow> 'd option"

record rlp_codec =
  rlp_block :: "block \<Rightarrow> bytes option"
  rlp_header :: "header \<Rightarrow> bytes option"
  unrlp_block :: "bytes \<Rightarrow> block option"
  unrlp_header :: "bytes \<Rightarrow> header option"

datatype db_error = DB_Store | DB_Encode | DB_Decode | DB_Panic

definition pb_set :: "'d pebble_ops \<Rightarrow> 'd \<Rightarrow> bytes \<Rightarrow> bytes \<Rightarrow> db_error + 'd" where
  "pb_set P d k v = (case pb_commit P d [Put_Op k v] of None \<Rightarrow> Inl DB_Store | Some d' \<Rightarrow> Inr d')"

definition commit :: "'d pebble_ops \<Rightarrow> 'd \<Rightarrow> batch_op list \<Rightarrow> db_error + 'd" where
  "commit P d ops = (case pb_commit P d ops of None \<Rightarrow> Inl DB_Store | Some d' \<Rightarrow> Inr d')"

section \<open>Keys\<close>

definition HeaderByNumberKey :: "u64 \<Rightarrow> bytes" where
  "HeaderByNumberKey n = of_char CHR ''h'' # word_bytes 8 n"

definition HeaderByHashKey :: "hash \<Rightarrow> bytes" where
  "HeaderByHashKey h = of_char CHR ''H'' # Hash_Bytes h"

definition BlockByHashKey :: "hash \<Rightarrow> bytes" where
  "BlockByHashKey h = of_char CHR ''b'' # Hash_Bytes h"

definition CanonicalHashKey :: "u64 \<Rightarrow> bytes" where
  "CanonicalHashKey n = of_char CHR ''c'' # word_bytes 8 n"

definition encodeNumber :: "u64 \<Rightarrow> bytes" where
  "encodeNumber number = word_bytes 8 number"

definition lastCanonicalHeightKey :: bytes where
  "lastCanonicalHeightKey = str_bytes ''L''"

definition headKey :: bytes where
  "headKey = str_bytes ''head''"

definition pruneHeightKey :: bytes where
  "pruneHeightKey = str_bytes ''prune:height''"

definition prunedBlockKey :: "u64 \<Rightarrow> bytes" where
  "prunedBlockKey height = str_bytes ''prune:block:'' @ word_bytes 8 height"

lemma word_bytes_8 [simp]: "word_bytes 8 m = word_bytes 8 n \<longleftrightarrow> m = n" for m n :: u64
  by (simp add: word_bytes_inject)

text \<open>The layout keeps the kinds of entries apart.\<close>

lemma keys_inject [simp]:
  "HeaderByNumberKey m = HeaderByNumberKey n \<longleftrightarrow> m = n" "CanonicalHashKey m = CanonicalHashKey n \<longleftrightarrow> m = n"
  "HeaderByHashKey h = HeaderByHashKey k \<longleftrightarrow> h = k" "BlockByHashKey h = BlockByHashKey k \<longleftrightarrow> h = k"
  "prunedBlockKey m = prunedBlockKey n \<longleftrightarrow> m = n"
  by (simp_all add: HeaderByNumberKey_def CanonicalHashKey_def HeaderByHashKey_def BlockByHashKey_def prunedBlockKey_def)

lemmas key_defs = HeaderByNumberKey_def HeaderByHashKey_def BlockByHashKey_def CanonicalHashKey_def
  lastCanonicalHeightKey_def headKey_def pruneHeightKey_def prunedBlockKey_def str_bytes_def

lemma keys_distinct [simp]:
  "BlockByHashKey h \<noteq> HeaderByNumberKey n" "BlockByHashKey h \<noteq> HeaderByHashKey k" "BlockByHashKey h \<noteq> CanonicalHashKey n"
  "BlockByHashKey h \<noteq> lastCanonicalHeightKey" "BlockByHashKey h \<noteq> headKey" "BlockByHashKey h \<noteq> pruneHeightKey"
  "BlockByHashKey h \<noteq> prunedBlockKey n" "CanonicalHashKey m \<noteq> HeaderByNumberKey n" "CanonicalHashKey m \<noteq> HeaderByHashKey k"
  "CanonicalHashKey m \<noteq> lastCanonicalHeightKey" "CanonicalHashKey m \<noteq> headKey" "CanonicalHashKey m \<noteq> pruneHeightKey"
  "CanonicalHashKey m \<noteq> prunedBlockKey n" "lastCanonicalHeightKey \<noteq> HeaderByNumberKey n"
  "lastCanonicalHeightKey \<noteq> HeaderByHashKey k" "lastCanonicalHeightKey \<noteq> headKey" "lastCanonicalHeightKey \<noteq> prunedBlockKey n"
  "lastCanonicalHeightKey \<noteq> pruneHeightKey" "headKey \<noteq> HeaderByHashKey k" "headKey \<noteq> prunedBlockKey n"
  "headKey \<noteq> pruneHeightKey" "prunedBlockKey m \<noteq> HeaderByNumberKey n" "prunedBlockKey m \<noteq> HeaderByHashKey k"
  "prunedBlockKey m \<noteq> pruneHeightKey" "pruneHeightKey \<noteq> HeaderByNumberKey n" "pruneHeightKey \<noteq> HeaderByHashKey k"
  "HeaderByNumberKey n \<noteq> HeaderByHashKey k"
  by (simp_all add: key_defs)

lemma headKey_header [simp]: "headKey \<noteq> HeaderByNumberKey n"
proof
  assume "headKey = HeaderByNumberKey n"
  from arg_cong [OF this, of length] show False by (simp add: key_defs)
qed

lemmas keys_distinct_sym [simp] = keys_distinct [THEN not_sym] headKey_header [THEN not_sym]

section \<open>Head and canonical pointers\<close>

text \<open>A missing entry is the zero hash.\<close>

definition read_hash :: "'d pebble_ops \<Rightarrow> 'd \<Rightarrow> bytes \<Rightarrow> db_error + hash" where
  "read_hash P d k =
     (case pb_get P d k of
        Inl _ \<Rightarrow> Inl DB_Store
      | Inr None \<Rightarrow> Inr zero_hash
      | Inr (Some data) \<Rightarrow> Inr (BytesToHash data))"

definition GetHeadBlockHash :: "'d pebble_ops \<Rightarrow> 'd \<Rightarrow> db_error + hash" where
  "GetHeadBlockHash P d = read_hash P d headKey"

definition WriteHeadBlockHash :: "'d pebble_ops \<Rightarrow> 'd \<Rightarrow> hash \<Rightarrow> db_error + 'd" where
  "WriteHeadBlockHash P d hash = pb_set P d headKey (Hash_Bytes hash)"

definition GetCanonicalHash :: "'d pebble_ops \<Rightarrow> 'd \<Rightarrow> u64 \<Rightarrow> db_error + hash" where
  "GetCanonicalHash P d number = read_hash P d (CanonicalHashKey number)"

definition WriteCanonicalHash :: "'d pebble_ops \<Rightarrow> 'd \<Rightarrow> u64 \<Rightarrow> hash \<Rightarrow> db_error + 'd" where
  "WriteCanonicalHash P d number hash =
     commit P d [Put_Op (CanonicalHashKey number) (Hash_Bytes hash), Put_Op lastCanonicalHeightKey (word_bytes 8 number)]"

section \<open>Headers and blocks\<close>

text \<open>The height is that of \<open>Header.Number.Uint64()\<close>, which panics on a nil header or number.\<close>

definition WriteHeader :: "'d pebble_ops \<Rightarrow> rlp_codec \<Rightarrow> crypto \<Rightarrow> 'd \<Rightarrow> header \<Rightarrow> db_error + 'd" where
  "WriteHeader P R C d h =
     (case map_option big_uint64 (h_Number h) of
        None \<Rightarrow> Inl DB_Panic
      | Some num \<Rightarrow>
          (case rlp_header R h of
             None \<Rightarrow> Inl DB_Encode
           | Some data \<Rightarrow>
               commit P d [Put_Op (HeaderByNumberKey num) data, Put_Op (HeaderByHashKey (Header_Hash C (Some h))) data,
                           Put_Op (CanonicalHashKey num) (Hash_Bytes (Header_Hash C (Some h)))]))"

definition read_header :: "'d pebble_ops \<Rightarrow> rlp_codec \<Rightarrow> 'd \<Rightarrow> bytes \<Rightarrow> db_error + header option" where
  "read_header P R d k =
     (case pb_get P d k of
        Inl _ \<Rightarrow> Inl DB_Store
      | Inr None \<Rightarrow> Inr None
      | Inr (Some data) \<Rightarrow> (case unrlp_header R data of None \<Rightarrow> Inl DB_Decode | Some h \<Rightarrow> Inr (Some h)))"

definition ReadHeaderByNumber :: "'d pebble_ops \<Rightarrow> rlp_codec \<Rightarrow> 'd \<Rightarrow> u64 \<Rightarrow> db_error + header option" where
  "ReadHeaderByNumber P R d n = read_header P R d (HeaderByNumberKey n)"

definition ReadHeaderByHash :: "'d pebble_ops \<Rightarrow> rlp_codec \<Rightarrow> 'd \<Rightarrow> hash \<Rightarrow> db_error + header option" where
  "ReadHeaderByHash P R d hash = read_header P R d (HeaderByHashKey hash)"

text \<open>The entries of a block: by its hash, its header by number and by hash.\<close>

definition block_entries :: "rlp_codec \<Rightarrow> crypto \<Rightarrow> block \<Rightarrow> db_error + batch_op list" where
  "block_entries R C b =
     (case b_Header b of
        None \<Rightarrow> Inl DB_Panic
      | Some h \<Rightarrow>
          (case map_option big_uint64 (h_Number h) of
             None \<Rightarrow> Inl DB_Panic
           | Some num \<Rightarrow>
               (case (rlp_block R b, rlp_header R h) of
                  (Some fullData, Some headerData) \<Rightarrow>
                    Inr [Put_Op (BlockByHashKey (Block_Hash C b)) fullData, Put_Op (HeaderByNumberKey num) headerData,
                         Put_Op (HeaderByHashKey (Block_Hash C b)) headerData]
                | _ \<Rightarrow> Inl DB_Encode)))"

definition db_WriteBlock :: "'d pebble_ops \<Rightarrow> rlp_codec \<Rightarrow> crypto \<Rightarrow> 'd \<Rightarrow> block \<Rightarrow> db_error + 'd" where
  "db_WriteBlock P R C d b = (case block_entries R C b of Inl e \<Rightarrow> Inl e | Inr ops \<Rightarrow> commit P d ops)"

definition ReadBlockByHash :: "'d pebble_ops \<Rightarrow> rlp_codec \<Rightarrow> 'd \<Rightarrow> hash \<Rightarrow> db_error + block option" where
  "ReadBlockByHash P R d hash =
     (case pb_get P d (BlockByHashKey hash) of
        Inl _ \<Rightarrow> Inl DB_Store
      | Inr None \<Rightarrow> Inr None
      | Inr (Some data) \<Rightarrow> (case unrlp_block R data of None \<Rightarrow> Inl DB_Decode | Some b \<Rightarrow> Inr (Some b)))"

definition db_HasBlock :: "'d pebble_ops \<Rightarrow> 'd \<Rightarrow> hash \<Rightarrow> db_error + bool" where
  "db_HasBlock P d hash =
     (case pb_get P d (BlockByHashKey hash) of Inl _ \<Rightarrow> Inl DB_Store | Inr v \<Rightarrow> Inr (v \<noteq> None))"

section \<open>Batches of the chain\<close>

text \<open>\<open>writeBlock\<close> in \<open>blockchain.go\<close>, its database part: the block becomes canonical and the head.\<close>

definition canonical_entries :: "hash \<Rightarrow> u64 \<Rightarrow> batch_op list" where
  "canonical_entries hash height =
     [Put_Op (CanonicalHashKey height) (Hash_Bytes hash), Put_Op lastCanonicalHeightKey (word_bytes 8 height),
      Put_Op headKey (Hash_Bytes hash)]"

definition write_canonical_block :: "'d pebble_ops \<Rightarrow> rlp_codec \<Rightarrow> crypto \<Rightarrow> 'd \<Rightarrow> block \<Rightarrow> u64 \<Rightarrow> db_error + 'd" where
  "write_canonical_block P R C d b height =
     (case block_entries R C b of
        Inl e \<Rightarrow> Inl e
      | Inr ops \<Rightarrow> commit P d (ops @ canonical_entries (Block_Hash C b) height))"

text \<open>The heights from \<open>lo\<close> to \<open>hi\<close>; the loops do not end for \<open>hi = 2 ^ 64 - 1\<close>.\<close>

definition heights :: "u64 \<Rightarrow> u64 \<Rightarrow> u64 list" where
  "heights lo hi = map word_of_nat [unat lo..<Suc (unat hi)]"

definition deleteCanonicalChain :: "'d pebble_ops \<Rightarrow> 'd \<Rightarrow> u64 \<Rightarrow> u64 \<Rightarrow> db_error + 'd" where
  "deleteCanonicalChain P d fromHeight toHeight =
     commit P d (map (\<lambda>h. Delete_Op (CanonicalHashKey h))
       (filter (\<lambda>h. case GetCanonicalHash P d h of Inl _ \<Rightarrow> False | Inr hash \<Rightarrow> hash \<noteq> zero_hash)
         (heights fromHeight toHeight)))"

text \<open>The batch of \<open>TruncateTo\<close>: blocks and pointers above \<open>height\<close>, newest first.\<close>

definition truncate_entries :: "'d pebble_ops \<Rightarrow> 'd \<Rightarrow> u64 \<Rightarrow> u64 \<Rightarrow> batch_op list" where
  "truncate_entries P d height currentHeight =
     concat (map (\<lambda>h. case GetCanonicalHash P d h of
          Inl _ \<Rightarrow> []
        | Inr hash \<Rightarrow> if hash = zero_hash then [] else [Delete_Op (BlockByHashKey hash), Delete_Op (CanonicalHashKey h)])
       (rev (heights (height + 1) currentHeight)))
     @ [if height > 0 then Put_Op lastCanonicalHeightKey (word_bytes 8 height) else Delete_Op lastCanonicalHeightKey]"

text \<open>The batch of \<open>rollbackInsert\<close>; the blocks have been inserted, so they have a number.\<close>

definition rollback_entries :: "crypto \<Rightarrow> block list \<Rightarrow> batch_op list" where
  "rollback_entries C bs =
     concat (map (\<lambda>b. case Option.bind (b_Header b) h_Number of
          None \<Rightarrow> []
        | Some n \<Rightarrow> [Delete_Op (BlockByHashKey (Block_Hash C b)), Delete_Op (HeaderByNumberKey (big_uint64 n)),
                     Delete_Op (HeaderByHashKey (Block_Hash C b)), Delete_Op (CanonicalHashKey (big_uint64 n))]) bs)"

section \<open>Pruning marks\<close>

definition MarkBlockPruned :: "'d pebble_ops \<Rightarrow> 'd \<Rightarrow> u64 \<Rightarrow> hash \<Rightarrow> db_error + 'd" where
  "MarkBlockPruned P d height hash = pb_set P d (prunedBlockKey height) (Hash_Bytes hash)"

definition IsBlockPruned :: "'d pebble_ops \<Rightarrow> 'd \<Rightarrow> u64 \<Rightarrow> bool" where
  "IsBlockPruned P d height = (case pb_get P d (prunedBlockKey height) of Inr (Some _) \<Rightarrow> True | _ \<Rightarrow> False)"

definition GetPrunedHeight :: "'d pebble_ops \<Rightarrow> 'd \<Rightarrow> db_error + u64" where
  "GetPrunedHeight P d =
     (case pb_get P d pruneHeightKey of
        Inl _ \<Rightarrow> Inl DB_Store
      | Inr None \<Rightarrow> Inr 0
      | Inr (Some data) \<Rightarrow> Inr (if length data \<noteq> 8 then 0 else bytes_word data))"

definition SetPrunedHeight :: "'d pebble_ops \<Rightarrow> 'd \<Rightarrow> u64 \<Rightarrow> db_error + 'd" where
  "SetPrunedHeight P d height = pb_set P d pruneHeightKey (word_bytes 8 height)"

text \<open>The ancient store, if there is one, keeps a copy of the block. A missing pointer is no error.\<close>

definition DeleteBlockData :: "'d pebble_ops \<Rightarrow> 'd \<Rightarrow> u64 \<Rightarrow> db_error + 'd" where
  "DeleteBlockData P d height =
     (case GetCanonicalHash P d height of
        Inl e \<Rightarrow> Inl e
      | Inr hash \<Rightarrow> if hash = zero_hash then Inr d else commit P d [Delete_Op (BlockByHashKey hash)])"

section \<open>The abstract view\<close>

text \<open>The value that a batch leaves at a key: the last operation on it counts.\<close>

fun batch_value :: "batch_op list \<Rightarrow> bytes \<Rightarrow> bytes option option" where
  "batch_value [] k = None"
| "batch_value (Put_Op k' v # ops) k =
     (case batch_value ops k of Some x \<Rightarrow> Some x | None \<Rightarrow> if k' = k then Some (Some v) else None)"
| "batch_value (Delete_Op k' # ops) k =
     (case batch_value ops k of Some x \<Rightarrow> Some x | None \<Rightarrow> if k' = k then Some None else None)"

lemma batch_value_append [simp]:
  "batch_value (xs @ ys) k = (case batch_value ys k of Some x \<Rightarrow> Some x | None \<Rightarrow> batch_value xs k)"
  by (induction xs k rule: batch_value.induct) (auto split: option.split)

lemma batch_value_deletes:
  "batch_value (map Delete_Op ks) k = (if k \<in> set ks then Some None else None)"
  by (induction ks) (auto split: option.split)

record db_view =
  vw_block :: "hash \<Rightarrow> db_error + block option"
  vw_canonical :: "u64 \<Rightarrow> db_error + hash"
  vw_head :: "db_error + hash"

definition view :: "'d pebble_ops \<Rightarrow> rlp_codec \<Rightarrow> 'd \<Rightarrow> db_view" where
  "view P R d = \<lparr>vw_block = ReadBlockByHash P R d, vw_canonical = GetCanonicalHash P d, vw_head = GetHeadBlockHash P d\<rparr>"

locale pebble_store =
  fixes P :: "'d pebble_ops"
  assumes get_commit: "pb_commit P d ops = Some d'
    \<Longrightarrow> pb_get P d' k = (case batch_value ops k of None \<Rightarrow> pb_get P d k | Some v \<Rightarrow> Inr v)"
begin

lemma commit_Inr: "commit P d ops = Inr d' \<longleftrightarrow> pb_commit P d ops = Some d'"
  by (auto simp: commit_def split: option.split)

lemma pb_set_Inr: "pb_set P d k v = Inr d' \<longleftrightarrow> pb_commit P d [Put_Op k v] = Some d'"
  by (auto simp: pb_set_def split: option.split)

lemma read_hash_commit:
  "pb_commit P d ops = Some d' \<Longrightarrow> read_hash P d' k =
     (case batch_value ops k of None \<Rightarrow> read_hash P d k | Some None \<Rightarrow> Inr zero_hash | Some (Some v) \<Rightarrow> Inr (BytesToHash v))"
  by (simp add: read_hash_def get_commit split: option.split)

lemma read_block_commit:
  "pb_commit P d ops = Some d' \<Longrightarrow> ReadBlockByHash P R d' h =
     (case batch_value ops (BlockByHashKey h) of None \<Rightarrow> ReadBlockByHash P R d h | Some None \<Rightarrow> Inr None
      | Some (Some v) \<Rightarrow> (case unrlp_block R v of None \<Rightarrow> Inl DB_Decode | Some b \<Rightarrow> Inr (Some b)))"
  by (simp add: ReadBlockByHash_def get_commit split: option.split)

lemmas view_commit = commit_Inr pb_set_Inr view_def GetCanonicalHash_def GetHeadBlockHash_def read_hash_commit
  read_block_commit fun_eq_iff

lemma view_WriteHeadBlockHash:
  "WriteHeadBlockHash P d hash = Inr d' \<Longrightarrow> view P R d' = (view P R d)\<lparr>vw_head := Inr hash\<rparr>"
  by (auto simp: WriteHeadBlockHash_def view_commit)

lemma view_WriteCanonicalHash:
  "WriteCanonicalHash P d n hash = Inr d'
    \<Longrightarrow> view P R d' = (view P R d)\<lparr>vw_canonical := (vw_canonical (view P R d))(n := Inr hash)\<rparr>"
  by (auto simp: WriteCanonicalHash_def view_commit)

lemma view_DeleteBlockData:
  "DeleteBlockData P d n = Inr d' \<Longrightarrow> vw_canonical (view P R d) n = Inr hash \<Longrightarrow> hash \<noteq> zero_hash
    \<Longrightarrow> view P R d' = (view P R d)\<lparr>vw_block := (vw_block (view P R d))(hash := Inr None)\<rparr>"
  by (auto simp: DeleteBlockData_def view_commit split: if_splits)

lemma view_deleteCanonicalChain:
  assumes "deleteCanonicalChain P d lo hi = Inr d'"
  shows "view P R d' = (view P R d)\<lparr>vw_canonical := \<lambda>n. if n \<in> set (heights lo hi) \<and> (\<exists>h. vw_canonical (view P R d) n = Inr h)
      then Inr zero_hash else vw_canonical (view P R d) n\<rparr>"
proof -
  let ?ns = "filter (\<lambda>h. case GetCanonicalHash P d h of Inl _ \<Rightarrow> False | Inr hash \<Rightarrow> hash \<noteq> zero_hash) (heights lo hi)"
  have ops: "map (\<lambda>h. Delete_Op (CanonicalHashKey h)) ?ns = map Delete_Op (map CanonicalHashKey ?ns)" by simp
  have commit: "pb_commit P d (map Delete_Op (map CanonicalHashKey ?ns)) = Some d'"
    using assms by (simp only: deleteCanonicalChain_def commit_Inr ops)
  have read: "read_hash P d' (CanonicalHashKey n) = (if n \<in> set ?ns then Inr zero_hash else read_hash P d (CanonicalHashKey n))" for n
    by (simp add: read_hash_commit [OF commit] batch_value_deletes image_iff del: map_map)
  have other: "ReadBlockByHash P R d' = ReadBlockByHash P R d" "read_hash P d' headKey = read_hash P d headKey"
    by (auto simp: fun_eq_iff read_block_commit [OF commit] read_hash_commit [OF commit] batch_value_deletes image_iff
        simp del: map_map)
  show ?thesis
    by (auto simp: view_def GetCanonicalHash_def GetHeadBlockHash_def fun_eq_iff read other split: sum.splits)
qed

end

text \<open>
  What the codec reads back. RLP keeps no nil pointers: the number, the difficulty, the rewards and the
  stakes of a header and the amounts and the recipient of a transaction have to be there.
\<close>

definition plain_header :: "header \<Rightarrow> bool" where
  "plain_header h \<longleftrightarrow> h_Number h \<noteq> None \<and> h_Difficulty h \<noteq> None \<and> h_RewardAmount h \<noteq> None \<and> h_CurrentReward h \<noteq> None
     \<and> list_all (\<lambda>s. sr_Amount s \<noteq> None \<and> sr_UnlockStakeHeight s \<noteq> None) (h_Stakers h)"

definition plain_tx :: "tx \<Rightarrow> bool" where
  "plain_tx t \<longleftrightarrow> tx_To t \<noteq> None \<and> tx_Value t \<noteq> None \<and> tx_GasPrice t \<noteq> None"

definition plain_block :: "block \<Rightarrow> bool" where
  "plain_block b \<longleftrightarrow> list_all (\<lambda>h. \<exists>h' \<in> set_option h. plain_header h') (b_Header b # b_Uncles b)
     \<and> list_all (\<lambda>t. \<exists>t' \<in> set_option t. plain_tx t') (b_Txs b)"

definition reads_back :: "rlp_codec \<Rightarrow> block \<Rightarrow> bool" where
  "reads_back R b \<longleftrightarrow> (\<forall>data. rlp_block R b = Some data \<longrightarrow> unrlp_block R data = Some b)"

text \<open>The keys that \<open>TruncateTo\<close> and \<open>rollbackInsert\<close> delete.\<close>

definition truncate_keys :: "'d pebble_ops \<Rightarrow> 'd \<Rightarrow> u64 \<Rightarrow> u64 \<Rightarrow> bytes list" where
  "truncate_keys P d height currentHeight = concat (map (\<lambda>h. case GetCanonicalHash P d h of
       Inl _ \<Rightarrow> [] | Inr hash \<Rightarrow> if hash = zero_hash then [] else [BlockByHashKey hash, CanonicalHashKey h])
     (rev (heights (height + 1) currentHeight)))"

definition rollback_keys :: "crypto \<Rightarrow> block list \<Rightarrow> bytes list" where
  "rollback_keys C bs = concat (map (\<lambda>b. case Option.bind (b_Header b) h_Number of
       None \<Rightarrow> []
     | Some n \<Rightarrow> [BlockByHashKey (Block_Hash C b), HeaderByNumberKey (big_uint64 n), HeaderByHashKey (Block_Hash C b),
         CanonicalHashKey (big_uint64 n)]) bs)"

lemma concat_Delete_Op: "(\<And>x. f x = map Delete_Op (g x)) \<Longrightarrow> concat (map f xs) = map Delete_Op (concat (map g xs))"
  by (induction xs) simp_all

lemma truncate_keys:
  "truncate_entries P d height currentHeight = map Delete_Op (truncate_keys P d height currentHeight)
    @ [if height > 0 then Put_Op lastCanonicalHeightKey (word_bytes 8 height) else Delete_Op lastCanonicalHeightKey]"
  unfolding truncate_entries_def truncate_keys_def
  by (intro arg_cong2 [where f = append] refl concat_Delete_Op) (simp split: sum.split)

lemma rollback_keys: "rollback_entries C bs = map Delete_Op (rollback_keys C bs)"
  unfolding rollback_entries_def rollback_keys_def by (rule concat_Delete_Op) (simp split: option.split)

context pebble_store
begin

lemma view_db_WriteBlock:
  "db_WriteBlock P R C d b = Inr d' \<Longrightarrow> reads_back R b
    \<Longrightarrow> view P R d' = (view P R d)\<lparr>vw_block := (vw_block (view P R d))(Block_Hash C b := Inr (Some b))\<rparr>"
  by (auto simp: db_WriteBlock_def block_entries_def view_commit reads_back_def split: sum.splits option.splits)

lemma view_write_canonical_block:
  "write_canonical_block P R C d b n = Inr d' \<Longrightarrow> reads_back R b
    \<Longrightarrow> view P R d' = \<lparr>vw_block = (vw_block (view P R d))(Block_Hash C b := Inr (Some b)),
      vw_canonical = (vw_canonical (view P R d))(n := Inr (Block_Hash C b)), vw_head = Inr (Block_Hash C b)\<rparr>"
  by (auto simp: write_canonical_block_def canonical_entries_def block_entries_def view_commit reads_back_def
      split: sum.splits option.splits)

lemma view_WriteHeader:
  "WriteHeader P R C d h = Inr d' \<Longrightarrow> \<exists>n. h_Number h = Some n \<and> view P R d' = (view P R d)\<lparr>vw_canonical :=
      (vw_canonical (view P R d))(big_uint64 n := Inr (Header_Hash C (Some h)))\<rparr>"
  by (auto simp: WriteHeader_def view_commit split: option.splits)

lemma view_marks:
  "MarkBlockPruned P d n hash = Inr d' \<Longrightarrow> view P R d' = view P R d" "SetPrunedHeight P d n = Inr d' \<Longrightarrow> view P R d' = view P R d"
  by (auto simp: MarkBlockPruned_def SetPrunedHeight_def view_commit)

lemma view_DeleteBlockData_all:
  assumes "DeleteBlockData P d n = Inr d'"
  shows "view P R d' = (view P R d)\<lparr>vw_block := \<lambda>h. if h \<noteq> zero_hash \<and> vw_canonical (view P R d) n = Inr h
    then Inr None else vw_block (view P R d) h\<rparr>"
  using assms by (auto simp: DeleteBlockData_def view_commit split: sum.splits if_splits)

text \<open>A batch that deletes blocks, headers and pointers, and may set the last height.\<close>

lemma view_deletes:
  assumes "commit P d (map Delete_Op ks @ ops) = Inr d'" "ops = [] \<or> (\<exists>x. ops = [Put_Op lastCanonicalHeightKey x] \<or> ops = [Delete_Op lastCanonicalHeightKey])"
    and "headKey \<notin> set ks"
  shows "view P R d' = (view P R d)\<lparr>vw_block := \<lambda>h. if BlockByHashKey h \<in> set ks then Inr None else vw_block (view P R d) h,
      vw_canonical := \<lambda>n. if CanonicalHashKey n \<in> set ks then Inr zero_hash else vw_canonical (view P R d) n\<rparr>"
proof -
  have batch: "pb_commit P d (map Delete_Op ks @ ops) = Some d'" using assms(1) by (simp add: commit_Inr)
  have none: "batch_value ops (BlockByHashKey h) = None" "batch_value ops (CanonicalHashKey n) = None" "batch_value ops headKey = None" for h n
    using assms(2) by auto
  show ?thesis
    using assms(3) by (simp add: view_def GetCanonicalHash_def GetHeadBlockHash_def fun_eq_iff read_hash_commit [OF batch]
        read_block_commit [OF batch] batch_value_deletes none)
qed

lemma view_truncate:
  assumes "commit P d (truncate_entries P d height currentHeight) = Inr d'"
  shows "view P R d' = (view P R d)\<lparr>vw_block := \<lambda>h. if h \<noteq> zero_hash
        \<and> (\<exists>n \<in> set (heights (height + 1) currentHeight). vw_canonical (view P R d) n = Inr h) then Inr None else vw_block (view P R d) h,
      vw_canonical := \<lambda>n. if n \<in> set (heights (height + 1) currentHeight) \<and> (\<exists>h. vw_canonical (view P R d) n = Inr h)
        then Inr zero_hash else vw_canonical (view P R d) n\<rparr>"
proof -
  let ?ks = "truncate_keys P d height currentHeight"
  have blocks: "BlockByHashKey h \<in> set ?ks \<longleftrightarrow> h \<noteq> zero_hash
      \<and> (\<exists>n \<in> set (heights (height + 1) currentHeight). GetCanonicalHash P d n = Inr h)" for h
    by (force simp: truncate_keys_def split: sum.splits)
  have pointers: "CanonicalHashKey n \<in> set ?ks \<longleftrightarrow> n \<in> set (heights (height + 1) currentHeight)
      \<and> (\<exists>h. h \<noteq> zero_hash \<and> GetCanonicalHash P d n = Inr h)" for n
    by (force simp: truncate_keys_def split: sum.splits)
  have "headKey \<notin> set ?ks" by (auto simp: truncate_keys_def split: sum.splits)
  moreover have "commit P d (map Delete_Op ?ks @ [if height > 0 then Put_Op lastCanonicalHeightKey (word_bytes 8 height)
      else Delete_Op lastCanonicalHeightKey]) = Inr d'" using assms by (simp only: truncate_keys)
  ultimately show ?thesis
    using view_deletes [of d ?ks _ d' R] by (auto simp: view_def fun_eq_iff blocks pointers)
qed

lemma view_rollback:
  assumes "commit P d (rollback_entries C bs) = Inr d'"
  shows "view P R d' = (view P R d)\<lparr>vw_block := \<lambda>h. if \<exists>b \<in> set bs. Option.bind (b_Header b) h_Number \<noteq> None \<and> Block_Hash C b = h
        then Inr None else vw_block (view P R d) h,
      vw_canonical := \<lambda>n. if \<exists>b \<in> set bs. map_option big_uint64 (Option.bind (b_Header b) h_Number) = Some n
        then Inr zero_hash else vw_canonical (view P R d) n\<rparr>"
proof -
  let ?ks = "rollback_keys C bs"
  have blocks: "BlockByHashKey h \<in> set ?ks \<longleftrightarrow> (\<exists>b \<in> set bs. Option.bind (b_Header b) h_Number \<noteq> None \<and> Block_Hash C b = h)" for h
    by (induction bs) (auto simp: rollback_keys_def split: option.splits)
  have pointers: "CanonicalHashKey n \<in> set ?ks \<longleftrightarrow> (\<exists>b \<in> set bs. map_option big_uint64 (Option.bind (b_Header b) h_Number) = Some n)" for n
    by (induction bs) (auto simp: rollback_keys_def split: option.splits dest: sym)
  have "headKey \<notin> set ?ks" by (auto simp: rollback_keys_def split: option.splits)
  moreover have "commit P d (map Delete_Op ?ks @ []) = Inr d'" using assms by (simp only: rollback_keys append_Nil2)
  ultimately show ?thesis
    using view_deletes [of d ?ks "[]" d' R] by (simp only: blocks pointers) simp
qed

end

locale chain_store = pebble_store +
  fixes R :: rlp_codec
  assumes decode_encode: "plain_block b \<Longrightarrow> rlp_block R b = Some data \<Longrightarrow> unrlp_block R data = Some b"
begin

lemma plain_reads_back: "plain_block b \<Longrightarrow> reads_back R b"
  by (simp add: reads_back_def decode_encode)

end

section \<open>A finite map as the store\<close>

text \<open>What Pebble implements: a map on which batches are applied in order.\<close>

definition map_pebble :: "(bytes \<Rightarrow> bytes option) pebble_ops" where
  "map_pebble = \<lparr>pb_get = (\<lambda>d k. Inr (d k)),
     pb_commit = (\<lambda>d ops. Some (\<lambda>k. case batch_value ops k of None \<Rightarrow> d k | Some v \<Rightarrow> v))\<rparr>"

text \<open>A codec for the blocks of a list: their positions in it.\<close>

definition table_codec :: "block list \<Rightarrow> rlp_codec" where
  "table_codec bs =
     \<lparr>rlp_block = (\<lambda>b. if b \<in> set bs then Some (nat_bytes (length (takeWhile (\<lambda>x. x \<noteq> b) bs))) else None),
      rlp_header = (\<lambda>h. if Some h \<in> b_Header ` set bs
        then Some (nat_bytes (length (takeWhile (\<lambda>x. b_Header x \<noteq> Some h) bs))) else None),
      unrlp_block = (\<lambda>data. if be_value data < length bs then Some (bs ! be_value data) else None),
      unrlp_header = (\<lambda>data. if be_value data < length bs then b_Header (bs ! be_value data) else None)\<rparr>"

lemma nth_takeWhile_neq: "x \<in> set xs \<Longrightarrow> xs ! length (takeWhile (\<lambda>y. y \<noteq> x) xs) = x"
  by (induction xs) auto

lemma length_takeWhile_neq: "x \<in> set xs \<Longrightarrow> length (takeWhile (\<lambda>y. y \<noteq> x) xs) < length xs"
  by (induction xs) auto

interpretation tdb: chain_store map_pebble "table_codec bs" for bs
  by unfold_locales
    (auto simp: map_pebble_def table_codec_def nth_takeWhile_neq length_takeWhile_neq split: option.split if_splits)

lemma table_reads_back [simp]: "reads_back (table_codec bs) b"
  by (simp add: reads_back_def table_codec_def nth_takeWhile_neq length_takeWhile_neq split: if_splits)

section \<open>Properties\<close>

text \<open>
  C11: each of the ten writes of the chain database is the corresponding update of the view, when it
  succeeds. A block without nil pointers is read back under its hash, and moves no pointer; making it
  canonical also sets its pointer and the head; a header moves only the pointer of its number; the two
  pointer writes and the pruning marks touch no block; deleting a segment clears exactly the pointers of
  its heights, truncation also the blocks they named, rollback the blocks and the pointers of the list,
  and pruning the block of one height. None of the deletions moves the head.
\<close>

theorem chain_db_refines_view:
  assumes "chain_store P R" "plain_block b"
  shows "(db_WriteBlock P R C d b = Inr d1
      \<longrightarrow> view P R d1 = (view P R d)\<lparr>vw_block := (vw_block (view P R d))(Block_Hash C b := Inr (Some b))\<rparr>)
    \<and> (WriteCanonicalHash P d n hash = Inr d2
      \<longrightarrow> view P R d2 = (view P R d)\<lparr>vw_canonical := (vw_canonical (view P R d))(n := Inr hash)\<rparr>)
    \<and> (WriteHeadBlockHash P d hash = Inr d3 \<longrightarrow> view P R d3 = (view P R d)\<lparr>vw_head := Inr hash\<rparr>)
    \<and> (write_canonical_block P R C d b n = Inr d4
      \<longrightarrow> view P R d4 = \<lparr>vw_block = (vw_block (view P R d))(Block_Hash C b := Inr (Some b)),
        vw_canonical = (vw_canonical (view P R d))(n := Inr (Block_Hash C b)), vw_head = Inr (Block_Hash C b)\<rparr>)
    \<and> (WriteHeader P R C d h = Inr d5 \<longrightarrow> (\<exists>k. h_Number h = Some k \<and> view P R d5 = (view P R d)\<lparr>vw_canonical :=
        (vw_canonical (view P R d))(big_uint64 k := Inr (Header_Hash C (Some h)))\<rparr>))
    \<and> (deleteCanonicalChain P d lo hi = Inr d6
      \<longrightarrow> view P R d6 = (view P R d)\<lparr>vw_canonical := \<lambda>n. if n \<in> set (heights lo hi) \<and> (\<exists>h. vw_canonical (view P R d) n = Inr h)
        then Inr zero_hash else vw_canonical (view P R d) n\<rparr>)
    \<and> (commit P d (truncate_entries P d lo hi) = Inr d7
      \<longrightarrow> view P R d7 = (view P R d)\<lparr>vw_block := \<lambda>h. if h \<noteq> zero_hash
          \<and> (\<exists>n \<in> set (heights (lo + 1) hi). vw_canonical (view P R d) n = Inr h) then Inr None else vw_block (view P R d) h,
        vw_canonical := \<lambda>n. if n \<in> set (heights (lo + 1) hi) \<and> (\<exists>h. vw_canonical (view P R d) n = Inr h)
          then Inr zero_hash else vw_canonical (view P R d) n\<rparr>)
    \<and> (commit P d (rollback_entries C bs) = Inr d8
      \<longrightarrow> view P R d8 = (view P R d)\<lparr>vw_block := \<lambda>h. if \<exists>b \<in> set bs. Option.bind (b_Header b) h_Number \<noteq> None \<and> Block_Hash C b = h
          then Inr None else vw_block (view P R d) h,
        vw_canonical := \<lambda>n. if \<exists>b \<in> set bs. map_option big_uint64 (Option.bind (b_Header b) h_Number) = Some n
          then Inr zero_hash else vw_canonical (view P R d) n\<rparr>)
    \<and> (DeleteBlockData P d n = Inr d9 \<longrightarrow> view P R d9 = (view P R d)\<lparr>vw_block :=
        \<lambda>h. if h \<noteq> zero_hash \<and> vw_canonical (view P R d) n = Inr h then Inr None else vw_block (view P R d) h\<rparr>)
    \<and> (MarkBlockPruned P d n hash = Inr d10 \<or> SetPrunedHeight P d n = Inr d10 \<longrightarrow> view P R d10 = view P R d)"
proof -
  have P: "pebble_store P" using assms(1) by (simp add: chain_store_def)
  have b: "reads_back R b" using chain_store.plain_reads_back [OF assms] .
  show ?thesis
    by (intro conjI impI pebble_store.view_db_WriteBlock [OF P _ b] pebble_store.view_write_canonical_block [OF P _ b]
        pebble_store.view_WriteCanonicalHash [OF P] pebble_store.view_WriteHeadBlockHash [OF P] pebble_store.view_WriteHeader [OF P]
        pebble_store.view_deleteCanonicalChain [OF P] pebble_store.view_truncate [OF P] pebble_store.view_rollback [OF P]
        pebble_store.view_DeleteBlockData_all [OF P], assumption+)
      (use pebble_store.view_marks [OF P] in blast)
qed

definition plain_sample :: block where
  "plain_sample = sample_parent\<lparr>b_Header := Some (sample_header\<lparr>h_RewardAmount := Some 0, h_CurrentReward := Some 0\<rparr>)\<rparr>"

theorem chain_db_refines_view_witness:
  "\<exists>d. write_canonical_block map_pebble (table_codec [plain_sample]) const_crypto Map.empty plain_sample 0 = Inr d
    \<and> ReadBlockByHash map_pebble (table_codec [plain_sample]) d (Block_Hash const_crypto plain_sample) = Inr (Some plain_sample)
    \<and> GetCanonicalHash map_pebble d 0 = Inr (Block_Hash const_crypto plain_sample)"
proof -
  let ?R = "table_codec [plain_sample]"
  obtain d where d: "write_canonical_block map_pebble ?R const_crypto Map.empty plain_sample 0 = Inr d"
    by (simp add: write_canonical_block_def block_entries_def table_codec_def commit_def map_pebble_def
        plain_sample_def sample_header_def)
  have "plain_block plain_sample"
    by (simp add: plain_block_def plain_header_def plain_sample_def sample_parent_def sample_header_def)
  then have "view map_pebble ?R d = \<lparr>vw_block = (vw_block (view map_pebble ?R Map.empty))(Block_Hash const_crypto plain_sample := Inr (Some plain_sample)),
      vw_canonical = (vw_canonical (view map_pebble ?R Map.empty))(0 := Inr (Block_Hash const_crypto plain_sample)),
      vw_head = Inr (Block_Hash const_crypto plain_sample)\<rparr>"
    using chain_db_refines_view [OF tdb.chain_store_axioms [of "[plain_sample]"], where b = plain_sample and C = const_crypto and d = Map.empty and n = 0 and ?d4.0 = d] d
    by blast
  then show ?thesis using d by (auto simp: view_def fun_eq_iff)
qed

end
