(* ===== verification/Blockchain.thy ===== *)
theory Blockchain
  imports Reorg Chain_DB Tx_Pool
begin

text \<open>
  The chain itself: reads (\<open>antdc/chain/sync.go\<close>, \<open>antdc/chain/blockchain.go\<close>), the acceptance of a
  block (\<open>addBlockInternal\<close> and what it calls in \<open>sync.go\<close>), the reversal of the chain by replay
  (\<open>revertToHeight\<close>), and the adapter that gives the chain to the reorganisation manager
  (\<open>antdc/chain/prune_reorg_integration.go\<close>).

  The block caches are left out: \<open>getCanonicalCachedBlock\<close> returns a cached block only if its hash is
  the canonical hash of its height, and blocks are cached by hash when they are read or written. A
  state that a failed reversal has closed is opened again at its next use (\<open>GetState\<close>), with what the
  replay has written; the model keeps the content. \<open>triggerSyncFromBlock\<close> runs in a goroutine of its
  own and is taken to be done when the call that started it returns. Checkpoint creation, king
  synchronisation and notifications run in goroutines as well and are left out. Heights are not
  \<open>2 ^ 64 - 1\<close>, where the loops of the code do not end.
\<close>

section \<open>State and environment\<close>

record ('s, 'd) blockchain =
  bc_node :: "'s node"
  bc_db :: 'd
  bc_latest :: "block option"
  bc_height :: u64
  bc_syncing :: bool
  bc_syncTarget :: u64
  bc_pool :: "tx_pool option"

text \<open>
  \<open>ce_ancient\<close> reads the ancient store, if there is one; \<open>ce_checkpoint\<close> is the verdict of the
  checkpoint manager on a genesis block; \<open>ce_reopen\<close> opens the state path again; the orders are those
  in which the pool iterates.
\<close>

record ('s, 'd) chain_env =
  ce_pebble :: "'d pebble_ops"
  ce_rlp :: rlp_codec
  ce_node :: "'s node_env"
  ce_ancient :: "(hash \<Rightarrow> block option) option"
  ce_checkpoint :: "hash \<Rightarrow> bool"
  ce_reopen :: "'s \<Rightarrow> 's option"
  ce_order1 :: "hash list"
  ce_order2 :: "hash list"

datatype chain_error =
    C_Nil_Block | C_Panic | C_Checkpoint | C_Duplicate | C_Stale | C_No_Genesis | C_Genesis_Parent | C_Parent_Missing
  | C_Fork | C_Lookup | C_Not_Better | C_Ahead | C_Validation validation_error | C_Orphan | C_Unexpected
  | C_Database db_error | C_Commit | C_Root_Mismatch | C_Nothing_To_Replace | C_Deadlock
  | C_Revert_Target | C_Reopen | C_Genesis_State | C_Replay | C_Sync_Batch

section \<open>Reading blocks\<close>

text \<open>\<open>GetBlock\<close>; \<open>Inl ()\<close>: it dereferences the nil block when the canonical block has been deleted.\<close>

definition GetBlock :: "'d pebble_ops \<Rightarrow> rlp_codec \<Rightarrow> 'd \<Rightarrow> u64 \<Rightarrow> unit + block option" where
  "GetBlock P R d height =
     (case GetCanonicalHash P d height of
        Inl _ \<Rightarrow> Inr None
      | Inr canonicalHash \<Rightarrow>
          if canonicalHash = zero_hash then Inr None
          else (case ReadBlockByHash P R d canonicalHash of
                  Inl _ \<Rightarrow> Inr None
                | Inr None \<Rightarrow> Inl ()
                | Inr (Some b) \<Rightarrow>
                    (case blk_number b of
                       None \<Rightarrow> Inl ()
                     | Some n \<Rightarrow> Inr (if n \<noteq> height then None else Some b))))"

definition GetBlockByHash :: "'d pebble_ops \<Rightarrow> rlp_codec \<Rightarrow> 'd \<Rightarrow> hash \<Rightarrow> db_error + block option" where
  "GetBlockByHash P R d hash = (if hash = zero_hash then Inl DB_Store else ReadBlockByHash P R d hash)"

definition found :: "'e + 'a option \<Rightarrow> 'a option" where
  "found r = (case r of Inl _ \<Rightarrow> None | Inr x \<Rightarrow> x)"

definition checkAncientBlock :: "('s, 'd) chain_env \<Rightarrow> 'd \<Rightarrow> u64 \<Rightarrow> block option" where
  "checkAncientBlock X d number =
     (case (ce_ancient X, GetCanonicalHash (ce_pebble X) d number) of
        (Some ancient, Inr hash) \<Rightarrow> if hash = zero_hash then None else ancient hash
      | _ \<Rightarrow> None)"

definition getBlockByNumber :: "('s, 'd) chain_env \<Rightarrow> 'd \<Rightarrow> u64 \<Rightarrow> db_error + block option" where
  "getBlockByNumber X d number =
     (case GetCanonicalHash (ce_pebble X) d number of
        Inl e \<Rightarrow> Inl e
      | Inr hash \<Rightarrow>
          if hash = zero_hash then Inr (checkAncientBlock X d number)
          else (case ReadBlockByHash (ce_pebble X) (ce_rlp X) d hash of
                  Inl e \<Rightarrow> Inl e
                | Inr None \<Rightarrow> Inr (checkAncientBlock X d number)
                | Inr (Some b) \<Rightarrow> Inr (Some b)))"

definition HasBlock :: "('s, 'd) chain_env \<Rightarrow> 'd \<Rightarrow> hash \<Rightarrow> bool" where
  "HasBlock X d hash =
     (case db_HasBlock (ce_pebble X) d hash of
        Inl _ \<Rightarrow> False
      | Inr exists \<Rightarrow> exists \<or> (case ce_ancient X of None \<Rightarrow> False | Some ancient \<Rightarrow> ancient hash \<noteq> None))"

definition HasBlockAtHeight :: "'d pebble_ops \<Rightarrow> 'd \<Rightarrow> u64 \<Rightarrow> bool" where
  "HasBlockAtHeight P d height = (case GetCanonicalHash P d height of Inl _ \<Rightarrow> False | Inr hash \<Rightarrow> hash \<noteq> zero_hash)"

text \<open>The environment of validation and execution reads this chain.\<close>

definition env_of :: "('s, 'd) chain_env \<Rightarrow> 'd \<Rightarrow> 's node_env" where
  "env_of X d =
     (ce_node X)\<lparr>ne_byHash := (\<lambda>h. found (GetBlockByHash (ce_pebble X) (ce_rlp X) d h)),
                 ne_view := (ne_view (ce_node X))\<lparr>cv_blockAt := (\<lambda>n. found (getBlockByNumber X d n))\<rparr>\<rparr>"

abbreviation ce_crypto :: "('s, 'd) chain_env \<Rightarrow> crypto" where
  "ce_crypto X \<equiv> ne_crypto (ce_node X)"

section \<open>Making a block the tip\<close>

definition StartSync :: "('s, 'd) blockchain \<Rightarrow> u64 \<Rightarrow> ('s, 'd) blockchain" where
  "StartSync bc target = bc\<lparr>bc_syncing := True, bc_syncTarget := target\<rparr>"

definition triggerSyncFromBlock :: "('s, 'd) blockchain \<Rightarrow> u64 \<Rightarrow> ('s, 'd) blockchain" where
  "triggerSyncFromBlock bc height = (if height \<le> bc_height bc then bc else StartSync bc height)"

definition maybeCompleteSync :: "('s, 'd) blockchain \<Rightarrow> u64 \<Rightarrow> ('s, 'd) blockchain" where
  "maybeCompleteSync bc height =
     (if bc_syncing bc \<and> height \<ge> bc_syncTarget bc then bc\<lparr>bc_syncing := False\<rparr> else bc)"

text \<open>Committing the state, and comparing its root with the header's.\<close>

definition commit_state :: "'s node_env \<Rightarrow> 's \<Rightarrow> u64 \<Rightarrow> hash \<Rightarrow> (chain_error + unit) \<times> 's" where
  "commit_state E s height headerRoot =
     (case State_Commit (ne_kv E) (ne_sha256 E) s height of
        (Inl _, s') \<Rightarrow> (Inl C_Commit, s')
      | (Inr stateRoot, s') \<Rightarrow>
          if stateRoot \<noteq> headerRoot then (Inl C_Root_Mismatch, s')
          else (case State_Reset (ne_kv E) (ne_sha256 E) s' stateRoot of Inl _ \<Rightarrow> (Inl C_Commit, s') | Inr _ \<Rightarrow> (Inr (), s')))"

text \<open>A block that has been executed has no nil transaction.\<close>

definition mined_txs :: "block \<Rightarrow> tx list" where
  "mined_txs b = map the (filter (\<lambda>t. t \<noteq> None) (b_Txs b))"

definition clean_pool :: "('s, 'd) chain_env \<Rightarrow> block \<Rightarrow> tx_pool option \<Rightarrow> tx_pool option" where
  "clean_pool X b pool =
     (if b_Txs b = [] then pool
      else map_option (\<lambda>p. CleanupMinedTransactions (ne_sha256 (ce_node X)) (ce_order1 X) (ce_order2 X) p (mined_txs b)) pool)"

text \<open>What \<open>handleDirectExtension\<close> and \<open>handleSyncModeBlock\<close> write before they move the tip.\<close>

definition write_tip :: "('s, 'd) chain_env \<Rightarrow> 'd \<Rightarrow> block \<Rightarrow> u64 \<Rightarrow> bool \<Rightarrow> (db_error + unit) \<times> 'd" where
  "write_tip X d b height setHead =
     (let P = ce_pebble X; hash = Block_Hash (ce_crypto X) b
      in case db_WriteBlock P (ce_rlp X) (ce_crypto X) d b of
           Inl e \<Rightarrow> (Inl e, d)
         | Inr d1 \<Rightarrow>
             (case WriteCanonicalHash P d1 height hash of
                Inl e \<Rightarrow> (Inl e, d1)
              | Inr d2 \<Rightarrow> (Inr (), if setHead then or_unchanged d2 (WriteHeadBlockHash P d2 hash) else d2)))"

definition handleDirectExtension ::
    "('s, 'd) chain_env \<Rightarrow> ('s, 'd) blockchain \<Rightarrow> block \<Rightarrow> header \<Rightarrow> u64 \<Rightarrow> bool
     \<Rightarrow> (chain_error + unit) \<times> ('s, 'd) blockchain" where
  "handleDirectExtension X bc b h height duringSync =
     (case write_tip X (bc_db bc) b height True of
        (Inl e, d) \<Rightarrow> (Inl (C_Database e), bc\<lparr>bc_db := d\<rparr>)
      | (Inr _, d) \<Rightarrow>
          (case commit_state (ce_node X) (nd_state (bc_node bc)) height (h_Root h) of
             (Inl e, s) \<Rightarrow>
               (Inl e, bc\<lparr>bc_db := d, bc_latest := Some b, bc_height := height, bc_node := (bc_node bc)\<lparr>nd_state := s\<rparr>\<rparr>)
           | (Inr _, s) \<Rightarrow>
               let bc1 = bc\<lparr>bc_db := d, bc_latest := Some b, bc_height := height, bc_node := (bc_node bc)\<lparr>nd_state := s\<rparr>\<rparr>;
                   bc2 = (if duringSync then maybeCompleteSync bc1 height else bc1)
               in (Inr (), bc2\<lparr>bc_pool := clean_pool X b (bc_pool bc2)\<rparr>)))"

text \<open>The head moves only if the block is above the tip.\<close>

definition handleSyncModeBlock ::
    "('s, 'd) chain_env \<Rightarrow> ('s, 'd) blockchain \<Rightarrow> block \<Rightarrow> header \<Rightarrow> u64
     \<Rightarrow> (chain_error + unit) \<times> ('s, 'd) blockchain" where
  "handleSyncModeBlock X bc b h height =
     (let currentHeight = (case bc_latest bc of None \<Rightarrow> 0 | Some t \<Rightarrow> fork_height t)
      in case write_tip X (bc_db bc) b height (height > currentHeight) of
           (Inl e, d) \<Rightarrow> (Inl (C_Database e), bc\<lparr>bc_db := d\<rparr>)
         | (Inr _, d) \<Rightarrow>
             (case commit_state (ce_node X) (nd_state (bc_node bc)) height (h_Root h) of
                (Inl e, s) \<Rightarrow>
                  (Inl e, bc\<lparr>bc_db := d, bc_latest := Some b, bc_height := height, bc_node := (bc_node bc)\<lparr>nd_state := s\<rparr>\<rparr>)
              | (Inr _, s) \<Rightarrow>
                  let bc1 = maybeCompleteSync (bc\<lparr>bc_db := d, bc_latest := Some b, bc_height := height,
                        bc_node := (bc_node bc)\<lparr>nd_state := s\<rparr>\<rparr>) height
                  in (Inr (), bc1\<lparr>bc_pool := clean_pool X b (bc_pool bc1)\<rparr>)))"

section \<open>Replaying the chain\<close>

text \<open>
  \<open>executeBlockOnState\<close>: no fees, and the king is the manager's current one. The state comes back with
  an error, too; so do the recorded shares of the kings.
\<close>

fun replay_txs :: "'s kv_ops \<Rightarrow> crypto \<Rightarrow> (bytes \<Rightarrow> hash) \<Rightarrow> vm \<Rightarrow> 's \<Rightarrow> tx option list \<Rightarrow> bool \<times> 's" where
  "replay_txs K C sha256 v s [] = (True, s)"
| "replay_txs K C sha256 v s (t # txs) =
     (case t of
        None \<Rightarrow> replay_txs K C sha256 v s txs
      | Some transaction \<Rightarrow>
          let r = Execute K C sha256 (\<lambda>_. False) v s transaction
          in case fst r of
               Inl _ \<Rightarrow> (False, exec_state r)
             | Inr _ \<Rightarrow> replay_txs K C sha256 (exec_vm r) (exec_state r) txs)"

definition executeBlockOnState :: "'s node_env \<Rightarrow> 's node \<Rightarrow> block \<Rightarrow> (chain_error + hash) \<times> 's node" where
  "executeBlockOnState E n b =
     (case (b_Header b, blk_number b) of
        (Some h, Some height) \<Rightarrow>
          (case replay_txs (ne_kv E) (ne_crypto E) (ne_sha256 E) (NewVM (h_GasLimit h)) (nd_state n) (b_Txs b) of
             (False, s1) \<Rightarrow> (Inl C_Replay, n\<lparr>nd_state := s1\<rparr>)
           | (True, s1) \<Rightarrow>
               (case (ne_distributor E, case nd_kings n of None \<Rightarrow> Some None | Some m \<Rightarrow> map_option Some (GetCurrentKing m)) of
                  (Some mainKing, Some king) \<Rightarrow>
                    (case DistributeRewards (ne_kv E) s1 mainKing (h_Coinbase h) (Some 0) height king (nd_pow n \<noteq> None) of
                       Inl _ \<Rightarrow> (Inl C_Replay, n\<lparr>nd_state := s1\<rparr>)
                     | Inr (_, s2, paid) \<Rightarrow>
                         (Inr (State_Root (ne_kv E) (ne_sha256 E) s2),
                          n\<lparr>nd_state := s2, nd_kings := record_share (ne_written E) (nd_kings n) paid\<rparr>))
                | _ \<Rightarrow> (Inl C_Panic, n\<lparr>nd_state := s1\<rparr>)))
      | _ \<Rightarrow> (Inl C_Panic, n))"

definition GenesisMainKingBalance :: int where
  "GenesisMainKingBalance = 60000000000000000000000000"

text \<open>\<open>initializeRevertState\<close>: the store is cleared before anything is read.\<close>

definition initializeRevertState :: "('s, 'd) chain_env \<Rightarrow> 'd \<Rightarrow> 's \<Rightarrow> (chain_error + unit) \<times> 's" where
  "initializeRevertState X d s =
     (let E = ce_node X in
      case State_Clear (ne_kv E) s of
        Inl _ \<Rightarrow> (Inl C_Genesis_State, s)
      | Inr s1 \<Rightarrow>
          (case GetCanonicalHash (ce_pebble X) d 0 of
             Inl _ \<Rightarrow> (Inl C_Genesis_State, s1)
           | Inr genesisHash \<Rightarrow>
               if genesisHash = zero_hash then (Inl C_Genesis_State, s1)
               else
                 (case Option.bind (found (ReadBlockByHash (ce_pebble X) (ce_rlp X) d genesisHash)) b_Header of
                    None \<Rightarrow> (Inl C_Genesis_State, s1)
                  | Some gh \<Rightarrow>
                      (case ParseQuantumAddress (ne_crypto E) GenesisMainKing of
                         Inl _ \<Rightarrow> (Inl C_Genesis_State, s1)
                       | Inr mainKing \<Rightarrow>
                           (case AddBalance (ne_kv E) s1 mainKing GenesisMainKingBalance of
                              Inl _ \<Rightarrow> (Inl C_Genesis_State, s1)
                            | Inr s2 \<Rightarrow>
                                if State_Root (ne_kv E) (ne_sha256 E) s2 \<noteq> h_Root gh then (Inl C_Genesis_State, s2)
                                else (Inr (), s2))))))"

fun replay_chain :: "('s, 'd) chain_env \<Rightarrow> 'd \<Rightarrow> 's node \<Rightarrow> u64 list \<Rightarrow> (chain_error + unit) \<times> 's node" where
  "replay_chain X d n [] = (Inr (), n)"
| "replay_chain X d n (h # hs) =
     (case found (getBlockByNumber X d h) of
        None \<Rightarrow> (Inl C_Replay, n)
      | Some b \<Rightarrow>
          (case executeBlockOnState (ce_node X) n b of
             (Inl e, n') \<Rightarrow> (Inl e, n')
           | (Inr _, n') \<Rightarrow> replay_chain X d n' hs))"

text \<open>
  The tip after a reversal; the canonical pointers, the head and the last height above it stay in
  the database.
\<close>

definition set_tip :: "('s, 'd) chain_env \<Rightarrow> ('s, 'd) blockchain \<Rightarrow> u64 \<Rightarrow> (chain_error + unit) \<times> ('s, 'd) blockchain" where
  "set_tip X bc height =
     (if height = 0 then (Inr (), bc\<lparr>bc_latest := None, bc_height := 0\<rparr>)
      else
        (case GetCanonicalHash (ce_pebble X) (bc_db bc) height of
           Inl e \<Rightarrow> (Inl (C_Database e), bc)
         | Inr hash \<Rightarrow>
             if hash = zero_hash then (Inl C_Revert_Target, bc)
             else (case ReadBlockByHash (ce_pebble X) (ce_rlp X) (bc_db bc) hash of
                     Inl e \<Rightarrow> (Inl (C_Database e), bc)
                   | Inr blk \<Rightarrow> (Inr (), bc\<lparr>bc_latest := blk, bc_height := height\<rparr>))))"

text \<open>\<open>locked\<close>: the caller holds \<open>stateMu\<close>, which is not reentrant.\<close>

definition revertToHeight ::
    "('s, 'd) chain_env \<Rightarrow> bool \<Rightarrow> ('s, 'd) blockchain \<Rightarrow> u64 \<Rightarrow> (chain_error + unit) \<times> ('s, 'd) blockchain" where
  "revertToHeight X locked bc height =
     (if height > bc_height bc then (Inl C_Revert_Target, bc)
      else if height = bc_height bc then (Inr (), bc)
      else if locked then (Inl C_Deadlock, bc)
      else
        (case ce_reopen X (nd_state (bc_node bc)) of
           None \<Rightarrow> (Inl C_Reopen, bc)
         | Some s0 \<Rightarrow>
             (case initializeRevertState X (bc_db bc) s0 of
                (Inl e, s1) \<Rightarrow> (Inl e, bc\<lparr>bc_node := (bc_node bc)\<lparr>nd_state := s1\<rparr>\<rparr>)
              | (Inr _, s1) \<Rightarrow>
                  (case replay_chain X (bc_db bc) ((bc_node bc)\<lparr>nd_state := s1\<rparr>) (if height > 0 then heights 1 height else []) of
                     (Inl e, n) \<Rightarrow> (Inl e, bc\<lparr>bc_node := n\<rparr>)
                   | (Inr _, n) \<Rightarrow> set_tip X (bc\<lparr>bc_node := n\<rparr>) height))))"

section \<open>Replacing the tip\<close>

definition reorganizeAtHeight ::
    "('s, 'd) chain_env \<Rightarrow> ('s, 'd) blockchain \<Rightarrow> u64 \<Rightarrow> block \<Rightarrow> header \<Rightarrow> (chain_error + unit) \<times> ('s, 'd) blockchain" where
  "reorganizeAtHeight X bc height b h =
     (let P = ce_pebble X; R = ce_rlp X; C = ce_crypto X; newHash = Block_Hash C b in
      case (GetBlock P R (bc_db bc) height, GetBlock P R (bc_db bc) (height - 1)) of
        (Inr (Some oldBlock), Inr (Some parent)) \<Rightarrow>
          (case revertToHeight X True bc (height - 1) of
             (Inl e, bc1) \<Rightarrow> (Inl e, bc1)
           | (Inr _, bc1) \<Rightarrow>
               (case validateAndExecuteBlock (env_of X (bc_db bc1)) (bc_node bc1) (Some b) (Some parent) of
                  (Inl e, n) \<Rightarrow> (Inl (C_Validation e), bc1\<lparr>bc_node := n\<rparr>)
                | (Inr _, n) \<Rightarrow>
                    let bc2 = bc1\<lparr>bc_node := n\<rparr>;
                        isTip = (case bc_latest bc2 of None \<Rightarrow> False | Some t \<Rightarrow> Block_Hash C t = Block_Hash C oldBlock)
                    in (case db_WriteBlock P R C (bc_db bc2) b of
                          Inl e \<Rightarrow> (Inl (C_Database e), bc2)
                        | Inr d1 \<Rightarrow>
                            let d2 = or_unchanged d1 (WriteCanonicalHash P d1 height newHash);
                                d3 = (if isTip then or_unchanged d2 (WriteHeadBlockHash P d2 newHash) else d2);
                                bc3 = bc2\<lparr>bc_db := d3, bc_latest := (if isTip then Some b else bc_latest bc2)\<rparr>
                            in (case commit_state (ce_node X) (nd_state n) height (h_Root h) of
                                  (Inl e, s) \<Rightarrow> (Inl e, bc3\<lparr>bc_node := n\<lparr>nd_state := s\<rparr>\<rparr>)
                                | (Inr _, s) \<Rightarrow>
                                    (Inr (), bc3\<lparr>bc_node := n\<lparr>nd_state := s\<rparr>,
                                       bc_pool := clean_pool X b (clean_pool X oldBlock (bc_pool bc3))\<rparr>)))))
      | (Inl _, _) \<Rightarrow> (Inl C_Panic, bc)
      | (Inr None, _) \<Rightarrow> (Inl C_Nothing_To_Replace, bc)
      | (_, Inl _) \<Rightarrow> (Inl C_Panic, bc)
      | (_, Inr None) \<Rightarrow> (Inl C_Nothing_To_Replace, bc))"

section \<open>Accepting a block\<close>

text \<open>The current height and tip hash, as \<open>addBlockInternal\<close> reads them.\<close>

definition tip_height :: "('s, 'd) blockchain \<Rightarrow> u64" where
  "tip_height bc = (case bc_latest bc of None \<Rightarrow> 0 | Some t \<Rightarrow> fork_height t)"

definition tip_hash :: "crypto \<Rightarrow> ('s, 'd) blockchain \<Rightarrow> hash" where
  "tip_hash C bc = (case bc_latest bc of None \<Rightarrow> zero_hash | Some t \<Rightarrow> Block_Hash C t)"

text \<open>
  The search for the parent. A parent that is found by its hash because its height has no canonical
  block is assigned to a variable of the inner scope: the outer one stays nil.
\<close>

definition locate_parent :: "('s, 'd) chain_env \<Rightarrow> 'd \<Rightarrow> u64 \<Rightarrow> u64 \<Rightarrow> hash \<Rightarrow> chain_error + block option" where
  "locate_parent X d currentHeight height parentHash =
     (let P = ce_pebble X; R = ce_rlp X; C = ce_crypto X in
      if height = 0 then Inr None
      else if height = 1 then
        (case GetBlock P R d 0 of
           Inl _ \<Rightarrow> Inl C_Panic
         | Inr None \<Rightarrow> Inl C_No_Genesis
         | Inr (Some g) \<Rightarrow> if parentHash \<noteq> Block_Hash C g then Inl C_Genesis_Parent else Inr (Some g))
      else
        (case GetBlock P R d (height - 1) of
           Inl _ \<Rightarrow> Inl C_Panic
         | Inr (Some p) \<Rightarrow>
             if Block_Hash C p = parentHash then Inr (Some p)
             else (case found (ReadBlockByHash P R d parentHash) of
                     Some q \<Rightarrow> if Block_Hash C q = parentHash then Inr (Some q)
                               else if height > currentHeight then Inl C_Parent_Missing else Inl C_Fork
                   | None \<Rightarrow> if height > currentHeight then Inl C_Parent_Missing else Inl C_Fork)
         | Inr None \<Rightarrow>
             (case found (ReadBlockByHash P R d parentHash) of
                None \<Rightarrow> Inl C_Parent_Missing
              | Some q \<Rightarrow> if Block_Hash C q \<noteq> parentHash then Inl C_Lookup else Inr None)))"

text \<open>The part behind the checks: validation, execution and the choice of the extension.\<close>

definition execute_and_extend ::
    "('s, 'd) chain_env \<Rightarrow> ('s, 'd) blockchain \<Rightarrow> block \<Rightarrow> header \<Rightarrow> u64 \<Rightarrow> block option
     \<Rightarrow> (chain_error + unit) \<times> ('s, 'd) blockchain" where
  "execute_and_extend X bc b h height parent =
     (let currentHeight = tip_height bc; tipHash = tip_hash (ce_crypto X) bc in
      case validateAndExecuteBlock (env_of X (bc_db bc)) (bc_node bc) (Some b) parent of
        (Inl e, n) \<Rightarrow> (Inl (C_Validation e), bc\<lparr>bc_node := n\<rparr>)
      | (Inr _, n) \<Rightarrow>
          let bc1 = bc\<lparr>bc_node := n\<rparr>
          in if height = currentHeight + 1 \<and> h_ParentHash h = tipHash then handleDirectExtension X bc1 b h height (bc_syncing bc1)
             else if bc_syncing bc1 then
               (if parent = None \<and> height > 0 then (Inl C_Orphan, bc1)
                else if height = currentHeight + 1 then handleDirectExtension X bc1 b h height True
                else handleSyncModeBlock X bc1 b h height)
             else if height = currentHeight then
               (if tipHash = Block_Hash (ce_crypto X) b then (Inr (), bc1) else (Inl C_Unexpected, bc1))
             else (Inl C_Unexpected, bc1))"

text \<open>The checks before the search for the parent.\<close>

definition entry_check :: "('s, 'd) chain_env \<Rightarrow> ('s, 'd) blockchain \<Rightarrow> block \<Rightarrow> u64 \<Rightarrow> chain_error + unit" where
  "entry_check X bc b height =
     (let C = ce_crypto X; currentHeight = tip_height bc in
      if height = 0 \<and> \<not> ce_checkpoint X (Block_Hash C b) then Inl C_Checkpoint
      else if HasBlock X (bc_db bc) (Block_Hash C b) \<and> GetBlock (ce_pebble X) (ce_rlp X) (bc_db bc) height = Inl ()
      then Inl C_Panic
      else if HasBlock X (bc_db bc) (Block_Hash C b) \<and> height \<le> currentHeight
        \<and> map_option (Block_Hash C) (found (GetBlock (ce_pebble X) (ce_rlp X) (bc_db bc) height)) = Some (Block_Hash C b)
      then Inl C_Duplicate
      else if height < currentHeight then Inl C_Stale
      else Inr ())"

definition addBlockInternal ::
    "('s, 'd) chain_env \<Rightarrow> ('s, 'd) blockchain \<Rightarrow> block option \<Rightarrow> (chain_error + unit) \<times> ('s, 'd) blockchain" where
  "addBlockInternal X bc b =
     (let C = ce_crypto X; currentHeight = tip_height bc; tipHash = tip_hash C bc in
      case (b, Option.bind b b_Header, Option.bind b blk_number) of
        (Some blk, Some h, Some height) \<Rightarrow>
          (case entry_check X bc blk height of
             Inl e \<Rightarrow> (Inl e, bc)
           | Inr _ \<Rightarrow>
               (case locate_parent X (bc_db bc) currentHeight height (h_ParentHash h) of
                  Inl e \<Rightarrow>
                    (Inl e, if e = C_Parent_Missing \<and> height > currentHeight \<and> \<not> bc_syncing bc
                            then triggerSyncFromBlock bc height else bc)
                | Inr parent \<Rightarrow>
                    if height = currentHeight \<and> bc_latest bc \<noteq> None \<and> tipHash \<noteq> Block_Hash C blk then
                      (if \<not> isBetterBlockCandidate C b (bc_latest bc) then (Inl C_Not_Better, bc)
                       else reorganizeAtHeight X bc height blk h)
                    else if height > currentHeight + 1 then
                      (Inl C_Ahead, if bc_syncing bc then bc else triggerSyncFromBlock bc height)
                    else execute_and_extend X bc blk h height parent))
      | (Some blk, Some h, None) \<Rightarrow> (Inl C_Panic, bc)
      | _ \<Rightarrow> (Inl C_Nil_Block, bc))"

section \<open>The adapter for the reorganisation manager\<close>

text \<open>A panic counts as an error here.\<close>

definition adapter_ValidateBlockContext :: "('s, 'd) chain_env \<Rightarrow> ('s, 'd) blockchain \<Rightarrow> block \<Rightarrow> bool" where
  "adapter_ValidateBlockContext X bc b =
     (case b_Header b of
        None \<Rightarrow> False
      | Some h \<Rightarrow>
          (case h_Number h of
             None \<Rightarrow> False
           | Some n \<Rightarrow>
               n \<le> 0 \<or> (case found (GetBlockByHash (ce_pebble X) (ce_rlp X) (bc_db bc) (h_ParentHash h)) of
                  None \<Rightarrow> False | Some p \<Rightarrow> h_ParentHash h = Block_Hash (ce_crypto X) p)))"

definition adapter_ConnectBlock :: "('s, 'd) chain_env \<Rightarrow> ('s, 'd) blockchain \<Rightarrow> block \<Rightarrow> bool \<times> ('s, 'd) blockchain" where
  "adapter_ConnectBlock X bc b = (case addBlockInternal X bc (Some b) of (r, bc') \<Rightarrow> (r = Inr (), bc'))"

definition adapter_DisconnectBlock :: "('s, 'd) chain_env \<Rightarrow> ('s, 'd) blockchain \<Rightarrow> u64 \<Rightarrow> bool \<times> ('s, 'd) blockchain" where
  "adapter_DisconnectBlock X bc height =
     (if height = 0 then (False, bc)
      else (case revertToHeight X False bc (height - 1) of (r, bc') \<Rightarrow> (r = Inr (), bc')))"

definition reorgChainAdapter :: "('s, 'd) chain_env \<Rightarrow> ('s, 'd) blockchain chain_ops" where
  "reorgChainAdapter X =
     (let P = ce_pebble X; R = ce_rlp X; C = ce_crypto X in
      \<lparr>co_GetBlock = (\<lambda>bc h. found (GetBlock P R (bc_db bc) h)),
       co_GetBlockByHash = (\<lambda>bc h. found (GetBlockByHash P R (bc_db bc) h)),
       co_GetBlockHash = (\<lambda>bc h. case GetCanonicalHash P (bc_db bc) h of Inl _ \<Rightarrow> None | Inr x \<Rightarrow> Some x),
       co_HasBlock = (\<lambda>bc h. HasBlock X (bc_db bc) h),
       co_HasBlockAtHeight = (\<lambda>bc h. HasBlockAtHeight P (bc_db bc) h),
       co_CurrentTip = tip_hash C,
       co_GetCumulativeWork = (\<lambda>bc. GetCumulativeWork_from (\<lambda>h. found (GetBlock P R (bc_db bc) h)) CalculateBlockWork),
       co_CalculateBlockWork = CalculateBlockWork,
       co_AddBlock = adapter_ConnectBlock X, co_ConnectBlock = adapter_ConnectBlock X,
       co_DisconnectBlock = adapter_DisconnectBlock X,
       co_ValidateBlock = (\<lambda>bc b. ValidateMinedBlockProposal C (ne_sha256 (ce_node X))
          (ne_byHash (env_of X (bc_db bc))) (ne_now (ce_node X)) (nd_pow (bc_node bc)) (Some b) = Inr ()),
       co_ValidateBlockContext = adapter_ValidateBlockContext X\<rparr>)"

text \<open>The manager's environment over this chain, and the entry points of the node.\<close>

definition manager_env ::
    "('s, 'd) chain_env \<Rightarrow> int \<Rightarrow> ((hash \<times> orphan_block) list \<Rightarrow> (hash \<times> orphan_block) list)
     \<Rightarrow> ('s, 'd) blockchain rm_env" where
  "manager_env X now iter = \<lparr>re_ops = reorgChainAdapter X, re_crypto = ce_crypto X, re_now = now, re_iter = iter\<rparr>"

text \<open>\<open>processing\<close>: the reorganisation manager is inserting a block at this moment.\<close>

definition AddBlock ::
    "('s, 'd) chain_env \<Rightarrow> ('s, 'd) blockchain rm_env \<Rightarrow> bool \<Rightarrow> ('s, 'd) blockchain reorg_manager \<Rightarrow> block option \<Rightarrow> string
     \<Rightarrow> (bool \<times> ('s, 'd) blockchain reorg_manager) option" where
  "AddBlock X M processing rm b fromPeer =
     (if \<not> processing then map_option (\<lambda>(r, rm'). (r = Inr (), rm')) (ProcessNewBlock M rm b fromPeer)
      else (case addBlockInternal X (rm_chain rm) b of (r, bc') \<Rightarrow> Some (r = Inr (), rm\<lparr>rm_chain := bc'\<rparr>)))"

section \<open>A chain without a tip\<close>

text \<open>Every stored block is under its own hash.\<close>

definition store_ok :: "('s, 'd) chain_env \<Rightarrow> 'd \<Rightarrow> bool" where
  "store_ok X d \<longleftrightarrow> (\<forall>h b. ReadBlockByHash (ce_pebble X) (ce_rlp X) d h = Inr (Some b) \<longrightarrow> Block_Hash (ce_crypto X) b = h)"

lemma GetBlock_Some:
  assumes "GetBlock P R d h = Inr (Some b)"
  shows "\<exists>x. GetCanonicalHash P d h = Inr x \<and> x \<noteq> zero_hash \<and> ReadBlockByHash P R d x = Inr (Some b) \<and> blk_number b = Some h"
  using assms by (auto simp: GetBlock_def split: sum.splits if_splits option.splits)

lemma GetBlock_hash:
  "store_ok X d \<Longrightarrow> GetBlock (ce_pebble X) (ce_rlp X) d h = Inr (Some b) \<Longrightarrow> Block_Hash (ce_crypto X) b \<noteq> zero_hash"
  by (drule GetBlock_Some) (auto simp: store_ok_def)

lemma no_parent_no_execution:
  "validateAndExecuteBlock E n (Some b) None = (r, n') \<Longrightarrow> n' = n \<and> r \<noteq> Inr ()"
  by (auto simp: validateAndExecuteBlock_def prechecks_def validateBasicBlockIntegrity_def split: option.splits sum.splits)

lemma triggerSync_sel [simp]:
  "bc_latest (triggerSyncFromBlock bc h) = bc_latest bc" "bc_height (triggerSyncFromBlock bc h) = bc_height bc"
  "bc_db (triggerSyncFromBlock bc h) = bc_db bc" "bc_node (triggerSyncFromBlock bc h) = bc_node bc"
  by (simp_all add: triggerSyncFromBlock_def StartSync_def)

lemma locate_parent_one:
  assumes "locate_parent X d c 1 ph = Inr parent" "store_ok X d"
  shows "ph \<noteq> zero_hash"
  using assms GetBlock_hash [OF assms(2), of 0] by (auto simp: locate_parent_def Let_def split: sum.splits option.splits if_splits)

text \<open>Without a tip nothing is accepted, unless the node is synchronising and the block has height one.\<close>

lemma lost_tip:
  assumes "bc_latest bc = None" "store_ok X (bc_db bc)" "\<not> bc_syncing bc \<or> fork_height b > 1"
    and "addBlockInternal X bc (Some b) = (r, bc')"
  shows "r \<noteq> Inr () \<and> bc_latest bc' = None \<and> bc_height bc' = bc_height bc \<and> bc_db bc' = bc_db bc
    \<and> (bc_syncing bc' \<longrightarrow> bc_syncing bc \<or> fork_height b > 1)"
proof (cases "Option.bind (Some b) b_Header = None \<or> blk_number b = None")
  case True
  then show ?thesis using assms(1,4) by (auto simp: addBlockInternal_def Let_def split: option.splits)
next
  case False
  then obtain h height where h: "b_Header b = Some h" "blk_number b = Some height" by auto
  have tip: "tip_height bc = 0" "tip_hash C bc = zero_hash" for C using assms(1) by (simp_all add: tip_height_def tip_hash_def)
  have add: "(case entry_check X bc b height of Inl e \<Rightarrow> (Inl e, bc)
     | Inr _ \<Rightarrow>
         (case locate_parent X (bc_db bc) 0 height (h_ParentHash h) of
            Inl e \<Rightarrow> (Inl e, if e = C_Parent_Missing \<and> height > 0 \<and> \<not> bc_syncing bc then triggerSyncFromBlock bc height else bc)
          | Inr parent \<Rightarrow>
              if height > 1 then (Inl C_Ahead, if bc_syncing bc then bc else triggerSyncFromBlock bc height)
              else execute_and_extend X bc b h height parent)) = (r, bc')"
    using assms(1,4) h by (simp add: addBlockInternal_def Let_def tip cong: sum.case_cong)
  show ?thesis
  proof (cases "entry_check X bc b height")
    case Inl
    then show ?thesis using add assms(1) by auto
  next
    case (Inr u)
    show ?thesis
    proof (cases "locate_parent X (bc_db bc) 0 height (h_ParentHash h)")
      case (Inl e)
      have "height = 1 \<Longrightarrow> e \<noteq> C_Parent_Missing"
        using Inl by (auto simp: locate_parent_def Let_def split: sum.splits option.splits if_splits)
      moreover have "fork_height b = height" using h(2) by (simp add: fork_height_def)
      moreover have "height > 0 \<Longrightarrow> height \<noteq> 1 \<Longrightarrow> height > 1" by (metis word_le_1 not_less less_irrefl)
      ultimately show ?thesis using add Inr Inl assms(1) by (auto split: if_splits)
    next
      case parent: (Inr parent)
      consider "height > 1" | "height = 0" | "height = 1" by (metis word_le_1 not_less)
      then show ?thesis
      proof cases
        case 1
        moreover have "fork_height b = height" using h(2) by (simp add: fork_height_def)
        ultimately show ?thesis using add Inr parent assms(1) by (auto split: if_splits)
      next
        case 2
        then have "parent = None" using parent by (simp add: locate_parent_def Let_def)
        then show ?thesis
          using add Inr parent 2 assms(1) no_parent_no_execution [of "env_of X (bc_db bc)" "bc_node bc" b]
          by (auto simp: execute_and_extend_def Let_def split: prod.splits sum.splits if_splits)
      next
        case 3
        then have "h_ParentHash h \<noteq> zero_hash" using locate_parent_one [OF _ assms(2)] parent by blast
        moreover have "\<not> bc_syncing bc" using assms(3) 3 h(2) by (simp add: fork_height_number)
        ultimately show ?thesis
          using add Inr parent 3 assms(1)
          by (auto simp: execute_and_extend_def Let_def tip split: prod.splits sum.splits if_splits)
      qed
    qed
  qed
qed

text \<open>A successful reversal moves the height and, at the genesis block, loses the tip.\<close>

lemma revertToHeight_cases:
  assumes "revertToHeight X locked bc height = (Inr u, bc')"
  obtains (same) "height = bc_height bc" "bc' = bc"
  | (reverted) n where "set_tip X (bc\<lparr>bc_node := n\<rparr>) height = (Inr (), bc')"
proof (cases "height = bc_height bc")
  case True
  have "bc' = bc" using assms unfolding revertToHeight_def True by simp
  then show ?thesis using same True by blast
next
  case False
  then obtain s0 where s0: "ce_reopen X (nd_state (bc_node bc)) = Some s0" and guard: "\<not> height > bc_height bc" "\<not> locked"
    using assms by (auto simp: revertToHeight_def split: if_splits option.splits)
  note start = assms [unfolded revertToHeight_def if_not_P [OF guard(1)] if_not_P [OF False] if_not_P [OF guard(2)] s0 option.case]
  then obtain s1 where s1: "initializeRevertState X (bc_db bc) s0 = (Inr (), s1)"
    by (cases "initializeRevertState X (bc_db bc) s0" rule: prod.exhaust) (simp split: sum.splits)
  obtain n where "replay_chain X (bc_db bc) ((bc_node bc)\<lparr>nd_state := s1\<rparr>) (if height > 0 then heights 1 height else []) = (Inr (), n)"
    using start [unfolded s1 prod.case sum.case]
    by (cases "replay_chain X (bc_db bc) ((bc_node bc)\<lparr>nd_state := s1\<rparr>) (if height > 0 then heights 1 height else [])" rule: prod.exhaust)
      (simp split: sum.splits)
  then show ?thesis using start [unfolded s1 prod.case sum.case] reverted [of n] by simp
qed

lemma revertToHeight_ok:
  assumes "revertToHeight X locked bc height = (Inr u, bc')"
  shows "bc_db bc' = bc_db bc" "bc_syncing bc' = bc_syncing bc" "bc_height bc' = height"
    "height = 0 \<Longrightarrow> bc_height bc \<noteq> 0 \<Longrightarrow> bc_latest bc' = None"
  by (rule revertToHeight_cases [OF assms]; auto simp: set_tip_def split: sum.splits if_splits)+

lemma reorgChainAdapter_sel [simp]:
  "co_ConnectBlock (reorgChainAdapter X) = adapter_ConnectBlock X" "co_DisconnectBlock (reorgChainAdapter X) = adapter_DisconnectBlock X"
  "co_ValidateBlockContext (reorgChainAdapter X) = adapter_ValidateBlockContext X" "co_AddBlock (reorgChainAdapter X) = adapter_ConnectBlock X"
  by (simp_all add: reorgChainAdapter_def Let_def)

text \<open>Detaching a branch down to height one loses the tip.\<close>

lemma disconnect_ok:
  assumes "adapter_DisconnectBlock X bc height = (True, bc')"
  shows "bc_db bc' = bc_db bc" "bc_syncing bc' = bc_syncing bc" "bc_height bc' = height - 1"
    "height = 1 \<Longrightarrow> bc_height bc \<noteq> 0 \<Longrightarrow> bc_latest bc' = None"
proof -
  obtain u where "revertToHeight X False bc (height - 1) = (Inr u, bc')"
    using assms by (auto simp: adapter_DisconnectBlock_def split: if_splits prod.splits)
  note ok = revertToHeight_ok [OF this]
  show "bc_db bc' = bc_db bc" "bc_syncing bc' = bc_syncing bc" "bc_height bc' = height - 1"
    "height = 1 \<Longrightarrow> bc_height bc \<noteq> 0 \<Longrightarrow> bc_latest bc' = None"
    using ok by simp_all
qed

lemma disconnect_to_genesis:
  assumes "disconnect_loop (reorgChainAdapter X) bc (rev bs @ [a]) removed = (True, removed', bc')"
    and "bc_height bc \<noteq> 0" "fork_height a = 1" "\<forall>b \<in> set bs. fork_height b > 1"
  shows "bc_latest bc' = None \<and> bc_db bc' = bc_db bc \<and> bc_syncing bc' = bc_syncing bc \<and> removed' = removed @ rev bs @ [a]"
  using assms
proof (induction bs arbitrary: bc removed rule: rev_induct)
  case Nil
  then show ?case using disconnect_ok [of X bc 1 bc'] by (simp split: prod.splits bool.splits)
next
  case (snoc b bs)
  from snoc.prems(1) obtain c where c: "adapter_DisconnectBlock X bc (fork_height b) = (True, c)"
    and rest: "disconnect_loop (reorgChainAdapter X) c (rev bs @ [a]) (removed @ [b]) = (True, removed', bc')"
    by (auto split: prod.splits bool.splits)
  have "fork_height b \<noteq> 1" using snoc.prems(4) by auto
  then have "fork_height b - 1 \<noteq> 0" by simp
  then show ?case
    using snoc.IH [OF rest] disconnect_ok [OF c] snoc.prems by simp
qed

text \<open>Without a tip the blocks of a branch that starts at height one cannot be connected.\<close>

lemma connect_without_tip:
  assumes "bc_latest bc = None" "store_ok X (bc_db bc)" "\<not> bc_syncing bc \<or> fork_height b > 1"
    and "adapter_ConnectBlock X bc b = (ok, bc')"
  shows "\<not> ok \<and> bc_latest bc' = None \<and> bc_db bc' = bc_db bc \<and> (bc_syncing bc' \<longrightarrow> fork_height b > 1)"
  using assms lost_tip [OF assms(1-3)] by (auto simp: adapter_ConnectBlock_def split: prod.splits)

lemma reconnect_without_tip:
  assumes "bc_latest bc = None" "store_ok X (bc_db bc)" "\<forall>b \<in> set bs. fork_height b > 1"
  shows "bc_latest (foldl (\<lambda>c b. snd (adapter_ConnectBlock X c b)) bc bs) = None
    \<and> bc_db (foldl (\<lambda>c b. snd (adapter_ConnectBlock X c b)) bc bs) = bc_db bc"
  using assms
proof (induction bs arbitrary: bc)
  case (Cons b bs)
  obtain ok c where c: "adapter_ConnectBlock X bc b = (ok, c)" by fastforce
  then show ?case
    using connect_without_tip [OF Cons.prems(1,2) _ c] Cons.prems Cons.IH [of c] by simp
qed simp

lemma rollback_without_tip:
  assumes "bc_latest bc = None" "store_ok X (bc_db bc)" "\<not> bc_syncing bc" "fork_height a = 1" "\<forall>b \<in> set bs. fork_height b > 1"
  shows "bc_latest (emergencyRollback (reorgChainAdapter X) bc (rev bs @ [a])) = None
    \<and> bc_db (emergencyRollback (reorgChainAdapter X) bc (rev bs @ [a])) = bc_db bc"
proof -
  obtain ok c where c: "adapter_ConnectBlock X bc a = (ok, c)" by fastforce
  then show ?thesis
    using connect_without_tip [OF assms(1,2) _ c] assms reconnect_without_tip [of c X bs]
    by (simp add: emergencyRollback_def)
qed

section \<open>The chain of a node that is not synchronising\<close>

text \<open>The view of the node's database.\<close>

abbreviation bc_view :: "('s, 'd) chain_env \<Rightarrow> 'd \<Rightarrow> db_view" where
  "bc_view X d \<equiv> view (ce_pebble X) (ce_rlp X) d"

text \<open>\<open>b\<close> is the canonical block of height \<open>n\<close>.\<close>

definition canonical_at :: "crypto \<Rightarrow> db_view \<Rightarrow> u64 \<Rightarrow> block \<Rightarrow> bool" where
  "canonical_at C v n b \<longleftrightarrow>
     vw_canonical v n = Inr (Block_Hash C b) \<and> vw_block v (Block_Hash C b) = Inr (Some b) \<and> blk_number b = Some n"

text \<open>Each block of the chain names the hash of the one below as its parent.\<close>

definition linked_to :: "crypto \<Rightarrow> db_view \<Rightarrow> u64 \<Rightarrow> bool" where
  "linked_to C v n \<longleftrightarrow> (\<forall>m < n. \<exists>p b h. canonical_at C v m p \<and> canonical_at C v (m + 1) b
     \<and> b_Header b = Some h \<and> h_ParentHash h = Block_Hash C p)"

definition chain_ok :: "('s, 'd) chain_env \<Rightarrow> ('s, 'd) blockchain \<Rightarrow> bool" where
  "chain_ok X bc \<longleftrightarrow> store_ok X (bc_db bc) \<and>
     (case bc_latest bc of
        None \<Rightarrow> True
      | Some t \<Rightarrow> canonical_at (ce_crypto X) (bc_view X (bc_db bc)) (bc_height bc) t
          \<and> linked_to (ce_crypto X) (bc_view X (bc_db bc)) (bc_height bc))"

text \<open>No other block is stored under the hash of \<open>b\<close>.\<close>

definition no_collision :: "('s, 'd) chain_env \<Rightarrow> 'd \<Rightarrow> block \<Rightarrow> bool" where
  "no_collision X d b \<longleftrightarrow> (case ReadBlockByHash (ce_pebble X) (ce_rlp X) d (Block_Hash (ce_crypto X) b) of
     Inr (Some b') \<Rightarrow> b' = b | _ \<Rightarrow> True)"

lemma store_ok_view: "store_ok X d \<longleftrightarrow> (\<forall>h b. vw_block (bc_view X d) h = Inr (Some b) \<longrightarrow> Block_Hash (ce_crypto X) b = h)"
  by (simp add: store_ok_def view_def)

text \<open>Storing a block keeps the chain; so does a pointer above it.\<close>

lemma canonical_at_store:
  assumes "canonical_at C v n c" "vw_canonical v' n = vw_canonical v n"
    and "vw_block v' = vw_block v \<or> vw_block v' = (vw_block v)(Block_Hash C b := Inr (Some b))"
    and "\<And>b'. vw_block v (Block_Hash C b) = Inr (Some b') \<Longrightarrow> b' = b"
  shows "canonical_at C v' n c"
  using assms by (auto simp: canonical_at_def)

lemma linked_to_store:
  assumes "linked_to C v n" "\<And>m. m \<le> n \<Longrightarrow> vw_canonical v' m = vw_canonical v m"
    and "vw_block v' = vw_block v \<or> vw_block v' = (vw_block v)(Block_Hash C b := Inr (Some b))"
    and "\<And>b'. vw_block v (Block_Hash C b) = Inr (Some b') \<Longrightarrow> b' = b"
  shows "linked_to C v' n"
  unfolding linked_to_def
proof (intro allI impI)
  fix m assume m: "m < n"
  then obtain p c h where *: "canonical_at C v m p" "canonical_at C v (m + 1) c" "b_Header c = Some h" "h_ParentHash h = Block_Hash C p"
    using assms(1) by (auto simp: linked_to_def)
  have "m + 1 \<le> n" using m by (rule inc_le)
  then have "canonical_at C v' m p" "canonical_at C v' (m + 1) c"
    using canonical_at_store [OF *(1) _ assms(3,4)] canonical_at_store [OF *(2) _ assms(3,4)] assms(2) m by auto
  then show "\<exists>p c h. canonical_at C v' m p \<and> canonical_at C v' (m + 1) c \<and> b_Header c = Some h \<and> h_ParentHash h = Block_Hash C p"
    using * by blast
qed

lemma linked_to_Suc:
  assumes "linked_to C v n" "canonical_at C v n p" "canonical_at C v (n + 1) b" "b_Header b = Some h"
    and "h_ParentHash h = Block_Hash C p"
  shows "linked_to C v (n + 1)"
  unfolding linked_to_def
proof (intro allI impI)
  fix m assume m: "m < n + 1"
  show "\<exists>p b h. canonical_at C v m p \<and> canonical_at C v (m + 1) b \<and> b_Header b = Some h \<and> h_ParentHash h = Block_Hash C p"
  proof (cases "m < n")
    case True
    then show ?thesis using assms(1) by (auto simp: linked_to_def)
  next
    case False
    then have "m = n" using m by (metis linorder_neqE not_le inc_le leD)
    then show ?thesis using assms by blast
  qed
qed

text \<open>What is written for a new tip, with or without the head.\<close>

lemma write_tip_view:
  assumes "chain_store (ce_pebble X) (ce_rlp X)" "plain_block b" "write_tip X d b n setHead = (r, d')"
  shows "vw_canonical (bc_view X d') = (vw_canonical (bc_view X d))(n := Inr (Block_Hash (ce_crypto X) b))
      \<and> vw_block (bc_view X d') = (vw_block (bc_view X d))(Block_Hash (ce_crypto X) b := Inr (Some b))
    \<or> r \<noteq> Inr () \<and> vw_canonical (bc_view X d') = vw_canonical (bc_view X d)
      \<and> (vw_block (bc_view X d') = vw_block (bc_view X d)
        \<or> vw_block (bc_view X d') = (vw_block (bc_view X d))(Block_Hash (ce_crypto X) b := Inr (Some b)))"
proof -
  let ?P = "ce_pebble X" and ?R = "ce_rlp X" and ?C = "ce_crypto X"
  have P: "pebble_store ?P" using assms(1) by (simp add: chain_store_def)
  note store = pebble_store.view_db_WriteBlock [OF P _ chain_store.plain_reads_back [OF assms(1,2)]]
  note move = pebble_store.view_WriteCanonicalHash [OF P] and head = pebble_store.view_WriteHeadBlockHash [OF P]
  show ?thesis
  proof (cases "db_WriteBlock ?P ?R ?C d b")
    case Inl
    then show ?thesis using assms(3) by (auto simp: write_tip_def Let_def)
  next
    case d1: (Inr d1)
    show ?thesis
    proof (cases "WriteCanonicalHash ?P d1 n (Block_Hash ?C b)")
      case Inl
      then show ?thesis using assms(3) d1 store [OF d1] by (auto simp: write_tip_def Let_def)
    next
      case d2: (Inr d2)
      have "vw_canonical (view ?P ?R d') = vw_canonical (view ?P ?R d2) \<and> vw_block (view ?P ?R d') = vw_block (view ?P ?R d2)"
        using assms(3) d1 d2 head [of d2 "Block_Hash ?C b"]
        by (cases "WriteHeadBlockHash ?P d2 (Block_Hash ?C b)") (auto simp: write_tip_def Let_def)
      then show ?thesis using store [OF d1] move [OF d2, of ?R] by auto
    qed
  qed
qed

lemma write_tip_ok: "write_tip X d b n setHead = (Inr u, d') \<Longrightarrow> chain_store (ce_pebble X) (ce_rlp X) \<Longrightarrow> plain_block b
  \<Longrightarrow> vw_canonical (bc_view X d') = (vw_canonical (bc_view X d))(n := Inr (Block_Hash (ce_crypto X) b))
    \<and> vw_block (bc_view X d') = (vw_block (bc_view X d))(Block_Hash (ce_crypto X) b := Inr (Some b))"
  using write_tip_view by fastforce

lemma chain_ok_store:
  assumes "chain_store (ce_pebble X) (ce_rlp X)" "write_tip X (bc_db bc) b n setHead = (r, d)" "r \<noteq> Inr () \<or> n > bc_height bc"
    and "chain_ok X bc" "no_collision X (bc_db bc) b"
    and "bc_latest bc' = bc_latest bc" "bc_height bc' = bc_height bc" "bc_db bc' = d"
    and "vw_canonical (bc_view X d) = vw_canonical (bc_view X (bc_db bc)) \<or> n > bc_height bc" and plain: "plain_block b"
  shows "chain_ok X bc'"
proof -
  have blocks: "vw_block (bc_view X d) = vw_block (bc_view X (bc_db bc))
      \<or> vw_block (bc_view X d) = (vw_block (bc_view X (bc_db bc)))(Block_Hash (ce_crypto X) b := Inr (Some b))"
    and same: "m \<le> bc_height bc \<Longrightarrow> vw_canonical (bc_view X d) m = vw_canonical (bc_view X (bc_db bc)) m" for m
    using write_tip_view [OF assms(1) plain assms(2)] assms(9) by auto
  have unique: "vw_block (bc_view X (bc_db bc)) (Block_Hash (ce_crypto X) b) = Inr (Some b') \<Longrightarrow> b' = b" for b'
    using assms(5) by (simp add: no_collision_def view_def)
  have "store_ok X d"
    using assms(4) blocks by (auto simp: chain_ok_def store_ok_view split: if_splits)
  then show ?thesis
    using assms(4,6,7,8) canonical_at_store [OF _ same blocks unique] linked_to_store [OF _ same blocks unique]
    by (auto simp: chain_ok_def split: option.splits)
qed

text \<open>A chain whose tip is at the recorded height never replaces it.\<close>

lemma reorganizeAtHeight_blocked:
  assumes "height = bc_height bc" "reorganizeAtHeight X bc height b h = (r, bc')"
  shows "bc' = bc \<and> r \<in> Inl ` {C_Panic, C_Nothing_To_Replace, C_Deadlock, C_Revert_Target}"
proof -
  have "height - 1 \<noteq> height" by simp
  then have "revertToHeight X True bc (height - 1) \<in> {(Inl C_Revert_Target, bc), (Inl C_Deadlock, bc)}"
    using assms(1) by (auto simp: revertToHeight_def)
  then show ?thesis
    using assms(2) by (auto simp: reorganizeAtHeight_def Let_def split: sum.splits option.splits)
qed

lemma less_inc: "n + 1 \<noteq> 0 \<Longrightarrow> n < n + 1" for n :: u64
  using unatSuc [of n] by (simp add: word_less_nat_alt add.commute)

lemma handleDirectExtension_cases:
  assumes "handleDirectExtension X bc b h height duringSync = (r, bc')"
  obtains (failed) e d where "write_tip X (bc_db bc) b height True = (Inl e, d)" "r = Inl (C_Database e)" "bc' = bc\<lparr>bc_db := d\<rparr>"
  | (moved) d where "write_tip X (bc_db bc) b height True = (Inr (), d)" "bc_db bc' = d" "bc_latest bc' = Some b" "bc_height bc' = height"
      "r = map_sum id (\<lambda>_. ()) (fst (commit_state (ce_node X) (nd_state (bc_node bc)) height (h_Root h)))"
      "nd_state (bc_node bc') = snd (commit_state (ce_node X) (nd_state (bc_node bc)) height (h_Root h))"
  using assms
  by (auto simp: handleDirectExtension_def Let_def maybeCompleteSync_def split: prod.splits sum.splits if_splits)

lemma extension_chain:
  assumes store: "chain_store (ce_pebble X) (ce_rlp X)" and ok: "chain_ok X bc" and fresh: "no_collision X (bc_db bc) b"
    and plain: "plain_block b" and tip: "bc_latest bc = Some t" and b: "blk_number b = Some (bc_height bc + 1)" "b_Header b = Some h" "bc_height bc + 1 \<noteq> 0"
      "h_ParentHash h = Block_Hash (ce_crypto X) t"
    and ext: "handleDirectExtension X bc b h (bc_height bc + 1) duringSync = (r, bc')"
  shows "chain_ok X bc' \<and> (bc_latest bc' = bc_latest bc \<and> bc_height bc' = bc_height bc
    \<or> bc_latest bc' = Some b \<and> bc_height bc' = bc_height bc + 1)"
  using ext
proof (cases rule: handleDirectExtension_cases)
  case (failed e d)
  then have "chain_ok X bc'"
    using chain_ok_store [OF store failed(1) _ ok fresh, of bc'] less_inc [OF b(3)] plain by simp
  then show ?thesis using failed by simp
next
  case (moved d)
  let ?C = "ce_crypto X" and ?v = "bc_view X (bc_db bc)" and ?v' = "bc_view X d" and ?n = "bc_height bc"
  have less: "?n < ?n + 1" by (rule less_inc [OF b(3)])
  note upd = write_tip_ok [OF moved(1) store plain]
  have unique: "vw_block ?v (Block_Hash ?C b) = Inr (Some b') \<Longrightarrow> b' = b" for b'
    using fresh by (simp add: no_collision_def view_def)
  have below: "m \<le> ?n \<Longrightarrow> vw_canonical ?v' m = vw_canonical ?v m" for m using upd less by auto
  have blocks: "vw_block ?v' = vw_block ?v \<or> vw_block ?v' = (vw_block ?v)(Block_Hash ?C b := Inr (Some b))" using upd by blast
  have "canonical_at ?C ?v ?n t" "linked_to ?C ?v ?n" using ok tip by (simp_all add: chain_ok_def)
  then have "canonical_at ?C ?v' ?n t" "linked_to ?C ?v' ?n"
    using canonical_at_store [OF _ below blocks unique] linked_to_store [OF _ below blocks unique] by auto
  moreover have new: "canonical_at ?C ?v' (?n + 1) b" using upd b(1) by (simp add: canonical_at_def)
  ultimately have "linked_to ?C ?v' (?n + 1)" using linked_to_Suc b(2,4) by blast
  moreover have "store_ok X d" using ok upd by (auto simp: chain_ok_def store_ok_view)
  ultimately show ?thesis using moved new by (simp add: chain_ok_def)
qed

lemma tip_of_ok:
  assumes "chain_ok X bc" "bc_latest bc = Some t"
  shows "tip_height bc = bc_height bc" "tip_hash C bc = Block_Hash C t"
  using assms by (simp_all add: chain_ok_def canonical_at_def tip_height_def tip_hash_def fork_height_def)

lemma execute_and_extend_cases:
  assumes "execute_and_extend X bc b h height parent = (r, bc')" "\<not> bc_syncing bc"
  obtains (same) "bc_latest bc' = bc_latest bc" "bc_height bc' = bc_height bc" "bc_db bc' = bc_db bc"
      "r = Inr () \<longrightarrow> height = tip_height bc \<and> tip_hash (ce_crypto X) bc = Block_Hash (ce_crypto X) b"
  | (extended) n where "validateAndExecuteBlock (env_of X (bc_db bc)) (bc_node bc) (Some b) parent = (Inr (), n)"
      "height = tip_height bc + 1" "h_ParentHash h = tip_hash (ce_crypto X) bc"
      "handleDirectExtension X (bc\<lparr>bc_node := n\<rparr>) b h height False = (r, bc')"
  using assms
  by (auto simp: execute_and_extend_def Let_def split: prod.splits sum.splits if_splits)

lemma addBlockInternal_cases:
  assumes "addBlockInternal X bc (Some b) = (r, bc')" "chain_ok X bc" "bc_latest bc = Some t"
  obtains (kept) "r \<noteq> Inr ()" "bc_latest bc' = bc_latest bc" "bc_height bc' = bc_height bc" "bc_db bc' = bc_db bc"
  | (executed) h height parent where "b_Header b = Some h" "blk_number b = Some height" "bc_height bc \<le> height"
      "height \<noteq> bc_height bc \<or> Block_Hash (ce_crypto X) t = Block_Hash (ce_crypto X) b"
      "locate_parent X (bc_db bc) (bc_height bc) height (h_ParentHash h) = Inr parent"
      "execute_and_extend X bc b h height parent = (r, bc')"
proof (cases "b_Header b = None \<or> blk_number b = None")
  case True
  then show ?thesis using assms(1) kept by (auto simp: addBlockInternal_def Let_def split: option.splits)
next
  case False
  then obtain h height where h: "b_Header b = Some h" "blk_number b = Some height" by auto
  note tip = tip_of_ok [OF assms(2,3)]
  show ?thesis
  proof (cases "entry_check X bc b height")
    case (Inl e)
    then have "r = Inl e" "bc' = bc" using assms(1) h by (simp_all add: addBlockInternal_def Let_def)
    then show ?thesis by (intro kept) simp_all
  next
    case (Inr u)
    then have le: "bc_height bc \<le> height" by (auto simp: entry_check_def Let_def tip split: if_splits)
    show ?thesis
    proof (cases "locate_parent X (bc_db bc) (bc_height bc) height (h_ParentHash h)")
      case (Inl e)
      then have "r = Inl e" "bc' = bc \<or> bc' = triggerSyncFromBlock bc height"
        using assms(1) h Inr by (auto simp: addBlockInternal_def Let_def tip split: if_splits)
      then show ?thesis by (intro kept) auto
    next
      case parent: (Inr parent)
      consider "height = bc_height bc \<and> Block_Hash (ce_crypto X) t \<noteq> Block_Hash (ce_crypto X) b"
        | "height > bc_height bc + 1" "\<not> (height = bc_height bc \<and> Block_Hash (ce_crypto X) t \<noteq> Block_Hash (ce_crypto X) b)"
        | "\<not> height > bc_height bc + 1" "\<not> (height = bc_height bc \<and> Block_Hash (ce_crypto X) t \<noteq> Block_Hash (ce_crypto X) b)" by blast
      then show ?thesis
      proof cases
        case 1
        then have "(if \<not> isBetterBlockCandidate (ce_crypto X) (Some b) (bc_latest bc) then (Inl C_Not_Better, bc)
            else reorganizeAtHeight X bc height b h) = (r, bc')"
          using assms(1,3) h Inr parent by (simp add: addBlockInternal_def Let_def tip split del: if_split cong: if_cong)
        then show ?thesis using reorganizeAtHeight_blocked [of height bc X b h r bc'] 1 kept by (auto split: if_splits)
      next
        case 2
        then have "r = Inl C_Ahead" "bc' = bc \<or> bc' = triggerSyncFromBlock bc height"
          using assms(1,3) h Inr parent by (auto simp: addBlockInternal_def Let_def tip split: if_splits)
        then show ?thesis by (intro kept) auto
      next
        case 3
        then show ?thesis using assms(1,3) h Inr parent executed [OF h le _ parent]
          by (auto simp: addBlockInternal_def Let_def tip split: if_splits)
      qed
    qed
  qed
qed

lemma chain_ok_same:
  "chain_ok X bc \<Longrightarrow> bc_latest bc' = bc_latest bc \<Longrightarrow> bc_height bc' = bc_height bc \<Longrightarrow> bc_db bc' = bc_db bc
    \<Longrightarrow> chain_ok X bc'"
  by (simp add: chain_ok_def split: option.splits)

lemma addBlockInternal_chain:
  assumes "chain_store (ce_pebble X) (ce_rlp X)" "chain_ok X bc" "\<not> bc_syncing bc" "no_collision X (bc_db bc) b" "plain_block b"
    and "addBlockInternal X bc (Some b) = (r, bc')"
  shows "chain_ok X bc' \<and> (bc_latest bc' = bc_latest bc \<and> bc_height bc' = bc_height bc
    \<or> (\<exists>t h. bc_latest bc = Some t \<and> b_Header b = Some h \<and> h_ParentHash h = Block_Hash (ce_crypto X) t
        \<and> bc_latest bc' = Some b \<and> bc_height bc' = bc_height bc + 1 \<and> bc_height bc < bc_height bc'))"
proof (cases "bc_latest bc")
  case None
  then have "bc_latest bc' = None \<and> bc_height bc' = bc_height bc \<and> bc_db bc' = bc_db bc"
    using lost_tip [OF None _ _ assms(6)] assms(2,3) by (simp add: chain_ok_def)
  then show ?thesis using chain_ok_same [OF assms(2)] None by simp
next
  case (Some t)
  note tip = tip_of_ok [OF assms(2) Some]
  show ?thesis
  proof (cases rule: addBlockInternal_cases [OF assms(6,2) Some])
    case 1
    then show ?thesis using chain_ok_same [OF assms(2)] by simp
  next
    case (2 h height parent)
    show ?thesis
    proof (cases rule: execute_and_extend_cases [OF 2(6) assms(3)])
      case 1
      then show ?thesis using chain_ok_same [OF assms(2)] by simp
    next
      case ext: (2 n)
      have grow: "bc_height bc + 1 \<noteq> 0"
      proof
        assume zero: "bc_height bc + 1 = 0"
        then have "bc_height bc \<le> 0" using 2(3) ext(2) tip by simp
        then show False using zero by simp
      qed
      have "chain_ok X (bc\<lparr>bc_node := n\<rparr>)" using chain_ok_same [OF assms(2)] by simp
      then have "chain_ok X bc' \<and> (bc_latest bc' = bc_latest bc \<and> bc_height bc' = bc_height bc
          \<or> bc_latest bc' = Some b \<and> bc_height bc' = bc_height bc + 1)"
        using extension_chain [OF assms(1), of "bc\<lparr>bc_node := n\<rparr>" b t h False r bc'] assms(4,5) Some 2(1,2) ext tip grow by simp
      then show ?thesis using Some 2(1) ext(3) tip less_inc [OF grow] by auto
    qed
  qed
qed

text \<open>The block on top of the tip finds the tip as its parent.\<close>

lemma locate_parent_tip:
  assumes "chain_ok X bc" "bc_latest bc = Some t" "height = bc_height bc + 1" "height \<noteq> 0"
    and "locate_parent X (bc_db bc) (bc_height bc) height (Block_Hash (ce_crypto X) t) = Inr parent"
  shows "parent = Some t \<or> parent = None"
proof -
  have "canonical_at (ce_crypto X) (bc_view X (bc_db bc)) (bc_height bc) t" using assms(1,2) by (simp add: chain_ok_def)
  then have get: "GetBlock (ce_pebble X) (ce_rlp X) (bc_db bc) (bc_height bc)
      = Inr (if Block_Hash (ce_crypto X) t = zero_hash then None else Some t)"
    by (simp add: GetBlock_def canonical_at_def view_def)
  have "height - 1 = bc_height bc" using assms(3) by simp
  then show ?thesis
    using assms(3-5) get by (auto simp: locate_parent_def Let_def split: if_splits option.splits)
qed

lemma commit_state_Inr:
  "commit_state E s height rt = (Inr u, s') \<Longrightarrow> State_Commit (ne_kv E) (ne_sha256 E) s height = (Inr rt, s')"
  by (auto simp: commit_state_def split: prod.splits sum.splits if_splits)

lemma handleDirectExtension_Inr:
  assumes "handleDirectExtension X bc b h height False = (Inr u, bc')"
  obtains d s where "write_tip X (bc_db bc) b height True = (Inr (), d)"
    "State_Commit (ne_kv (ce_node X)) (ne_sha256 (ce_node X)) (nd_state (bc_node bc)) height = (Inr (h_Root h), s)"
    "bc' = bc\<lparr>bc_db := d, bc_latest := Some b, bc_height := height, bc_node := (bc_node bc)\<lparr>nd_state := s\<rparr>,
       bc_pool := clean_pool X b (bc_pool bc)\<rparr>"
  using assms commit_state_Inr
  by (fastforce simp: handleDirectExtension_def Let_def split: prod.splits sum.splits)

section \<open>Replay and execution\<close>

text \<open>The replay of the transactions of an executed block gives the same state.\<close>

lemma replay_execute_loop:
  "execute_loop K C sha256 V h i txs v d f g p = (Inr (fees, gas), d') \<Longrightarrow> replay_txs K C sha256 v d txs = (True, d')"
proof (induction txs arbitrary: i v d f g p)
  case (Cons t txs)
  show ?case by (rule execute_loop_Cons [OF Cons.prems]) (use Cons.IH in \<open>auto simp: Let_def\<close>)
qed simp

lemma executeBlockOnState_Inr:
  assumes "executeBlockOnState E n b = (Inr rt, n')"
  obtains h height d1 mainKing king r paid where "b_Header b = Some h" "blk_number b = Some height"
    "replay_txs (ne_kv E) (ne_crypto E) (ne_sha256 E) (NewVM (h_GasLimit h)) (nd_state n) (b_Txs b) = (True, d1)"
    "DistributeRewards (ne_kv E) d1 mainKing (h_Coinbase h) (Some 0) height king (nd_pow n \<noteq> None) = Inr (r, nd_state n', paid)"
    "rt = State_Root (ne_kv E) (ne_sha256 E) (nd_state n')"
  using assms by (auto simp: executeBlockOnState_def split: option.splits prod.splits bool.splits sum.splits)

lemma DistributeRewards_total:
  assumes "kv_reliable K" "DistributeRewards K d mainKing miner fees n king pos = Inr (r, d', rec)"
  shows "ledger_total (GetBalance K d') = ledger_total (GetBalance K d) + rd_TotalReward r"
proof -
  note D = kv_reliable.DistributeRewards_Inr [OF assms]
  have "GetBalance K d' = (\<lambda>a. GetBalance K d a + share r a)" using D(6) by blast
  then show ?thesis by (simp only: ledger_total_share D(2))
qed

lemma addBlockInternal_accepts:
  assumes "chain_store (ce_pebble X) (ce_rlp X)" "chain_ok X bc" "\<not> bc_syncing bc" "bc_latest bc = Some t" "plain_block b"
    and "addBlockInternal X bc (Some b) = (Inr (), bc')" "Block_Hash (ce_crypto X) b \<noteq> Block_Hash (ce_crypto X) t"
  shows "\<exists>h n s d. b_Header b = Some h \<and> blk_number b = Some (bc_height bc + 1) \<and> h_ParentHash h = Block_Hash (ce_crypto X) t
    \<and> write_tip X (bc_db bc) b (bc_height bc + 1) True = (Inr (), d)
    \<and> validateAndExecuteBlock (env_of X (bc_db bc)) (bc_node bc) (Some b) (Some t) = (Inr (), n)
    \<and> State_Commit (ne_kv (ce_node X)) (ne_sha256 (ce_node X)) (nd_state n) (bc_height bc + 1) = (Inr (h_Root h), s)
    \<and> bc' = bc\<lparr>bc_db := d, bc_latest := Some b, bc_height := bc_height bc + 1, bc_node := n\<lparr>nd_state := s\<rparr>,
         bc_pool := clean_pool X b (bc_pool bc)\<rparr>
    \<and> vw_block (bc_view X d) = (vw_block (bc_view X (bc_db bc)))(Block_Hash (ce_crypto X) b := Inr (Some b))
    \<and> vw_canonical (bc_view X d) = (vw_canonical (bc_view X (bc_db bc)))(bc_height bc + 1 := Inr (Block_Hash (ce_crypto X) b))"
proof -
  note tip = tip_of_ok [OF assms(2,4)]
  show ?thesis
  proof (cases rule: addBlockInternal_cases [OF assms(6,2,4)])
    case 1
    then show ?thesis by simp
  next
    case (2 h height parent)
    show ?thesis
    proof (cases rule: execute_and_extend_cases [OF 2(6) assms(3)])
      case 1
      then show ?thesis using assms(7) tip by simp
    next
      case ext: (2 n)
      then have "height \<noteq> 0" using 2(3) tip by auto
      then have "parent = Some t"
        using locate_parent_tip [OF assms(2,4)] 2(5) ext tip no_parent_no_execution by metis
      obtain d s where ds: "write_tip X (bc_db bc) b height True = (Inr (), d)"
          "State_Commit (ne_kv (ce_node X)) (ne_sha256 (ce_node X)) (nd_state n) height = (Inr (h_Root h), s)"
          "bc' = bc\<lparr>bc_node := n, bc_db := d, bc_latest := Some b, bc_height := height, bc_node := n\<lparr>nd_state := s\<rparr>,
             bc_pool := clean_pool X b (bc_pool bc)\<rparr>"
        by (rule handleDirectExtension_Inr [OF ext(4)]) simp
      show ?thesis
        using \<open>parent = Some t\<close> ext(1-3) ds write_tip_ok [OF ds(1) assms(1,5)] 2(1,2) tip
        by (intro exI [of _ h] exI [of _ n] exI [of _ s] exI [of _ d]) simp
    qed
  qed
qed

section \<open>A concrete chain\<close>

text \<open>Digests of short texts are zero; a header has the length of its text as its hash.\<close>

definition wc_crypto :: crypto where
  "wc_crypto = king_crypto\<lparr>sha3 := \<lambda>b. if length b > 600 then of_nat (length b) else 0\<rparr>"

definition wc_genesis :: block where
  "wc_genesis = \<lparr>b_Header = Some (sample_header\<lparr>h_Difficulty := None\<rparr>), b_Txs = [], b_Uncles = []\<rparr>"

definition wc_header :: header where
  "wc_header = sample_header\<lparr>h_Number := Some 1, h_Time := 1763731971, h_Signature := [1],
     h_RewardAmount := Some 0, h_CurrentReward := Some 0, h_Difficulty := Some (CalculateExpectedDifficulty NewPoW 1 0 1763731971), h_ParentHash := 696\<rparr>"

definition wc_block :: block where
  "wc_block = \<lparr>b_Header = Some wc_header, b_Txs = [], b_Uncles = []\<rparr>"

lemma wc_hash [simp]: "Block_Hash wc_crypto wc_genesis = 696" "Block_Hash wc_crypto wc_block = 697"
  by (simp_all add: Block_Hash_def wc_genesis_def wc_block_def wc_header_def wc_crypto_def Header_Hash_def header_preimage_def
      sample_header_def bloom_bytes_def length_prefixed_def stakers_bytes_def Hash_Bytes_def Address_Bytes_def
      word_bytes_def BloomByteLength_def)

lemma wc_sel:
  "b_Header wc_block = Some wc_header" "b_Txs wc_block = []" "b_Uncles wc_block = []"
  "b_Header wc_genesis = Some (sample_header\<lparr>h_Difficulty := None\<rparr>)" "h_Number sample_header = Some 0" "h_Time sample_header = 1763731821"
  "h_Number wc_header = Some 1" "h_Time wc_header = 1763731971" "h_ParentHash wc_header = 696" "h_Extra wc_header = []"
  "h_Root wc_header = 0" "h_GasUsed wc_header = 0" "h_Coinbase wc_header = 7" "h_TxHash wc_header = 0" "h_Root sample_header = 0"
  by (simp_all add: wc_block_def wc_header_def wc_genesis_def sample_header_def)

lemma wc_pow: "validateProofOfWork wc_crypto (Some NewPoW) (Some wc_header) = Inr ()"
proof -
  let ?d = "CalculateExpectedDifficulty NewPoW 1 0 1763731971"
  obtain ph where ph: "powHeaderFromBlockHeader (Some wc_header) = Inr ph" "ph_MixDigest ph = 0" "ph_Difficulty ph = Some ?d"
      "ph_Extra ph = []"
    by (simp add: powHeaderFromBlockHeader_def header_height_def wc_header_def sample_header_def)
  have d: "1 \<le> ?d" "?d \<le> MaxDifficulty" by (fact bv_difficulty)+
  have "nat ?d < nat (2 ^ 256)" using d by (subst nat_less_eq_zless) (simp_all add: MaxDifficulty_def)
  also have "nat (2 ^ 256) = 256 ^ 32" by simp
  finally have "length (big_bytes ?d) \<le> 32"
    using length_nat_bytes_le [of "nat ?d" 32] d by (simp add: big_bytes_def)
  then obtain s where s: "SerializeForMining ph = Some s" "length s \<le> 600"
    using ph(3,4) d by (simp add: SerializeForMining_def mining_prefix_def mining_difficulty_def Let_def Hash_Bytes_def
        Address_Bytes_def word_bytes_def)
  then have "sha3 wc_crypto s = 0" by (simp add: wc_crypto_def)
  then have "Verify_pow wc_crypto (Some ph) = Some True"
    using s(1) ph(2,3) Target_pos [of "Some ?d"] by (simp add: Verify_pow_def below_target_def Let_def)
  with ph(1) show ?thesis by (simp add: validateProofOfWork_def)
qed

lemma wc_checks: "prechecks (bv_env\<lparr>ne_crypto := wc_crypto, ne_byHash := f, ne_view := v\<rparr>) bv_node wc_block wc_header (Some wc_genesis) = Inr ()"
proof -
  have "validateBasicBlockIntegrity wc_crypto 1763731971 (Some wc_block) (Some wc_genesis) = Inr ()"
    using wc_sel by (simp add: validateBasicBlockIntegrity_def header_height_def big_uint64_def ValidateExtraDataSize_def
      validateExtraDataContent_def MaxClockDrift_def BlockTimeTarget_def)
  moreover have "validateBlockHash wc_crypto wc_block = Inr ()"
    by (simp add: validateBlockHash_def Block_Hash_def wc_sel)
  moreover have "validatePoSEligibility 1763731971 (Some NewPoW) wc_header = Inr ()"
    "validateDifficulty f (Some NewPoW) wc_header (Some wc_genesis) = Inr ()"
    "validateTransactionRoot wc_crypto (\<lambda>_. 0) wc_block wc_header = Inr ()"
    "validateBlockSignature wc_header = Inr ()"
    by (simp_all add: validatePoSEligibility_def VerifyMinerEligibility_def
      validateDifficulty_def calculateExpectedDifficultyFromChainState_def header_height_def wc_genesis_def
      validateTransactionRoot_def CalcTxRoot_def CalculateTxHash_def wc_crypto_def
      validateBlockSignature_def VerifyBlockSignature_def wc_header_def wc_block_def sample_header_def big_uint64_def zero_hash_def)
  ultimately show ?thesis by (simp add: prechecks_def bv_env_def bv_node_def wc_pow)
qed

abbreviation wc_node_env :: "(bytes, bytes) alist node_env" where
  "wc_node_env \<equiv> bv_env\<lparr>ne_crypto := wc_crypto\<rparr>"

lemma wc_accepted:
  "\<exists>n'. validateAndExecuteBlock (wc_node_env\<lparr>ne_byHash := f, ne_view := v\<rparr>) bv_node (Some wc_block) (Some wc_genesis) = (Inr (), n')"
proof -
  let ?E = "wc_node_env\<lparr>ne_byHash := f, ne_view := v\<rparr>"
  have sel: "ne_crypto ?E = wc_crypto" "ne_sha256 ?E = (\<lambda>_. 0)" "ne_kv ?E = map_kv" "ne_distributor ?E = Some 3"
      "ne_opened ?E = Some DAList.empty" "nd_pow bv_node = Some NewPoW" "nd_state bv_node = bv_state" "nd_kings bv_node = Some king_demo"
    by (simp_all add: bv_env_def bv_node_def)
  have king: "king_for wc_crypto (Some king_demo) [] = Some (Some 8)" "rotatingKingFromBlockExtra wc_crypto [] = None"
    by (simp_all add: king_for_def rotatingKingFromBlockExtra_def TrimSpace_def strip_front.simps utf8_spaces_def str_bytes_def
        king_demo_def GetCurrentKing_def king_at_def)
  have root: "State_Root map_kv (\<lambda>_. 0) d = 0" for d by (simp add: State_Root_def map_kv_def)
  obtain s0 where s0: "State_Clone map_kv bv_state (Some DAList.empty) = Inr s0"
    by (simp add: State_Clone_def map_kv_def put_result_def)
  obtain r1 s1 rec1 where r1: "DistributeRewards map_kv s0 3 7 (Some 0) 1 (Some 8) True = Inr (r1, s1, rec1)"
    by (rule DistributeRewards_returns)
  have "rootPrecheck ?E bv_node wc_block wc_header = Inr ()"
    using s0 r1 king by (simp add: rootPrecheck_def sel wc_sel header_height_def big_uint64_def computeBlockFinalStateRoot_def
        executeTransactionsOnState_def ValidateExtraDataSize_def validateExtraDataContent_def dry_fees_def root)
  then have checks: "first_error [prechecks ?E bv_node wc_block wc_header (Some wc_genesis), rootPrecheck ?E bv_node wc_block wc_header] = Inr ()"
    using wc_checks [where f = f and v = v] by simp
  obtain r2 s2 rec2 where "DistributeRewards map_kv bv_state 3 7 (Some 0) 1 (Some 8) True = Inr (r2, s2, rec2)"
    by (rule DistributeRewards_returns)
  then have "distributeBlockRewards map_kv wc_crypto (Some 3) (Some 8) True bv_state wc_header (Some 0) = Inr (r2, s2, rec2)"
    using king by (simp add: distributeBlockRewards_def resolveRotatingKingManagerForBlock_def wc_sel big_uint64_def)
  then show ?thesis
    using checks king by (simp add: validateAndExecuteBlock_def runTransactions_def sel wc_sel root Let_def del: first_error.simps)
qed

text \<open>The node has the genesis block only; the codec knows both blocks.\<close>

definition wc_env :: "((bytes, bytes) alist, bytes \<Rightarrow> bytes option) chain_env" where
  "wc_env = \<lparr>ce_pebble = map_pebble, ce_rlp = table_codec [wc_genesis, wc_block], ce_node = wc_node_env, ce_ancient = None,
     ce_checkpoint = \<lambda>_. True, ce_reopen = Some, ce_order1 = [], ce_order2 = []\<rparr>"

definition wc_view :: db_view where
  "wc_view = \<lparr>vw_block = (\<lambda>_. Inr None)(696 := Inr (Some wc_genesis)), vw_canonical = (\<lambda>_. Inr 0)(0 := Inr 696), vw_head = Inr 696\<rparr>"

lemma wc_db:
  obtains d where "write_canonical_block map_pebble (table_codec [wc_genesis, wc_block]) wc_crypto Map.empty wc_genesis 0 = Inr d"
    "view map_pebble (table_codec [wc_genesis, wc_block]) d = wc_view"
proof -
  let ?R = "table_codec [wc_genesis, wc_block]"
  obtain d where d: "write_canonical_block map_pebble ?R wc_crypto Map.empty wc_genesis 0 = Inr d"
    by (simp add: write_canonical_block_def block_entries_def table_codec_def commit_def map_pebble_def wc_sel)
  have "view map_pebble ?R Map.empty = \<lparr>vw_block = \<lambda>_. Inr None, vw_canonical = \<lambda>_. Inr 0, vw_head = Inr 0\<rparr>"
    by (simp add: view_def ReadBlockByHash_def GetCanonicalHash_def GetHeadBlockHash_def read_hash_def map_pebble_def fun_eq_iff zero_hash_def)
  then have "view map_pebble ?R d = wc_view"
    by (simp add: tdb.view_write_canonical_block [OF d] wc_view_def)
  with d that show thesis by blast
qed

definition wc_chain :: "(bytes \<Rightarrow> bytes option) \<Rightarrow> ((bytes, bytes) alist, bytes \<Rightarrow> bytes option) blockchain" where
  "wc_chain d = \<lparr>bc_node = bv_node, bc_db = d, bc_latest = Some wc_genesis, bc_height = 0, bc_syncing = False,
     bc_syncTarget = 0, bc_pool = None\<rparr>"

lemma wc_env_sel [simp]:
  "ce_pebble wc_env = map_pebble" "ce_rlp wc_env = table_codec [wc_genesis, wc_block]" "ce_node wc_env = wc_node_env"
  "ce_ancient wc_env = None" "ce_checkpoint wc_env = (\<lambda>_. True)" "ce_reopen wc_env = Some" "ne_crypto bv_env = king_crypto"
  by (simp_all add: wc_env_def bv_env_def)

lemma wc_chain_sel [simp]:
  "bc_node (wc_chain d) = bv_node" "bc_db (wc_chain d) = d" "bc_latest (wc_chain d) = Some wc_genesis" "bc_height (wc_chain d) = 0"
  "\<not> bc_syncing (wc_chain d)" "bc_pool (wc_chain d) = None"
  by (simp_all add: wc_chain_def)

lemma wc_plain: "plain_block wc_block"
  by (simp add: plain_block_def plain_header_def wc_block_def wc_header_def sample_header_def)

lemma wc_store: "chain_store (ce_pebble wc_env) (ce_rlp wc_env)"
  using tdb.chain_store_axioms by simp

lemma wc_numbers [simp]: "blk_number wc_genesis = Some 0" "blk_number wc_block = Some 1"
  by (simp_all add: blk_number_def header_height_def wc_sel big_uint64_def)

lemma wc_start:
  obtains d where "view map_pebble (table_codec [wc_genesis, wc_block]) d = wc_view" "chain_ok wc_env (wc_chain d)"
    "no_collision wc_env d wc_block"
proof -
  obtain d where d: "view map_pebble (table_codec [wc_genesis, wc_block]) d = wc_view" using wc_db by blast
  have "vw_block (view map_pebble (table_codec [wc_genesis, wc_block]) d) = vw_block wc_view" by (simp add: d)
  then have "no_collision wc_env d wc_block" by (simp add: no_collision_def view_def wc_view_def)
  moreover have "chain_ok wc_env (wc_chain d)"
    by (simp add: chain_ok_def store_ok_view d canonical_at_def linked_to_def) (simp add: wc_view_def)
  ultimately show thesis using that d by blast
qed

lemma wc_reads:
  assumes "view map_pebble (table_codec [wc_genesis, wc_block]) d = wc_view"
  shows "ReadBlockByHash map_pebble (table_codec [wc_genesis, wc_block]) d h = Inr (if h = 696 then Some wc_genesis else None)"
    "GetCanonicalHash map_pebble d n = Inr (if n = 0 then 696 else 0)"
proof -
  have "vw_block (view map_pebble (table_codec [wc_genesis, wc_block]) d) h = vw_block wc_view h"
    "vw_canonical (view map_pebble (table_codec [wc_genesis, wc_block]) d) n = vw_canonical wc_view n"
    by (simp_all add: assms)
  then show "ReadBlockByHash map_pebble (table_codec [wc_genesis, wc_block]) d h = Inr (if h = 696 then Some wc_genesis else None)"
    "GetCanonicalHash map_pebble d n = Inr (if n = 0 then 696 else 0)"
    by (simp_all add: view_def wc_view_def)
qed

lemma wc_checked:
  assumes "view map_pebble (table_codec [wc_genesis, wc_block]) d = wc_view"
  shows "entry_check wc_env (wc_chain d) wc_block 1 = Inr ()"
    "locate_parent wc_env d 0 1 696 = Inr (Some wc_genesis)"
proof -
  have "db_HasBlock map_pebble d 697 = Inr False"
    using wc_reads(1) [OF assms, of 697] by (simp add: ReadBlockByHash_def db_HasBlock_def map_pebble_def split: option.splits)
  then show "entry_check wc_env (wc_chain d) wc_block 1 = Inr ()"
    by (simp add: entry_check_def HasBlock_def tip_height_def fork_height_def Let_def)
  show "locate_parent wc_env d 0 1 696 = Inr (Some wc_genesis)"
    by (simp add: locate_parent_def GetBlock_def wc_reads [OF assms] Let_def zero_hash_def)
qed

lemma wc_added:
  assumes d: "view map_pebble (table_codec [wc_genesis, wc_block]) d = wc_view"
  shows "\<exists>bc'. addBlockInternal wc_env (wc_chain d) (Some wc_block) = (Inr (), bc') \<and> bc_latest bc' = Some wc_block \<and> bc_height bc' = 1"
proof -
  have env: "env_of wc_env d = wc_node_env\<lparr>ne_byHash := ne_byHash (env_of wc_env d), ne_view := ne_view (env_of wc_env d)\<rparr>"
    by (simp add: env_of_def)
  obtain n where n: "validateAndExecuteBlock (env_of wc_env d) bv_node (Some wc_block) (Some wc_genesis) = (Inr (), n)"
    using wc_accepted env by metis
  obtain d' where d': "write_tip wc_env d wc_block 1 True = (Inr (), d')"
    by (simp add: write_tip_def db_WriteBlock_def block_entries_def table_codec_def commit_def map_pebble_def wc_sel
        WriteCanonicalHash_def pb_set_def Let_def)
  have root: "State_Root map_kv (\<lambda>_. 0) s = 0" for s by (simp add: State_Root_def map_kv_def)
  obtain s0 where commit: "State_Commit map_kv (\<lambda>_. 0) (nd_state n) 1 = (Inr 0, s0)"
    by (simp add: State_Commit_def root Let_def) (simp add: map_kv_def)
  obtain s' where s': "commit_state wc_node_env (nd_state n) 1 0 = (Inr (), s')"
    using that by (simp add: commit_state_def commit State_Reset_def root bv_env_def)
  have tip: "tip_height (wc_chain d) = 0" "tip_hash wc_crypto (wc_chain d) = 696"
    by (simp_all add: tip_height_def tip_hash_def fork_height_def)
  have "\<exists>bc'. execute_and_extend wc_env (wc_chain d) wc_block wc_header 1 (Some wc_genesis) = (Inr (), bc')
      \<and> bc_latest bc' = Some wc_block \<and> bc_height bc' = 1"
    by (simp add: execute_and_extend_def Let_def n tip wc_sel handleDirectExtension_def d' s')
  then show ?thesis
    by (simp add: addBlockInternal_def Let_def wc_sel wc_checked [OF d] tip)
qed

text \<open>The same chain one block later, and a competitor of its tip.\<close>

definition wc_rival :: block where
  "wc_rival = wc_block\<lparr>b_Header := Some (wc_header\<lparr>h_Extra := [0], h_MixDigest := 5\<rparr>)\<rparr>"

definition wc_chain2 :: "(bytes \<Rightarrow> bytes option) \<Rightarrow> ((bytes, bytes) alist, bytes \<Rightarrow> bytes option) blockchain" where
  "wc_chain2 d = (wc_chain d)\<lparr>bc_latest := Some wc_block, bc_height := 1\<rparr>"

definition wc_view2 :: db_view where
  "wc_view2 = \<lparr>vw_block = (\<lambda>_. Inr None)(696 := Inr (Some wc_genesis), 697 := Inr (Some wc_block)),
     vw_canonical = (\<lambda>_. Inr 0)(0 := Inr 696, 1 := Inr 697), vw_head = Inr 697\<rparr>"

lemma wc_rival_hash [simp]: "Block_Hash wc_crypto wc_rival = 698"
  by (simp add: Block_Hash_def wc_rival_def wc_block_def wc_header_def wc_crypto_def Header_Hash_def header_preimage_def
      sample_header_def bloom_bytes_def length_prefixed_def stakers_bytes_def Hash_Bytes_def Address_Bytes_def
      word_bytes_def BloomByteLength_def)

lemma wc_rival_sel:
  "b_Header wc_rival = Some (wc_header\<lparr>h_Extra := [0], h_MixDigest := 5\<rparr>)" "blk_number wc_rival = Some 1"
  by (simp_all add: wc_rival_def blk_number_def header_height_def wc_sel big_uint64_def)

lemma wc_rival_better: "isBetterBlockCandidate wc_crypto (Some wc_rival) (Some wc_block)"
  by (simp add: isBetterBlockCandidate_def wc_rival_sel wc_sel compareProofQuality_def proofQualityHash_def
      zero_hash_def Let_def) (simp add: wc_header_def sample_header_def)

lemma wc_db2:
  obtains d where "view map_pebble (table_codec [wc_genesis, wc_block]) d = wc_view2"
proof -
  let ?R = "table_codec [wc_genesis, wc_block]"
  obtain d where d: "view map_pebble ?R d = wc_view" using wc_db by blast
  obtain d' where d': "write_canonical_block map_pebble ?R wc_crypto d wc_block 1 = Inr d'"
    by (simp add: write_canonical_block_def block_entries_def table_codec_def commit_def map_pebble_def wc_sel)
  have "view map_pebble ?R d' = wc_view2"
    by (simp add: tdb.view_write_canonical_block [OF d'] d wc_view_def wc_view2_def)
  with that show thesis by blast
qed

lemma wc_reads2:
  assumes "view map_pebble (table_codec [wc_genesis, wc_block]) d = wc_view2"
  shows "ReadBlockByHash map_pebble (table_codec [wc_genesis, wc_block]) d h
      = Inr (if h = 696 then Some wc_genesis else if h = 697 then Some wc_block else None)"
    "GetCanonicalHash map_pebble d n = Inr (if n = 0 then 696 else if n = 1 then 697 else 0)"
proof -
  have "vw_block (view map_pebble (table_codec [wc_genesis, wc_block]) d) h = vw_block wc_view2 h"
    "vw_canonical (view map_pebble (table_codec [wc_genesis, wc_block]) d) n = vw_canonical wc_view2 n"
    by (simp_all add: assms)
  then show "ReadBlockByHash map_pebble (table_codec [wc_genesis, wc_block]) d h
      = Inr (if h = 696 then Some wc_genesis else if h = 697 then Some wc_block else None)"
    "GetCanonicalHash map_pebble d n = Inr (if n = 0 then 696 else if n = 1 then 697 else 0)"
    by (simp_all add: view_def wc_view2_def)
qed

lemma wc_chain2_ok:
  assumes "view map_pebble (table_codec [wc_genesis, wc_block]) d = wc_view2"
  shows "chain_ok wc_env (wc_chain2 d)"
proof -
  have "store_ok wc_env d" using wc_reads2(1) [OF assms] by (simp add: store_ok_def split: if_splits)
  moreover have "linked_to wc_crypto wc_view2 1"
    unfolding linked_to_def
  proof (intro allI impI)
    fix m :: u64 assume "m < 1"
    then have "m = 0" by (metis word_less_1)
    then show "\<exists>p b h. canonical_at wc_crypto wc_view2 m p \<and> canonical_at wc_crypto wc_view2 (m + 1) b \<and> b_Header b = Some h
        \<and> h_ParentHash h = Block_Hash wc_crypto p"
      by (intro exI [of _ wc_genesis] exI [of _ wc_block]) (simp add: canonical_at_def wc_view2_def wc_sel)
  qed
  moreover have "canonical_at wc_crypto wc_view2 1 wc_block" by (simp add: canonical_at_def wc_view2_def)
  ultimately show ?thesis by (simp add: chain_ok_def wc_chain2_def assms)
qed

lemma wc_checked2:
  assumes "view map_pebble (table_codec [wc_genesis, wc_block]) d = wc_view2"
  shows "entry_check wc_env (wc_chain2 d) wc_rival 1 = Inr ()" "locate_parent wc_env d 1 1 696 = Inr (Some wc_genesis)"
    "GetBlock map_pebble (table_codec [wc_genesis, wc_block]) d 1 = Inr (Some wc_block)"
    "GetBlock map_pebble (table_codec [wc_genesis, wc_block]) d 0 = Inr (Some wc_genesis)"
proof -
  have "db_HasBlock map_pebble d 698 = Inr False"
    using wc_reads2(1) [OF assms, of 698] by (simp add: ReadBlockByHash_def db_HasBlock_def map_pebble_def split: option.splits)
  then show "entry_check wc_env (wc_chain2 d) wc_rival 1 = Inr ()"
    by (simp add: entry_check_def HasBlock_def tip_height_def fork_height_def Let_def wc_chain2_def)
  show get: "GetBlock map_pebble (table_codec [wc_genesis, wc_block]) d 1 = Inr (Some wc_block)"
    "GetBlock map_pebble (table_codec [wc_genesis, wc_block]) d 0 = Inr (Some wc_genesis)"
    by (simp_all add: GetBlock_def wc_reads2 [OF assms] zero_hash_def)
  then show "locate_parent wc_env d 1 1 696 = Inr (Some wc_genesis)" by (simp add: locate_parent_def Let_def)
qed

lemma wc_main_king: "ParseQuantumAddress wc_crypto GenesisMainKing = Inr 0"
proof -
  have "addressChecksum wc_crypto (replicate 20 0) = replicate 4 0"
    by (simp add: addressChecksum_def wc_crypto_def AddressPrefix_def Hash_Bytes_def word_bytes_def be_bytes_0 Let_def)
  then show ?thesis
    by (simp add: ParseQuantumAddress_def ExtractPayload_def GenesisMainKing_def AddressPrefix_def
        NewQuantumAddressFromBytes_def bytes_word_def wc_crypto_def king_crypto_def)
qed

text \<open>Reverting the chain of two blocks to the genesis block succeeds, and loses the tip.\<close>

lemma wc_reverted:
  assumes "view map_pebble (table_codec [wc_genesis, wc_block]) d = wc_view2"
  shows "\<exists>c. adapter_DisconnectBlock wc_env (wc_chain2 d) 1 = (True, c)"
proof -
  have root: "State_Root map_kv (\<lambda>_. 0) s = 0" for s by (simp add: State_Root_def map_kv_def)
  note mk = wc_main_king
  obtain s1 where s1: "State_Clear map_kv bv_state = Inr s1" by (simp add: State_Clear_def map_kv_def put_result_def)
  obtain s2 where s2: "AddBalance map_kv s1 0 GenesisMainKingBalance = Inr s2"
    using mkv.AddBalance_succeeds [of s1 0 GenesisMainKingBalance] mkv.GetBalance_nonneg [of s1 0]
    by (auto simp: GenesisMainKingBalance_def)
  have "initializeRevertState wc_env d bv_state = (Inr (), s2)"
    using s1 s2 mk by (simp add: initializeRevertState_def Let_def bv_env_def found_def wc_reads2 [OF assms] wc_sel root zero_hash_def)
  then have "revertToHeight wc_env False (wc_chain2 d) 0 = (Inr (), (wc_chain2 d)\<lparr>bc_node := bv_node\<lparr>nd_state := s2\<rparr>, bc_latest := None, bc_height := 0\<rparr>)"
    by (simp add: revertToHeight_def wc_chain2_def bv_node_def set_tip_def)
  then show ?thesis by (simp add: adapter_DisconnectBlock_def)
qed

section \<open>Properties\<close>

text \<open>
  C7: one call of \<open>addBlockInternal\<close> on a node that is not synchronising, with a block without nil
  pointers under whose hash no other block is stored, leaves a sound chain sound, however it ends: the tip
  is the canonical and stored block of the recorded height, every block below it is canonical, stored and
  named as the parent of the next. The tip stays or is extended by the offered block. The reversals of the
  reorganisation manager, which remote blocks can cause, are not calls of this function.
\<close>

theorem chain_stays_linked:
  assumes "chain_store (ce_pebble X) (ce_rlp X)" "chain_ok X bc" "\<not> bc_syncing bc" "no_collision X (bc_db bc) b" "plain_block b"
    and "addBlockInternal X bc (Some b) = (r, bc')"
  shows "chain_ok X bc' \<and> (bc_latest bc' = bc_latest bc \<and> bc_height bc' = bc_height bc
    \<or> (\<exists>t h. bc_latest bc = Some t \<and> b_Header b = Some h \<and> h_ParentHash h = Block_Hash (ce_crypto X) t
        \<and> bc_latest bc' = Some b \<and> bc_height bc' = bc_height bc + 1 \<and> bc_height bc < bc_height bc'))"
  using addBlockInternal_chain [OF assms] .

theorem chain_stays_linked_witness:
  "\<exists>bc bc'. addBlockInternal wc_env bc (Some wc_block) = (Inr (), bc') \<and> bc_height bc' = 1 \<and> chain_ok wc_env bc'"
proof -
  obtain d where d: "view map_pebble (table_codec [wc_genesis, wc_block]) d = wc_view" "chain_ok wc_env (wc_chain d)"
      "no_collision wc_env d wc_block"
    by (rule wc_start)
  obtain bc' where bc': "addBlockInternal wc_env (wc_chain d) (Some wc_block) = (Inr (), bc')" "bc_height bc' = 1"
    using wc_added [OF d(1)] by blast
  then show ?thesis using chain_stays_linked [OF wc_store d(2) _ _ wc_plain bc'(1)] d(3) by auto
qed

text \<open>
  C8: a block without nil pointers, other than the tip, that \<open>addBlockInternal\<close> accepts on a node that is
  not synchronising has been validated and executed on the state of the tip as its parent; it becomes the
  tip, one above; the committed state root is the one in its header; the database gains the block and its
  pointer; the pool loses its transactions; nothing else changes.
\<close>

theorem accepted_block_becomes_the_tip:
  assumes "chain_store (ce_pebble X) (ce_rlp X)" "chain_ok X bc" "\<not> bc_syncing bc" "bc_latest bc = Some t" "plain_block b"
    and "addBlockInternal X bc (Some b) = (Inr (), bc')" "Block_Hash (ce_crypto X) b \<noteq> Block_Hash (ce_crypto X) t"
  shows "\<exists>h n s d. b_Header b = Some h \<and> blk_number b = Some (bc_height bc + 1) \<and> h_ParentHash h = Block_Hash (ce_crypto X) t
    \<and> validateAndExecuteBlock (env_of X (bc_db bc)) (bc_node bc) (Some b) (Some t) = (Inr (), n)
    \<and> State_Commit (ne_kv (ce_node X)) (ne_sha256 (ce_node X)) (nd_state n) (bc_height bc + 1) = (Inr (h_Root h), s)
    \<and> bc' = bc\<lparr>bc_db := d, bc_latest := Some b, bc_height := bc_height bc + 1, bc_node := n\<lparr>nd_state := s\<rparr>,
         bc_pool := clean_pool X b (bc_pool bc)\<rparr>
    \<and> vw_block (bc_view X d) = (vw_block (bc_view X (bc_db bc)))(Block_Hash (ce_crypto X) b := Inr (Some b))
    \<and> vw_canonical (bc_view X d) = (vw_canonical (bc_view X (bc_db bc)))(bc_height bc + 1 := Inr (Block_Hash (ce_crypto X) b))"
  using addBlockInternal_accepts [OF assms] by blast

theorem accepted_block_becomes_the_tip_witness:
  "\<exists>bc bc' n. addBlockInternal wc_env bc (Some wc_block) = (Inr (), bc')
    \<and> validateAndExecuteBlock (env_of wc_env (bc_db bc)) (bc_node bc) (Some wc_block) (Some wc_genesis) = (Inr (), n)
    \<and> GetCanonicalHash map_pebble (bc_db bc') 1 = Inr 697"
proof -
  obtain d where d: "view map_pebble (table_codec [wc_genesis, wc_block]) d = wc_view" "chain_ok wc_env (wc_chain d)"
    by (rule wc_start)
  obtain bc' where bc': "addBlockInternal wc_env (wc_chain d) (Some wc_block) = (Inr (), bc')"
    using wc_added [OF d(1)] by blast
  then show ?thesis
    using accepted_block_becomes_the_tip [OF wc_store d(2) _ _ wc_plain bc', of wc_genesis]
    by (intro exI [of _ "wc_chain d"] exI [of _ bc']) (auto simp: view_def)
qed

text \<open>
  C9: a competitor of the tip never replaces it on this path: the caller of the reversal already holds
  the lock that the reversal takes. Every such block is refused and changes no block, pointer or
  tip; when the tip, the parent and the checks are in order and the competitor is the better one,
  the node hangs.
\<close>

theorem better_competitor_hangs:
  assumes "chain_ok X bc" "bc_latest bc = Some t" "b_Header b = Some h" "blk_number b = Some (bc_height bc)"
    and "Block_Hash (ce_crypto X) b \<noteq> Block_Hash (ce_crypto X) t" "addBlockInternal X bc (Some b) = (r, bc')"
  shows "r \<noteq> Inr () \<and> bc_latest bc' = bc_latest bc \<and> bc_height bc' = bc_height bc \<and> bc_db bc' = bc_db bc
    \<and> (bc_height bc \<noteq> 0 \<and> entry_check X bc b (bc_height bc) = Inr ()
        \<and> locate_parent X (bc_db bc) (bc_height bc) (bc_height bc) (h_ParentHash h) = Inr (Some p)
        \<and> isBetterBlockCandidate (ce_crypto X) (Some b) (Some t)
        \<and> GetBlock (ce_pebble X) (ce_rlp X) (bc_db bc) (bc_height bc) = Inr (Some t)
        \<and> GetBlock (ce_pebble X) (ce_rlp X) (bc_db bc) (bc_height bc - 1) = Inr (Some p)
      \<longrightarrow> r = Inl C_Deadlock)"
proof -
  note tip = tip_of_ok [OF assms(1,2)]
  have less: "bc_height bc \<noteq> 0 \<Longrightarrow> bc_height bc - 1 < bc_height bc" by (simp add: word_less_nat_alt unat_pred unat_gt_0)
  have kept: "r \<noteq> Inr () \<and> bc_latest bc' = bc_latest bc \<and> bc_height bc' = bc_height bc \<and> bc_db bc' = bc_db bc"
  proof (cases rule: addBlockInternal_cases [OF assms(6,1,2)])
    case 1
    then show ?thesis by simp
  next
    case 2
    then show ?thesis using assms(4,5) by simp
  qed
  show ?thesis
  proof (intro conjI impI; (use kept in blast)?)
    assume *: "bc_height bc \<noteq> 0 \<and> entry_check X bc b (bc_height bc) = Inr ()
        \<and> locate_parent X (bc_db bc) (bc_height bc) (bc_height bc) (h_ParentHash h) = Inr (Some p)
        \<and> isBetterBlockCandidate (ce_crypto X) (Some b) (Some t)
        \<and> GetBlock (ce_pebble X) (ce_rlp X) (bc_db bc) (bc_height bc) = Inr (Some t)
        \<and> GetBlock (ce_pebble X) (ce_rlp X) (bc_db bc) (bc_height bc - 1) = Inr (Some p)"
    have "revertToHeight X True bc (bc_height bc - 1) = (Inl C_Deadlock, bc)"
      using less * by (auto simp: revertToHeight_def)
    then have "reorganizeAtHeight X bc (bc_height bc) b h = (Inl C_Deadlock, bc)"
      using * by (simp add: reorganizeAtHeight_def Let_def)
    then show "r = Inl C_Deadlock"
      using assms * by (simp add: addBlockInternal_def Let_def tip)
  qed
qed

theorem better_competitor_hangs_witness:
  "\<exists>bc bc'. bc_latest bc = Some wc_block \<and> addBlockInternal wc_env bc (Some wc_rival) = (Inl C_Deadlock, bc')"
proof -
  obtain d where d: "view map_pebble (table_codec [wc_genesis, wc_block]) d = wc_view2" by (rule wc_db2)
  obtain r bc' where bc': "addBlockInternal wc_env (wc_chain2 d) (Some wc_rival) = (r, bc')" by (cases "addBlockInternal wc_env (wc_chain2 d) (Some wc_rival)")
  have sel: "bc_latest (wc_chain2 d) = Some wc_block" "bc_height (wc_chain2 d) = 1" "bc_db (wc_chain2 d) = d"
    by (simp_all add: wc_chain2_def)
  have "r = Inl C_Deadlock"
    using better_competitor_hangs [OF wc_chain2_ok [OF d] sel(1) wc_rival_sel(1) _ _ bc', of wc_genesis]
    by (simp add: sel wc_rival_sel wc_sel wc_rival_better wc_checked2 [OF d])
  then show ?thesis using bc' sel(1) by blast
qed

text \<open>
  Replaying an accepted block to rebuild the state succeeds on the same transactions but pays no
  fees: all balances together are short of those after the acceptance by exactly the block's fees.
\<close>

theorem replay_forgets_the_fees:
  assumes "kv_reliable (ne_kv E)" "validateAndExecuteBlock E n (Some b) (Some p) = (Inr (), n')"
    and "executeBlockOnState E n b = (Inr rt, n'')"
  shows "ledger_total (GetBalance (ne_kv E) (nd_state n')) - ledger_total (GetBalance (ne_kv E) (nd_state n'')) = max 0 (fee_sum (b_Txs b))"
  using assms(2)
proof (rule validateAndExecute_accepts)
  fix h ph king fees d1 r d2 paid
  assume H: "b_Header b = Some h" and run: "runTransactions E (nd_state n) b h = (Inr fees, d1)"
    and dist: "distributeBlockRewards (ne_kv E) (ne_crypto E) (ne_distributor E) king (nd_pow n \<noteq> None) d1 h (Some fees) = Inr (r, d2, paid)"
    and n': "n' = updateEngine (updateKings E (n\<lparr>nd_state := d2, nd_kings := record_share (ne_written E) (nd_kings n) paid\<rparr>) b h r) h ph"
  obtain gas where exec: "executeBlockTransactions (ne_kv E) (ne_crypto E) (ne_sha256 E) (ne_view E) (nd_state n) b = (Inr (fees, gas), d1)"
    using runTransactions_Inr [OF run H] by blast
  obtain h' height d1' mainKing king' r' paid' where again: "b_Header b = Some h'" "blk_number b = Some height"
    "replay_txs (ne_kv E) (ne_crypto E) (ne_sha256 E) (NewVM (h_GasLimit h')) (nd_state n) (b_Txs b) = (True, d1')"
    "DistributeRewards (ne_kv E) d1' mainKing (h_Coinbase h') (Some 0) height king' (nd_pow n \<noteq> None) = Inr (r', nd_state n'', paid')"
    using executeBlockOnState_Inr [OF assms(3)] by metis
  obtain cur where loop: "execute_loop (ne_kv E) (ne_crypto E) (ne_sha256 E) (ne_view E) cur 0 (b_Txs b) (NewVM (h_GasLimit h)) (nd_state n) 0 0 (\<lambda>_. None)
      = (Inr (fees, gas), d1)"
    using exec H by (auto simp: executeBlockTransactions_def Let_def)
  have same: "h' = h" "d1' = d1" using again(1,3) H replay_execute_loop [OF loop] by auto
  obtain number where num: "h_Number h = Some number" "height = big_uint64 number"
    using again(1,2) same by (auto simp: blk_number_def header_height_def split: option.splits)
  have "ledger_total (GetBalance (ne_kv E) (nd_state n'')) = ledger_total (GetBalance (ne_kv E) d1) + CalculateBlockReward height"
    using DistributeRewards_total [OF assms(1) again(4)] kv_reliable.DistributeRewards_Inr(1) [OF assms(1) again(4)] same by simp
  moreover have "fees = fee_sum (b_Txs b)" using execute_loop_sums [OF loop] by simp
  moreover have "nd_state n' = d2" by (simp add: n')
  ultimately show ?thesis using block_totals [OF assms(1) exec dist num(1)] num(2) by simp
qed

theorem replay_forgets_the_fees_witness:
  "\<exists>n' rt n''. validateAndExecuteBlock bv_env bv_node (Some bv_block) (Some bv_parent) = (Inr (), n')
    \<and> executeBlockOnState bv_env bv_node bv_block = (Inr rt, n'')
    \<and> ledger_total (GetBalance map_kv (nd_state n')) - ledger_total (GetBalance map_kv (nd_state n'')) = 21000000000000"
proof -
  obtain n' where n': "validateAndExecuteBlock bv_env bv_node (Some bv_block) (Some bv_parent) = (Inr (), n')"
    using bv_accepted by blast
  have sel: "ne_crypto bv_env = king_crypto" "ne_sha256 bv_env = (\<lambda>_. 0)" "ne_kv bv_env = map_kv" "ne_distributor bv_env = Some 3"
      "nd_pow bv_node = Some NewPoW" "nd_state bv_node = bv_state" "nd_kings bv_node = Some king_demo"
      "GetCurrentKing king_demo = Some 8" "b_Header bv_block = Some bv_header" "b_Txs bv_block = [Some sample_tx]"
    by (simp_all add: bv_env_def bv_node_def king_demo_def GetCurrentKing_def king_at_def bv_block_def)
  obtain d1 where "executeBlockTransactions map_kv king_crypto (\<lambda>_. 0) no_chain bv_state bv_block = (Inr (21000000000000, 21000), d1)"
    using bv_executes by blast
  then have run: "replay_txs map_kv king_crypto (\<lambda>_. 0) (NewVM (h_GasLimit bv_header)) bv_state [Some sample_tx] = (True, d1)"
    by (intro replay_execute_loop) (simp add: executeBlockTransactions_def sel Let_def)
  obtain r d2 paid where "DistributeRewards map_kv d1 3 (h_Coinbase bv_header) (Some 0) 1 (Some 8) True = Inr (r, d2, paid)"
    by (rule DistributeRewards_returns)
  then obtain rt n'' where again: "executeBlockOnState bv_env bv_node bv_block = (Inr rt, n'')"
    using run that by (simp add: executeBlockOnState_def sel blk_number_def header_height_def bv_header_def big_uint64_def)
  have "ledger_total (GetBalance map_kv (nd_state n')) - ledger_total (GetBalance map_kv (nd_state n'')) = max 0 (fee_sum [Some sample_tx])"
    using replay_forgets_the_fees [OF _ n' again] mkv.kv_reliable_axioms by (simp add: sel)
  then show ?thesis using n' again by (auto simp: fee_sum_def gas_cost_def sample_tx_def)
qed

text \<open>
  A reorganisation whose fork point is the genesis block destroys the chain of the node. Once the
  old branch has been detached, down to height one, the tip is gone; the first candidate is then
  refused, the rollback is refused as well, and the node ends without a tip and without a further
  change of its database.
\<close>

theorem reorganisation_from_genesis_loses_the_tip:
  assumes "re_ops M = reorgChainAdapter X" "store_ok X (bc_db (rm_chain rm))" "\<not> bc_syncing (rm_chain rm)" "bc_height (rm_chain rm) \<noteq> 0"
    and "cf_ActiveChain fork = a # bs" "fork_height a = 1" "\<forall>b \<in> set bs. fork_height b > 1" "length (cf_ActiveChain fork) \<le> ManagerMaxReorgDepth"
    and "cf_CandidateChain fork = c # cs" "fork_height c = 1"
    and "disconnect_loop (re_ops M) (rm_chain rm) (rev (cf_ActiveChain fork)) [] = (True, removed, bc1)"
    and "performReorg M rm fork = (r, rm')"
  shows "r \<noteq> Inr () \<and> bc_latest (rm_chain rm') = None \<and> bc_db (rm_chain rm') = bc_db (rm_chain rm)"
proof -
  note gone = disconnect_to_genesis [OF assms(11) [unfolded assms(1,5), simplified] assms(4,6,7)]
  obtain ok bc2 where c: "adapter_ConnectBlock X bc1 c = (ok, bc2)" by fastforce
  have fail: "\<not> ok \<and> bc_latest bc2 = None \<and> bc_db bc2 = bc_db bc1 \<and> \<not> bc_syncing bc2"
    using connect_without_tip [OF _ _ _ c] gone assms(2,3,10) by auto
  have undo: "bc_latest (emergencyRollback (reorgChainAdapter X) bc1 removed) = None \<and> bc_db (emergencyRollback (reorgChainAdapter X) bc1 removed) = bc_db (rm_chain rm)"
    using rollback_without_tip [of bc1 X a bs] gone assms(2,3,6,7) by simp
  have undo2: "bc_latest (emergencyRollback (reorgChainAdapter X) bc2 removed) = None \<and> bc_db (emergencyRollback (reorgChainAdapter X) bc2 removed) = bc_db (rm_chain rm)"
    using rollback_without_tip [of bc2 X a bs] fail gone assms(2,3,6,7) by simp
  show ?thesis
    using assms(8,9,11,12) undo undo2 c fail
    by (auto simp: performReorg_def assms(1) emergencyRollbackFrom_def split: if_splits)
qed

definition wc_fork :: chain_fork where
  "wc_fork = \<lparr>cf_ForkHeight = 0, cf_ActiveChain = [wc_block], cf_CandidateChain = [wc_rival],
     cf_ActiveWork = 1, cf_CandidateWork = 2, cf_DetectedAt = 0\<rparr>"

theorem reorganisation_from_genesis_loses_the_tip_witness:
  "\<exists>rm r rm'. bc_latest (rm_chain rm) = Some wc_block \<and> performReorg (manager_env wc_env 0 id) rm wc_fork = (r, rm')
    \<and> bc_latest (rm_chain rm') = None"
proof -
  obtain d where d: "view map_pebble (table_codec [wc_genesis, wc_block]) d = wc_view2" by (rule wc_db2)
  let ?M = "manager_env wc_env 0 id" and ?rm = "NewReorgManager (wc_chain2 d)"
  obtain c where c: "adapter_DisconnectBlock wc_env (wc_chain2 d) 1 = (True, c)" using wc_reverted [OF d] by blast
  obtain r rm' where run: "performReorg ?M ?rm wc_fork = (r, rm')" by fastforce
  have sel: "re_ops ?M = reorgChainAdapter wc_env" "rm_chain ?rm = wc_chain2 d" "cf_ActiveChain wc_fork = [wc_block]"
      "cf_CandidateChain wc_fork = [wc_rival]" "fork_height wc_block = 1" "fork_height wc_rival = 1"
      "bc_latest (wc_chain2 d) = Some wc_block" "bc_height (wc_chain2 d) = 1" "\<not> bc_syncing (wc_chain2 d)" "bc_db (wc_chain2 d) = d"
    by (simp_all add: manager_env_def NewReorgManager_def wc_fork_def fork_height_def wc_rival_sel wc_chain2_def)
  have "disconnect_loop (re_ops ?M) (rm_chain ?rm) (rev (cf_ActiveChain wc_fork)) [] = (True, [wc_block], c)"
    by (simp add: sel c)
  then have "bc_latest (rm_chain rm') = None"
    using reorganisation_from_genesis_loses_the_tip [OF sel(1) _ _ _ sel(3,5) _ _ sel(4,6) _ run] wc_chain2_ok [OF d]
    by (auto simp: sel chain_ok_def ManagerMaxReorgDepth_def)
  then show ?thesis using run sel by (intro exI [of _ ?rm]) auto
qed

end
