(* ===== verification/Recovery.thy ===== *)
theory Recovery
  imports Blockchain
begin

text \<open>
  The start of a node (\<open>antdc/chain/initialization.go\<close> and the storage side of
  \<open>antdc/chain/genesis.go\<close>): the search for the tip in the database, its repair, the genesis block of an
  empty database, the migration of blocks from files, and the difficulty that the engine starts with.

  A scan of the database gives the keys with one first byte, the largest first; it may fail. The
  files of the genesis block and of the legacy blocks are arguments, with the blocks that the JSON
  library finds in them. A panic on a nil header or number is a value of the error type.
\<close>

section \<open>Checking a tip\<close>

type_synonym 'd scan = "'d \<Rightarrow> u8 \<Rightarrow> bytes list option"

datatype tip_error = T_Nil | T_Panic | T_Parent | T_Gap | T_Not_Canonical

definition ContinuityCheckDepth :: u64 where
  "ContinuityCheckDepth = 10"

definition verifyTipContinuity :: "'d pebble_ops \<Rightarrow> rlp_codec \<Rightarrow> 'd \<Rightarrow> block option \<Rightarrow> tip_error + unit" where
  "verifyTipContinuity P R d tip =
     (case tip of
        None \<Rightarrow> Inl T_Nil
      | Some b \<Rightarrow>
          (case (b_Header b, blk_number b) of
             (Some h, Some height) \<Rightarrow>
               if height = 0 then Inr ()
               else
                 (case ReadHeaderByHash P R d (h_ParentHash h) of
                    Inl _ \<Rightarrow> Inl T_Parent
                  | Inr None \<Rightarrow> Inl T_Parent
                  | Inr (Some ph) \<Rightarrow>
                      (case header_height ph of
                         None \<Rightarrow> Inl T_Panic
                       | Some pn \<Rightarrow>
                           let canonParent = (case GetCanonicalHash P d pn of Inl _ \<Rightarrow> zero_hash | Inr x \<Rightarrow> x)
                           in if pn + 1 \<noteq> height then Inl T_Gap
                              else if height \<le> ContinuityCheckDepth \<and> canonParent \<noteq> zero_hash \<and> canonParent \<noteq> h_ParentHash h
                              then Inl T_Not_Canonical
                              else Inr ()))
           | _ \<Rightarrow> Inl T_Panic))"

text \<open>\<open>Inl ()\<close> is the panic, \<open>Inr None\<close> any other failure.\<close>

definition validCanonicalBlockAt :: "'d pebble_ops \<Rightarrow> rlp_codec \<Rightarrow> 'd \<Rightarrow> u64 \<Rightarrow> unit + block option" where
  "validCanonicalBlockAt P R d height =
     (let hash = (case GetCanonicalHash P d height of Inl _ \<Rightarrow> zero_hash | Inr x \<Rightarrow> x)
      in if hash = zero_hash then Inr None
         else (case found (ReadBlockByHash P R d hash) of
                 None \<Rightarrow> Inr None
               | Some b \<Rightarrow>
                   (case verifyTipContinuity P R d (Some b) of
                      Inl e \<Rightarrow> if e = T_Panic then Inl () else Inr None
                    | Inr _ \<Rightarrow> Inr (Some b))))"

section \<open>Searching the tip\<close>

fun first_valid :: "('a \<Rightarrow> unit + block option) \<Rightarrow> 'a list \<Rightarrow> unit + block option" where
  "first_valid f [] = Inr None"
| "first_valid f (x # xs) =
     (case f x of
        Inl _ \<Rightarrow> Inl ()
      | Inr (Some b) \<Rightarrow> Inr (Some b)
      | Inr None \<Rightarrow> first_valid f xs)"

text \<open>The heights in the keys of nine bytes.\<close>

definition scan_heights :: "bytes list \<Rightarrow> u64 list" where
  "scan_heights ks = map (\<lambda>k. bytes_word (tl k)) (filter (\<lambda>k. length k = 9) ks)"

definition findHighestCanonicalBlock :: "'d scan \<Rightarrow> 'd pebble_ops \<Rightarrow> rlp_codec \<Rightarrow> 'd \<Rightarrow> unit + block option" where
  "findHighestCanonicalBlock S P R d =
     (case S d (hd (CanonicalHashKey 0)) of
        None \<Rightarrow> Inr None
      | Some ks \<Rightarrow> first_valid (validCanonicalBlockAt P R d) (scan_heights ks))"

definition valid_header_block :: "'d pebble_ops \<Rightarrow> rlp_codec \<Rightarrow> crypto \<Rightarrow> 'd \<Rightarrow> u64 \<Rightarrow> unit + block option" where
  "valid_header_block P R C d height =
     (case ReadHeaderByNumber P R d height of
        Inr (Some h) \<Rightarrow>
          (case ReadBlockByHash P R d (Header_Hash C (Some h)) of
             Inr (Some b) \<Rightarrow>
               (case verifyTipContinuity P R d (Some b) of
                  Inl e \<Rightarrow> if e = T_Panic then Inl () else Inr None
                | Inr _ \<Rightarrow> Inr (Some b))
           | _ \<Rightarrow> Inr None)
      | _ \<Rightarrow> Inr None)"

definition findHighestHeaderBlock :: "'d scan \<Rightarrow> 'd pebble_ops \<Rightarrow> rlp_codec \<Rightarrow> crypto \<Rightarrow> 'd \<Rightarrow> unit + block option" where
  "findHighestHeaderBlock S P R C d =
     (case S d (hd (HeaderByNumberKey 0)) of
        None \<Rightarrow> Inr None
      | Some ks \<Rightarrow> first_valid (valid_header_block P R C d) (scan_heights ks))"

text \<open>The pointers that have been written stay when it fails; the error is only logged.\<close>

fun repair_loop :: "'d pebble_ops \<Rightarrow> rlp_codec \<Rightarrow> crypto \<Rightarrow> 'd \<Rightarrow> u64 list \<Rightarrow> bool \<times> 'd" where
  "repair_loop P R C d [] = (True, d)"
| "repair_loop P R C d (n # ns) =
     (case ReadHeaderByNumber P R d n of
        Inr (Some h) \<Rightarrow>
          (case WriteCanonicalHash P d n (Header_Hash C (Some h)) of
             Inl _ \<Rightarrow> (False, d)
           | Inr d' \<Rightarrow> repair_loop P R C d' ns)
      | _ \<Rightarrow> (False, d))"

definition repairCanonicalHashesFromHeaders :: "'d pebble_ops \<Rightarrow> rlp_codec \<Rightarrow> crypto \<Rightarrow> 'd \<Rightarrow> u64 \<Rightarrow> bool \<times> 'd" where
  "repairCanonicalHashesFromHeaders P R C d tipHeight = repair_loop P R C d (heights 0 tipHeight)"

definition last_height :: "'d pebble_ops \<Rightarrow> 'd \<Rightarrow> u64 option" where
  "last_height P d =
     (case pb_get P d lastCanonicalHeightKey of
        Inr (Some data) \<Rightarrow> if length data = 8 then Some (bytes_word data) else None
      | _ \<Rightarrow> None)"

text \<open>The alternatives are tried in this order; the third one repairs the database.\<close>

definition findValidChainTipFast ::
    "'d scan \<Rightarrow> 'd pebble_ops \<Rightarrow> rlp_codec \<Rightarrow> crypto \<Rightarrow> 'd \<Rightarrow> (unit + block option) \<times> 'd" where
  "findValidChainTipFast S P R C d =
     (case case last_height P d of None \<Rightarrow> Inr None | Some n \<Rightarrow> validCanonicalBlockAt P R d n of
        Inl _ \<Rightarrow> (Inl (), d)
      | Inr (Some b) \<Rightarrow> (Inr (Some b), d)
      | Inr None \<Rightarrow>
     (case findHighestCanonicalBlock S P R d of
        Inl _ \<Rightarrow> (Inl (), d)
      | Inr (Some b) \<Rightarrow> (Inr (Some b), d)
      | Inr None \<Rightarrow>
     (case findHighestHeaderBlock S P R C d of
        Inl _ \<Rightarrow> (Inl (), d)
      | Inr (Some b) \<Rightarrow>
          (case blk_number b of
             None \<Rightarrow> (Inl (), d)
           | Some n \<Rightarrow> (Inr (Some b), snd (repairCanonicalHashesFromHeaders P R C d n)))
      | Inr None \<Rightarrow> (validCanonicalBlockAt P R d 0, d))))"

section \<open>Loading the tip\<close>

datatype start_error = S_Panic | S_Database db_error | S_Genesis | S_Address

text \<open>The tip that the head names, if it passes the check.\<close>

definition load_head :: "'d pebble_ops \<Rightarrow> rlp_codec \<Rightarrow> 'd \<Rightarrow> start_error + block option" where
  "load_head P R d =
     (case GetHeadBlockHash P d of
        Inl e \<Rightarrow> Inl (S_Database e)
      | Inr headHash \<Rightarrow>
          if headHash = zero_hash then Inr None
          else (case ReadBlockByHash P R d headHash of
                  Inl e \<Rightarrow> Inl (S_Database e)
                | Inr None \<Rightarrow> Inr None
                | Inr (Some b) \<Rightarrow>
                    (case verifyTipContinuity P R d (Some b) of
                       Inl e \<Rightarrow> if e = T_Panic then Inl S_Panic else Inr None
                     | Inr _ \<Rightarrow> Inr (Some b))))"

definition load_tip :: "'d scan \<Rightarrow> 'd pebble_ops \<Rightarrow> rlp_codec \<Rightarrow> crypto \<Rightarrow> 'd \<Rightarrow> (start_error + block option) \<times> 'd" where
  "load_tip S P R C d =
     (case load_head P R d of
        Inl e \<Rightarrow> (Inl e, d)
      | Inr latest \<Rightarrow>
          (case findValidChainTipFast S P R C d of
             (Inl _, d1) \<Rightarrow> (Inl S_Panic, d1)
           | (Inr None, d1) \<Rightarrow> (Inr latest, d1)
           | (Inr (Some b), d1) \<Rightarrow>
               if latest = None \<or> fork_height b > fork_height (the latest) then
                 (case WriteCanonicalHash P d1 (fork_height b) (Block_Hash C b) of
                    Inl e \<Rightarrow> (Inl (S_Database e), d1)
                  | Inr d2 \<Rightarrow>
                      (case WriteHeadBlockHash P d2 (Block_Hash C b) of
                         Inl e \<Rightarrow> (Inl (S_Database e), d2)
                       | Inr d3 \<Rightarrow> (Inr (Some b), d3)))
               else (Inr latest, d1)))"

section \<open>The genesis block\<close>

text \<open>
  \<open>stored\<close>: the blocks found in the two files, in their order; only a block of number zero is taken. A
  failing update of the balance is ignored.
\<close>

definition loadGenesisBlock :: "block option list \<Rightarrow> block option" where
  "loadGenesisBlock stored =
     (case filter (\<lambda>b. case b of None \<Rightarrow> False | Some g \<Rightarrow> blk_number g = Some 0) stored of [] \<Rightarrow> None | b # _ \<Rightarrow> b)"

definition EnsureGenesisBlock ::
    "'s kv_ops \<Rightarrow> crypto \<Rightarrow> (bytes \<Rightarrow> hash) \<Rightarrow> u64 \<Rightarrow> (u64 \<Rightarrow> u64 \<Rightarrow> u64 \<Rightarrow> address \<Rightarrow> int) \<Rightarrow> bool \<Rightarrow> block option list \<Rightarrow> 's
     \<Rightarrow> (start_error + block) \<times> 's" where
  "EnsureGenesisBlock K C sha256 now powDifficulty persisted stored s =
     (case loadGenesisBlock stored of
        Some g \<Rightarrow> (Inr g, s)
      | None \<Rightarrow>
          (case ParseQuantumAddress C GenesisMainKing of
             Inl _ \<Rightarrow> (Inl S_Address, s)
           | Inr mainKing \<Rightarrow>
               let s1 = or_unchanged s (AddBalance K s mainKing GenesisMainKingBalance)
               in (case genesis_block C now (State_Root K sha256 s1) powDifficulty of
                     Inl _ \<Rightarrow> (Inl S_Genesis, s1)
                   | Inr g \<Rightarrow> (if persisted then Inr g else Inl S_Genesis, s1))))"

definition store_genesis :: "'d pebble_ops \<Rightarrow> rlp_codec \<Rightarrow> crypto \<Rightarrow> 'd \<Rightarrow> block \<Rightarrow> (start_error + unit) \<times> 'd" where
  "store_genesis P R C d g =
     (case db_WriteBlock P R C d g of
        Inl e \<Rightarrow> (Inl (S_Database e), d)
      | Inr d1 \<Rightarrow>
          (case WriteCanonicalHash P d1 0 (Block_Hash C g) of
             Inl e \<Rightarrow> (Inl (S_Database e), d1)
           | Inr d2 \<Rightarrow>
               (case WriteHeadBlockHash P d2 (Block_Hash C g) of
                  Inl e \<Rightarrow> (Inl (S_Database e), d2)
                | Inr d3 \<Rightarrow> (Inr (), d3))))"

section \<open>Migration of legacy blocks\<close>

text \<open>
  The files in the order of the directory, \<open>None\<close> for one without a readable header. The result is the
  number of migrated blocks and the highest of them; \<open>None\<close> is the panic on a missing number.
\<close>

fun migrate_loop ::
    "'d pebble_ops \<Rightarrow> rlp_codec \<Rightarrow> crypto \<Rightarrow> 'd \<Rightarrow> block option list \<Rightarrow> nat \<Rightarrow> block option \<Rightarrow> (nat \<times> block option) option \<times> 'd" where
  "migrate_loop P R C d [] migrated highest = (Some (migrated, highest), d)"
| "migrate_loop P R C d (None # files) migrated highest = migrate_loop P R C d files migrated highest"
| "migrate_loop P R C d (Some b # files) migrated highest =
     (case db_WriteBlock P R C d b of
        Inl e \<Rightarrow> if e = DB_Panic then (None, d) else migrate_loop P R C d files migrated highest
      | Inr d1 \<Rightarrow>
          (case WriteCanonicalHash P d1 (fork_height b) (Block_Hash C b) of
             Inl _ \<Rightarrow> migrate_loop P R C d1 files migrated highest
           | Inr d2 \<Rightarrow>
               migrate_loop P R C d2 files (migrated + 1)
                 (case highest of None \<Rightarrow> Some b | Some hb \<Rightarrow> if fork_height b > fork_height hb then Some b else highest)))"

definition migrateLegacyJSONBlocksToDB ::
    "'d pebble_ops \<Rightarrow> rlp_codec \<Rightarrow> crypto \<Rightarrow> 'd \<Rightarrow> block option list \<Rightarrow> (start_error + nat) \<times> 'd" where
  "migrateLegacyJSONBlocksToDB P R C d files =
     (case migrate_loop P R C d files 0 None of
        (None, d1) \<Rightarrow> (Inl S_Panic, d1)
      | (Some (migrated, None), d1) \<Rightarrow> (Inr migrated, d1)
      | (Some (migrated, Some b), d1) \<Rightarrow>
          (case WriteCanonicalHash P d1 (fork_height b) (Block_Hash C b) of
             Inl e \<Rightarrow> (Inl (S_Database e), d1)
           | Inr d2 \<Rightarrow>
               (case WriteHeadBlockHash P d2 (Block_Hash C b) of
                  Inl e \<Rightarrow> (Inl (S_Database e), d2)
                | Inr d3 \<Rightarrow> (Inr migrated, d3))))"

text \<open>After a migration the head is read again, without any check; a failing migration is only logged.\<close>

definition reload_after_migration ::
    "'d pebble_ops \<Rightarrow> rlp_codec \<Rightarrow> crypto \<Rightarrow> 'd \<Rightarrow> block option list \<Rightarrow> block \<Rightarrow> (start_error + block) \<times> 'd" where
  "reload_after_migration P R C d files latest =
     (case migrateLegacyJSONBlocksToDB P R C d files of
        (Inl e, d1) \<Rightarrow> (if e = S_Panic then Inl S_Panic else Inr latest, d1)
      | (Inr migrated, d1) \<Rightarrow>
          (if migrated > 0
           then (case GetHeadBlockHash P d1 of
                   Inl _ \<Rightarrow> Inr latest
                 | Inr headHash \<Rightarrow>
                     if headHash = zero_hash then Inr latest
                     else (case found (ReadBlockByHash P R d1 headHash) of None \<Rightarrow> Inr latest | Some b \<Rightarrow> Inr b))
           else Inr latest, d1))"

section \<open>The node\<close>

text \<open>\<open>newBlockchain\<close>, its chain: the tip, the state and the database that the node starts with.\<close>

definition open_chain ::
    "('s, 'd) chain_env \<Rightarrow> 'd scan \<Rightarrow> u64 \<Rightarrow> (u64 \<Rightarrow> u64 \<Rightarrow> u64 \<Rightarrow> address \<Rightarrow> int) \<Rightarrow> bool \<Rightarrow> block option list \<Rightarrow> block option list
     \<Rightarrow> 's \<Rightarrow> 'd \<Rightarrow> (start_error + block) \<times> 's \<times> 'd" where
  "open_chain X S now powDifficulty persisted stored legacy s d =
     (let P = ce_pebble X; R = ce_rlp X; C = ce_crypto X; E = ce_node X in
      case load_tip S P R C d of
        (Inl e, d1) \<Rightarrow> (Inl e, s, d1)
      | (Inr (Some t), d1) \<Rightarrow> (case reload_after_migration P R C d1 legacy t of (r, d2) \<Rightarrow> (r, s, d2))
      | (Inr None, d1) \<Rightarrow>
          (case EnsureGenesisBlock (ne_kv E) C (ne_sha256 E) now powDifficulty persisted stored s of
             (Inl e, s1) \<Rightarrow> (Inl e, s1, d1)
           | (Inr g, s1) \<Rightarrow>
               (case store_genesis P R C d1 g of
                  (Inl e, d2) \<Rightarrow> (Inl e, s1, d2)
                | (Inr _, d2) \<Rightarrow> (case reload_after_migration P R C d2 legacy g of (r, d3) \<Rightarrow> (r, s1, d3)))))"

text \<open>The engine of the new node.\<close>

definition start_engine :: "block \<Rightarrow> pow" where
  "start_engine latest =
     (case Option.bind (b_Header latest) h_Difficulty of None \<Rightarrow> NewPoW | Some d \<Rightarrow> SetDifficulty NewPoW (Some d))"

text \<open>The node that the parts make.\<close>

definition start_node :: "'s \<Rightarrow> 'd \<Rightarrow> king_manager option \<Rightarrow> tx_pool option \<Rightarrow> block \<Rightarrow> ('s, 'd) blockchain" where
  "start_node s d kings pool latest =
     \<lparr>bc_node = \<lparr>nd_state = s, nd_kings = kings, nd_pow = Some (start_engine latest)\<rparr>, bc_db = d,
      bc_latest = Some latest, bc_height = fork_height latest, bc_syncing = False, bc_syncTarget = 0, bc_pool = pool\<rparr>"

section \<open>Headers in the store\<close>

context pebble_store
begin

lemma last_height_commit:
  "pb_commit P d ops = Some d' \<Longrightarrow> last_height P d' =
     (case batch_value ops lastCanonicalHeightKey of
        None \<Rightarrow> last_height P d
      | Some None \<Rightarrow> None
      | Some (Some v) \<Rightarrow> if length v = 8 then Some (bytes_word v) else None)"
  by (simp add: last_height_def get_commit split: option.split)

lemma read_header_commit:
  "pb_commit P d ops = Some d' \<Longrightarrow> ReadHeaderByHash P R d' h =
     (case batch_value ops (HeaderByHashKey h) of None \<Rightarrow> ReadHeaderByHash P R d h | Some None \<Rightarrow> Inr None
      | Some (Some v) \<Rightarrow> (case unrlp_header R v of None \<Rightarrow> Inl DB_Decode | Some x \<Rightarrow> Inr (Some x)))"
  by (simp add: ReadHeaderByHash_def read_header_def get_commit split: option.split)

end

text \<open>What the codec reads back of a header.\<close>

definition reads_header :: "rlp_codec \<Rightarrow> block \<Rightarrow> bool" where
  "reads_header R b \<longleftrightarrow> (\<forall>h data. b_Header b = Some h \<longrightarrow> rlp_header R h = Some data \<longrightarrow> unrlp_header R data = Some h)"

context pebble_store
begin

lemma header_db_WriteBlock:
  assumes "db_WriteBlock P R C d b = Inr d'" "reads_header R b"
  shows "ReadHeaderByHash P R d' = (ReadHeaderByHash P R d)(Block_Hash C b := Inr (b_Header b))"
    "last_height P d' = last_height P d"
proof -
  obtain h n data hd where b: "b_Header b = Some h" "rlp_header R h = Some hd"
      "pb_commit P d [Put_Op (BlockByHashKey (Block_Hash C b)) data, Put_Op (HeaderByNumberKey n) hd,
         Put_Op (HeaderByHashKey (Block_Hash C b)) hd] = Some d'"
    using assms(1) by (auto simp: db_WriteBlock_def block_entries_def commit_Inr split: sum.splits option.splits)
  show "ReadHeaderByHash P R d' = (ReadHeaderByHash P R d)(Block_Hash C b := Inr (b_Header b))"
    using assms(2) b(1,2) by (auto simp: reads_header_def fun_eq_iff read_header_commit [OF b(3)])
  show "last_height P d' = last_height P d" by (simp add: last_height_commit [OF b(3)])
qed

lemma header_WriteCanonicalHash:
  assumes "WriteCanonicalHash P d n hash = Inr d'"
  shows "ReadHeaderByHash P R d' = ReadHeaderByHash P R d" "last_height P d' = Some n"
  using assms by (auto simp: WriteCanonicalHash_def commit_Inr fun_eq_iff read_header_commit last_height_commit bytes_word_word_bytes)

lemma header_WriteHeadBlockHash:
  assumes "WriteHeadBlockHash P d hash = Inr d'"
  shows "ReadHeaderByHash P R d' = ReadHeaderByHash P R d" "last_height P d' = last_height P d"
  using assms by (auto simp: WriteHeadBlockHash_def pb_set_Inr fun_eq_iff read_header_commit last_height_commit)

lemma header_write_tip:
  assumes "ce_pebble X = P" "ce_rlp X = R" "write_tip X d b n setHead = (Inr u, d')" "reads_header R b"
  shows "ReadHeaderByHash P R d' = (ReadHeaderByHash P R d)(Block_Hash (ce_crypto X) b := Inr (b_Header b))"
    "last_height P d' = Some n"
proof -
  obtain d1 d2 where d1: "db_WriteBlock P R (ce_crypto X) d b = Inr d1"
    and d2: "WriteCanonicalHash P d1 n (Block_Hash (ce_crypto X) b) = Inr d2"
    and d': "d' = (if setHead then or_unchanged d2 (WriteHeadBlockHash P d2 (Block_Hash (ce_crypto X) b)) else d2)"
    using assms(1-3) by (auto simp: write_tip_def Let_def split: sum.splits)
  have same: "ReadHeaderByHash P R d' = ReadHeaderByHash P R d2 \<and> last_height P d' = last_height P d2"
  proof (cases "setHead \<and> (\<exists>d3. WriteHeadBlockHash P d2 (Block_Hash (ce_crypto X) b) = Inr d3)")
    case True
    then have d3: "WriteHeadBlockHash P d2 (Block_Hash (ce_crypto X) b) = Inr d'" using d' by auto
    show ?thesis using header_WriteHeadBlockHash [OF d3] by blast
  next
    case False
    then have "d' = d2" using d' by (cases "WriteHeadBlockHash P d2 (Block_Hash (ce_crypto X) b)") auto
    then show ?thesis by simp
  qed
  show "ReadHeaderByHash P R d' = (ReadHeaderByHash P R d)(Block_Hash (ce_crypto X) b := Inr (b_Header b))"
    using same header_db_WriteBlock [OF d1 assms(4)] header_WriteCanonicalHash [OF d2] by simp
  show "last_height P d' = Some n" using same header_WriteCanonicalHash [OF d2] by simp
qed

end

lemma header_position:
  assumes "x \<in> set bs"
  shows "length (takeWhile (\<lambda>y. b_Header y \<noteq> b_Header x) bs) < length bs"
    "b_Header (bs ! length (takeWhile (\<lambda>y. b_Header y \<noteq> b_Header x) bs)) = b_Header x"
proof -
  have "\<exists>y \<in> set bs. \<not> b_Header y \<noteq> b_Header x" using assms by blast
  then show less: "length (takeWhile (\<lambda>y. b_Header y \<noteq> b_Header x) bs) < length bs"
    by (induction bs) auto
  show "b_Header (bs ! length (takeWhile (\<lambda>y. b_Header y \<noteq> b_Header x) bs)) = b_Header x"
    using nth_length_takeWhile [OF less] by simp
qed

text \<open>The codec of a store reads back the headers without nil pointers, as it does with the blocks.\<close>

locale header_store = chain_store +
  assumes decode_header: "plain_header h \<Longrightarrow> rlp_header R h = Some data \<Longrightarrow> unrlp_header R data = Some h"
begin

lemma plain_reads_header: "plain_block b \<Longrightarrow> reads_header R b"
  using decode_header by (auto simp: reads_header_def plain_block_def)

end

interpretation tdh: header_store map_pebble "table_codec bs" for bs
  by unfold_locales (auto simp: table_codec_def header_position split: if_splits)

section \<open>Restart\<close>

text \<open>The tip that both the head and the last height name, and that passes the check, is loaded as it is.\<close>

lemma load_tip_found:
  assumes "GetHeadBlockHash P d = Inr (Block_Hash C b)" "Block_Hash C b \<noteq> zero_hash" "ReadBlockByHash P R d (Block_Hash C b) = Inr (Some b)"
    and "last_height P d = Some n" "GetCanonicalHash P d n = Inr (Block_Hash C b)" "verifyTipContinuity P R d (Some b) = Inr ()"
  shows "load_tip S P R C d = (Inr (Some b), d)"
proof -
  have "load_head P R d = Inr (Some b)" using assms by (simp add: load_head_def)
  moreover have "validCanonicalBlockAt P R d n = Inr (Some b)" using assms by (simp add: validCanonicalBlockAt_def found_def)
  ultimately show ?thesis using assms(4) by (simp add: load_tip_def findValidChainTipFast_def)
qed

lemma verifyTipContinuity_ok:
  assumes "b_Header b = Some h" "blk_number b = Some (n + 1)" "ReadHeaderByHash P R d (h_ParentHash h) = Inr (Some ph)"
    and "header_height ph = Some n" "GetCanonicalHash P d n = Inr (h_ParentHash h)"
  shows "verifyTipContinuity P R d (Some b) = Inr ()"
  using assms by (simp add: verifyTipContinuity_def Let_def)

lemma table_reads_header [simp]: "reads_header (table_codec bs) b"
  by (auto simp: reads_header_def table_codec_def header_position split: if_splits)

text \<open>The header of the tip is stored under its hash.\<close>

definition tip_header_stored :: "('s, 'd) chain_env \<Rightarrow> ('s, 'd) blockchain \<Rightarrow> bool" where
  "tip_header_stored X bc \<longleftrightarrow>
     (case bc_latest bc of
        None \<Rightarrow> True
      | Some t \<Rightarrow> ReadHeaderByHash (ce_pebble X) (ce_rlp X) (bc_db bc) (Block_Hash (ce_crypto X) t) = Inr (b_Header t))"

lemma restart_after_acceptance:
  assumes store: "header_store (ce_pebble X) (ce_rlp X)" and ok: "chain_ok X bc" "\<not> bc_syncing bc" "tip_header_stored X bc"
    and tip: "bc_latest bc = Some t" and plain: "plain_block b" and new: "Block_Hash (ce_crypto X) b \<noteq> Block_Hash (ce_crypto X) t" "no_collision X (bc_db bc) b"
      "Block_Hash (ce_crypto X) b \<noteq> zero_hash"
    and add: "addBlockInternal X bc (Some b) = (Inr (), bc')" and head: "GetHeadBlockHash (ce_pebble X) (bc_db bc') = Inr (Block_Hash (ce_crypto X) b)"
  shows "load_tip S (ce_pebble X) (ce_rlp X) (ce_crypto X) (bc_db bc') = (Inr (Some b), bc_db bc')
    \<and> tip_header_stored X bc'"
proof -
  let ?P = "ce_pebble X" and ?R = "ce_rlp X" and ?C = "ce_crypto X" and ?n = "bc_height bc"
  have chain: "chain_store ?P ?R" using store by (simp add: header_store_def)
  obtain h d where h: "b_Header b = Some h" "blk_number b = Some (?n + 1)" "h_ParentHash h = Block_Hash ?C t"
    and w: "write_tip X (bc_db bc) b (?n + 1) True = (Inr (), d)" and bc': "bc_db bc' = d" "bc_latest bc' = Some b"
    using addBlockInternal_accepts [OF chain ok(1,2) tip plain add new(1)] by auto
  have P: "pebble_store ?P" using chain by (simp add: chain_store_def)
  note header = pebble_store.header_write_tip [OF P refl refl w header_store.plain_reads_header [OF store plain]]
    and upd = write_tip_ok [OF w chain plain]
  obtain ph where ph: "b_Header t = Some ph" "header_height ph = Some ?n"
    using ok(1) tip by (auto simp: chain_ok_def canonical_at_def blk_number_def bind_eq_Some_conv)
  have "?n + 1 \<noteq> ?n" by simp
  then have canon: "GetCanonicalHash ?P d ?n = Inr (Block_Hash ?C t)" "GetCanonicalHash ?P d (?n + 1) = Inr (Block_Hash ?C b)"
    using upd ok(1) tip by (simp_all add: view_def chain_ok_def canonical_at_def)
  have "ReadHeaderByHash ?P ?R d (h_ParentHash h) = Inr (Some ph)"
    using header(1) h(3) ok(3) tip ph new(1) by (simp add: tip_header_stored_def)
  then have "verifyTipContinuity ?P ?R d (Some b) = Inr ()"
    using verifyTipContinuity_ok [OF h(1,2) _ ph(2)] canon(1) h(3) by simp
  moreover have "ReadBlockByHash ?P ?R d (Block_Hash ?C b) = Inr (Some b)" using upd by (simp add: view_def)
  ultimately have "load_tip S ?P ?R ?C d = (Inr (Some b), d)"
    using load_tip_found [OF _ new(3) _ header(2) canon(2)] head bc'(1) by simp
  then show ?thesis using bc' header(1) by (simp add: tip_header_stored_def)
qed

text \<open>The blocks of the files end up in the store, the highest one as the head.\<close>

lemma migrate_loop_stored:
  assumes P: "pebble_store P" and "migrate_loop P R C d files m highest = (Some (k, best), d')"
    and "\<And>x y. Some x \<in> set files \<or> highest = Some x \<Longrightarrow> Some y \<in> set files \<or> highest = Some y \<Longrightarrow> Block_Hash C x = Block_Hash C y \<Longrightarrow> x = y"
    and "\<And>x. highest = Some x \<Longrightarrow> ReadBlockByHash P R d (Block_Hash C x) = Inr (Some x)"
    and "m > 0 \<Longrightarrow> highest \<noteq> None" and "\<And>x. Some x \<in> set files \<Longrightarrow> reads_back R x"
  shows "(k > 0 \<longrightarrow> best \<noteq> None) \<and> (\<forall>b. best = Some b \<longrightarrow> (Some b \<in> set files \<or> highest = Some b)
    \<and> ReadBlockByHash P R d' (Block_Hash C b) = Inr (Some b))"
  using assms(2-)
proof (induction files arbitrary: d m highest)
  case Nil
  then show ?case by auto
next
  case (Cons f files)
  have later: "x = y" if "Some x \<in> set files \<or> highest = Some x" "Some y \<in> set files \<or> highest = Some y" "Block_Hash C x = Block_Hash C y" for x y
    by (rule Cons.prems(2)) (use that in auto)
  have keep: "(k > 0 \<longrightarrow> best \<noteq> None) \<and> (\<forall>x. best = Some x \<longrightarrow> (Some x \<in> set files \<or> highest = Some x)
      \<and> ReadBlockByHash P R d' (Block_Hash C x) = Inr (Some x))"
    if "migrate_loop P R C e files m highest = (Some (k, best), d')"
      "\<And>x. highest = Some x \<Longrightarrow> ReadBlockByHash P R e (Block_Hash C x) = Inr (Some x)" for e
    by (rule Cons.IH [OF that(1)]) (erule (2) later, erule that(2), erule Cons.prems(4), rule Cons.prems(5), simp)
  show ?case
  proof (cases f)
    case None
    then have loop: "migrate_loop P R C d files m highest = (Some (k, best), d')" using Cons.prems(1) by simp
    have "(k > 0 \<longrightarrow> best \<noteq> None) \<and> (\<forall>x. best = Some x \<longrightarrow> (Some x \<in> set files \<or> highest = Some x)
        \<and> ReadBlockByHash P R d' (Block_Hash C x) = Inr (Some x))" by (rule keep [OF loop Cons.prems(3)])
    then show ?thesis by auto
  next
    case (Some b)
    show ?thesis
    proof (cases "db_WriteBlock P R C d b")
      case (Inl e)
      then have loop: "migrate_loop P R C d files m highest = (Some (k, best), d')" using Cons.prems(1) Some by (simp split: if_splits)
      have "(k > 0 \<longrightarrow> best \<noteq> None) \<and> (\<forall>x. best = Some x \<longrightarrow> (Some x \<in> set files \<or> highest = Some x)
          \<and> ReadBlockByHash P R d' (Block_Hash C x) = Inr (Some x))" by (rule keep [OF loop Cons.prems(3)])
      then show ?thesis by auto
    next
      case d1: (Inr d1)
      have read1: "ReadBlockByHash P R d1 = (ReadBlockByHash P R d)(Block_Hash C b := Inr (Some b))"
        using pebble_store.view_db_WriteBlock [OF P d1] Cons.prems(5) Some by (simp add: view_def)
      have old: "ReadBlockByHash P R d1 (Block_Hash C x) = Inr (Some x)" if hx: "highest = Some x" for x
      proof (cases "Block_Hash C x = Block_Hash C b")
        case True
        have "x = b" by (rule Cons.prems(2) [OF _ _ True]) (simp_all add: hx Some)
        then show ?thesis by (simp add: read1)
      next
        case False
        then show ?thesis using Cons.prems(3) [OF hx] by (simp add: read1)
      qed
      show ?thesis
      proof (cases "WriteCanonicalHash P d1 (fork_height b) (Block_Hash C b)")
        case (Inl e)
        then have loop: "migrate_loop P R C d1 files m highest = (Some (k, best), d')" using Cons.prems(1) Some d1 by simp
        have "(k > 0 \<longrightarrow> best \<noteq> None) \<and> (\<forall>x. best = Some x \<longrightarrow> (Some x \<in> set files \<or> highest = Some x)
            \<and> ReadBlockByHash P R d' (Block_Hash C x) = Inr (Some x))" by (rule keep [OF loop old])
        then show ?thesis by auto
      next
        case d2: (Inr d2)
        have read2: "ReadBlockByHash P R d2 = ReadBlockByHash P R d1"
          using pebble_store.view_WriteCanonicalHash [OF P d2, of R] by (simp add: view_def)
        define best1 where "best1 = (case highest of None \<Rightarrow> Some b | Some hb \<Rightarrow> if fork_height b > fork_height hb then Some b else highest)"
        have best1: "best1 = Some b \<or> best1 = highest \<and> highest \<noteq> None" by (auto simp: best1_def split: option.splits)
        have loop: "migrate_loop P R C d2 files (m + 1) best1 = (Some (k, best), d')"
          using Cons.prems(1) Some d1 d2 by (simp add: best1_def)
        have "(k > 0 \<longrightarrow> best \<noteq> None) \<and> (\<forall>x. best = Some x \<longrightarrow> (Some x \<in> set files \<or> best1 = Some x)
            \<and> ReadBlockByHash P R d' (Block_Hash C x) = Inr (Some x))"
        proof (rule Cons.IH [OF loop])
          show "x = y" if "Some x \<in> set files \<or> best1 = Some x" "Some y \<in> set files \<or> best1 = Some y" "Block_Hash C x = Block_Hash C y" for x y
            by (rule Cons.prems(2) [OF _ _ that(3)]) (use that(1,2) best1 Some in auto)
          show "ReadBlockByHash P R d2 (Block_Hash C x) = Inr (Some x)" if "best1 = Some x" for x
          proof (cases "x = b")
            case True
            then show ?thesis by (simp add: read1 read2)
          next
            case False
            then have "highest = Some x" using best1 that by auto
            then show ?thesis unfolding read2 by (rule old)
          qed
          show "best1 \<noteq> None" using best1 by auto
          show "reads_back R x" if "Some x \<in> set files" for x by (rule Cons.prems(5)) (simp add: that)
        qed
        then show ?thesis using best1 Some by auto
      qed
    qed
  qed
qed

text \<open>What a reversal leaves as the tip is a block of a lower height, or nothing.\<close>

lemma reverted_tip:
  assumes "revertToHeight X locked bc height = (Inr u, bc')" "height < bc_height bc" "chain_ok X bc" "bc_latest bc = Some t"
    and "bc_latest bc' = Some t'"
  shows "blk_number t' = Some height"
proof (rule revertToHeight_cases [OF assms(1)])
  assume "height = bc_height bc"
  then show ?thesis using assms(2) by simp
next
  fix n assume tip: "set_tip X (bc\<lparr>bc_node := n\<rparr>) height = (Inr (), bc')"
  obtain p where p: "canonical_at (ce_crypto X) (bc_view X (bc_db bc)) height p"
    using assms(2-4) by (auto simp: chain_ok_def linked_to_def)
  show ?thesis
    using tip p assms(5) by (auto simp: set_tip_def canonical_at_def view_def split: sum.splits if_splits)
qed

section \<open>Witnesses\<close>

context pebble_store
begin

lemma header_write_canonical_block:
  assumes "write_canonical_block P R C d b n = Inr d'" "reads_header R b"
  shows "ReadHeaderByHash P R d' = (ReadHeaderByHash P R d)(Block_Hash C b := Inr (b_Header b))" "last_height P d' = Some n"
proof -
  obtain h k data hd where b: "b_Header b = Some h" "rlp_header R h = Some hd"
      "pb_commit P d ([Put_Op (BlockByHashKey (Block_Hash C b)) data, Put_Op (HeaderByNumberKey k) hd,
         Put_Op (HeaderByHashKey (Block_Hash C b)) hd] @ canonical_entries (Block_Hash C b) n) = Some d'"
    using assms(1) by (auto simp: write_canonical_block_def block_entries_def commit_Inr split: sum.splits option.splits)
  show "ReadHeaderByHash P R d' = (ReadHeaderByHash P R d)(Block_Hash C b := Inr (b_Header b))"
    using assms(2) b(1,2) by (auto simp: reads_header_def fun_eq_iff read_header_commit [OF b(3)] canonical_entries_def)
  show "last_height P d' = Some n"
    by (simp add: last_height_commit [OF b(3)] canonical_entries_def bytes_word_word_bytes)
qed

end

text \<open>The databases of one and of two blocks.\<close>

lemma wc_headers:
  obtains d where "view map_pebble (table_codec [wc_genesis, wc_block]) d = wc_view" "chain_ok wc_env (wc_chain d)"
    "no_collision wc_env d wc_block" "tip_header_stored wc_env (wc_chain d)"
proof -
  let ?R = "table_codec [wc_genesis, wc_block]"
  obtain d where d: "write_canonical_block map_pebble ?R wc_crypto Map.empty wc_genesis 0 = Inr d" "view map_pebble ?R d = wc_view"
    by (rule wc_db)
  have "vw_block (view map_pebble ?R d) = vw_block wc_view" by (simp add: d(2))
  then have "no_collision wc_env d wc_block" by (simp add: no_collision_def view_def wc_view_def)
  moreover have "chain_ok wc_env (wc_chain d)"
    by (simp add: chain_ok_def store_ok_view d(2) canonical_at_def linked_to_def) (simp add: wc_view_def)
  moreover have "tip_header_stored wc_env (wc_chain d)"
    by (simp add: tip_header_stored_def tdb.header_write_canonical_block(1) [OF d(1)])
  ultimately show thesis using that d(2) by blast
qed

lemma wc_restart2:
  obtains d where "view map_pebble (table_codec [wc_genesis, wc_block]) d = wc_view2"
    "load_tip S map_pebble (table_codec [wc_genesis, wc_block]) wc_crypto d = (Inr (Some wc_block), d)"
proof -
  let ?R = "table_codec [wc_genesis, wc_block]"
  obtain d where d: "write_canonical_block map_pebble ?R wc_crypto Map.empty wc_genesis 0 = Inr d" "view map_pebble ?R d = wc_view"
    by (rule wc_db)
  obtain d' where d': "write_canonical_block map_pebble ?R wc_crypto d wc_block 1 = Inr d'"
    by (simp add: write_canonical_block_def block_entries_def table_codec_def commit_def map_pebble_def wc_sel)
  have v: "view map_pebble ?R d' = wc_view2"
    by (simp add: tdb.view_write_canonical_block [OF d'] d(2) wc_view_def wc_view2_def)
  have head: "GetHeadBlockHash map_pebble d' = Inr 697" using arg_cong [OF v, of vw_head] by (simp add: view_def wc_view2_def)
  have hdr: "ReadHeaderByHash map_pebble ?R d' 696 = Inr (b_Header wc_genesis)"
    by (simp add: tdb.header_write_canonical_block(1) [OF d'] tdb.header_write_canonical_block(1) [OF d(1)])
  have "verifyTipContinuity map_pebble ?R d' (Some wc_block) = Inr ()"
    using verifyTipContinuity_ok [of wc_block wc_header 0 map_pebble ?R d' "sample_header\<lparr>h_Difficulty := None\<rparr>"] hdr
    by (simp add: wc_sel wc_reads2 [OF v] header_height_def big_uint64_def)
  then have "load_tip S map_pebble ?R wc_crypto d' = (Inr (Some wc_block), d')"
    using load_tip_found [of map_pebble d' wc_crypto wc_block ?R 1 S] head tdb.header_write_canonical_block(2) [OF d']
    by (simp add: wc_reads2 [OF v] zero_hash_def)
  then show thesis using that v by blast
qed

section \<open>Properties\<close>

text \<open>
  C10: a node that is not synchronising, with a sound chain and the header of its tip in the store, accepts a
  new block (without nil pointers, with a hash that no
  other stored block has, and not the zero hash), and the head pointer is written, whose failure the
  node ignores. Then a restart on that database finds the block again: the head, the last height and the
  check of its parent agree on it, the search changes nothing in the database, and the start with no
  legacy block files comes up with this tip and leaves the state and the database as they are. The
  header of the new tip is stored, too, so that the same holds after the next block. Starts with legacy
  files and the repair of pointers are not covered.
\<close>

theorem restart_finds_the_accepted_block:
  assumes "header_store (ce_pebble X) (ce_rlp X)" "chain_ok X bc" "\<not> bc_syncing bc" "tip_header_stored X bc" "bc_latest bc = Some t" "plain_block b"
    and "Block_Hash (ce_crypto X) b \<noteq> Block_Hash (ce_crypto X) t" "no_collision X (bc_db bc) b" "Block_Hash (ce_crypto X) b \<noteq> zero_hash"
    and "addBlockInternal X bc (Some b) = (Inr (), bc')" "GetHeadBlockHash (ce_pebble X) (bc_db bc') = Inr (Block_Hash (ce_crypto X) b)"
  shows "load_tip S (ce_pebble X) (ce_rlp X) (ce_crypto X) (bc_db bc') = (Inr (Some b), bc_db bc') \<and> tip_header_stored X bc'
    \<and> open_chain X S now difficulty persisted stored [] s (bc_db bc') = (Inr b, s, bc_db bc')"
  using restart_after_acceptance [OF assms, of S]
  by (simp add: open_chain_def Let_def reload_after_migration_def migrateLegacyJSONBlocksToDB_def)

theorem restart_finds_the_accepted_block_witness:
  "\<exists>bc bc'. addBlockInternal wc_env bc (Some wc_block) = (Inr (), bc')
    \<and> load_tip (\<lambda>_ _. None) map_pebble (table_codec [wc_genesis, wc_block]) wc_crypto (bc_db bc') = (Inr (Some wc_block), bc_db bc')
    \<and> fst (open_chain wc_env (\<lambda>_ _. None) 0 (\<lambda>_ _ _ _. 0) True [] [] DAList.empty (bc_db bc')) = Inr wc_block"
proof -
  obtain d where d: "view map_pebble (table_codec [wc_genesis, wc_block]) d = wc_view" "chain_ok wc_env (wc_chain d)"
      "no_collision wc_env d wc_block" "tip_header_stored wc_env (wc_chain d)"
    by (rule wc_headers)
  obtain bc' where bc': "addBlockInternal wc_env (wc_chain d) (Some wc_block) = (Inr (), bc')" using wc_added [OF d(1)] by blast
  obtain d' where d': "write_tip wc_env d wc_block 1 True = (Inr (), d')" "bc_db bc' = d'"
    using addBlockInternal_accepts [OF wc_store d(2) _ _ wc_plain bc', of wc_genesis] by auto
  obtain d1 d2 where "WriteHeadBlockHash map_pebble d2 697 = Inr d1" "d1 = d'"
    using d'(1) by (auto simp: write_tip_def Let_def WriteHeadBlockHash_def pb_set_def map_pebble_def split: sum.splits)
  then have "GetHeadBlockHash map_pebble d' = Inr 697"
    using arg_cong [OF tdb.view_WriteHeadBlockHash [of d2 697 d1], of vw_head] by (simp add: view_def)
  then show ?thesis
    using restart_finds_the_accepted_block [OF _ d(2) _ d(4) _ wc_plain _ _ _ bc', of wc_genesis "\<lambda>_ _. None" 0 "\<lambda>_ _ _ _. 0" True "[]" DAList.empty] tdh.header_store_axioms d(3) d'(2) bc'
    by (intro exI [of _ "wc_chain d"] exI [of _ bc']) (auto simp: zero_hash_def)
qed

text \<open>
  A reversal does not survive a restart, but what it did to the state does: the node comes up with the
  reverted tip, on top of the state of the lower height.
\<close>

theorem restart_undoes_a_reversal:
  assumes "revertToHeight X locked bc height = (Inr u, bc')" "height < bc_height bc" "chain_ok X bc" "bc_latest bc = Some t"
    and "load_tip S (ce_pebble X) (ce_rlp X) (ce_crypto X) (bc_db bc) = (Inr (Some t), bc_db bc)"
  shows "bc_height bc' = height \<and> bc_latest bc' \<noteq> Some t
    \<and> open_chain X S now difficulty persisted stored [] (nd_state (bc_node bc')) (bc_db bc')
      = (Inr t, nd_state (bc_node bc'), bc_db bc')
    \<and> bc_height (start_node (nd_state (bc_node bc')) (bc_db bc') kings pool t) = bc_height bc"
proof -
  have number: "blk_number t = Some (bc_height bc)" using assms(3,4) by (simp add: chain_ok_def canonical_at_def)
  have "bc_latest bc' \<noteq> Some t" using reverted_tip [OF assms(1-4), of t] number assms(2) by auto
  moreover have "open_chain X S now difficulty persisted stored [] s (bc_db bc) = (Inr t, s, bc_db bc)" for s
    by (simp add: open_chain_def Let_def assms(5) reload_after_migration_def migrateLegacyJSONBlocksToDB_def)
  ultimately show ?thesis
    using revertToHeight_ok [OF assms(1)] number by (simp add: start_node_def fork_height_def)
qed

theorem restart_undoes_a_reversal_witness:
  "\<exists>bc bc'. bc_height bc = 1 \<and> revertToHeight wc_env False bc 0 = (Inr (), bc') \<and> bc_latest bc' = None
    \<and> fst (open_chain wc_env (\<lambda>_ _. None) 0 (\<lambda>_ _ _ _. 0) True [] [] (nd_state (bc_node bc')) (bc_db bc')) = Inr wc_block"
proof -
  obtain d where d: "view map_pebble (table_codec [wc_genesis, wc_block]) d = wc_view2"
      "load_tip (\<lambda>_ _. None) map_pebble (table_codec [wc_genesis, wc_block]) wc_crypto d = (Inr (Some wc_block), d)"
    by (rule wc_restart2)
  obtain c where "adapter_DisconnectBlock wc_env (wc_chain2 d) 1 = (True, c)" using wc_reverted [OF d(1)] by blast
  then have c: "revertToHeight wc_env False (wc_chain2 d) 0 = (Inr (), c)"
    by (auto simp: adapter_DisconnectBlock_def split: prod.splits)
  have sel: "bc_height (wc_chain2 d) = 1" "bc_latest (wc_chain2 d) = Some wc_block" "bc_db (wc_chain2 d) = d"
    by (simp_all add: wc_chain2_def)
  show ?thesis
    using restart_undoes_a_reversal [OF c _ wc_chain2_ok [OF d(1)] sel(2), where S = "\<lambda>_ _. None" and now = 0
        and difficulty = "\<lambda>_ _ _ _. 0" and persisted = True and stored = "[]" and kings = None and pool = None] d(2)
      revertToHeight_ok(4) [OF c] c sel
    by (intro exI [of _ "wc_chain2 d"] exI [of _ c]) simp
qed

text \<open>
  As long as the files of legacy blocks exist, every start makes the best of them the tip again,
  however long the chain has become.
\<close>

theorem legacy_files_replace_the_tip:
  assumes "pebble_store (ce_pebble X)"
    and "load_tip S (ce_pebble X) (ce_rlp X) (ce_crypto X) d = (Inr (Some t), d1)"
    and "migrateLegacyJSONBlocksToDB (ce_pebble X) (ce_rlp X) (ce_crypto X) d1 legacy = (Inr k, d2)" "k > 0"
    and "inj_on (Block_Hash (ce_crypto X)) {b. Some b \<in> set legacy}" "zero_hash \<notin> Block_Hash (ce_crypto X) ` {b. Some b \<in> set legacy}" "\<And>b. Some b \<in> set legacy \<Longrightarrow> reads_back (ce_rlp X) b"
  shows "\<exists>b. Some b \<in> set legacy \<and> open_chain X S now difficulty persisted stored legacy s d = (Inr b, s, d2)"
proof -
  let ?P = "ce_pebble X" and ?R = "ce_rlp X" and ?C = "ce_crypto X"
  note P = assms(1)
  obtain best d3 where loop: "migrate_loop ?P ?R ?C d1 legacy 0 None = (Some (k, best), d3)"
    using assms(3) by (auto simp: migrateLegacyJSONBlocksToDB_def split: prod.splits option.splits sum.splits)
  have "(k > 0 \<longrightarrow> best \<noteq> None) \<and> (\<forall>b. best = Some b \<longrightarrow> (Some b \<in> set legacy \<or> None = Some b)
      \<and> ReadBlockByHash ?P ?R d3 (Block_Hash ?C b) = Inr (Some b))"
    by (rule migrate_loop_stored [OF assms(1) loop]) (use assms(5,7) in \<open>auto simp: inj_on_def\<close>)
  then obtain b where b: "best = Some b" "Some b \<in> set legacy" "ReadBlockByHash ?P ?R d3 (Block_Hash ?C b) = Inr (Some b)"
    using assms(4) by auto
  obtain d4 where d4: "WriteCanonicalHash ?P d3 (fork_height b) (Block_Hash ?C b) = Inr d4"
    and head: "WriteHeadBlockHash ?P d4 (Block_Hash ?C b) = Inr d2"
    using assms(3) loop b(1) by (auto simp: migrateLegacyJSONBlocksToDB_def split: sum.splits)
  have "GetHeadBlockHash ?P d2 = Inr (Block_Hash ?C b)" "ReadBlockByHash ?P ?R d2 = ReadBlockByHash ?P ?R d3"
    using pebble_store.view_WriteHeadBlockHash [OF P head, of ?R] pebble_store.view_WriteCanonicalHash [OF P d4, of ?R]
    by (simp_all add: view_def)
  moreover have "Block_Hash ?C b \<noteq> zero_hash" using b(2) assms(6) by (metis imageI mem_Collect_eq)
  ultimately have "reload_after_migration ?P ?R ?C d1 legacy t = (Inr b, d2)"
    using assms(3,4) b(3) by (simp add: reload_after_migration_def found_def)
  then show ?thesis using b(2) assms(2) by (intro exI [of _ b]) (simp add: open_chain_def Let_def)
qed

theorem legacy_files_replace_the_tip_witness:
  "\<exists>d d2. load_tip (\<lambda>_ _. None) map_pebble (table_codec [wc_genesis, wc_block]) wc_crypto d = (Inr (Some wc_block), d)
    \<and> open_chain wc_env (\<lambda>_ _. None) 0 (\<lambda>_ _ _ _. 0) True [] [Some wc_genesis] DAList.empty d = (Inr wc_genesis, DAList.empty, d2)"
proof -
  let ?R = "table_codec [wc_genesis, wc_block]"
  obtain d where d: "load_tip (\<lambda>_ _. None) map_pebble ?R wc_crypto d = (Inr (Some wc_block), d)"
    by (rule wc_restart2)
  obtain d2 where "migrateLegacyJSONBlocksToDB map_pebble ?R wc_crypto d [Some wc_genesis] = (Inr 1, d2)"
    by (simp add: migrateLegacyJSONBlocksToDB_def db_WriteBlock_def block_entries_def table_codec_def commit_def map_pebble_def
        wc_sel WriteCanonicalHash_def WriteHeadBlockHash_def pb_set_def)
  then show ?thesis
    using legacy_files_replace_the_tip [of wc_env "\<lambda>_ _. None" d wc_block d "[Some wc_genesis]" 1 d2 0 "\<lambda>_ _ _ _. 0" True "[]" DAList.empty] wc_store d
    by (auto simp: zero_hash_def chain_store_def)
qed

end
