(* ===== verification/Checkpoint_Keys.thy ===== *)
theory Checkpoint_Keys
  imports Common_Types Hex_Util
begin

text \<open>
  The signatures of \<open>antdc/checkpoints/checkpoints.go\<close>: checkpoints, the message that is signed,
  the keys, signing and verification, and the Base64 text (\<open>encoding/base64\<close>) signatures are kept in.

  RSA, ECDSA and Ed25519, the PEM, PKCS and SSH formats and SHA-256 are the record \<open>key_lib\<close>, an
  argument of the definitions that call them; \<open>'p\<close> is a private key and \<open>'k\<close> a public one. Its
  fields stand for calls, and \<open>None\<close> is a returned error. The locale \<open>signature_scheme\<close> states what is
  relied upon, and is interpreted on a scheme of its own.
\<close>

section \<open>Base64 text\<close>

definition b64_char :: "nat \<Rightarrow> char" where
  "b64_char d =
     char_of (if d < 26 then 65 + d else if d < 52 then 71 + d else if d < 62 then d - 4
              else if d = 62 then 43 else 47)"

definition b64_val :: "char \<Rightarrow> nat option" where
  "b64_val c =
     (let n = of_char c in
      if 65 \<le> n \<and> n \<le> 90 then Some (n - 65) else if 97 \<le> n \<and> n \<le> 122 then Some (n - 71)
      else if 48 \<le> n \<and> n \<le> 57 then Some (n + 4) else if n = 43 then Some 62
      else if n = 47 then Some 63 else None)"

definition b64_group :: "nat \<Rightarrow> string" where
  "b64_group n = map b64_char [n div 262144, n div 4096 mod 64, n div 64 mod 64, n mod 64]"

fun b64_encode :: "bytes \<Rightarrow> string" where
  "b64_encode [] = []"
| "b64_encode [a] = take 2 (b64_group (unat a * 65536)) @ ''==''"
| "b64_encode [a, b] = take 3 (b64_group (unat a * 65536 + unat b * 256)) @ ''=''"
| "b64_encode (a # b # c # bs) = b64_group (unat a * 65536 + unat b * 256 + unat c) @ b64_encode bs"

fun b64_groups :: "string \<Rightarrow> bytes option" where
  "b64_groups [] = Some []"
| "b64_groups (x # y # z # w # cs) =
     (case (b64_val x, b64_val y) of
        (Some a, Some b) \<Rightarrow>
          if z = CHR ''='' then
            (if w = CHR ''='' \<and> cs = [] then Some (take 1 (be_bytes 3 (a * 262144 + b * 4096))) else None)
          else (case b64_val z of
                  None \<Rightarrow> None
                | Some c \<Rightarrow>
                    if w = CHR ''='' then
                      (if cs = [] then Some (take 2 (be_bytes 3 (a * 262144 + b * 4096 + c * 64))) else None)
                    else (case (b64_val w, b64_groups cs) of
                            (Some d, Some bs) \<Rightarrow> Some (be_bytes 3 (a * 262144 + b * 4096 + c * 64 + d) @ bs)
                          | _ \<Rightarrow> None))
      | _ \<Rightarrow> None)"
| "b64_groups _ = None"

text \<open>The decoder skips line ends.\<close>

definition b64_decode :: "string \<Rightarrow> bytes option" where
  "b64_decode s = b64_groups (filter (\<lambda>c. c \<noteq> CHR 0x0A \<and> c \<noteq> CHR 0x0D) s)"

lemma b64_val_char [simp]: "d < 64 \<Longrightarrow> b64_val (b64_char d) = Some d"
  by (auto simp: b64_val_def b64_char_def Let_def of_char_of)

lemma b64_char_plain [simp]:
  assumes "d < 64"
  shows "b64_char d \<noteq> CHR ''=''" and "b64_char d \<noteq> CHR 0x0A" and "b64_char d \<noteq> CHR 0x0D"
proof -
  have "b64_val (CHR ''='') = None" "b64_val (CHR 0x0A) = None" "b64_val (CHR 0x0D) = None"
    by (simp_all add: b64_val_def Let_def)
  then show "b64_char d \<noteq> CHR ''=''" and "b64_char d \<noteq> CHR 0x0A" and "b64_char d \<noteq> CHR 0x0D"
    using b64_val_char [OF assms] by force+
qed

lemma base_64: "q2 = q3 * 64 + r2 \<Longrightarrow> q1 = q2 * 64 + r1 \<Longrightarrow> n = q1 * 64 + r0 \<Longrightarrow>
    q3 * 262144 + r2 * 4096 + r1 * 64 + r0 = (n :: nat)"
  by simp

lemma b64_digits:
  fixes n :: nat
  shows "n div 262144 * 262144 + n div 4096 mod 64 * 4096 + n div 64 mod 64 * 64 + n mod 64 = n"
proof -
  have "n div 4096 = n div 64 div 64" and "n div 262144 = n div 64 div 64 div 64"
    by (simp_all flip: div_mult2_eq)
  then show ?thesis by (simp only:) (rule base_64 [OF div_mult_mod_eq [symmetric]
        div_mult_mod_eq [symmetric] div_mult_mod_eq [symmetric]])
qed

lemma be_bytes_3: "be_bytes 3 (unat (a :: u8) * 65536 + unat (b :: u8) * 256 + unat (c :: u8)) = [a, b, c]"
proof -
  have "be_value [a, b, c] = unat a * 65536 + unat b * 256 + unat c"
    using be_value_append [of "[a, b]" "[c]"] be_value_append [of "[a]" "[b]"]
    by (simp add: be_value_def)
  moreover have "be_bytes (length [a, b, c]) (be_value [a, b, c]) = [a, b, c]"
    by (rule be_bytes_be_value)
  ultimately show ?thesis by (simp only: list.size numeral_3_eq_3 add_0_right add_Suc_right)
qed

lemma b64_group_digits:
  assumes "n < 16777216"
  shows "n div 262144 < 64 \<and> n div 4096 mod 64 < 64 \<and> n div 64 mod 64 < 64 \<and> n mod 64 < (64::nat)"
  using assms by simp

lemma byte_sums:
  fixes a b c :: u8
  shows "unat a * 65536 + unat b * 256 + unat c < 16777216"
    and "unat a * 65536 + unat b * 256 < 16777216" and "unat a * 65536 < 16777216"
proof -
  have "unat w < 256" for w :: u8 using unsigned_less [of w] by simp
  from this [of a] this [of b] this [of c]
  show "unat a * 65536 + unat b * 256 + unat c < 16777216"
    and "unat a * 65536 + unat b * 256 < 16777216" and "unat a * 65536 < 16777216"
    by simp_all
qed

lemma low_digits_zero:
  fixes m k :: nat
  shows "m * 65536 mod 64 = 0" and "m * 65536 div 64 mod 64 = 0" and "(m * 65536 + k * 256) mod 64 = 0"
proof -
  have "m * 65536 = m * 16 * 64 * 64" and "m * 65536 + k * 256 = (m * 1024 + k * 4) * 64" by simp_all
  then show "m * 65536 mod 64 = 0" and "m * 65536 div 64 mod 64 = 0"
    and "(m * 65536 + k * 256) mod 64 = 0"
    by simp_all
qed

lemma b64_groups_encode: "b64_groups (b64_encode bs) = Some bs"
proof (induction bs rule: b64_encode.induct)
  case (2 a)
  let ?n = "unat a * 65536"
  from low_digits_zero [of "unat a"] b64_group_digits [OF byte_sums(3) [of a]] b64_digits [of ?n] be_bytes_3 [of a 0 0] show ?case
    by (simp add: b64_group_def)
next
  case (3 a b)
  let ?n = "unat a * 65536 + unat b * 256"
  from low_digits_zero(3) [of "unat a" "unat b"] b64_group_digits [OF byte_sums(2) [of a b]] b64_digits [of ?n] be_bytes_3 [of a b 0] show ?case
    by (simp add: b64_group_def)
next
  case (4 a b c bs)
  let ?n = "unat a * 65536 + unat b * 256 + unat c"
  from 4 b64_group_digits [OF byte_sums(1) [of a b c]] b64_digits [of ?n] be_bytes_3 [of a b c] show ?case
    by (simp add: b64_group_def)
qed simp

lemma b64_encode_plain: "c \<in> set (b64_encode bs) \<Longrightarrow> c \<noteq> CHR 0x0A \<and> c \<noteq> CHR 0x0D"
proof (induction bs rule: b64_encode.induct)
  case (2 a) with b64_group_digits [OF byte_sums(3) [of a]] show ?case by (auto simp: b64_group_def)
next
  case (3 a b) with b64_group_digits [OF byte_sums(2) [of a b]] show ?case by (auto simp: b64_group_def)
next
  case (4 a b c bs) with b64_group_digits [OF byte_sums(1) [of a b c]] show ?case by (auto simp: b64_group_def)
qed simp

lemma b64_roundtrip [simp, codec]: "b64_decode (b64_encode bs) = Some bs"
proof -
  have "filter (\<lambda>c. c \<noteq> CHR 0x0A \<and> c \<noteq> CHR 0x0D) (b64_encode bs) = b64_encode bs"
    by (rule filter_True) (use b64_encode_plain in blast)
  then show ?thesis by (simp add: b64_decode_def b64_groups_encode)
qed

section \<open>Data\<close>

text \<open>Times are in nanoseconds; \<open>Verifications\<close> is a signed 64-bit integer.\<close>

record signature =
  sg_Authority :: string
  sg_Algorithm :: string
  sg_Signature :: string
  sg_PublicKey :: string
  sg_Timestamp :: int
  sg_Fingerprint :: string

record checkpoint =
  cpt_Height :: u64
  cpt_Hash :: hash
  cpt_ParentHash :: hash
  cpt_Miner :: address
  cpt_RotatingKing :: address
  cpt_Timestamp :: int
  cpt_TotalDiff :: "int option"
  cpt_GasUsed :: u64
  cpt_TxCount :: u64
  cpt_StateRoot :: hash
  cpt_TxRoot :: hash
  cpt_Signatures :: "signature list"
  cpt_Verifications :: u64
  cpt_Source :: string
  cpt_ChainID :: string
  cpt_IsGenesis :: bool

definition no_checkpoint :: checkpoint where
  "no_checkpoint =
     \<lparr>cpt_Height = 0, cpt_Hash = zero_hash, cpt_ParentHash = zero_hash, cpt_Miner = zero_address,
      cpt_RotatingKing = zero_address, cpt_Timestamp = 0, cpt_TotalDiff = None, cpt_GasUsed = 0,
      cpt_TxCount = 0, cpt_StateRoot = zero_hash, cpt_TxRoot = zero_hash, cpt_Signatures = [],
      cpt_Verifications = 0, cpt_Source = [], cpt_ChainID = [], cpt_IsGenesis = False\<rparr>"

section \<open>The signed message\<close>

fun join_bars :: "string list \<Rightarrow> string" where
  "join_bars [] = []"
| "join_bars [s] = s"
| "join_bars (s # t # ss) = s @ CHR ''|'' # join_bars (t # ss)"

definition createSignatureMessage :: "crypto \<Rightarrow> checkpoint \<Rightarrow> bytes" where
  "createSignatureMessage C cp = str_bytes (join_bars
     ([dec_nat (unat (cpt_Height cp)), EncodeHash (cpt_Hash cp), Address_String C (cpt_Miner cp),
       Address_String C (cpt_RotatingKing cp), dec_int (cpt_Timestamp cp div 1000000000), cpt_Source cp]
      @ (if cpt_ChainID cp \<noteq> [] then [cpt_ChainID cp] else [])
      @ (if cpt_IsGenesis cp then [''genesis''] else [])))"

section \<open>Keys\<close>

datatype key_kind = RSA_Kind | ECDSA_Kind | Ed25519_Kind | Other_Kind

record ('p, 'k) key_lib =
  kl_pem :: "string \<Rightarrow> (string \<times> bytes) option"
  kl_pem_encode :: "string \<Rightarrow> bytes \<Rightarrow> string"
  kl_pkcs1 :: "bytes \<Rightarrow> 'p option"
  kl_pkcs1_encode :: "'p \<Rightarrow> bytes"
  kl_ec :: "bytes \<Rightarrow> 'p option"
  kl_pkcs8 :: "bytes \<Rightarrow> 'p option option"
  kl_generate :: "nat \<Rightarrow> 'p option"
  kl_kind :: "'p \<Rightarrow> key_kind"
  kl_public :: "'p \<Rightarrow> 'k option"
  kl_parse :: "string \<Rightarrow> 'k option"
  kl_marshal :: "'k \<Rightarrow> string"
  kl_type :: "'k \<Rightarrow> string"
  kl_crypto :: "'k \<Rightarrow> key_kind"
  kl_fingerprint :: "'k \<Rightarrow> string"
  kl_sha256 :: "bytes \<Rightarrow> hash"
  kl_rsa_sign :: "'p \<Rightarrow> hash \<Rightarrow> bytes option"
  kl_ecdsa_sign :: "'p \<Rightarrow> hash \<Rightarrow> (nat \<times> nat) option"
  kl_rsa_verify :: "'k \<Rightarrow> hash \<Rightarrow> bytes \<Rightarrow> bool"
  kl_ecdsa_verify :: "'k \<Rightarrow> hash \<Rightarrow> nat \<Rightarrow> nat \<Rightarrow> bool"
  kl_ed25519_verify :: "'k \<Rightarrow> bytes \<Rightarrow> bytes \<Rightarrow> bool"

record ('p, 'k) key_pair =
  kp_PrivateKey :: 'p
  kp_PublicKey :: 'k
  kp_PublicStr :: string
  kp_Type :: string
  kp_Comment :: string

datatype key_error = Key_No_PEM | Key_Parse | Key_Not_Signer | Key_Unsupported | Key_Public

definition pair_of :: "('p, 'k) key_lib \<Rightarrow> 'p \<Rightarrow> 'k \<Rightarrow> string \<Rightarrow> ('p, 'k) key_pair" where
  "pair_of L p k comment =
     \<lparr>kp_PrivateKey = p, kp_PublicKey = k, kp_PublicStr = kl_marshal L k, kp_Type = kl_type L k,
      kp_Comment = comment\<rparr>"

definition ParseSSHPrivateKey :: "('p, 'k) key_lib \<Rightarrow> string \<Rightarrow> key_error + ('p, 'k) key_pair" where
  "ParseSSHPrivateKey L pemData =
     (case kl_pem L pemData of
        None \<Rightarrow> Inl Key_No_PEM
      | Some (kind, der) \<Rightarrow>
          (case (if kind = ''RSA PRIVATE KEY'' then map_option Some (kl_pkcs1 L der)
                 else if kind = ''EC PRIVATE KEY'' then map_option Some (kl_ec L der)
                 else if kind = ''PRIVATE KEY'' then kl_pkcs8 L der
                 else Some None) of
             None \<Rightarrow> Inl Key_Parse
           | Some None \<Rightarrow> Inl (if kind = ''PRIVATE KEY'' then Key_Not_Signer else Key_Unsupported)
           | Some (Some signer) \<Rightarrow>
               if kl_kind L signer = Other_Kind then Inl Key_Public
               else (case kl_public L signer of
                       None \<Rightarrow> Inl Key_Public
                     | Some pub \<Rightarrow> Inr (pair_of L signer pub ''antdchain-checkpoint-authority''))))"

definition ParseSSHPublicKey :: "('p, 'k) key_lib \<Rightarrow> string \<Rightarrow> 'k option" where
  "ParseSSHPublicKey L s = kl_parse L s"

section \<open>Signing and verifying\<close>

datatype sign_error = Sign_Unsupported | Sign_Failed | Sign_Panic

text \<open>
  \<open>r\<close> and \<open>s\<close> in a 64-byte buffer: a slice bound is negative when \<open>r\<close> has more than 32 bytes or \<open>s\<close>
  more than 64; a longer \<open>s\<close> overwrites \<open>r\<close>.
\<close>

definition ecdsa_padded :: "nat \<Rightarrow> nat \<Rightarrow> sign_error + bytes" where
  "ecdsa_padded r s =
     (let rBytes = nat_bytes r; sBytes = nat_bytes s in
      if length rBytes > 32 \<or> length sBytes > 64 then Inl Sign_Panic
      else Inr (take (64 - length sBytes) (LeftPadBytes rBytes 32 @ replicate 32 0) @ sBytes))"

text \<open>The error of \<open>ecdsa.Sign\<close> is assigned to a shadowed variable and lost.\<close>

definition sign_bytes :: "('p, 'k) key_lib \<Rightarrow> 'p \<Rightarrow> bytes \<Rightarrow> sign_error + bytes" where
  "sign_bytes L key message =
     (case kl_kind L key of
        RSA_Kind \<Rightarrow>
          (case kl_rsa_sign L key (kl_sha256 L message) of None \<Rightarrow> Inl Sign_Failed | Some b \<Rightarrow> Inr b)
      | ECDSA_Kind \<Rightarrow>
          (case kl_ecdsa_sign L key (kl_sha256 L message) of
             None \<Rightarrow> Inr [] | Some (r, s) \<Rightarrow> ecdsa_padded r s)
      | _ \<Rightarrow> Inl Sign_Unsupported)"

definition signCheckpoint ::
    "('p, 'k) key_lib \<Rightarrow> crypto \<Rightarrow> string \<Rightarrow> ('p, 'k) key_pair \<Rightarrow> int \<Rightarrow> checkpoint \<Rightarrow> sign_error + signature" where
  "signCheckpoint L C authority kp now cp =
     (case sign_bytes L (kp_PrivateKey kp) (createSignatureMessage C cp) of
        Inl e \<Rightarrow> Inl e
      | Inr b \<Rightarrow> Inr \<lparr>sg_Authority = authority, sg_Algorithm = kp_Type kp, sg_Signature = b64_encode b,
                     sg_PublicKey = kp_PublicStr kp, sg_Timestamp = now,
                     sg_Fingerprint = kl_fingerprint L (kp_PublicKey kp)\<rparr>)"

definition verify_bytes :: "('p, 'k) key_lib \<Rightarrow> 'k \<Rightarrow> bytes \<Rightarrow> bytes \<Rightarrow> bool" where
  "verify_bytes L key message sig =
     (let algo = kl_type L key in
      if algo = ''ssh-rsa'' then
        kl_crypto L key = RSA_Kind \<and> kl_rsa_verify L key (kl_sha256 L message) sig
      else if algo \<in> {''ecdsa-sha2-nistp256'', ''ecdsa-sha2-nistp384'', ''ecdsa-sha2-nistp521''} then
        kl_crypto L key = ECDSA_Kind \<and> length sig = 64
        \<and> kl_ecdsa_verify L key (kl_sha256 L message) (be_value (take 32 sig)) (be_value (drop 32 sig))
      else if algo = ''ssh-ed25519'' then
        kl_crypto L key = Ed25519_Kind \<and> kl_ed25519_verify L key message sig
      else False)"

definition verifySignature ::
    "('p, 'k) key_lib \<Rightarrow> crypto \<Rightarrow> string \<Rightarrow> (string \<rightharpoonup> 'k) \<Rightarrow> checkpoint \<Rightarrow> signature \<Rightarrow> bool" where
  "verifySignature L C authority trustedKeys cp sig =
     (case ParseSSHPublicKey L (sg_PublicKey sig) of
        None \<Rightarrow> False
      | Some pubKey \<Rightarrow>
          let fingerprint = kl_fingerprint L pubKey;
              isTrusted = (trustedKeys fingerprint \<noteq> None) in
          if sg_Fingerprint sig \<noteq> [] \<and> sg_Fingerprint sig \<noteq> fingerprint then False
          else if \<not> isTrusted \<and> sg_Authority sig \<noteq> authority then False
          else (case b64_decode (sg_Signature sig) of
                  None \<Rightarrow> False
                | Some sigBytes \<Rightarrow> verify_bytes L pubKey (createSignatureMessage C cp) sigBytes))"

definition verifyCheckpointSignatures ::
    "('p, 'k) key_lib \<Rightarrow> crypto \<Rightarrow> string \<Rightarrow> (string \<rightharpoonup> 'k) \<Rightarrow> checkpoint \<Rightarrow> nat" where
  "verifyCheckpointSignatures L C authority trustedKeys cp =
     length (filter (verifySignature L C authority trustedKeys cp) (cpt_Signatures cp))"

section \<open>What the message binds\<close>

lemma dec_nat_digits: "c \<in> set (dec_nat n) \<Longrightarrow> c \<noteq> CHR ''|''"
proof (induction n rule: dec_nat.induct)
  case (1 n)
  have digit: "(char_of (48 + d) :: char) \<noteq> CHR ''|''" if "d < 10" for d :: nat
  proof
    assume "(char_of (48 + d) :: char) = CHR ''|''"
    then have "of_char (char_of (48 + d) :: char) = (of_char (CHR ''|'') :: nat)" by simp
    with that show False by (simp add: of_char_of)
  qed
  have "n mod 10 < 10" by simp
  with 1 digit [of n] digit [of "n mod 10"] show ?case
    by (subst (asm) (2) dec_nat.simps) (auto split: if_splits)
qed

lemma append_separator:
  assumes "s @ c # t = s' @ c # t'" and "c \<notin> set s" and "c \<notin> set s'"
  shows "s = s' \<and> t = t'"
  using assms by (auto simp: append_eq_append_conv2 append_eq_Cons_conv Cons_eq_append_conv)

lemma message_head:
  "\<exists>t. createSignatureMessage C cp =
     str_bytes (dec_nat (unat (cpt_Height cp)) @ CHR ''|'' # EncodeHash (cpt_Hash cp) @ t)"
  by (simp add: createSignatureMessage_def) blast

lemma length_EncodeHash [simp]: "length (EncodeHash h) = 66"
  by (simp add: EncodeHash_def)

lemma str_bytes_inject [simp]: "str_bytes s = str_bytes t \<longleftrightarrow> s = t"
proof -
  have "unat (of_char c :: u8) = of_char c" for c :: char
  proof -
    have "(of_char c :: u8) = word_of_nat (of_char c)" by (simp add: of_nat_of_char)
    moreover have "unat (word_of_nat (of_char c) :: u8) = of_char c" by (simp add: unat_of_nat)
    ultimately show ?thesis by simp
  qed
  then have "inj (of_char :: char \<Rightarrow> u8)"
    by (metis injI of_char_eq_iff)
  then show ?thesis by (simp add: str_bytes_def inj_map_eq_map)
qed

lemma message_binds_block:
  assumes "createSignatureMessage C cp = createSignatureMessage C cp'"
  shows "cpt_Height cp = cpt_Height cp' \<and> cpt_Hash cp = cpt_Hash cp'"
proof -
  from message_head [of C cp] message_head [of C cp'] assms obtain t t'
    where eq: "dec_nat (unat (cpt_Height cp)) @ CHR ''|'' # EncodeHash (cpt_Hash cp) @ t =
               dec_nat (unat (cpt_Height cp')) @ CHR ''|'' # EncodeHash (cpt_Hash cp') @ t'"
    by (metis str_bytes_inject)
  then have "dec_nat (unat (cpt_Height cp)) = dec_nat (unat (cpt_Height cp'))"
    and "EncodeHash (cpt_Hash cp) @ t = EncodeHash (cpt_Hash cp') @ t'"
    using append_separator [OF eq] dec_nat_digits by blast+
  then show ?thesis
    by (metis HexToHash_EncodeHash append_eq_append_conv length_EncodeHash parse_nat_dec_nat
        option.inject unsigned_word_eqI)
qed

section \<open>Signatures that verify\<close>

definition pair_ok :: "('p, 'k) key_lib \<Rightarrow> ('p, 'k) key_pair \<Rightarrow> bool" where
  "pair_ok L kp =
     (kl_public L (kp_PrivateKey kp) = Some (kp_PublicKey kp)
      \<and> kp_PublicStr kp = kl_marshal L (kp_PublicKey kp) \<and> kp_Type kp = kl_type L (kp_PublicKey kp))"

lemma pair_of_ok: "kl_public L p = Some k \<Longrightarrow> pair_ok L (pair_of L p k c)"
  by (simp add: pair_ok_def pair_of_def)

lemma ParseSSHPrivateKey_ok: "ParseSSHPrivateKey L s = Inr kp \<Longrightarrow> pair_ok L kp"
  by (auto simp: ParseSSHPrivateKey_def pair_ok_def pair_of_def split: option.splits if_splits)

lemma be_value_LeftPadBytes [simp]: "length b \<le> n \<Longrightarrow> be_value (LeftPadBytes b n) = be_value b"
  by (simp add: LeftPadBytes_def be_value_append)

lemma ecdsa_padded_short:
  assumes "r < 2 ^ 256" and "s < 2 ^ 256"
  shows "ecdsa_padded r s = Inr (LeftPadBytes (nat_bytes r) 32 @ LeftPadBytes (nat_bytes s) 32)"
proof -
  have r: "length (nat_bytes r) \<le> 32" and s: "length (nat_bytes s) \<le> 32"
    using assms by (auto intro!: length_nat_bytes_le)
  from s have "take (64 - length (nat_bytes s)) (LeftPadBytes (nat_bytes r) 32 @ replicate 32 (0::u8)) =
      LeftPadBytes (nat_bytes r) 32 @ replicate (32 - length (nat_bytes s)) 0"
    by simp
  moreover from s have "LeftPadBytes (nat_bytes s) 32 = replicate (32 - length (nat_bytes s)) 0 @ nat_bytes s"
    by (cases "length (nat_bytes s) = 32") (simp_all add: LeftPadBytes_def)
  ultimately show ?thesis using r s by (simp add: ecdsa_padded_def Let_def)
qed

definition ecdsa_names :: "string set" where
  "ecdsa_names = {''ecdsa-sha2-nistp256'', ''ecdsa-sha2-nistp384'', ''ecdsa-sha2-nistp521''}"

text \<open>The two numbers of an ECDSA signature fit 32 bytes each.\<close>

definition fits :: "('p, 'k) key_lib \<Rightarrow> ('p, 'k) key_pair \<Rightarrow> bool" where
  "fits L kp = (kl_kind L (kp_PrivateKey kp) = ECDSA_Kind \<longrightarrow>
     (\<forall>h. \<exists>r s. kl_ecdsa_sign L (kp_PrivateKey kp) h = Some (r, s) \<and> r < 2 ^ 256 \<and> s < 2 ^ 256))"

text \<open>
  What signing relies on: a public key is read back from its text, has the type its private key has, and
  accepts what the private key signs.
\<close>

locale signature_scheme =
  fixes L :: "('p, 'k) key_lib"
  assumes parse_marshal: "kl_parse L (kl_marshal L k) = Some k"
    and rsa_public: "kl_public L p = Some k \<Longrightarrow> kl_kind L p = RSA_Kind \<Longrightarrow>
      kl_type L k = ''ssh-rsa'' \<and> kl_crypto L k = RSA_Kind"
    and ecdsa_public: "kl_public L p = Some k \<Longrightarrow> kl_kind L p = ECDSA_Kind \<Longrightarrow>
      kl_type L k \<in> ecdsa_names \<and> kl_crypto L k = ECDSA_Kind"
    and rsa_correct: "kl_public L p = Some k \<Longrightarrow> kl_kind L p = RSA_Kind \<Longrightarrow>
      kl_rsa_sign L p h = Some b \<Longrightarrow> kl_rsa_verify L k h b"
    and ecdsa_correct: "kl_public L p = Some k \<Longrightarrow> kl_kind L p = ECDSA_Kind \<Longrightarrow>
      kl_ecdsa_sign L p h = Some (r, s) \<Longrightarrow> kl_ecdsa_verify L k h r s"
begin

lemma sign_bytes_verify:
  assumes "pair_ok L kp" and "fits L kp" and "sign_bytes L (kp_PrivateKey kp) m = Inr b"
  shows "verify_bytes L (kp_PublicKey kp) m b"
proof -
  from assms(1) have pub: "kl_public L (kp_PrivateKey kp) = Some (kp_PublicKey kp)"
    by (simp add: pair_ok_def)
  show ?thesis
  proof (cases "kl_kind L (kp_PrivateKey kp)")
    case RSA_Kind
    with assms(3) rsa_correct [OF pub RSA_Kind] rsa_public [OF pub RSA_Kind] show ?thesis
      by (auto simp: sign_bytes_def verify_bytes_def split: option.splits)
  next
    case ECDSA_Kind
    with assms(2) obtain r s where rs: "kl_ecdsa_sign L (kp_PrivateKey kp) (kl_sha256 L m) = Some (r, s)"
      and small: "r < 2 ^ 256" "s < 2 ^ 256" unfolding fits_def by metis
    have len: "length (nat_bytes r) \<le> 32" "length (nat_bytes s) \<le> 32"
      using small by (auto intro!: length_nat_bytes_le)
    from ecdsa_public [OF pub ECDSA_Kind] ecdsa_correct [OF pub ECDSA_Kind rs] assms(3) show ?thesis
      by (auto simp: sign_bytes_def verify_bytes_def ECDSA_Kind rs ecdsa_padded_short [OF small] len ecdsa_names_def)
  qed (use assms(3) in \<open>simp_all add: sign_bytes_def\<close>)
qed

lemma own_signature_verifies:
  assumes "pair_ok L kp" and "fits L kp" and "signCheckpoint L C authority kp now cp = Inr sig"
  shows "verifySignature L C authority T cp sig"
proof -
  from assms(3) obtain b where b: "sign_bytes L (kp_PrivateKey kp) (createSignatureMessage C cp) = Inr b"
    and sig: "sg_Signature sig = b64_encode b" "sg_PublicKey sig = kp_PublicStr kp"
      "sg_Authority sig = authority" "sg_Fingerprint sig = kl_fingerprint L (kp_PublicKey kp)"
    by (auto simp: signCheckpoint_def split: sum.splits)
  from sign_bytes_verify [OF assms(1,2) b] assms(1) show ?thesis
    by (simp add: verifySignature_def ParseSSHPublicKey_def sig pair_ok_def parse_marshal Let_def)
qed

end

text \<open>An RSA signature is valid for one digest only.\<close>

locale binding_scheme = signature_scheme +
  assumes rsa_binds: "kl_rsa_verify L k h b \<Longrightarrow> kl_rsa_verify L k h' b \<Longrightarrow> h = h'"
begin

lemma signature_binds:
  assumes "pair_ok L kp" and "kl_kind L (kp_PrivateKey kp) = RSA_Kind"
    and "signCheckpoint L C authority kp now cp = Inr sig" and "verifySignature L C authority' T cp' sig"
  shows "kl_sha256 L (createSignatureMessage C cp) = kl_sha256 L (createSignatureMessage C cp')"
proof -
  from assms(1) have pub: "kl_public L (kp_PrivateKey kp) = Some (kp_PublicKey kp)"
    by (simp add: pair_ok_def)
  from assms(2,3) obtain b where
      b: "kl_rsa_sign L (kp_PrivateKey kp) (kl_sha256 L (createSignatureMessage C cp)) = Some b"
    and sig: "sg_Signature sig = b64_encode b" "sg_PublicKey sig = kp_PublicStr kp"
    by (auto simp: signCheckpoint_def sign_bytes_def split: sum.splits option.splits)
  from assms(4) rsa_public [OF pub assms(2)]
  have "kl_rsa_verify L (kp_PublicKey kp) (kl_sha256 L (createSignatureMessage C cp')) b"
    using assms(1)
    by (auto simp: verifySignature_def ParseSSHPublicKey_def sig pair_ok_def parse_marshal Let_def verify_bytes_def
        split: if_splits)
  with rsa_correct [OF pub assms(2) b] show ?thesis by (rule rsa_binds)
qed

end

text \<open>The formats private keys are kept in, and the keys the code generates.\<close>

locale key_formats = binding_scheme +
  assumes pem: "kl_pem L (kl_pem_encode L ''RSA PRIVATE KEY'' der) = Some (''RSA PRIVATE KEY'', der)"
    and pem_text: "kl_pem_encode L kind der \<noteq> []"
    and pkcs1: "kl_kind L p = RSA_Kind \<Longrightarrow> kl_pkcs1 L (kl_pkcs1_encode L p) = Some p"
    and generated: "kl_generate L bits = Some p \<Longrightarrow> kl_kind L p = RSA_Kind"
begin

lemma generated_key_parses:
  assumes "kl_generate L bits = Some p" and "kl_public L p = Some k"
  shows "ParseSSHPrivateKey L (kl_pem_encode L ''RSA PRIVATE KEY'' (kl_pkcs1_encode L p)) =
    Inr (pair_of L p k ''antdchain-checkpoint-authority'')"
  using assms(2) by (simp add: ParseSSHPrivateKey_def pem pkcs1 [OF generated [OF assms(1)]] generated [OF assms(1)])

end

section \<open>A scheme to evaluate\<close>

text \<open>
  Keys are numbers and say their kind by their remainder, the digest is given; an RSA signature is the digest and the key, and
  an ECDSA signature has the digest as \<open>r\<close> and the key as \<open>s\<close>.
\<close>

definition toy_kind :: "nat \<Rightarrow> key_kind" where
  "toy_kind p = (if p mod 3 = 0 then RSA_Kind else if p mod 3 = 1 then ECDSA_Kind else Ed25519_Kind)"

definition toy_keys :: "(bytes \<Rightarrow> hash) \<Rightarrow> (nat, nat) key_lib" where
  "toy_keys digest =
     \<lparr>kl_pem = (\<lambda>s. case s of [] \<Rightarrow> None | c # cs \<Rightarrow>
        Some (if c = CHR ''R'' then ''RSA PRIVATE KEY'' else ''PRIVATE KEY'', fst (hex_decode cs))),
      kl_pem_encode = (\<lambda>kind der. (if kind = ''RSA PRIVATE KEY'' then CHR ''R'' else CHR ''P'') # hex_encode der),
      kl_pkcs1 = (\<lambda>b. Some (be_value b)), kl_pkcs1_encode = nat_bytes, kl_ec = (\<lambda>b. Some (be_value b)),
      kl_pkcs8 = (\<lambda>b. Some (Some (be_value b))), kl_generate = (\<lambda>_. Some 3), kl_kind = toy_kind,
      kl_public = Some, kl_parse = parse_nat, kl_marshal = dec_nat,
      kl_type = (\<lambda>k. case toy_kind k of RSA_Kind \<Rightarrow> ''ssh-rsa'' | ECDSA_Kind \<Rightarrow> ''ecdsa-sha2-nistp256''
                     | _ \<Rightarrow> ''ssh-ed25519''),
      kl_crypto = toy_kind, kl_fingerprint = (\<lambda>k. ''SHA256:'' @ dec_nat k),
      kl_sha256 = digest,
      kl_rsa_sign = (\<lambda>p h. Some (Hash_Bytes h @ nat_bytes p)),
      kl_ecdsa_sign = (\<lambda>p h. Some (unat h, p)),
      kl_rsa_verify = (\<lambda>k h b. b = Hash_Bytes h @ nat_bytes k),
      kl_ecdsa_verify = (\<lambda>k h r s. r = unat h \<and> s = k),
      kl_ed25519_verify = (\<lambda>k m b. b = m)\<rparr>"

interpretation toy: key_formats "toy_keys digest" for digest
  by unfold_locales
    (auto simp: toy_keys_def toy_kind_def ecdsa_names_def parse_nat_dec_nat split: if_splits)

end
