(* ===== verification/Checkpoints.thy ===== *)
theory Checkpoints
  imports Checkpoint_Keys "HOL-Library.AList" "HOL-Library.Multiset"
begin

text \<open>
  The checkpoint manager (\<open>antdc/checkpoints/checkpoints.go\<close>): its configuration file, the map of
  checkpoints, the block checks, the exchange with remote sources, and what is saved and loaded again.

  The file system's answers, JSON and the paths are fields of \<open>ckpt_env\<close>; the files are a map from
  paths to contents. HTTP replies, the clock and the order in which Go visits a map are arguments of the
  operations. Goroutines that save the configuration are taken to be done when the call that starts
  them returns; a write that fails leaves the file as it was.
\<close>

section \<open>Configuration\<close>

record remote_config =
  rc_URL :: string
  rc_Name :: string
  rc_Priority :: int
  rc_Enabled :: bool
  rc_Timeout :: int
  rc_RetryCount :: int
  rc_PublicKeys :: "string list"
  rc_ChainID :: string
  rc_LastModified :: "int option"
  rc_ETag :: string

record local_config =
  lc_PrivateKey :: string
  lc_PublicKey :: string
  lc_AuthorityName :: string
  lc_Weight :: int
  lc_Checkpoints :: "checkpoint list"
  lc_TrustedRemotes :: "remote_config list"
  lc_LastSync :: "int option"
  lc_SyncInterval :: int
  lc_ChainID :: string
  lc_GenesisHash :: hash

datatype ckpt_error =
    CK_Dir | CK_Encode | CK_Write | CK_No_Config | CK_Parse | CK_Genesis_Mismatch | CK_Key key_error | CK_Generate
  | CK_Panic | CK_Not_Initialized | CK_Genesis_Block | CK_Mismatch nat | CK_Hash | CK_Invalid_Hash
  | CK_Conflict | CK_Sign sign_error | CK_Truncate u64 | CK_Http | CK_Status nat | CK_Response
  | CK_Chain_ID | CK_Unsigned

type_synonym files = "string \<rightharpoonup> bytes"

record remote_response =
  rr_Checkpoints :: "checkpoint list"
  rr_ChainID :: string
  rr_Timestamp :: int
  rr_Signatures :: "signature list"

record ('p, 'k) ckpt_env =
  cx_lib :: "('p, 'k) key_lib"
  cx_crypto :: crypto
  cx_mkdir :: "string \<Rightarrow> bool"
  cx_writable :: "string \<Rightarrow> bool"
  cx_join :: "string \<Rightarrow> string \<Rightarrow> string"
  cx_dir :: "string \<Rightarrow> string"
  cx_json :: "local_config \<Rightarrow> bytes option"
  cx_unjson :: "bytes \<Rightarrow> local_config option"
  cx_response :: "bytes \<Rightarrow> remote_response option"

definition one_hour :: int where
  "one_hour = 3600000000000"

definition default_config :: local_config where
  "default_config =
     \<lparr>lc_PrivateKey = [], lc_PublicKey = [], lc_AuthorityName = ''ANTDChain Node'', lc_Weight = 100,
      lc_Checkpoints = [], lc_TrustedRemotes = [], lc_LastSync = None, lc_SyncInterval = one_hour,
      lc_ChainID = ''antdchain-mainnet'', lc_GenesisHash = zero_hash\<rparr>"

definition saveConfig ::
    "('p, 'k) ckpt_env \<Rightarrow> string \<Rightarrow> string \<Rightarrow> local_config \<Rightarrow> files \<Rightarrow> ckpt_error + files" where
  "saveConfig X dataDir path cfg files =
     (let configPath = (if path = [] then cx_join X dataDir ''checkpoints.json'' else path) in
      if \<not> cx_mkdir X (cx_dir X configPath) then Inl CK_Dir
      else (case cx_json X cfg of
              None \<Rightarrow> Inl CK_Encode
            | Some data \<Rightarrow>
                if \<not> cx_writable X configPath then Inl CK_Write else Inr (files(configPath \<mapsto> data))))"

text \<open>Where the caller only logs the error.\<close>

definition or_unchanged :: "files \<Rightarrow> ckpt_error + files \<Rightarrow> files" where
  "or_unchanged files r = (case r of Inl _ \<Rightarrow> files | Inr files' \<Rightarrow> files')"

definition createDefaultConfig ::
    "('p, 'k) ckpt_env \<Rightarrow> string \<Rightarrow> string \<Rightarrow> files \<Rightarrow> ckpt_error + files" where
  "createDefaultConfig X dataDir path files = saveConfig X dataDir path default_config files"

definition with_defaults :: "local_config \<Rightarrow> local_config" where
  "with_defaults cfg =
     cfg\<lparr>lc_SyncInterval := (if lc_SyncInterval cfg = 0 then one_hour else lc_SyncInterval cfg),
         lc_Weight := (if lc_Weight cfg = 0 then 100 else lc_Weight cfg),
         lc_ChainID := (if lc_ChainID cfg = [] then ''antdchain-mainnet'' else lc_ChainID cfg)\<rparr>"

definition parse_config :: "('p, 'k) ckpt_env \<Rightarrow> bytes \<Rightarrow> ckpt_error + local_config" where
  "parse_config X data =
     (case cx_unjson X data of None \<Rightarrow> Inl CK_Parse | Some cfg \<Rightarrow> Inr (with_defaults cfg))"

definition loadConfig ::
    "('p, 'k) ckpt_env \<Rightarrow> string \<Rightarrow> string \<Rightarrow> string \<Rightarrow> files \<Rightarrow> (ckpt_error + local_config) \<times> files" where
  "loadConfig X dataDir managerPath configPath files =
     (case files configPath of
        Some data \<Rightarrow> (parse_config X data, files)
      | None \<Rightarrow>
          (case files (cx_join X dataDir ''checkpoints.json'') of
             Some data \<Rightarrow> (parse_config X data, files)
           | None \<Rightarrow>
               (case createDefaultConfig X dataDir managerPath files of
                  Inl e \<Rightarrow> (Inl e, files)
                | Inr files' \<Rightarrow>
                    (case files' managerPath of
                       None \<Rightarrow> (Inl CK_No_Config, files')
                     | Some data \<Rightarrow> (parse_config X data, files')))))"

section \<open>The manager\<close>

record sync_status =
  ss_LastSyncTime :: "int option"
  ss_LastSyncHeight :: u64
  ss_IsSyncing :: bool
  ss_SyncErrors :: "(string \<times> ckpt_error) list"
  ss_RemoteCount :: nat

record ('p, 'k) checkpoints =
  ck_checkpoints :: "(u64 \<times> checkpoint) list"
  ck_sortedHeights :: "u64 list"
  ck_dataDir :: string
  ck_configPath :: string
  ck_config :: local_config
  ck_keyPair :: "('p, 'k) key_pair option"
  ck_trustedKeys :: "string \<rightharpoonup> 'k"
  ck_syncStatus :: sync_status
  ck_initialized :: bool
  ck_genesisValid :: bool

type_synonym visit = "(u64 \<times> checkpoint) list \<Rightarrow> (u64 \<times> checkpoint) list"

definition sign_with ::
    "('p, 'k) ckpt_env \<Rightarrow> ('p, 'k) checkpoints \<Rightarrow> int \<Rightarrow> checkpoint \<Rightarrow> sign_error + signature" where
  "sign_with X c now cp =
     (case ck_keyPair c of
        None \<Rightarrow> Inl Sign_Panic
      | Some kp \<Rightarrow> signCheckpoint (cx_lib X) (cx_crypto X) (lc_AuthorityName (ck_config c)) kp now cp)"

definition verify_with ::
    "('p, 'k) ckpt_env \<Rightarrow> ('p, 'k) checkpoints \<Rightarrow> checkpoint \<Rightarrow> signature \<Rightarrow> bool" where
  "verify_with X c = verifySignature (cx_lib X) (cx_crypto X) (lc_AuthorityName (ck_config c)) (ck_trustedKeys c)"

definition updateSortedHeights :: "('p, 'k) checkpoints \<Rightarrow> ('p, 'k) checkpoints" where
  "updateSortedHeights c = c\<lparr>ck_sortedHeights := sort (map fst (ck_checkpoints c))\<rparr>"

definition put_checkpoint :: "u64 \<Rightarrow> checkpoint \<Rightarrow> ('p, 'k) checkpoints \<Rightarrow> ('p, 'k) checkpoints" where
  "put_checkpoint h cp c = c\<lparr>ck_checkpoints := AList.update h cp (ck_checkpoints c)\<rparr>"

definition GetCheckpoint :: "('p, 'k) checkpoints \<Rightarrow> u64 \<Rightarrow> checkpoint option" where
  "GetCheckpoint c height = map_of (ck_checkpoints c) height"

text \<open>\<open>Some None\<close>: the code returns a nil checkpoint, said to exist.\<close>

definition GetLatestCheckpoint :: "('p, 'k) checkpoints \<Rightarrow> checkpoint option option" where
  "GetLatestCheckpoint c =
     (if ck_sortedHeights c = [] then None else Some (GetCheckpoint c (last (ck_sortedHeights c))))"

definition GetCheckpointsInRange :: "('p, 'k) checkpoints \<Rightarrow> u64 \<Rightarrow> u64 \<Rightarrow> checkpoint option list" where
  "GetCheckpointsInRange c start fin =
     map (GetCheckpoint c) (filter (\<lambda>h. h \<ge> start \<and> h \<le> fin) (ck_sortedHeights c))"

definition saveCheckpointsToConfig ::
    "('p, 'k) ckpt_env \<Rightarrow> visit \<Rightarrow> int \<Rightarrow> ('p, 'k) checkpoints \<Rightarrow> files \<Rightarrow> ('p, 'k) checkpoints \<times> files" where
  "saveCheckpointsToConfig X order now c files =
     (let cfg = (ck_config c)\<lparr>lc_Checkpoints := map snd (order (ck_checkpoints c)), lc_LastSync := Some now\<rparr>
      in (c\<lparr>ck_config := cfg\<rparr>,
          or_unchanged files (saveConfig X (ck_dataDir c) (ck_configPath c) cfg files)))"

section \<open>Starting\<close>

definition initSSHKey ::
    "('p, 'k) ckpt_env \<Rightarrow> string \<Rightarrow> string \<Rightarrow> local_config \<Rightarrow> files \<Rightarrow>
     ckpt_error + ('p, 'k) key_pair \<times> local_config \<times> files" where
  "initSSHKey X dataDir path cfg files =
     (let L = cx_lib X in
      if lc_PrivateKey cfg \<noteq> [] then
        (case ParseSSHPrivateKey L (lc_PrivateKey cfg) of
           Inl e \<Rightarrow> Inl (CK_Key e)
         | Inr kp \<Rightarrow> Inr (kp, cfg, files))
      else
        (case kl_generate L 4096 of
           None \<Rightarrow> Inl CK_Generate
         | Some p \<Rightarrow>
             (case kl_public L p of
                None \<Rightarrow> Inl (CK_Key Key_Public)
              | Some pub \<Rightarrow>
                  let kp = pair_of L p pub (lc_AuthorityName cfg);
                      cfg' = cfg\<lparr>lc_PrivateKey := kl_pem_encode L ''RSA PRIVATE KEY'' (kl_pkcs1_encode L p),
                                 lc_PublicKey := kp_PublicStr kp\<rparr>
                  in Inr (kp, cfg', or_unchanged files (saveConfig X dataDir path cfg' files)))))"

definition loadTrustedKeys :: "('p, 'k) key_lib \<Rightarrow> remote_config list \<Rightarrow> (string \<rightharpoonup> 'k)" where
  "loadTrustedKeys L remotes =
     fold (\<lambda>s keys. case ParseSSHPublicKey L s of
                      None \<Rightarrow> keys
                    | Some pubKey \<Rightarrow> keys(kl_fingerprint L pubKey \<mapsto> pubKey))
       (concat (map rc_PublicKeys remotes)) Map.empty"

definition mark_genesis :: "checkpoint \<Rightarrow> checkpoint" where
  "mark_genesis cp = (if cpt_Height cp = 0 then cp\<lparr>cpt_IsGenesis := True\<rparr> else cp)"

definition loadCheckpointsFromConfig :: "('p, 'k) checkpoints \<Rightarrow> ('p, 'k) checkpoints" where
  "loadCheckpointsFromConfig c =
     updateSortedHeights (fold (\<lambda>cp. put_checkpoint (cpt_Height cp) (mark_genesis cp))
       (lc_Checkpoints (ck_config c)) c)"

definition genesis_authority :: string where
  "genesis_authority = ''0qANA3c85k94LTyTXLGDdEzmLE32b1qhYZF''"

definition parse_or_zero :: "crypto \<Rightarrow> string \<Rightarrow> address" where
  "parse_or_zero C s = (case ParseQuantumAddress C s of Inl _ \<Rightarrow> zero_address | Inr a \<Rightarrow> a)"

definition genesis_time :: int where
  "genesis_time = 1735689600000000000"

definition genesis_checkpoint :: "crypto \<Rightarrow> string \<Rightarrow> hash \<Rightarrow> checkpoint" where
  "genesis_checkpoint C chainID g =
     (let addr = parse_or_zero C genesis_authority
      in no_checkpoint\<lparr>cpt_Height := 0, cpt_Hash := g, cpt_Miner := addr, cpt_RotatingKing := addr,
           cpt_Timestamp := genesis_time, cpt_Source := ''autogenerated'', cpt_Verifications := 1,
           cpt_IsGenesis := True, cpt_ChainID := chainID\<rparr>)"

definition install_genesis :: "('p, 'k) checkpoints \<Rightarrow> checkpoint \<Rightarrow> ('p, 'k) checkpoints" where
  "install_genesis c cp =
     (put_checkpoint 0 cp c)\<lparr>ck_config := (ck_config c)\<lparr>lc_Checkpoints := cp # lc_Checkpoints (ck_config c)\<rparr>\<rparr>"

definition ensureGenesisCheckpoint ::
    "('p, 'k) ckpt_env \<Rightarrow> hash \<Rightarrow> int \<Rightarrow> ('p, 'k) checkpoints \<Rightarrow> ckpt_error + ('p, 'k) checkpoints" where
  "ensureGenesisCheckpoint X g now c =
     (let cp = genesis_checkpoint (cx_crypto X) (lc_ChainID (ck_config c)) g;
          fresh =
            (if ck_keyPair c = None then Inr (install_genesis c cp)
             else (case sign_with X c now cp of
                     Inl e \<Rightarrow> if e = Sign_Panic then Inl CK_Panic else Inr (install_genesis c cp)
                   | Inr sig \<Rightarrow> Inr (install_genesis c (cp\<lparr>cpt_Signatures := cpt_Signatures cp @ [sig]\<rparr>))))
      in case GetCheckpoint c 0 of
           None \<Rightarrow> fresh
         | Some old \<Rightarrow>
             if cpt_Hash old = g then Inr (put_checkpoint 0 (old\<lparr>cpt_IsGenesis := True\<rparr>) c) else fresh)"

text \<open>Checkpoints none of whose signatures is valid are logged and kept.\<close>

definition genesis_ok :: "hash \<Rightarrow> u64 \<times> checkpoint \<Rightarrow> bool" where
  "genesis_ok g e = (fst e = 0 \<longrightarrow> cpt_Hash (snd e) = g)"

definition verifyAllCheckpoints ::
    "('p, 'k) ckpt_env \<Rightarrow> visit \<Rightarrow> int \<Rightarrow> ('p, 'k) checkpoints \<Rightarrow> files \<Rightarrow> ('p, 'k) checkpoints \<times> files" where
  "verifyAllCheckpoints X order now c files =
     (let g = lc_GenesisHash (ck_config c);
          kept = map (\<lambda>(h, cp). (h, if h = 0 then cp\<lparr>cpt_IsGenesis := True\<rparr> else cp))
                   (filter (genesis_ok g) (ck_checkpoints c));
          c' = updateSortedHeights (c\<lparr>ck_checkpoints := kept\<rparr>)
      in if \<exists>e \<in> set (ck_checkpoints c). \<not> genesis_ok g e
         then saveCheckpointsToConfig X order now c' files else (c', files))"

text \<open>Written for a mismatch at height 0, and called from nowhere.\<close>

definition removeInvalidGenesisCheckpoints :: "hash \<Rightarrow> ('p, 'k) checkpoints \<Rightarrow> ('p, 'k) checkpoints" where
  "removeInvalidGenesisCheckpoints g c =
     (let al = (case GetCheckpoint c 0 of
                  None \<Rightarrow> ck_checkpoints c
                | Some cp \<Rightarrow> if cpt_Hash cp \<noteq> g then AList.delete 0 (ck_checkpoints c) else ck_checkpoints c)
      in c\<lparr>ck_checkpoints := al,
           ck_config := (ck_config c)\<lparr>lc_Checkpoints :=
             filter (\<lambda>cp. cpt_Height cp \<noteq> 0 \<or> cpt_Hash cp = g) (lc_Checkpoints (ck_config c))\<rparr>\<rparr>)"

definition empty_manager ::
    "('p, 'k) key_lib \<Rightarrow> string \<Rightarrow> string \<Rightarrow> hash \<Rightarrow> ('p, 'k) key_pair \<Rightarrow> local_config \<Rightarrow> ('p, 'k) checkpoints" where
  "empty_manager L dataDir path g kp cfg =
     \<lparr>ck_checkpoints = [], ck_sortedHeights = [], ck_dataDir = dataDir, ck_configPath = path,
      ck_config = cfg, ck_keyPair = Some kp, ck_trustedKeys = loadTrustedKeys L (lc_TrustedRemotes cfg),
      ck_syncStatus = \<lparr>ss_LastSyncTime = None, ss_LastSyncHeight = 0, ss_IsSyncing = False,
                       ss_SyncErrors = [], ss_RemoteCount = 0\<rparr>,
      ck_initialized = False, ck_genesisValid = (lc_GenesisHash cfg = g)\<rparr>"

definition start_manager ::
    "('p, 'k) ckpt_env \<Rightarrow> string \<Rightarrow> string \<Rightarrow> hash \<Rightarrow> int \<Rightarrow> visit \<Rightarrow>
     ('p, 'k) key_pair \<times> local_config \<times> files \<Rightarrow> (ckpt_error + ('p, 'k) checkpoints) \<times> files" where
  "start_manager X dataDir path g now order r =
     (case r of (kp, cfg, files) \<Rightarrow>
        (case ensureGenesisCheckpoint X g now
                (loadCheckpointsFromConfig (empty_manager (cx_lib X) dataDir path g kp cfg)) of
             Inl e \<Rightarrow> (Inl e, files)
           | Inr c1 \<Rightarrow>
               (case verifyAllCheckpoints X order now c1 files of
                  (c2, files') \<Rightarrow> (Inr (c2\<lparr>ck_initialized := True\<rparr>), files'))))"

definition NewCheckpoints ::
    "('p, 'k) ckpt_env \<Rightarrow> string \<Rightarrow> string \<Rightarrow> hash \<Rightarrow> int \<Rightarrow> visit \<Rightarrow> files \<Rightarrow>
     (ckpt_error + ('p, 'k) checkpoints) \<times> files" where
  "NewCheckpoints X dataDir configPath g now order files =
     (let path = (if configPath = [] then cx_join X dataDir ''checkpoints.json'' else configPath) in
      if \<not> cx_mkdir X dataDir then (Inl CK_Dir, files)
      else (case loadConfig X dataDir path configPath files of
              (Inl e, files1) \<Rightarrow> (Inl e, files1)
            | (Inr cfg, files1) \<Rightarrow>
                if lc_GenesisHash cfg \<noteq> zero_hash \<and> lc_GenesisHash cfg \<noteq> g then (Inl CK_Genesis_Mismatch, files1)
                else
                  let first = (lc_GenesisHash cfg = zero_hash);
                      cfg2 = (if first then cfg\<lparr>lc_GenesisHash := g\<rparr> else cfg);
                      files2 = (if first then or_unchanged files1 (saveConfig X dataDir path cfg2 files1) else files1)
                  in (case initSSHKey X dataDir path cfg2 files2 of
                        Inl e \<Rightarrow> (Inl e, files2)
                      | Inr r \<Rightarrow> start_manager X dataDir path g now order r)))"

section \<open>Checking blocks\<close>

definition ready :: "('p, 'k) checkpoints \<Rightarrow> bool" where
  "ready c = (ck_initialized c \<and> ck_genesisValid c)"

definition valid_signatures :: "('p, 'k) ckpt_env \<Rightarrow> ('p, 'k) checkpoints \<Rightarrow> checkpoint \<Rightarrow> nat" where
  "valid_signatures X c cp =
     verifyCheckpointSignatures (cx_lib X) (cx_crypto X) (lc_AuthorityName (ck_config c)) (ck_trustedKeys c) cp"

definition ValidateBlock ::
    "('p, 'k) ckpt_env \<Rightarrow> ('p, 'k) checkpoints option \<Rightarrow> u64 \<Rightarrow> hash \<Rightarrow> ckpt_error + unit" where
  "ValidateBlock X m height blockHash =
     (case m of
        None \<Rightarrow> Inr ()
      | Some c \<Rightarrow>
          if \<not> ready c then Inl CK_Not_Initialized
          else (case GetCheckpoint c height of
                  None \<Rightarrow> Inr ()
                | Some cp \<Rightarrow>
                    if height = 0 then (if cpt_Hash cp \<noteq> blockHash then Inl CK_Genesis_Block else Inr ())
                    else if cpt_Hash cp \<noteq> blockHash then Inl (CK_Mismatch (valid_signatures X c cp))
                    else Inr ()))"

text \<open>The parent, the miner and the king are compared and only logged.\<close>

definition ValidateBlockWithContext ::
    "('p, 'k) checkpoints \<Rightarrow> u64 \<Rightarrow> hash \<Rightarrow> hash \<Rightarrow> address \<Rightarrow> address \<Rightarrow> ckpt_error + unit" where
  "ValidateBlockWithContext c height blockHash parentHash miner rotatingKing =
     (if \<not> ready c then Inl CK_Not_Initialized
      else (case GetCheckpoint c height of
              None \<Rightarrow> Inr ()
            | Some cp \<Rightarrow> if cpt_Hash cp \<noteq> blockHash then Inl CK_Hash else Inr ()))"

definition CanTruncate :: "('p, 'k) checkpoints \<Rightarrow> u64 \<Rightarrow> ckpt_error + unit" where
  "CanTruncate c height =
     (if \<not> ready c then Inl CK_Not_Initialized
      else (case GetLatestCheckpoint c of
              None \<Rightarrow> Inr ()
            | Some None \<Rightarrow> Inl CK_Panic
            | Some (Some latest) \<Rightarrow>
                if height < cpt_Height latest then Inl (CK_Truncate (cpt_Height latest)) else Inr ()))"

section \<open>Adding a checkpoint\<close>

text \<open>Signing a new checkpoint, installing it and saving; a failure leaves the state it was called in.\<close>

definition install_signed ::
    "('p, 'k) ckpt_env \<Rightarrow> visit \<Rightarrow> int \<Rightarrow> checkpoint \<Rightarrow> ('p, 'k) checkpoints \<Rightarrow> files \<Rightarrow>
     (ckpt_error + unit) \<times> ('p, 'k) checkpoints \<times> files" where
  "install_signed X order now cp c files =
     (case sign_with X c now cp of
        Inl e \<Rightarrow> (Inl (if e = Sign_Panic then CK_Panic else CK_Sign e), c, files)
      | Inr sig \<Rightarrow>
          (Inr (), saveCheckpointsToConfig X order now
             (updateSortedHeights (put_checkpoint (cpt_Height cp) (cp\<lparr>cpt_Signatures := [sig]\<rparr>) c)) files))"

definition local_checkpoint ::
    "string \<Rightarrow> int \<Rightarrow> u64 \<Rightarrow> hash \<Rightarrow> hash \<Rightarrow> address \<Rightarrow> address \<Rightarrow> u64 \<Rightarrow> u64 \<Rightarrow> checkpoint" where
  "local_checkpoint chainID now height hash parentHash miner rotatingKing txCount gasUsed =
     \<lparr>cpt_Height = height, cpt_Hash = hash, cpt_ParentHash = parentHash, cpt_Miner = miner,
      cpt_RotatingKing = rotatingKing, cpt_Timestamp = now, cpt_TotalDiff = None,
      cpt_GasUsed = gasUsed, cpt_TxCount = txCount, cpt_StateRoot = zero_hash,
      cpt_TxRoot = zero_hash, cpt_Signatures = [], cpt_Verifications = 1,
      cpt_Source = ''local'', cpt_ChainID = chainID, cpt_IsGenesis = (height = 0)\<rparr>"

definition AddCheckpoint ::
    "('p, 'k) ckpt_env \<Rightarrow> visit \<Rightarrow> int \<Rightarrow> u64 \<Rightarrow> hash \<Rightarrow> hash \<Rightarrow> address \<Rightarrow> address \<Rightarrow> u64 \<Rightarrow> u64 \<Rightarrow>
     ('p, 'k) checkpoints \<Rightarrow> files \<Rightarrow> (ckpt_error + unit) \<times> ('p, 'k) checkpoints \<times> files" where
  "AddCheckpoint X order now height hash parentHash miner rotatingKing txCount gasUsed c files =
     (if \<not> ready c then (Inl CK_Not_Initialized, c, files)
      else if hash = zero_hash then (Inl CK_Invalid_Hash, c, files)
      else if height = 0 \<and> hash \<noteq> lc_GenesisHash (ck_config c) then (Inl CK_Genesis_Mismatch, c, files)
      else
        let cp = local_checkpoint (lc_ChainID (ck_config c)) now height hash parentHash miner rotatingKing txCount gasUsed
        in (case GetCheckpoint c height of
              None \<Rightarrow> install_signed X order now cp c files
            | Some existing \<Rightarrow>
                if cpt_Hash existing = hash
                then (Inr (), put_checkpoint height
                        (existing\<lparr>cpt_Verifications := cpt_Verifications existing + 1\<rparr>) c, files)
                else if sint (cpt_Verifications existing) > 5 then (Inl CK_Conflict, c, files)
                else install_signed X order now cp
                       (c\<lparr>ck_checkpoints := AList.delete height (ck_checkpoints c)\<rparr>) files))"

section \<open>Remote sources\<close>

text \<open>The server's answer: its status, and the body unless reading it fails.\<close>

datatype http_reply = Http_Error | Http_Reply nat "bytes option"

definition fetchRemoteCheckpoints ::
    "('p, 'k) ckpt_env \<Rightarrow> ('p, 'k) checkpoints \<Rightarrow> remote_config \<Rightarrow> http_reply \<Rightarrow> ckpt_error + checkpoint list" where
  "fetchRemoteCheckpoints X c remote reply =
     (case reply of
        Http_Error \<Rightarrow> Inl CK_Http
      | Http_Reply status body \<Rightarrow>
          if status = 304 then Inr []
          else if status \<noteq> 200 then Inl (CK_Status status)
          else (case body of
                  None \<Rightarrow> Inl CK_Http
                | Some data \<Rightarrow>
                    (case cx_response X data of
                       None \<Rightarrow> Inl CK_Response
                     | Some response \<Rightarrow>
                         if rc_ChainID remote \<noteq> [] \<and> rr_ChainID response \<noteq> rc_ChainID remote then Inl CK_Chain_ID
                         else
                           let tempCp = no_checkpoint\<lparr>cpt_Height := word_of_nat (length (rr_Checkpoints response)),
                                          cpt_Timestamp := rr_Timestamp response, cpt_Source := ''remote-sync'',
                                          cpt_ChainID := rr_ChainID response\<rparr>
                           in if rr_Signatures response \<noteq> []
                                 \<and> \<not> list_ex (verify_with X c tempCp) (rr_Signatures response)
                              then Inl CK_Unsigned else Inr (rr_Checkpoints response))))"

definition process_one ::
    "('p, 'k) ckpt_env \<Rightarrow> checkpoint \<Rightarrow> ('p, 'k) checkpoints \<times> nat \<Rightarrow> ('p, 'k) checkpoints \<times> nat" where
  "process_one X received acc =
     (case acc of (c, added) \<Rightarrow>
        if cpt_Height received = 0 \<and> cpt_Hash received \<noteq> lc_GenesisHash (ck_config c) then (c, added)
        else
          let remoteCp = mark_genesis received;
              accept = (if list_ex (verify_with X c remoteCp) (cpt_Signatures remoteCp)
                        then (put_checkpoint (cpt_Height remoteCp) remoteCp c, added + 1) else (c, added))
          in (case GetCheckpoint c (cpt_Height remoteCp) of
                None \<Rightarrow> accept
              | Some existing \<Rightarrow>
                  if cpt_Hash existing = cpt_Hash remoteCp
                  then (put_checkpoint (cpt_Height remoteCp)
                          (existing\<lparr>cpt_Verifications := cpt_Verifications existing + 1\<rparr>) c, added)
                  else if sint (cpt_Verifications existing) > sint (cpt_Verifications remoteCp) then (c, added)
                  else accept))"

definition processRemoteCheckpoints ::
    "('p, 'k) ckpt_env \<Rightarrow> checkpoint list \<Rightarrow> ('p, 'k) checkpoints \<Rightarrow> ('p, 'k) checkpoints \<times> nat" where
  "processRemoteCheckpoints X cps c =
     (case fold (process_one X) cps (c, 0) of (c', added) \<Rightarrow> (updateSortedHeights c', added))"

definition sync_one ::
    "('p, 'k) ckpt_env \<Rightarrow> (remote_config \<Rightarrow> http_reply) \<Rightarrow> remote_config \<Rightarrow>
     ('p, 'k) checkpoints \<times> (string \<times> ckpt_error) list \<Rightarrow> ('p, 'k) checkpoints \<times> (string \<times> ckpt_error) list" where
  "sync_one X reply remote acc =
     (case acc of (c, errs) \<Rightarrow>
        if \<not> rc_Enabled remote then (c, errs)
        else (case fetchRemoteCheckpoints X c remote (reply remote) of
                Inl e \<Rightarrow> (c, errs @ [(rc_Name remote, e)])
              | Inr cps \<Rightarrow> (fst (processRemoteCheckpoints X cps c), errs)))"

definition syncWithRemotes ::
    "('p, 'k) ckpt_env \<Rightarrow> visit \<Rightarrow> int \<Rightarrow> (remote_config \<Rightarrow> http_reply) \<Rightarrow> ('p, 'k) checkpoints \<Rightarrow> files \<Rightarrow>
     (ckpt_error + unit) \<times> ('p, 'k) checkpoints \<times> files" where
  "syncWithRemotes X order now reply c files =
     (if \<not> ready c then (Inr (), c, files)
      else
        let remotes = lc_TrustedRemotes (ck_config c);
            (c1, errs) = fold (sync_one X reply) remotes (c, []);
            s = (ck_syncStatus c1)\<lparr>ss_LastSyncTime := Some now, ss_SyncErrors := errs,
                                   ss_RemoteCount := length remotes, ss_IsSyncing := False\<rparr>;
            finish = (\<lambda>s. (Inr (), saveCheckpointsToConfig X order now (c1\<lparr>ck_syncStatus := s\<rparr>) files))
        in (case GetLatestCheckpoint c1 of
              None \<Rightarrow> finish s
            | Some None \<Rightarrow> (Inl CK_Panic, c1\<lparr>ck_syncStatus := s\<rparr>, files)
            | Some (Some latest) \<Rightarrow> finish (s\<lparr>ss_LastSyncHeight := cpt_Height latest\<rparr>)))"

text \<open>The export, before it is written as JSON; the signature is left out when signing fails.\<close>

definition ExportCheckpoints ::
    "('p, 'k) ckpt_env \<Rightarrow> visit \<Rightarrow> int \<Rightarrow> ('p, 'k) checkpoints \<Rightarrow> ckpt_error + remote_response \<times> hash" where
  "ExportCheckpoints X order now c =
     (let cps = map snd (order (ck_checkpoints c));
          temp = no_checkpoint\<lparr>cpt_Height := word_of_nat (length cps), cpt_Timestamp := now,
                   cpt_Source := ''export'', cpt_ChainID := lc_ChainID (ck_config c)\<rparr>;
          response = (\<lambda>sigs. (\<lparr>rr_Checkpoints = cps, rr_ChainID = lc_ChainID (ck_config c), rr_Timestamp = now,
                               rr_Signatures = sigs\<rparr>, lc_GenesisHash (ck_config c)))
      in case sign_with X c now temp of
           Inl Sign_Panic \<Rightarrow> Inl CK_Panic
         | Inl _ \<Rightarrow> Inr (response [])
         | Inr sig \<Rightarrow> Inr (response [sig]))"

definition Stop ::
    "('p, 'k) ckpt_env \<Rightarrow> visit \<Rightarrow> int \<Rightarrow> ('p, 'k) checkpoints \<Rightarrow> files \<Rightarrow> ('p, 'k) checkpoints \<times> files" where
  "Stop X order now c files = (if ready c then saveCheckpointsToConfig X order now c files else (c, files))"

section \<open>Sample configuration\<close>

text \<open>The official source; its public key is cut off here, \<open>official_key\<close> being the whole text.\<close>

definition official_remote :: "string \<Rightarrow> remote_config" where
  "official_remote official_key =
     \<lparr>rc_URL = ''https://checkpoints.antdaza.site/mainnet'', rc_Name = ''Official ANTDChain Checkpoints'',
      rc_Priority = 1, rc_Enabled = True, rc_Timeout = 30000000000, rc_RetryCount = 3,
      rc_PublicKeys = (if official_key = [] then [] else [official_key]), rc_ChainID = ''antdchain-mainnet'',
      rc_LastModified = None, rc_ETag = []\<rparr>"

definition CreateSampleConfig ::
    "('p, 'k) ckpt_env \<Rightarrow> string \<Rightarrow> string \<Rightarrow> hash \<Rightarrow> files \<Rightarrow> ckpt_error + files" where
  "CreateSampleConfig X official_key outputPath g files =
     (let L = cx_lib X; addr = parse_or_zero (cx_crypto X) genesis_authority in
      if \<not> cx_mkdir X (cx_dir X outputPath) then Inl CK_Dir
      else (case kl_generate L 2048 of
              None \<Rightarrow> Inl CK_Generate
            | Some p \<Rightarrow>
                (case kl_public L p of
                   None \<Rightarrow> Inl (CK_Key Key_Public)
                 | Some pub \<Rightarrow>
                     let cfg = default_config\<lparr>
                           lc_PrivateKey := kl_pem_encode L ''RSA PRIVATE KEY'' (kl_pkcs1_encode L p),
                           lc_PublicKey := kl_marshal L pub, lc_GenesisHash := g,
                           lc_Checkpoints := [no_checkpoint\<lparr>cpt_Height := 0, cpt_Hash := g, cpt_Miner := addr,
                             cpt_RotatingKing := addr, cpt_Timestamp := genesis_time, cpt_Source := ''genesis'',
                             cpt_Verifications := 1, cpt_IsGenesis := True\<rparr>],
                           lc_TrustedRemotes := [official_remote official_key]\<rparr>
                     in (case cx_json X cfg of
                           None \<Rightarrow> Inl CK_Encode
                         | Some data \<Rightarrow>
                             if \<not> cx_writable X outputPath then Inl CK_Write else Inr (files(outputPath \<mapsto> data))))))"

text \<open>\<open>createDefaultCheckpointConfig\<close> (\<open>antdc/chain/initialization.go\<close>): a source, but no key and no genesis hash.\<close>

definition createDefaultCheckpointConfig ::
    "('p, 'k) ckpt_env \<Rightarrow> string \<Rightarrow> string \<Rightarrow> files \<Rightarrow> ckpt_error + files" where
  "createDefaultCheckpointConfig X configPath nodeName files =
     (if files configPath \<noteq> None then Inr files
      else (case cx_json X (default_config\<lparr>lc_AuthorityName := nodeName, lc_ChainID := [],
                   lc_TrustedRemotes := [official_remote []]\<rparr>) of
              None \<Rightarrow> Inl CK_Encode
            | Some data \<Rightarrow>
                if \<not> cx_mkdir X (cx_dir X configPath) then Inl CK_Dir
                else if \<not> cx_writable X configPath then Inl CK_Write
                else Inr (files(configPath \<mapsto> data))))"

section \<open>Well-formed maps\<close>

definition heights_ok :: "(u64 \<times> checkpoint) list \<Rightarrow> bool" where
  "heights_ok al =
     (distinct (map fst al)
      \<and> (\<forall>h cp. map_of al h = Some cp \<longrightarrow> cpt_Height cp = h \<and> (h = 0 \<longrightarrow> cpt_IsGenesis cp)))"

definition pinned :: "hash \<Rightarrow> (u64 \<times> checkpoint) list \<Rightarrow> bool" where
  "pinned g al = (\<exists>cp. map_of al 0 = Some cp \<and> cpt_Hash cp = g)"

lemma heights_ok_Nil [simp]: "heights_ok []"
  by (simp add: heights_ok_def)

lemma heights_ok_update [intro]:
  "heights_ok al \<Longrightarrow> cpt_Height cp = h \<Longrightarrow> (h = 0 \<Longrightarrow> cpt_IsGenesis cp) \<Longrightarrow> heights_ok (AList.update h cp al)"
  by (auto simp: heights_ok_def AList.update_conv' AList.distinct_update)

lemma heights_ok_delete [intro]: "heights_ok al \<Longrightarrow> heights_ok (AList.delete h al)"
  by (auto simp: heights_ok_def AList.delete_conv' AList.distinct_delete)

lemma pinned_update [simp]:
  "pinned g (AList.update h cp al) = (if h = 0 then cpt_Hash cp = g else pinned g al)"
  by (simp add: pinned_def AList.update_conv')

lemma pinned_delete: "h \<noteq> 0 \<Longrightarrow> pinned g (AList.delete h al) = pinned g al"
  by (simp add: pinned_def AList.delete_conv')

lemma heights_okD:
  "heights_ok al \<Longrightarrow> map_of al h = Some cp \<Longrightarrow> cpt_Height cp = h \<and> (h = 0 \<longrightarrow> cpt_IsGenesis cp)"
  by (simp add: heights_ok_def)

lemma heights_ok_set: "heights_ok al \<Longrightarrow> (h, cp) \<in> set al \<Longrightarrow> map_of al h = Some cp"
  by (simp add: heights_ok_def)

lemma heights_ok_perm:
  assumes "heights_ok al" and "mset bl = mset al"
  shows "heights_ok bl \<and> map_of bl = map_of al"
proof -
  have "distinct (map fst bl)"
    using assms by (metis heights_ok_def mset_eq_imp_distinct_iff mset_map)
  moreover from this have "map_of bl = map_of al"
    using assms by (metis heights_ok_def map_of_inject_set set_mset_mset)
  ultimately show ?thesis using assms(1) by (simp add: heights_ok_def)
qed

lemma put_checkpoint_sel [simp]:
  "ck_checkpoints (put_checkpoint h cp c) = AList.update h cp (ck_checkpoints c)"
  "ck_config (put_checkpoint h cp c) = ck_config c" "ck_genesisValid (put_checkpoint h cp c) = ck_genesisValid c"
  "ck_initialized (put_checkpoint h cp c) = ck_initialized c" "ck_keyPair (put_checkpoint h cp c) = ck_keyPair c"
  "ck_trustedKeys (put_checkpoint h cp c) = ck_trustedKeys c" "ck_dataDir (put_checkpoint h cp c) = ck_dataDir c"
  "ck_configPath (put_checkpoint h cp c) = ck_configPath c"
  by (simp_all add: put_checkpoint_def)

lemma updateSortedHeights_sel [simp]:
  "ck_checkpoints (updateSortedHeights c) = ck_checkpoints c" "ck_config (updateSortedHeights c) = ck_config c"
  "ck_genesisValid (updateSortedHeights c) = ck_genesisValid c"
  "ck_initialized (updateSortedHeights c) = ck_initialized c" "ck_keyPair (updateSortedHeights c) = ck_keyPair c"
  "ck_trustedKeys (updateSortedHeights c) = ck_trustedKeys c" "ck_dataDir (updateSortedHeights c) = ck_dataDir c"
  "ck_configPath (updateSortedHeights c) = ck_configPath c"
  by (simp_all add: updateSortedHeights_def)

lemma GetCheckpoint_put [simp]:
  "GetCheckpoint (put_checkpoint h cp c) k = (if k = h then Some cp else GetCheckpoint c k)"
  by (simp add: GetCheckpoint_def AList.update_conv')

lemma GetCheckpoint_updateSortedHeights [simp]: "GetCheckpoint (updateSortedHeights c) = GetCheckpoint c"
  by (simp add: GetCheckpoint_def fun_eq_iff)

lemma mark_genesis_sel [simp]:
  "cpt_Height (mark_genesis cp) = cpt_Height cp" "cpt_Hash (mark_genesis cp) = cpt_Hash cp"
  "cpt_Signatures (mark_genesis cp) = cpt_Signatures cp" "cpt_Verifications (mark_genesis cp) = cpt_Verifications cp"
  "cpt_Height cp = 0 \<Longrightarrow> cpt_IsGenesis (mark_genesis cp)"
  by (simp_all add: mark_genesis_def)

text \<open>What a running manager keeps.\<close>

definition ckpt_inv :: "hash \<Rightarrow> ('p, 'k) checkpoints \<Rightarrow> bool" where
  "ckpt_inv g c =
     (heights_ok (ck_checkpoints c) \<and> pinned g (ck_checkpoints c) \<and> lc_GenesisHash (ck_config c) = g \<and> ready c)"

lemma ckpt_inv_put:
  assumes "ckpt_inv g c" and "cpt_Height cp = h" and "h = 0 \<Longrightarrow> cpt_IsGenesis cp \<and> cpt_Hash cp = g"
  shows "ckpt_inv g (put_checkpoint h cp c)"
  using assms by (auto simp: ckpt_inv_def ready_def)

lemma ckpt_inv_sorted [simp]: "ckpt_inv g (updateSortedHeights c) = ckpt_inv g c"
  by (simp add: ckpt_inv_def ready_def)

lemma ckpt_inv_lookup:
  "ckpt_inv g c \<Longrightarrow> GetCheckpoint c h = Some cp \<Longrightarrow>
    cpt_Height cp = h \<and> (h = 0 \<longrightarrow> cpt_IsGenesis cp \<and> cpt_Hash cp = g)"
  by (auto simp: ckpt_inv_def GetCheckpoint_def pinned_def dest: heights_okD)

lemma ckpt_inv_save: "ckpt_inv g c \<Longrightarrow> ckpt_inv g (fst (saveCheckpointsToConfig X order now c files))"
  by (simp add: saveCheckpointsToConfig_def ckpt_inv_def ready_def Let_def)

lemma install_signed_lookup:
  assumes "install_signed X order now cp c files = (Inr u, c', files')"
  shows "\<exists>sig. sign_with X c now cp = Inr sig
    \<and> GetCheckpoint c' = (GetCheckpoint c)(cpt_Height cp \<mapsto> cp\<lparr>cpt_Signatures := [sig]\<rparr>)"
proof (cases "sign_with X c now cp")
  case (Inr sig)
  with assms show ?thesis
    by (auto simp: install_signed_def saveCheckpointsToConfig_def GetCheckpoint_def fun_eq_iff AList.update_conv' Let_def)
qed (use assms in \<open>simp add: install_signed_def\<close>)

lemma ckpt_inv_install_signed:
  assumes "install_signed X order now cp c files = (r, c', files')" and "ckpt_inv g c"
    and "cpt_Height cp = 0 \<Longrightarrow> cpt_IsGenesis cp \<and> cpt_Hash cp = g"
  shows "ckpt_inv g c'"
proof (cases "sign_with X c now cp")
  case (Inl e)
  with assms show ?thesis by (simp add: install_signed_def)
next
  case (Inr sig)
  with assms(1) have "c' = fst (saveCheckpointsToConfig X order now
      (updateSortedHeights (put_checkpoint (cpt_Height cp) (cp\<lparr>cpt_Signatures := [sig]\<rparr>) c)) files)"
    by (simp add: install_signed_def)
  with assms(2,3) show ?thesis by (simp add: ckpt_inv_save ckpt_inv_put)
qed

lemma ckpt_inv_AddCheckpoint:
  assumes "ckpt_inv g c" and "AddCheckpoint X order now h hash ph m k n gas c files = (r, c', files')"
  shows "ckpt_inv g c'"
proof (cases "hash = zero_hash \<or> h = 0 \<and> hash \<noteq> g")
  case True
  then consider "hash = zero_hash" | "hash \<noteq> zero_hash" "h = 0" "hash \<noteq> g" by blast
  then show ?thesis using assms by cases (simp_all add: AddCheckpoint_def ckpt_inv_def)
next
  case ok: False
  from assms(1) have ready: "ready c" and g: "lc_GenesisHash (ck_config c) = g" by (simp_all add: ckpt_inv_def)
  define cp where "cp = local_checkpoint (lc_ChainID (ck_config c)) now h hash ph m k n gas"
  have gen: "cpt_Height cp = 0 \<Longrightarrow> cpt_IsGenesis cp \<and> cpt_Hash cp = g"
    using ok by (simp add: cp_def local_checkpoint_def)
  have add: "AddCheckpoint X order now h hash ph m k n gas c files =
      (case GetCheckpoint c h of
         None \<Rightarrow> install_signed X order now cp c files
       | Some existing \<Rightarrow>
           if cpt_Hash existing = hash
           then (Inr (), put_checkpoint h (existing\<lparr>cpt_Verifications := cpt_Verifications existing + 1\<rparr>) c, files)
           else if sint (cpt_Verifications existing) > 5 then (Inl CK_Conflict, c, files)
           else install_signed X order now cp (c\<lparr>ck_checkpoints := AList.delete h (ck_checkpoints c)\<rparr>) files)"
  proof -
    have "hash \<noteq> zero_hash" and "\<not> (h = 0 \<and> hash \<noteq> lc_GenesisHash (ck_config c))" using ok g by auto
    then show ?thesis by (simp only: AddCheckpoint_def Let_def cp_def ready not_True_eq_False if_False)
  qed
  show ?thesis
  proof (cases "GetCheckpoint c h")
    case None
    with add assms(2) have "install_signed X order now cp c files = (r, c', files')" by simp
    then show ?thesis using assms(1) gen by (rule ckpt_inv_install_signed)
  next
    case (Some old)
    note o = ckpt_inv_lookup [OF assms(1) Some]
    consider "cpt_Hash old = hash" | "cpt_Hash old \<noteq> hash" "sint (cpt_Verifications old) > 5"
      | "cpt_Hash old \<noteq> hash" "\<not> sint (cpt_Verifications old) > 5" by blast
    then show ?thesis
    proof cases
      case 1
      with add Some o assms show ?thesis by (auto intro!: ckpt_inv_put)
    next
      case 2
      with add Some assms show ?thesis by simp
    next
      case 3
      with o ok have "h \<noteq> 0" by auto
      then have "ckpt_inv g (c\<lparr>ck_checkpoints := AList.delete h (ck_checkpoints c)\<rparr>)"
        using assms(1) by (auto simp: ckpt_inv_def ready_def pinned_delete)
      moreover from 3 add Some assms(2)
      have "install_signed X order now cp (c\<lparr>ck_checkpoints := AList.delete h (ck_checkpoints c)\<rparr>) files = (r, c', files')"
        by simp
      ultimately show ?thesis using gen by (metis ckpt_inv_install_signed)
    qed
  qed
qed

lemma AddCheckpoint_lookup:
  assumes "AddCheckpoint X order now h hash ph m k n gas c files = (Inr u, c', files')"
  shows "\<exists>cp. GetCheckpoint c' h = Some cp \<and> cpt_Hash cp = hash"
proof -
  define cp where "cp = local_checkpoint (lc_ChainID (ck_config c)) now h hash ph m k n gas"
  have cp: "cpt_Height cp = h" "cpt_Hash cp = hash" by (simp_all add: cp_def local_checkpoint_def)
  consider (same) old where "GetCheckpoint c h = Some old" "cpt_Hash old = hash"
      "c' = put_checkpoint h (old\<lparr>cpt_Verifications := cpt_Verifications old + 1\<rparr>) c"
    | (new) d where "install_signed X order now cp d files = (Inr u, c', files')"
    using assms by (auto simp: AddCheckpoint_def cp_def [symmetric] Let_def split: if_splits option.splits)
  then show ?thesis
  proof cases
    case same
    then show ?thesis by simp
  next
    case new
    from install_signed_lookup [OF this] cp show ?thesis by auto
  qed
qed

lemma ckpt_inv_process_one: "ckpt_inv g (fst acc) \<Longrightarrow> ckpt_inv g (fst (process_one X cp acc))"
  by (auto simp: process_one_def Let_def split: prod.splits option.splits intro!: ckpt_inv_put
      dest: ckpt_inv_lookup) (auto simp: ckpt_inv_def)

lemma ckpt_inv_process: "ckpt_inv g c \<Longrightarrow> ckpt_inv g (fst (processRemoteCheckpoints X cps c))"
  using fold_invariant [of cps "\<lambda>_. True" "\<lambda>acc. ckpt_inv g (fst acc)" "(c, 0)" "process_one X"]
  by (simp add: processRemoteCheckpoints_def ckpt_inv_process_one split_beta)

lemma ckpt_inv_sync_one: "ckpt_inv g (fst acc) \<Longrightarrow> ckpt_inv g (fst (sync_one X reply remote acc))"
  by (auto simp: sync_one_def ckpt_inv_process split: prod.splits sum.splits)

lemma ckpt_inv_status [simp]: "ckpt_inv g (c\<lparr>ck_syncStatus := s\<rparr>) = ckpt_inv g c"
  by (simp add: ckpt_inv_def ready_def)

lemma ckpt_inv_sync:
  assumes "ckpt_inv g c" and "syncWithRemotes X order now reply c files = (r, c', files')"
  shows "ckpt_inv g c'"
proof -
  obtain c1 errs where f: "fold (sync_one X reply) (lc_TrustedRemotes (ck_config c)) (c, []) = (c1, errs)"
    by fastforce
  have i: "ckpt_inv g c1"
    using fold_invariant [of "lc_TrustedRemotes (ck_config c)" "\<lambda>_. True" "\<lambda>acc. ckpt_inv g (fst acc)"
        "(c, [])" "sync_one X reply"] assms(1) f by (simp add: ckpt_inv_sync_one)
  from assms(1) have "ready c" by (simp add: ckpt_inv_def)
  with assms(2) f obtain s where "c' = c1\<lparr>ck_syncStatus := s\<rparr>
      \<or> c' = fst (saveCheckpointsToConfig X order now (c1\<lparr>ck_syncStatus := s\<rparr>) files)"
    by (auto simp: syncWithRemotes_def Let_def split: option.splits) (metis fst_conv)+
  with i show ?thesis by (auto intro: ckpt_inv_save)
qed

lemma sorted_le_last: "sorted xs \<Longrightarrow> x \<in> set xs \<Longrightarrow> x \<le> last xs"
  by (induction xs) auto

section \<open>What no operation changes\<close>

definition settings :: "('p, 'k) checkpoints \<Rightarrow> local_config \<times> string \<times> string \<times> ('p, 'k) key_pair option" where
  "settings c = ((ck_config c)\<lparr>lc_Checkpoints := [], lc_LastSync := None\<rparr>, ck_dataDir c, ck_configPath c, ck_keyPair c)"

lemma settings_simps [simp]:
  "settings (put_checkpoint h cp c) = settings c" "settings (updateSortedHeights c) = settings c"
  "settings (c\<lparr>ck_checkpoints := al\<rparr>) = settings c" "settings (c\<lparr>ck_syncStatus := s\<rparr>) = settings c"
  "settings (c\<lparr>ck_initialized := b\<rparr>) = settings c"
  "settings (fst (saveCheckpointsToConfig X order now c files)) = settings c"
  by (simp_all add: settings_def saveCheckpointsToConfig_def Let_def)

lemma saveCheckpoints_sel [simp]:
  "ck_checkpoints (fst (saveCheckpointsToConfig X order now c files)) = ck_checkpoints c"
  "ck_sortedHeights (fst (saveCheckpointsToConfig X order now c files)) = ck_sortedHeights c"
  "GetCheckpoint (fst (saveCheckpointsToConfig X order now c files)) = GetCheckpoint c"
  by (simp_all add: saveCheckpointsToConfig_def GetCheckpoint_def fun_eq_iff Let_def)

lemma settings_install_signed: "install_signed X order now cp c files = (r, c', files') \<Longrightarrow> settings c' = settings c"
  by (auto simp: install_signed_def split: sum.splits) (metis fst_conv settings_simps(1,2,6))

lemma settings_AddCheckpoint:
  assumes "AddCheckpoint X order now h hash ph m k n gas c files = (r, c', files')"
  shows "settings c' = settings c"
  using assms
  by (auto simp: AddCheckpoint_def Let_def split: if_splits option.splits dest!: settings_install_signed)

lemma settings_process_one: "settings (fst (process_one X cp acc)) = settings (fst acc)"
  by (simp add: process_one_def Let_def split: prod.splits option.splits)

lemma settings_process: "settings (fst (processRemoteCheckpoints X cps c)) = settings c"
  using fold_invariant [of cps "\<lambda>_. True" "\<lambda>acc. settings (fst acc) = settings c" "(c, 0)" "process_one X"]
  by (simp add: processRemoteCheckpoints_def settings_process_one split_beta)

lemma settings_sync_one: "settings (fst (sync_one X reply remote acc)) = settings (fst acc)"
  by (simp add: sync_one_def settings_process split: prod.splits sum.splits)

lemma settings_sync:
  assumes "syncWithRemotes X order now reply c files = (r, c', files')"
  shows "settings c' = settings c"
proof (cases "ready c")
  case True
  obtain c1 errs where f: "fold (sync_one X reply) (lc_TrustedRemotes (ck_config c)) (c, []) = (c1, errs)"
    by fastforce
  have "settings c1 = settings c"
    using fold_invariant [of "lc_TrustedRemotes (ck_config c)" "\<lambda>_. True" "\<lambda>acc. settings (fst acc) = settings c"
        "(c, [])" "sync_one X reply"] f by (simp add: settings_sync_one)
  moreover from assms f True obtain s where "c' = c1\<lparr>ck_syncStatus := s\<rparr>
      \<or> c' = fst (saveCheckpointsToConfig X order now (c1\<lparr>ck_syncStatus := s\<rparr>) files)"
    by (auto simp: syncWithRemotes_def Let_def split: option.splits) (metis fst_conv)+
  ultimately show ?thesis by auto
qed (use assms in \<open>simp add: syncWithRemotes_def\<close>)

definition config_ok :: "('p, 'k) key_lib \<Rightarrow> local_config \<Rightarrow> bool" where
  "config_ok L cfg =
     (lc_SyncInterval cfg \<noteq> 0 \<and> lc_Weight cfg \<noteq> 0 \<and> lc_ChainID cfg \<noteq> [] \<and> lc_PrivateKey cfg \<noteq> []
      \<and> (\<exists>kp. ParseSSHPrivateKey L (lc_PrivateKey cfg) = Inr kp))"

definition keys_ok :: "('p, 'k) key_lib \<Rightarrow> ('p, 'k) checkpoints \<Rightarrow> bool" where
  "keys_ok L c = (config_ok L (ck_config c) \<and> (\<exists>kp. ck_keyPair c = Some kp \<and> pair_ok L kp))"

lemma keys_ok_settings: "settings c' = settings c \<Longrightarrow> keys_ok L c' = keys_ok L c"
  by (auto simp: settings_def keys_ok_def config_ok_def dest: arg_cong [where f = lc_PrivateKey]
      arg_cong [where f = lc_SyncInterval] arg_cong [where f = lc_Weight] arg_cong [where f = lc_ChainID])

lemma config_ok_defaults: "config_ok L cfg \<Longrightarrow> with_defaults cfg = cfg"
  by (simp add: config_ok_def with_defaults_def)

section \<open>Starting\<close>

lemma loadCheckpoints_heights:
  assumes "heights_ok (ck_checkpoints c)"
  shows "heights_ok (ck_checkpoints (loadCheckpointsFromConfig c))"
proof -
  have "heights_ok (ck_checkpoints (fold (\<lambda>cp. put_checkpoint (cpt_Height cp) (mark_genesis cp)) cps c))" for cps
    using assms by (induction cps arbitrary: c) (simp_all add: heights_ok_update)
  then show ?thesis by (simp add: loadCheckpointsFromConfig_def)
qed

lemma loadCheckpoints_settings: "settings (loadCheckpointsFromConfig c) = settings c
    \<and> ck_config (loadCheckpointsFromConfig c) = ck_config c \<and> ck_genesisValid (loadCheckpointsFromConfig c) = ck_genesisValid c"
  using fold_invariant [of "lc_Checkpoints (ck_config c)" "\<lambda>_. True"
      "\<lambda>d. settings d = settings c \<and> ck_config d = ck_config c \<and> ck_genesisValid d = ck_genesisValid c"
      c "\<lambda>cp. put_checkpoint (cpt_Height cp) (mark_genesis cp)"]
  by (simp add: loadCheckpointsFromConfig_def)

text \<open>The genesis checkpoint is created when there is none for this hash.\<close>

lemma ensureGenesis_fresh:
  assumes "ensureGenesisCheckpoint X g now c = Inr c'" and "\<not> (\<exists>cp. GetCheckpoint c 0 = Some cp \<and> cpt_Hash cp = g)"
  obtains cp where "cpt_Height cp = 0" and "cpt_Hash cp = g" and "cpt_IsGenesis cp" and "c' = install_genesis c cp"
proof -
  let ?cp = "genesis_checkpoint (cx_crypto X) (lc_ChainID (ck_config c)) g"
  from assms have "c' = install_genesis c ?cp \<or>
      (\<exists>sig. c' = install_genesis c (?cp\<lparr>cpt_Signatures := cpt_Signatures ?cp @ [sig]\<rparr>))"
    by (auto simp: ensureGenesisCheckpoint_def Let_def split: option.splits if_splits sum.splits)
  then show ?thesis
  proof (elim disjE exE)
    assume "c' = install_genesis c ?cp"
    then show ?thesis by (intro that [of ?cp]) (simp_all add: genesis_checkpoint_def Let_def)
  next
    fix sig assume "c' = install_genesis c (?cp\<lparr>cpt_Signatures := cpt_Signatures ?cp @ [sig]\<rparr>)"
    then show ?thesis
      by (intro that [of "?cp\<lparr>cpt_Signatures := cpt_Signatures ?cp @ [sig]\<rparr>"]) (simp_all add: genesis_checkpoint_def Let_def)
  qed
qed

lemma ensureGenesis:
  assumes "ensureGenesisCheckpoint X g now c = Inr c'" and "heights_ok (ck_checkpoints c)"
  shows "heights_ok (ck_checkpoints c') \<and> pinned g (ck_checkpoints c') \<and> settings c' = settings c
    \<and> lc_GenesisHash (ck_config c') = lc_GenesisHash (ck_config c) \<and> ck_genesisValid c' = ck_genesisValid c"
proof (cases "\<exists>cp. GetCheckpoint c 0 = Some cp \<and> cpt_Hash cp = g")
  case True
  then obtain cp where cp: "GetCheckpoint c 0 = Some cp" "cpt_Hash cp = g" by blast
  with assms have c': "c' = put_checkpoint 0 (cp\<lparr>cpt_IsGenesis := True\<rparr>) c"
    by (simp add: ensureGenesisCheckpoint_def)
  from heights_okD [OF assms(2)] cp have "cpt_Height cp = 0" by (simp add: GetCheckpoint_def)
  with assms(2) cp(2) show ?thesis by (auto simp: c')
next
  case False
  obtain cp where cp: "cpt_Height cp = 0" "cpt_Hash cp = g" "cpt_IsGenesis cp" and c': "c' = install_genesis c cp"
    by (rule ensureGenesis_fresh [OF assms(1) False])
  with assms(2) show ?thesis by (auto simp: settings_def install_genesis_def)
qed

lemma map_fixed: "(\<And>x. x \<in> set xs \<Longrightarrow> f x = x) \<Longrightarrow> map f xs = xs"
  by (induction xs) auto

lemma verifyAll_unchanged:
  assumes "heights_ok (ck_checkpoints c)" and "pinned (lc_GenesisHash (ck_config c)) (ck_checkpoints c)"
  shows "verifyAllCheckpoints X order now c files = (updateSortedHeights c, files)"
proof -
  let ?g = "lc_GenesisHash (ck_config c)"
  have ok: "genesis_ok ?g e \<and> (fst e = 0 \<longrightarrow> cpt_IsGenesis (snd e))" if "e \<in> set (ck_checkpoints c)" for e
    using that assms heights_ok_set [OF assms(1), of "fst e" "snd e"] heights_okD [OF assms(1), of "fst e" "snd e"]
    by (auto simp: genesis_ok_def pinned_def)
  then have f: "filter (genesis_ok ?g) (ck_checkpoints c) = ck_checkpoints c" by (auto intro: filter_True)
  have "(case e of (h, cp) \<Rightarrow> (h, if h = 0 then cp\<lparr>cpt_IsGenesis := True\<rparr> else cp)) = e"
    if "e \<in> set (ck_checkpoints c)" for e
    using ok [OF that] by (cases e) simp
  then have "map (\<lambda>(h, cp). (h, if h = 0 then cp\<lparr>cpt_IsGenesis := True\<rparr> else cp)) (ck_checkpoints c) = ck_checkpoints c"
    by (rule map_fixed)
  with ok show ?thesis by (auto simp: verifyAllCheckpoints_def Let_def f)
qed

lemma start_manager_inv:
  assumes "start_manager X dataDir path g now order (kp, cfg, files) = (Inr c, files')"
    and "lc_GenesisHash cfg = g"
  shows "ckpt_inv g c \<and> settings c = (cfg\<lparr>lc_Checkpoints := [], lc_LastSync := None\<rparr>, dataDir, path, Some kp)"
proof -
  define c0 where "c0 = empty_manager (cx_lib X) dataDir path g kp cfg"
  have c0: "ck_checkpoints c0 = []" "ck_config c0 = cfg" "ck_genesisValid c0"
    "settings c0 = (cfg\<lparr>lc_Checkpoints := [], lc_LastSync := None\<rparr>, dataDir, path, Some kp)"
    using assms(2) by (simp_all add: c0_def empty_manager_def settings_def)
  from assms(1) obtain c1 where c1: "ensureGenesisCheckpoint X g now (loadCheckpointsFromConfig c0) = Inr c1"
    and c: "\<exists>c2. verifyAllCheckpoints X order now c1 files = (c2, files') \<and> c = c2\<lparr>ck_initialized := True\<rparr>"
    by (auto simp: start_manager_def c0_def split: sum.splits prod.splits)
  have "heights_ok (ck_checkpoints (loadCheckpointsFromConfig c0))"
    by (rule loadCheckpoints_heights) (simp add: c0)
  note e = ensureGenesis [OF c1 this] and l = loadCheckpoints_settings [of c0]
  from e l assms(2) have g: "lc_GenesisHash (ck_config c1) = g" by (simp add: c0)
  with e c verifyAll_unchanged [of c1 X order now files] have "c = (updateSortedHeights c1)\<lparr>ck_initialized := True\<rparr>"
    by auto
  with e l g show ?thesis by (auto simp: ckpt_inv_def ready_def c0)
qed

lemma loadConfig_defaults:
  assumes "loadConfig X dataDir path configPath files = (Inr cfg, files1)"
  shows "lc_SyncInterval cfg \<noteq> 0 \<and> lc_Weight cfg \<noteq> 0 \<and> lc_ChainID cfg \<noteq> []"
proof -
  have "lc_SyncInterval cfg \<noteq> 0 \<and> lc_Weight cfg \<noteq> 0 \<and> lc_ChainID cfg \<noteq> []" if "parse_config X data = Inr cfg" for data
    using that by (auto simp: parse_config_def with_defaults_def one_hour_def split: option.splits if_splits)
  then show ?thesis
    using assms by (auto simp: loadConfig_def split: option.splits sum.splits)
qed

lemma initSSHKey_keys:
  assumes "initSSHKey X dataDir path cfg0 files0 = Inr (kp, cfg, files)"
  shows "pair_ok (cx_lib X) kp \<and> lc_GenesisHash cfg = lc_GenesisHash cfg0 \<and> lc_SyncInterval cfg = lc_SyncInterval cfg0
    \<and> lc_Weight cfg = lc_Weight cfg0 \<and> lc_ChainID cfg = lc_ChainID cfg0"
    and "key_formats (cx_lib X) \<Longrightarrow>
      lc_PrivateKey cfg \<noteq> [] \<and> (\<exists>kp. ParseSSHPrivateKey (cx_lib X) (lc_PrivateKey cfg) = Inr kp)"
proof -
  let ?L = "cx_lib X"
  consider (given) "lc_PrivateKey cfg0 \<noteq> []" "ParseSSHPrivateKey ?L (lc_PrivateKey cfg0) = Inr kp" "cfg = cfg0"
    | (made) p k where "kl_generate ?L 4096 = Some p" "kl_public ?L p = Some k"
        "kp = pair_of ?L p k (lc_AuthorityName cfg0)"
        "cfg = cfg0\<lparr>lc_PrivateKey := kl_pem_encode ?L ''RSA PRIVATE KEY'' (kl_pkcs1_encode ?L p),
                    lc_PublicKey := kp_PublicStr kp\<rparr>"
  proof (cases "lc_PrivateKey cfg0 = []")
    case True
    with assms obtain p k where "kl_generate ?L 4096 = Some p" "kl_public ?L p = Some k"
      by (simp add: initSSHKey_def Let_def split: option.splits)
    with assms True show ?thesis by (intro made) (auto simp: initSSHKey_def Let_def)
  next
    case False
    with assms show ?thesis by (intro given) (simp_all add: initSSHKey_def Let_def split: sum.splits)
  qed
  note cases = this
  from cases show "pair_ok ?L kp \<and> lc_GenesisHash cfg = lc_GenesisHash cfg0 \<and> lc_SyncInterval cfg = lc_SyncInterval cfg0
    \<and> lc_Weight cfg = lc_Weight cfg0 \<and> lc_ChainID cfg = lc_ChainID cfg0"
    by cases (simp_all add: ParseSSHPrivateKey_ok pair_of_ok)
  assume "key_formats ?L"
  with cases show "lc_PrivateKey cfg \<noteq> [] \<and> (\<exists>kp. ParseSSHPrivateKey ?L (lc_PrivateKey cfg) = Inr kp)"
    by cases (auto simp: key_formats.generated_key_parses key_formats.pem_text)
qed

text \<open>A start ends in \<open>start_manager\<close> on a configuration for this genesis block.\<close>

lemma NewCheckpoints_start:
  assumes "NewCheckpoints X dataDir configPath g now order files = (Inr c, files')"
  obtains kp cfg files1 cfg0 files0 path where
    "start_manager X dataDir path g now order (kp, cfg, files1) = (Inr c, files')"
    and "initSSHKey X dataDir path cfg0 files0 = Inr (kp, cfg, files1)" and "lc_GenesisHash cfg0 = g"
    and "lc_SyncInterval cfg0 \<noteq> 0" and "lc_Weight cfg0 \<noteq> 0" and "lc_ChainID cfg0 \<noteq> []"
proof -
  define path where "path = (if configPath = [] then cx_join X dataDir ''checkpoints.json'' else configPath)"
  from assms obtain cfg files1 where l: "loadConfig X dataDir path configPath files = (Inr cfg, files1)"
    by (auto simp: NewCheckpoints_def Let_def path_def split: if_splits prod.splits sum.splits)
  define cfg2 where "cfg2 = (if lc_GenesisHash cfg = zero_hash then cfg\<lparr>lc_GenesisHash := g\<rparr> else cfg)"
  define files2 where "files2 = (if lc_GenesisHash cfg = zero_hash
      then or_unchanged files1 (saveConfig X dataDir path cfg2 files1) else files1)"
  have mk: "cx_mkdir X dataDir" and g: "\<not> (lc_GenesisHash cfg \<noteq> zero_hash \<and> lc_GenesisHash cfg \<noteq> g)"
    using assms by (auto simp: NewCheckpoints_def Let_def path_def [symmetric] l split: if_splits)
  have eq: "NewCheckpoints X dataDir configPath g now order files =
      (case initSSHKey X dataDir path cfg2 files2 of
         Inl e \<Rightarrow> (Inl e, files2) | Inr r \<Rightarrow> start_manager X dataDir path g now order r)"
    unfolding NewCheckpoints_def Let_def path_def [symmetric] cfg2_def files2_def
    using mk g by (simp only: l prod.case sum.case if_False if_True not_True_eq_False)
  then obtain r where r: "initSSHKey X dataDir path cfg2 files2 = Inr r"
    and st: "start_manager X dataDir path g now order r = (Inr c, files')"
    using assms by (auto split: sum.splits)
  obtain kp cfg3 files3 where r3: "r = (kp, cfg3, files3)" by (cases r)
  have "lc_GenesisHash cfg2 = g" using g by (auto simp: cfg2_def)
  moreover have "lc_SyncInterval cfg2 \<noteq> 0 \<and> lc_Weight cfg2 \<noteq> 0 \<and> lc_ChainID cfg2 \<noteq> []"
    using loadConfig_defaults [OF l] by (simp add: cfg2_def)
  ultimately show ?thesis using that [of path kp cfg3 files3 cfg2 files2] r st r3 by simp
qed

inductive ckpt_reach :: "('p, 'k) ckpt_env \<Rightarrow> hash \<Rightarrow> ('p, 'k) checkpoints \<Rightarrow> bool" for X g where
  started: "NewCheckpoints X dataDir configPath g now order files = (Inr c, files') \<Longrightarrow> ckpt_reach X g c"
| added: "ckpt_reach X g c \<Longrightarrow> AddCheckpoint X order now h hash ph m k n gas c files = (r, c', files') \<Longrightarrow>
    ckpt_reach X g c'"
| synced: "ckpt_reach X g c \<Longrightarrow> syncWithRemotes X order now reply c files = (r, c', files') \<Longrightarrow> ckpt_reach X g c'"
| saved: "ckpt_reach X g c \<Longrightarrow> ckpt_reach X g (fst (saveCheckpointsToConfig X order now c files))"

lemma ckpt_reach_inv: "ckpt_reach X g c \<Longrightarrow> ckpt_inv g c"
proof (induction rule: ckpt_reach.induct)
  case (started dataDir configPath now order files c files')
  then show ?case
    by (rule NewCheckpoints_start) (metis initSSHKey_keys(1) start_manager_inv)
qed (auto intro: ckpt_inv_AddCheckpoint ckpt_inv_sync ckpt_inv_save)

lemma ckpt_reach_keys:
  assumes "ckpt_reach X g c" and "key_formats (cx_lib X)"
  shows "keys_ok (cx_lib X) c"
  using assms(1)
proof (induction rule: ckpt_reach.induct)
  case (started dataDir configPath now order files c files')
  from started obtain kp cfg files1 cfg0 files0 path where
    st: "start_manager X dataDir path g now order (kp, cfg, files1) = (Inr c, files')"
    and key: "initSSHKey X dataDir path cfg0 files0 = Inr (kp, cfg, files1)" and g: "lc_GenesisHash cfg0 = g"
    and ok: "lc_SyncInterval cfg0 \<noteq> 0" "lc_Weight cfg0 \<noteq> 0" "lc_ChainID cfg0 \<noteq> []"
    by (rule NewCheckpoints_start)
  note k = initSSHKey_keys(1) [OF key] and f = initSSHKey_keys(2) [OF key assms(2)]
  have "settings c = (cfg\<lparr>lc_Checkpoints := [], lc_LastSync := None\<rparr>, dataDir, path, Some kp)"
    using start_manager_inv [OF st] k g by simp
  then have "ck_keyPair c = Some kp" and "lc_PrivateKey (ck_config c) = lc_PrivateKey cfg"
    and "lc_SyncInterval (ck_config c) = lc_SyncInterval cfg" and "lc_Weight (ck_config c) = lc_Weight cfg"
    and "lc_ChainID (ck_config c) = lc_ChainID cfg"
    by (auto simp: settings_def dest: arg_cong [where f = lc_PrivateKey] arg_cong [where f = lc_SyncInterval]
        arg_cong [where f = lc_Weight] arg_cong [where f = lc_ChainID])
  with k f ok show ?case by (simp add: keys_ok_def config_ok_def)
qed (metis keys_ok_settings settings_AddCheckpoint settings_sync settings_simps(6))+

section \<open>Restarting\<close>

lemma mark_genesis_id: "(cpt_Height cp = 0 \<longrightarrow> cpt_IsGenesis cp) \<Longrightarrow> mark_genesis cp = cp"
  by (simp add: mark_genesis_def)

lemma heights_ok_Cons:
  assumes "heights_ok ((h, cp) # xs)"
  shows "map_of xs h = None \<and> cpt_Height cp = h \<and> (h = 0 \<longrightarrow> cpt_IsGenesis cp) \<and> heights_ok xs"
proof -
  from assms have d: "h \<notin> fst ` set xs" "distinct (map fst xs)" by (simp_all add: heights_ok_def)
  then have none: "map_of xs h = None" by (simp add: map_of_eq_None_iff)
  have "cpt_Height q = k \<and> (k = 0 \<longrightarrow> cpt_IsGenesis q)" if "map_of xs k = Some q" for k q
    using heights_okD [OF assms, of k q] that none by (cases "k = h") simp_all
  with d none heights_okD [OF assms, of h cp] show ?thesis by (simp add: heights_ok_def)
qed

lemma load_fold:
  assumes "heights_ok xs"
  shows "map_of (ck_checkpoints (fold (\<lambda>cp. put_checkpoint (cpt_Height cp) (mark_genesis cp)) (map snd xs) c)) =
    map_of (ck_checkpoints c) ++ map_of xs"
  using assms
proof (induction xs arbitrary: c)
  case (Cons x xs)
  obtain h cp where x: "x = (h, cp)" by (cases x)
  from heights_ok_Cons [OF Cons.prems [unfolded x]] have none: "map_of xs h = None"
    and cp: "cpt_Height cp = h" "mark_genesis cp = cp" and rest: "heights_ok xs"
    by (simp_all add: mark_genesis_id)
  with Cons.IH [OF rest, of "put_checkpoint h cp c"] show ?case
    by (auto simp: x cp AList.update_conv' map_add_def fun_eq_iff split: option.splits)
qed simp

lemma restart_from:
  assumes "files path = Some data" and "path \<noteq> []" and "cx_unjson X data = Some cfg"
    and "config_ok (cx_lib X) cfg" and g: "lc_GenesisHash cfg = g" and "cx_mkdir X dataDir"
    and xs: "lc_Checkpoints cfg = map snd xs" "heights_ok xs" "pinned g xs"
  shows "\<exists>c' files'. NewCheckpoints X dataDir path g now order files = (Inr c', files') \<and> GetCheckpoint c' = map_of xs"
proof -
  let ?L = "cx_lib X"
  have l: "loadConfig X dataDir path path files = (Inr cfg, files)"
    using assms(1,3,4) by (simp add: loadConfig_def parse_config_def config_ok_defaults)
  have cfg2: "(if lc_GenesisHash cfg = zero_hash then cfg\<lparr>lc_GenesisHash := g\<rparr> else cfg) = cfg"
    using g by (auto intro: local_config.equality)
  define files2 where "files2 = (if lc_GenesisHash cfg = zero_hash
      then or_unchanged files (saveConfig X dataDir path cfg files) else files)"
  from assms(4) obtain kp where kp: "initSSHKey X dataDir path cfg files2 = Inr (kp, cfg, files2)"
    by (auto simp: initSSHKey_def config_ok_def Let_def)
  have new: "NewCheckpoints X dataDir path g now order files = start_manager X dataDir path g now order (kp, cfg, files2)"
  proof -
    have ng: "(lc_GenesisHash cfg \<noteq> zero_hash \<and> lc_GenesisHash cfg \<noteq> g) = False" using g by simp
    show ?thesis
      unfolding NewCheckpoints_def Let_def
      by (simp only: assms(2,6) l prod.case sum.case cfg2 if_False ng files2_def [symmetric] kp not_True_eq_False)
  qed
  define c0 where "c0 = loadCheckpointsFromConfig (empty_manager ?L dataDir path g kp cfg)"
  have m: "GetCheckpoint c0 = map_of xs"
    using load_fold [OF xs(2), of "empty_manager ?L dataDir path g kp cfg"]
    by (simp add: c0_def loadCheckpointsFromConfig_def GetCheckpoint_def fun_eq_iff empty_manager_def xs(1))
  have h0: "heights_ok (ck_checkpoints c0)"
    unfolding c0_def by (rule loadCheckpoints_heights) (simp add: empty_manager_def)
  from xs(3) obtain cp where cp: "map_of xs 0 = Some cp" "cpt_Hash cp = g" by (auto simp: pinned_def)
  with xs(2) have "cp\<lparr>cpt_IsGenesis := True\<rparr> = cp"
    by (auto dest!: heights_okD intro!: checkpoint.equality)
  with cp m have e: "ensureGenesisCheckpoint X g now c0 = Inr (put_checkpoint 0 cp c0)"
    by (simp add: ensureGenesisCheckpoint_def)
  have "verifyAllCheckpoints X order now (put_checkpoint 0 cp c0) files2 = (updateSortedHeights (put_checkpoint 0 cp c0), files2)"
    using ensureGenesis [OF e h0] loadCheckpoints_settings [of "empty_manager ?L dataDir path g kp cfg"] g
    by (intro verifyAll_unchanged) (simp_all add: c0_def empty_manager_def)
  with e have "start_manager X dataDir path g now order (kp, cfg, files2) =
      (Inr ((updateSortedHeights (put_checkpoint 0 cp c0))\<lparr>ck_initialized := True\<rparr>), files2)"
    by (simp add: start_manager_def c0_def)
  moreover have "GetCheckpoint ((updateSortedHeights (put_checkpoint 0 cp c0))\<lparr>ck_initialized := True\<rparr>) = map_of xs"
    using m cp by (auto simp: GetCheckpoint_def fun_eq_iff AList.update_conv')
  ultimately show ?thesis unfolding new by blast
qed

text \<open>What JSON and the file system are relied upon for: the configuration is written, and read back.\<close>

definition config_saved :: "('p, 'k) ckpt_env \<Rightarrow> ('p, 'k) checkpoints \<Rightarrow> files \<Rightarrow> bool" where
  "config_saved X c files =
     (ck_configPath c \<noteq> [] \<and> (\<exists>data. files (ck_configPath c) = Some data \<and> cx_unjson X data = Some (ck_config c)))"

lemma saved_config:
  assumes "saveCheckpointsToConfig X order now c files = (c', files')" and "ck_configPath c \<noteq> []"
    and "saveConfig X (ck_dataDir c) (ck_configPath c) (ck_config c') files = Inr files'"
    and "\<And>cfg data. cx_json X cfg = Some data \<Longrightarrow> cx_unjson X data = Some cfg"
  shows "config_saved X c' files'"
proof -
  have "ck_configPath c' = ck_configPath c" using assms(1) by (auto simp: saveCheckpointsToConfig_def Let_def)
  moreover from assms(3,2) obtain data where "cx_json X (ck_config c') = Some data" "files' (ck_configPath c) = Some data"
    by (auto simp: saveConfig_def Let_def split: if_splits option.splits)
  ultimately show ?thesis using assms(2,4) by (auto simp: config_saved_def)
qed

lemma restart_saved:
  assumes "ckpt_reach X g c" and "key_formats (cx_lib X)" and "\<And>al. mset (order al) = mset al"
    and "saveCheckpointsToConfig X order now c files = (c1, files1)" and "config_saved X c1 files1"
    and "cx_mkdir X (ck_dataDir c)"
  shows "\<exists>c' files'. NewCheckpoints X (ck_dataDir c) (ck_configPath c) g now' order' files1 = (Inr c', files')
    \<and> GetCheckpoint c' = GetCheckpoint c"
proof -
  from assms(4) have c1: "c1 = fst (saveCheckpointsToConfig X order now c files)" by simp
  have path: "ck_configPath c1 = ck_configPath c" and cps: "lc_Checkpoints (ck_config c1) = map snd (order (ck_checkpoints c))"
    by (simp_all add: c1 saveCheckpointsToConfig_def Let_def)
  from ckpt_reach_inv [OF assms(1)] have inv: "ckpt_inv g c1" by (simp add: c1 ckpt_inv_save)
  from ckpt_reach_keys [OF assms(1,2)] have keys: "config_ok (cx_lib X) (ck_config c1)"
    using keys_ok_settings [of c1 c "cx_lib X"] by (metis c1 keys_ok_def settings_simps(6))
  from inv have al: "heights_ok (ck_checkpoints c)" "pinned g (ck_checkpoints c)"
    by (simp_all add: ckpt_inv_def c1)
  note perm = heights_ok_perm [OF al(1) assms(3) [of "ck_checkpoints c"]]
  from assms(5) obtain data where d: "ck_configPath c \<noteq> []" "files1 (ck_configPath c) = Some data"
    "cx_unjson X data = Some (ck_config c1)" by (auto simp: config_saved_def path)
  have pin: "pinned g (order (ck_checkpoints c))" using perm al(2) by (simp add: pinned_def)
  from inv have "lc_GenesisHash (ck_config c1) = g" by (simp add: ckpt_inv_def)
  from restart_from [where files = files1 and path = "ck_configPath c" and data = data and xs = "order (ck_checkpoints c)",
      OF d(2,1,3) keys this assms(6) cps conjunct1 [OF perm] pin, of now' order'] perm
  show ?thesis by (simp add: GetCheckpoint_def fun_eq_iff)
qed

section \<open>A manager to evaluate\<close>

text \<open>JSON that knows a list of configurations, and writes one as its position.\<close>

definition table_json :: "local_config list \<Rightarrow> local_config \<Rightarrow> bytes option" where
  "table_json cfgs cfg =
     (if cfg \<in> set cfgs then Some (be_bytes 8 (length (takeWhile (\<lambda>x. x \<noteq> cfg) cfgs))) else None)"

definition table_unjson :: "local_config list \<Rightarrow> bytes \<Rightarrow> local_config option" where
  "table_unjson cfgs data = (if be_value data < length cfgs then Some (cfgs ! be_value data) else None)"

lemma table_json_roundtrip:
  assumes "length cfgs < 1000" and "table_json cfgs cfg = Some data"
  shows "table_unjson cfgs data = Some cfg"
proof -
  let ?n = "length (takeWhile (\<lambda>x. x \<noteq> cfg) cfgs)"
  have "cfg \<in> set cfgs" and d: "data = be_bytes 8 ?n" using assms(2) by (auto simp: table_json_def split: if_splits)
  then have n: "?n < length cfgs" by (metis (full_types) length_takeWhile_le nat_less_le takeWhile_eq_all_conv takeWhile_eq_take take_all_iff le_refl)
  then have "cfgs ! ?n = cfg" using nth_length_takeWhile [OF n] by simp
  moreover have "be_value data = ?n" using n assms(1) by (simp add: d be_value_be_bytes)
  ultimately show ?thesis using n by (simp add: table_unjson_def)
qed

definition ck_genesis :: checkpoint where
  "ck_genesis = no_checkpoint\<lparr>cpt_Hash := 7, cpt_IsGenesis := True\<rparr>"

definition ck_cfg :: local_config where
  "ck_cfg = default_config\<lparr>lc_PrivateKey := ''R03'', lc_PublicKey := ''3'', lc_GenesisHash := 7,
     lc_Checkpoints := [ck_genesis]\<rparr>"

definition ck_env ::
    "crypto \<Rightarrow> (bytes \<Rightarrow> hash) \<Rightarrow> local_config list \<Rightarrow> (bytes \<Rightarrow> remote_response option) \<Rightarrow> (nat, nat) ckpt_env" where
  "ck_env C digest cfgs response =
     \<lparr>cx_lib = toy_keys digest, cx_crypto = C, cx_mkdir = (\<lambda>_. True), cx_writable = (\<lambda>_. True),
      cx_join = (\<lambda>d f. d @ CHR ''/'' # f), cx_dir = (\<lambda>p. p), cx_json = table_json (ck_cfg # cfgs),
      cx_unjson = table_unjson (ck_cfg # cfgs), cx_response = response\<rparr>"

definition ck_pair :: "nat \<Rightarrow> (nat, nat) key_pair" where
  "ck_pair p = pair_of (toy_keys (\<lambda>_. 0)) p p ''antdchain-checkpoint-authority''"

definition ck_mgr :: "(nat, nat) checkpoints" where
  "ck_mgr = \<lparr>ck_checkpoints = [(0, ck_genesis)], ck_sortedHeights = [0], ck_dataDir = ''d'', ck_configPath = ''c'',
     ck_config = ck_cfg, ck_keyPair = Some (ck_pair 3), ck_trustedKeys = Map.empty,
     ck_syncStatus = \<lparr>ss_LastSyncTime = None, ss_LastSyncHeight = 0, ss_IsSyncing = False,
                      ss_SyncErrors = [], ss_RemoteCount = 0\<rparr>,
     ck_initialized = True, ck_genesisValid = True\<rparr>"

lemma ck_mgr_started:
  "NewCheckpoints (ck_env C digest cfgs response) ''d'' ''c'' 7 0 id [''c'' \<mapsto> [0]] = (Inr ck_mgr, [''c'' \<mapsto> [0]])"
proof -
  let ?X = "ck_env C digest cfgs response" and ?f = "[''c'' \<mapsto> [0]] :: files"
  have sel: "cx_lib ?X = toy_keys digest" "cx_unjson ?X [0] = Some ck_cfg" "cx_mkdir ?X p" for p
    by (simp_all add: ck_env_def table_unjson_def be_value_def)
  have cfg: "with_defaults ck_cfg = ck_cfg" "lc_GenesisHash ck_cfg = 7" "lc_PrivateKey ck_cfg = ''R03''"
    "lc_Checkpoints ck_cfg = [ck_genesis]" "lc_TrustedRemotes ck_cfg = []"
    by (simp_all add: with_defaults_def ck_cfg_def default_config_def one_hour_def)
  have l: "loadConfig ?X ''d'' ''c'' ''c'' ?f = (Inr ck_cfg, ?f)"
    by (simp add: loadConfig_def parse_config_def sel cfg)
  have k: "initSSHKey ?X ''d'' ''c'' ck_cfg ?f = Inr (ck_pair 3, ck_cfg, ?f)"
    by (simp add: initSSHKey_def sel cfg ParseSSHPrivateKey_def toy_keys_def toy_kind_def hex_val_def
        ck_pair_def pair_of_def be_value_def)
  have g: "cpt_Height ck_genesis = 0" "cpt_Hash ck_genesis = 7" "cpt_IsGenesis ck_genesis" "mark_genesis ck_genesis = ck_genesis"
    "ck_genesis\<lparr>cpt_IsGenesis := True\<rparr> = ck_genesis"
    by (simp_all add: ck_genesis_def no_checkpoint_def mark_genesis_def)
  have "start_manager ?X ''d'' ''c'' 7 0 id (ck_pair 3, ck_cfg, ?f) = (Inr ck_mgr, ?f)"
    by (simp add: start_manager_def empty_manager_def loadCheckpointsFromConfig_def cfg put_checkpoint_def g
        updateSortedHeights_def ensureGenesisCheckpoint_def GetCheckpoint_def verifyAllCheckpoints_def genesis_ok_def
        loadTrustedKeys_def ck_mgr_def Let_def)
  then show ?thesis
    by (simp add: NewCheckpoints_def l sel cfg k zero_hash_def)
qed

lemma ck_mgr_reach: "ckpt_reach (ck_env C digest cfgs response) 7 ck_mgr"
  by (rule ckpt_reach.started [OF ck_mgr_started])

lemma ck_mgr_sel [simp]:
  "ck_configPath ck_mgr = ''c''" "ck_dataDir ck_mgr = ''d''" "ck_config ck_mgr = ck_cfg" "ready ck_mgr"
  "ck_keyPair ck_mgr = Some (ck_pair 3)" "ck_checkpoints ck_mgr = [(0, ck_genesis)]" "ck_trustedKeys ck_mgr = Map.empty"
  "ck_sortedHeights ck_mgr = [0]"
  by (simp_all add: ck_mgr_def ready_def)

lemma ck_env_sel [simp]:
  "cx_lib (ck_env C digest cfgs response) = toy_keys digest" "cx_crypto (ck_env C digest cfgs response) = C"
  "cx_mkdir (ck_env C digest cfgs response) p" "cx_writable (ck_env C digest cfgs response) p"
  "cx_response (ck_env C digest cfgs response) = response"
  "cx_json (ck_env C digest cfgs response) = table_json (ck_cfg # cfgs)"
  "cx_unjson (ck_env C digest cfgs response) = table_unjson (ck_cfg # cfgs)"
  by (simp_all add: ck_env_def)

lemma ck_pair_ok: "pair_ok (toy_keys digest) (ck_pair p)"
  by (simp add: pair_ok_def ck_pair_def pair_of_def toy_keys_def)

section \<open>What the manager guarantees\<close>

text \<open>
  C24: however a node's checkpoint manager is started, fed and saved, and whatever remote sources send, it
  accepts exactly the genesis block it was started with.
\<close>

theorem genesis_is_pinned:
  assumes "ckpt_reach X g c"
  shows "ValidateBlock X (Some c) 0 h = Inr () \<longleftrightarrow> h = g"
proof -
  from ckpt_reach_inv [OF assms] obtain cp where "GetCheckpoint c 0 = Some cp" "cpt_Hash cp = g" "ready c"
    by (auto simp: ckpt_inv_def pinned_def GetCheckpoint_def)
  then show ?thesis by (auto simp: ValidateBlock_def)
qed

lemma genesis_is_pinned_witness:
  "ValidateBlock (ck_env toy_crypto (\<lambda>_. 0) [] (\<lambda>_. None)) (Some ck_mgr) 0 7 = Inr ()"
  by (subst genesis_is_pinned [OF ck_mgr_reach]) simp

text \<open>
  C25: the checkpoints that a manager saves are the ones that it has after a restart, when it is the only
  one that writes its configuration file. The node runs a second manager on the same file, which can
  overwrite what the first one saved.
\<close>

theorem restart_keeps_the_checkpoints:
  assumes "ckpt_reach X g c" and "key_formats (cx_lib X)" and "\<And>al. mset (order al) = mset al"
    and "saveCheckpointsToConfig X order now c files = (c1, files1)" and "config_saved X c1 files1"
    and "cx_mkdir X (ck_dataDir c)"
  shows "\<exists>c' files'. NewCheckpoints X (ck_dataDir c) (ck_configPath c) g now' order' files1 = (Inr c', files')
    \<and> GetCheckpoint c' = GetCheckpoint c"
  by (rule restart_saved [OF assms])

definition ck_saved :: "int \<Rightarrow> local_config" where
  "ck_saved t = ck_cfg\<lparr>lc_LastSync := Some t\<rparr>"

lemma ck_mgr_saves:
  assumes "ck_saved t \<in> set cfgs" and "length cfgs < 900"
  shows "\<exists>c1 files1. saveCheckpointsToConfig (ck_env C digest cfgs response) id t ck_mgr files = (c1, files1)
    \<and> config_saved (ck_env C digest cfgs response) c1 files1"
proof -
  let ?X = "ck_env C digest cfgs response"
  have cfg: "ck_cfg\<lparr>lc_Checkpoints := [ck_genesis], lc_LastSync := Some t\<rparr> = ck_saved t"
    by (simp add: ck_saved_def ck_cfg_def)
  from assms(1) obtain data where d: "cx_json ?X (ck_saved t) = Some data" by (simp add: table_json_def)
  with assms(2) have "cx_unjson ?X data = Some (ck_saved t)" by (simp add: table_json_roundtrip)
  with d show ?thesis
    by (simp add: saveCheckpointsToConfig_def saveConfig_def cfg or_unchanged_def config_saved_def Let_def)
qed

lemma restart_keeps_the_checkpoints_witness:
  "\<exists>files1 c' files'. NewCheckpoints (ck_env toy_crypto (\<lambda>_. 0) [ck_saved 5] (\<lambda>_. None)) ''d'' ''c'' 7 6 id files1 = (Inr c', files')
    \<and> GetCheckpoint c' = GetCheckpoint ck_mgr"
proof -
  let ?X = "ck_env toy_crypto (\<lambda>_. 0) [ck_saved 5] (\<lambda>_. None)"
  obtain c1 files1 where s: "saveCheckpointsToConfig ?X id 5 ck_mgr Map.empty = (c1, files1)" "config_saved ?X c1 files1"
    using ck_mgr_saves [of 5 "[ck_saved 5]" toy_crypto "\<lambda>_. 0" "\<lambda>_. None" Map.empty] by auto
  have "key_formats (cx_lib ?X)" by (simp add: toy.key_formats_axioms)
  from restart_keeps_the_checkpoints [OF ck_mgr_reach this _ s, of 6 id] show ?thesis by auto
qed

text \<open>
  Two managers on one configuration file, as the node has them (one in the blockchain, one in the peer-to-peer
  layer): what the first adds is gone after a restart once the second, which has no such checkpoint, saves.
\<close>

theorem second_manager_erases_checkpoints:
  assumes "ckpt_reach X g c1" and "ckpt_reach X g c2" and "key_formats (cx_lib X)" and "\<And>al. mset (order al) = mset al"
    and "h \<noteq> 0" and "GetCheckpoint c1 h = None" and "GetCheckpoint c2 h = None"
    and "AddCheckpoint X order now h hash ph m k n gas c1 files = (Inr (), c1', files1)"
    and "saveCheckpointsToConfig X order now' c2 files1 = (c2', files2)" and "config_saved X c2' files2"
    and "cx_mkdir X (ck_dataDir c2)"
  shows "GetCheckpoint c1' h \<noteq> None
    \<and> (\<exists>c' files'. NewCheckpoints X (ck_dataDir c2) (ck_configPath c2) g now'' order'' files2 = (Inr c', files')
         \<and> GetCheckpoint c' h = None)"
proof -
  from assms(8) have "ready c1" "hash \<noteq> zero_hash" by (auto simp: AddCheckpoint_def split: if_splits)
  with assms(5,6,8) have "install_signed X order now
      (local_checkpoint (lc_ChainID (ck_config c1)) now h hash ph m k n gas) c1 files = (Inr (), c1', files1)"
    by (simp add: AddCheckpoint_def Let_def)
  from install_signed_lookup [OF this] have "GetCheckpoint c1' h \<noteq> None" by (auto simp: local_checkpoint_def)
  moreover from restart_saved [OF assms(2-4,9-11), of now'' order''] assms(7)
  have "\<exists>c' files'. NewCheckpoints X (ck_dataDir c2) (ck_configPath c2) g now'' order'' files2 = (Inr c', files')
      \<and> GetCheckpoint c' h = None" by fastforce
  ultimately show ?thesis ..
qed

lemma second_manager_erases_checkpoints_witness:
  "\<exists>c1' files1 files2 c' files'. AddCheckpoint (ck_env toy_crypto (\<lambda>_. 0) [ck_saved 5] (\<lambda>_. None)) id 4 1000 9 8 1 2 0 0 ck_mgr Map.empty =
      (Inr (), c1', files1) \<and> GetCheckpoint c1' 1000 \<noteq> None
    \<and> NewCheckpoints (ck_env toy_crypto (\<lambda>_. 0) [ck_saved 5] (\<lambda>_. None)) ''d'' ''c'' 7 6 id files2 = (Inr c', files')
    \<and> GetCheckpoint c' 1000 = None"
proof -
  let ?X = "ck_env toy_crypto (\<lambda>_. 0) [ck_saved 5] (\<lambda>_. None)"
  have "\<exists>sig. sign_with ?X ck_mgr 4 cp = Inr sig" for cp
    by (simp add: sign_with_def signCheckpoint_def sign_bytes_def ck_pair_def pair_of_def toy_keys_def toy_kind_def)
  then obtain sig where sig: "sign_with ?X ck_mgr 4 (local_checkpoint (lc_ChainID ck_cfg) 4 1000 9 8 1 2 0 0) = Inr sig"
    by blast
  obtain c1' files1 where add: "AddCheckpoint ?X id 4 1000 9 8 1 2 0 0 ck_mgr Map.empty = (Inr (), c1', files1)"
  proof -
    have "fst (AddCheckpoint ?X id 4 1000 9 8 1 2 0 0 ck_mgr Map.empty) = Inr ()"
      by (simp add: AddCheckpoint_def install_signed_def sig zero_hash_def GetCheckpoint_def Let_def)
    then show ?thesis using that by (metis prod.collapse)
  qed
  obtain c2' files2 where s: "saveCheckpointsToConfig ?X id 5 ck_mgr files1 = (c2', files2)" "config_saved ?X c2' files2"
    using ck_mgr_saves [of 5 "[ck_saved 5]" toy_crypto "\<lambda>_. 0" "\<lambda>_. None" files1] by auto
  have k: "key_formats (cx_lib ?X)" by (simp add: toy.key_formats_axioms)
  have n: "GetCheckpoint ck_mgr 1000 = None" by (simp add: GetCheckpoint_def)
  from second_manager_erases_checkpoints [OF ck_mgr_reach ck_mgr_reach k _ _ n n add s, of 6 id] add
  show ?thesis by auto
qed

text \<open>
  C26: whoever answers for a remote source replaces a checkpoint the node has by any other, with a key of its own: an
  unsigned answer is taken, a signature by any key that names the node's own authority counts, and the number
  of verifications is the answer's.
\<close>

theorem forged_authority_replaces_checkpoint:
  assumes "signature_scheme (cx_lib X)" and "ready c" and "pair_ok (cx_lib X) kp" and "fits (cx_lib X) kp"
    and "signCheckpoint (cx_lib X) (cx_crypto X) (lc_AuthorityName (ck_config c)) kp now forged = Inr sig"
    and "cpt_Height forged = h" and "h \<noteq> 0" and "GetCheckpoint c h = Some old" and "cpt_Hash old \<noteq> cpt_Hash forged"
    and "sint (cpt_Verifications old) \<le> sint v"
    and "rc_Enabled remote" and "reply remote = Http_Reply 200 (Some data)"
    and "cx_response X data = Some \<lparr>rr_Checkpoints = [forged\<lparr>cpt_Signatures := [sig], cpt_Verifications := v\<rparr>],
      rr_ChainID = rc_ChainID remote, rr_Timestamp = t, rr_Signatures = []\<rparr>"
  shows "\<exists>c'. sync_one X reply remote (c, []) = (c', [])
    \<and> ValidateBlock X (Some c') h (cpt_Hash forged) = Inr ()
    \<and> (\<exists>e. ValidateBlock X (Some c') h (cpt_Hash old) = Inl e)"
proof -
  let ?f = "forged\<lparr>cpt_Signatures := [sig], cpt_Verifications := v\<rparr>"
  have mark: "mark_genesis ?f = ?f" using assms(6,7) by (simp add: mark_genesis_def)
  have "createSignatureMessage (cx_crypto X) ?f = createSignatureMessage (cx_crypto X) forged"
    by (simp add: createSignatureMessage_def)
  then have "verify_with X c ?f sig = verify_with X c forged sig"
    by (simp only: verify_with_def verifySignature_def)
  then have "verify_with X c ?f sig"
    using signature_scheme.own_signature_verifies [OF assms(1,3-5)] by (simp add: verify_with_def)
  then have "process_one X ?f (c, 0) = (put_checkpoint h ?f c, 1)"
    using assms(6-10) by (simp add: process_one_def mark Let_def)
  then have "sync_one X reply remote (c, []) = (updateSortedHeights (put_checkpoint h ?f c), [])"
    using assms(11-13) by (simp add: sync_one_def fetchRemoteCheckpoints_def processRemoteCheckpoints_def Let_def)
  moreover have "ready (updateSortedHeights (put_checkpoint h ?f c))" using assms(2) by (simp add: ready_def)
  ultimately show ?thesis using assms(7,9) by (simp add: ValidateBlock_def)
qed

definition ck_forged :: checkpoint where
  "ck_forged = no_checkpoint\<lparr>cpt_Height := 1000, cpt_Hash := 13\<rparr>"

definition ck_old :: checkpoint where
  "ck_old = no_checkpoint\<lparr>cpt_Height := 1000, cpt_Hash := 9, cpt_Verifications := 40\<rparr>"

definition ck_remote :: remote_config where
  "ck_remote = \<lparr>rc_URL = ''u'', rc_Name = ''r'', rc_Priority = 1, rc_Enabled = True, rc_Timeout = 0, rc_RetryCount = 3,
     rc_PublicKeys = [], rc_ChainID = ''antdchain-mainnet'', rc_LastModified = None, rc_ETag = []\<rparr>"

lemma forged_authority_replaces_checkpoint_witness:
  "\<exists>sig c'. let X = ck_env toy_crypto (\<lambda>_. 0) [] (\<lambda>_. Some \<lparr>rr_Checkpoints =
          [ck_forged\<lparr>cpt_Signatures := [sig], cpt_Verifications := 40\<rparr>],
        rr_ChainID = ''antdchain-mainnet'', rr_Timestamp = 0, rr_Signatures = []\<rparr>);
      c = put_checkpoint 1000 ck_old ck_mgr
    in ck_trustedKeys c = Map.empty \<and> sync_one X (\<lambda>_. Http_Reply 200 (Some [])) ck_remote (c, []) = (c', [])
       \<and> ValidateBlock X (Some c') 1000 13 = Inr () \<and> (\<exists>e. ValidateBlock X (Some c') 1000 9 = Inl e)"
proof -
  obtain sig where sig: "signCheckpoint (toy_keys (\<lambda>_. 0)) toy_crypto ''ANTDChain Node'' (ck_pair 6) 4 ck_forged = Inr sig"
    by (simp add: signCheckpoint_def sign_bytes_def ck_pair_def pair_of_def toy_keys_def toy_kind_def)
  define X where "X = ck_env toy_crypto (\<lambda>_. 0) [] (\<lambda>_. Some \<lparr>rr_Checkpoints =
      [ck_forged\<lparr>cpt_Signatures := [sig], cpt_Verifications := 40\<rparr>],
      rr_ChainID = ''antdchain-mainnet'', rr_Timestamp = 0, rr_Signatures = []\<rparr>)"
  define c where "c = put_checkpoint 1000 ck_old ck_mgr"
  have X: "cx_lib X = toy_keys (\<lambda>_. 0)" "cx_crypto X = toy_crypto"
    "cx_response X [] = Some \<lparr>rr_Checkpoints = [ck_forged\<lparr>cpt_Signatures := [sig], cpt_Verifications := 40\<rparr>],
      rr_ChainID = rc_ChainID ck_remote, rr_Timestamp = 0, rr_Signatures = []\<rparr>"
    by (simp_all add: X_def ck_remote_def)
  have c: "ready c" "lc_AuthorityName (ck_config c) = ''ANTDChain Node''" "GetCheckpoint c 1000 = Some ck_old"
    by (simp_all add: c_def ck_mgr_def ready_def ck_cfg_def default_config_def)
  have "fits (toy_keys (\<lambda>_. 0)) (ck_pair 6)" by (simp add: fits_def toy_keys_def toy_kind_def ck_pair_def pair_of_def)
  moreover have "cpt_Height ck_forged = 1000" "cpt_Hash ck_forged = 13" "cpt_Hash ck_old = 9" "cpt_Verifications ck_old = 40"
    by (simp_all add: ck_forged_def ck_old_def)
  ultimately have "\<exists>c'. sync_one X (\<lambda>_. Http_Reply 200 (Some [])) ck_remote (c, []) = (c', [])
    \<and> ValidateBlock X (Some c') 1000 (cpt_Hash ck_forged) = Inr ()
    \<and> (\<exists>e. ValidateBlock X (Some c') 1000 (cpt_Hash ck_old) = Inl e)"
    using sig c X ck_pair_ok toy.signature_scheme_axioms
    by (intro forged_authority_replaces_checkpoint [where kp = "ck_pair 6" and v = 40 and sig = sig and now = 4
          and data = "[]" and t = 0]) (simp_all add: ck_remote_def)
  then show ?thesis unfolding Let_def X_def [symmetric] c_def [symmetric]
    using \<open>cpt_Hash ck_forged = 13\<close> \<open>cpt_Hash ck_old = 9\<close> by (auto simp: c_def X_def)
qed

text \<open>
  With an Ed25519 key, which loading accepts and signing does not, a conflict at the highest checkpoint
  deletes it and leaves its height listed; asking whether the chain may be truncated then panics.
\<close>

theorem failed_signature_breaks_the_manager:
  assumes "ready c" and "ck_sortedHeights c = sort (map fst (ck_checkpoints c))"
    and "\<And>j. j \<in> fst ` set (ck_checkpoints c) \<Longrightarrow> j \<le> h" and "GetCheckpoint c h = Some old" and "h \<noteq> 0"
    and "hash \<noteq> zero_hash" and "cpt_Hash old \<noteq> hash" and "sint (cpt_Verifications old) \<le> 5"
    and "ck_keyPair c = Some kp" and "kl_kind (cx_lib X) (kp_PrivateKey kp) = Ed25519_Kind"
  shows "\<exists>c'. AddCheckpoint X order now h hash ph m k n gas c files = (Inl (CK_Sign Sign_Unsupported), c', files)
    \<and> GetCheckpoint c' h = None \<and> CanTruncate c' height = Inl CK_Panic"
proof -
  let ?c = "c\<lparr>ck_checkpoints := AList.delete h (ck_checkpoints c)\<rparr>"
  have "sign_with X ?c now cp = Inl Sign_Unsupported" for cp
    using assms(9,10) by (simp add: sign_with_def signCheckpoint_def sign_bytes_def)
  then have add: "AddCheckpoint X order now h hash ph m k n gas c files = (Inl (CK_Sign Sign_Unsupported), ?c, files)"
    using assms(1,4-8) by (simp add: AddCheckpoint_def install_signed_def Let_def)
  have none: "GetCheckpoint ?c h = None" by (simp add: GetCheckpoint_def AList.delete_conv')
  have ne: "h \<in> set (ck_sortedHeights c)"
    using assms(2,4) by (force simp: GetCheckpoint_def dest: map_of_SomeD)
  have "last (ck_sortedHeights c) = h"
  proof (rule antisym)
    show "last (ck_sortedHeights c) \<le> h" using ne assms(2,3)
      by (metis empty_iff image_set last_in_set list.set(1) set_sort)
    show "h \<le> last (ck_sortedHeights c)"
      using sorted_le_last [OF _ ne] assms(2) by simp
  qed
  then have "CanTruncate ?c height = Inl CK_Panic"
    using ne none assms(1) by (auto simp: CanTruncate_def GetLatestCheckpoint_def ready_def)
  with add none show ?thesis by blast
qed

lemma failed_signature_breaks_the_manager_witness:
  "let c = updateSortedHeights (put_checkpoint 1000 (ck_old\<lparr>cpt_Verifications := 1\<rparr>) (ck_mgr\<lparr>ck_keyPair := Some (ck_pair 5)\<rparr>))
   in \<exists>c'. AddCheckpoint (ck_env toy_crypto (\<lambda>_. 0) [] (\<lambda>_. None)) id 4 1000 13 8 1 2 0 0 c Map.empty =
         (Inl (CK_Sign Sign_Unsupported), c', Map.empty)
      \<and> GetCheckpoint c' 1000 = None \<and> CanTruncate c' 900 = Inl CK_Panic"
  unfolding Let_def
  by (rule failed_signature_breaks_the_manager [where kp = "ck_pair 5" and old = "ck_old\<lparr>cpt_Verifications := 1\<rparr>"])
    (auto simp: ck_old_def zero_hash_def ck_pair_def pair_of_def toy_keys_def toy_kind_def updateSortedHeights_def
      put_checkpoint_def ready_def ck_mgr_def GetCheckpoint_def)

definition export_message :: "crypto \<Rightarrow> remote_response \<Rightarrow> string \<Rightarrow> bytes" where
  "export_message C r source = createSignatureMessage C
     (no_checkpoint\<lparr>cpt_Height := word_of_nat (length (rr_Checkpoints r)), cpt_Timestamp := rr_Timestamp r,
        cpt_Source := source, cpt_ChainID := rr_ChainID r\<rparr>)"

text \<open>
  No node takes what another exports, although it is signed: the export is signed as source \<open>export\<close> and
  checked as source \<open>remote-sync\<close>, unless SHA-256 collides on those two messages.
\<close>

theorem own_export_is_refused:
  assumes "binding_scheme (cx_lib X)" and "ck_keyPair c = Some kp" and "pair_ok (cx_lib X) kp"
    and "kl_kind (cx_lib X) (kp_PrivateKey kp) = RSA_Kind" and "ExportCheckpoints X order now c = Inr (r, gh)"
    and "rr_Signatures r \<noteq> []" and "cx_response X data = Some r"
    and "kl_sha256 (cx_lib X) (export_message (cx_crypto X) r ''export'') \<noteq>
      kl_sha256 (cx_lib X) (export_message (cx_crypto X) r ''remote-sync'')"
  shows "fetchRemoteCheckpoints X c2 remote (Http_Reply 200 (Some data)) \<in> {Inl CK_Chain_ID, Inl CK_Unsigned}"
proof -
  let ?t = "\<lambda>source. no_checkpoint\<lparr>cpt_Height := word_of_nat (length (rr_Checkpoints r)),
      cpt_Timestamp := rr_Timestamp r, cpt_Source := source, cpt_ChainID := rr_ChainID r\<rparr>"
  from assms(5,6) obtain sig where s: "sign_with X c now (?t ''export'') = Inr sig" and sigs: "rr_Signatures r = [sig]"
    by (auto simp: ExportCheckpoints_def Let_def split: sum.splits sign_error.splits)
  have "\<not> verify_with X c2 (?t ''remote-sync'') sig"
  proof
    assume "verify_with X c2 (?t ''remote-sync'') sig"
    with s assms(2) have "kl_sha256 (cx_lib X) (createSignatureMessage (cx_crypto X) (?t ''export'')) =
        kl_sha256 (cx_lib X) (createSignatureMessage (cx_crypto X) (?t ''remote-sync''))"
      unfolding verify_with_def
      by (intro binding_scheme.signature_binds [OF assms(1,3,4)]) (auto simp: sign_with_def)
    with assms(8) show False by (simp add: export_message_def)
  qed
  then show ?thesis using assms(7) sigs by (simp add: fetchRemoteCheckpoints_def Let_def)
qed

lemma messages_differ: "export_message C r ''export'' \<noteq> export_message C r ''remote-sync''"
  by (simp add: export_message_def createSignatureMessage_def no_checkpoint_def)

lemma own_export_is_refused_witness:
  "\<exists>d r gh e. ExportCheckpoints (ck_env toy_crypto d [] (\<lambda>_. Some r)) id 4 ck_mgr = Inr (r, gh) \<and> rr_Signatures r \<noteq> []
    \<and> fetchRemoteCheckpoints (ck_env toy_crypto d [] (\<lambda>_. Some r)) ck_mgr ck_remote (Http_Reply 200 (Some [])) = Inl e"
proof -
  define M where "M = export_message toy_crypto
    \<lparr>rr_Checkpoints = [ck_genesis], rr_ChainID = ''antdchain-mainnet'', rr_Timestamp = 4, rr_Signatures = []\<rparr> ''export''"
  define d where "d = (\<lambda>m. if m = M then 1 else 0 :: hash)"
  have sig: "\<exists>sig. sign_with (ck_env toy_crypto d [] response) ck_mgr 4 cp = Inr sig" for cp response
    by (simp add: sign_with_def signCheckpoint_def sign_bytes_def ck_pair_def pair_of_def toy_keys_def toy_kind_def)
  define temp where "temp = no_checkpoint\<lparr>cpt_Height := word_of_nat (length [ck_genesis]), cpt_Timestamp := 4,
    cpt_Source := ''export'', cpt_ChainID := lc_ChainID ck_cfg\<rparr>"
  obtain s0 where s0: "sign_with (ck_env toy_crypto d [] (\<lambda>_. None)) ck_mgr 4 temp = Inr s0" using sig by blast
  have s: "sign_with (ck_env toy_crypto d [] response) ck_mgr 4 temp = Inr s0" for response
    using s0 by (simp add: sign_with_def)
  define r where "r = \<lparr>rr_Checkpoints = [ck_genesis], rr_ChainID = ''antdchain-mainnet'', rr_Timestamp = 4,
    rr_Signatures = [s0]\<rparr>"
  have chain: "lc_ChainID ck_cfg = ''antdchain-mainnet''" by (simp add: ck_cfg_def default_config_def)
  let ?X = "ck_env toy_crypto d [] (\<lambda>_. Some r)"
  have x: "ExportCheckpoints ?X id 4 ck_mgr = Inr (r, lc_GenesisHash ck_cfg)"
    using s by (simp add: ExportCheckpoints_def r_def chain temp_def Let_def)
  have "export_message toy_crypto r ''export'' = M" by (simp add: M_def export_message_def r_def)
  have kind: "kl_kind (toy_keys d) (kp_PrivateKey (ck_pair 3)) = RSA_Kind"
    by (simp add: ck_pair_def pair_of_def toy_keys_def toy_kind_def)
  from \<open>export_message toy_crypto r ''export'' = M\<close> messages_differ [of toy_crypto r]
  have "kl_sha256 (toy_keys d) (export_message toy_crypto r ''export'') \<noteq>
      kl_sha256 (toy_keys d) (export_message toy_crypto r ''remote-sync'')"
    by (auto simp: toy_keys_def d_def)
  then have "fetchRemoteCheckpoints ?X ck_mgr ck_remote (Http_Reply 200 (Some [])) \<in> {Inl CK_Chain_ID, Inl CK_Unsigned}"
    using toy.binding_scheme_axioms ck_pair_ok kind
    by (intro own_export_is_refused [OF _ _ _ _ x, where kp = "ck_pair 3"]) (simp_all add: r_def)
  then obtain e where "fetchRemoteCheckpoints ?X ck_mgr ck_remote (Http_Reply 200 (Some [])) = Inl e" by blast
  moreover have "rr_Signatures r \<noteq> []" by (simp add: r_def)
  ultimately show ?thesis using x by blast
qed

end
