(* ===== verification/Node_Checkpoints.thy ===== *)
theory Node_Checkpoints
  imports Blockchain Checkpoints
begin

text \<open>
  Checkpoints of a running chain (helpers of \<open>antdc/chain/sync.go\<close>, start of \<open>cmd/antdchain/main.go\<close>): which heights
  get one, how a block becomes a checkpoint, and the check of a block against those that exist.
\<close>

definition shouldCreateCheckpoint :: "u64 \<Rightarrow> bool" where
  "shouldCreateCheckpoint height =
     (if height = 0 then True else if height = 1 then False
      else if height mod 1000 = 0 then True else if height mod 10000 = 0 then True else False)"

datatype node_ckpt_error =
    NC_No_Manager | NC_Panic | NC_Not_Canonical | NC_No_Genesis | NC_Checkpoint ckpt_error

text \<open>
  \<open>king\<close> is the answer of the rotating king manager, zero without one. A result \<open>Inr\<close> with the same
  manager also stands for a height that is too low.
\<close>

definition createCheckpointFromBlock ::
    "('p, 'k) ckpt_env \<Rightarrow> visit \<Rightarrow> int \<Rightarrow> 'd pebble_ops \<Rightarrow> rlp_codec \<Rightarrow> 'd \<Rightarrow> address \<Rightarrow> block \<Rightarrow>
     ('p, 'k) checkpoints option \<Rightarrow> files \<Rightarrow> (node_ckpt_error + unit) \<times> ('p, 'k) checkpoints option \<times> files" where
  "createCheckpointFromBlock X order now P R d king b manager files =
     (case manager of
        None \<Rightarrow> (Inl NC_No_Manager, None, files)
      | Some c \<Rightarrow>
          (case (b_Header b, blk_number b) of
             (Some h, Some height) \<Rightarrow>
               if height < 1000 \<and> height \<noteq> 0 then (Inr (), Some c, files)
               else (case GetBlock P R d height of
                       Inl _ \<Rightarrow> (Inl NC_Panic, Some c, files)
                     | Inr canonical \<Rightarrow>
                         if (case canonical of None \<Rightarrow> False
                             | Some cb \<Rightarrow> Block_Hash (cx_crypto X) cb \<noteq> Block_Hash (cx_crypto X) b)
                         then (Inl NC_Not_Canonical, Some c, files)
                         else
                           (case AddCheckpoint X order now height (Block_Hash (cx_crypto X) b)
                                   (if height = 0 then zero_hash else h_ParentHash h) (h_Coinbase h) king
                                   (word_of_nat (length (b_Txs b))) (word_of_nat (length (b_Txs b)) * 21000) c files of
                              (Inl e, c', files') \<Rightarrow> (Inl (NC_Checkpoint e), Some c', files')
                            | (Inr _, c', files') \<Rightarrow> (Inr (), Some c', files')))
           | _ \<Rightarrow> (Inl NC_Panic, Some c, files)))"

definition ValidateBlockAgainstCheckpoints ::
    "('p, 'k) ckpt_env \<Rightarrow> ('p, 'k) checkpoints option \<Rightarrow> u64 \<Rightarrow> hash \<Rightarrow> ckpt_error + unit" where
  "ValidateBlockAgainstCheckpoints X manager height hash =
     (case manager of
        None \<Rightarrow> Inr ()
      | Some c \<Rightarrow> if GetCheckpoint c height \<noteq> None then ValidateBlock X (Some c) height hash else Inr ())"

text \<open>What \<open>addBlockInternal\<close> does with a new tip; the goroutine it starts is taken to be done.\<close>

definition checkpoint_new_tip ::
    "('p, 'k) ckpt_env \<Rightarrow> visit \<Rightarrow> int \<Rightarrow> 'd pebble_ops \<Rightarrow> rlp_codec \<Rightarrow> 'd \<Rightarrow> address \<Rightarrow> bool \<Rightarrow> block \<Rightarrow>
     ('p, 'k) checkpoints option \<Rightarrow> files \<Rightarrow> ('p, 'k) checkpoints option \<times> files" where
  "checkpoint_new_tip X order now P R d king duringSync b manager files =
     (case blk_number b of
        None \<Rightarrow> (manager, files)
      | Some height \<Rightarrow>
          if manager \<noteq> None \<and> \<not> duringSync \<and> height \<ge> 1000 \<and> height mod 1000 = 0
          then snd (createCheckpointFromBlock X order now P R d king b manager files)
          else (manager, files))"

text \<open>\<open>autoInitCheckpointConfig\<close>, run before the manager is created.\<close>

definition autoInitCheckpointConfig ::
    "('p, 'k) ckpt_env \<Rightarrow> string \<Rightarrow> 'd pebble_ops \<Rightarrow> rlp_codec \<Rightarrow> 'd \<Rightarrow> string \<Rightarrow> files \<Rightarrow> (node_ckpt_error + unit) \<times> files" where
  "autoInitCheckpointConfig X official_key P R d dataDir files =
     (let configPath = cx_join X dataDir ''checkpoints.json'' in
      if files configPath \<noteq> None then (Inr (), files)
      else (case GetBlock P R d 0 of
              Inl _ \<Rightarrow> (Inl NC_Panic, files)
            | Inr None \<Rightarrow> (Inl NC_No_Genesis, files)
            | Inr (Some genesis) \<Rightarrow>
                if \<not> cx_mkdir X (cx_join X dataDir ''checkpoints'') then (Inl (NC_Checkpoint CK_Dir), files)
                else (case CreateSampleConfig X official_key configPath (Block_Hash (cx_crypto X) genesis) files of
                        Inl e \<Rightarrow> (Inl (NC_Checkpoint e), files)
                      | Inr files' \<Rightarrow> (Inr (), files'))))"

text \<open>
  The checkpoint manager of \<open>start_checkpoints\<close> (\<open>cmd/antdchain/main.go\<close>): none when it cannot be created.
\<close>

definition start_checkpoints ::
    "('p, 'k) ckpt_env \<Rightarrow> string \<Rightarrow> 'd pebble_ops \<Rightarrow> rlp_codec \<Rightarrow> 'd \<Rightarrow> string \<Rightarrow> hash \<Rightarrow> int \<Rightarrow> visit \<Rightarrow> files \<Rightarrow>
     ('p, 'k) checkpoints option \<times> files" where
  "start_checkpoints X official_key P R d dataDir g now order files =
     (let files1 = snd (autoInitCheckpointConfig X official_key P R d dataDir files) in
      case NewCheckpoints X (cx_join X dataDir ''checkpoints'') (cx_join X dataDir ''checkpoints.json'') g now order files1 of
        (Inl _, files2) \<Rightarrow> (None, files2)
      | (Inr c, files2) \<Rightarrow> (Some c, files2))"

section \<open>Properties\<close>

text \<open>
  C27: a tip at a height that gets a checkpoint is one at once, without confirmations; from then on the manager's
  check accepts that block and no other at its height.
\<close>

theorem checkpoint_fixes_the_tip:
  assumes "ckpt_reach X g c" and "blk_number b = Some height" and "height \<ge> 1000" and "height mod 1000 = 0"
    and "fst (createCheckpointFromBlock X order now P R d king b (Some c) files) = Inr ()"
    and "checkpoint_new_tip X order now P R d king False b (Some c) files = (manager, files')"
  shows "ValidateBlockAgainstCheckpoints X manager height hash = Inr () \<longleftrightarrow> hash = Block_Hash (cx_crypto X) b"
proof -
  from assms(2) obtain h where h: "b_Header b = Some h" by (auto simp: blk_number_def bind_eq_Some_conv)
  have n0: "height \<noteq> 0" "\<not> height < 1000" using assms(3) by auto
  from assms(5) obtain c' files2 where "createCheckpointFromBlock X order now P R d king b (Some c) files = (Inr (), Some c', files2)"
    and add: "AddCheckpoint X order now height (Block_Hash (cx_crypto X) b) (h_ParentHash h) (h_Coinbase h) king
      (word_of_nat (length (b_Txs b))) (word_of_nat (length (b_Txs b)) * 21000) c files = (Inr (), c', files2)"
    using h n0 assms(2)
    by (auto simp: createCheckpointFromBlock_def split: sum.splits if_splits prod.splits)
  with assms(2-4,6) have m: "manager = Some c'" by (simp add: checkpoint_new_tip_def)
  have "ready c'" using ckpt_inv_AddCheckpoint [OF ckpt_reach_inv [OF assms(1)] add] by (simp add: ckpt_inv_def)
  with AddCheckpoint_lookup [OF add] n0(1) show ?thesis
    by (auto simp: m ValidateBlockAgainstCheckpoints_def ValidateBlock_def split: if_splits)
qed

definition nc_crypto :: crypto where
  "nc_crypto = toy_crypto\<lparr>sha3 := \<lambda>_. 5\<rparr>"

definition nc_block :: block where
  "nc_block = sample_block\<lparr>b_Header := Some (sample_header\<lparr>h_Number := Some 1000\<rparr>), b_Txs := []\<rparr>"

lemma checkpoint_fixes_the_tip_witness:
  "let r = checkpoint_new_tip (ck_env nc_crypto (\<lambda>_. 0) [] (\<lambda>_. None)) id 4 map_pebble (table_codec []) Map.empty 8 False
        nc_block (Some ck_mgr) Map.empty
   in ValidateBlockAgainstCheckpoints (ck_env nc_crypto (\<lambda>_. 0) [] (\<lambda>_. None)) (fst r) 1000 5 = Inr ()"
proof -
  let ?X = "ck_env nc_crypto (\<lambda>_. 0) [] (\<lambda>_. None)"
  have n: "blk_number nc_block = Some 1000" by (simp add: blk_number_def nc_block_def header_height_def)
  have hash: "Block_Hash nc_crypto nc_block = 5"
    by (simp add: Block_Hash_def Header_Hash_def nc_block_def nc_crypto_def)
  have get: "GetBlock map_pebble (table_codec []) Map.empty 1000 = Inr None"
    by (simp add: GetBlock_def GetCanonicalHash_def read_hash_def map_pebble_def)
  have sig: "\<exists>sig. sign_with ?X ck_mgr 4 cp = Inr sig" for cp
    by (simp add: sign_with_def signCheckpoint_def sign_bytes_def ck_pair_def pair_of_def toy_keys_def toy_kind_def)
  have "fst (AddCheckpoint ?X id 4 1000 5 ph m k t gas ck_mgr Map.empty) = Inr ()" for ph m k t gas
    using sig [of "local_checkpoint (lc_ChainID ck_cfg) 4 1000 5 ph m k t gas"]
    by (auto simp: AddCheckpoint_def install_signed_def zero_hash_def GetCheckpoint_def Let_def)
  then have "fst (createCheckpointFromBlock ?X id 4 map_pebble (table_codec []) Map.empty 8 nc_block (Some ck_mgr) Map.empty) = Inr ()"
    using n hash get by (simp add: createCheckpointFromBlock_def nc_block_def [THEN arg_cong [where f = b_Header]]
        split: sum.splits prod.splits) (metis fst_conv sum.distinct(1))
  from checkpoint_fixes_the_tip [OF ck_mgr_reach n _ _ this surjective_pairing, of 5] show ?thesis
    by (simp add: hash Let_def)
qed

end
