(* ===== verification/Ban_Manager.thy ===== *)
theory Ban_Manager
  imports Checkpoints Reorg
begin

text \<open>
  The ban manager of the peer-to-peer layer (\<open>antdc/p2p/ban_p2p.go\<close>): bans, violations, rate limits, the checks of
  gossip messages and of direct pushes, and the notification of a ban.

  Peers are their identifiers. JSON is a parameter (\<open>ban_env\<close>), and so are the height of the chain and the
  clock. The details of a violation, which are only logged, are left out. The mutex is part of the state,
  because an operation takes it twice: an operation that waits for it gives \<open>BM_Deadlock\<close>, and \<open>bm_locked\<close> says
  that a goroutine holds it for ever. \<open>IsBanned\<close> writes under the read lock; it is one step here.
\<close>

section \<open>State\<close>

type_synonym peer = string

record ban_config =
  bc_MaxViolations :: int
  bc_BanDuration :: int
  bc_RateLimitMessages :: int
  bc_RateLimitBlocks :: int
  bc_CheckInterval :: int
  bc_EnableAutoBan :: bool
  bc_BanMalformedBlocks :: bool
  bc_BanInvalidTxs :: bool
  bc_BanSpam :: bool
  bc_BanDuplicateBroadcast :: bool
  bc_BanOutOfOrderBlocks :: bool
  bc_BanCheckpointViolators :: bool
  bc_BanHistoricalRewrite :: bool
  bc_CheckpointWeight :: int
  bc_MaxCheckpointViolations :: int

definition second :: int where "second = 1000000000"
definition minute :: int where "minute = 60000000000"

definition DefaultBanConfig :: ban_config where
  "DefaultBanConfig =
     \<lparr>bc_MaxViolations = 5, bc_BanDuration = one_hour, bc_RateLimitMessages = 50, bc_RateLimitBlocks = 10,
      bc_CheckInterval = 30 * second, bc_EnableAutoBan = True, bc_BanMalformedBlocks = True,
      bc_BanInvalidTxs = True, bc_BanSpam = True, bc_BanDuplicateBroadcast = True,
      bc_BanOutOfOrderBlocks = True, bc_BanCheckpointViolators = True, bc_BanHistoricalRewrite = True,
      bc_CheckpointWeight = 10, bc_MaxCheckpointViolations = 1\<rparr>"

record violation =
  vi_Type :: string
  vi_Severity :: int
  vi_Timestamp :: int

record checkpoint_violation =
  cv_Type :: string
  cv_Height :: u64
  cv_Expected :: hash
  cv_Received :: hash
  cv_Timestamp :: int
  cv_Severity :: int

record ban_record =
  br_PeerID :: peer
  br_Address :: string
  br_Reason :: string
  br_BannedAt :: int
  br_ExpiresAt :: int
  br_Violations :: "violation list"
  br_CheckpointViolations :: "checkpoint_violation list"
  br_BanCount :: int

record ('p, 'k) ban_manager =
  bm_checkpoints :: "('p, 'k) checkpoints option"
  bm_bannedPeers :: "peer \<rightharpoonup> ban_record"
  bm_bannedHashes :: "hash \<rightharpoonup> int"
  bm_violations :: "peer \<Rightarrow> violation list"
  bm_violationCounter :: "peer \<Rightarrow> int"
  bm_lastMessages :: "peer \<Rightarrow> int list"
  bm_blockTimestamps :: "peer \<Rightarrow> int list"
  bm_checkpointViolations :: "peer \<Rightarrow> checkpoint_violation list"
  bm_config :: ban_config
  bm_locked :: bool

datatype ban_stuck = BM_Deadlock | BM_Panic

text \<open>
  What the code reads from JSON: blocks, transactions, the height in a king message (none if it is not a number)
  and the new list of kings; and how it writes a ban notification.
\<close>

record ('p, 'k) ban_env =
  bx_ckpt :: "('p, 'k) ckpt_env"
  bx_block :: "bytes \<Rightarrow> block option"
  bx_tx :: "bytes \<Rightarrow> tx option"
  bx_king :: "bytes \<Rightarrow> u64 option option"
  bx_king_list :: "bytes \<Rightarrow> address list option"
  bx_notice :: "peer \<Rightarrow> string \<Rightarrow> int \<Rightarrow> int \<Rightarrow> bytes"

definition NewBanManager :: "ban_config \<Rightarrow> ('p, 'k) checkpoints option \<Rightarrow> ('p, 'k) ban_manager" where
  "NewBanManager config cp =
     \<lparr>bm_checkpoints = cp, bm_bannedPeers = Map.empty, bm_bannedHashes = Map.empty, bm_violations = (\<lambda>_. []),
      bm_violationCounter = (\<lambda>_. 0), bm_lastMessages = (\<lambda>_. []), bm_blockTimestamps = (\<lambda>_. []),
      bm_checkpointViolations = (\<lambda>_. []), bm_config = config, bm_locked = False\<rparr>"

text \<open>\<open>IntegrateBanManagerWithCheckpoints\<close>.\<close>

definition IntegrateBanManager ::
    "('p, 'k) ban_manager option \<Rightarrow> ('p, 'k) checkpoints option \<Rightarrow> ('p, 'k) ban_manager" where
  "IntegrateBanManager bm cp =
     (case bm of None \<Rightarrow> NewBanManager DefaultBanConfig cp | Some b \<Rightarrow> b\<lparr>bm_checkpoints := cp\<rparr>)"

text \<open>An operation that takes the mutex and releases it.\<close>

definition with_lock ::
    "('p, 'k) ban_manager \<Rightarrow> 'a \<times> ('p, 'k) ban_manager \<Rightarrow> (ban_stuck + 'a) \<times> ('p, 'k) ban_manager" where
  "with_lock bm r = (if bm_locked bm then (Inl BM_Deadlock, bm) else (Inr (fst r), snd r))"

section \<open>Bans\<close>

definition forget_peer :: "peer \<Rightarrow> ('p, 'k) ban_manager \<Rightarrow> ('p, 'k) ban_manager" where
  "forget_peer p bm =
     bm\<lparr>bm_bannedPeers := (bm_bannedPeers bm)(p := None), bm_violations := (bm_violations bm)(p := []),
        bm_violationCounter := (bm_violationCounter bm)(p := 0),
        bm_checkpointViolations := (bm_checkpointViolations bm)(p := [])\<rparr>"

definition IsBanned :: "int \<Rightarrow> peer \<Rightarrow> ('p, 'k) ban_manager \<Rightarrow> (ban_stuck + bool) \<times> ('p, 'k) ban_manager" where
  "IsBanned now p bm = with_lock bm
     (case bm_bannedPeers bm p of
        None \<Rightarrow> (False, bm)
      | Some r \<Rightarrow> if now > br_ExpiresAt r then (False, forget_peer p bm) else (True, bm))"

definition UnbanPeer :: "peer \<Rightarrow> ('p, 'k) ban_manager \<Rightarrow> (ban_stuck + unit) \<times> ('p, 'k) ban_manager" where
  "UnbanPeer p bm = with_lock bm ((), if bm_bannedPeers bm p = None then bm else forget_peer p bm)"

text \<open>\<open>GetBanStatus\<close> looks at the record only.\<close>

definition GetBanStatus :: "peer \<Rightarrow> ('p, 'k) ban_manager \<Rightarrow> ban_stuck + ban_record option" where
  "GetBanStatus p bm = (if bm_locked bm then Inl BM_Deadlock else Inr (bm_bannedPeers bm p))"

text \<open>One tick of \<open>cleanupExpiredBans\<close>; \<open>known\<close> are the banned peers.\<close>

definition cleanup_tick :: "int \<Rightarrow> peer list \<Rightarrow> ('p, 'k) ban_manager \<Rightarrow> (ban_stuck + unit) \<times> ('p, 'k) ban_manager" where
  "cleanup_tick now known bm = with_lock bm
     ((), fold (\<lambda>p bm. case bm_bannedPeers bm p of
                        None \<Rightarrow> bm
                      | Some r \<Rightarrow> if now > br_ExpiresAt r then forget_peer p bm else bm) known bm)"

text \<open>\<open>Duration\<close> is a signed 64-bit number.\<close>

definition ban_time :: "ban_config \<Rightarrow> int \<Rightarrow> int" where
  "ban_time cfg n = sint (word_of_int (bc_BanDuration cfg * n) :: u64)"

text \<open>
  What a ban does outside the manager: the connection is closed and a message is published.
\<close>

datatype ban_effect = Close_Peer peer | Publish bytes

definition msgTypeBlock :: u8 where "msgTypeBlock = 0x01"
definition msgTypeTx :: u8 where "msgTypeTx = 0x02"
definition msgTypeKingRotation :: u8 where "msgTypeKingRotation = 0x03"
definition msgTypeKingListUpdate :: u8 where "msgTypeKingListUpdate = 0x04"

definition broadcastBanNotification :: "('p, 'k) ban_env \<Rightarrow> ban_config \<Rightarrow> int \<Rightarrow> peer \<Rightarrow> string \<Rightarrow> ban_effect" where
  "broadcastBanNotification B cfg now p reason =
     Publish (msgTypeBlock # bx_notice B p reason (now div second) ((now + bc_BanDuration cfg) div second))"

definition BanPeer ::
    "('p, 'k) ban_env \<Rightarrow> int \<Rightarrow> peer \<Rightarrow> string \<Rightarrow> ('p, 'k) ban_manager \<Rightarrow>
     (ban_stuck + ban_effect list) \<times> ('p, 'k) ban_manager" where
  "BanPeer B now p reason bm = with_lock bm
     (case bm_bannedPeers bm p of
        Some r \<Rightarrow>
          ([], bm\<lparr>bm_bannedPeers := (bm_bannedPeers bm)(p \<mapsto>
             r\<lparr>br_BanCount := br_BanCount r + 1,
               br_ExpiresAt := now + ban_time (bm_config bm) (br_BanCount r + 1), br_Reason := reason\<rparr>)\<rparr>)
      | None \<Rightarrow>
          ([Close_Peer p, broadcastBanNotification B (bm_config bm) now p reason],
           bm\<lparr>bm_bannedPeers := (bm_bannedPeers bm)(p \<mapsto>
                \<lparr>br_PeerID = p, br_Address = [], br_Reason = reason, br_BannedAt = now,
                 br_ExpiresAt = now + bc_BanDuration (bm_config bm), br_Violations = bm_violations bm p,
                 br_CheckpointViolations = bm_checkpointViolations bm p, br_BanCount = 1\<rparr>),
              bm_violations := (bm_violations bm)(p := []),
              bm_violationCounter := (bm_violationCounter bm)(p := 0),
              bm_checkpointViolations := (bm_checkpointViolations bm)(p := [])\<rparr>))"

section \<open>Violations\<close>

definition shouldBanPeer :: "('p, 'k) ban_manager \<Rightarrow> peer \<Rightarrow> bool" where
  "shouldBanPeer bm p =
     (if \<not> bc_EnableAutoBan (bm_config bm) then False
      else if bm_checkpointViolations bm p \<noteq> [] then True
      else if bm_violationCounter bm p \<ge> bc_MaxViolations (bm_config bm) then True
      else list_ex (\<lambda>v. vi_Severity v \<ge> 9) (bm_violations bm p))"

definition note_violation :: "peer \<Rightarrow> violation \<Rightarrow> ('p, 'k) ban_manager \<Rightarrow> ('p, 'k) ban_manager" where
  "note_violation p v bm =
     bm\<lparr>bm_violations := (bm_violations bm)(p := bm_violations bm p @ [v]),
        bm_violationCounter := (bm_violationCounter bm)(p := bm_violationCounter bm p + 1)\<rparr>"

definition note_checkpoint :: "peer \<Rightarrow> checkpoint_violation \<Rightarrow> ('p, 'k) ban_manager \<Rightarrow> ('p, 'k) ban_manager" where
  "note_checkpoint p c bm =
     bm\<lparr>bm_checkpointViolations := (bm_checkpointViolations bm)(p := bm_checkpointViolations bm p @ [c])\<rparr>"

text \<open>
  \<open>RecordViolation\<close> holds the mutex when it calls \<open>BanPeer\<close>, which locks it: the call then waits for itself.
\<close>

definition RecordViolation ::
    "peer \<Rightarrow> violation option \<Rightarrow> checkpoint_violation option \<Rightarrow> ('p, 'k) ban_manager \<Rightarrow>
     (ban_stuck + unit) \<times> ('p, 'k) ban_manager" where
  "RecordViolation p v cv bm =
     (if bm_locked bm then (Inl BM_Deadlock, bm)
      else
        let bm1 = (case v of None \<Rightarrow> bm | Some x \<Rightarrow> note_violation p x bm);
            bm2 = (case cv of None \<Rightarrow> bm1 | Some x \<Rightarrow> note_checkpoint p x bm1)
        in if cv \<noteq> None \<and> bc_BanCheckpointViolators (bm_config bm)
              \<and> int (length (bm_checkpointViolations bm2 p)) \<ge> bc_MaxCheckpointViolations (bm_config bm)
           then (Inl BM_Deadlock, bm2\<lparr>bm_locked := True\<rparr>)
           else if shouldBanPeer bm2 p then (Inl BM_Deadlock, bm2\<lparr>bm_locked := True\<rparr>)
           else (Inr (), bm2))"

definition recent :: "int \<Rightarrow> int \<Rightarrow> int list \<Rightarrow> int list" where
  "recent period now ts = filter (\<lambda>t. now - t \<le> period) ts @ [now]"

definition checkRateLimit ::
    "int \<Rightarrow> peer \<Rightarrow> ('p, 'k) ban_manager \<Rightarrow> (ban_stuck + violation option) \<times> ('p, 'k) ban_manager" where
  "checkRateLimit now p bm = with_lock bm
     (let ts = recent second now (bm_lastMessages bm p) in
      (if int (length ts) > bc_RateLimitMessages (bm_config bm)
       then Some \<lparr>vi_Type = ''RATE_LIMIT_EXCEEDED'', vi_Severity = 7, vi_Timestamp = now\<rparr> else None,
       bm\<lparr>bm_lastMessages := (bm_lastMessages bm)(p := ts)\<rparr>))"

text \<open>\<open>checkPeerConnections\<close> for one connected peer with its number of connections.\<close>

definition check_connections ::
    "int \<Rightarrow> peer \<Rightarrow> nat \<Rightarrow> ('p, 'k) ban_manager \<Rightarrow> (ban_stuck + unit) \<times> ('p, 'k) ban_manager" where
  "check_connections now p conns bm =
     (if bm_locked bm then (Inl BM_Deadlock, bm)
      else
        let many = int (length (bm_lastMessages bm p)) > bc_RateLimitMessages (bm_config bm) * 2;
            flood = (\<lambda>bm. if conns > 3 then RecordViolation p
                         (Some \<lparr>vi_Type = ''CONNECTION_FLOOD'', vi_Severity = 7, vi_Timestamp = now\<rparr>) None bm
                       else (Inr (), bm))
        in if many
           then (case RecordViolation p
                        (Some \<lparr>vi_Type = ''EXCESSIVE_MESSAGES'', vi_Severity = 6, vi_Timestamp = now\<rparr>) None bm of
                   (Inl e, bm') \<Rightarrow> (Inl e, bm')
                 | (Inr _, bm') \<Rightarrow> flood bm')
           else flood bm)"

section \<open>Checks of messages\<close>

definition verifyBlockAgainstCheckpoints ::
    "('p, 'k) ban_env \<Rightarrow> ban_config \<Rightarrow> int \<Rightarrow> ('p, 'k) checkpoints option \<Rightarrow> u64 \<Rightarrow> hash \<Rightarrow>
     checkpoint_violation option" where
  "verifyBlockAgainstCheckpoints B cfg now cps height hash =
     (case cps of
        None \<Rightarrow> None
      | Some c \<Rightarrow>
          (case GetCheckpoint c height of
             None \<Rightarrow> None
           | Some cp \<Rightarrow>
               (case ValidateBlock (bx_ckpt B) (Some c) height hash of
                  Inr _ \<Rightarrow> None
                | Inl _ \<Rightarrow>
                    Some \<lparr>cv_Type = ''CHECKPOINT_HASH_MISMATCH'', cv_Height = height, cv_Expected = cpt_Hash cp,
                          cv_Received = hash, cv_Timestamp = now, cv_Severity = bc_CheckpointWeight cfg\<rparr>)))"

text \<open>A verdict: whether a violation was found, and which.\<close>

type_synonym verdict = "bool \<times> violation option \<times> checkpoint_violation option"

definition fine :: verdict where "fine = (False, None, None)"

definition guilty :: "int \<Rightarrow> string \<Rightarrow> int \<Rightarrow> verdict" where
  "guilty now kind severity = (True, Some \<lparr>vi_Type = kind, vi_Severity = severity, vi_Timestamp = now\<rparr>, None)"

text \<open>The checks of a block that do not need the mutex; \<open>None\<close> goes on with the rate of blocks.\<close>

definition block_verdict ::
    "('p, 'k) ban_env \<Rightarrow> int \<Rightarrow> u64 \<Rightarrow> ('p, 'k) ban_manager \<Rightarrow> u64 \<Rightarrow> hash \<Rightarrow> verdict option" where
  "block_verdict B now currentHeight bm height blockHash =
     (case (if bc_BanCheckpointViolators (bm_config bm)
            then verifyBlockAgainstCheckpoints B (bm_config bm) now (bm_checkpoints bm) height blockHash else None) of
        Some cv \<Rightarrow> Some (True, None, Some cv)
      | None \<Rightarrow>
          if bc_BanHistoricalRewrite (bm_config bm) \<and> height < currentHeight - 100
          then Some (guilty now ''HISTORICAL_REWRITE_ATTEMPT'' 9)
          else if height > currentHeight + 100 then Some (guilty now ''FUTURE_BLOCK'' 6)
          else if bm_bannedHashes bm blockHash \<noteq> None then Some (guilty now ''DUPLICATE_BLOCK'' 5)
          else None)"

definition checkBlockMessage ::
    "('p, 'k) ban_env \<Rightarrow> int \<Rightarrow> u64 \<Rightarrow> peer \<Rightarrow> bytes \<Rightarrow> ('p, 'k) ban_manager \<Rightarrow>
     (ban_stuck + verdict) \<times> ('p, 'k) ban_manager" where
  "checkBlockMessage B now currentHeight p data bm =
     (if length data < 2 then (Inr (guilty now ''MALFORMED_BLOCK'' 8), bm)
      else (case bx_block B (drop 1 data) of
              None \<Rightarrow> (Inr (guilty now ''MALFORMED_BLOCK'' 9), bm)
            | Some blk \<Rightarrow>
                if b_Header blk = None then (Inr (guilty now ''INVALID_BLOCK'' 10), bm)
                else (case blk_number blk of
                        None \<Rightarrow> (Inl BM_Panic, bm)
                      | Some height \<Rightarrow>
                          (case block_verdict B now currentHeight bm height (Block_Hash (cx_crypto (bx_ckpt B)) blk) of
                             Some v \<Rightarrow> (Inr v, bm)
                           | None \<Rightarrow> with_lock bm
                               (let ts = recent minute now (bm_blockTimestamps bm p) in
                                (if int (length ts) > bc_RateLimitBlocks (bm_config bm)
                                 then guilty now ''BLOCK_SPAM'' 8 else fine,
                                 bm\<lparr>bm_blockTimestamps := (bm_blockTimestamps bm)(p := ts)\<rparr>))))))"

definition checkTxMessage :: "('p, 'k) ban_env \<Rightarrow> int \<Rightarrow> bytes \<Rightarrow> verdict" where
  "checkTxMessage B now data =
     (if length data < 2 then guilty now ''MALFORMED_TX'' 8
      else (case bx_tx B (drop 1 data) of
              None \<Rightarrow> guilty now ''MALFORMED_TX'' 9
            | Some t \<Rightarrow> (case Validate_Tx t of Inl _ \<Rightarrow> guilty now ''INVALID_TX'' 9 | Inr _ \<Rightarrow> fine)))"

definition checkKingMessage :: "('p, 'k) ban_env \<Rightarrow> int \<Rightarrow> u64 \<Rightarrow> bytes \<Rightarrow> verdict" where
  "checkKingMessage B now currentHeight data =
     (if length data < 2 then guilty now ''MALFORMED_KING_MSG'' 7
      else (case bx_king B (drop 1 data) of
              None \<Rightarrow> guilty now ''MALFORMED_KING_MSG'' 8
            | Some None \<Rightarrow> fine
            | Some (Some height) \<Rightarrow> if height > currentHeight + 10 then guilty now ''FUTURE_KING_ROTATION'' 6 else fine))"

definition checkKingListMessage :: "('p, 'k) ban_env \<Rightarrow> int \<Rightarrow> bytes \<Rightarrow> verdict" where
  "checkKingListMessage B now data =
     (if length data < 2 then guilty now ''MALFORMED_KING_LIST'' 8
      else (case bx_king_list B (drop 1 data) of
              None \<Rightarrow> guilty now ''MALFORMED_KING_LIST'' 9
            | Some kings \<Rightarrow>
                if kings = [] then guilty now ''EMPTY_KING_LIST'' 8
                else if length kings > 100 then guilty now ''EXCESSIVE_KING_LIST'' 7 else fine))"

definition CheckMessage ::
    "('p, 'k) ban_env \<Rightarrow> int \<Rightarrow> u64 \<Rightarrow> peer \<Rightarrow> u8 \<Rightarrow> bytes \<Rightarrow> ('p, 'k) ban_manager \<Rightarrow>
     (ban_stuck + verdict) \<times> ('p, 'k) ban_manager" where
  "CheckMessage B now currentHeight p msgType data bm =
     (case IsBanned now p bm of
        (Inl e, bm1) \<Rightarrow> (Inl e, bm1)
      | (Inr True, bm1) \<Rightarrow> (Inr fine, bm1)
      | (Inr False, bm1) \<Rightarrow>
          (case checkRateLimit now p bm1 of
             (Inl e, bm2) \<Rightarrow> (Inl e, bm2)
           | (Inr (Some v), bm2) \<Rightarrow> (Inr (True, Some v, None), bm2)
           | (Inr None, bm2) \<Rightarrow>
               if msgType = msgTypeBlock then checkBlockMessage B now currentHeight p data bm2
               else if msgType = msgTypeTx then (Inr (checkTxMessage B now data), bm2)
               else if msgType = msgTypeKingRotation then (Inr (checkKingMessage B now currentHeight data), bm2)
               else if msgType = msgTypeKingListUpdate then (Inr (checkKingListMessage B now data), bm2)
               else (Inr fine, bm2)))"

text \<open>
  The gate of \<open>handleMessages\<close>: \<open>Inr True\<close> lets the message through, \<open>Inr False\<close> drops it.
\<close>

definition gossip_gate ::
    "('p, 'k) ban_env \<Rightarrow> int \<Rightarrow> u64 \<Rightarrow> peer \<Rightarrow> bytes \<Rightarrow> ('p, 'k) ban_manager \<Rightarrow>
     (ban_stuck + bool) \<times> ('p, 'k) ban_manager" where
  "gossip_gate B now currentHeight p data bm =
     (if data = [] then (Inr False, bm)
      else (case CheckMessage B now currentHeight p (hd data) data bm of
              (Inl e, bm1) \<Rightarrow> (Inl e, bm1)
            | (Inr (shouldBan, v, cv), bm1) \<Rightarrow>
                if shouldBan
                then (case RecordViolation p v cv bm1 of
                        (Inl e, bm2) \<Rightarrow> (Inl e, bm2) | (Inr _, bm2) \<Rightarrow> (Inr False, bm2))
                else (Inr True, bm1)))"

text \<open>\<open>CheckPeerBeforeProcessingWithCheckpoints\<close>, for direct pushes.\<close>

definition CheckPeerBeforeProcessing ::
    "('p, 'k) ban_env \<Rightarrow> int \<Rightarrow> peer \<Rightarrow> u8 \<Rightarrow> bytes \<Rightarrow> ('p, 'k) ban_manager option \<Rightarrow>
     (ban_stuck + bool \<times> ban_effect list) \<times> ('p, 'k) ban_manager option" where
  "CheckPeerBeforeProcessing B now p msgType data manager =
     (case manager of
        None \<Rightarrow> (Inr (True, []), None)
      | Some bm \<Rightarrow>
          (case IsBanned now p bm of
             (Inl e, bm1) \<Rightarrow> (Inl e, Some bm1)
           | (Inr True, bm1) \<Rightarrow> (Inr (False, []), Some bm1)
           | (Inr False, bm1) \<Rightarrow>
               if msgType = msgTypeBlock \<and> bm_checkpoints bm1 \<noteq> None then
                 (if data = [] then (Inl BM_Panic, Some bm1)
                  else (case bx_block B (drop 1 data) of
                          None \<Rightarrow> (Inr (True, []), Some bm1)
                        | Some blk \<Rightarrow>
                            if b_Header blk = None then (Inr (True, []), Some bm1)
                            else (case blk_number blk of
                                    None \<Rightarrow> (Inl BM_Panic, Some bm1)
                                  | Some height \<Rightarrow>
                                      (case Option.bind (bm_checkpoints bm1) (\<lambda>c. GetCheckpoint c height) of
                                         None \<Rightarrow> (Inr (True, []), Some bm1)
                                       | Some cp \<Rightarrow>
                                           if cpt_Hash cp \<noteq> Block_Hash (cx_crypto (bx_ckpt B)) blk then
                                             (case BanPeer B now p ''CHECKPOINT_HASH_MISMATCH'' bm1 of
                                                (Inl e, bm2) \<Rightarrow> (Inl e, Some bm2)
                                              | (Inr eff, bm2) \<Rightarrow> (Inr (False, eff), Some bm2))
                                           else (Inr (True, []), Some bm1)))))
               else (Inr (True, []), Some bm1)))"

text \<open>\<open>ValidateChainHistory\<close>: the first listed height whose checkpoint has another hash.\<close>

definition ValidateChainHistory ::
    "ban_config \<Rightarrow> int \<Rightarrow> ('p, 'k) checkpoints option \<Rightarrow> u64 list \<Rightarrow> hash list \<Rightarrow> bool \<times> checkpoint_violation option" where
  "ValidateChainHistory cfg now cps heights hashes =
     (case cps of
        None \<Rightarrow> (True, None)
      | Some c \<Rightarrow>
          if length heights \<noteq> length hashes then (True, None)
          else (case List.find (\<lambda>(h, x). case GetCheckpoint c h of None \<Rightarrow> False | Some cp \<Rightarrow> cpt_Hash cp \<noteq> x)
                       (zip heights hashes) of
                  None \<Rightarrow> (True, None)
                | Some (h, x) \<Rightarrow>
                    (False, Some \<lparr>cv_Type = ''CHAIN_HISTORY_MISMATCH'', cv_Height = h,
                       cv_Expected = (case GetCheckpoint c h of None \<Rightarrow> zero_hash | Some cp \<Rightarrow> cpt_Hash cp),
                       cv_Received = x, cv_Timestamp = now, cv_Severity = bc_CheckpointWeight cfg\<rparr>)))"

section \<open>What the gate does\<close>

lemma locked_IsBanned [simp]: "bm_locked bm \<Longrightarrow> IsBanned now p bm = (Inl BM_Deadlock, bm)"
  by (simp add: IsBanned_def with_lock_def)

lemma locked_gate: "bm_locked bm \<Longrightarrow> data \<noteq> [] \<Longrightarrow> gossip_gate B now h p data bm = (Inl BM_Deadlock, bm)"
  by (simp add: gossip_gate_def CheckMessage_def)

lemma not_banned [simp]: "\<not> bm_locked bm \<Longrightarrow> bm_bannedPeers bm p = None \<Longrightarrow> IsBanned now p bm = (Inr False, bm)"
  by (simp add: IsBanned_def with_lock_def)

text \<open>A peer that is not banned and not over its rate.\<close>

definition quiet :: "peer \<Rightarrow> ('p, 'k) ban_manager \<Rightarrow> bool" where
  "quiet p bm =
     (\<not> bm_locked bm \<and> bm_bannedPeers bm p = None
      \<and> int (length (bm_lastMessages bm p)) < bc_RateLimitMessages (bm_config bm))"

lemma quiet_rate:
  assumes "quiet p bm"
  shows "\<exists>ts. checkRateLimit now p bm = (Inr None, bm\<lparr>bm_lastMessages := (bm_lastMessages bm)(p := ts)\<rparr>)"
proof -
  have "length (recent second now (bm_lastMessages bm p)) \<le> length (bm_lastMessages bm p) + 1"
    by (simp add: recent_def le_SucI)
  with assms show ?thesis by (auto simp: checkRateLimit_def with_lock_def quiet_def Let_def)
qed

text \<open>A grave violation by such a peer locks the manager for ever.\<close>

lemma grave_violation_locks:
  assumes "\<not> bm_locked bm" and "bc_EnableAutoBan (bm_config bm)" and "vi_Severity v \<ge> 9"
  shows "\<exists>bm'. RecordViolation p (Some v) None bm = (Inl BM_Deadlock, bm') \<and> bm_locked bm'"
  using assms by (simp add: RecordViolation_def shouldBanPeer_def note_violation_def Let_def)

lemma guilty_gate:
  assumes "quiet p bm" and "bc_EnableAutoBan (bm_config bm)" and "severity \<ge> 9" and "data \<noteq> []" and "hd data = msgTypeBlock"
    and "\<And>bm1. bm_config bm1 = bm_config bm \<Longrightarrow> bm_checkpoints bm1 = bm_checkpoints bm \<Longrightarrow>
      checkBlockMessage B now h p data bm1 = (Inr (guilty now kind severity), bm1)"
  shows "\<exists>bm'. gossip_gate B now h p data bm = (Inl BM_Deadlock, bm') \<and> bm_locked bm'"
proof -
  obtain ts where r: "checkRateLimit now p bm = (Inr None, bm\<lparr>bm_lastMessages := (bm_lastMessages bm)(p := ts)\<rparr>)"
    (is "_ = (_, ?bm1)") using quiet_rate [OF assms(1)] by blast
  have "IsBanned now p bm = (Inr False, bm)" using assms(1) by (simp add: quiet_def)
  then have c: "CheckMessage B now h p (hd data) data bm = (Inr (guilty now kind severity), ?bm1)"
    using r assms(5) assms(6) [of ?bm1] by (simp add: CheckMessage_def)
  obtain bm' where "RecordViolation p (Some \<lparr>vi_Type = kind, vi_Severity = severity, vi_Timestamp = now\<rparr>) None ?bm1 =
      (Inl BM_Deadlock, bm')" and "bm_locked bm'"
    using grave_violation_locks [of ?bm1 "\<lparr>vi_Type = kind, vi_Severity = severity, vi_Timestamp = now\<rparr>" p] assms(1-3)
    by (auto simp: quiet_def)
  then show ?thesis using c assms(4) by (simp add: gossip_gate_def guilty_def)
qed

section \<open>An instance to evaluate\<close>

definition bt_block :: block where
  "bt_block = sample_block\<lparr>b_Header := Some (sample_header\<lparr>h_Number := Some 6\<rparr>)\<rparr>"

definition bt_env :: "(nat, nat) ban_env" where
  "bt_env = \<lparr>bx_ckpt = ck_env toy_crypto (\<lambda>_. 0) [] (\<lambda>_. None),
     bx_block = (\<lambda>b. if b = [1] then Some bt_block else Some (bt_block\<lparr>b_Header := None\<rparr>)),
     bx_tx = (\<lambda>_. None), bx_king = (\<lambda>_. None), bx_king_list = (\<lambda>_. None), bx_notice = (\<lambda>_ _ _ _. [9])\<rparr>"

definition bt_manager :: "(nat, nat) ban_manager" where
  "bt_manager = NewBanManager DefaultBanConfig None"

lemma bt_quiet: "quiet p bt_manager"
  by (simp add: quiet_def bt_manager_def NewBanManager_def DefaultBanConfig_def)

lemma bt_sel [simp]:
  "bm_config bt_manager = DefaultBanConfig" "bm_checkpoints bt_manager = None" "\<not> bm_locked bt_manager"
  "bm_bannedPeers bt_manager = Map.empty" "bm_lastMessages bt_manager = (\<lambda>_. [])"
  by (simp_all add: bt_manager_def NewBanManager_def)

section \<open>Properties\<close>

text \<open>
  C28: below height 100 the age of a block is compared with a height that has wrapped around, so the first block a
  node receives by gossip is a grave violation, and recording it makes the node wait for its own lock: from
  then on it takes no message of anyone.
\<close>

theorem first_block_hangs_a_young_node:
  assumes "quiet p bm" and "bm_config bm = DefaultBanConfig" and "currentHeight < 100"
    and "bx_block B body = Some blk" and "blk_number blk = Some height" and "unat height < 2 ^ 64 - 100" and "body \<noteq> []"
    and "\<And>c. bm_checkpoints bm = Some c \<Longrightarrow> GetCheckpoint c height = None"
  shows "\<exists>bm'. gossip_gate B now currentHeight p (msgTypeBlock # body) bm = (Inl BM_Deadlock, bm')
    \<and> (\<forall>later h q data. data \<noteq> [] \<longrightarrow> gossip_gate B later h q data bm' = (Inl BM_Deadlock, bm'))"
proof -
  have old: "height < currentHeight - 100"
  proof -
    have "unat currentHeight < 100" using assms(3) by (simp add: word_less_nat_alt)
    then have "unat (currentHeight - 100) = 2 ^ 64 + unat currentHeight - 100"
      by (simp add: unat_sub_if_size word_size)
    with assms(6) show ?thesis by (simp add: word_less_nat_alt)
  qed
  have "checkBlockMessage B now currentHeight p (msgTypeBlock # body) bm1 =
      (Inr (guilty now ''HISTORICAL_REWRITE_ATTEMPT'' 9), bm1)"
    if "bm_config bm1 = bm_config bm" and "bm_checkpoints bm1 = bm_checkpoints bm" for bm1
  proof -
    have "verifyBlockAgainstCheckpoints B cfg now (bm_checkpoints bm1) height x = None" for cfg x
      using assms(8) that(2) by (auto simp: verifyBlockAgainstCheckpoints_def split: option.splits)
    then have "block_verdict B now currentHeight bm1 height x = Some (guilty now ''HISTORICAL_REWRITE_ATTEMPT'' 9)" for x
      using old that(1) assms(2) by (simp add: block_verdict_def DefaultBanConfig_def)
    moreover obtain hdr where "b_Header blk = Some hdr" using assms(5) by (cases "b_Header blk") (simp_all add: blk_number_def)
    ultimately show ?thesis using assms(4,5,7) by (cases body) (simp_all add: checkBlockMessage_def)
  qed
  then obtain bm' where "gossip_gate B now currentHeight p (msgTypeBlock # body) bm = (Inl BM_Deadlock, bm')" "bm_locked bm'"
    using guilty_gate [OF assms(1), of 9 "msgTypeBlock # body" B now currentHeight "''HISTORICAL_REWRITE_ATTEMPT''"] assms(2)
    by (auto simp: DefaultBanConfig_def)
  then show ?thesis using locked_gate by blast
qed

lemma first_block_hangs_a_young_node_witness:
  "\<exists>bm'. gossip_gate bt_env 1000 5 ''p'' [msgTypeBlock, 1] bt_manager = (Inl BM_Deadlock, bm')
    \<and> gossip_gate bt_env 2000 5 ''q'' [msgTypeTx, 7] bm' = (Inl BM_Deadlock, bm')"
proof -
  have b: "bx_block bt_env [1] = Some bt_block" "blk_number bt_block = Some 6"
    by (simp_all add: bt_env_def bt_block_def blk_number_def header_height_def)
  have "\<exists>bm'. gossip_gate bt_env 1000 5 ''p'' [msgTypeBlock, 1] bt_manager = (Inl BM_Deadlock, bm')
    \<and> (\<forall>later h q data. data \<noteq> [] \<longrightarrow> gossip_gate bt_env later h q data bm' = (Inl BM_Deadlock, bm'))"
    by (rule first_block_hangs_a_young_node [OF bt_quiet _ _ b]) simp_all
  then show ?thesis by blast
qed

text \<open>
  A node that publishes a ban hangs every default node that receives the notice: it is sent as a block, and
  read as one it has no header.
\<close>

theorem ban_notice_hangs_receivers:
  assumes "BanPeer B now p reason bm = (Inr effects, bm1)" and "Publish m \<in> set effects"
    and "\<And>q r s t. \<exists>blk. bx_block B2 (bx_notice B q r s t) = Some blk \<and> b_Header blk = None"
    and "\<And>q r s t. bx_notice B q r s t \<noteq> []"
    and "quiet sender receiver" and "bm_config receiver = DefaultBanConfig"
  shows "\<exists>bm'. gossip_gate B2 later h sender m receiver = (Inl BM_Deadlock, bm')
    \<and> (\<forall>later h q data. data \<noteq> [] \<longrightarrow> gossip_gate B2 later h q data bm' = (Inl BM_Deadlock, bm'))"
proof -
  obtain s t where m: "m = msgTypeBlock # bx_notice B p reason s t"
    using assms(1,2) by (auto simp: BanPeer_def with_lock_def broadcastBanNotification_def split: if_splits option.splits)
  obtain blk where blk: "bx_block B2 (bx_notice B p reason s t) = Some blk" "b_Header blk = None" using assms(3) by blast
  have "checkBlockMessage B2 later h sender m bm1 = (Inr (guilty later ''INVALID_BLOCK'' 10), bm1)" for bm1 :: "('c, 'd) ban_manager"
    using blk assms(4) [of p reason s t] by (cases "bx_notice B p reason s t") (simp_all add: checkBlockMessage_def m)
  then obtain bm' where "gossip_gate B2 later h sender m receiver = (Inl BM_Deadlock, bm')" "bm_locked bm'"
    using guilty_gate [OF assms(5), of 10 m B2 later h "''INVALID_BLOCK''"] assms(6) m
    by (auto simp: DefaultBanConfig_def)
  then show ?thesis using locked_gate by blast
qed

lemma ban_notice_hangs_receivers_witness:
  "\<exists>effects bm1 m bm'. BanPeer bt_env 0 ''p'' ''CHECKPOINT_HASH_MISMATCH'' bt_manager = (Inr effects, bm1) \<and> Publish m \<in> set effects
    \<and> gossip_gate bt_env 5 5000 ''honest'' m bt_manager = (Inl BM_Deadlock, bm')"
proof -
  have ban: "\<exists>effects bm1 m. BanPeer bt_env 0 ''p'' ''CHECKPOINT_HASH_MISMATCH'' bt_manager = (Inr effects, bm1) \<and> Publish m \<in> set effects"
    by (simp add: BanPeer_def with_lock_def broadcastBanNotification_def)
  then obtain effects bm1 m where b: "BanPeer bt_env 0 ''p'' ''CHECKPOINT_HASH_MISMATCH'' bt_manager = (Inr effects, bm1)"
    "Publish m \<in> set effects" by blast
  have "\<exists>bm'. gossip_gate bt_env 5 5000 ''honest'' m bt_manager = (Inl BM_Deadlock, bm')
    \<and> (\<forall>later h q data. data \<noteq> [] \<longrightarrow> gossip_gate bt_env later h q data bm' = (Inl BM_Deadlock, bm'))"
    by (rule ban_notice_hangs_receivers [OF b _ _ bt_quiet]) (simp_all add: bt_env_def)
  with b show ?thesis by blast
qed

text \<open>
  C29: a banned peer's gossip is let through without any check, as long as the ban lasts.
\<close>

theorem banned_peer_is_not_checked:
  assumes "\<not> bm_locked bm" and "bm_bannedPeers bm p = Some r" and "now \<le> br_ExpiresAt r" and "data \<noteq> []"
  shows "gossip_gate B now h p data bm = (Inr True, bm)"
  using assms by (simp add: gossip_gate_def CheckMessage_def IsBanned_def with_lock_def fine_def)

lemma banned_peer_is_not_checked_witness:
  "gossip_gate bt_env 10 0 ''p'' [msgTypeBlock] (snd (BanPeer bt_env 0 ''p'' ''x'' bt_manager)) =
    (Inr True, snd (BanPeer bt_env 0 ''p'' ''x'' bt_manager))"
  by (rule banned_peer_is_not_checked)
    (auto simp: BanPeer_def with_lock_def DefaultBanConfig_def one_hour_def)

definition rate_run :: "peer \<Rightarrow> int list \<Rightarrow> ('p, 'k) ban_manager \<Rightarrow> ('p, 'k) ban_manager" where
  "rate_run p ts bm = fold (\<lambda>t bm. snd (checkRateLimit t p bm)) ts bm"

lemma rate_step:
  assumes "\<not> bm_locked bm"
  shows "snd (checkRateLimit t p bm) = bm\<lparr>bm_lastMessages := (bm_lastMessages bm)(p := recent second t (bm_lastMessages bm p))\<rparr>"
  using assms by (simp add: checkRateLimit_def with_lock_def Let_def)

lemma rate_run_keeps:
  assumes "\<not> bm_locked bm"
  shows "\<not> bm_locked (rate_run p ts bm) \<and> bm_config (rate_run p ts bm) = bm_config bm"
  using assms by (induction ts arbitrary: bm) (simp_all add: rate_run_def rate_step)

lemma rate_run_recent:
  assumes "\<not> bm_locked bm" and "bm_lastMessages bm p = []" and "sorted (ts @ [now])"
  shows "filter (\<lambda>t. now - t \<le> second) (bm_lastMessages (rate_run p ts bm) p) = filter (\<lambda>t. now - t \<le> second) ts"
  using assms(3)
proof (induction ts arbitrary: now rule: rev_induct)
  case (snoc t ts)
  have s: "sorted (ts @ [t])" and tn: "t \<le> now" using snoc.prems by (auto simp: sorted_append)
  have "rate_run p (ts @ [t]) bm = snd (checkRateLimit t p (rate_run p ts bm))" by (simp add: rate_run_def)
  then have l: "bm_lastMessages (rate_run p (ts @ [t]) bm) p = filter (\<lambda>x. t - x \<le> second) (bm_lastMessages (rate_run p ts bm) p) @ [t]"
    using rate_run_keeps [OF assms(1), of p ts] by (simp add: rate_step recent_def)
  with snoc.IH [OF s] have l2: "bm_lastMessages (rate_run p (ts @ [t]) bm) p = filter (\<lambda>x. t - x \<le> second) ts @ [t]"
    by simp
  have "filter (\<lambda>x. now - x \<le> second) (filter (\<lambda>x. t - x \<le> second) ts) = filter (\<lambda>x. now - x \<le> second) ts"
    using tn by (induction ts) auto
  with l2 show ?case by simp
qed (use assms(2) in \<open>simp add: rate_run_def\<close>)

text \<open>
  The limit on messages is a sliding window: whatever a peer sent before, a message passes exactly if
  fewer messages than the limit arrived from it within the last second.
\<close>

theorem rate_limit_is_a_sliding_window:
  assumes "\<not> bm_locked bm" and "bm_lastMessages bm p = []" and "sorted (ts @ [now])"
  shows "fst (checkRateLimit now p (rate_run p ts bm)) = Inr None \<longleftrightarrow>
    int (length (filter (\<lambda>t. now - t \<le> second) ts)) < bc_RateLimitMessages (bm_config bm)"
  using rate_run_keeps [OF assms(1), of p ts] rate_run_recent [OF assms]
  by (simp add: checkRateLimit_def with_lock_def recent_def Let_def not_less)

lemma rate_limit_is_a_sliding_window_witness:
  "fst (checkRateLimit 2000000001 ''p'' (rate_run ''p'' [0, 1, 1000000001] bt_manager)) = Inr None"
  by (subst rate_limit_is_a_sliding_window) (simp_all add: second_def DefaultBanConfig_def)

end
