(* ===== verification/Peer_Sync.thy ===== *)
theory Peer_Sync
  imports Ban_Manager Blockchain "HOL-Library.AList" "HOL-Library.Sublist"
begin

text \<open>
  How a node copies the chain of a peer (\<open>antdc/p2p/p2p.go\<close>: requests for blocks, the search for the common ancestor,
  \<open>syncMissingBlocks\<close> and what starts it), and \<open>TruncateTo\<close> of \<open>antdc/chain/blockchain.go\<close>.

  The code knows the chain by an interface; it is a record of operations here (\<open>p2p_chain\<close>), which \<open>node_chain\<close>
  provides from the model of the chain. What a peer sends is a parameter: it may depend on what the request is for
  and on the height. Time limits, loggers and the workers of the download are left out: the download
  takes the order in which the answers arrive as a parameter. A tip has a number. Heights are not \<open>2 ^ 64 - 1\<close>,
  except where the text says so.
\<close>

section \<open>The chain and the peers, as the node sees them\<close>

text \<open>
  \<open>pc_Process\<close> is \<open>ProcessRemoteBlock\<close>: the text of its error, or none; it may never return. \<open>pc_Checkpoint\<close> is the
  verdict of the checkpoints on the block of a height, \<open>pc_Mined\<close> that of \<open>ValidateMinedBlockProposal\<close>.
\<close>

record 'c p2p_chain =
  pc_Latest :: "'c \<Rightarrow> block option"
  pc_GetBlock :: "'c \<Rightarrow> u64 \<Rightarrow> block option"
  pc_HasBlock :: "'c \<Rightarrow> hash \<Rightarrow> bool"
  pc_Checkpoint :: "'c \<Rightarrow> u64 \<Rightarrow> hash \<Rightarrow> bool"
  pc_Mined :: "'c \<Rightarrow> block \<Rightarrow> bool"
  pc_Process :: "'c \<Rightarrow> block \<Rightarrow> string \<Rightarrow> (string option \<times> 'c) option"
  pc_TruncateTo :: "'c \<Rightarrow> u64 \<Rightarrow> bool \<times> 'c"
  pc_IsSyncing :: "'c \<Rightarrow> bool"
  pc_GetSyncTarget :: "'c \<Rightarrow> u64"
  pc_StartSync :: "'c \<Rightarrow> u64 \<Rightarrow> 'c"
  pc_StopSync :: "'c \<Rightarrow> 'c"

text \<open>An answer to a request for a block: nothing, or a length and the bytes that arrive after it.\<close>

datatype reply = No_Answer | Answer u32 bytes
datatype request_for = For_Tip | For_Search | For_Download | For_Probe

record 'c p2p_env =
  px_ops :: "'c p2p_chain"
  px_crypto :: crypto
  px_block :: "bytes \<Rightarrow> block option"
  px_reply :: "peer \<Rightarrow> request_for \<Rightarrow> u64 \<Rightarrow> reply"
  px_height :: "peer \<Rightarrow> u64 option"
  px_peers :: "peer list"
  px_arrivals :: "u64 list \<Rightarrow> u64 list"

datatype sync_error =
    SY_Stream | SY_Not_Found | SY_Too_Large | SY_Read | SY_Decode | SY_Number | SY_Checkpoint | SY_Panic | SY_No_Local
  | SY_Genesis | SY_Truncate | SY_Failures | SY_Diverged u64 string | SY_Add string | SY_Fork

definition MaxSyncResponseBytes :: nat where "MaxSyncResponseBytes = 16777216"

definition currentHeight :: "'c p2p_env \<Rightarrow> 'c \<Rightarrow> u64" where
  "currentHeight E c = (case pc_Latest (px_ops E) c of None \<Rightarrow> 0 | Some b \<Rightarrow> fork_height b)"

definition LatestHash :: "'c p2p_env \<Rightarrow> 'c \<Rightarrow> hash" where
  "LatestHash E c = (case pc_Latest (px_ops E) c of None \<Rightarrow> zero_hash | Some b \<Rightarrow> Block_Hash (px_crypto E) b)"

section \<open>Requests for blocks\<close>

text \<open>
  \<open>handleStream\<close>: the height, or a block that the checkpoints accept. \<open>None\<close> is the length zero. The largest
  number asks for the height.
\<close>

datatype sync_response = Height_Is u64 | Block_Is "block option"

definition handleStream :: "'c p2p_env \<Rightarrow> 'c \<Rightarrow> u64 \<Rightarrow> sync_response" where
  "handleStream E c request =
     (if request = - 1 then Height_Is (currentHeight E c)
      else (case pc_GetBlock (px_ops E) c request of
              None \<Rightarrow> Block_Is None
            | Some blk \<Rightarrow>
                Block_Is (if pc_Checkpoint (px_ops E) c request (Block_Hash (px_crypto E) blk) then Some blk else None)))"

text \<open>The header of the received block is read without a look at whether it is there.\<close>

definition requestBlockWithContext ::
    "'c p2p_env \<Rightarrow> 'c \<Rightarrow> peer \<Rightarrow> request_for \<Rightarrow> u64 \<Rightarrow> sync_error + block" where
  "requestBlockWithContext E c p why blockNumber =
     (case px_reply E p why blockNumber of
        No_Answer \<Rightarrow> Inl SY_Stream
      | Answer len data \<Rightarrow>
          if len = 0 then Inl SY_Not_Found
          else if length data < unat len then Inl SY_Read
          else (case px_block E (take (unat len) data) of
                  None \<Rightarrow> Inl SY_Decode
                | Some blk \<Rightarrow>
                    (case blk_number blk of
                       None \<Rightarrow> Inl SY_Panic
                     | Some n \<Rightarrow>
                         if n \<noteq> blockNumber then Inl SY_Number
                         else if \<not> pc_Checkpoint (px_ops E) c blockNumber (Block_Hash (px_crypto E) blk) then Inl SY_Checkpoint
                         else Inr blk)))"

text \<open>
  \<open>RequestBlockSync\<close> bounds the length and bans a peer whose block contradicts a checkpoint, but it takes a
  block of any number. The second component is the reason of the ban.
\<close>

definition RequestBlockSync :: "'c p2p_env \<Rightarrow> 'c \<Rightarrow> peer \<Rightarrow> u64 \<Rightarrow> (sync_error + block) \<times> string option" where
  "RequestBlockSync E c p blockNumber =
     (case px_reply E p For_Probe blockNumber of
        No_Answer \<Rightarrow> (Inl SY_Stream, None)
      | Answer len data \<Rightarrow>
          if len = 0 then (Inl SY_Not_Found, None)
          else if unat len > MaxSyncResponseBytes then (Inl SY_Too_Large, Some ''OVERSIZED_SYNC_RESPONSE'')
          else if length data < unat len then (Inl SY_Read, None)
          else (case px_block E (take (unat len) data) of
                  None \<Rightarrow> (Inl SY_Decode, None)
                | Some blk \<Rightarrow>
                    if \<not> pc_Checkpoint (px_ops E) c blockNumber (Block_Hash (px_crypto E) blk)
                    then (Inl SY_Checkpoint, Some ''CHECKPOINT_SYNC_MISMATCH'')
                    else (Inr blk, None)))"

text \<open>The ban that a request may end with.\<close>

definition ban_after :: "('p, 'k) ban_env \<Rightarrow> int \<Rightarrow> peer \<Rightarrow> string option \<Rightarrow> ('p, 'k) ban_manager option
    \<Rightarrow> ('p, 'k) ban_manager option" where
  "ban_after B now p reason bm =
     (case (reason, bm) of
        (Some r, Some m) \<Rightarrow> Some (snd (BanPeer B now p r m))
      | _ \<Rightarrow> bm)"

section \<open>The common ancestor\<close>

definition peerBlockMatchesLocal :: "'c p2p_env \<Rightarrow> 'c \<Rightarrow> peer \<Rightarrow> u64 \<Rightarrow> sync_error + bool" where
  "peerBlockMatchesLocal E c p height =
     (case pc_GetBlock (px_ops E) c height of
        None \<Rightarrow> Inl SY_No_Local
      | Some local \<Rightarrow>
          (case requestBlockWithContext E c p For_Search height of
             Inl e \<Rightarrow> Inl e
           | Inr peerBlock \<Rightarrow> Inr (Block_Hash (px_crypto E) local = Block_Hash (px_crypto E) peerBlock)))"

text \<open>The bisection, over the answers to \<open>peerBlockMatchesLocal\<close>; it need not end when \<open>mid + 1\<close> wraps around.\<close>

partial_function (option) ancestor_loop ::
    "(u64 \<Rightarrow> sync_error + bool) \<Rightarrow> u64 \<Rightarrow> u64 \<Rightarrow> u64 \<Rightarrow> (sync_error + u64) option" where
  "ancestor_loop matches low high commonAncestor =
     (if \<not> low \<le> high then Some (Inr commonAncestor)
      else (let mid = low + (high - low) div 2 in
            case matches mid of
              Inl e \<Rightarrow> Some (Inl e)
            | Inr m \<Rightarrow>
                if m then ancestor_loop matches (mid + 1) high mid
                else if mid = 0 then Some (Inl SY_Genesis)
                else ancestor_loop matches low (mid - 1) commonAncestor))"

definition findCommonAncestorByHash :: "'c p2p_env \<Rightarrow> 'c \<Rightarrow> peer \<Rightarrow> u64 \<Rightarrow> (sync_error + u64) option" where
  "findCommonAncestorByHash E c p maxHeight = ancestor_loop (peerBlockMatchesLocal E c p) 0 maxHeight 0"

definition prepareFastSyncAncestor :: "'c p2p_env \<Rightarrow> 'c \<Rightarrow> peer \<Rightarrow> u64 \<Rightarrow> (sync_error + u64) option" where
  "prepareFastSyncAncestor E c p localHeight =
     (if localHeight = 0 then Some (Inr 0)
      else (case pc_GetBlock (px_ops E) c localHeight of
              None \<Rightarrow> Some (Inl SY_No_Local)
            | Some localTip \<Rightarrow>
                (case requestBlockWithContext E c p For_Tip localHeight of
                   Inl e \<Rightarrow> Some (Inl e)
                 | Inr peerTip \<Rightarrow>
                     if Block_Hash (px_crypto E) localTip = Block_Hash (px_crypto E) peerTip then Some (Inr localHeight)
                     else findCommonAncestorByHash E c p localHeight)))"

section \<open>The text of an error\<close>

definition ascii_lower :: "string \<Rightarrow> string" where
  "ascii_lower s = map (\<lambda>c. let n = of_char c :: nat in if 65 \<le> n \<and> n \<le> 90 then char_of (n + 32) else c) s"

definition is_digit :: "char \<Rightarrow> bool" where
  "is_digit c \<longleftrightarrow> digit_val c \<noteq> None"

definition missing_text :: string where "missing_text = ''parent branch missing at height ''"

text \<open>\<open>parent branch missing at height ([0-9]+)\<close>: the digits of the leftmost match.\<close>

fun find_missing :: "string \<Rightarrow> string option" where
  "find_missing [] = None"
| "find_missing (c # cs) =
     (let digits = takeWhile is_digit (drop (length missing_text) (c # cs)) in
      if prefix missing_text (c # cs) \<and> digits \<noteq> [] then Some digits else find_missing cs)"

definition parseParentBranchMissingAncestor :: "string \<Rightarrow> u64 option" where
  "parseParentBranchMissingAncestor err =
     (case Option.bind (find_missing (ascii_lower err)) parse_nat of
        None \<Rightarrow> None
      | Some n \<Rightarrow> if n \<ge> 2 ^ 64 then None else Some (word_of_nat (n - 1)))"

definition says :: "string \<Rightarrow> string \<Rightarrow> bool" where
  "says err word \<longleftrightarrow> sublist word err"

text \<open>\<open>sync_text\<close>: what the error of a synchronisation quotes; its own words contain none of those searched for.\<close>

fun sync_text :: "sync_error \<Rightarrow> string" where
  "sync_text (SY_Diverged a err) = err"
| "sync_text (SY_Add err) = err"
| "sync_text _ = []"

definition isDeterministicSyncValidationFailure :: "string \<Rightarrow> bool" where
  "isDeterministicSyncValidationFailure err =
     (let msg = ascii_lower err in
      says msg ''pos validation failed'' \<or> says msg ''miner eligibility verification failed''
      \<or> says msg ''address not eligible to mine'' \<or> says msg ''state root mismatch'' \<or> says msg ''block validation failed'')"

definition finalSyncTarget :: "u64 \<Rightarrow> u64 \<Rightarrow> u64" where
  "finalSyncTarget initialTarget localHeight = (if initialTarget > localHeight then initialTarget else localHeight)"

section \<open>Copying the missing blocks\<close>

text \<open>
  The blocks that have arrived are added in the order of their numbers, from \<open>next\<close> on. The map of
  arrived blocks has at most one entry per height.
\<close>

function add_ready ::
    "'c p2p_env \<Rightarrow> u64 \<Rightarrow> (u64 \<times> block) list \<Rightarrow> 'c \<Rightarrow> ((sync_error + (u64 \<times> block) list) \<times> 'c) option" where
  "add_ready E nextHeight fetched c =
     (case map_of fetched nextHeight of
        None \<Rightarrow> Some (Inr fetched, c)
      | Some b \<Rightarrow>
          (case pc_Process (px_ops E) c b ''p2p:sync'' of
             None \<Rightarrow> None
           | Some (None, c') \<Rightarrow> add_ready E (nextHeight + 1) (AList.delete nextHeight fetched) c'
           | Some (Some err, c') \<Rightarrow>
               if says err ''already'' \<or> says err ''known''
               then add_ready E (nextHeight + 1) (AList.delete nextHeight fetched) c'
               else (case parseParentBranchMissingAncestor err of
                       Some a \<Rightarrow> Some (Inl (SY_Diverged a err), c')
                     | None \<Rightarrow> Some (Inr fetched, c'))))"
  by pat_completeness auto

lemma length_delete_less: "map_of xs k = Some v \<Longrightarrow> length (AList.delete k xs) < length xs"
  unfolding AList.delete_eq by (rule length_filter_less [where x = "(k, v)"]) (auto dest: map_of_SomeD)

termination add_ready
  by (relation "measure (\<lambda>(E, n, fetched, c). length fetched)") (auto dest: length_delete_less)

declare add_ready.simps [simp del]

text \<open>The results, in the order in which they arrive; more than 20 failures end the download.\<close>

fun download ::
    "'c p2p_env \<Rightarrow> peer \<Rightarrow> u64 list \<Rightarrow> (u64 \<times> block) list \<Rightarrow> nat \<Rightarrow> 'c \<Rightarrow> ((sync_error + unit) \<times> 'c) option" where
  "download E p [] fetched failures c = Some (Inr (), c)"
| "download E p (h # hs) fetched failures c =
     (case requestBlockWithContext E c p For_Download h of
        Inl SY_Panic \<Rightarrow> Some (Inl SY_Panic, c)
      | Inl e \<Rightarrow> if failures + 1 > 20 then Some (Inl SY_Failures, c) else download E p hs fetched (failures + 1) c
      | Inr blk \<Rightarrow>
          (case add_ready E (currentHeight E c + 1) ((h, blk) # fetched) c of
             None \<Rightarrow> None
           | Some (Inl e, c') \<Rightarrow> Some (Inl e, c')
           | Some (Inr fetched', c') \<Rightarrow> download E p hs fetched' failures c'))"

text \<open>
  The channels of the download have the length of the gap: a length that is no \<open>int\<close> panics. (The
  runtime refuses far shorter ones as well.)
\<close>

definition make_chan_ok :: "u64 \<Rightarrow> bool" where
  "make_chan_ok n \<longleftrightarrow> unat n < 2 ^ 63"

definition fetch_missing :: "'c p2p_env \<Rightarrow> peer \<Rightarrow> u64 \<Rightarrow> u64 \<Rightarrow> 'c \<Rightarrow> ((sync_error + unit) \<times> 'c) option" where
  "fetch_missing E p localHeight targetHeight c =
     (if \<not> make_chan_ok (targetHeight - localHeight) then Some (Inl SY_Panic, c)
      else (case download E p (px_arrivals E (heights (localHeight + 1) targetHeight)) [] 0 c of
              None \<Rightarrow> None
            | Some (Inl e, c') \<Rightarrow> Some (Inl e, c')
            | Some (Inr _, c') \<Rightarrow> Some (Inr (), pc_StopSync (px_ops E) c')))"

definition syncMissingBlocks :: "'c p2p_env \<Rightarrow> peer \<Rightarrow> u64 \<Rightarrow> 'c \<Rightarrow> ((sync_error + unit) \<times> 'c) option" where
  "syncMissingBlocks E p targetHeight c =
     (let localHeight = currentHeight E c in
      if targetHeight \<le> localHeight then Some (Inr (), c)
      else (case prepareFastSyncAncestor E c p localHeight of
              None \<Rightarrow> None
            | Some (Inl e) \<Rightarrow> Some (Inl e, c)
            | Some (Inr ancestorHeight) \<Rightarrow>
                if ancestorHeight < localHeight then
                  (case pc_TruncateTo (px_ops E) c ancestorHeight of
                     (False, c') \<Rightarrow> Some (Inl SY_Truncate, c')
                   | (True, c') \<Rightarrow> fetch_missing E p ancestorHeight targetHeight c')
                else fetch_missing E p localHeight targetHeight c))"

section \<open>When a node synchronises\<close>

text \<open>
  The height that a peer reports is its claim. \<open>None\<close>: the request fails. \<open>syncHeight\<close> only grows.
\<close>

record 'c sync_node =
  sn_chain :: 'c
  sn_syncHeight :: u64
  sn_lastSyncTime :: "int option"
  sn_syncAttempts :: int

definition GetPeerHeight :: "'c p2p_env \<Rightarrow> peer \<Rightarrow> 'c sync_node \<Rightarrow> u64 option \<times> 'c sync_node" where
  "GetPeerHeight E p n =
     (case px_height E p of
        None \<Rightarrow> (None, n)
      | Some h \<Rightarrow> (Some h, if h > sn_syncHeight n then n\<lparr>sn_syncHeight := h\<rparr> else n))"

text \<open>The peer of the greatest height above a bound, asked in turn; the first of equals.\<close>

fun best_peer ::
    "'c p2p_env \<Rightarrow> (u64 \<Rightarrow> bool) \<Rightarrow> peer list \<Rightarrow> peer option \<times> u64 \<Rightarrow> 'c sync_node \<Rightarrow> (peer option \<times> u64) \<times> 'c sync_node" where
  "best_peer E ok [] best n = (best, n)"
| "best_peer E ok (p # ps) best n =
     (case GetPeerHeight E p n of
        (None, n') \<Rightarrow> best_peer E ok ps best n'
      | (Some h, n') \<Rightarrow> best_peer E ok ps (if ok h \<and> h > snd best then (Some p, h) else best) n')"

definition shouldAttemptSync :: "int \<Rightarrow> 'c sync_node \<Rightarrow> bool" where
  "shouldAttemptSync now n =
     (\<not> (case sn_lastSyncTime n of None \<Rightarrow> False | Some t \<Rightarrow> now - t < 10 * second) \<and> \<not> sn_syncAttempts n > 3)"

text \<open>Nothing calls \<open>recordSyncAttempt\<close>.\<close>

definition recordSyncAttempt :: "int \<Rightarrow> 'c sync_node \<Rightarrow> 'c sync_node" where
  "recordSyncAttempt now n = n\<lparr>sn_lastSyncTime := Some now, sn_syncAttempts := sn_syncAttempts n + 1\<rparr>"

definition on_chain :: "('c \<Rightarrow> 'c) \<Rightarrow> 'c sync_node \<Rightarrow> 'c sync_node" where
  "on_chain f n = n\<lparr>sn_chain := f (sn_chain n)\<rparr>"

definition stop_if_syncing :: "'c p2p_env \<Rightarrow> 'c sync_node \<Rightarrow> 'c sync_node" where
  "stop_if_syncing E n = (if pc_IsSyncing (px_ops E) (sn_chain n) then on_chain (pc_StopSync (px_ops E)) n else n)"

text \<open>A synchronisation that is announced to the chain: the error, or none, and the node.\<close>

definition sync_to :: "'c p2p_env \<Rightarrow> peer \<Rightarrow> u64 \<Rightarrow> 'c sync_node \<Rightarrow> (sync_error option \<times> 'c sync_node) option" where
  "sync_to E p target n =
     (case syncMissingBlocks E p target (pc_StartSync (px_ops E) (sn_chain n) target) of
        None \<Rightarrow> None
      | Some (Inl e, c) \<Rightarrow> Some (Some e, n\<lparr>sn_chain := c\<rparr>)
      | Some (Inr _, c) \<Rightarrow> Some (None, n\<lparr>sn_chain := c\<rparr>))"

text \<open>
  A panic in a goroutine ends the process; it is the error of the whole step. The value says whether another
  peer was tried.
\<close>

definition continueSyncWithHigherPeer ::
    "'c p2p_env \<Rightarrow> u64 \<Rightarrow> peer \<Rightarrow> 'c sync_node \<Rightarrow> ((sync_error + bool) \<times> 'c sync_node) option" where
  "continueSyncWithHigherPeer E localHeight exclude n =
     (case best_peer E (\<lambda>_. True) (filter (\<lambda>p. p \<noteq> exclude) (px_peers E)) (None, localHeight) n of
        ((None, _), n1) \<Rightarrow> Some (Inr False, n1)
      | ((Some best, bestHeight), n1) \<Rightarrow>
          (case sync_to E best bestHeight n1 of
             None \<Rightarrow> None
           | Some (Some SY_Panic, n2) \<Rightarrow> Some (Inl SY_Panic, n2)
           | Some (Some e, n2) \<Rightarrow> Some (Inr True, stop_if_syncing E n2)
           | Some (None, n2) \<Rightarrow>
               Some (Inr True, if currentHeight E (sn_chain n2) \<ge> bestHeight then on_chain (pc_StopSync (px_ops E)) n2 else n2)))"

fun retrySyncWithAlternatePeer ::
    "'c p2p_env \<Rightarrow> peer \<Rightarrow> u64 \<Rightarrow> peer list \<Rightarrow> 'c sync_node \<Rightarrow> ((sync_error + bool) \<times> 'c sync_node) option" where
  "retrySyncWithAlternatePeer E exclude targetHeight [] n = Some (Inr False, n)"
| "retrySyncWithAlternatePeer E exclude targetHeight (p # ps) n =
     (if p = exclude then retrySyncWithAlternatePeer E exclude targetHeight ps n
      else (case GetPeerHeight E p n of
              (None, n1) \<Rightarrow> retrySyncWithAlternatePeer E exclude targetHeight ps n1
            | (Some h, n1) \<Rightarrow>
                if h < targetHeight then retrySyncWithAlternatePeer E exclude targetHeight ps n1
                else (case sync_to E p targetHeight n1 of
                        None \<Rightarrow> None
                      | Some (Some SY_Panic, n2) \<Rightarrow> Some (Inl SY_Panic, n2)
                      | Some (Some e, n2) \<Rightarrow> retrySyncWithAlternatePeer E exclude targetHeight ps n2
                      | Some (None, n2) \<Rightarrow>
                          if currentHeight E (sn_chain n2) \<ge> targetHeight
                          then Some (Inr True, on_chain (pc_StopSync (px_ops E)) n2)
                          else retrySyncWithAlternatePeer E exclude targetHeight ps n2)))"

text \<open>\<open>Inl\<close>: the process has ended.\<close>

definition after_failed_sync ::
    "'c p2p_env \<Rightarrow> peer \<Rightarrow> u64 \<Rightarrow> sync_error \<Rightarrow> 'c sync_node \<Rightarrow> ((sync_error + unit) \<times> 'c sync_node) option" where
  "after_failed_sync E p peerHeight e n =
     (if e = SY_Panic then Some (Inl SY_Panic, n)
      else if isDeterministicSyncValidationFailure (sync_text e) then
        (case retrySyncWithAlternatePeer E p (finalSyncTarget peerHeight (currentHeight E (sn_chain n))) (px_peers E) n of
           None \<Rightarrow> None
         | Some (Inl f, n') \<Rightarrow> Some (Inl f, n')
         | Some (Inr recovered, n') \<Rightarrow> Some (Inr (), if recovered then n' else stop_if_syncing E n'))
      else Some (Inr (), stop_if_syncing E n))"

definition syncIfBehind ::
    "'c p2p_env \<Rightarrow> int \<Rightarrow> peer \<Rightarrow> 'c sync_node \<Rightarrow> ((sync_error + unit) \<times> 'c sync_node) option" where
  "syncIfBehind E now p n =
     (let localHeight = currentHeight E (sn_chain n) in
      if localHeight \<noteq> 0 \<and> (pc_IsSyncing (px_ops E) (sn_chain n) \<or> \<not> shouldAttemptSync now n) then Some (Inr (), n)
      else (case GetPeerHeight E p n of
              (None, n1) \<Rightarrow> Some (Inr (), n1)
            | (Some peerHeight, n1) \<Rightarrow>
                if peerHeight \<le> localHeight then
                  (case continueSyncWithHigherPeer E localHeight p n1 of
                     None \<Rightarrow> None
                   | Some (Inl e, n2) \<Rightarrow> Some (Inl e, n2)
                   | Some (Inr tried, n2) \<Rightarrow> Some (Inr (), if tried then n2 else stop_if_syncing E n2))
                else
                  (case sync_to E p peerHeight n1 of
                     None \<Rightarrow> None
                   | Some (Some e, n2) \<Rightarrow> after_failed_sync E p peerHeight e n2
                   | Some (None, n2) \<Rightarrow>
                       let finalHeight = currentHeight E (sn_chain n2) in
                       if finalHeight \<ge> peerHeight then
                         (case continueSyncWithHigherPeer E finalHeight p n2 of
                            None \<Rightarrow> None
                          | Some (Inl e, n3) \<Rightarrow> Some (Inl e, n3)
                          | Some (Inr tried, n3) \<Rightarrow> Some (Inr (), if tried then n3 else on_chain (pc_StopSync (px_ops E)) n3))
                       else Some (Inr (), n2))))"

text \<open>
  What starts a synchronisation. \<open>Some p\<close> is the peer to synchronise with. The inquiries that the code makes in
  parallel are made in turn.
\<close>

definition forceSync :: "'c p2p_env \<Rightarrow> 'c sync_node \<Rightarrow> ((sync_error + unit) \<times> 'c sync_node) option" where
  "forceSync E n =
     (case best_peer E (\<lambda>_. True) (px_peers E) (None, 0) (stop_if_syncing E n) of
        ((None, _), n1) \<Rightarrow> Some (Inr (), n1)
      | ((Some p, h), n1) \<Rightarrow>
          if h = 0 \<or> h \<le> currentHeight E (sn_chain n1) then Some (Inr (), n1)
          else (case sync_to E p h n1 of
                  None \<Rightarrow> None
                | Some (Some SY_Panic, n2) \<Rightarrow> Some (Inl SY_Panic, n2)
                | Some (_, n2) \<Rightarrow> Some (Inr (), n2)))"

fun first_ahead :: "'c p2p_env \<Rightarrow> u64 \<Rightarrow> peer list \<Rightarrow> 'c sync_node \<Rightarrow> (peer \<times> u64) option \<times> 'c sync_node" where
  "first_ahead E bound [] n = (None, n)"
| "first_ahead E bound (p # ps) n =
     (case GetPeerHeight E p n of
        (None, n') \<Rightarrow> first_ahead E bound ps n'
      | (Some h, n') \<Rightarrow> if h > bound then (Some (p, h), n') else first_ahead E bound ps n')"

definition triggerSyncWithPeers :: "'c p2p_env \<Rightarrow> 'c sync_node \<Rightarrow> ((sync_error + unit) \<times> 'c sync_node) option" where
  "triggerSyncWithPeers E n =
     (case first_ahead E (currentHeight E (sn_chain n)) (px_peers E) n of
        (None, n1) \<Rightarrow> Some (Inr (), n1)
      | (Some (p, h), n1) \<Rightarrow>
          (case sync_to E p h n1 of
             None \<Rightarrow> None
           | Some (Some SY_Panic, n2) \<Rightarrow> Some (Inl SY_Panic, n2)
           | Some (Some e, n2) \<Rightarrow> Some (Inr (), n2)
           | Some (None, n2) \<Rightarrow> Some (Inr (), stop_if_syncing E n2)))"

definition triggerImmediateSync :: "'c p2p_env \<Rightarrow> 'c sync_node \<Rightarrow> peer option \<times> 'c sync_node" where
  "triggerImmediateSync E n =
     (if pc_IsSyncing (px_ops E) (sn_chain n) then (None, n)
      else (case first_ahead E (currentHeight E (sn_chain n)) (px_peers E) n of
              (r, n') \<Rightarrow> (map_option fst r, n')))"

text \<open>One tick of \<open>syncLoop\<close> after its cool-down, of \<open>FastSyncCheck\<close> above height 0 and of \<open>PeriodicSyncCheck\<close>.\<close>

definition gap_above :: "'c p2p_env \<Rightarrow> u64 \<Rightarrow> 'c sync_node \<Rightarrow> u64 \<Rightarrow> bool" where
  "gap_above E threshold n h \<longleftrightarrow> currentHeight E (sn_chain n) < h \<and> threshold < h - currentHeight E (sn_chain n)"

fun syncLoop_peers :: "'c p2p_env \<Rightarrow> u64 \<Rightarrow> peer list \<Rightarrow> 'c sync_node \<Rightarrow> peer option \<times> 'c sync_node" where
  "syncLoop_peers E threshold [] n = (None, n)"
| "syncLoop_peers E threshold (p # ps) n =
     (case GetPeerHeight E p n of
        (None, n') \<Rightarrow> syncLoop_peers E threshold ps n'
      | (Some h, n') \<Rightarrow> if gap_above E threshold n' h then (Some p, n') else syncLoop_peers E threshold ps n')"

definition syncLoop_tick :: "'c p2p_env \<Rightarrow> int \<Rightarrow> int \<Rightarrow> 'c sync_node \<Rightarrow> peer option \<times> 'c sync_node" where
  "syncLoop_tick E now lastSyncAttempt n =
     (let low = currentHeight E (sn_chain n) < 10 in
      if now - lastSyncAttempt < (if low then 10 else 30) * second \<or> pc_IsSyncing (px_ops E) (sn_chain n) then (None, n)
      else syncLoop_peers E (if low then 1 else 5) (px_peers E) n)"

definition FastSyncCheck_tick :: "'c p2p_env \<Rightarrow> 'c sync_node \<Rightarrow> peer option \<times> 'c sync_node" where
  "FastSyncCheck_tick E n =
     (if pc_IsSyncing (px_ops E) (sn_chain n) then (None, n)
      else (case best_peer E (\<lambda>_. True) (px_peers E) (None, 0) n of
              ((best, h), n') \<Rightarrow>
                (if gap_above E (if currentHeight E (sn_chain n') < 100 then 1 else 2) n' h then best else None, n')))"

definition PeriodicSyncCheck_tick :: "'c p2p_env \<Rightarrow> 'c sync_node \<Rightarrow> peer option \<times> 'c sync_node" where
  "PeriodicSyncCheck_tick E n =
     (if pc_IsSyncing (px_ops E) (sn_chain n) then (None, n)
      else (case best_peer E (\<lambda>_. True) (px_peers E) (None, 0) n of
              ((best, h), n') \<Rightarrow> (if h > currentHeight E (sn_chain n) + 2 then best else None, n')))"

definition forceInitialSync ::
    "'c p2p_env \<Rightarrow> int \<Rightarrow> 'c sync_node \<Rightarrow> ((sync_error + unit) \<times> 'c sync_node) option" where
  "forceInitialSync E now n =
     (case best_peer E (\<lambda>_. True) (px_peers E) (None, 0) n of
        ((None, _), n1) \<Rightarrow> Some (Inr (), n1)
      | ((Some p, h), n1) \<Rightarrow>
          if h \<le> currentHeight E (sn_chain n1) then Some (Inr (), n1) else syncIfBehind E now p n1)"

text \<open>
  \<open>triggerSyncToHeight\<close>; \<open>hosted\<close>: the node has a host. Without a peer of that height \<open>triggerSync\<close> asks every
  peer by a goroutine of its own.
\<close>

fun triggerSync :: "'c p2p_env \<Rightarrow> int \<Rightarrow> peer list \<Rightarrow> 'c sync_node \<Rightarrow> ((sync_error + unit) \<times> 'c sync_node) option" where
  "triggerSync E now [] n = Some (Inr (), n)"
| "triggerSync E now (p # ps) n =
     (case GetPeerHeight E p n of
        (None, n1) \<Rightarrow> triggerSync E now ps n1
      | (Some h, n1) \<Rightarrow>
          if h > currentHeight E (sn_chain n1) then
            (case syncIfBehind E now p n1 of
               None \<Rightarrow> None
             | Some (Inl e, n2) \<Rightarrow> Some (Inl e, n2)
             | Some (Inr _, n2) \<Rightarrow> triggerSync E now ps n2)
          else triggerSync E now ps n1)"

definition triggerSyncToHeight ::
    "'c p2p_env \<Rightarrow> int \<Rightarrow> bool \<Rightarrow> u64 \<Rightarrow> 'c sync_node \<Rightarrow> ((sync_error + unit) \<times> 'c sync_node) option" where
  "triggerSyncToHeight E now hosted targetHeight n =
     (if targetHeight \<le> currentHeight E (sn_chain n) \<or> pc_IsSyncing (px_ops E) (sn_chain n) then Some (Inr (), n)
      else if \<not> hosted then Some (Inr (), on_chain (\<lambda>c. pc_StartSync (px_ops E) c targetHeight) n)
      else if px_peers E = [] then Some (Inr (), n)
      else (case best_peer E (\<lambda>h. h \<ge> targetHeight) (px_peers E) (None, 0) n of
              ((None, _), n1) \<Rightarrow> triggerSync E now (px_peers E) n1
            | ((Some p, _), n1) \<Rightarrow> syncIfBehind E now p n1))"

section \<open>Searches that nothing calls\<close>

text \<open>
  \<open>findCommonAncestor\<close> and \<open>findCommonAncestorLocked\<close>: the loop counts down while \<open>h >= 0\<close>, which holds of every
  \<open>uint64\<close>; it ends at a match only. The bans are left out.
\<close>

definition probe_matches :: "'c p2p_env \<Rightarrow> 'c \<Rightarrow> peer \<Rightarrow> u64 \<Rightarrow> bool" where
  "probe_matches E c p h =
     (case (fst (RequestBlockSync E c p h), pc_GetBlock (px_ops E) c h) of
        (Inr blk, Some local) \<Rightarrow> Block_Hash (px_crypto E) local = Block_Hash (px_crypto E) blk
      | _ \<Rightarrow> False)"

partial_function (option) count_down :: "(u64 \<Rightarrow> bool) \<Rightarrow> u64 \<Rightarrow> u64 option" where
  "count_down matches h = (if matches h then Some h else count_down matches (h - 1))"

definition findCommonAncestor :: "'c p2p_env \<Rightarrow> 'c \<Rightarrow> peer \<Rightarrow> u64 \<Rightarrow> u64 option" where
  "findCommonAncestor E c p startHeight = count_down (probe_matches E c p) startHeight"

definition findCommonAncestorLocked :: "'c p2p_env \<Rightarrow> 'c \<Rightarrow> peer \<Rightarrow> u64 \<Rightarrow> u64 option" where
  "findCommonAncestorLocked E c p startHeight = count_down (probe_matches E c p) startHeight"

text \<open>\<open>backfillMissingParents\<close> adds the missing blocks from the newest to the oldest.\<close>

partial_function (option) backfillMissingParents ::
    "'c p2p_env \<Rightarrow> peer \<Rightarrow> hash \<Rightarrow> u64 \<Rightarrow> 'c \<Rightarrow> ((sync_error + unit) \<times> 'c) option" where
  "backfillMissingParents E p expectedHash h c =
     (if currentHeight E c \<ge> h then
        Some (if LatestHash E c = expectedHash then Inr () else Inl SY_Fork, c)
      else (case fst (RequestBlockSync E c p h) of
              Inl e \<Rightarrow> Some (Inl e, c)
            | Inr blk \<Rightarrow>
                (case pc_Process (px_ops E) c blk p of
                   None \<Rightarrow> None
                 | Some (Some err, c') \<Rightarrow> Some (Inl (SY_Add err), c')
                 | Some (None, c') \<Rightarrow> backfillMissingParents E p expectedHash (h - 1) c')))"

text \<open>
  The quick searches look at the last blocks and then settle for the genesis block. \<open>matches\<close>: \<open>None\<close> for a missing
  block or a failed request.
\<close>

definition context_matches :: "'c p2p_env \<Rightarrow> 'c \<Rightarrow> peer \<Rightarrow> u64 \<Rightarrow> bool" where
  "context_matches E c p h =
     (case (pc_GetBlock (px_ops E) c h, requestBlockWithContext E c p For_Probe h) of
        (Some local, Inr blk) \<Rightarrow> Block_Hash (px_crypto E) local = Block_Hash (px_crypto E) blk
      | _ \<Rightarrow> False)"

definition recent_heights :: "nat \<Rightarrow> u64 \<Rightarrow> u64 list" where
  "recent_heights k maxHeight = map (\<lambda>i. maxHeight - word_of_nat i) (filter (\<lambda>i. i \<le> unat maxHeight) [0..<k])"

definition quickFindDivergence :: "'c p2p_env \<Rightarrow> 'c \<Rightarrow> peer \<Rightarrow> u64 \<Rightarrow> u64" where
  "quickFindDivergence E c p maxHeight =
     (case find (context_matches E c p) (recent_heights 10 maxHeight) of None \<Rightarrow> 0 | Some h \<Rightarrow> h)"

definition quickFindCommonAncestor :: "'c p2p_env \<Rightarrow> 'c \<Rightarrow> peer \<Rightarrow> u64 \<Rightarrow> u64" where
  "quickFindCommonAncestor E c p maxHeight =
     (case find (context_matches E c p) (recent_heights 10 maxHeight) of None \<Rightarrow> 0 | Some h \<Rightarrow> h)"

definition resolveFork :: "'c p2p_env \<Rightarrow> 'c \<Rightarrow> peer \<Rightarrow> u64 \<Rightarrow> u64" where
  "resolveFork E c p maxHeight =
     (case find (context_matches E c p)
        (recent_heights 20 maxHeight
         @ filter (\<lambda>h. h \<le> maxHeight) [maxHeight div 2, maxHeight div 4, 100, 50, 10, 1, 0]) of
        None \<Rightarrow> 0 | Some h \<Rightarrow> h)"

text \<open>The bisection stops while two heights are left; an error counts as a difference.\<close>

partial_function (option) divergence_loop :: "(u64 \<Rightarrow> bool) \<Rightarrow> u64 \<Rightarrow> u64 \<Rightarrow> u64 \<Rightarrow> u64 option" where
  "divergence_loop matches low high lastMatch =
     (if \<not> (low \<le> high \<and> high - low > 1) then Some lastMatch
      else (let mid = (low + high) div 2 in
            if matches mid then divergence_loop matches (mid + 1) high mid
            else divergence_loop matches low (mid - 1) lastMatch))"

definition binarySearchDivergence :: "'c p2p_env \<Rightarrow> 'c \<Rightarrow> peer \<Rightarrow> u64 \<Rightarrow> u64 option" where
  "binarySearchDivergence E c p maxHeight = divergence_loop (probe_matches E c p) 0 maxHeight 0"

definition findDivergencePoint :: "'c p2p_env \<Rightarrow> 'c \<Rightarrow> peer \<Rightarrow> u64 \<Rightarrow> u64 option" where
  "findDivergencePoint E c p maxHeight =
     (if maxHeight \<le> 10 then Some 0
      else (case find (probe_matches E c p)
              (filter (\<lambda>h. h \<le> maxHeight)
                 [maxHeight, maxHeight - 1, maxHeight - 10, maxHeight div 2, maxHeight div 4, 100, 50, 25, 10, 5, 1, 0]) of
              Some h \<Rightarrow> Some h
            | None \<Rightarrow> binarySearchDivergence E c p maxHeight))"

definition isSyncProgressing :: "u64 \<Rightarrow> u64 \<Rightarrow> bool" where
  "isSyncProgressing startHeight curHeight \<longleftrightarrow> curHeight > startHeight"

definition shouldUseSyncMode :: "u64 \<Rightarrow> u64 \<Rightarrow> bool" where
  "shouldUseSyncMode peerHeight localHeight \<longleftrightarrow> peerHeight - localHeight > 50"

section \<open>The chain of the node\<close>

text \<open>
  \<open>TruncateTo\<close> changes the database and the tip; the state stays that of the old tip. \<open>StopSync\<close> also
  starts a pause of the miner, which is left out.
\<close>

definition TruncateTo ::
    "('s, 'd) chain_env \<Rightarrow> ('s, 'd) blockchain \<Rightarrow> u64 \<Rightarrow> (chain_error + unit) \<times> ('s, 'd) blockchain" where
  "TruncateTo X bc height =
     (if height \<ge> bc_height bc then (Inl C_Revert_Target, bc)
      else (case commit (ce_pebble X) (bc_db bc) (truncate_entries (ce_pebble X) (bc_db bc) height (bc_height bc)) of
              Inl e \<Rightarrow> (Inl (C_Database e), bc)
            | Inr d \<Rightarrow> set_tip X (bc\<lparr>bc_db := d\<rparr>) height))"

definition StopSync :: "('s, 'd) blockchain \<Rightarrow> ('s, 'd) blockchain" where
  "StopSync bc = bc\<lparr>bc_syncing := False, bc_syncTarget := 0\<rparr>"

text \<open>\<open>GetBlock\<close> that dereferences nil counts as no block; \<open>say\<close> are the texts of the manager's errors.\<close>

definition node_chain ::
    "('s, 'd) chain_env \<Rightarrow> ('s, 'd) blockchain rm_env \<Rightarrow> (u64 \<Rightarrow> hash \<Rightarrow> bool) \<Rightarrow> (rm_error \<Rightarrow> string)
     \<Rightarrow> ('s, 'd) blockchain reorg_manager p2p_chain" where
  "node_chain X M checkpoint say =
     \<lparr>pc_Latest = (\<lambda>rm. bc_latest (rm_chain rm)),
      pc_GetBlock = (\<lambda>rm h. found (GetBlock (ce_pebble X) (ce_rlp X) (bc_db (rm_chain rm)) h)),
      pc_HasBlock = (\<lambda>rm h. HasBlock X (bc_db (rm_chain rm)) h),
      pc_Checkpoint = (\<lambda>rm. checkpoint),
      pc_Mined = (\<lambda>rm b. co_ValidateBlock (reorgChainAdapter X) (rm_chain rm) b),
      pc_Process = (\<lambda>rm b src. map_option (\<lambda>(r, rm'). (case r of Inl e \<Rightarrow> Some (say e) | Inr _ \<Rightarrow> None, rm'))
         (ProcessNewBlock M rm (Some b) src)),
      pc_TruncateTo = (\<lambda>rm h. case TruncateTo X (rm_chain rm) h of (r, bc) \<Rightarrow> (r = Inr (), rm\<lparr>rm_chain := bc\<rparr>)),
      pc_IsSyncing = (\<lambda>rm. bc_syncing (rm_chain rm)),
      pc_GetSyncTarget = (\<lambda>rm. bc_syncTarget (rm_chain rm)),
      pc_StartSync = (\<lambda>rm h. rm\<lparr>rm_chain := StartSync (rm_chain rm) h\<rparr>),
      pc_StopSync = (\<lambda>rm. rm\<lparr>rm_chain := StopSync (rm_chain rm)\<rparr>)\<rparr>"

text \<open>What truncation leaves in the database.\<close>

lemma batch_value_concat_cases:
  "(\<And>y. y \<in> set xs \<Longrightarrow> batch_value (f y) k \<in> {None, Some None}) \<Longrightarrow> batch_value (concat (map f xs)) k \<in> {None, Some None}"
  by (induction xs) (auto split: option.split)

lemma batch_value_concat_delete:
  assumes "x \<in> set xs" "batch_value (f x) k = Some None" "\<And>y. y \<in> set xs \<Longrightarrow> batch_value (f y) k \<in> {None, Some None}"
  shows "batch_value (concat (map f xs)) k = Some None"
  using assms
proof (induction xs)
  case (Cons y ys)
  have "batch_value (concat (map f ys)) k \<in> {None, Some None}"
    using Cons.prems(3) by (intro batch_value_concat_cases) auto
  then show ?case using Cons by (auto split: option.splits)
qed simp

lemma in_heights: "n \<in> set (heights lo hi) \<longleftrightarrow> lo \<le> n \<and> n \<le> hi"
proof
  assume "n \<in> set (heights lo hi)"
  then obtain i where i: "n = word_of_nat i" "unat lo \<le> i" "i \<le> unat hi" by (auto simp: heights_def)
  then have "unat n = i" using unat_less_64 [of hi] by (simp add: unat_of_nat)
  then show "lo \<le> n \<and> n \<le> hi" using i by (simp add: word_le_nat_alt)
next
  assume "lo \<le> n \<and> n \<le> hi"
  then have "unat n \<in> {unat lo..<Suc (unat hi)}" by (simp add: word_le_nat_alt)
  then show "n \<in> set (heights lo hi)" unfolding heights_def set_map set_upt
    by (intro image_eqI [of _ _ "unat n"]) auto
qed

context pebble_store
begin

lemma truncated_pointer:
  assumes "commit P d (truncate_entries P d lo hi) = Inr d'" "lo < n" "n \<le> hi" "GetCanonicalHash P d n = Inr h"
  shows "GetCanonicalHash P d' n = Inr zero_hash"
proof -
  let ?f = "\<lambda>h. case GetCanonicalHash P d h of Inl _ \<Rightarrow> []
        | Inr hash \<Rightarrow> if hash = zero_hash then [] else [Delete_Op (BlockByHashKey hash), Delete_Op (CanonicalHashKey h)]"
  let ?k = "CanonicalHashKey n"
  have c: "pb_commit P d (truncate_entries P d lo hi) = Some d'" using assms(1) by (simp add: commit_Inr)
  have last: "batch_value [if lo > 0 then Put_Op lastCanonicalHeightKey (word_bytes 8 lo) else Delete_Op lastCanonicalHeightKey] ?k = None"
    by simp
  have step: "batch_value (?f y) ?k \<in> {None, Some None}" for y by (auto split: sum.split)
  have n: "n \<in> set (rev (heights (lo + 1) hi))"
    using assms(2,3) by (simp add: in_heights inc_le)
  show ?thesis
  proof (cases "h = zero_hash")
    case True
    have "batch_value (truncate_entries P d lo hi) ?k \<in> {None, Some None}"
      unfolding truncate_entries_def batch_value_append last using batch_value_concat_cases [of _ ?f ?k] step by simp
    then show ?thesis
      using assms(4) True by (auto simp: GetCanonicalHash_def read_hash_commit [OF c] split: option.splits)
  next
    case False
    have "batch_value (?f n) ?k = Some None" using assms(4) False by simp
    from batch_value_concat_delete [of n _ ?f, OF n this step]
    have "batch_value (truncate_entries P d lo hi) ?k = Some None"
      unfolding truncate_entries_def batch_value_append last by simp
    then show ?thesis by (simp add: GetCanonicalHash_def read_hash_commit [OF c])
  qed
qed

end

section \<open>The contract between the node and its chain\<close>

text \<open>
  What the node relies on: starting and stopping a synchronisation changes no block; truncating to height 0
  leaves no tip.
\<close>

locale p2p_chain_laws =
  fixes ops :: "'c p2p_chain"
  assumes start_sync: "pc_Latest ops (pc_StartSync ops c t) = pc_Latest ops c"
      "pc_GetBlock ops (pc_StartSync ops c t) h = pc_GetBlock ops c h"
      "pc_Checkpoint ops (pc_StartSync ops c t) h x = pc_Checkpoint ops c h x"
    and stop_sync: "pc_Latest ops (pc_StopSync ops c) = pc_Latest ops c"
    and truncate_to_genesis: "pc_TruncateTo ops c 0 = (True, c') \<Longrightarrow> pc_Latest ops c' = None"
begin

text \<open>A download of which no request is answered leaves the chain alone.\<close>

lemma silent_download:
  assumes "\<And>h. h \<in> set hs \<Longrightarrow> px_reply E p For_Download h = No_Answer"
  shows "\<exists>r. download E p hs fetched failures c = Some (r, c) \<and> (length hs + failures \<le> 20 \<longrightarrow> r = Inr ())"
  using assms
proof (induction hs arbitrary: failures)
  case (Cons h hs)
  show ?case
    using Cons.IH [of "Suc failures"] Cons.prems by (auto simp: requestBlockWithContext_def)
qed simp

lemma wiped:
  assumes "px_ops E = ops" "\<And>hs. mset (px_arrivals E hs) = mset hs" "pc_TruncateTo ops c 0 = (True, c1)"
    and "prepareFastSyncAncestor E c p (currentHeight E c) = Some (Inr 0)" "0 < currentHeight E c" "currentHeight E c < target"
    and "unat target < 2 ^ 63" "\<And>h. px_reply E p For_Download h = No_Answer"
  shows "\<exists>r c'. syncMissingBlocks E p target c = Some (r, c') \<and> pc_Latest ops c' = None \<and> (c' = c1 \<or> c' = pc_StopSync ops c1)
    \<and> (unat target \<le> 20 \<longrightarrow> r = Inr () \<and> c' = pc_StopSync ops c1)"
proof -
  let ?hs = "px_arrivals E (heights (0 + 1) target)"
  obtain r where r: "download E p ?hs [] 0 c1 = Some (r, c1)" "length ?hs \<le> 20 \<longrightarrow> r = Inr ()"
    using silent_download [of ?hs E p "[]" 0 c1] assms(8) by auto
  have "length ?hs = length (heights (0 + 1) target)" using assms(2) by (metis size_mset)
  then have l: "length ?hs = unat target" by (simp add: heights_def)
  have "pc_Latest ops c1 = None" using assms(3) by (rule truncate_to_genesis)
  then show ?thesis
    using assms(1,3-7) r l
    by (cases r) (auto simp: syncMissingBlocks_def Let_def fetch_missing_def make_chan_ok_def stop_sync)
qed

text \<open>A height that is out of reach stops the process, however young the node is.\<close>

lemma claim_panics:
  assumes "px_ops E = ops" "px_height E p = Some h" "currentHeight E (sn_chain n) < h"
    and "currentHeight E (sn_chain n) = 0 \<and> 2 ^ 63 \<le> unat h
      \<or> \<not> pc_IsSyncing ops (sn_chain n) \<and> shouldAttemptSync now n
        \<and> currentHeight E (sn_chain n) \<noteq> 0 \<and> pc_GetBlock ops (sn_chain n) (currentHeight E (sn_chain n)) \<noteq> None
        \<and> requestBlockWithContext E (sn_chain n) p For_Tip (currentHeight E (sn_chain n)) = Inl SY_Panic"
  shows "\<exists>n'. syncIfBehind E now p n = Some (Inl SY_Panic, n')"
proof -
  let ?L = "currentHeight E (sn_chain n)"
  obtain n1 where n1: "GetPeerHeight E p n = (Some h, n1)" "sn_chain n1 = sn_chain n"
    using assms(2) by (simp add: GetPeerHeight_def)
  let ?c = "pc_StartSync ops (sn_chain n) h"
  have same: "currentHeight E ?c = ?L" using assms(1) start_sync(1) by (simp add: currentHeight_def)
  have req: "requestBlockWithContext E ?c p w x = requestBlockWithContext E (sn_chain n) p w x" for w x
    using assms(1) start_sync(3) by (simp add: requestBlockWithContext_def split: reply.split option.split)
  have "syncMissingBlocks E p h ?c = Some (Inl SY_Panic, ?c)"
    using assms(4)
  proof
    assume "?L = 0 \<and> 2 ^ 63 \<le> unat h"
    then show ?thesis
      using assms(3) by (simp add: syncMissingBlocks_def same prepareFastSyncAncestor_def Let_def fetch_missing_def make_chan_ok_def)
  next
    assume *: "\<not> pc_IsSyncing ops (sn_chain n) \<and> shouldAttemptSync now n \<and> ?L \<noteq> 0 \<and> pc_GetBlock ops (sn_chain n) ?L \<noteq> None
        \<and> requestBlockWithContext E (sn_chain n) p For_Tip ?L = Inl SY_Panic"
    then have "prepareFastSyncAncestor E ?c p ?L = Some (Inl SY_Panic)"
      by (auto simp: prepareFastSyncAncestor_def assms(1) start_sync(2) req)
    then show ?thesis using assms(3) by (simp add: syncMissingBlocks_def same Let_def)
  qed
  then show ?thesis
    using assms(1,3,4) by (auto simp: syncIfBehind_def Let_def n1 sync_to_def after_failed_sync_def)
qed

end

section \<open>The contract holds of the node's chain\<close>

lemma node_chain_sel [simp]:
  "pc_Latest (node_chain X M ck say) rm = bc_latest (rm_chain rm)"
  "pc_GetBlock (node_chain X M ck say) rm h = found (GetBlock (ce_pebble X) (ce_rlp X) (bc_db (rm_chain rm)) h)"
  "pc_HasBlock (node_chain X M ck say) rm x = HasBlock X (bc_db (rm_chain rm)) x"
  "pc_Checkpoint (node_chain X M ck say) rm h x = ck h x"
  "pc_IsSyncing (node_chain X M ck say) rm = bc_syncing (rm_chain rm)"
  "pc_StartSync (node_chain X M ck say) rm h = rm\<lparr>rm_chain := StartSync (rm_chain rm) h\<rparr>"
  "pc_StopSync (node_chain X M ck say) rm = rm\<lparr>rm_chain := StopSync (rm_chain rm)\<rparr>"
  by (simp_all add: node_chain_def)

lemma TruncateTo_genesis:
  assumes "TruncateTo X bc 0 = (Inr (), bc')"
  shows "bc_latest bc' = None \<and> bc_height bc' = 0 \<and> bc_node bc' = bc_node bc
    \<and> commit (ce_pebble X) (bc_db bc) (truncate_entries (ce_pebble X) (bc_db bc) 0 (bc_height bc)) = Inr (bc_db bc')"
  using assms by (auto simp: TruncateTo_def set_tip_def split: if_splits sum.splits)

interpretation nc: p2p_chain_laws "node_chain X M ck say" for X M ck say
proof unfold_locales
  fix c c' assume "pc_TruncateTo (node_chain X M ck say) c 0 = (True, c')"
  then show "pc_Latest (node_chain X M ck say) c' = None"
    by (auto simp: node_chain_def dest: TruncateTo_genesis split: prod.splits)
qed (simp_all add: StartSync_def StopSync_def)

section \<open>The bisection\<close>

lemma mid_unat:
  fixes low high :: u64
  assumes "low \<le> high"
  shows "unat (low + (high - low) div 2) = unat low + (unat high - unat low) div 2"
proof -
  have "unat ((high - low) div 2) = (unat high - unat low) div 2"
    using assms by (simp add: unat_div_distrib unat_sub)
  moreover have "unat low + (unat high - unat low) div 2 < 2 ^ 64"
    using assms unat_less_64 [of high] by (simp add: word_le_nat_alt)
  ultimately show ?thesis by (simp add: unat_word_ariths)
qed

lemma ancestor_loop_exact:
  assumes "\<And>h. h \<le> m \<Longrightarrow> matches h = Inr (h \<le> a)" "unat high \<le> unat m" "m \<noteq> - 1"
    and "unat low \<le> unat a + 1" "low \<le> high \<longrightarrow> a \<le> high" "\<not> low \<le> high \<longrightarrow> anc = a" "low \<noteq> 0 \<longrightarrow> unat anc + 1 = unat low"
    and "low = 0 \<longrightarrow> anc = 0"
  shows "ancestor_loop matches low high anc = Some (Inr a)"
  using assms(2,4-)
proof (induction "Suc (unat high) - unat low" arbitrary: low high anc rule: less_induct)
  case less
  show ?case
  proof (cases "low \<le> high")
    case False
    then show ?thesis using less.prems by (simp add: ancestor_loop.simps)
  next
    case True
    let ?mid = "low + (high - low) div 2"
    note mid = mid_unat [OF True]
    have low: "unat low \<le> unat high" using True by (simp add: word_le_nat_alt)
    have max: "unat m < 2 ^ 64 - 1"
    proof -
      have "unat m \<noteq> unat (- 1 :: u64)" using assms(3) by (metis word_unat_eq_iff)
      then show ?thesis using unat_less_64 [of m] by (simp add: unsigned_minus_1_eq_mask mask_eq_exp_minus_1)
    qed
    have "?mid \<le> m" using low less.prems(1) by (simp add: word_le_nat_alt mid)
    then have q: "matches ?mid = Inr (?mid \<le> a)" by (rule assms(1))
    have bound: "unat ?mid \<le> unat high" "unat low \<le> unat ?mid" using low by (simp_all add: mid)
    show ?thesis
    proof (cases "?mid \<le> a")
      case True
      have up: "unat (?mid + 1) = unat ?mid + 1"
        using bound less.prems(1) max by (simp add: unat_word_ariths)
      have "ancestor_loop matches (?mid + 1) high ?mid = Some (Inr a)"
      proof (rule less.hyps)
        show "Suc (unat high) - unat (?mid + 1) < Suc (unat high) - unat low" using bound low unfolding up by simp
        show "unat (?mid + 1) \<le> unat a + 1" using True unfolding up by (simp add: word_le_nat_alt)
        show "?mid + 1 \<le> high \<longrightarrow> a \<le> high" using less.prems(3) \<open>low \<le> high\<close> by simp
        show "\<not> ?mid + 1 \<le> high \<longrightarrow> ?mid = a"
          using True less.prems(3) \<open>low \<le> high\<close> bound unfolding word_le_nat_alt up by (simp add: word_unat_eq_iff)
        show "?mid + 1 \<noteq> 0 \<longrightarrow> unat ?mid + 1 = unat (?mid + 1)" by (simp add: up)
        show "?mid + 1 = 0 \<longrightarrow> ?mid = 0" using up by (metis unat_0 add_is_0 zero_neq_one)
      qed (use less.prems in simp)
      then show ?thesis
        using \<open>low \<le> high\<close> True by (subst ancestor_loop.simps) (simp add: Let_def q)
    next
      case False
      then have pos: "0 < unat ?mid" "unat a < unat ?mid" by (auto simp: word_le_nat_alt)
      then have dn: "unat (?mid - 1) = unat ?mid - 1" "?mid \<noteq> 0"
        by (simp_all add: unat_pred) auto
      have "ancestor_loop matches low (?mid - 1) anc = Some (Inr a)"
      proof (rule less.hyps)
        show "Suc (unat (?mid - 1)) - unat low < Suc (unat high) - unat low" using bound pos low unfolding dn by simp
        show "unat (?mid - 1) \<le> unat m" using bound less.prems(1) unfolding dn by simp
        show "low \<le> ?mid - 1 \<longrightarrow> a \<le> ?mid - 1" using pos unfolding word_le_nat_alt dn by (intro impI) linarith
        show "\<not> low \<le> ?mid - 1 \<longrightarrow> anc = a"
          using pos less.prems(2,5,6) bound unfolding word_le_nat_alt dn word_unat_eq_iff by (cases "low = 0") auto
      qed (use less.prems in simp_all)
      then show ?thesis
        using \<open>low \<le> high\<close> False dn(2) by (subst ancestor_loop.simps) (simp add: Let_def q)
    qed
  qed
qed

section \<open>A download in any order\<close>

text \<open>\<open>cs k\<close> is the chain at height \<open>k\<close> and \<open>bs\<close> are the blocks that lead from \<open>L\<close> to \<open>T\<close>.\<close>

definition leads_to :: "'c p2p_env \<Rightarrow> (u64 \<Rightarrow> block) \<Rightarrow> (u64 \<Rightarrow> 'c) \<Rightarrow> u64 \<Rightarrow> u64 \<Rightarrow> bool" where
  "leads_to E bs cs L T \<longleftrightarrow>
     (\<forall>k. L \<le> k \<and> k < T \<longrightarrow> pc_Process (px_ops E) (cs k) (bs (k + 1)) ''p2p:sync'' = Some (None, cs (k + 1)))
     \<and> (\<forall>k. L \<le> k \<and> k \<le> T \<longrightarrow> currentHeight E (cs k) = k)"

definition waiting :: "(u64 \<Rightarrow> block) \<Rightarrow> u64 \<Rightarrow> u64 \<Rightarrow> (u64 \<times> block) list \<Rightarrow> bool" where
  "waiting bs k T fetched \<longleftrightarrow> (\<forall>h b. map_of fetched h = Some b \<longrightarrow> b = bs h \<and> k < h \<and> h \<le> T)"

lemma u64_succ:
  fixes k T :: u64
  assumes "T \<noteq> - 1" "k \<le> T"
  shows "k < k + 1" "h \<le> k \<or> k + 1 \<le> h" "\<not> (h \<le> k \<and> k + 1 \<le> h)" "k < T \<Longrightarrow> k + 1 \<le> T"
proof -
  have "unat T \<noteq> unat (- 1 :: u64)" using assms(1) by (metis word_unat_eq_iff)
  then have "unat T + 1 < 2 ^ 64" using unat_less_64 [of T] by (simp add: unsigned_minus_1_eq_mask mask_eq_exp_minus_1)
  then have "unat (k + 1) = unat k + 1" using assms(2) by (simp add: unat_word_ariths word_le_nat_alt)
  then show "k < k + 1" "h \<le> k \<or> k + 1 \<le> h" "\<not> (h \<le> k \<and> k + 1 \<le> h)" "k < T \<Longrightarrow> k + 1 \<le> T"
    by (auto simp: word_le_nat_alt word_less_nat_alt)
qed

lemma add_ready_run:
  assumes "leads_to E bs cs L T" "T \<noteq> - 1" "L \<le> k" "k \<le> T" "waiting bs k T fetched"
  shows "\<exists>k' fetched'. add_ready E (k + 1) fetched (cs k) = Some (Inr fetched', cs k') \<and> k \<le> k' \<and> k' \<le> T
    \<and> waiting bs k' T fetched' \<and> map_of fetched' (k' + 1) = None
    \<and> (\<forall>h. h > k' \<longrightarrow> map_of fetched' h = map_of fetched h) \<and> (\<forall>h. k < h \<and> h \<le> k' \<longrightarrow> map_of fetched h \<noteq> None)"
  using assms(3-5)
proof (induction "length fetched" arbitrary: k fetched rule: less_induct)
  case less
  show ?case
  proof (cases "map_of fetched (k + 1)")
    case None
    then have "add_ready E (k + 1) fetched (cs k) = Some (Inr fetched, cs k)" by (simp add: add_ready.simps)
    then show ?thesis using less.prems None by (intro exI [of _ k] exI [of _ fetched]) auto
  next
    case (Some b)
    note succ = u64_succ [OF assms(2) less.prems(2)]
    have b: "b = bs (k + 1)" "k + 1 \<le> T" using less.prems(3) Some by (auto simp: waiting_def)
    then have "k < T" using succ(1) by simp
    let ?rest = "AList.delete (k + 1) fetched"
    have add: "add_ready E (k + 1) fetched (cs k) = add_ready E (k + 1 + 1) ?rest (cs (k + 1))"
      using assms(1) less.prems(1) \<open>k < T\<close> by (subst add_ready.simps) (simp add: Some b(1) leads_to_def)
    have rest: "map_of ?rest h = (if h = k + 1 then None else map_of fetched h)" for h
      by (simp add: AList.delete_conv')
    have "waiting bs (k + 1) T ?rest"
      unfolding waiting_def
    proof (intro allI impI)
      fix h c assume "map_of ?rest h = Some c"
      then have "h \<noteq> k + 1" "map_of fetched h = Some c" by (auto simp: rest split: if_splits)
      then show "c = bs h \<and> k + 1 < h \<and> h \<le> T"
        using less.prems(3) succ(2) [of h] by (fastforce simp: waiting_def)
    qed
    moreover have "L \<le> k + 1" using less.prems(1) succ(1) by simp
    ultimately obtain k' fetched' where *: "add_ready E (k + 1 + 1) ?rest (cs (k + 1)) = Some (Inr fetched', cs k')"
        "k + 1 \<le> k'" "k' \<le> T" "waiting bs k' T fetched'" "map_of fetched' (k' + 1) = None"
        "\<forall>h. h > k' \<longrightarrow> map_of fetched' h = map_of ?rest h" "\<forall>h. k + 1 < h \<and> h \<le> k' \<longrightarrow> map_of ?rest h \<noteq> None"
      using less.hyps [OF length_delete_less [OF Some], of "k + 1"] b(2) by blast
    have "map_of fetched h \<noteq> None" if "k < h" "h \<le> k'" for h
      using that *(7) [rule_format, of h] Some succ(2) [of h]
      by (cases "h = k + 1") (auto simp: rest order.order_iff_strict)
    moreover have "map_of fetched' h = map_of fetched h" if "h > k'" for h
      using that *(2,6) by (auto simp: rest)
    moreover have "k \<le> k'" using *(2) succ(1) by simp
    ultimately show ?thesis using add * by (intro exI [of _ k'] exI [of _ fetched']) simp
  qed
qed

lemma download_run:
  assumes "leads_to E bs cs L T" "T \<noteq> - 1"
    and "\<And>k h. L \<le> k \<Longrightarrow> k \<le> T \<Longrightarrow> k < h \<Longrightarrow> h \<le> T \<Longrightarrow> requestBlockWithContext E (cs k) p For_Download h = Inr (bs h)"
    and "L \<le> k" "k \<le> T" "waiting bs k T fetched" "map_of fetched (k + 1) = None" "distinct hs"
    and "\<And>h. h \<in> set hs \<longleftrightarrow> k < h \<and> h \<le> T \<and> map_of fetched h = None"
  shows "download E p hs fetched failures (cs k) = Some (Inr (), cs T)"
  using assms(4-)
proof (induction hs arbitrary: k fetched)
  case Nil
  have "k = T"
  proof (rule ccontr)
    assume "k \<noteq> T"
    then have "k < T" using Nil.prems(2) by simp
    then have "k < k + 1" "k + 1 \<le> T" using u64_succ [OF assms(2) Nil.prems(2)] by auto
    then show False using Nil.prems(4) Nil.prems(6) [of "k + 1"] by simp
  qed
  then show ?case by simp
next
  case (Cons h hs)
  have h: "k < h" "h \<le> T" "map_of fetched h = None" using Cons.prems(6) [of h] by auto
  have height: "currentHeight E (cs k) = k" using assms(1) Cons.prems(1,2) by (simp add: leads_to_def)
  have "waiting bs k T ((h, bs h) # fetched)" using Cons.prems(3) h by (auto simp: waiting_def)
  then obtain k' fetched' where *: "add_ready E (k + 1) ((h, bs h) # fetched) (cs k) = Some (Inr fetched', cs k')"
      "k \<le> k'" "k' \<le> T" "waiting bs k' T fetched'" "map_of fetched' (k' + 1) = None"
      "\<forall>x. x > k' \<longrightarrow> map_of fetched' x = map_of ((h, bs h) # fetched) x"
      "\<forall>x. k < x \<and> x \<le> k' \<longrightarrow> map_of ((h, bs h) # fetched) x \<noteq> None"
    using add_ready_run [OF assms(1,2) Cons.prems(1,2)] by blast
  have "x \<in> set hs \<longleftrightarrow> k' < x \<and> x \<le> T \<and> map_of fetched' x = None" for x
  proof -
    have "x \<in> set hs \<longleftrightarrow> x \<noteq> h \<and> k < x \<and> x \<le> T \<and> map_of fetched x = None"
      using Cons.prems(5) Cons.prems(6) [of x] by auto
    also have "\<dots> \<longleftrightarrow> k' < x \<and> x \<le> T \<and> map_of fetched' x = None"
      using *(2,6,7) by (cases "k' < x") (auto split: if_splits)
    finally show ?thesis .
  qed
  then have "download E p hs fetched' failures (cs k') = Some (Inr (), cs T)"
    using Cons.IH [of k' fetched'] Cons.prems(1,5) * by auto
  then show ?case
    using assms(3) [OF Cons.prems(1,2) h(1,2)] by (simp add: height *(1))
qed

section \<open>Instances to evaluate\<close>

text \<open>A peer that sends the blocks of a table by their position; it downloads nothing to others.\<close>

definition table_env :: "'c p2p_chain \<Rightarrow> (u64 \<Rightarrow> block option) \<Rightarrow> u64 \<Rightarrow> 'c p2p_env" where
  "table_env ops table claim =
     \<lparr>px_ops = ops, px_crypto = wc_crypto, px_block = (\<lambda>data. table (of_nat (be_value data))),
      px_reply = (\<lambda>p why h. if why = For_Download then No_Answer else Answer 8 (word_bytes 8 h)),
      px_height = (\<lambda>_. Some claim), px_peers = [''P''], px_arrivals = (\<lambda>hs. hs)\<rparr>"

lemma table_request:
  assumes "why \<noteq> For_Download" "table h = Some b" "blk_number b = Some h" "pc_Checkpoint ops c h (Block_Hash wc_crypto b)"
  shows "requestBlockWithContext (table_env ops table claim) c p why h = Inr b"
proof -
  have "of_nat (be_value (word_bytes 8 h)) = h" by (simp add: word_bytes_def be_value_be_bytes unat_less_64 [simplified])
  then show ?thesis using assms by (simp add: requestBlockWithContext_def table_env_def)
qed

definition fork_table :: "u64 \<Rightarrow> block option" where
  "fork_table h = (if h = 0 then Some wc_genesis else if h = 1 then Some wc_rival else None)"

definition wc_manager :: "(bytes \<Rightarrow> bytes option) \<Rightarrow> ((bytes, bytes) alist, bytes \<Rightarrow> bytes option) blockchain reorg_manager" where
  "wc_manager d = NewReorgManager (wc_chain2 d)"

definition wc_ops :: "((bytes, bytes) alist, bytes \<Rightarrow> bytes option) blockchain reorg_manager p2p_chain" where
  "wc_ops = node_chain wc_env (manager_env wc_env 0 (\<lambda>x. x)) (\<lambda>_ _. True) (\<lambda>_. [])"

text \<open>A chain that is its height.\<close>

definition height_block :: "u64 \<Rightarrow> block" where
  "height_block n = sample_block\<lparr>b_Header := Some (sample_header\<lparr>h_Number := Some (uint n)\<rparr>)\<rparr>"

definition height_ops :: "u64 p2p_chain" where
  "height_ops = \<lparr>pc_Latest = (\<lambda>c. Some (height_block c)), pc_GetBlock = (\<lambda>c h. if h \<le> c then Some (height_block h) else None),
     pc_HasBlock = (\<lambda>_ _. False), pc_Checkpoint = (\<lambda>_ _ _. True), pc_Mined = (\<lambda>_ _. True),
     pc_Process = (\<lambda>c b src. if blk_number b = Some (c + 1) then Some (None, c + 1) else Some (Some ''gap'', c)),
     pc_TruncateTo = (\<lambda>c h. (h < c, min h c)), pc_IsSyncing = (\<lambda>_. False), pc_GetSyncTarget = (\<lambda>_. 0),
     pc_StartSync = (\<lambda>c _. c), pc_StopSync = (\<lambda>c. c)\<rparr>"

definition height_env :: "u64 p2p_env" where
  "height_env = \<lparr>px_ops = height_ops, px_crypto = wc_crypto, px_block = (\<lambda>data. Some (height_block (of_nat (be_value data)))),
     px_reply = (\<lambda>p why h. Answer 8 (word_bytes 8 h)), px_height = (\<lambda>_. Some 2), px_peers = [''P''], px_arrivals = rev\<rparr>"

lemma height_block_number [simp]: "blk_number (height_block n) = Some n" "fork_height (height_block n) = n"
  by (simp_all add: height_block_def blk_number_def header_height_def big_uint64_def fork_height_def sample_header_def)

lemma height_sel [simp]:
  "px_ops height_env = height_ops" "px_arrivals height_env = rev" "currentHeight height_env c = c" "pc_StopSync height_ops c = c"
  "pc_GetBlock height_ops c h = (if h \<le> c then Some (height_block h) else None)"
  by (simp_all add: height_env_def height_ops_def currentHeight_def)

lemma height_request: "requestBlockWithContext height_env c p why h = Inr (height_block h)"
proof -
  have "of_nat (be_value (word_bytes 8 h)) = h" by (simp add: word_bytes_def be_value_be_bytes unat_less_64 [simplified])
  then show ?thesis by (simp add: requestBlockWithContext_def height_env_def height_ops_def)
qed

section \<open>Properties\<close>

text \<open>
  C32: the bisection ends and finds the last common block: when the peer answers for every height up to the
  local one and its blocks are the node's exactly up to some height, that height is the result.
\<close>

theorem ancestor_search_is_exact:
  assumes "maxHeight \<noteq> - 1" "a \<le> maxHeight"
    and "\<And>h. h \<le> maxHeight \<Longrightarrow> \<exists>t b. pc_GetBlock (px_ops E) c h = Some t \<and> requestBlockWithContext E c p For_Search h = Inr b
      \<and> (Block_Hash (px_crypto E) t = Block_Hash (px_crypto E) b \<longleftrightarrow> h \<le> a)"
  shows "findCommonAncestorByHash E c p maxHeight = Some (Inr a)"
proof -
  have "peerBlockMatchesLocal E c p h = Inr (h \<le> a)" if "h \<le> maxHeight" for h
    using assms(3) [OF that] by (auto simp: peerBlockMatchesLocal_def)
  then show ?thesis
    unfolding findCommonAncestorByHash_def by (rule ancestor_loop_exact) (use assms(1,2) in simp_all)
qed

theorem ancestor_search_is_exact_witness:
  "findCommonAncestorByHash height_env 5 ''P'' 5 = Some (Inr 5)"
  by (rule ancestor_search_is_exact) (simp_all add: height_request)

text \<open>
  C33: blocks may arrive in any order: when the peer serves the blocks that lead from one height to another and
  the chain accepts each on its predecessor, the download ends at the target with all of them added.
\<close>

theorem download_in_any_order:
  assumes "leads_to E bs cs L T" "T \<noteq> - 1" "L < T" "make_chan_ok (T - L)"
    and "\<And>k h. L \<le> k \<Longrightarrow> k \<le> T \<Longrightarrow> L < h \<Longrightarrow> h \<le> T \<Longrightarrow> requestBlockWithContext E (cs k) p For_Download h = Inr (bs h)"
    and "distinct (px_arrivals E (heights (L + 1) T))" "set (px_arrivals E (heights (L + 1) T)) = set (heights (L + 1) T)"
  shows "fetch_missing E p L T (cs L) = Some (Inr (), pc_StopSync (px_ops E) (cs T)) \<and> currentHeight E (cs T) = T"
proof -
  have arrive: "h \<in> set (px_arrivals E (heights (L + 1) T)) \<longleftrightarrow> L < h \<and> h \<le> T" for h
  proof -
    have "L < L + 1" using u64_succ(1) [OF assms(2)] assms(3) by simp
    then show ?thesis using assms(7) less_le_trans [of L "L + 1" h] by (auto simp: in_heights intro: inc_le)
  qed
  have "download E p (px_arrivals E (heights (L + 1) T)) [] 0 (cs L) = Some (Inr (), cs T)"
  proof (rule download_run [OF assms(1,2)])
    show "requestBlockWithContext E (cs k) p For_Download h = Inr (bs h)" if "L \<le> k" "k \<le> T" "k < h" "h \<le> T" for k h
      using that by (intro assms(5)) auto
  qed (use assms(3,6) arrive in \<open>auto simp: waiting_def\<close>)
  then show ?thesis using assms(1,3,4) by (simp add: fetch_missing_def leads_to_def)
qed

theorem download_in_any_order_witness:
  "fetch_missing height_env ''P'' 0 2 0 = Some (Inr (), 2) \<and> currentHeight height_env 2 = 2"
proof -
  have h: "heights (0 + 1) 2 = [1, 2]" by (simp add: heights_def upt_rec)
  have "leads_to height_env height_block (\<lambda>k. k) 0 2"
    by (simp add: leads_to_def) (simp add: height_ops_def)
  from download_in_any_order [OF this, of "''P''"]
  show ?thesis unfolding h by (simp add: height_request make_chan_ok_def insert_commute)
qed

text \<open>
  C30: a peer that shares only the genesis block and claims a greater height empties the chain of a node before
  any block of it has been checked: it answers the requests of the search and nothing afterwards. The node
  is left without a tip, without a block above the first one, and on the state of the old tip; a claim of
  at most 20 counts as a success.
\<close>

theorem lying_peer_empties_the_chain:
  assumes "px_ops E = node_chain X M ck say" "\<And>hs. mset (px_arrivals E hs) = mset hs" "pebble_store (ce_pebble X)"
    and "bc = rm_chain rm" "bc_latest bc = Some t" "fork_height t = bc_height bc" "0 < bc_height bc" "bc_height bc < target"
    and "unat target < 2 ^ 63"
    and "\<exists>d. commit (ce_pebble X) (bc_db bc) (truncate_entries (ce_pebble X) (bc_db bc) 0 (bc_height bc)) = Inr d"
    and "\<And>h why. h \<le> bc_height bc \<Longrightarrow> why \<noteq> For_Download \<Longrightarrow>
      \<exists>l b. GetBlock (ce_pebble X) (ce_rlp X) (bc_db bc) h = Inr (Some l) \<and> requestBlockWithContext E rm p why h = Inr b
        \<and> (Block_Hash (px_crypto E) l = Block_Hash (px_crypto E) b \<longleftrightarrow> h = 0)"
    and "\<And>h. px_reply E p For_Download h = No_Answer"
  shows "\<exists>r rm'. syncMissingBlocks E p target rm = Some (r, rm') \<and> bc_latest (rm_chain rm') = None
    \<and> bc_height (rm_chain rm') = 0 \<and> bc_node (rm_chain rm') = bc_node bc
    \<and> (\<forall>h. 0 < h \<and> h \<le> bc_height bc \<longrightarrow> GetBlock (ce_pebble X) (ce_rlp X) (bc_db (rm_chain rm')) h = Inr None)
    \<and> (unat target \<le> 20 \<longrightarrow> r = Inr ())"
proof -
  have L: "currentHeight E rm = bc_height bc" using assms(1,4-6) by (simp add: currentHeight_def)
  obtain d where d: "commit (ce_pebble X) (bc_db bc) (truncate_entries (ce_pebble X) (bc_db bc) 0 (bc_height bc)) = Inr d"
    using assms(10) by blast
  define bc1 where "bc1 = bc\<lparr>bc_db := d, bc_latest := None, bc_height := 0\<rparr>"
  have trunc: "pc_TruncateTo (node_chain X M ck say) rm 0 = (True, rm\<lparr>rm_chain := bc1\<rparr>)"
    using assms(4,7) d by (simp add: node_chain_def TruncateTo_def set_tip_def bc1_def)
  have get: "pc_GetBlock (px_ops E) rm h = found (GetBlock (ce_pebble X) (ce_rlp X) (bc_db bc) h)" for h
    using assms(1,4) by simp
  have "bc_height bc \<noteq> - 1" using assms(8) by (metis word_n1_ge not_less)
  moreover have "\<exists>t b. pc_GetBlock (px_ops E) rm h = Some t \<and> requestBlockWithContext E rm p For_Search h = Inr b
      \<and> (Block_Hash (px_crypto E) t = Block_Hash (px_crypto E) b \<longleftrightarrow> h \<le> 0)" if "h \<le> bc_height bc" for h
    using assms(11) [OF that, of For_Search] by (auto simp: get found_def)
  ultimately have "peerBlockMatchesLocal E rm p h = Inr (h \<le> 0)" if "h \<le> bc_height bc" for h
    using that by (fastforce simp: peerBlockMatchesLocal_def)
  then have "findCommonAncestorByHash E rm p (bc_height bc) = Some (Inr 0)"
    unfolding findCommonAncestorByHash_def
    by (rule ancestor_loop_exact) (use \<open>bc_height bc \<noteq> - 1\<close> in simp_all)
  moreover obtain l b where "GetBlock (ce_pebble X) (ce_rlp X) (bc_db bc) (bc_height bc) = Inr (Some l)"
      "requestBlockWithContext E rm p For_Tip (bc_height bc) = Inr b" "Block_Hash (px_crypto E) l \<noteq> Block_Hash (px_crypto E) b"
    using assms(11) [of "bc_height bc" For_Tip] assms(7) by auto
  ultimately have prep: "prepareFastSyncAncestor E rm p (currentHeight E rm) = Some (Inr 0)"
    using assms(7) by (simp add: prepareFastSyncAncestor_def L get found_def)
  obtain r rm' where r: "syncMissingBlocks E p target rm = Some (r, rm')" "unat target \<le> 20 \<longrightarrow> r = Inr ()"
      and rm': "rm' = rm\<lparr>rm_chain := bc1\<rparr> \<or> rm' = pc_StopSync (node_chain X M ck say) (rm\<lparr>rm_chain := bc1\<rparr>)"
    using nc.wiped [OF assms(1,2) trunc prep _ _ assms(9,12)] assms(7,8) unfolding L by blast
  have gone: "GetBlock (ce_pebble X) (ce_rlp X) d h = Inr None" if h: "0 < h" "h \<le> bc_height bc" for h
  proof -
    obtain l where "GetBlock (ce_pebble X) (ce_rlp X) (bc_db bc) h = Inr (Some l)" using assms(11) [OF h(2), of For_Tip] by auto
    then obtain x where "GetCanonicalHash (ce_pebble X) (bc_db bc) h = Inr x" by (blast dest: GetBlock_Some)
    then have "GetCanonicalHash (ce_pebble X) d h = Inr zero_hash"
      using pebble_store.truncated_pointer [OF assms(3) d] h by blast
    then show ?thesis by (simp add: GetBlock_def)
  qed
  show ?thesis using r rm' gone by (auto simp: bc1_def StopSync_def)
qed

theorem lying_peer_empties_the_chain_witness:
  "\<exists>d rm'. bc_latest (wc_chain2 d) = Some wc_block
    \<and> syncMissingBlocks (table_env wc_ops fork_table 2) ''P'' 2 (wc_manager d) = Some (Inr (), rm') \<and> bc_latest (rm_chain rm') = None"
proof -
  obtain d where d: "view map_pebble (table_codec [wc_genesis, wc_block]) d = wc_view2" by (rule wc_db2)
  have sel: "rm_chain (wc_manager d) = wc_chain2 d" "bc_latest (wc_chain2 d) = Some wc_block" "bc_height (wc_chain2 d) = 1" "bc_db (wc_chain2 d) = d"
    by (simp_all add: wc_manager_def NewReorgManager_def wc_chain2_def)
  have env: "px_ops (table_env wc_ops fork_table 2) = wc_ops" "px_crypto (table_env wc_ops fork_table 2) = wc_crypto"
    "px_arrivals (table_env wc_ops fork_table 2) hs = hs"
    "px_reply (table_env wc_ops fork_table 2) p For_Download h = No_Answer" for hs p h
    by (simp_all add: table_env_def)
  have one: "h = 0 \<or> h = 1" if "h \<le> 1" for h :: u64 using that by (metis order.order_iff_strict word_less_1)
  have req: "requestBlockWithContext (table_env wc_ops fork_table 2) (wc_manager d) ''P'' why h = Inr (if h = 0 then wc_genesis else wc_rival)"
    if "why \<noteq> For_Download" "h = 0 \<or> h = 1" for why h
    using that by (intro table_request) (auto simp: fork_table_def wc_rival_sel wc_ops_def)
  have "\<exists>r rm'. syncMissingBlocks (table_env wc_ops fork_table 2) ''P'' 2 (wc_manager d) = Some (r, rm') \<and> bc_latest (rm_chain rm') = None
    \<and> bc_height (rm_chain rm') = 0 \<and> bc_node (rm_chain rm') = bc_node (wc_chain2 d)
    \<and> (\<forall>h. 0 < h \<and> h \<le> bc_height (wc_chain2 d) \<longrightarrow> GetBlock (ce_pebble wc_env) (ce_rlp wc_env) (bc_db (rm_chain rm')) h = Inr None)
    \<and> (unat (2 :: u64) \<le> 20 \<longrightarrow> r = Inr ())"
  proof (rule lying_peer_empties_the_chain [where t = wc_block])
    fix h why assume "h \<le> bc_height (wc_chain2 d)" "why \<noteq> For_Download"
    then have h: "h = 0 \<or> h = 1" using one by (simp add: sel)
    then show "\<exists>l b. GetBlock (ce_pebble wc_env) (ce_rlp wc_env) (bc_db (wc_chain2 d)) h = Inr (Some l)
        \<and> requestBlockWithContext (table_env wc_ops fork_table 2) (wc_manager d) ''P'' why h = Inr b
        \<and> (Block_Hash (px_crypto (table_env wc_ops fork_table 2)) l = Block_Hash (px_crypto (table_env wc_ops fork_table 2)) b \<longleftrightarrow> h = 0)"
      using req [OF \<open>why \<noteq> For_Download\<close> h] wc_checked2(3,4) [OF d] by (auto simp: sel env)
  next
    show "\<exists>d'. commit (ce_pebble wc_env) (bc_db (wc_chain2 d)) (truncate_entries (ce_pebble wc_env) (bc_db (wc_chain2 d)) 0
        (bc_height (wc_chain2 d))) = Inr d'"
      by (simp add: commit_def map_pebble_def)
    show "pebble_store (ce_pebble wc_env)" using wc_store by (simp add: chain_store_def)
  qed (simp_all add: env sel wc_ops_def [symmetric], simp_all add: wc_ops_def fork_height_def)
  then show ?thesis using sel(2) by auto
qed

text \<open>
  C31: a peer stops the process of a node: a node without blocks by claiming a height out of reach, a node with
  blocks by answering its first request by a block without a header. Both happen in goroutines that do not
  recover.
\<close>

theorem peer_stops_the_process:
  assumes "px_ops E = node_chain X M ck say" "px_height E p = Some h" "currentHeight E (sn_chain n) < h"
    and "currentHeight E (sn_chain n) = 0 \<and> 2 ^ 63 \<le> unat h
      \<or> \<not> bc_syncing (rm_chain (sn_chain n)) \<and> shouldAttemptSync now n \<and> currentHeight E (sn_chain n) \<noteq> 0
        \<and> (\<exists>t. GetBlock (ce_pebble X) (ce_rlp X) (bc_db (rm_chain (sn_chain n))) (currentHeight E (sn_chain n)) = Inr (Some t))
        \<and> (\<exists>len data blk. px_reply E p For_Tip (currentHeight E (sn_chain n)) = Answer len data \<and> len \<noteq> 0 \<and> unat len = length data
            \<and> px_block E data = Some blk \<and> b_Header blk = None)"
  shows "\<exists>n'. syncIfBehind E now p n = Some (Inl SY_Panic, n')"
proof (rule nc.claim_panics [OF assms(1-3)])
  have "requestBlockWithContext E (sn_chain n) p For_Tip k = Inl SY_Panic"
    if "px_reply E p For_Tip k = Answer len data" "len \<noteq> 0" "unat len = length data" "px_block E data = Some blk" "b_Header blk = None"
    for k len data blk
    using that by (simp add: requestBlockWithContext_def blk_number_def)
  then show "currentHeight E (sn_chain n) = 0 \<and> 2 ^ 63 \<le> unat h
      \<or> \<not> pc_IsSyncing (node_chain X M ck say) (sn_chain n) \<and> shouldAttemptSync now n
        \<and> currentHeight E (sn_chain n) \<noteq> 0 \<and> pc_GetBlock (node_chain X M ck say) (sn_chain n) (currentHeight E (sn_chain n)) \<noteq> None
        \<and> requestBlockWithContext E (sn_chain n) p For_Tip (currentHeight E (sn_chain n)) = Inl SY_Panic"
    using assms(4) by (auto simp: found_def)
qed

definition young_node :: "(bytes \<Rightarrow> bytes option) \<Rightarrow> ((bytes, bytes) alist, bytes \<Rightarrow> bytes option) blockchain reorg_manager sync_node" where
  "young_node d = \<lparr>sn_chain = NewReorgManager (wc_chain d), sn_syncHeight = 0, sn_lastSyncTime = None, sn_syncAttempts = 0\<rparr>"

theorem peer_stops_the_process_witness:
  "\<exists>n'. syncIfBehind (table_env wc_ops fork_table (2 ^ 63)) 0 ''P'' (young_node Map.empty) = Some (Inl SY_Panic, n')"
proof (rule peer_stops_the_process)
  have height: "currentHeight (table_env wc_ops fork_table (2 ^ 63)) (sn_chain (young_node Map.empty)) = 0"
    by (simp add: currentHeight_def table_env_def wc_ops_def young_node_def NewReorgManager_def fork_height_def)
  show "px_ops (table_env wc_ops fork_table (2 ^ 63)) = node_chain wc_env (manager_env wc_env 0 (\<lambda>x. x)) (\<lambda>_ _. True) (\<lambda>_. [])"
    by (simp add: table_env_def wc_ops_def)
  show "px_height (table_env wc_ops fork_table (2 ^ 63)) ''P'' = Some (2 ^ 63)" by (simp add: table_env_def)
  show "currentHeight (table_env wc_ops fork_table (2 ^ 63)) (sn_chain (young_node Map.empty)) < 2 ^ 63"
    unfolding height by simp
  have "unat (2 ^ 63 :: u64) = 2 ^ 63" by simp
  then show "currentHeight (table_env wc_ops fork_table (2 ^ 63)) (sn_chain (young_node Map.empty)) = 0 \<and> 2 ^ 63 \<le> unat (2 ^ 63 :: u64)
      \<or> \<not> bc_syncing (rm_chain (sn_chain (young_node Map.empty))) \<and> shouldAttemptSync 0 (young_node Map.empty)
        \<and> currentHeight (table_env wc_ops fork_table (2 ^ 63)) (sn_chain (young_node Map.empty)) \<noteq> 0
        \<and> (\<exists>t. GetBlock (ce_pebble wc_env) (ce_rlp wc_env) (bc_db (rm_chain (sn_chain (young_node Map.empty))))
              (currentHeight (table_env wc_ops fork_table (2 ^ 63)) (sn_chain (young_node Map.empty))) = Inr (Some t))
        \<and> (\<exists>len data blk. px_reply (table_env wc_ops fork_table (2 ^ 63)) ''P'' For_Tip
              (currentHeight (table_env wc_ops fork_table (2 ^ 63)) (sn_chain (young_node Map.empty))) = Answer len data
            \<and> len \<noteq> 0 \<and> unat len = length data \<and> px_block (table_env wc_ops fork_table (2 ^ 63)) data = Some blk \<and> b_Header blk = None)"
    using height by simp
qed

end
