(* ===== verification/Peer_Blocks.thy ===== *)
theory Peer_Blocks
  imports Peer_Sync Fork_Choice
begin

text \<open>
  What a node does with a block that a peer sends (\<open>antdc/p2p/p2p.go\<close>: \<open>processBlock\<close>, the comparison of two
  blocks of one height, the orphan pool) and how the miners agree on a tip (\<open>ResolveMiningTipConsensus\<close>).

  A synchronisation that the code starts in a goroutine is taken to be done when the call returns. The
  exchanges of king data that follow a new block are left out.
\<close>

section \<open>State\<close>

record orphan_entry =
  oe_block :: block
  oe_expiresAt :: int
  oe_reason :: string

record mined_candidate =
  mc_Block :: block
  mc_Source :: string
  mc_ReceivedAt :: int

record 'c p2p_node =
  pn_sync :: "'c sync_node"
  pn_orphans :: "hash \<rightharpoonup> orphan_entry"
  pn_candidates :: "u64 \<Rightarrow> hash \<rightharpoonup> mined_candidate"

abbreviation pn_chain :: "'c p2p_node \<Rightarrow> 'c" where
  "pn_chain n \<equiv> sn_chain (pn_sync n)"

text \<open>\<open>bk_now\<close>: nanoseconds. \<open>bk_hosted\<close>: the node has a network host.\<close>

record 'c block_env =
  bk_p2p :: "'c p2p_env"
  bk_sha256 :: "bytes \<Rightarrow> hash"
  bk_now :: int
  bk_hosted :: bool

abbreviation bk_ops :: "'c block_env \<Rightarrow> 'c p2p_chain" where
  "bk_ops B \<equiv> px_ops (bk_p2p B)"

abbreviation bk_crypto :: "'c block_env \<Rightarrow> crypto" where
  "bk_crypto B \<equiv> px_crypto (bk_p2p B)"

datatype proto_error =
    PE_Nil | PE_Hash | PE_No_Parent | PE_Parent_Hash | PE_Number | PE_Height | PE_Checkpoint | PE_Validate block_error
  | PE_Proposal | PE_None_Valid proto_error proto_error | PE_No_Candidate | PE_Add string | PE_Fork string
  | PE_Sync_No_Parent | PE_Sync_Parent | PE_Ahead | PE_Stale | PE_Unexpected | PE_Panic | PE_Not_Converged

definition on_sync :: "('c sync_node \<Rightarrow> 'c sync_node) \<Rightarrow> 'c p2p_node \<Rightarrow> 'c p2p_node" where
  "on_sync f n = n\<lparr>pn_sync := f (pn_sync n)\<rparr>"

definition with_chain :: "'c \<Rightarrow> 'c p2p_node \<Rightarrow> 'c p2p_node" where
  "with_chain c = on_sync (on_chain (\<lambda>_. c))"

section \<open>Orphans and candidates\<close>

definition orphanBlockTTL :: int where "orphanBlockTTL = 2 * minute"

definition rememberOrphanBlock :: "'c block_env \<Rightarrow> block \<Rightarrow> string \<Rightarrow> 'c p2p_node \<Rightarrow> 'c p2p_node" where
  "rememberOrphanBlock B blk reason n =
     (if b_Header blk = None then n
      else n\<lparr>pn_orphans := (\<lambda>h. case pn_orphans n h of
                None \<Rightarrow> None | Some e \<Rightarrow> if \<not> oe_expiresAt e > bk_now B then None else Some e)
              (Block_Hash (bk_crypto B) blk \<mapsto>
                 \<lparr>oe_block = blk, oe_expiresAt = bk_now B + orphanBlockTTL, oe_reason = reason\<rparr>)\<rparr>)"

text \<open>The timer of an entry.\<close>

definition deleteOrphanBlockAfter :: "'c block_env \<Rightarrow> hash \<Rightarrow> 'c p2p_node \<Rightarrow> 'c p2p_node" where
  "deleteOrphanBlockAfter B h n =
     (case pn_orphans n h of
        None \<Rightarrow> n
      | Some e \<Rightarrow> if \<not> oe_expiresAt e > bk_now B then n\<lparr>pn_orphans := (pn_orphans n)(h := None)\<rparr> else n)"

text \<open>
  The candidates of a height; those of heights more than 128 below the new one are dropped. The sum of the
  comparison wraps around.
\<close>

definition rememberMinedBlockCandidate :: "'c block_env \<Rightarrow> block \<Rightarrow> string \<Rightarrow> 'c p2p_node \<Rightarrow> 'c p2p_node" where
  "rememberMinedBlockCandidate B b source n =
     (case blk_number b of
        None \<Rightarrow> n
      | Some height \<Rightarrow>
          let entry = \<lparr>mc_Block = b, mc_Source = (if source = [] then ''unknown'' else source), mc_ReceivedAt = bk_now B\<rparr>;
              m = (pn_candidates n)(height := (pn_candidates n height)(Block_Hash (bk_crypto B) b \<mapsto> entry))
          in n\<lparr>pn_candidates := \<lambda>k. if k + 128 < height then Map.empty else m k\<rparr>)"

definition minedBlockCandidateCount :: "u64 \<Rightarrow> 'c p2p_node \<Rightarrow> nat" where
  "minedBlockCandidateCount height n = card (dom (pn_candidates n height))"

section \<open>Two blocks of one height\<close>

definition unix_now :: "'c block_env \<Rightarrow> u64" where
  "unix_now B = word_of_int (bk_now B div second)"

definition validateProtocolCandidate :: "'c block_env \<Rightarrow> 'c \<Rightarrow> block \<Rightarrow> block option \<Rightarrow> proto_error + unit" where
  "validateProtocolCandidate B c blk prnt =
     (let C = bk_crypto B in
      case b_Header blk of
        None \<Rightarrow> Inl PE_Nil
      | Some h \<Rightarrow>
          if Block_Hash C blk \<noteq> Header_Hash C (Some h) then Inl PE_Hash
          else
     (case prnt of
        None \<Rightarrow> Inl PE_No_Parent
      | Some parent \<Rightarrow>
          if h_ParentHash h \<noteq> Block_Hash C parent then Inl PE_Parent_Hash
          else
     (case (blk_number blk, blk_number parent) of
        (Some num, Some pnum) \<Rightarrow>
          if num \<noteq> pnum + 1 then Inl PE_Height
          else if \<not> pc_Checkpoint (bk_ops B) c num (Block_Hash C blk) then Inl PE_Checkpoint
          else (case Validate_Block C (bk_sha256 B) (unix_now B) (Some blk) prnt of
                  Inl e \<Rightarrow> Inl (PE_Validate e)
                | Inr _ \<Rightarrow> Inr ())
      | _ \<Rightarrow> Inl PE_Number)))"

definition p2pProofQualityHash :: "crypto \<Rightarrow> block \<Rightarrow> hash" where
  "p2pProofQualityHash C b =
     (case b_Header b of
        None \<Rightarrow> zero_hash
      | Some h \<Rightarrow> if h_MixDigest h \<noteq> zero_hash then h_MixDigest h else Block_Hash C b)"

definition compareP2PProofQuality :: "crypto \<Rightarrow> block \<Rightarrow> block \<Rightarrow> int" where
  "compareP2PProofQuality C a b =
     (let aProof = p2pProofQualityHash C a; bProof = p2pProofQualityHash C b
      in if aProof < bProof then - 1 else if aProof > bProof then 1 else 0)"

definition given_difficulty :: "header \<Rightarrow> int" where
  "given_difficulty h = (case h_Difficulty h of None \<Rightarrow> 0 | Some d \<Rightarrow> d)"

text \<open>The chosen block and the other one.\<close>

definition selectProtocolBlock ::
    "'c block_env \<Rightarrow> 'c \<Rightarrow> block \<Rightarrow> block \<Rightarrow> block option \<Rightarrow> proto_error + block \<times> block" where
  "selectProtocolBlock B c local remote parent =
     (case (validateProtocolCandidate B c local parent, validateProtocolCandidate B c remote parent) of
        (Inl e, Inl f) \<Rightarrow> Inl (PE_None_Valid e f)
      | (Inr _, Inl _) \<Rightarrow> Inr (local, remote)
      | (Inl _, Inr _) \<Rightarrow> Inr (remote, local)
      | (Inr _, Inr _) \<Rightarrow>
     (case (b_Header local, b_Header remote) of
        (Some lh, Some rh) \<Rightarrow>
          if given_difficulty rh > given_difficulty lh then Inr (remote, local)
          else if given_difficulty rh < given_difficulty lh then Inr (local, remote)
          else if compareP2PProofQuality (bk_crypto B) remote local < 0 then Inr (remote, local)
          else if compareP2PProofQuality (bk_crypto B) remote local > 0 then Inr (local, remote)
          else if h_Time rh < h_Time lh then Inr (remote, local)
          else if h_Time lh < h_Time rh then Inr (local, remote)
          else if Block_Hash (bk_crypto B) remote < Block_Hash (bk_crypto B) local then Inr (remote, local)
          else Inr (local, remote)
      | _ \<Rightarrow> Inl PE_Nil))"

text \<open>The candidates after the first are compared with the strongest so far; the losers become orphans.\<close>

fun strongest_of ::
    "'c block_env \<Rightarrow> block option \<Rightarrow> block \<Rightarrow> block list \<Rightarrow> 'c p2p_node \<Rightarrow> (proto_error + block) \<times> 'c p2p_node" where
  "strongest_of B parent strongest [] n = (Inr strongest, n)"
| "strongest_of B parent strongest (b # bs) n =
     (case selectProtocolBlock B (pn_chain n) strongest b parent of
        Inl e \<Rightarrow> (Inl e, n)
      | Inr (chosen, orphan) \<Rightarrow>
          strongest_of B parent chosen bs
            (if Block_Hash (bk_crypto B) orphan \<noteq> Block_Hash (bk_crypto B) chosen
             then rememberOrphanBlock B orphan ''mining-tip consensus lost deterministic protocol selection'' n else n))"

definition strongestProtocolBlock ::
    "'c block_env \<Rightarrow> block option \<Rightarrow> block list \<Rightarrow> 'c p2p_node \<Rightarrow> (proto_error + block) \<times> 'c p2p_node" where
  "strongestProtocolBlock B parent candidates n =
     (case candidates of
        [] \<Rightarrow> (Inl PE_No_Candidate, n)
      | b # bs \<Rightarrow>
          (case validateProtocolCandidate B (pn_chain n) b parent of
             Inl e \<Rightarrow> (Inl e, n)
           | Inr _ \<Rightarrow> strongest_of B parent b bs n))"

section \<open>A block from a peer\<close>

text \<open>A synchronisation to the height of the block; a panic in it ends the process.\<close>

definition start_sync_to ::
    "'c block_env \<Rightarrow> u64 \<Rightarrow> proto_error + unit \<Rightarrow> 'c p2p_node \<Rightarrow> ((proto_error + unit) \<times> 'c p2p_node) option" where
  "start_sync_to B num result n =
     (case triggerSyncToHeight (bk_p2p B) (bk_now B) (bk_hosted B) num (pn_sync n) of
        None \<Rightarrow> None
      | Some (Inl _, s) \<Rightarrow> Some (Inl PE_Panic, n\<lparr>pn_sync := s\<rparr>)
      | Some (Inr _, s) \<Rightarrow> Some (result, n\<lparr>pn_sync := s\<rparr>))"

text \<open>The direct extension of the tip.\<close>

definition extend_tip :: "'c block_env \<Rightarrow> block \<Rightarrow> 'c p2p_node \<Rightarrow> ((proto_error + unit) \<times> 'c p2p_node) option" where
  "extend_tip B blk n =
     (let c = pn_chain n in
      if \<not> pc_Mined (bk_ops B) c blk then Some (Inl PE_Proposal, n)
      else (case validateProtocolCandidate B c blk (pc_Latest (bk_ops B) c) of
              Inl e \<Rightarrow> Some (Inl e, rememberOrphanBlock B blk ''protocol rejection'' n)
            | Inr _ \<Rightarrow>
                (case pc_Process (bk_ops B) c blk ''p2p:gossip'' of
                   None \<Rightarrow> None
                 | Some (None, c') \<Rightarrow> Some (Inr (), with_chain c' n)
                 | Some (Some err, c') \<Rightarrow>
                     if says err ''already'' \<or> says err ''known'' \<or> says err ''duplicate'' then Some (Inr (), with_chain c' n)
                     else Some (Inl (PE_Add err), rememberOrphanBlock B blk ''direct extension rejected'' (with_chain c' n)))))"

text \<open>A block at a height that has another one.\<close>

definition compete :: "'c block_env \<Rightarrow> block \<Rightarrow> u64 \<Rightarrow> block \<Rightarrow> 'c p2p_node \<Rightarrow> ((proto_error + unit) \<times> 'c p2p_node) option" where
  "compete B blk num existing n =
     (let c = pn_chain n in
      if \<not> pc_Mined (bk_ops B) c blk then Some (Inl PE_Proposal, n)
      else (case selectProtocolBlock B c existing blk (pc_GetBlock (bk_ops B) c (num - 1)) of
              Inl e \<Rightarrow> Some (Inl e, rememberOrphanBlock B blk ''same-height fork without protocol-valid winner'' n)
            | Inr (chosen, orphan) \<Rightarrow>
                let n1 = rememberOrphanBlock B orphan ''same-height fork lost deterministic protocol selection'' n in
                if Block_Hash (bk_crypto B) chosen = Block_Hash (bk_crypto B) existing then Some (Inr (), n1)
                else (case pc_Process (bk_ops B) c blk ''p2p:gossip-fork'' of
                        None \<Rightarrow> None
                      | Some (None, c') \<Rightarrow> Some (Inr (), with_chain c' n1)
                      | Some (Some err, c') \<Rightarrow>
                          Some (Inl (PE_Fork err), rememberOrphanBlock B blk ''selected fork rejected'' (with_chain c' n1)))))"

text \<open>A block whose parent is known while the chain is synchronising.\<close>

definition gap_block :: "'c block_env \<Rightarrow> block \<Rightarrow> u64 \<Rightarrow> hash \<Rightarrow> 'c p2p_node \<Rightarrow> ((proto_error + unit) \<times> 'c p2p_node) option" where
  "gap_block B blk num parentHash n =
     (let c = pn_chain n in
      case pc_GetBlock (bk_ops B) c (num - 1) of
        None \<Rightarrow> Some (Inl PE_Sync_No_Parent, n)
      | Some parent \<Rightarrow>
          if Block_Hash (bk_crypto B) parent \<noteq> parentHash then Some (Inl PE_Sync_Parent, n)
          else if \<not> pc_Mined (bk_ops B) c blk then Some (Inl PE_Proposal, n)
          else (case pc_Process (bk_ops B) c blk ''p2p:sync-gossip'' of
                  None \<Rightarrow> None
                | Some (Some err, c') \<Rightarrow>
                    Some (if says err ''already'' \<or> says err ''known'' then Inr () else Inl (PE_Add err), with_chain c' n)
                | Some (None, c') \<Rightarrow>
                    Some (Inr (), with_chain (if pc_IsSyncing (bk_ops B) c' \<and> num \<ge> pc_GetSyncTarget (bk_ops B) c'
                      then pc_StopSync (bk_ops B) c' else c') n)))"

definition processBlock :: "'c block_env \<Rightarrow> block \<Rightarrow> 'c p2p_node \<Rightarrow> ((proto_error + unit) \<times> 'c p2p_node) option" where
  "processBlock B blk n =
     (let ops = bk_ops B; C = bk_crypto B; E = bk_p2p B; c = pn_chain n in
      case (b_Header blk, blk_number blk) of
        (Some h, Some num) \<Rightarrow>
          if map_option (Block_Hash C) (pc_GetBlock ops c num) = Some (Block_Hash C blk) then Some (Inr (), n)
          else if h_ParentHash h = LatestHash E c \<and> num = currentHeight E c + 1 then extend_tip B blk n
          else if \<not> pc_HasBlock ops c (h_ParentHash h) then
            (let n1 = rememberOrphanBlock B blk ''missing parent'' n in
             if num > currentHeight E c then start_sync_to B num (Inr ()) n1 else Some (Inr (), n1))
          else (case pc_GetBlock ops c num of
                  Some existing \<Rightarrow> compete B blk num existing n
                | None \<Rightarrow>
                    if pc_IsSyncing ops c then gap_block B blk num (h_ParentHash h) n
                    else if num > currentHeight E c + 1 then start_sync_to B num (Inl PE_Ahead) n
                    else if num \<le> currentHeight E c then Some (Inl PE_Stale, n)
                    else Some (Inl PE_Unexpected, n))
      | _ \<Rightarrow> Some (Inl PE_Nil, n))"

section \<open>One tip for all miners\<close>

text \<open>The blocks of the peers at the height of the tip, with their senders; peers that are behind do not count.\<close>

fun peer_tips :: "'c block_env \<Rightarrow> u64 \<Rightarrow> peer list \<Rightarrow> 'c p2p_node \<Rightarrow> (peer \<times> block) list \<times> 'c p2p_node" where
  "peer_tips B height [] n = ([], n)"
| "peer_tips B height (p # ps) n =
     (case GetPeerHeight (bk_p2p B) p (pn_sync n) of
        (None, s) \<Rightarrow> peer_tips B height ps (n\<lparr>pn_sync := s\<rparr>)
      | (Some h, s) \<Rightarrow>
          let n1 = n\<lparr>pn_sync := s\<rparr> in
          if h < height then peer_tips B height ps n1
          else (case fst (RequestBlockSync (bk_p2p B) (pn_chain n1) p height) of
                  Inl _ \<Rightarrow> peer_tips B height ps n1
                | Inr blk \<Rightarrow>
                    if b_Header blk = None then peer_tips B height ps n1
                    else (case peer_tips B height ps n1 of (bs, n2) \<Rightarrow> ((p, blk) # bs, n2))))"

text \<open>The value is the block to broadcast again, if a peer has a weaker one.\<close>

definition ResolveMiningTipConsensus ::
    "'c block_env \<Rightarrow> 'c p2p_node \<Rightarrow> ((proto_error + block option) \<times> 'c p2p_node) option" where
  "ResolveMiningTipConsensus B n =
     (let E = bk_p2p B; C = bk_crypto B in
      case Option.bind (if bk_hosted B then pc_Latest (bk_ops B) (pn_chain n) else None)
             (\<lambda>t. map_option (\<lambda>h. (t, h)) (blk_number t)) of
        None \<Rightarrow> Some (Inr None, n)
      | Some (localTip, height) \<Rightarrow>
          if height = 0 \<or> px_peers E = [] then Some (Inr None, n)
          else
     (case pc_GetBlock (bk_ops B) (pn_chain n) (height - 1) of
        None \<Rightarrow> Some (Inl PE_No_Parent, n)
      | Some parent \<Rightarrow>
     (case peer_tips B height (px_peers E) n of
        (tips, n1) \<Rightarrow>
     (case strongestProtocolBlock B (Some parent) (localTip # map snd tips) n1 of
        (Inl e, n2) \<Rightarrow> Some (Inl e, n2)
      | (Inr strongest, n2) \<Rightarrow>
          let again = (if list_ex (\<lambda>(p, b). Block_Hash C b \<noteq> Block_Hash C strongest) tips then Some strongest else None) in
          if Block_Hash C strongest = Block_Hash C localTip then Some (Inr again, n2)
          else (case processBlock B strongest n2 of
                  None \<Rightarrow> None
                | Some (Inl e, n3) \<Rightarrow> Some (Inl e, n3)
                | Some (Inr _, n3) \<Rightarrow>
                    if map_option (Block_Hash C) (pc_Latest (bk_ops B) (pn_chain n3)) \<noteq> Some (Block_Hash C strongest)
                    then Some (Inl PE_Not_Converged, n3) else Some (Inr again, n3))))))"

section \<open>The rule of the peer-to-peer layer\<close>

lemma p2p_proof_quality [simp]: "p2pProofQualityHash C b = proofQualityHash C (Some b)"
  by (simp add: p2pProofQualityHash_def proofQualityHash_def split: option.split)

lemma validated_candidate:
  assumes "validateProtocolCandidate B c blk prnt = Inr ()"
  obtains h d where "b_Header blk = Some h" "h_Difficulty h = Some d" "0 < d"
  using assms that
  by (auto simp: validateProtocolCandidate_def Validate_Block_def Validate_Header_def Let_def split: option.splits if_splits sum.splits)

lemma select_both_valid:
  assumes "validateProtocolCandidate B c local prnt = Inr ()" "validateProtocolCandidate B c remote prnt = Inr ()"
  shows "selectProtocolBlock B c local remote prnt =
    (if isBetterBlockCandidate (bk_crypto B) (Some remote) (Some local) then Inr (remote, local) else Inr (local, remote))"
proof -
  obtain lh ld where l: "b_Header local = Some lh" "h_Difficulty lh = Some ld" "0 < ld" by (rule validated_candidate [OF assms(1)])
  obtain rh rd where r: "b_Header remote = Some rh" "h_Difficulty rh = Some rd" "0 < rd" by (rule validated_candidate [OF assms(2)])
  have pos: "\<not> ld \<le> 0" "\<not> rd \<le> 0" using l(3) r(3) by simp_all
  show ?thesis
    by (cases rule: linorder_cases [of "proofQualityHash (bk_crypto B) (Some remote)" "proofQualityHash (bk_crypto B) (Some local)"];
        cases rule: linorder_cases [of "h_Time rh" "h_Time lh"]; cases rule: linorder_cases [of rd ld])
      (simp_all add: selectProtocolBlock_def assms l r pos isBetterBlockCandidate_def given_difficulty_def normalizedDifficulty_def
        compareP2PProofQuality_def compareProofQuality_def Let_def)
qed

lemma select_keeps:
  assumes "validateProtocolCandidate B c local prnt = Inr ()"
  shows "\<exists>orphan. selectProtocolBlock B c local remote prnt =
    Inr (if validateProtocolCandidate B c remote prnt = Inr () then better_of (bk_crypto B) local remote else local, orphan)"
proof (cases "validateProtocolCandidate B c remote prnt")
  case (Inl e)
  then show ?thesis using assms by (simp add: selectProtocolBlock_def)
next
  case (Inr u)
  then show ?thesis using select_both_valid [OF assms] by (auto simp: better_of_def)
qed

lemma remember_chain [simp]: "pn_sync (rememberOrphanBlock B blk reason n) = pn_sync n"
  by (simp add: rememberOrphanBlock_def)

lemma strongest_of_fold:
  assumes "validateProtocolCandidate B (pn_chain n) s prnt = Inr ()"
  shows "\<exists>n'. strongest_of B prnt s bs n =
    (Inr (foldl (better_of (bk_crypto B)) s (filter (\<lambda>b. validateProtocolCandidate B (pn_chain n) b prnt = Inr ()) bs)), n')
    \<and> pn_sync n' = pn_sync n"
  using assms
proof (induction bs arbitrary: s n)
  case (Cons b bs)
  let ?v = "\<lambda>b. validateProtocolCandidate B (pn_chain n) b prnt = Inr ()"
  let ?s = "if ?v b then better_of (bk_crypto B) s b else s"
  obtain orphan where o: "selectProtocolBlock B (pn_chain n) s b prnt = Inr (?s, orphan)"
    using select_keeps [OF Cons.prems] by blast
  have "?v ?s" using Cons.prems by (simp add: better_of_def)
  then show ?case using Cons.IH [of n ?s] Cons.IH [of "rememberOrphanBlock B orphan _ n" ?s] o by auto
qed simp

section \<open>What changes the chain\<close>

lemma extend_tip_changes:
  "extend_tip B blk n = Some (r, n') \<Longrightarrow> pn_chain n' \<noteq> pn_chain n
    \<Longrightarrow> pc_Mined (bk_ops B) (pn_chain n) blk
      \<and> validateProtocolCandidate B (pn_chain n) blk (pc_Latest (bk_ops B) (pn_chain n)) = Inr ()"
  by (auto simp: extend_tip_def Let_def split: if_splits sum.splits option.splits)

lemma select_pair:
  "selectProtocolBlock B c local remote parent = Inr (chosen, orphan)
    \<Longrightarrow> chosen = local \<and> orphan = remote \<or> chosen = remote \<and> orphan = local"
  by (auto simp: selectProtocolBlock_def split: sum.splits option.splits if_splits)

lemma compete_changes:
  "compete B blk num existing n = Some (r, n') \<Longrightarrow> pn_chain n' \<noteq> pn_chain n
    \<Longrightarrow> pc_Mined (bk_ops B) (pn_chain n) blk
      \<and> (\<exists>lost. selectProtocolBlock B (pn_chain n) existing blk (pc_GetBlock (bk_ops B) (pn_chain n) (num - 1)) = Inr (blk, lost))"
  by (auto simp: compete_def Let_def dest: select_pair split: if_splits sum.splits option.splits prod.splits)

lemma gap_block_changes:
  "gap_block B blk num ph n = Some (r, n') \<Longrightarrow> pn_chain n' \<noteq> pn_chain n
    \<Longrightarrow> pc_Mined (bk_ops B) (pn_chain n) blk
      \<and> map_option (Block_Hash (bk_crypto B)) (pc_GetBlock (bk_ops B) (pn_chain n) (num - 1)) = Some ph"
  by (auto simp: gap_block_def Let_def split: if_splits sum.splits option.splits)

section \<open>Instances to evaluate\<close>

definition wc_block_env :: "((bytes, bytes) alist, bytes \<Rightarrow> bytes option) blockchain reorg_manager block_env" where
  "wc_block_env = \<lparr>bk_p2p = (table_env wc_ops fork_table 2)\<lparr>px_peers := []\<rparr>, bk_sha256 = (\<lambda>_. 0), bk_now = 1763731971 * second, bk_hosted = True\<rparr>"

text \<open>A competitor of \<open>wc_block\<close> that every check accepts.\<close>

definition valid_rival :: block where
  "valid_rival = wc_block\<lparr>b_Header := Some (wc_header\<lparr>h_Extra := [1], h_MixDigest := 5\<rparr>)\<rparr>"

lemma valid_rival_sel:
  "b_Header valid_rival = Some (wc_header\<lparr>h_Extra := [1], h_MixDigest := 5\<rparr>)" "blk_number valid_rival = Some 1"
  "b_Txs valid_rival = []" "b_Uncles valid_rival = []"
  by (simp_all add: valid_rival_def blk_number_def header_height_def wc_sel big_uint64_def)

lemma valid_rival_hash [simp]: "Block_Hash wc_crypto valid_rival = 698"
  by (simp add: Block_Hash_def valid_rival_def wc_block_def wc_header_def wc_crypto_def Header_Hash_def header_preimage_def
      sample_header_def bloom_bytes_def length_prefixed_def stakers_bytes_def Hash_Bytes_def Address_Bytes_def
      word_bytes_def BloomByteLength_def)

lemma wc_header_hashes:
  "Header_Hash wc_crypto (Some wc_header) = 697" "Header_Hash wc_crypto (Some (wc_header\<lparr>h_Extra := [1], h_MixDigest := 5\<rparr>)) = 698"
  "Header_Hash wc_crypto (Some (sample_header\<lparr>h_Difficulty := None\<rparr>)) = 696"
  using wc_hash valid_rival_hash by (simp_all only: Block_Hash_def wc_sel valid_rival_sel option.case)

lemma wc_header_limits:
  "h_GasLimit wc_header \<noteq> 0" "h_Difficulty wc_header = Some (CalculateExpectedDifficulty NewPoW 1 0 1763731971)"
  "h_Signature wc_header = [1]"
  by (simp_all add: wc_header_def sample_header_def)

lemma valid_candidates:
  assumes "bk_crypto B = wc_crypto" "bk_sha256 B = (\<lambda>_. 0)" "unix_now B = 1763731971" "\<And>h x. pc_Checkpoint (bk_ops B) c h x"
  shows "validateProtocolCandidate B c wc_block (Some wc_genesis) = Inr ()"
    "validateProtocolCandidate B c valid_rival (Some wc_genesis) = Inr ()"
proof -
  have "\<not> CalculateExpectedDifficulty NewPoW 1 0 1763731971 \<le> 0" using bv_difficulty(1) [of 1 0 1763731971] by simp
  then have "Validate_Block wc_crypto (\<lambda>_. 0) 1763731971 (Some wc_block) (Some wc_genesis) = Inr ()"
    "Validate_Block wc_crypto (\<lambda>_. 0) 1763731971 (Some valid_rival) (Some wc_genesis) = Inr ()"
    by (simp_all add: Validate_Block_def Validate_Header_def Validate_parent_def validateTimestamp_def wc_sel valid_rival_sel
        wc_header_limits wc_header_hashes ValidateExtraDataSize_def validateExtraDataContent_def Block_Size_def CalculateTxHash_def
        CalculateGasUsed_def unix_ext_def FutureBlockThreshold_def MaxBlockSize_def MaxTransactions_def MaxUncles_def
        MaxExtraDataSize_def BloomByteLength_def zero_hash_def)
  then show "validateProtocolCandidate B c wc_block (Some wc_genesis) = Inr ()"
    "validateProtocolCandidate B c valid_rival (Some wc_genesis) = Inr ()"
    using assms by (simp_all add: validateProtocolCandidate_def wc_sel valid_rival_sel wc_header_hashes)
qed

lemma wc_valid_candidates:
  "validateProtocolCandidate wc_block_env c wc_block (Some wc_genesis) = Inr ()"
  "validateProtocolCandidate wc_block_env c valid_rival (Some wc_genesis) = Inr ()"
  by (rule valid_candidates; simp add: wc_block_env_def table_env_def wc_ops_def unix_now_def second_def)+

text \<open>A chain of the genesis block to which \<open>wc_block\<close> can be added.\<close>

definition short_ops :: "bool p2p_chain" where
  "short_ops = \<lparr>pc_Latest = (\<lambda>c. Some (if c then wc_block else wc_genesis)),
     pc_GetBlock = (\<lambda>c h. if h = 0 then Some wc_genesis else if h = 1 \<and> c then Some wc_block else None),
     pc_HasBlock = (\<lambda>c x. x = 696 \<or> c \<and> x = 697), pc_Checkpoint = (\<lambda>_ _ _. True), pc_Mined = (\<lambda>_ b. b_Header b \<noteq> None),
     pc_Process = (\<lambda>c b src. if b = wc_block then Some (None, True) else Some (Some ''parent branch missing at height 1'', c)),
     pc_TruncateTo = (\<lambda>c h. (c \<and> h = 0, False)), pc_IsSyncing = (\<lambda>_. False), pc_GetSyncTarget = (\<lambda>_. 0),
     pc_StartSync = (\<lambda>c _. c), pc_StopSync = (\<lambda>c. c)\<rparr>"

definition short_env :: "bool block_env" where
  "short_env = \<lparr>bk_p2p = table_env short_ops (\<lambda>_. None) 0, bk_sha256 = (\<lambda>_. 0), bk_now = 1763731971 * second, bk_hosted = False\<rparr>"

definition short_node :: "bool \<Rightarrow> bool p2p_node" where
  "short_node c = \<lparr>pn_sync = \<lparr>sn_chain = c, sn_syncHeight = 0, sn_lastSyncTime = None, sn_syncAttempts = 0\<rparr>,
     pn_orphans = Map.empty, pn_candidates = \<lambda>_. Map.empty\<rparr>"

lemma short_sel [simp]:
  "bk_crypto short_env = wc_crypto" "bk_ops short_env = short_ops" "bk_sha256 short_env = (\<lambda>_. 0)" "unix_now short_env = 1763731971"
  "pn_chain (short_node c) = c" "currentHeight (bk_p2p short_env) False = 0" "LatestHash (bk_p2p short_env) False = 696"
  "pc_Checkpoint short_ops c h x" "pc_Latest short_ops False = Some wc_genesis"
  by (simp_all add: short_env_def table_env_def short_ops_def short_node_def currentHeight_def LatestHash_def unix_now_def second_def
      fork_height_def)

lemma short_step: "processBlock short_env wc_block (short_node False) = Some (Inr (), with_chain True (short_node False))"
proof -
  have "pc_GetBlock short_ops False 1 = None" "pc_Mined short_ops False wc_block"
    "pc_Process short_ops False wc_block src = Some (None, True)" for src
    by (simp_all add: short_ops_def wc_sel)
  then show ?thesis
    by (simp add: processBlock_def wc_sel extend_tip_def Let_def valid_candidates)
qed

section \<open>Properties\<close>

text \<open>What the manager and the peer-to-peer layer read of a sound chain.\<close>

lemma reads_of_chain:
  assumes "chain_ok X bc" "GetBlock (ce_pebble X) (ce_rlp X) (bc_db bc) height = Inr (Some b)"
  shows "ReadBlockByHash (ce_pebble X) (ce_rlp X) (bc_db bc) (Block_Hash (ce_crypto X) b) = Inr (Some b)"
    "GetCanonicalHash (ce_pebble X) (bc_db bc) height = Inr (Block_Hash (ce_crypto X) b)" "Block_Hash (ce_crypto X) b \<noteq> zero_hash"
    "blk_number b = Some height" "HasBlock X (bc_db bc) (Block_Hash (ce_crypto X) b)"
proof -
  have store: "store_ok X (bc_db bc)" using assms(1) by (simp add: chain_ok_def)
  show "Block_Hash (ce_crypto X) b \<noteq> zero_hash" using GetBlock_hash [OF store assms(2)] .
  obtain x where x: "GetCanonicalHash (ce_pebble X) (bc_db bc) height = Inr x" "ReadBlockByHash (ce_pebble X) (ce_rlp X) (bc_db bc) x = Inr (Some b)"
      "blk_number b = Some height"
    using GetBlock_Some [OF assms(2)] by blast
  then have "Block_Hash (ce_crypto X) b = x" using store by (simp add: store_ok_def)
  then show read: "ReadBlockByHash (ce_pebble X) (ce_rlp X) (bc_db bc) (Block_Hash (ce_crypto X) b) = Inr (Some b)"
    and "GetCanonicalHash (ce_pebble X) (bc_db bc) height = Inr (Block_Hash (ce_crypto X) b)" "blk_number b = Some height"
    using x by simp_all
  show "HasBlock X (bc_db bc) (Block_Hash (ce_crypto X) b)"
    using read by (auto simp: ReadBlockByHash_def HasBlock_def db_HasBlock_def split: sum.splits option.splits)
qed

lemma manager_keeps_tip:
  assumes "chain_ok X (rm_chain rm)" "bc_latest (rm_chain rm) = Some t" "bc_height (rm_chain rm) = n + 1" "n < n + 1"
    and "GetBlock (ce_pebble X) (ce_rlp X) (bc_db (rm_chain rm)) (n + 1) = Inr (Some t)"
    and "GetBlock (ce_pebble X) (ce_rlp X) (bc_db (rm_chain rm)) n = Inr (Some p)"
    and "b_Header b = Some h" "b_Header t = Some k" "h_ParentHash h = Block_Hash (ce_crypto X) p" "h_ParentHash k = Block_Hash (ce_crypto X) p"
    and "blk_number b = Some (n + 1)" "h_Difficulty h = h_Difficulty k" "Block_Hash (ce_crypto X) b \<noteq> Block_Hash (ce_crypto X) t"
  shows "\<exists>rm'. ProcessNewBlock (manager_env X now iter) rm (Some b) src = Some (Inr (), rm') \<and> rm_chain rm' = rm_chain rm"
proof -
  let ?M = "manager_env X now iter" and ?bc = "rm_chain rm"
  note t = reads_of_chain [OF assms(1,5)] and p = reads_of_chain [OF assms(1,6)]
  have tip: "tip_hash (ce_crypto X) ?bc = Block_Hash (ce_crypto X) t" using tip_of_ok(2) [OF assms(1,2)] .
  have "\<exists>fork. handleSameHeightFork ?M rm b (n + 1) = Some (Inr (), store_fork rm fork)"
    using assms t p tip
    by (intro same_difficulty_keeps [where h = h and k = k and p = p and t = t])
      (simp_all add: manager_env_def reorgChainAdapter_def Let_def GetBlockByHash_def found_def)
  then obtain fork where fork: "handleSameHeightFork ?M rm b (n + 1) = Some (Inr (), store_fork rm fork)" by blast
  have "process_step ?M rm (Some b) src = Some (Finished (Inr ()) (if HasBlock X (bc_db ?bc) (Block_Hash (ce_crypto X) b) then rm else store_fork rm fork))"
    using fork assms(5,7,11,13) t(2,3)
    by (simp add: process_step_def Let_def)
      (simp add: manager_env_def reorgChainAdapter_def Let_def HasBlockAtHeight_def found_def)
  then show ?thesis by (simp add: ProcessNewBlock_def store_fork_def)
qed

text \<open>
  C34: gossip and chain decide by different rules. On a sound chain above the genesis block, whose tip and
  parent are read back, a competitor of the tip on the same parent, with the same difficulty and a better
  proof, that passes every check of a node is chosen by the rule of the peer-to-peer layer, which then
  hands it to the chain and counts the tip as an orphan. The chain compares work alone and keeps the tip;
  the node reports success and nothing of its chain has changed.
\<close>

theorem better_proof_is_dropped:
  fixes X :: "('s, 'd) chain_env" and n :: "('s, 'd) blockchain reorg_manager p2p_node"
  defines "bc \<equiv> rm_chain (pn_chain n)"
  assumes "bk_ops B = node_chain X (manager_env X now iter) checkpoint say" "bk_crypto B = ce_crypto X"
    and "chain_ok X bc" "bc_latest bc = Some t" "bc_height bc = m + 1" "m < m + 1"
    and "GetBlock (ce_pebble X) (ce_rlp X) (bc_db bc) (m + 1) = Inr (Some t)" "GetBlock (ce_pebble X) (ce_rlp X) (bc_db bc) m = Inr (Some p)"
    and "b_Header b = Some h" "b_Header t = Some k" "h_ParentHash h = Block_Hash (ce_crypto X) p" "h_ParentHash k = Block_Hash (ce_crypto X) p"
    and "blk_number b = Some (m + 1)" "h_Difficulty h = h_Difficulty k" "Block_Hash (ce_crypto X) b \<noteq> Block_Hash (ce_crypto X) t"
    and "proofQualityHash (ce_crypto X) (Some b) < proofQualityHash (ce_crypto X) (Some t)"
    and "validateProtocolCandidate B (pn_chain n) t (Some p) = Inr ()" "validateProtocolCandidate B (pn_chain n) b (Some p) = Inr ()"
    and "pc_Mined (bk_ops B) (pn_chain n) b"
  shows "selectProtocolBlock B (pn_chain n) t b (Some p) = Inr (b, t)
    \<and> (\<exists>n'. processBlock B b n = Some (Inr (), n') \<and> rm_chain (pn_chain n') = bc
        \<and> pn_orphans n' (Block_Hash (ce_crypto X) t) \<noteq> None)"
proof -
  let ?C = "ce_crypto X" and ?d = "bc_db bc"
  note t = reads_of_chain [OF assms(4,8)] and p = reads_of_chain [OF assms(4,9)]
  have "isBetterBlockCandidate ?C (Some b) (Some t)"
    using assms(10,11,15,17) by (simp add: isBetterBlockCandidate_def compareProofQuality_def Let_def)
  then have select: "selectProtocolBlock B (pn_chain n) t b (Some p) = Inr (b, t)"
    using select_both_valid [OF assms(18,19)] assms(3) by simp
  define n1 where "n1 = rememberOrphanBlock B t ''same-height fork lost deterministic protocol selection'' n"
  have orphan: "pn_orphans n1 (Block_Hash ?C t) \<noteq> None" using assms(3,11) by (simp add: n1_def rememberOrphanBlock_def)
  have hash: "h_ParentHash h \<noteq> Block_Hash ?C t \<or> m + 1 \<noteq> fork_height t + 1" using t(4) by (simp add: fork_height_def)
  have tip: "LatestHash (bk_p2p B) (pn_chain n) = Block_Hash ?C t" "currentHeight (bk_p2p B) (pn_chain n) = fork_height t"
    using assms(2,3,5) by (simp_all add: LatestHash_def currentHeight_def bc_def)
  have blocks: "pc_GetBlock (bk_ops B) (pn_chain n) (m + 1) = Some t" "pc_GetBlock (bk_ops B) (pn_chain n) m = Some p"
    "pc_HasBlock (bk_ops B) (pn_chain n) (Block_Hash ?C p)"
    using assms(2,8,9) p(5) by (simp_all add: found_def bc_def)
  have "\<exists>rm'. ProcessNewBlock (manager_env X now iter) (pn_chain n) (Some b) src = Some (Inr (), rm') \<and> rm_chain rm' = rm_chain (pn_chain n)" for src
    using assms(4-16) unfolding bc_def by (intro manager_keeps_tip [where t = t and n = m and p = p and h = h and k = k])
  then obtain rm' where rm': "pc_Process (bk_ops B) (pn_chain n) b ''p2p:gossip-fork'' = Some (None, rm')" "rm_chain rm' = bc"
    using assms(2) by (fastforce simp: node_chain_def bc_def)
  have "compete B b (m + 1) t n = Some (Inr (), with_chain rm' n1)"
    using select rm' assms(3,16,20) blocks(2) by (simp add: compete_def Let_def n1_def)
  then have "processBlock B b n = Some (Inr (), with_chain rm' n1)"
    using assms(3,10,12,14,16) blocks tip hash by (auto simp: processBlock_def Let_def)
  then show ?thesis using select orphan rm'(2) by (simp add: with_chain_def on_sync_def on_chain_def)
qed

text \<open>Two blocks on the genesis block that pass every check of a proposal; the later one is the tip.\<close>

definition pb_header :: header where
  "pb_header = wc_header\<lparr>h_UpgradeName := str_bytes ''genesis'', h_UpgradeTimestamp := GenesisTimestamp,
     h_RewardAmount := Some initialBlockReward, h_CurrentReward := Some initialBlockReward\<rparr>"

definition pb_block :: block where "pb_block = wc_block\<lparr>b_Header := Some pb_header\<rparr>"
definition pb_tip :: block where "pb_tip = wc_block\<lparr>b_Header := Some (pb_header\<lparr>h_Extra := [1]\<rparr>)\<rparr>"

definition pb_env :: "((bytes, bytes) alist, bytes \<Rightarrow> bytes option) chain_env" where
  "pb_env = wc_env\<lparr>ce_rlp := table_codec [wc_genesis, pb_tip]\<rparr>"

definition pb_p2p :: "((bytes, bytes) alist, bytes \<Rightarrow> bytes option) blockchain reorg_manager block_env" where
  "pb_p2p = \<lparr>bk_p2p = table_env (node_chain pb_env (manager_env pb_env 0 (\<lambda>x. x)) (\<lambda>_ _. True) (\<lambda>_. [])) fork_table 2,
     bk_sha256 = (\<lambda>_. 0), bk_now = 1763731971 * second, bk_hosted = True\<rparr>"

definition pb_chain :: "(bytes \<Rightarrow> bytes option) \<Rightarrow> ((bytes, bytes) alist, bytes \<Rightarrow> bytes option) blockchain" where
  "pb_chain d = (wc_chain d)\<lparr>bc_latest := Some pb_tip, bc_height := 1\<rparr>"

definition pb_node :: "(bytes \<Rightarrow> bytes option) \<Rightarrow> ((bytes, bytes) alist, bytes \<Rightarrow> bytes option) blockchain reorg_manager p2p_node" where
  "pb_node d = \<lparr>pn_sync = \<lparr>sn_chain = NewReorgManager (pb_chain d), sn_syncHeight = 0, sn_lastSyncTime = None, sn_syncAttempts = 0\<rparr>,
     pn_orphans = Map.empty, pn_candidates = \<lambda>_. Map.empty\<rparr>"

lemma pb_hash [simp]: "Block_Hash wc_crypto pb_block = 704" "Block_Hash wc_crypto pb_tip = 705"
  by (simp_all add: Block_Hash_def pb_block_def pb_tip_def pb_header_def wc_block_def wc_header_def wc_crypto_def Header_Hash_def
      header_preimage_def sample_header_def bloom_bytes_def length_prefixed_def stakers_bytes_def Hash_Bytes_def Address_Bytes_def
      word_bytes_def BloomByteLength_def str_bytes_def)

lemma pb_sel [simp]:
  "b_Header pb_block = Some pb_header" "b_Header pb_tip = Some (pb_header\<lparr>h_Extra := [1]\<rparr>)"
  "b_Txs pb_block = []" "b_Txs pb_tip = []" "b_Uncles pb_block = []" "b_Uncles pb_tip = []"
  "h_Number pb_header = Some 1" "h_Time pb_header = 1763731971" "h_ParentHash pb_header = 696" "h_Extra pb_header = []"
  "h_Signature pb_header = [1]" "h_GasUsed pb_header = 0" "h_TxHash pb_header = 0" "h_GasLimit pb_header \<noteq> 0" "h_MixDigest pb_header = 0"
  "h_Difficulty pb_header = Some (CalculateExpectedDifficulty NewPoW 1 0 1763731971)" "h_Coinbase pb_header = 7"
  by (simp_all add: pb_block_def pb_tip_def pb_header_def wc_sel) (simp_all add: wc_header_def sample_header_def)

lemma pb_number [simp]: "blk_number pb_block = Some 1" "blk_number pb_tip = Some 1"
  by (simp_all add: blk_number_def header_height_def big_uint64_def)

lemma pb_hashes:
  "Header_Hash wc_crypto (Some pb_header) = 704" "Header_Hash wc_crypto (Some (pb_header\<lparr>h_Extra := [1]\<rparr>)) = 705"
  using pb_hash by (simp_all only: Block_Hash_def pb_sel option.case)

lemma pb_valid:
  "validateProtocolCandidate pb_p2p c pb_block (Some wc_genesis) = Inr ()" "validateProtocolCandidate pb_p2p c pb_tip (Some wc_genesis) = Inr ()"
proof -
  have "\<not> CalculateExpectedDifficulty NewPoW 1 0 1763731971 \<le> 0" using bv_difficulty(1) [of 1 0 1763731971] by simp
  then have "Validate_Block wc_crypto (\<lambda>_. 0) 1763731971 (Some pb_block) (Some wc_genesis) = Inr ()"
    "Validate_Block wc_crypto (\<lambda>_. 0) 1763731971 (Some pb_tip) (Some wc_genesis) = Inr ()"
    by (simp_all add: Validate_Block_def Validate_Header_def Validate_parent_def validateTimestamp_def wc_sel
        pb_hashes wc_header_hashes ValidateExtraDataSize_def validateExtraDataContent_def Block_Size_def CalculateTxHash_def
        CalculateGasUsed_def unix_ext_def FutureBlockThreshold_def MaxBlockSize_def MaxTransactions_def MaxUncles_def
        MaxExtraDataSize_def BloomByteLength_def zero_hash_def)
  moreover have "bk_crypto pb_p2p = wc_crypto" "bk_sha256 pb_p2p = (\<lambda>_. 0)" "unix_now pb_p2p = 1763731971" "pc_Checkpoint (bk_ops pb_p2p) c h x" for h x
    by (simp_all add: pb_p2p_def table_env_def unix_now_def second_def)
  ultimately show "validateProtocolCandidate pb_p2p c pb_block (Some wc_genesis) = Inr ()"
    "validateProtocolCandidate pb_p2p c pb_tip (Some wc_genesis) = Inr ()"
    by (simp_all add: validateProtocolCandidate_def wc_sel pb_hashes wc_header_hashes)
qed

lemma pb_proposal:
  assumes "byHash 696 = Some wc_genesis"
  shows "ValidateMinedBlockProposal wc_crypto (\<lambda>_. 0) byHash 1763731971 (Some NewPoW) (Some pb_block) = Inr ()"
proof -
  have "powHeaderFromBlockHeader (Some pb_header) = powHeaderFromBlockHeader (Some wc_header)"
    by (simp add: powHeaderFromBlockHeader_def header_height_def pb_header_def wc_sel)
  then have pow: "validateProofOfWork wc_crypto (Some NewPoW) (Some pb_header) = Inr ()"
    using wc_pow by (simp add: validateProofOfWork_def)
  have mk: "ParseQuantumAddress wc_crypto GenesisMainKing = Inr 0" by (rule wc_main_king)
  have protocol: "validateProtocolHeader wc_crypto (Some pb_header) = Inr ()"
    by (simp add: validateProtocolHeader_Inr protocolMainKingAddress_def mk pb_header_def wc_header_def sample_header_def
        period_reward_def schedule_reward_def)
  have "validateBasicBlockIntegrity wc_crypto 1763731971 (Some pb_block) (Some wc_genesis) = Inr ()"
    using wc_sel by (simp add: validateBasicBlockIntegrity_def header_height_def big_uint64_def ValidateExtraDataSize_def
      validateExtraDataContent_def MaxClockDrift_def BlockTimeTarget_def)
  moreover have "validateBlockHash wc_crypto pb_block = Inr ()" by (simp add: validateBlockHash_def Block_Hash_def)
  moreover have "validateDifficulty byHash (Some NewPoW) pb_header (Some wc_genesis) = Inr ()"
    "validateTransactionRoot wc_crypto (\<lambda>_. 0) pb_block pb_header = Inr ()" "validateBlockSignature pb_header = Inr ()"
    by (simp_all add: validateDifficulty_def calculateExpectedDifficultyFromChainState_def header_height_def wc_genesis_def
      validateTransactionRoot_def CalcTxRoot_def CalculateTxHash_def wc_crypto_def
      validateBlockSignature_def VerifyBlockSignature_def big_uint64_def zero_hash_def)
  ultimately show ?thesis
    by (simp add: ValidateMinedBlockProposal_def assms proposal_checks_def protocol pow)
qed

lemma pb_store:
  obtains d where "GetBlock map_pebble (table_codec [wc_genesis, pb_tip]) d 1 = Inr (Some pb_tip)"
    "GetBlock map_pebble (table_codec [wc_genesis, pb_tip]) d 0 = Inr (Some wc_genesis)" "chain_ok pb_env (pb_chain d)"
proof -
  let ?R = "table_codec [wc_genesis, pb_tip]"
  obtain d1 where d1: "write_canonical_block map_pebble ?R wc_crypto Map.empty wc_genesis 0 = Inr d1"
    by (simp add: write_canonical_block_def block_entries_def table_codec_def commit_def map_pebble_def wc_sel)
  obtain d where d: "write_canonical_block map_pebble ?R wc_crypto d1 pb_tip 1 = Inr d"
    by (simp add: write_canonical_block_def block_entries_def table_codec_def commit_def map_pebble_def wc_sel)
  have empty: "view map_pebble ?R Map.empty = \<lparr>vw_block = \<lambda>_. Inr None, vw_canonical = \<lambda>_. Inr 0, vw_head = Inr 0\<rparr>"
    by (simp add: view_def ReadBlockByHash_def GetCanonicalHash_def GetHeadBlockHash_def read_hash_def map_pebble_def fun_eq_iff zero_hash_def)
  have view: "view map_pebble ?R d = \<lparr>vw_block = (\<lambda>_. Inr None)(696 := Inr (Some wc_genesis), 705 := Inr (Some pb_tip)),
      vw_canonical = (\<lambda>_. Inr 0)(0 := Inr 696, 1 := Inr 705), vw_head = Inr 705\<rparr>"
    by (simp add: tdb.view_write_canonical_block [OF d] tdb.view_write_canonical_block [OF d1] empty)
  have reads: "ReadBlockByHash map_pebble ?R d h = Inr (if h = 705 then Some pb_tip else if h = 696 then Some wc_genesis else None)"
    "GetCanonicalHash map_pebble d n = Inr (if n = 1 then 705 else if n = 0 then 696 else 0)" for h n
    using arg_cong [OF view, of "\<lambda>v. vw_block v h"] arg_cong [OF view, of "\<lambda>v. vw_canonical v n"] by (simp_all add: view_def)
  have at: "canonical_at wc_crypto (view map_pebble ?R d) 1 pb_tip" "canonical_at wc_crypto (view map_pebble ?R d) 0 wc_genesis"
    by (simp_all add: canonical_at_def view)
  have sel: "ce_pebble pb_env = map_pebble" "ce_rlp pb_env = ?R" "ce_node pb_env = wc_node_env" by (simp_all add: pb_env_def)
  have "linked_to wc_crypto (view map_pebble ?R d) 1"
    unfolding linked_to_def
  proof (intro allI impI)
    fix m :: u64 assume "m < 1"
    then have "m = 0" by (metis word_less_1)
    then show "\<exists>p b h. canonical_at wc_crypto (view map_pebble ?R d) m p \<and> canonical_at wc_crypto (view map_pebble ?R d) (m + 1) b
        \<and> b_Header b = Some h \<and> h_ParentHash h = Block_Hash wc_crypto p"
      using at by (intro exI [of _ wc_genesis] exI [of _ pb_tip]) simp
  qed
  moreover have "store_ok pb_env d" by (simp add: store_ok_def reads sel split: if_splits)
  ultimately have "chain_ok pb_env (pb_chain d)" using at by (simp add: chain_ok_def pb_chain_def sel)
  moreover have "GetBlock map_pebble ?R d 1 = Inr (Some pb_tip)" "GetBlock map_pebble ?R d 0 = Inr (Some wc_genesis)"
    by (simp_all add: GetBlock_def reads zero_hash_def)
  ultimately show thesis using that by blast
qed

theorem better_proof_is_dropped_witness:
  "\<exists>d n'. processBlock pb_p2p pb_block (pb_node d) = Some (Inr (), n') \<and> bc_latest (rm_chain (pn_chain n')) = Some pb_tip
    \<and> pn_orphans n' 705 \<noteq> None \<and> selectProtocolBlock pb_p2p (pn_chain (pb_node d)) pb_tip pb_block (Some wc_genesis) = Inr (pb_block, pb_tip)"
proof -
  let ?R = "table_codec [wc_genesis, pb_tip]"
  obtain d where d: "GetBlock map_pebble ?R d 1 = Inr (Some pb_tip)" "GetBlock map_pebble ?R d 0 = Inr (Some wc_genesis)" "chain_ok pb_env (pb_chain d)"
    by (rule pb_store)
  have sel: "ce_pebble pb_env = map_pebble" "ce_rlp pb_env = ?R" "ce_node pb_env = wc_node_env" by (simp_all add: pb_env_def)
  have chain: "rm_chain (pn_chain (pb_node d)) = pb_chain d" "bc_latest (pb_chain d) = Some pb_tip" "bc_height (pb_chain d) = 0 + 1" "bc_db (pb_chain d) = d"
    "bc_node (pb_chain d) = bv_node"
    by (simp_all add: pb_node_def NewReorgManager_def pb_chain_def)
  have p2p: "bk_ops pb_p2p = node_chain pb_env (manager_env pb_env 0 (\<lambda>x. x)) (\<lambda>_ _. True) (\<lambda>_. [])" "bk_crypto pb_p2p = ce_crypto pb_env"
    by (simp_all add: pb_p2p_def table_env_def sel)
  have "GetBlockByHash map_pebble ?R d 696 = Inr (Some wc_genesis)"
    using reads_of_chain(1,3) [OF d(3), of 0 wc_genesis] d(2) by (simp add: GetBlockByHash_def sel chain)
  then have mined: "pc_Mined (bk_ops pb_p2p) (pn_chain (pb_node d)) pb_block"
    using pb_proposal [of "ne_byHash (env_of pb_env d)"]
    by (simp add: p2p node_chain_def reorgChainAdapter_def Let_def chain sel env_of_def found_def)
      (simp add: bv_env_def bv_node_def)
  have better: "proofQualityHash wc_crypto (Some pb_block) < proofQualityHash wc_crypto (Some pb_tip)"
    by (simp add: proofQualityHash_def zero_hash_def)
  show ?thesis
    using better_proof_is_dropped [OF p2p, of "pb_node d" pb_tip 0 wc_genesis pb_block pb_header "pb_header\<lparr>h_Extra := [1]\<rparr>"]
      d chain sel mined better pb_valid
    by (intro exI [of _ d]) auto
qed

text \<open>
  C35: the selection among candidates does not depend on their order: two miners with the same candidates,
  each with its own tip among them, find strongest blocks of the same hash, whatever the order in which the
  peers answered and however many of the candidates are invalid. It is assumed that both tips are valid and
  that the two nodes agree on the validity of every block, which their clocks and checkpoints can prevent.
\<close>

theorem miners_agree_on_the_tip:
  assumes "validateProtocolCandidate B (pn_chain n) tip parent = Inr ()" "validateProtocolCandidate B' (pn_chain n') tip' parent = Inr ()"
    and "\<And>b. validateProtocolCandidate B (pn_chain n) b parent = Inr () \<longleftrightarrow> validateProtocolCandidate B' (pn_chain n') b parent = Inr ()"
    and "insert tip (set bs) = insert tip' (set bs')" "bk_crypto B' = bk_crypto B"
  shows "\<exists>s s' m m'. strongestProtocolBlock B parent (tip # bs) n = (Inr s, m) \<and> strongestProtocolBlock B' parent (tip' # bs') n' = (Inr s', m')
    \<and> Block_Hash (bk_crypto B) s = Block_Hash (bk_crypto B) s'"
proof -
  let ?v = "\<lambda>b. validateProtocolCandidate B (pn_chain n) b parent = Inr ()" and ?C = "bk_crypto B"
  let ?s = "foldl (better_of ?C) tip (filter ?v bs)" and ?s' = "foldl (better_of ?C) tip' (filter ?v bs')"
  have v': "validateProtocolCandidate B' (pn_chain n') b parent = Inr () \<longleftrightarrow> ?v b" for b using assms(3) by blast
  obtain m where m: "strongestProtocolBlock B parent (tip # bs) n = (Inr ?s, m)"
    using strongest_of_fold [OF assms(1), of bs] assms(1) by (auto simp: strongestProtocolBlock_def)
  obtain m' where m': "strongestProtocolBlock B' parent (tip' # bs') n' = (Inr ?s', m')"
    using strongest_of_fold [OF assms(2), of bs'] assms(2,5) by (auto simp: strongestProtocolBlock_def v')
  have hdr: "b_Header b \<noteq> None" if "?v b" for b using that by (auto elim: validated_candidate)
  have tips: "?v tip" "?v tip'" using assms(1,2) v' by auto
  have same: "insert tip (set (filter ?v bs)) = insert tip' (set (filter ?v bs'))"
  proof -
    have "insert tip (set (filter ?v bs)) = {b \<in> insert tip (set bs). ?v b}" using tips by auto
    also have "\<dots> = {b \<in> insert tip' (set bs'). ?v b}" using assms(4) by simp
    finally show ?thesis using tips by auto
  qed
  have k: "b_Header ?s \<noteq> None" "fork_key ?C ?s = Max (fork_key ?C ` insert tip (set (filter ?v bs)))"
    using hdr tips by (intro better_of_fold; auto)+
  have k': "b_Header ?s' \<noteq> None" "fork_key ?C ?s' = Max (fork_key ?C ` insert tip' (set (filter ?v bs')))"
    using hdr tips by (intro better_of_fold; auto)+
  have "fork_key ?C ?s = fork_key ?C ?s'" unfolding k(2) k'(2) same ..
  moreover obtain h h' where "b_Header ?s = Some h" "b_Header ?s' = Some h'" using k(1) k'(1) by blast
  ultimately have "Block_Hash ?C ?s = Block_Hash ?C ?s'" by (intro key_determines_hash)
  with m m' show ?thesis by blast
qed

definition wc_node :: "(bytes \<Rightarrow> bytes option) \<Rightarrow> ((bytes, bytes) alist, bytes \<Rightarrow> bytes option) blockchain reorg_manager p2p_node" where
  "wc_node d = \<lparr>pn_sync = young_node d, pn_orphans = Map.empty, pn_candidates = \<lambda>_. Map.empty\<rparr>"

theorem miners_agree_on_the_tip_witness:
  "\<exists>s s' m m'. strongestProtocolBlock wc_block_env (Some wc_genesis) [wc_block, valid_rival] (wc_node Map.empty) = (Inr s, m)
    \<and> strongestProtocolBlock wc_block_env (Some wc_genesis) [valid_rival, wc_block] (wc_node Map.empty) = (Inr s', m')
    \<and> Block_Hash (bk_crypto wc_block_env) s = Block_Hash (bk_crypto wc_block_env) s'"
  by (rule miners_agree_on_the_tip [OF wc_valid_candidates]) auto

text \<open>
  C36: gossip adds only what has been checked: if a block that needs no synchronisation changes the chain, then it
  has passed the validation of mined blocks, and it extends the tip by the protocol, or it beat the block of
  its height, or the chain is synchronising and the block follows a canonical one.
\<close>

theorem gossip_adds_only_checked_blocks:
  assumes "processBlock B blk n = Some (r, n')" "pn_chain n' \<noteq> pn_chain n" "b_Header blk = Some h" "blk_number blk = Some num"
    and "num \<le> currentHeight (bk_p2p B) (pn_chain n) \<or> num = currentHeight (bk_p2p B) (pn_chain n) + 1
      \<and> pc_HasBlock (bk_ops B) (pn_chain n) (h_ParentHash h)"
    and "currentHeight (bk_p2p B) (pn_chain n) \<noteq> - 1"
  shows "pc_Mined (bk_ops B) (pn_chain n) blk
    \<and> (validateProtocolCandidate B (pn_chain n) blk (pc_Latest (bk_ops B) (pn_chain n)) = Inr ()
      \<or> (\<exists>old lost. pc_GetBlock (bk_ops B) (pn_chain n) num = Some old
          \<and> selectProtocolBlock B (pn_chain n) old blk (pc_GetBlock (bk_ops B) (pn_chain n) (num - 1)) = Inr (blk, lost))
      \<or> pc_IsSyncing (bk_ops B) (pn_chain n) \<and> map_option (Block_Hash (bk_crypto B)) (pc_GetBlock (bk_ops B) (pn_chain n) (num - 1))
          = Some (h_ParentHash h))"
proof -
  have low: "\<not> num > currentHeight (bk_p2p B) (pn_chain n) + 1" "num > currentHeight (bk_p2p B) (pn_chain n) \<Longrightarrow> pc_HasBlock (bk_ops B) (pn_chain n) (h_ParentHash h)"
    using assms(5) u64_succ(1) [of "currentHeight (bk_p2p B) (pn_chain n)" "currentHeight (bk_p2p B) (pn_chain n)"] assms(6) by auto
  show ?thesis
    using assms(1,2) low unfolding processBlock_def
    by (auto simp: Let_def assms(3,4) dest: extend_tip_changes compete_changes gap_block_changes split: if_splits option.splits)
qed

theorem gossip_adds_only_checked_blocks_witness:
  "processBlock short_env wc_block (short_node False) = Some (Inr (), with_chain True (short_node False))
    \<and> pc_Mined short_ops False wc_block"
proof
  show step: "processBlock short_env wc_block (short_node False) = Some (Inr (), with_chain True (short_node False))"
    by (rule short_step)
  have "pn_chain (with_chain True (short_node False)) \<noteq> pn_chain (short_node False)"
    by (simp add: with_chain_def on_sync_def on_chain_def)
  from gossip_adds_only_checked_blocks [OF step this wc_sel(1) wc_numbers(2)]
  show "pc_Mined short_ops False wc_block" by (simp add: short_ops_def wc_sel)
qed

text \<open>
  A node that has lost its tip does not come back by gossip: it holds the genesis block, but the first block
  after it is neither an extension of the tip, which is missing, nor an orphan, nor a competitor, nor ahead;
  it is refused as unexpected.
\<close>

theorem emptied_node_refuses_the_first_block:
  assumes "bk_ops B = node_chain X M ck say" "bc_latest (rm_chain (pn_chain n)) = None" "\<not> bc_syncing (rm_chain (pn_chain n))"
    and "b_Header blk = Some h" "blk_number blk = Some 1" "h_ParentHash h \<noteq> zero_hash"
    and "HasBlock X (bc_db (rm_chain (pn_chain n))) (h_ParentHash h)"
    and "GetBlock (ce_pebble X) (ce_rlp X) (bc_db (rm_chain (pn_chain n))) 1 = Inr None"
  shows "processBlock B blk n = Some (Inl PE_Unexpected, n)"
  using assms by (simp add: processBlock_def Let_def found_def LatestHash_def currentHeight_def)

definition tipless_node :: "(bytes \<Rightarrow> bytes option) \<Rightarrow> ((bytes, bytes) alist, bytes \<Rightarrow> bytes option) blockchain reorg_manager p2p_node" where
  "tipless_node d = with_chain (NewReorgManager ((wc_chain d)\<lparr>bc_latest := None\<rparr>)) (wc_node d)"

theorem emptied_node_refuses_the_first_block_witness:
  "\<exists>d. processBlock wc_block_env wc_block (tipless_node d) = Some (Inl PE_Unexpected, tipless_node d)"
proof -
  obtain d where d: "view map_pebble (table_codec [wc_genesis, wc_block]) d = wc_view" using wc_db by blast
  have chain: "rm_chain (pn_chain (tipless_node d)) = (wc_chain d)\<lparr>bc_latest := None\<rparr>"
    by (simp add: tipless_node_def with_chain_def on_sync_def on_chain_def NewReorgManager_def)
  have "db_HasBlock map_pebble d 696 = Inr True"
    using wc_reads(1) [OF d, of 696] by (simp add: ReadBlockByHash_def db_HasBlock_def map_pebble_def split: option.splits)
  then have "processBlock wc_block_env wc_block (tipless_node d) = Some (Inl PE_Unexpected, tipless_node d)"
    by (intro emptied_node_refuses_the_first_block [where X = wc_env and M = "manager_env wc_env 0 (\<lambda>x. x)" and ck = "\<lambda>_ _. True"
          and say = "\<lambda>_. []" and h = wc_header])
      (simp_all add: chain wc_block_env_def table_env_def wc_ops_def wc_sel zero_hash_def HasBlock_def GetBlock_def wc_reads [OF d])
  then show ?thesis by blast
qed

end
