(* ===== verification/Peer_Kings.thy ===== *)
theory Peer_Kings
  imports Rotating_King Ban_Manager
begin

text \<open>
  The exchange of the list of kings and of its database between nodes (\<open>antdc/p2p/p2p.go\<close>): list updates,
  rotation events, configurations, database responses, and the comparison of the lists of all peers.

  The result \<open>None\<close> of an operation is a panic, which ends the process. JSON is a parameter, and so are the height
  of the chain, the clock and the orders in which maps are iterated. What a node sends is recorded in
  \<open>kn_sent\<close>; requests for data, metrics and waiting are left out. The manager has no \<open>GetConfig\<close>, so
  configurations are built from its addresses. The unstable sorts of the code are stable ones here.
\<close>

section \<open>State\<close>

record rate_limiter =
  rl_count :: int
  rl_resetTime :: int

record list_event =
  le_BlockHeight :: u64
  le_NewList :: "address list"

record rotation_event =
  re_BlockHeight :: u64
  re_NewKing :: address
  re_Eligible :: bool

record db_request =
  dq_RequestID :: string
  dq_FromHeight :: u64
  dq_ToHeight :: u64
  dq_RequestType :: string
  dq_Timestamp :: int
  dq_PeerID :: string
  dq_TargetPeerID :: string

record db_response =
  ds_RequestID :: string
  ds_Status :: string
  ds_Rotations :: "king_rotation list"
  ds_Config :: "king_config option"
  ds_LatestBlock :: u64
  ds_Timestamp :: int
  ds_PeerID :: string
  ds_TargetPeerID :: string

record db_status =
  dt_PeerID :: string
  dt_LastSyncedBlock :: u64
  dt_IsSyncing :: bool
  dt_Version :: string

datatype king_sent =
    Sent_List u64 "address list"
  | Sent_Config peer king_config
  | Sent_Response peer db_response

record king_node =
  kn_manager :: "king_manager option"
  kn_lastKingList :: "address list"
  kn_rates :: "peer \<Rightarrow> rate_limiter option"
  kn_requests :: "(string \<times> db_request) list"
  kn_responses :: "(string \<times> db_response) list"
  kn_peers :: "(string \<times> db_status) list"
  kn_sent :: "king_sent list"

text \<open>
  A value in the JSON of a configuration: a list of texts (other entries are none), a whole number, a text,
  or something else.
\<close>

datatype json_field = J_List "string option list" | J_Number int | J_String string | J_Other

text \<open>
  \<open>kx_config\<close> reads the fields of a message of the type \<open>king_config\<close>; the value is none for other messages, and
  none inside if it has no configuration. \<open>kx_history\<close> is the stored history between two heights.
\<close>

record king_net =
  kx_written :: "king_write \<Rightarrow> bool"
  kx_broadcaster :: bool
  kx_now :: int
  kx_height :: u64
  kx_self :: peer
  kx_peers :: "peer list"
  kx_enabled :: bool
  kx_version :: string
  kx_crypto :: crypto
  kx_list_event :: "bytes \<Rightarrow> list_event option"
  kx_rotation_event :: "bytes \<Rightarrow> rotation_event option"
  kx_rotation :: "bytes \<Rightarrow> king_rotation option"
  kx_config :: "bytes \<Rightarrow> (string \<Rightarrow> json_field option) option option"
  kx_request :: "bytes \<Rightarrow> db_request option"
  kx_response :: "bytes \<Rightarrow> db_response option"
  kx_status :: "bytes \<Rightarrow> db_status option"
  kx_announce :: "bytes \<Rightarrow> string option"
  kx_history :: "u64 \<Rightarrow> u64 \<Rightarrow> king_rotation list option"
  kx_order :: "address list \<Rightarrow> address list"
  kx_list_order :: "(string \<times> address list) list \<Rightarrow> (string \<times> address list) list"

section \<open>Rate limits\<close>

text \<open>The counter of a peer, reset when more than a second has passed since the last reset.\<close>

definition count_event :: "int \<Rightarrow> rate_limiter option \<Rightarrow> rate_limiter" where
  "count_event now r =
     (let r0 = (case r of None \<Rightarrow> \<lparr>rl_count = 0, rl_resetTime = now\<rparr>
                | Some x \<Rightarrow> if now - rl_resetTime x > second then \<lparr>rl_count = 0, rl_resetTime = now\<rparr> else x)
      in r0\<lparr>rl_count := rl_count r0 + 1\<rparr>)"

definition allowEventFromPeer :: "king_net \<Rightarrow> peer \<Rightarrow> king_node \<Rightarrow> bool \<times> king_node" where
  "allowEventFromPeer E p n =
     (let r = count_event (kx_now E) (kn_rates n p)
      in (rl_count r \<le> 5, n\<lparr>kn_rates := (kn_rates n)(p \<mapsto> r)\<rparr>))"

section \<open>Lists of addresses\<close>

definition areAddressListsEqual :: "address list \<Rightarrow> address list \<Rightarrow> bool" where
  "areAddressListsEqual a b \<longleftrightarrow> length a = length b \<and> list_all (\<lambda>(x, y). x = y) (zip a b)"

definition mergeAddressLists :: "address list \<Rightarrow> address list \<Rightarrow> address list" where
  "mergeAddressLists list1 list2 = fold (\<lambda>a merged. if a \<in> set merged then merged else merged @ [a]) (list1 @ list2) []"

definition findMissingAddresses :: "address list \<Rightarrow> address list \<Rightarrow> address list" where
  "findMissingAddresses source target = filter (\<lambda>t. \<not> list_ex (\<lambda>s. s = t) source) target"

definition addressInList :: "address \<Rightarrow> address list \<Rightarrow> bool" where
  "addressInList addr xs = list_ex (\<lambda>a. a = addr) xs"

section \<open>The own list\<close>

definition GetKingAddresses :: "king_manager \<Rightarrow> address list" where
  "GetKingAddresses m = kc_KingAddresses (km_config m)"

definition getCurrentKingConfig :: "king_manager \<Rightarrow> king_config" where
  "getCurrentKingConfig m =
     (if GetKingAddresses m = [] then DefaultRotatingKingConfig
      else DefaultRotatingKingConfig\<lparr>kc_KingAddresses := GetKingAddresses m\<rparr>)"

text \<open>A list of at least two kings is published, except at height 0; every peer gets the configuration.\<close>

definition BroadcastCurrentKingConfig :: "king_net \<Rightarrow> king_node \<Rightarrow> king_node" where
  "BroadcastCurrentKingConfig E n =
     (case kn_manager n of
        None \<Rightarrow> n
      | Some m \<Rightarrow>
          if GetKingAddresses m = [] then n
          else n\<lparr>kn_sent := kn_sent n
            @ (if length (GetKingAddresses m) \<ge> 2 \<and> kx_height E \<noteq> 0 then [Sent_List (kx_height E) (GetKingAddresses m)] else [])
            @ map (\<lambda>p. Sent_Config p (getCurrentKingConfig m)) (kx_peers E)\<rparr>)"

definition detectAndBroadcastKingListChanges :: "king_net \<Rightarrow> king_node \<Rightarrow> king_node" where
  "detectAndBroadcastKingListChanges E n =
     (case kn_manager n of
        None \<Rightarrow> n
      | Some m \<Rightarrow>
          if areAddressListsEqual (kn_lastKingList n) (GetKingAddresses m) then n
          else BroadcastCurrentKingConfig E (n\<lparr>kn_lastKingList := GetKingAddresses m\<rparr>))"

text \<open>\<open>UpdateKingAddresses\<close> of the manager: whether it succeeded.\<close>

definition update_kings :: "king_net \<Rightarrow> address list \<Rightarrow> king_node \<Rightarrow> (bool \<times> king_node) option" where
  "update_kings E addrs n =
     (case kn_manager n of
        None \<Rightarrow> Some (False, n)
      | Some m \<Rightarrow>
          (case UpdateKingAddresses (kx_written E) (kx_broadcaster E) m addrs of
             (r, m') \<Rightarrow> if r = Inl King_Panic then None else Some (r = Inr (), n\<lparr>kn_manager := Some m'\<rparr>)))"

definition update_and_broadcast :: "king_net \<Rightarrow> address list \<Rightarrow> king_node \<Rightarrow> king_node option" where
  "update_and_broadcast E addrs n =
     map_option (\<lambda>(ok, n'). if ok then BroadcastCurrentKingConfig E n' else n') (update_kings E addrs n)"

section \<open>Updates of the list\<close>

definition apply_merged :: "king_net \<Rightarrow> address list \<Rightarrow> king_manager \<Rightarrow> king_node \<Rightarrow> king_node option" where
  "apply_merged E newList m n =
     (let currentList = GetKingAddresses m; mergedList = mergeAddressLists currentList newList in
      if length mergedList = length currentList \<and> areAddressListsEqual currentList mergedList then Some n
      else map_option snd (update_kings E mergedList n))"

text \<open>The king topic: updates from the last 100 heights to 10 heights ahead, and those of height 0.\<close>

definition handleKingListUpdate :: "king_net \<Rightarrow> peer \<Rightarrow> bytes \<Rightarrow> king_node \<Rightarrow> king_node option" where
  "handleKingListUpdate E p data n =
     (if length data < 2 then Some n
      else (case allowEventFromPeer E p n of
        (False, n1) \<Rightarrow> Some n1
      | (True, n1) \<Rightarrow>
     (case kx_list_event E (tl data) of
        None \<Rightarrow> Some n1
      | Some event \<Rightarrow>
     (case kn_manager n1 of
        None \<Rightarrow> Some n1
      | Some m \<Rightarrow>
          let h = kx_height E; e = le_BlockHeight event; minValidHeight = (if h > 100 then h - 100 else 0) in
          if e > 0 \<and> (e < minValidHeight \<or> e > h + 10) then Some n1
          else apply_merged E (le_NewList event) m n1))))"

text \<open>The same message on the main topic (\<open>handleMessages\<close>), where the height does not matter.\<close>

definition main_list_update :: "king_net \<Rightarrow> peer \<Rightarrow> bytes \<Rightarrow> king_node \<Rightarrow> king_node option" where
  "main_list_update E p data n =
     (if length data < 100 then Some n
      else (case allowEventFromPeer E p n of
        (False, n1) \<Rightarrow> Some n1
      | (True, n1) \<Rightarrow>
          (case (kx_list_event E (tl data), kn_manager n1) of
             (Some event, Some m) \<Rightarrow> apply_merged E (le_NewList event) m n1
           | _ \<Rightarrow> Some n1)))"

section \<open>Rotations from other nodes\<close>

definition processKingRotation :: "king_net \<Rightarrow> king_rotation \<Rightarrow> king_node \<Rightarrow> king_node" where
  "processKingRotation E r n = n\<lparr>kn_manager := map_option (saveEvent (kx_written E) r) (kn_manager n)\<rparr>"

definition processKingRotationEvent :: "king_net \<Rightarrow> rotation_event \<Rightarrow> king_node \<Rightarrow> king_node option" where
  "processKingRotationEvent E event n =
     (if re_BlockHeight event = 0 then Some n
      else (case kn_manager n of
        None \<Rightarrow> Some n
      | Some m \<Rightarrow>
          if re_BlockHeight event \<noteq> kx_height E \<and> re_BlockHeight event \<noteq> kx_height E + 1 then Some n
          else (case IsEligible m of
                  None \<Rightarrow> None
                | Some localEligible \<Rightarrow>
                    if localEligible \<noteq> re_Eligible event then Some n
                    else (case ForceRotateToAddress (kx_written E) (kx_now E) m (re_NewKing event) of
                            (r, m') \<Rightarrow> if r = Inl King_Panic then None else Some (n\<lparr>kn_manager := Some m'\<rparr>)))))"

definition handleKingRotation :: "king_net \<Rightarrow> peer \<Rightarrow> bytes \<Rightarrow> king_node \<Rightarrow> king_node option" where
  "handleKingRotation E p data n =
     (if length data < 100 then Some n
      else (case allowEventFromPeer E p n of
        (False, n1) \<Rightarrow> Some n1
      | (True, n1) \<Rightarrow>
          (case kx_rotation_event E (tl data) of
             Some event \<Rightarrow> processKingRotationEvent E event n1
           | None \<Rightarrow>
               (case kx_rotation E (tl data) of
                  None \<Rightarrow> Some n1
                | Some r \<Rightarrow> if kr_BlockHeight r = 0 then Some n1 else Some (processKingRotation E r n1)))))"

section \<open>Configurations\<close>

text \<open>\<open>float64\<close> to \<open>uint64\<close>: the number itself in the range of whole numbers considered here.\<close>

definition number_field :: "(string \<Rightarrow> json_field option) \<Rightarrow> string \<Rightarrow> string \<Rightarrow> u64 \<Rightarrow> u64" where
  "number_field f name1 name2 fallback =
     (case f name1 of
        Some (J_Number i) \<Rightarrow> word_of_int i
      | _ \<Rightarrow> (case f name2 of Some (J_Number i) \<Rightarrow> word_of_int i | _ \<Rightarrow> fallback))"

definition parse_addresses :: "crypto \<Rightarrow> string option list \<Rightarrow> address list" where
  "parse_addresses C items =
     concat (map (\<lambda>x. case x of
        None \<Rightarrow> []
      | Some s \<Rightarrow> (case ParseQuantumAddress C s of Inl _ \<Rightarrow> [] | Inr a \<Rightarrow> [a])) items)"

definition parseKingConfig :: "crypto \<Rightarrow> (string \<Rightarrow> json_field option) \<Rightarrow> king_config" where
  "parseKingConfig C f =
     \<lparr>kc_RotationInterval = number_field f ''RotationInterval'' ''rotationInterval'' 100,
      kc_RotationOffset = number_field f ''RotationOffset'' ''rotationOffset'' 0,
      kc_KingAddresses =
        (case f ''KingAddresses'' of
           Some (J_List xs) \<Rightarrow> parse_addresses C xs
         | _ \<Rightarrow> (case f ''kingAddresses'' of
             Some (J_List xs) \<Rightarrow> parse_addresses C xs
           | _ \<Rightarrow> (case f ''addresses'' of Some (J_List xs) \<Rightarrow> parse_addresses C xs | _ \<Rightarrow> []))),
      kc_ActivationDelay = number_field f ''ActivationDelay'' ''activationDelay'' 2,
      kc_MinStakeRequired =
        (case (case f ''MinStakeRequired'' of
                 Some (J_String s) \<Rightarrow> parse_int s
               | _ \<Rightarrow> (case f ''minStakeRequired'' of Some (J_String s) \<Rightarrow> parse_int s | _ \<Rightarrow> None)) of
           None \<Rightarrow> EligibilityThreshold | Some v \<Rightarrow> v)\<rparr>"

text \<open>A longer list replaces the own one; a different one of the same length is merged.\<close>

definition applyKingConfiguration :: "king_net \<Rightarrow> king_config \<Rightarrow> king_node \<Rightarrow> king_node option" where
  "applyKingConfiguration E config n =
     (let new = kc_KingAddresses config in
      case kn_manager n of
        None \<Rightarrow> Some n
      | Some m \<Rightarrow>
          let currentList = GetKingAddresses m in
          if new = [] then Some n
          else if length new > length currentList then
            map_option (\<lambda>(ok, n'). if ok then detectAndBroadcastKingListChanges E (BroadcastCurrentKingConfig E n') else n')
              (update_kings E new n)
          else if length new = length currentList \<and> \<not> areAddressListsEqual currentList new then
            (let mergedList = mergeAddressLists currentList new in
             if length mergedList > length currentList then update_and_broadcast E mergedList n else Some n)
          else Some n)"

definition handleKingConfig :: "king_net \<Rightarrow> (string \<Rightarrow> json_field option) option \<Rightarrow> king_node \<Rightarrow> king_node option" where
  "handleKingConfig E config n =
     (case config of None \<Rightarrow> Some n | Some f \<Rightarrow> applyKingConfiguration E (parseKingConfig (kx_crypto E) f) n)"

definition handleKingMessages :: "king_net \<Rightarrow> peer \<Rightarrow> bytes \<Rightarrow> king_node \<Rightarrow> king_node option" where
  "handleKingMessages E p data n =
     (case data of
        [] \<Rightarrow> Some n
      | t # rest \<Rightarrow>
          if p = kx_self E then Some n
          else if t = 0x04 then
            (case kx_config E rest of
               Some config \<Rightarrow> handleKingConfig E config n
             | None \<Rightarrow> handleKingListUpdate E p data n)
          else if t = 0x03 then handleKingRotation E p data n
          else Some n)"

text \<open>Two further ways to take a configuration over; nothing calls them.\<close>

definition processReceivedConfig :: "king_net \<Rightarrow> king_config \<Rightarrow> king_node \<Rightarrow> king_node option" where
  "processReceivedConfig E config n =
     (case kn_manager n of
        None \<Rightarrow> Some n
      | Some m \<Rightarrow>
          if kc_KingAddresses config = [] \<or> areAddressListsEqual (GetKingAddresses m) (kc_KingAddresses config) then Some n
          else map_option snd (update_kings E (kc_KingAddresses config) n))"

definition applyKingConfig :: "king_net \<Rightarrow> king_config \<Rightarrow> king_node \<Rightarrow> king_node option" where
  "applyKingConfig E config n =
     (case kn_manager n of
        None \<Rightarrow> Some n
      | Some m \<Rightarrow>
          if areAddressListsEqual (GetKingAddresses m) (kc_KingAddresses config) then Some n
          else map_option snd (update_kings E (kc_KingAddresses config) n))"

section \<open>The database of rotations\<close>

text \<open>A slice of the first eight bytes of a text that is shorter panics.\<close>

definition short_id_ok :: "string \<Rightarrow> bool" where
  "short_id_ok s \<longleftrightarrow> length s \<ge> 8"

definition processReceivedRotations :: "king_net \<Rightarrow> king_rotation list \<Rightarrow> string \<Rightarrow> king_node \<Rightarrow> king_node option" where
  "processReceivedRotations E rotations sourcePeer n =
     (if rotations = [] then Some n
      else if \<not> short_id_ok sourcePeer then None
      else (case kn_manager n of
              None \<Rightarrow> Some n
            | Some m \<Rightarrow>
                Some (n\<lparr>kn_manager := Some (fold (\<lambda>r m. if kr_BlockHeight r > kx_height E + 10 then m else saveEvent (kx_written E) r m)
                  (sort_key kr_BlockHeight rotations) m)\<rparr>)))"

definition markDBSyncHeight :: "king_net \<Rightarrow> u64 \<Rightarrow> king_node \<Rightarrow> king_node" where
  "markDBSyncHeight E height n =
     (let h = min height (kx_height E) in
      case kn_manager n of
        None \<Rightarrow> n
      | Some m \<Rightarrow>
          if h = 0 \<or> (case km_sync m of None \<Rightarrow> False | Some s \<Rightarrow> ky_LastSyncedBlock s \<ge> h) \<or> \<not> kx_written E W_Sync then n
          else n\<lparr>kn_manager := Some (m\<lparr>km_sync := Some \<lparr>ky_LastSyncedBlock = h, ky_TotalBlocks = kx_height E\<rparr>\<rparr>)\<rparr>)"

text \<open>Requests and responses older than ten minutes leave the cache.\<close>

definition pruneDBSyncCacheLocked :: "int \<Rightarrow> king_node \<Rightarrow> king_node" where
  "pruneDBSyncCacheLocked beforeUnix n =
     n\<lparr>kn_requests := filter (\<lambda>(k, q). \<not> dq_Timestamp q < beforeUnix) (kn_requests n),
       kn_responses := filter (\<lambda>(k, r). \<not> ds_Timestamp r < beforeUnix) (kn_responses n)\<rparr>"

definition unix_of :: "int \<Rightarrow> int" where
  "unix_of t = t div second"

definition not_for_us :: "king_net \<Rightarrow> string \<Rightarrow> bool" where
  "not_for_us E target \<longleftrightarrow> target \<noteq> [] \<and> target \<noteq> kx_self E"

text \<open>A response is taken whether or not it was asked for.\<close>

definition handleDBSyncResponse :: "king_net \<Rightarrow> peer \<Rightarrow> bytes \<Rightarrow> king_node \<Rightarrow> king_node option" where
  "handleDBSyncResponse E p data n =
     (case kx_response E (tl data) of
        None \<Rightarrow> Some n
      | Some resp0 \<Rightarrow>
          if not_for_us E (ds_TargetPeerID resp0) then Some n
          else
     (let resp = (if ds_PeerID resp0 = [] then resp0\<lparr>ds_PeerID := p\<rparr> else resp0);
          n1 = pruneDBSyncCacheLocked (unix_of (kx_now E - 10 * minute))
                 (n\<lparr>kn_responses := AList.update (ds_RequestID resp) resp (kn_responses n)\<rparr>)
      in case processReceivedRotations E (ds_Rotations resp) (ds_PeerID resp) n1 of
           None \<Rightarrow> None
         | Some n2 \<Rightarrow>
             let n3 = (if ds_Status resp \<in> {''success'', ''partial''} \<and> ds_LatestBlock resp > 0
                       then markDBSyncHeight E (ds_LatestBlock resp) n2 else n2)
             in case (ds_Config resp, kn_manager n3) of
                  (Some config, Some m) \<Rightarrow>
                    (case (if length (kc_KingAddresses config) > length (GetKingAddresses m)
                           then applyKingConfiguration E config n3 else Some n3) of
                       None \<Rightarrow> None
                     | Some n4 \<Rightarrow> applyKingConfiguration E config n4)
                | _ \<Rightarrow> Some n3))"

definition handleDBSyncStatus :: "king_net \<Rightarrow> bytes \<Rightarrow> king_node \<Rightarrow> king_node option" where
  "handleDBSyncStatus E data n =
     (case kx_status E (tl data) of
        None \<Rightarrow> Some n
      | Some st \<Rightarrow>
          if \<not> short_id_ok (dt_PeerID st) then None
          else Some (n\<lparr>kn_peers := AList.update (dt_PeerID st) st (kn_peers n)\<rparr>))"

definition handleDBSyncAnnounce :: "king_net \<Rightarrow> bytes \<Rightarrow> king_node \<Rightarrow> king_node option" where
  "handleDBSyncAnnounce E data n =
     (case kx_announce E (tl data) of
        None \<Rightarrow> Some n
      | Some pid \<Rightarrow> if short_id_ok pid then Some n else None)"

text \<open>The answers to requests.\<close>

definition send_response :: "peer \<Rightarrow> db_response \<Rightarrow> king_node \<Rightarrow> king_node" where
  "send_response p r n =
     (let r' = (if ds_TargetPeerID r = [] \<and> p \<noteq> [] then r\<lparr>ds_TargetPeerID := p\<rparr> else r)
      in n\<lparr>kn_sent := kn_sent n @ [Sent_Response p r']\<rparr>)"

definition error_response :: "king_net \<Rightarrow> peer \<Rightarrow> string \<Rightarrow> db_response" where
  "error_response E p requestID =
     \<lparr>ds_RequestID = requestID, ds_Status = ''error'', ds_Rotations = [], ds_Config = None, ds_LatestBlock = 0,
      ds_Timestamp = unix_of (kx_now E), ds_PeerID = kx_self E, ds_TargetPeerID = p\<rparr>"

definition handleConfigSyncRequest :: "king_net \<Rightarrow> db_request \<Rightarrow> peer \<Rightarrow> king_node \<Rightarrow> king_node" where
  "handleConfigSyncRequest E req requester n =
     (case kn_manager n of
        None \<Rightarrow> send_response requester (error_response E requester (dq_RequestID req)) n
      | Some m \<Rightarrow>
          if GetKingAddresses m = [] then send_response requester (error_response E requester (dq_RequestID req)) n
          else n\<lparr>kn_sent := kn_sent n @ [Sent_Config requester
                 \<lparr>kc_RotationInterval = 100, kc_RotationOffset = 0, kc_KingAddresses = GetKingAddresses m, kc_ActivationDelay = 0,
                  kc_MinStakeRequired = EligibilityThreshold\<rparr>]\<rparr>)"

definition processDBSyncRequest :: "king_net \<Rightarrow> db_request \<Rightarrow> peer \<Rightarrow> king_node \<Rightarrow> king_node option" where
  "processDBSyncRequest E req requester n =
     (if \<not> short_id_ok (dq_RequestID req) then None
      else (case kn_manager n of
        None \<Rightarrow> Some (send_response requester (error_response E requester (dq_RequestID req)) n)
      | Some m \<Rightarrow>
          let base = \<lparr>ds_RequestID = dq_RequestID req, ds_Status = ''success'', ds_Rotations = [], ds_Config = None,
                 ds_LatestBlock = kx_height E, ds_Timestamp = unix_of (kx_now E), ds_PeerID = kx_self E,
                 ds_TargetPeerID = dq_PeerID req\<rparr>;
              lo = dq_FromHeight req; hi = dq_ToHeight req;
              maxHeight = (if hi > lo + 1000 then lo + 1000 else hi)
          in if hi < lo then Some (send_response requester (base\<lparr>ds_Status := ''error''\<rparr>) n)
             else (case kx_history E lo maxHeight of
                     None \<Rightarrow> Some (send_response requester (base\<lparr>ds_Status := ''error''\<rparr>) n)
                   | Some rotations \<Rightarrow>
                       Some (send_response requester
                         (base\<lparr>ds_Status := (if maxHeight < hi then ''partial'' else ''success''), ds_Rotations := rotations,
                               ds_Config := Some \<lparr>kc_RotationInterval = 100, kc_RotationOffset = 0,
                                 kc_KingAddresses = GetKingAddresses m, kc_ActivationDelay = 0, kc_MinStakeRequired = EligibilityThreshold\<rparr>,
                               ds_LatestBlock := maxHeight\<rparr>) n))))"

definition handleDBSyncRequest :: "king_net \<Rightarrow> peer \<Rightarrow> bytes \<Rightarrow> king_node \<Rightarrow> king_node option" where
  "handleDBSyncRequest E p data n =
     (if \<not> kx_enabled E then Some n
      else (case kx_request E (tl data) of
        None \<Rightarrow> Some n
      | Some req \<Rightarrow>
          if not_for_us E (dq_TargetPeerID req) then Some n
          else if dq_RequestType req = ''config'' then Some (handleConfigSyncRequest E req p n)
          else if map_of (kn_requests n) (dq_RequestID req) \<noteq> None then
            (if short_id_ok (dq_RequestID req) then Some n else None)
          else processDBSyncRequest E req p (n\<lparr>kn_requests := (dq_RequestID req, req) # kn_requests n\<rparr>)))"

definition handleDBSyncMessages :: "king_net \<Rightarrow> peer \<Rightarrow> bytes \<Rightarrow> king_node \<Rightarrow> king_node option" where
  "handleDBSyncMessages E p data n =
     (case data of
        [] \<Rightarrow> Some n
      | t # rest \<Rightarrow>
          if p = kx_self E then Some n
          else (case allowEventFromPeer E p n of
                  (False, n1) \<Rightarrow> Some n1
                | (True, n1) \<Rightarrow>
                    if t = 0x05 then handleDBSyncRequest E p data n1
                    else if t = 0x06 then handleDBSyncResponse E p data n1
                    else if t = 0x07 then handleDBSyncStatus E data n1
                    else if t = 0x08 then handleDBSyncAnnounce E data n1
                    else Some n1))"

text \<open>The peers to ask: those of the own version that are not synchronising, the most advanced first.\<close>

definition selectSyncPeers :: "king_net \<Rightarrow> int \<Rightarrow> king_node \<Rightarrow> string list" where
  "selectSyncPeers E limit n =
     (let candidates = sort_key (\<lambda>(k, st). - uint (dt_LastSyncedBlock st))
            (filter (\<lambda>(k, st). \<not> dt_IsSyncing st \<and> dt_Version st = kx_version E) (kn_peers n));
          l = (if limit \<le> 0 \<or> limit > int (length candidates) then length candidates else nat limit)
      in map fst (take l candidates))"

text \<open>Whether a new block starts a synchronisation of the database; below height 10 the difference wraps around.\<close>

definition syncDatabaseForNewBlock :: "king_net \<Rightarrow> u64 \<Rightarrow> king_node \<Rightarrow> bool" where
  "syncDatabaseForNewBlock E blockHeight n =
     (kx_enabled E \<and> (case Option.bind (kn_manager n) km_sync of
        None \<Rightarrow> False | Some s \<Rightarrow> ky_LastSyncedBlock s < blockHeight - 10))"

section \<open>Comparing configurations\<close>

definition isConfigurationBetter :: "king_config \<Rightarrow> king_config \<Rightarrow> bool" where
  "isConfigurationBetter peerConfig ourConfig =
     (let a = kc_KingAddresses peerConfig; b = kc_KingAddresses ourConfig
      in length a > length b \<or> length a = length b \<and> \<not> areAddressListsEqual a b)"

definition shouldSyncConfiguration :: "address list \<Rightarrow> address list \<Rightarrow> bool" where
  "shouldSyncConfiguration ours peers = (length ours \<noteq> length peers \<or> \<not> areAddressListsEqual ours peers)"

definition evaluateSyncDecision :: "int \<Rightarrow> int \<Rightarrow> int \<Rightarrow> king_config list \<Rightarrow> string" where
  "evaluateSyncDecision ourCount avgCount maxCount betterConfigs =
     (if ourCount < avgCount - 1 then ''sync_needed''
      else if ourCount > avgCount + 1 then ''broadcast''
      else if list_ex (\<lambda>c. int (length (kc_KingAddresses c)) = ourCount) betterConfigs then ''sync_needed''
      else if maxCount - ourCount > 2 then ''sync_needed''
      else ''ok'')"

text \<open>The configuration with the most addresses in the cache, the first of equals.\<close>

definition best_config :: "king_node \<Rightarrow> king_config option" where
  "best_config n =
     fst (fold (\<lambda>(k, r) (best, count).
            case ds_Config r of
              None \<Rightarrow> (best, count)
            | Some c \<Rightarrow> if length (kc_KingAddresses c) > count then (Some c, length (kc_KingAddresses c)) else (best, count))
          (kn_responses n) (None, 0))"

definition triggerConfigurationSync :: "king_net \<Rightarrow> king_node \<Rightarrow> king_node option" where
  "triggerConfigurationSync E n =
     (case best_config n of
        None \<Rightarrow> Some n
      | Some c \<Rightarrow> map_option snd (update_kings E (kc_KingAddresses c) n))"

text \<open>
  \<open>CheckIfConfigurationSyncNeeded\<close>: the decision over the responses of the last five minutes; a short name
  in one of them panics here too. What it broadcasts is left out.
\<close>

definition recent_config :: "king_net \<Rightarrow> db_response \<Rightarrow> king_config list" where
  "recent_config E r =
     (if unix_of (kx_now E) - ds_Timestamp r > 300 then []
      else (case ds_Config r of Some c \<Rightarrow> if kc_KingAddresses c = [] then [] else [c] | None \<Rightarrow> []))"

definition CheckIfConfigurationSyncNeeded :: "king_net \<Rightarrow> king_node \<Rightarrow> king_node option" where
  "CheckIfConfigurationSyncNeeded E n =
     (case kn_manager n of
        None \<Rightarrow> Some n
      | Some m \<Rightarrow>
          let configs = concat (map (\<lambda>(k, r). recent_config E r) (kn_responses n));
              ours = DefaultRotatingKingConfig\<lparr>kc_KingAddresses := GetKingAddresses m\<rparr>;
              counts = map (\<lambda>c. int (length (kc_KingAddresses c))) configs
          in if list_ex (\<lambda>(k, r). recent_config E r \<noteq> [] \<and> \<not> short_id_ok (ds_PeerID r)) (kn_responses n) then None
             else if counts = [] then Some n
             else if evaluateSyncDecision (int (length (GetKingAddresses m))) (sum_list counts div int (length counts))
                    (fold max counts 0) (filter (\<lambda>c. isConfigurationBetter c ours) configs) = ''sync_needed''
             then triggerConfigurationSync E n else Some n)"

section \<open>Comparing the lists of all peers\<close>

text \<open>\<open>peerLists\<close>: the lists by peer, the own one included. Every update starts from the own list as it was at the beginning.\<close>

definition list_count :: "(string \<times> address list) list \<Rightarrow> address \<Rightarrow> nat" where
  "list_count peerLists a = sum_list (map (\<lambda>(p, l). count_list l a) peerLists)"

definition unique_addresses :: "(string \<times> address list) list \<Rightarrow> address list" where
  "unique_addresses peerLists = mergeAddressLists (concat (map snd peerLists)) []"

fun largest_list :: "address list \<Rightarrow> bool \<Rightarrow> (string \<times> address list) list \<Rightarrow> address list \<times> bool" where
  "largest_list best theirs [] = (best, theirs)"
| "largest_list best theirs ((p, l) # ls) =
     (if length l > length best then largest_list l True ls else largest_list best theirs ls)"

definition considerCreatingSuperSet :: "king_net \<Rightarrow> address list \<Rightarrow> address list \<Rightarrow> king_node \<Rightarrow> king_node option" where
  "considerCreatingSuperSet E ourList allAddresses n =
     (let missingCount = int (length allAddresses) - int (length ourList) in
      if missingCount > 0 \<and> missingCount > int (length allAddresses) div 5
      then update_and_broadcast E (mergeAddressLists ourList allAddresses) n else Some n)"

definition merge_largest :: "king_net \<Rightarrow> address list \<Rightarrow> (string \<times> address list) list \<Rightarrow> king_node \<Rightarrow> king_node option" where
  "merge_largest E ourList peerLists n =
     (case largest_list ourList False (kx_list_order E peerLists) of
        (largest, theirs) \<Rightarrow>
          let mergedList = mergeAddressLists ourList largest in
          if theirs \<and> length mergedList > length ourList then update_and_broadcast E mergedList n else Some n)"

definition add_consensus :: "king_net \<Rightarrow> address list \<Rightarrow> address list \<Rightarrow> king_node \<Rightarrow> king_node option" where
  "add_consensus E ourList consensus n =
     (let missing = findMissingAddresses ourList consensus in
      if missing \<noteq> [] then update_and_broadcast E (ourList @ missing) n else Some n)"

definition analyzeAndMergeKingLists ::
    "king_net \<Rightarrow> address list \<Rightarrow> (string \<times> address list) list \<Rightarrow> king_node \<Rightarrow> king_node option" where
  "analyzeAndMergeKingLists E ourList peerLists n =
     (if length peerLists < 2 then Some n
      else
        let allUnique = kx_order E (unique_addresses peerLists);
            consensus = filter (\<lambda>a. list_count peerLists a \<ge> length peerLists div 2 + 1) allUnique
        in Option.bind (Option.bind (merge_largest E ourList peerLists n) (add_consensus E ourList consensus))
             (\<lambda>n'. if length allUnique > length ourList then considerCreatingSuperSet E ourList allUnique n' else Some n'))"

section \<open>Emergencies\<close>

text \<open>The first cached configuration of at least two kings, or the main king alone.\<close>

definition applyEmergencyDefaultConfiguration :: "king_net \<Rightarrow> king_node \<Rightarrow> king_node option" where
  "applyEmergencyDefaultConfiguration E n =
     (let cached = find (\<lambda>(k, r). case ds_Config r of None \<Rightarrow> False | Some c \<Rightarrow> length (kc_KingAddresses c) \<ge> 2) (kn_responses n);
          addrs = (case Option.bind cached (\<lambda>(k, r). ds_Config r) of
             Some c \<Rightarrow> kc_KingAddresses c
           | None \<Rightarrow> parse_addresses (kx_crypto E) [Some ''0qANA3c85k94LTyTXLGDdEzmLE32b1qhYZF''])
      in update_and_broadcast E addrs n)"

text \<open>The health check: \<open>None\<close> in the first component means that an emergency is raised.\<close>

definition healthCheckRotatingKingConfig :: "king_net \<Rightarrow> king_node \<Rightarrow> (bool \<times> king_node) option" where
  "healthCheckRotatingKingConfig E n =
     (case kn_manager n of
        None \<Rightarrow> Some (False, n)
      | Some m \<Rightarrow>
          (case GetCurrentKing m of
             None \<Rightarrow> None
           | Some currentKing \<Rightarrow>
               let currentList = GetKingAddresses m in
               if length currentList < 2 then Some (True, n)
               else if addressInList currentKing currentList then Some (False, BroadcastCurrentKingConfig E n)
               else if currentKing = zero_address then Some (False, n)
               else (case ForceRotateToAddress (kx_written E) (kx_now E) m (hd currentList) of
                       (r, m') \<Rightarrow> if r = Inl King_Panic then None else Some (False, n\<lparr>kn_manager := Some m'\<rparr>))))"

definition checkAndSyncKingConfig :: "king_net \<Rightarrow> king_node \<Rightarrow> (bool \<times> king_node) option" where
  "checkAndSyncKingConfig E n =
     (case kn_manager n of
        None \<Rightarrow> Some (False, n)
      | Some m \<Rightarrow>
          (case GetCurrentKing m of
             None \<Rightarrow> None
           | Some king \<Rightarrow>
               Some (king = zero_address, if length (GetKingAddresses m) < 2 then BroadcastCurrentKingConfig E n else n)))"

section \<open>Merging\<close>

lemma lists_equal_iff [simp]: "areAddressListsEqual a b \<longleftrightarrow> a = b"
proof -
  have "areAddressListsEqual a b \<longleftrightarrow> list_all2 (=) a b" by (simp add: areAddressListsEqual_def list_all2_iff list_all_iff)
  then show ?thesis by (simp add: list.rel_eq)
qed

lemma merge_step:
  "set (fold (\<lambda>a m. if a \<in> set m then m else m @ [a]) xs m) = set m \<union> set xs"
  "distinct m \<Longrightarrow> distinct (fold (\<lambda>a m. if a \<in> set m then m else m @ [a]) xs m)"
  "set xs \<subseteq> set m \<Longrightarrow> fold (\<lambda>a m. if a \<in> set m then m else m @ [a]) xs m = m"
  "distinct (m @ xs) \<Longrightarrow> fold (\<lambda>a m. if a \<in> set m then m else m @ [a]) xs m = m @ xs"
  by (induction xs arbitrary: m) auto

lemma set_merge [simp]: "set (mergeAddressLists xs ys) = set xs \<union> set ys"
  by (simp add: mergeAddressLists_def merge_step(1))

lemma distinct_merge: "distinct (mergeAddressLists xs ys)"
  by (simp add: mergeAddressLists_def merge_step(2))

lemma merge_subset: "distinct xs \<Longrightarrow> set ys \<subseteq> set xs \<Longrightarrow> mergeAddressLists xs ys = xs"
  by (simp add: mergeAddressLists_def merge_step(3,4))

lemma merge_new: "distinct xs \<Longrightarrow> a \<notin> set xs \<Longrightarrow> mergeAddressLists xs [a] = xs @ [a]"
  by (simp add: mergeAddressLists_def merge_step(4))

section \<open>Updates that are written\<close>

lemma update_written:
  assumes "ks \<noteq> []" "km_bc m \<noteq> None"
  obtains m' where "UpdateKingAddresses (\<lambda>_. True) b m ks = (Inr (), m')" "GetKingAddresses m' = ks" "km_bc m' = km_bc m"
    "ks_CurrentKingIndex (km_state m') =
       (if ks_CurrentKingIndex (km_state m) \<ge> int (length ks) then 0 else ks_CurrentKingIndex (km_state m))"
proof -
  let ?m1 = "snd (saveConfig (\<lambda>_. True) (set_kings ks m))"
  let ?m2 = "snd (saveState (\<lambda>_. True) (clamp_index ?m1))"
  have save: "saveConfig (\<lambda>_. True) x = (True, snd (saveConfig (\<lambda>_. True) x))" "saveState (\<lambda>_. True) x = (True, snd (saveState (\<lambda>_. True) x))" for x
    by (simp_all add: saveConfig_def saveState_def)
  have bc: "km_bc ?m1 = km_bc m" by (simp add: saveConfig_def)
  have "UpdateKingAddresses (\<lambda>_. True) b m ks = (Inr (), ?m2)"
    using assms bc by (subst UpdateKingAddresses_def, subst save(1), subst save(2)) simp
  moreover have "GetKingAddresses ?m2 = ks" by (simp add: GetKingAddresses_def set_kings_def)
  moreover have "km_bc ?m2 = km_bc m" using bc by (simp add: clamp_index_def)
  moreover have "ks_CurrentKingIndex (km_state ?m2) =
      (if ks_CurrentKingIndex (km_state m) \<ge> int (length ks) then 0 else ks_CurrentKingIndex (km_state m))"
    by (simp add: clamp_index_def) (simp add: set_kings_def)
  ultimately show thesis by (rule that)
qed

lemma update_kings_written:
  assumes "kx_written E = (\<lambda>_. True)" "kn_manager n = Some m" "km_bc m \<noteq> None" "ks \<noteq> []"
  obtains m' where "update_kings E ks n = Some (True, n\<lparr>kn_manager := Some m'\<rparr>)" "GetKingAddresses m' = ks" "km_bc m' = km_bc m"
    "ks_CurrentKingIndex (km_state m') =
       (if ks_CurrentKingIndex (km_state m) \<ge> int (length ks) then 0 else ks_CurrentKingIndex (km_state m))"
  by (rule update_written [OF assms(4,3), of "kx_broadcaster E"]) (rule that; simp add: update_kings_def assms)

lemma broadcast_manager [simp]:
  "kn_manager (BroadcastCurrentKingConfig E n) = kn_manager n" "kn_rates (BroadcastCurrentKingConfig E n) = kn_rates n"
  by (simp_all add: BroadcastCurrentKingConfig_def split: option.split)

lemma detect_manager [simp]: "kn_manager (detectAndBroadcastKingListChanges E n) = kn_manager n"
  by (simp add: detectAndBroadcastKingListChanges_def split: option.split)

lemma update_and_broadcast_written:
  assumes "kx_written E = (\<lambda>_. True)" "kn_manager n = Some m" "km_bc m \<noteq> None" "ks \<noteq> []"
  obtains n' m' where "update_and_broadcast E ks n = Some n'" "kn_manager n' = Some m'" "GetKingAddresses m' = ks" "km_bc m' = km_bc m"
proof -
  obtain m' where m': "update_kings E ks n = Some (True, n\<lparr>kn_manager := Some m'\<rparr>)" "GetKingAddresses m' = ks" "km_bc m' = km_bc m"
    by (rule update_kings_written [OF assms])
  show thesis by (rule that [of "BroadcastCurrentKingConfig E (n\<lparr>kn_manager := Some m'\<rparr>)" m']) (simp_all add: update_and_broadcast_def m')
qed

lemma first_event:
  "kn_rates n p = None \<Longrightarrow> allowEventFromPeer E p n = (True, n\<lparr>kn_rates := (kn_rates n)(p \<mapsto> \<lparr>rl_count = 1, rl_resetTime = kx_now E\<rparr>)\<rparr>)"
  by (simp add: allowEventFromPeer_def count_event_def Let_def)

lemma second_event:
  "kn_rates n p = Some \<lparr>rl_count = 1, rl_resetTime = kx_now E\<rparr> \<Longrightarrow>
    allowEventFromPeer E p n = (True, n\<lparr>kn_rates := (kn_rates n)(p \<mapsto> \<lparr>rl_count = 2, rl_resetTime = kx_now E\<rparr>)\<rparr>)"
  by (simp add: allowEventFromPeer_def count_event_def Let_def second_def)

lemma index_of_member: "a \<in> set xs \<Longrightarrow> \<exists>i. index_of a xs = Some i"
  by (induction xs) auto

lemma force_written:
  assumes "a \<in> set (GetKingAddresses m)" "km_bc m \<noteq> None"
  obtains m' where "ForceRotateToAddress (\<lambda>_. True) now m a = (Inr (), m')" "GetCurrentKing m' = Some a"
proof -
  obtain i where i: "index_of a (kc_KingAddresses (km_config m)) = Some i"
    using index_of_member assms(1) by (fastforce simp: GetKingAddresses_def)
  obtain m' where m': "ForceRotateToAddress (\<lambda>_. True) now m a = (Inr (), m')" "km_config m' = km_config m"
      "ks_CurrentKingIndex (km_state m') = int i"
    using assms(2) i by (fastforce simp: ForceRotateToAddress_def saveState_def Let_def)
  have "GetCurrentKing m' = Some a"
    using index_of_Some [OF i] by (auto simp: GetCurrentKing_def king_at_def m')
  with m'(1) that show thesis by blast
qed

text \<open>A new entry at the end does not change who is king.\<close>

lemma eligible_same:
  assumes "king_ok m" "GetKingAddresses m \<noteq> []" "GetKingAddresses m' = GetKingAddresses m @ ks" "km_bc m' = km_bc m"
    and "ks_CurrentKingIndex (km_state m') = ks_CurrentKingIndex (km_state m)"
  shows "IsEligible m' = IsEligible m"
proof -
  have i: "0 \<le> ks_CurrentKingIndex (km_state m)" "ks_CurrentKingIndex (km_state m) < int (length (GetKingAddresses m))"
    using assms(1,2) by (auto simp: king_ok_def Let_def GetKingAddresses_def)
  have "GetCurrentKing m' = GetCurrentKing m"
    using i assms(2,3,5) by (auto simp: GetCurrentKing_def king_at_def GetKingAddresses_def nth_append)
  then show ?thesis using assms(4) by (cases "GetCurrentKing m") (simp_all add: IsEligible_def)
qed

text \<open>A longer list replaces the node's own; applying it once more changes nothing.\<close>

lemma longer_list_applied:
  assumes "kn_manager n = Some m" "km_bc m \<noteq> None" "kx_written E = (\<lambda>_. True)" "length (GetKingAddresses m) < length (kc_KingAddresses c)"
  obtains n' m' where "applyKingConfiguration E c n = Some n'" "kn_manager n' = Some m'" "GetKingAddresses m' = kc_KingAddresses c"
    "applyKingConfiguration E c n' = Some n'"
proof -
  have ne: "kc_KingAddresses c \<noteq> []" using assms(4) by auto
  obtain m' where m': "update_kings E (kc_KingAddresses c) n = Some (True, n\<lparr>kn_manager := Some m'\<rparr>)" "GetKingAddresses m' = kc_KingAddresses c"
    by (rule update_kings_written [OF assms(3,1,2) ne])
  define n' where "n' = detectAndBroadcastKingListChanges E (BroadcastCurrentKingConfig E (n\<lparr>kn_manager := Some m'\<rparr>))"
  have mgr: "kn_manager n' = Some m'" by (simp add: n'_def)
  have "applyKingConfiguration E c n = Some n'"
    using assms(4) ne by (simp add: applyKingConfiguration_def assms(1) m'(1) n'_def Let_def)
  moreover have "applyKingConfiguration E c n' = Some n'"
    by (simp add: applyKingConfiguration_def mgr m'(2) Let_def)
  ultimately show thesis using that mgr m'(2) by blast
qed

section \<open>Instances to evaluate\<close>

definition demo_list :: "string \<Rightarrow> address list \<Rightarrow> db_response" where
  "demo_list pid ks = \<lparr>ds_RequestID = ''r'', ds_Status = ''error'', ds_Rotations = [],
     ds_Config = Some (DefaultRotatingKingConfig\<lparr>kc_KingAddresses := ks\<rparr>), ds_LatestBlock = 0, ds_Timestamp = 0,
     ds_PeerID = pid, ds_TargetPeerID = []\<rparr>"

definition demo_net :: king_net where
  "demo_net = \<lparr>kx_written = \<lambda>_. True, kx_broadcaster = True, kx_now = 0, kx_height = 250, kx_self = ''me'', kx_peers = [''p''],
     kx_enabled = True, kx_version = ''1'', kx_crypto = const_crypto,
     kx_list_event = (\<lambda>_. Some \<lparr>le_BlockHeight = 0, le_NewList = [66]\<rparr>),
     kx_rotation_event = (\<lambda>_. Some \<lparr>re_BlockHeight = 250, re_NewKing = 66, re_Eligible = False\<rparr>),
     kx_rotation = (\<lambda>_. None), kx_config = (\<lambda>_. None), kx_request = (\<lambda>_. None),
     kx_response = (\<lambda>_. Some (demo_list ''p'' [66, 67, 68, 69])),
     kx_status = (\<lambda>_. Some \<lparr>dt_PeerID = ''x'', dt_LastSyncedBlock = 0, dt_IsSyncing = False, dt_Version = ''1''\<rparr>),
     kx_announce = (\<lambda>_. None), kx_history = (\<lambda>_ _. None), kx_order = (\<lambda>x. x), kx_list_order = (\<lambda>x. x)\<rparr>"

definition demo_node :: king_node where
  "demo_node = \<lparr>kn_manager = Some king_demo, kn_lastKingList = [], kn_rates = \<lambda>_. None, kn_requests = [], kn_responses = [],
     kn_peers = [], kn_sent = []\<rparr>"

lemma king_demo_sel [simp]:
  "kn_manager demo_node = Some king_demo" "kn_rates demo_node = (\<lambda>_. None)" "GetKingAddresses king_demo = [7, 8, 9]"
  "km_bc king_demo \<noteq> None"
  "kx_written demo_net = (\<lambda>_. True)" "kx_self demo_net = ''me''" "kx_height demo_net = 250"
  by (simp_all add: demo_node_def demo_net_def GetKingAddresses_def king_demo_def)

section \<open>Properties\<close>

text \<open>
  C37: two messages make any address the current king of a node: an update that adds it to the list, and a rotation
  event of the current height that states the known eligibility of the present king. Neither is signed, and
  the stake of the new king is not looked at.
\<close>

theorem any_peer_seizes_the_crown:
  assumes "kn_manager n = Some m" "king_ok m" "km_bc m \<noteq> None" "GetKingAddresses m \<noteq> []" "distinct (GetKingAddresses m)"
    and "kx_written E = (\<lambda>_. True)" "p \<noteq> kx_self E" "kn_rates n p = None" "kx_height E \<noteq> 0"
    and "d1 \<noteq> []" "kx_config E d1 = None" "kx_list_event E d1 = Some \<lparr>le_BlockHeight = 0, le_NewList = [a]\<rparr>"
    and "99 \<le> length d2" "kx_rotation_event E d2 = Some \<lparr>re_BlockHeight = kx_height E, re_NewKing = a, re_Eligible = e\<rparr>"
    and e: "IsEligible m = Some e"
  shows "\<exists>n1 n2 m2. handleKingMessages E p (0x04 # d1) n = Some n1 \<and> handleKingMessages E p (0x03 # d2) n1 = Some n2
    \<and> kn_manager n2 = Some m2 \<and> GetCurrentKing m2 = Some a"
proof -
  let ?r1 = "n\<lparr>kn_rates := (kn_rates n)(p \<mapsto> \<lparr>rl_count = 1, rl_resetTime = kx_now E\<rparr>)\<rparr>"
  obtain m1 where m1: "apply_merged E [a] m ?r1 = Some (?r1\<lparr>kn_manager := Some m1\<rparr>)" "a \<in> set (GetKingAddresses m1)"
      "km_bc m1 = km_bc m" "IsEligible m1 = IsEligible m"
  proof (cases "a \<in> set (GetKingAddresses m)")
    case True
    then have "apply_merged E [a] m ?r1 = Some (?r1\<lparr>kn_manager := Some m\<rparr>)"
      using assms(1,5) by (simp add: apply_merged_def merge_subset)
    with that True show thesis by blast
  next
    case False
    then have merged: "mergeAddressLists (GetKingAddresses m) [a] = GetKingAddresses m @ [a]" using assms(5) by (rule merge_new [rotated])
    have mgr: "kn_manager ?r1 = Some m" and ne: "GetKingAddresses m @ [a] \<noteq> []" using assms(1) by simp_all
    obtain m' where m': "update_kings E (GetKingAddresses m @ [a]) ?r1 = Some (True, ?r1\<lparr>kn_manager := Some m'\<rparr>)"
        "GetKingAddresses m' = GetKingAddresses m @ [a]" "km_bc m' = km_bc m"
        "ks_CurrentKingIndex (km_state m') =
          (if ks_CurrentKingIndex (km_state m) \<ge> int (length (GetKingAddresses m @ [a])) then 0 else ks_CurrentKingIndex (km_state m))"
      by (rule update_kings_written [OF assms(6) mgr assms(3) ne])
    moreover have "ks_CurrentKingIndex (km_state m') = ks_CurrentKingIndex (km_state m)"
      using m'(4) assms(2,4) by (auto simp: king_ok_def Let_def GetKingAddresses_def)
    ultimately have "IsEligible m' = IsEligible m" by (intro eligible_same [OF assms(2,4)])
    then show thesis using that [of m'] m' by (simp add: apply_merged_def merged)
  qed
  let ?n1 = "?r1\<lparr>kn_manager := Some m1\<rparr>"
  have first: "handleKingMessages E p (0x04 # d1) n = Some ?n1"
    using assms(1,7,10-12) m1(1) by (cases d1) (simp_all add: handleKingMessages_def handleKingListUpdate_def first_event [OF assms(8)] Let_def)
  obtain m2 where m2: "ForceRotateToAddress (\<lambda>_. True) (kx_now E) m1 a = (Inr (), m2)" "GetCurrentKing m2 = Some a"
    using force_written [OF m1(2), of "kx_now E"] m1(3) assms(3) by auto
  have "handleKingMessages E p (0x03 # d2) ?n1
      = Some (?n1\<lparr>kn_rates := (kn_rates ?n1)(p \<mapsto> \<lparr>rl_count = 2, rl_resetTime = kx_now E\<rparr>), kn_manager := Some m2\<rparr>)"
    using assms(6,7,9,13,14) e m1(4) m2(1)
    by (simp add: handleKingMessages_def handleKingRotation_def second_event processKingRotationEvent_def)
  with first m2(2) show ?thesis by (intro exI [of _ ?n1] exI) auto
qed

theorem any_peer_seizes_the_crown_witness:
  "\<exists>n1 n2 m2. handleKingMessages demo_net ''p'' (0x04 # [0]) demo_node = Some n1
    \<and> handleKingMessages demo_net ''p'' (0x03 # replicate 99 0) n1 = Some n2 \<and> kn_manager n2 = Some m2 \<and> GetCurrentKing m2 = Some 66"
proof (rule any_peer_seizes_the_crown)
  show "IsEligible king_demo = Some False"
    by (simp add: IsEligible_def GetCurrentKing_def king_at_def king_demo_def EligibilityThreshold_def zero_address_def)
qed (use king_demo_ok in \<open>auto simp: demo_net_def\<close>)

text \<open>
  C38: one database response that nobody asked for replaces all kings: if it carries more addresses than the node
  has, they become its list, whatever the status of the response says.
\<close>

theorem any_peer_replaces_the_kings:
  assumes "kn_manager n = Some m" "km_bc m \<noteq> None" "kx_written E = (\<lambda>_. True)" "p \<noteq> kx_self E" "kn_rates n p = None"
    and "kx_response E d = Some resp" "ds_TargetPeerID resp = []" "ds_Rotations resp = []" "ds_LatestBlock resp = 0"
    and "ds_Config resp = Some c" "length (GetKingAddresses m) < length (kc_KingAddresses c)"
  shows "\<exists>n' m'. handleDBSyncMessages E p (0x06 # d) n = Some n' \<and> kn_manager n' = Some m' \<and> GetKingAddresses m' = kc_KingAddresses c"
proof -
  let ?r = "n\<lparr>kn_rates := (kn_rates n)(p \<mapsto> \<lparr>rl_count = 1, rl_resetTime = kx_now E\<rparr>)\<rparr>"
  define resp' where "resp' = (if ds_PeerID resp = [] then resp\<lparr>ds_PeerID := p\<rparr> else resp)"
  define q where "q = pruneDBSyncCacheLocked (unix_of (kx_now E - 10 * minute))
    (?r\<lparr>kn_responses := AList.update (ds_RequestID resp') resp' (kn_responses ?r)\<rparr>)"
  have q: "kn_manager q = Some m" using assms(1) by (simp add: q_def pruneDBSyncCacheLocked_def)
  obtain n' m' where once: "applyKingConfiguration E c q = Some n'" and mgr: "kn_manager n' = Some m'"
      and list: "GetKingAddresses m' = kc_KingAddresses c" and twice: "applyKingConfiguration E c n' = Some n'"
    by (rule longer_list_applied [OF q assms(2,3,11)])
  have "processReceivedRotations E (ds_Rotations resp') x q = Some q" for x using assms(8) by (simp add: processReceivedRotations_def resp'_def)
  moreover have "ds_Config resp' = Some c" "ds_LatestBlock resp' = 0" "\<not> not_for_us E (ds_TargetPeerID resp)"
    using assms(7,9,10) by (simp_all add: not_for_us_def resp'_def)
  ultimately have "handleDBSyncResponse E p (0x06 # d) ?r = Some n'"
    unfolding handleDBSyncResponse_def list.sel assms(6) option.case Let_def resp'_def [symmetric] q_def [symmetric]
    using assms(11) by (simp add: q once twice)
  then have "handleDBSyncMessages E p (0x06 # d) n = Some n'"
    using assms(4) by (simp add: handleDBSyncMessages_def first_event [OF assms(5)])
  with mgr list show ?thesis by blast
qed

theorem any_peer_replaces_the_kings_witness:
  "\<exists>n' m'. handleDBSyncMessages demo_net ''p'' (0x06 # []) demo_node = Some n' \<and> kn_manager n' = Some m' \<and> GetKingAddresses m' = [66, 67, 68, 69]"
  using any_peer_replaces_the_kings [of demo_node king_demo demo_net "''p''" "[]" "demo_list ''p'' [66, 67, 68, 69]"
      "DefaultRotatingKingConfig\<lparr>kc_KingAddresses := [66, 67, 68, 69]\<rparr>"]
  by (simp add: demo_net_def demo_list_def)

text \<open>
  C39: a short name in a message ends the process: the logger is given its first eight bytes, which are not there. It
  holds of a status, of an announcement, and of a response with rotations.
\<close>

theorem short_name_ends_the_process:
  assumes "p \<noteq> kx_self E" "fst (allowEventFromPeer E p n)" "length pid < 8"
    and "t = 0x07 \<and> (\<exists>st. kx_status E d = Some st \<and> dt_PeerID st = pid)
      \<or> t = 0x08 \<and> kx_announce E d = Some pid
      \<or> t = 0x06 \<and> (\<exists>r. kx_response E d = Some r \<and> ds_PeerID r = pid \<and> pid \<noteq> [] \<and> ds_Rotations r \<noteq> [] \<and> ds_TargetPeerID r = [])"
  shows "handleDBSyncMessages E p (t # d) n = None"
proof -
  obtain n1 where "allowEventFromPeer E p n = (True, n1)" using assms(2) by (cases "allowEventFromPeer E p n") auto
  then show ?thesis
    using assms(1,3,4)
    by (auto simp: handleDBSyncMessages_def handleDBSyncStatus_def handleDBSyncAnnounce_def handleDBSyncResponse_def short_id_ok_def
        processReceivedRotations_def not_for_us_def Let_def)
qed

theorem short_name_ends_the_process_witness:
  "handleDBSyncMessages demo_net ''p'' (0x07 # []) demo_node = None"
  by (rule short_name_ends_the_process [where pid = "''x''"]) (simp_all add: first_event demo_net_def)

text \<open>
  C40: the comparison of the lists of all peers takes a majority of mentions for a majority of peers: a peer that repeats
  an address often enough in its list makes it a king.
\<close>

theorem repeated_address_becomes_king:
  assumes "kx_written E = (\<lambda>_. True)" "kn_manager n = Some m" "km_bc m \<noteq> None" "2 \<le> length peerLists"
    and "(p, l) \<in> set peerLists" "length peerLists div 2 + 1 \<le> count_list l a" "\<And>xs. set (kx_order E xs) = set xs" "GetKingAddresses m = ourList"
  shows "\<exists>n' m'. analyzeAndMergeKingLists E ourList peerLists n = Some n' \<and> kn_manager n' = Some m' \<and> a \<in> set (GetKingAddresses m')"
proof -
  let ?all = "kx_order E (unique_addresses peerLists)"
  let ?consensus = "filter (\<lambda>x. list_count peerLists x \<ge> length peerLists div 2 + 1) ?all"
  have "count_list l a \<le> list_count peerLists a"
    unfolding list_count_def by (intro member_le_sum_list, use assms(5) in force) simp
  moreover have "a \<in> set l" using assms(6) count_notin by fastforce
  then have all: "a \<in> set ?all" using assms(5,7) by (force simp: unique_addresses_def)
  ultimately have consensus: "a \<in> set ?consensus" using assms(6) by simp
  have step: "\<exists>n' m'. update_and_broadcast E ks x = Some n' \<and> kn_manager n' = Some m' \<and> GetKingAddresses m' = ks \<and> km_bc m' \<noteq> None"
    if "kn_manager x = Some k" "km_bc k \<noteq> None" "ks \<noteq> []" for ks x k
    using update_and_broadcast_written [OF assms(1) that] that(2) by metis
  obtain n1 m1 where 1: "merge_largest E ourList peerLists n = Some n1" "kn_manager n1 = Some m1" "km_bc m1 \<noteq> None"
      "set ourList \<subseteq> set (GetKingAddresses m1)"
  proof (cases "largest_list ourList False (kx_list_order E peerLists)")
    case (Pair largest theirs)
    show thesis
    proof (cases "theirs \<and> length (mergeAddressLists ourList largest) > length ourList")
      case True
      then have "mergeAddressLists ourList largest \<noteq> []" by auto
      then show thesis using step [OF assms(2,3)] True Pair that by (fastforce simp: merge_largest_def Let_def)
    qed (use that assms(2,3,8) Pair in \<open>auto simp: merge_largest_def Let_def\<close>)
  qed
  obtain n2 m2 where 2: "add_consensus E ourList ?consensus n1 = Some n2" "kn_manager n2 = Some m2" "km_bc m2 \<noteq> None"
      "a \<in> set (GetKingAddresses m2)"
  proof (cases "findMissingAddresses ourList ?consensus = []")
    case True
    then have "a \<in> set ourList" using consensus by (auto simp: findMissingAddresses_def filter_empty_conv list_ex_iff)
    then show thesis using True that 1(2-4) by (auto simp: add_consensus_def)
  next
    case False
    then have ne: "ourList @ findMissingAddresses ourList ?consensus \<noteq> []" by simp
    have "a \<in> set (ourList @ findMissingAddresses ourList ?consensus)"
      using consensus by (auto simp: findMissingAddresses_def list_ex_iff)
    then show thesis using step [OF 1(2,3) ne] False that by (auto simp: add_consensus_def Let_def)
  qed
  have "\<exists>n' m'. (if length ?all > length ourList then considerCreatingSuperSet E ourList ?all n2 else Some n2) = Some n'
      \<and> kn_manager n' = Some m' \<and> a \<in> set (GetKingAddresses m')"
  proof -
    have "a \<in> set (mergeAddressLists ourList ?all)" using all by simp
    moreover from this have "mergeAddressLists ourList ?all \<noteq> []" by (metis empty_iff empty_set)
    ultimately show ?thesis using step [OF 2(2,3)] 2(2,4) by (fastforce simp: considerCreatingSuperSet_def Let_def)
  qed
  then show ?thesis using assms(4) 2(1) by (simp add: analyzeAndMergeKingLists_def Let_def 1(1))
qed

theorem repeated_address_becomes_king_witness:
  "\<exists>n' m'. analyzeAndMergeKingLists demo_net [7, 8, 9] [(''me'', [7, 8, 9]), (''p'', [66, 66])] demo_node = Some n'
    \<and> kn_manager n' = Some m' \<and> 66 \<in> set (GetKingAddresses m')"
  by (rule repeated_address_becomes_king [where p = "''p''" and l = "[66, 66]" and m = king_demo]) (simp_all add: demo_net_def)

text \<open>
  The exchange never reconciles the order of the kings: a node ignores every list that has no new member, so
  two nodes with the same kings in different orders keep them, and their kings differ at the same index.
\<close>

theorem order_is_never_reconciled:
  assumes "kn_manager n = Some m" "distinct (GetKingAddresses m)" "p \<noteq> kx_self E" "kx_config E d = None"
    and "kx_list_event E d = Some event" "set (le_NewList event) \<subseteq> set (GetKingAddresses m)"
  shows "\<exists>n'. handleKingMessages E p (0x04 # d) n = Some n' \<and> kn_manager n' = Some m"
proof -
  obtain ok n1 where n1: "allowEventFromPeer E p n = (ok, n1)" "kn_manager n1 = Some m"
    using assms(1) by (auto simp: allowEventFromPeer_def Let_def)
  have "apply_merged E (le_NewList event) m n1 = Some n1"
    using assms(2,6) by (simp add: apply_merged_def merge_subset)
  then show ?thesis
    using assms(1,3-5) n1 by (auto simp: handleKingMessages_def handleKingListUpdate_def Let_def split: bool.splits)
qed

theorem order_is_never_reconciled_witness:
  "\<exists>n'. handleKingMessages (demo_net\<lparr>kx_list_event := \<lambda>_. Some \<lparr>le_BlockHeight = 0, le_NewList = [9, 8, 7]\<rparr>\<rparr>) ''p'' (0x04 # [0]) demo_node = Some n'
    \<and> kn_manager n' = Some king_demo"
  by (rule order_is_never_reconciled) (auto simp: demo_net_def)

lemma sync_wraps_below_ten:
  assumes "kx_enabled E" "kn_manager n = Some m" "km_sync m = Some s" "h < 10" "ky_LastSyncedBlock s < 1000"
  shows "syncDatabaseForNewBlock E h n"
proof -
  have "unat h < 10" using assms(4) by (simp add: word_less_nat_alt)
  then have "1000 \<le> h - 10" by (simp add: word_le_nat_alt unat_sub_if')
  with assms show ?thesis by (simp add: syncDatabaseForNewBlock_def)
qed

end
