(* ===== verification/Spec2Isabelle.thy ===== *)
theory Spec2Isabelle
  imports Prelude Common_Types Hex_Util Reward_Schedule Transactions Blocks Protocol Account_State VM Distribution Execution Tx_Ordering Staking Binary_Heap Tx_Pool Rotating_King Governance Float_Rounding Difficulty Pow Block_Validation Fork_Choice Reorg Chain_DB Blockchain Recovery Checkpoint_Keys Checkpoints Node_Checkpoints Ban_Manager Peer_Sync Peer_Blocks Peer_Kings
begin

text \<open>
  Verification of antdchain, a proof-of-work blockchain node written in Go. Paths are relative to
  \<open>src/\<close>.

  \<^bold>\<open>The program.\<close> A node keeps account balances in a key-value store, a pool of transactions, a
  rotation of \<open>kings\<close> that share the block reward, stakes, and a chain of blocks. A block from a
  peer or the local miner is compared with the tip, checked against its parent (header, difficulty,
  proof of work, roots), executed on the account state, rewarded, and made canonical; competing
  blocks are decided by a fork-choice rule and by reorganisations. Every part below is a theory with
  the state of the part as a record, one definition for each of its functions, and its properties.

  \<^bold>\<open>Theories.\<close>

  \<^item> \<open>Prelude\<close>, \<open>Common_Types\<close>, \<open>Hex_Util\<close>: machine integers as words, byte codecs, hashes,
    addresses, hexadecimal text (\<open>common/\<close>). Hash functions, Base58 and ML-DSA-65 are third-party
    code: the record \<open>crypto\<close>, a parameter.

  \<^item> \<open>Reward_Schedule\<close>, \<open>Distribution\<close>: subsidy, supply and its split
    (\<open>antdc/reward/reward.go\<close>, \<open>antdc/fees/gas.go\<close>).

  \<^item> \<open>Transactions\<close>, \<open>Blocks\<close>, \<open>Protocol\<close>: transactions, headers and blocks with their preimages,
    hashes and structural checks, and the protocol schedule (\<open>antdc/tx\<close>, \<open>antdc/nonce\<close>,
    \<open>antdc/block\<close>, \<open>antdc/chain/protocol.go\<close>, \<open>antdc/chain/genesis.go\<close>).

  \<^item> \<open>Account_State\<close>, \<open>VM\<close>, \<open>Execution\<close>, \<open>Tx_Ordering\<close>: the account store, the interpreter, and the
    execution of a block with maturity, rewards and the dry run that predicts its state root
    (\<open>antdc/state\<close>, \<open>antdc/vm\<close>, \<open>antdc/chain/execution.go\<close>, \<open>maturity.go\<close>, \<open>rewards.go\<close>,
    parts of \<open>templates.go\<close>). LevelDB is the record \<open>kv_ops\<close>; the locales \<open>kv_store\<close>,
    \<open>kv_reliable\<close> and \<open>account_ledger\<close> state what is relied upon, and a finite map provides them.

  \<^item> \<open>Staking\<close>, \<open>Governance\<close>, \<open>Rotating_King\<close>: the managers of the same names (\<open>antdc/staking\<close>,
    \<open>antdc/governance\<close>, \<open>antdc/rotatingking\<close>). Staking refines an abstract escrow; governance sees the
    kings through the locale \<open>king_list\<close>, which the manager provides.

  \<^item> \<open>Binary_Heap\<close>, \<open>Tx_Pool\<close>: Go's \<open>container/heap\<close> and the transaction pool over it
    (\<open>antdc/chain/txpool.go\<close>), through the locale \<open>priority_list\<close>.

  \<^item> \<open>Float_Rounding\<close>, \<open>Difficulty\<close>, \<open>Pow\<close>: IEEE rounding, the difficulty of
    \<open>difficulty/difficulty.go\<close>, and the engine of \<open>antdc/pow/pow.go\<close> with mining and verification.

  \<^item> \<open>Block_Validation\<close>, \<open>Fork_Choice\<close>, \<open>Reorg\<close>: validation with execution
    (\<open>antdc/chain/validation.go\<close>), the order on competing blocks (end of \<open>antdc/chain/sync.go\<close>) and
    the reorganisation manager (\<open>antdc/chain/reorganize.go\<close>). The manager's chain is a record of
    operations; the locales \<open>reorg_chain\<close>, \<open>restoring_chain\<close> and \<open>detaching_chain\<close> are its contract.

\<^item> \<open>Chain_DB\<close>: the layout and the operations of the chain database (\<open>antdc/chain/db\<close>, the batches of \<open>blockchain.go\<close> and
  the pruning marks), over a key-value store with batches and an RLP codec as parameters; its writes refine updates of
  an abstract view (locales \<open>pebble_store\<close> and \<open>chain_store\<close>, interpreted on a finite map). The codec is assumed to
  read back only blocks without nil pointers (\<open>plain_block\<close>); nothing is claimed of the others once stored.
\<^item> \<open>Blockchain\<close>: reads, acceptance of blocks, replacement of the tip, reversal by replay and the adapter for the
  reorganisation manager (\<open>sync.go\<close>, \<open>blockchain.go\<close>, \<open>prune_reorg_integration.go\<close>): the invariant of the chain under
  \<open>addBlockInternal\<close>, the effect of an acceptance, and what goes wrong in the reversal: the adapter does not keep the
  contract \<open>restoring_chain\<close> of the manager, which the chain of the tests does.
\<^item> \<open>Recovery\<close>: the start of a node (\<open>antdc/chain/initialization.go\<close>, storage of \<open>genesis.go\<close>): the search for the tip and its
  repair, the genesis block, legacy blocks; what a restart keeps and what it loses.
\<^item> \<open>Checkpoint_Keys\<close>, \<open>Checkpoints\<close>, \<open>Node_Checkpoints\<close>: signed checkpoints (\<open>antdc/checkpoints/checkpoints.go\<close>,
  helpers of \<open>antdc/chain/sync.go\<close>): Base64 text, keys and signatures over the record \<open>key_lib\<close>, the manager with
  its configuration file and remote sources, and what the chain does with it. The locales \<open>signature_scheme\<close>,
  \<open>binding_scheme\<close> and \<open>key_formats\<close> state what is relied upon. Shown: the genesis block is pinned, a restart keeps
  what was saved, and how checkpoints are forged, lost and refused.
\<^item> \<open>Ban_Manager\<close>: bans, violations and the checks of messages (\<open>antdc/p2p/ban_p2p.go\<close>), with the mutex as a part of
  the state, because the code takes it twice: how a node hangs, who is not checked, and the rate limit.
\<^item> \<open>Peer_Sync\<close>, \<open>Peer_Blocks\<close>: the synchronisation with a peer and the treatment of blocks from peers
  (\<open>antdc/p2p/p2p.go\<close>, \<open>TruncateTo\<close>), over the interface \<open>p2p_chain\<close> of the chain (locale \<open>p2p_chain_laws\<close>,
  interpreted on \<open>Blockchain\<close> and \<open>Reorg\<close> by \<open>node_chain\<close>): the search for the common ancestor, the download, the
  fork choice of the network, the agreement of miners that judge blocks alike, where it departs from the work rule
  of the reorganisation manager, and what a peer can do to a node.
\<^item> \<open>Peer_Kings\<close>: the exchange of the list of kings and of its database between nodes (\<open>antdc/p2p/p2p.go\<close>): what a
  message of a peer changes, when one ends the process, and that the order of the kings is never reconciled.

  \<^bold>\<open>Conventions.\<close> \<open>uint64\<close> and \<open>int64\<close> are 64-bit words, \<open>big.Int\<close> is \<open>int\<close> (\<open>None\<close> for nil).
  Errors are values of a sum type; a panic is \<open>None\<close> or a constructor of the error type. State is
  passed explicitly and returned with an error, too, where the code changes it before it fails. The
  order in which Go iterates over a map is a parameter or a premise. Clock readings and the
  success of writes are arguments. Locks are left out: each operation is one atomic step, as the
  mutex of its component makes it; where the code locks a mutex twice (\<open>Ban_Manager\<close>, \<open>reorganizeAtHeight\<close> in
  \<open>Blockchain\<close>) the operation hangs, which is a value of its own.

  \<^bold>\<open>Properties.\<close> Invariants of reachable states (pool, kings, engine), refinement (staking and
  escrow, dry run and execution), equivalence with closed forms (rewards, supply, selection of
  transactions), conservation of money, round trips, termination, and the outcome of every branch of
  validation and reorganisation. Several theorems state what the code does where it departs from
  what it says; they are listed with the findings. Each stands after a text block with its claim.

  \<^bold>\<open>Bounds and fuel.\<close> Loops with a bound in the code carry it as a natural number: the walks over
  ancestors (\<open>AdjustmentWindow\<close>, \<open>MaxForkDepth\<close>), the 2^64 nonces of mining. Others are structural, a
  \<open>function\<close> with a measure, or \<open>partial_function (option)\<close>, where \<open>None\<close> means that the loop
  does not end (supply and catch-up loops are proved to end; orphan resolution is proved not to).

  \<^bold>\<open>Not modelled.\<close> Consoles, RPC, the wallet and keystore files and the commands
  (\<open>console\<close>, \<open>cmd\<close>, \<open>rpc\<close>, \<open>antdc/wallet\<close>, \<open>antdc/accounts\<close>): input and output around the components.
  The opening of files and databases at start-up (rest of \<open>antdc/chain/initialization.go\<close>). Goroutines and tickers that only call modelled operations. Log
  lines, metrics and display maps. RLP and JSON encoders are libraries: their input is modelled,
  their output is not. Of the chain: the deletion of old
  blocks by the pruning manager (\<open>antdc/chain/prune.go\<close>), whose marks are modelled; \<open>InsertChain\<close> and the
  batches of \<open>ProcessSyncBatch\<close>, which call modelled operations block by block; the goroutines of the
  mining loop. Of the network: transport, discovery, bootstrap files and streams over libp2p.
\<close>

end
